(* ===== verification/Prelude.thy ===== *)
theory Prelude
  imports Main "HOL-Library.Multiset" "HOL-Library.Word"
begin

text \<open>
  Shared ground of the development: how failures of the C++ code are represented, the
  three-way comparison result of C++20, the model of \<^verbatim>\<open>absl::c_sort\<close>, the hash
  containers of Abseil as duplicate-free lists, and the generic list lemmas that the
  component theories use.

  A function of the source that can stop the program returns a \<open>result\<close>: \<open>Inl\<close> names the
  way it stops, \<open>Inr\<close> carries the value. \<^verbatim>\<open>ENFORCE\<close> (indexer/Enforce.h) is modelled as in
  the debug build, where a false check raises; a theorem that a function returns \<open>Inr\<close>
  therefore covers the release build as well, in which the checks are compiled out.
\<close>

named_theorems result_simps \<open>unfolding rules for checked computations\<close>
named_theorems scip_intros \<open>introduction rules for invariants of the components\<close>

subsection \<open>Failures and checked computations\<close>

datatype failure =
    EnforceFailed string      \<comment> \<open>\<^verbatim>\<open>ENFORCE\<close> with a false condition\<close>
  | BadOptionalAccess         \<comment> \<open>\<^verbatim>\<open>std::optional::value\<close> on an empty optional\<close>
  | ExitFailure string        \<comment> \<open>\<^verbatim>\<open>std::exit(EXIT_FAILURE)\<close>\<close>
  | IndexOutOfRange           \<comment> \<open>index past the end of a \<^verbatim>\<open>std::vector\<close>\<close>
  | NullDereference           \<comment> \<open>use of an empty \<^verbatim>\<open>unique_ptr\<close>\<close>
  | NoReturn string           \<comment> \<open>a loop that is not meant to end\<close>
  | InterprocessException     \<comment> \<open>an exception of the message queues of Boost\<close>

type_synonym 'a result = "failure + 'a"

definition rbind :: "'a result \<Rightarrow> ('a \<Rightarrow> 'b result) \<Rightarrow> 'b result" where
  "rbind m k = (case m of Inl e \<Rightarrow> Inl e | Inr x \<Rightarrow> k x)"

definition enforcing :: "bool \<Rightarrow> string \<Rightarrow> 'a result \<Rightarrow> 'a result" where
  "enforcing c msg k = (if c then k else Inl (EnforceFailed msg))"

definition opt_value :: "'a option \<Rightarrow> 'a result" where
  "opt_value v = (case v of None \<Rightarrow> Inl BadOptionalAccess | Some x \<Rightarrow> Inr x)"

fun rfold :: "('a \<Rightarrow> 's \<Rightarrow> 's result) \<Rightarrow> 'a list \<Rightarrow> 's \<Rightarrow> 's result" where
  "rfold f [] s = Inr s"
| "rfold f (x # xs) s = rbind (f x s) (rfold f xs)"

lemma rbind_simps [simp, result_simps]:
  "rbind (Inl e) k = Inl e"
  "rbind (Inr x) k = k x"
  by (simp_all add: rbind_def)

lemma rbind_eq_Inr [result_simps]: "rbind m k = Inr y \<longleftrightarrow> (\<exists>x. m = Inr x \<and> k x = Inr y)"
  by (cases m) auto

lemma rbind_assoc: "rbind (rbind m k) h = rbind m (\<lambda>x. rbind (k x) h)"
  by (cases m) auto

lemma enforcing_simps [simp, result_simps]:
  "enforcing True msg k = k"
  "enforcing False msg k = Inl (EnforceFailed msg)"
  by (simp_all add: enforcing_def)

lemma enforcing_eq_Inr [result_simps]: "enforcing c msg k = Inr y \<longleftrightarrow> c \<and> k = Inr y"
  by (simp add: enforcing_def)

lemma opt_value_simps [simp, result_simps]:
  "opt_value None = Inl BadOptionalAccess"
  "opt_value (Some x) = Inr x"
  by (simp_all add: opt_value_def)

lemma opt_value_eq_Inr [result_simps]: "opt_value v = Inr y \<longleftrightarrow> v = Some y"
  by (cases v) auto

lemma rfold_append: "rfold f (xs @ ys) s = rbind (rfold f xs s) (rfold f ys)"
  by (induction xs arbitrary: s) (auto simp: rbind_def split: sum.splits)

lemma rfold_invariant:
  assumes "P s"
    and "\<And>x s. x \<in> set xs \<Longrightarrow> P s \<Longrightarrow> \<exists>s'. f x s = Inr s' \<and> P s'"
  shows "\<exists>s'. rfold f xs s = Inr s' \<and> P s'"
  using assms
proof (induction xs arbitrary: s)
  case (Cons x xs)
  then obtain s' where "f x s = Inr s'" "P s'" by (meson list.set_intros(1))
  moreover have "\<exists>s''. rfold f xs s' = Inr s'' \<and> P s''"
    using Cons.IH [OF \<open>P s'\<close>] Cons.prems(2) by simp
  ultimately show ?case by simp
qed simp

subsection \<open>Checked machines\<close>

lemma rfold_preserves:
  assumes "\<And>x s s'. f x s = Inr s' \<Longrightarrow> g s' = g s" "rfold f xs s = Inr s'"
  shows "g s' = g s"
  using assms(2)
proof (induction xs arbitrary: s)
  case (Cons x xs)
  then obtain s1 where "f x s = Inr s1" "rfold f xs s1 = Inr s'" by (auto simp: rbind_def split: sum.splits)
  with Cons.IH [of s1] assms(1) show ?case by simp
qed simp

text \<open>
  The contract of a component whose operations may stop the program: on a state that meets
  the invariant, an operation that is allowed there returns, and the invariant holds again.
\<close>

locale checked_machine =
  fixes step :: "'i \<Rightarrow> 's \<Rightarrow> 's result"
    and inv :: "'s \<Rightarrow> bool"
    and allowed :: "'i \<Rightarrow> 's \<Rightarrow> bool"
  assumes step_inv: "inv s \<Longrightarrow> allowed i s \<Longrightarrow> \<exists>s'. step i s = Inr s' \<and> inv s'"
begin

text \<open>The inputs are allowed in the states in which they arrive.\<close>

fun allowed_run :: "'i list \<Rightarrow> 's \<Rightarrow> bool" where
  "allowed_run [] s \<longleftrightarrow> True"
| "allowed_run (i # is) s \<longleftrightarrow> allowed i s \<and> (\<forall>s'. step i s = Inr s' \<longrightarrow> allowed_run is s')"

lemma allowed_runI: "(\<And>i s. i \<in> set is \<Longrightarrow> allowed i s) \<Longrightarrow> allowed_run is s"
  by (induction "is" arbitrary: s) auto

lemma run_inv: "inv s \<Longrightarrow> allowed_run is s \<Longrightarrow> \<exists>s'. rfold step is s = Inr s' \<and> inv s'"
proof (induction "is" arbitrary: s)
  case (Cons i "is")
  then obtain s1 where s1: "step i s = Inr s1" "inv s1" using step_inv by fastforce
  with Cons.prems(2) have "allowed_run is s1" by simp
  with Cons.IH [OF s1(2)] s1(1) show ?case by simp
qed simp

lemma run_invD: "inv s \<Longrightarrow> allowed_run is s \<Longrightarrow> rfold step is s = Inr s' \<Longrightarrow> inv s'"
  using run_inv [of s "is"] by auto

end

subsection \<open>Hash containers as lists without duplicates\<close>

text \<open>
  The iteration order of \<^verbatim>\<open>absl::flat_hash_set\<close> and \<^verbatim>\<open>absl::flat_hash_map\<close> is
  unspecified. A set is kept as a list without duplicates in insertion order, a map as an
  association list with distinct keys; wherever the code iterates over the container, the
  order it sees is a parameter that permutes the list.
\<close>

definition hset_insert :: "'a \<Rightarrow> 'a list \<Rightarrow> 'a list" where
  "hset_insert x xs = (if x \<in> set xs then xs else xs @ [x])"

definition hmap_emplace :: "'k \<Rightarrow> 'v \<Rightarrow> ('k \<times> 'v) list \<Rightarrow> ('k \<times> 'v) list" where
  "hmap_emplace k v m = (if map_of m k = None then m @ [(k, v)] else m)"

fun hmap_update :: "'k \<Rightarrow> 'v \<Rightarrow> ('k \<times> 'v) list \<Rightarrow> ('k \<times> 'v) list" where
  "hmap_update k v [] = [(k, v)]"
| "hmap_update k v ((k', v') # m) = (if k = k' then (k, v) # m else (k', v') # hmap_update k v m)"

definition hmap_erase :: "'k \<Rightarrow> ('k \<times> 'v) list \<Rightarrow> ('k \<times> 'v) list" where
  "hmap_erase k m = filter (\<lambda>(k', _). k' \<noteq> k) m"

lemma set_hset_insert [simp]: "set (hset_insert x xs) = insert x (set xs)"
  by (auto simp: hset_insert_def)

lemma distinct_hset_insert [simp]: "distinct (hset_insert x xs) = distinct xs"
  by (simp add: hset_insert_def)

lemma set_fold_hset_insert [simp]: "set (fold hset_insert ys xs) = set xs \<union> set ys"
  by (induction ys arbitrary: xs) auto

lemma distinct_fold_hset_insert [simp]: "distinct (fold hset_insert ys xs) = distinct xs"
  by (induction ys arbitrary: xs) auto

lemma map_of_snoc: "map_of (m @ [(k, v)]) x =
    (case map_of m x of Some y \<Rightarrow> Some y | None \<Rightarrow> if x = k then Some v else None)"
  by (auto simp: map_add_def split: option.splits)

lemma map_of_hmap_emplace [simp]:
  "map_of (hmap_emplace k v m) =
     (if map_of m k = None then (map_of m)(k \<mapsto> v) else map_of m)"
  by (rule ext) (auto simp: hmap_emplace_def map_add_def split: option.splits)

lemma map_of_hmap_update [simp]: "map_of (hmap_update k v m) = (map_of m)(k \<mapsto> v)"
  by (induction k v m rule: hmap_update.induct) (auto simp: fun_eq_iff)

lemma map_of_hmap_erase [simp]: "map_of (hmap_erase k m) = (map_of m)(k := None)"
  by (induction m) (auto simp: hmap_erase_def fun_eq_iff)

lemma keys_hmap_update:
  "map fst (hmap_update k v m) = (if map_of m k = None then map fst m @ [k] else map fst m)"
  by (induction k v m rule: hmap_update.induct) auto

lemma distinct_hmap_update [simp]:
  "distinct (map fst (hmap_update k v m)) = distinct (map fst m)"
  by (simp add: keys_hmap_update map_of_eq_None_iff)

lemma distinct_hmap_emplace [simp]:
  "distinct (map fst (hmap_emplace k v m)) = distinct (map fst m)"
  by (simp add: hmap_emplace_def map_of_eq_None_iff)

lemma distinct_hmap_erase [simp]:
  "distinct (map fst m) \<Longrightarrow> distinct (map fst (hmap_erase k m))"
  by (induction m) (auto simp: hmap_erase_def)

subsection \<open>Characters, prefixes and suffixes of strings\<close>

definition starts_with :: "string \<Rightarrow> string \<Rightarrow> bool" where
  "starts_with s p \<longleftrightarrow> take (length p) s = p"

definition ends_with :: "string \<Rightarrow> string \<Rightarrow> bool" where
  "ends_with s p \<longleftrightarrow> length p \<le> length s \<and> drop (length s - length p) s = p"

lemma starts_with_append [simp]: "starts_with (p @ s) p"
  by (simp add: starts_with_def)

lemma starts_with_iff: "starts_with s p \<longleftrightarrow> (\<exists>t. s = p @ t)"
  by (metis append_eq_conv_conj append_take_drop_id starts_with_def)

lemma ends_with_append [simp]: "ends_with (s @ p) p"
  by (simp add: ends_with_def)

lemma ends_with_iff: "ends_with s p \<longleftrightarrow> (\<exists>t. s = t @ p)"
proof
  assume "ends_with s p"
  then have "s = take (length s - length p) s @ p"
    by (metis append_take_drop_id ends_with_def)
  then show "\<exists>t. s = t @ p" by blast
qed auto

text \<open>Position of the first occurrence of a character, as \<^verbatim>\<open>std::string_view::find\<close>.\<close>

fun find_char :: "char \<Rightarrow> string \<Rightarrow> nat option" where
  "find_char c [] = None"
| "find_char c (x # xs) = (if x = c then Some 0 else map_option Suc (find_char c xs))"

lemma find_char_None: "find_char c s = None \<longleftrightarrow> c \<notin> set s"
  by (induction s) auto

lemma find_char_Some:
  "find_char c s = Some i \<Longrightarrow> i < length s \<and> s ! i = c \<and> c \<notin> set (take i s)"
  by (induction s arbitrary: i) (auto split: if_splits)

lemma find_char_append: "c \<notin> set p \<Longrightarrow> find_char c (p @ c # s) = Some (length p)"
  by (induction p) auto

end
