(* ===== verification/Comparison.thy ===== *)
theory Comparison
  imports Prelude
begin

text \<open>
  Three-way comparison: indexer/Comparison.h and indexer/Comparison.cc, with the sorting
  the rest of the program builds on it (\<^verbatim>\<open>absl::c_sort\<close>) and the two
  \<^verbatim>\<open>extractTransform\<close> overloads of indexer/AbslExtras.h. The locale \<open>three_way\<close> is the
  contract every \<^verbatim>\<open>operator<=>\<close> of the program has to meet; inside it, sorting is shown to
  give a canonical list, which is what the deterministic mode of the indexer rests on.
\<close>

subsection \<open>Orderings and the comparison macros\<close>

datatype strong_ordering = SO_less | SO_equal | SO_greater

datatype Comparison = Greater | Equal | Less

definition CMP_CHECK :: "strong_ordering \<Rightarrow> strong_ordering \<Rightarrow> strong_ordering" where
  "CMP_CHECK c k = (if c \<noteq> SO_equal then c else k)"

definition spaceship :: "'a::linorder \<Rightarrow> 'a \<Rightarrow> strong_ordering" where
  "spaceship x y = (if x < y then SO_less else if x = y then SO_equal else SO_greater)"

definition CMP_EXPR :: "'a::linorder \<Rightarrow> 'a \<Rightarrow> strong_ordering \<Rightarrow> strong_ordering" where
  "CMP_EXPR x y k = CMP_CHECK (spaceship x y) k"

text \<open>\<^verbatim>\<open>std::memcmp\<close> on two buffers of one length compares bytes as unsigned.\<close>

fun memcmp :: "string \<Rightarrow> string \<Rightarrow> int" where
  "memcmp (a # as) (b # bs) =
     (if a = b then memcmp as bs else int (of_char a) - int (of_char b))"
| "memcmp _ _ = 0"

definition compareStrings :: "string \<Rightarrow> string \<Rightarrow> Comparison" where
  "compareStrings s1 s2 =
     (if length s1 < length s2 then Less
      else if length s1 > length s2 then Greater
      else let c = memcmp s1 s2
           in if c < 0 then Less else if c = 0 then Equal else Greater)"

fun comparisonToStrongOrdering :: "Comparison \<Rightarrow> strong_ordering" where
  "comparisonToStrongOrdering Greater = SO_greater"
| "comparisonToStrongOrdering Equal = SO_equal"
| "comparisonToStrongOrdering Less = SO_less"

definition cmpStr :: "string \<Rightarrow> string \<Rightarrow> strong_ordering" where
  "cmpStr s1 s2 = comparisonToStrongOrdering (compareStrings s1 s2)"

definition CMP_STR :: "string \<Rightarrow> string \<Rightarrow> strong_ordering \<Rightarrow> strong_ordering" where
  "CMP_STR x y k = CMP_CHECK (cmpStr x y) k"

fun compareElements ::
  "('a \<Rightarrow> 'a \<Rightarrow> strong_ordering) \<Rightarrow> 'a list \<Rightarrow> 'a list \<Rightarrow> strong_ordering" where
  "compareElements f (x # xs) (y # ys) = CMP_CHECK (f x y) (compareElements f xs ys)"
| "compareElements f _ _ = SO_equal"

definition compareRange ::
  "('a \<Rightarrow> 'a \<Rightarrow> strong_ordering) \<Rightarrow> 'a list \<Rightarrow> 'a list \<Rightarrow> strong_ordering" where
  "compareRange f c1 c2 = CMP_EXPR (length c1) (length c2) (compareElements f c1 c2)"

subsection \<open>Sorting with a comparator\<close>

text \<open>
  \<^verbatim>\<open>absl::c_sort\<close> with a strict comparator. The standard fixes the result only up to the
  order of equivalent elements; under the laws of \<open>three_way\<close> there are none.
\<close>

fun insort_lt :: "('a \<Rightarrow> 'a \<Rightarrow> bool) \<Rightarrow> 'a \<Rightarrow> 'a list \<Rightarrow> 'a list" where
  "insort_lt lt x [] = [x]"
| "insort_lt lt x (y # ys) = (if lt y x then y # insort_lt lt x ys else x # y # ys)"

fun c_sort :: "('a \<Rightarrow> 'a \<Rightarrow> bool) \<Rightarrow> 'a list \<Rightarrow> 'a list" where
  "c_sort lt [] = []"
| "c_sort lt (x # xs) = insort_lt lt x (c_sort lt xs)"

definition cmp_lt :: "('a \<Rightarrow> 'a \<Rightarrow> strong_ordering) \<Rightarrow> 'a \<Rightarrow> 'a \<Rightarrow> bool" where
  "cmp_lt cmp x y \<longleftrightarrow> cmp x y = SO_less"

text \<open>
  \<^verbatim>\<open>extractTransform\<close> (indexer/AbslExtras.h) empties a container and feeds every entry to a
  callback; the callback's effects are kept in the order of the calls. \<open>iter\<close> is the order
  in which the hash table hands its nodes out.
\<close>

definition extractTransformMap ::
  "(('k \<times> 'v) list \<Rightarrow> ('k \<times> 'v) list) \<Rightarrow> ('k \<Rightarrow> 'k \<Rightarrow> strong_ordering) \<Rightarrow>
   ('k \<times> 'v) list \<Rightarrow> bool \<Rightarrow> ('k \<Rightarrow> 'v \<Rightarrow> 's \<Rightarrow> 's) \<Rightarrow> 's \<Rightarrow> 's" where
  "extractTransformMap iter cmp m deterministic f s =
     (if \<not> deterministic then fold (\<lambda>(k, v). f k v) (iter m) s
      else fold (\<lambda>(k, v). f k v) (c_sort (\<lambda>p1 p2. cmp_lt cmp (fst p1) (fst p2)) (iter m)) s)"

definition extractTransformSet ::
  "('a list \<Rightarrow> 'a list) \<Rightarrow> ('a \<Rightarrow> 'a \<Rightarrow> strong_ordering) \<Rightarrow>
   'a list \<Rightarrow> bool \<Rightarrow> ('a \<Rightarrow> 's \<Rightarrow> 's) \<Rightarrow> 's \<Rightarrow> 's" where
  "extractTransformSet iter cmp xs deterministic f s =
     (if \<not> deterministic then fold f (iter xs) s
      else fold f (c_sort (cmp_lt cmp) (iter xs)) s)"

definition permutes_lists :: "('a list \<Rightarrow> 'a list) \<Rightarrow> bool" where
  "permutes_lists iter \<longleftrightarrow> (\<forall>xs. mset (iter xs) = mset xs)"

fun so_flip :: "strong_ordering \<Rightarrow> strong_ordering" where
  "so_flip SO_less = SO_greater"
| "so_flip SO_equal = SO_equal"
| "so_flip SO_greater = SO_less"

subsection \<open>The contract of a three-way comparison\<close>

locale three_way =
  fixes cmp :: "'a \<Rightarrow> 'a \<Rightarrow> strong_ordering"
    and valid :: "'a \<Rightarrow> bool"
  assumes cmp_eq: "valid x \<Longrightarrow> valid y \<Longrightarrow> cmp x y = SO_equal \<longleftrightarrow> x = y"
    and cmp_flip: "valid x \<Longrightarrow> valid y \<Longrightarrow> cmp y x = so_flip (cmp x y)"
    and cmp_trans: "valid x \<Longrightarrow> valid y \<Longrightarrow> valid z \<Longrightarrow>
      cmp x y = SO_less \<Longrightarrow> cmp y z = SO_less \<Longrightarrow> cmp x z = SO_less"
begin

lemma lt_irrefl: "valid x \<Longrightarrow> \<not> cmp_lt cmp x x"
  using cmp_eq [of x x] by (simp add: cmp_lt_def)

lemma lt_trans:
  "valid x \<Longrightarrow> valid y \<Longrightarrow> valid z \<Longrightarrow> cmp_lt cmp x y \<Longrightarrow> cmp_lt cmp y z \<Longrightarrow> cmp_lt cmp x z"
  unfolding cmp_lt_def by (rule cmp_trans)

lemma lt_asym:
  assumes "valid x" "valid y" "cmp_lt cmp x y"
  shows "\<not> cmp_lt cmp y x"
  unfolding cmp_lt_def cmp_flip [OF assms(1,2)] using assms(3) by (simp add: cmp_lt_def)

lemma lt_total:
  assumes "valid x" "valid y"
  shows "x = y \<or> cmp_lt cmp x y \<or> cmp_lt cmp y x"
  unfolding cmp_lt_def cmp_flip [OF assms] cmp_eq [OF assms, symmetric]
  by (cases "cmp x y") simp_all

end

subsection \<open>Sorting gives a canonical list\<close>

lemma mset_insort_lt [simp]: "mset (insort_lt lt x xs) = add_mset x (mset xs)"
  by (induction xs) auto

lemma mset_c_sort [simp]: "mset (c_sort lt xs) = mset xs"
  by (induction xs) auto

lemma set_c_sort [simp]: "set (c_sort lt xs) = set xs"
  by (metis mset_c_sort set_mset_mset)

lemma distinct_c_sort [simp]: "distinct (c_sort lt xs) = distinct xs"
  by (metis mset_c_sort mset_eq_imp_distinct_iff)

text \<open>Two lists sorted by one strict order with the same elements are the same list.\<close>

lemma sorted_lt_unique:
  assumes "\<And>x y. x \<in> set xs \<Longrightarrow> y \<in> set xs \<Longrightarrow> lt x y \<Longrightarrow> \<not> lt y x"
    and "sorted_wrt lt xs" "sorted_wrt lt ys" "set xs = set ys"
  shows "xs = ys"
  using assms
proof (induction xs arbitrary: ys)
  case (Cons x xs)
  from Cons.prems(4) obtain y ys' where ys: "ys = y # ys'" by (cases ys) auto
  have irr: "\<not> lt z z" if "z \<in> set (x # xs)" for z
    using Cons.prems(1) [OF that that] by blast
  have "x = y"
  proof (rule ccontr)
    assume "x \<noteq> y"
    with Cons.prems(4) ys have "x \<in> set ys'" "y \<in> set xs" by auto
    with Cons.prems(2,3) ys have "lt y x" "lt x y" by auto
    with Cons.prems(1) \<open>y \<in> set xs\<close> show False by auto
  qed
  have "x \<notin> set xs" using Cons.prems(2) irr by auto
  moreover have "x \<notin> set ys'" using Cons.prems(3) ys \<open>x = y\<close> irr [of x] by auto
  ultimately have "set xs = set ys'" using Cons.prems(4) ys \<open>x = y\<close> by auto
  then have "xs = ys'" using Cons.prems ys by (intro Cons.IH) auto
  with ys \<open>x = y\<close> show ?case by simp
qed simp

context three_way
begin

lemma sorted_insort_lt:
  assumes "valid x" "\<forall>y \<in> set xs. valid y" "x \<notin> set xs" "sorted_wrt (cmp_lt cmp) xs"
  shows "sorted_wrt (cmp_lt cmp) (insort_lt (cmp_lt cmp) x xs)"
  using assms
proof (induction xs)
  case (Cons y ys)
  have set_ins: "set (insort_lt (cmp_lt cmp) x ys) = insert x (set ys)"
    by (metis mset_insort_lt set_mset_add_mset_insert set_mset_mset)
  show ?case
  proof (cases "cmp_lt cmp y x")
    case True
    with Cons set_ins show ?thesis by auto
  next
    case False
    with Cons.prems have "cmp_lt cmp x y" using lt_total [of x y] by auto
    moreover have "\<forall>z \<in> set ys. cmp_lt cmp x z"
      using calculation Cons.prems lt_trans [of x y] by auto
    ultimately show ?thesis using False Cons.prems by simp
  qed
qed simp

lemma sorted_c_sort:
  "\<forall>x \<in> set xs. valid x \<Longrightarrow> distinct xs \<Longrightarrow> sorted_wrt (cmp_lt cmp) (c_sort (cmp_lt cmp) xs)"
  by (induction xs) (auto intro!: sorted_insort_lt)

lemma c_sort_canonical:
  assumes "\<forall>x \<in> set xs. valid x" "distinct xs" "mset xs = mset ys"
  shows "c_sort (cmp_lt cmp) xs = c_sort (cmp_lt cmp) ys"
proof (rule sorted_lt_unique)
  have ys: "set ys = set xs" "distinct ys"
    using assms(2,3) by (metis set_mset_mset, metis mset_eq_imp_distinct_iff)
  show "sorted_wrt (cmp_lt cmp) (c_sort (cmp_lt cmp) xs)"
    using assms by (intro sorted_c_sort) auto
  show "sorted_wrt (cmp_lt cmp) (c_sort (cmp_lt cmp) ys)"
    using assms ys by (intro sorted_c_sort) auto
  show "set (c_sort (cmp_lt cmp) xs) = set (c_sort (cmp_lt cmp) ys)"
    using ys by simp
  show "\<And>x y. x \<in> set (c_sort (cmp_lt cmp) xs) \<Longrightarrow> y \<in> set (c_sort (cmp_lt cmp) xs) \<Longrightarrow>
      cmp_lt cmp x y \<Longrightarrow> \<not> cmp_lt cmp y x"
    using assms(1) lt_asym by auto
qed

lemma extract_set_canonical:
  assumes "permutes_lists it1" "permutes_lists it2" "\<forall>x \<in> set xs. valid x" "distinct xs"
  shows "extractTransformSet it1 cmp xs True f s = extractTransformSet it2 cmp xs True f s"
proof -
  have "mset (it1 xs) = mset xs" "mset (it2 xs) = mset xs"
    using assms(1,2) by (auto simp: permutes_lists_def)
  moreover from this assms(3,4) have "\<forall>x \<in> set (it1 xs). valid x" "distinct (it1 xs)"
    by (metis set_mset_mset, metis mset_eq_imp_distinct_iff)
  ultimately have "c_sort (cmp_lt cmp) (it1 xs) = c_sort (cmp_lt cmp) (it2 xs)"
    by (intro c_sort_canonical) auto
  then show ?thesis by (simp add: extractTransformSet_def)
qed

end

subsection \<open>Building comparisons from comparisons\<close>

lemma three_wayI:
  assumes "\<And>x y. valid x \<Longrightarrow> valid y \<Longrightarrow> cmp x y = SO_equal \<longleftrightarrow> x = y"
    and "\<And>x y. valid x \<Longrightarrow> valid y \<Longrightarrow> cmp y x = so_flip (cmp x y)"
    and "\<And>x y z. valid x \<Longrightarrow> valid y \<Longrightarrow> valid z \<Longrightarrow>
      cmp x y = SO_less \<Longrightarrow> cmp y z = SO_less \<Longrightarrow> cmp x z = SO_less"
  shows "three_way cmp valid"
  using assms by unfold_locales

lemma so_flip_flip [simp]: "so_flip (so_flip c) = c"
  by (cases c) auto

lemma so_flip_eq [simp]: "so_flip c = SO_equal \<longleftrightarrow> c = SO_equal"
  by (cases c) auto

lemma CMP_CHECK_eq: "CMP_CHECK c k = SO_equal \<longleftrightarrow> c = SO_equal \<and> k = SO_equal"
  by (auto simp: CMP_CHECK_def)

lemma CMP_CHECK_less:
  "CMP_CHECK c k = SO_less \<longleftrightarrow> c = SO_less \<or> (c = SO_equal \<and> k = SO_less)"
  by (auto simp: CMP_CHECK_def)

lemma CMP_CHECK_flip: "so_flip (CMP_CHECK c k) = CMP_CHECK (so_flip c) (so_flip k)"
  by (auto simp: CMP_CHECK_def)

lemma three_way_spaceship: "three_way (spaceship :: 'a::linorder \<Rightarrow> _) (\<lambda>_. True)"
  by (rule three_wayI) (auto simp: spaceship_def split: if_splits)

text \<open>Comparing first one key, then another: the shape every \<^verbatim>\<open>operator<=>\<close> here has.\<close>

definition cmp_then ::
  "('a \<Rightarrow> 'a \<Rightarrow> strong_ordering) \<Rightarrow> ('b \<Rightarrow> 'b \<Rightarrow> strong_ordering) \<Rightarrow> 'a \<times> 'b \<Rightarrow> 'a \<times> 'b \<Rightarrow> strong_ordering"
  where "cmp_then f g p q = CMP_CHECK (f (fst p) (fst q)) (g (snd p) (snd q))"

lemma three_way_then:
  assumes "three_way f V" "three_way g W"
  shows "three_way (cmp_then f g) (\<lambda>p. V (fst p) \<and> W (snd p))"
proof -
  note F = three_way.cmp_eq [OF assms(1)] three_way.cmp_trans [OF assms(1)]
  note G = three_way.cmp_eq [OF assms(2)] three_way.cmp_trans [OF assms(2)]
  show ?thesis
  proof (rule three_wayI)
    fix x y :: "'a \<times> 'b"
    assume xy: "V (fst x) \<and> W (snd x)" "V (fst y) \<and> W (snd y)"
    then show "cmp_then f g x y = SO_equal \<longleftrightarrow> x = y"
      by (simp add: cmp_then_def CMP_CHECK_eq F(1) G(1) prod_eq_iff)
    show "cmp_then f g y x = so_flip (cmp_then f g x y)"
      using xy three_way.cmp_flip [OF assms(1), of "fst x" "fst y"]
        three_way.cmp_flip [OF assms(2), of "snd x" "snd y"]
      by (simp add: cmp_then_def CMP_CHECK_flip)
  next
    fix x y z :: "'a \<times> 'b"
    assume v: "V (fst x) \<and> W (snd x)" "V (fst y) \<and> W (snd y)" "V (fst z) \<and> W (snd z)"
      and "cmp_then f g x y = SO_less" "cmp_then f g y z = SO_less"
    then show "cmp_then f g x z = SO_less"
      unfolding cmp_then_def CMP_CHECK_less
      by (metis F G)
  qed
qed

lemma three_way_vimage:
  assumes "three_way f V" "inj p"
  shows "three_way (\<lambda>x y. f (p x) (p y)) (\<lambda>x. V (p x))"
proof (rule three_wayI)
  fix x y assume "V (p x)" "V (p y)"
  then show "f (p x) (p y) = SO_equal \<longleftrightarrow> x = y" and "f (p y) (p x) = so_flip (f (p x) (p y))"
    using three_way.cmp_eq [OF assms(1)] three_way.cmp_flip [OF assms(1), of "p x" "p y"] assms(2)
    by (auto dest: injD)
next
  fix x y z assume "V (p x)" "V (p y)" "V (p z)" "f (p x) (p y) = SO_less" "f (p y) (p z) = SO_less"
  then show "f (p x) (p z) = SO_less" using three_way.cmp_trans [OF assms(1)] by blast
qed

lemma three_way_vimage_on:
  assumes f: "three_way f V" and p: "inj_on p {x. W x}" "\<And>x. W x \<Longrightarrow> V (p x)"
    and g: "\<And>x y. W x \<Longrightarrow> W y \<Longrightarrow> g x y = f (p x) (p y)"
  shows "three_way g W"
proof (rule three_wayI)
  fix x y assume W: "W x" "W y"
  then show "g x y = SO_equal \<longleftrightarrow> x = y"
    using three_way.cmp_eq [OF f p(2) p(2), of x y] g inj_on_eq_iff [OF p(1), of x y] by simp
  show "g y x = so_flip (g x y)"
    using three_way.cmp_flip [OF f p(2) p(2), of x y] g W by simp
next
  fix x y z assume W: "W x" "W y" "W z" and lt: "g x y = SO_less" "g y z = SO_less"
  then have "f (p x) (p y) = SO_less" "f (p y) (p z) = SO_less" using g by auto
  then show "g x z = SO_less"
    using three_way.cmp_trans [OF f p(2) p(2) p(2), of x y z] g W by simp
qed

lemma three_way_mono: "three_way f V \<Longrightarrow> (\<And>x. W x \<Longrightarrow> V x) \<Longrightarrow> three_way f W"
  by (rule three_wayI)
    (auto dest: three_way.cmp_eq three_way.cmp_flip intro: three_way.cmp_trans)

lemma compareElements_props:
  assumes "three_way f V"
  shows "length xs = length ys \<Longrightarrow> list_all V xs \<Longrightarrow> list_all V ys \<Longrightarrow>
      (compareElements f xs ys = SO_equal \<longleftrightarrow> xs = ys) \<and>
      compareElements f ys xs = so_flip (compareElements f xs ys)"
proof (induction xs ys rule: list_induct2')
  case (4 x xs y ys)
  then show ?case
    using three_way.cmp_flip [OF assms, of x y]
    by (simp add: CMP_CHECK_eq CMP_CHECK_flip three_way.cmp_eq [OF assms])
qed auto

lemma compareElements_trans:
  assumes "three_way f V"
  shows "length xs = length ys \<Longrightarrow> length ys = length zs \<Longrightarrow>
      list_all V xs \<Longrightarrow> list_all V ys \<Longrightarrow> list_all V zs \<Longrightarrow>
      compareElements f xs ys = SO_less \<Longrightarrow> compareElements f ys zs = SO_less \<Longrightarrow>
      compareElements f xs zs = SO_less"
proof (induction xs arbitrary: ys zs)
  case (Cons x xs)
  then obtain y ys' z zs' where [simp]: "ys = y # ys'" "zs = z # zs'"
    by (metis length_Suc_conv)
  have V: "V x" "V y" "V z" and
    lt: "f x y = SO_less \<or> f x y = SO_equal \<and> compareElements f xs ys' = SO_less"
       "f y z = SO_less \<or> f y z = SO_equal \<and> compareElements f ys' zs' = SO_less"
    using Cons.prems by (auto simp: CMP_CHECK_less)
  show ?case
  proof (cases "f x y = SO_less \<or> f y z = SO_less")
    case True
    then have "f x z = SO_less"
      using V lt three_way.cmp_eq [OF assms] three_way.cmp_trans [OF assms] by metis
    then show ?thesis by (simp add: CMP_CHECK_less)
  next
    case False
    with lt have "x = y" "y = z" and "compareElements f xs zs' = SO_less"
      using V three_way.cmp_eq [OF assms] Cons.IH [of ys' zs'] Cons.prems by auto
    then show ?thesis using V three_way.cmp_eq [OF assms] by (simp add: CMP_CHECK_less)
  qed
qed auto

lemma spaceship_eq [simp]: "spaceship x y = SO_equal \<longleftrightarrow> x = y"
  by (auto simp: spaceship_def)

lemma spaceship_less [simp]: "spaceship x y = SO_less \<longleftrightarrow> x < y"
  by (auto simp: spaceship_def)

lemma spaceship_flip: "spaceship y x = so_flip (spaceship x y)"
  by (auto simp: spaceship_def)

lemma three_way_compareRange:
  assumes "three_way f V"
  shows "three_way (compareRange f) (list_all V)"
proof (rule three_wayI)
  fix xs ys assume v: "list_all V xs" "list_all V ys"
  show "compareRange f xs ys = SO_equal \<longleftrightarrow> xs = ys"
    using compareElements_props [OF assms _ v]
    by (auto simp: compareRange_def CMP_EXPR_def CMP_CHECK_eq)
  show "compareRange f ys xs = so_flip (compareRange f xs ys)"
  proof (cases "length xs = length ys")
    case True
    then show ?thesis using compareElements_props [OF assms True v]
      by (simp add: compareRange_def CMP_EXPR_def CMP_CHECK_def spaceship_def)
  next
    case False
    then show ?thesis
      by (auto simp: compareRange_def CMP_EXPR_def CMP_CHECK_def spaceship_def)
  qed
next
  fix xs ys zs
  assume v: "list_all V xs" "list_all V ys" "list_all V zs"
    and "compareRange f xs ys = SO_less" "compareRange f ys zs = SO_less"
  then show "compareRange f xs zs = SO_less"
    using compareElements_trans [OF assms, of xs ys zs]
    by (auto simp: compareRange_def CMP_EXPR_def CMP_CHECK_less)
qed

subsection \<open>The size-first order on strings\<close>

lemma compareElements_memcmp:
  "length s1 = length s2 \<Longrightarrow>
   compareElements (\<lambda>a b. spaceship (of_char a :: nat) (of_char b)) s1 s2 =
     (if memcmp s1 s2 < 0 then SO_less else if memcmp s1 s2 = 0 then SO_equal else SO_greater)"
  by (induction s1 s2 rule: memcmp.induct) (auto simp: CMP_CHECK_def spaceship_def)

lemma cmpStr_compareRange:
  "cmpStr s1 s2 = compareRange (\<lambda>a b. spaceship (of_char a :: nat) (of_char b)) s1 s2"
proof (cases "length s1 = length s2")
  case True
  then show ?thesis
    by (simp add: cmpStr_def compareStrings_def Let_def compareRange_def CMP_EXPR_def
        CMP_CHECK_def compareElements_memcmp)
next
  case False
  then show ?thesis
    by (auto simp: cmpStr_def compareStrings_def compareRange_def CMP_EXPR_def CMP_CHECK_def
        spaceship_def)
qed

lemma three_way_char: "three_way (\<lambda>a b. spaceship (of_char a :: nat) (of_char b)) (\<lambda>_. True)"
  using three_way_vimage [OF three_way_spaceship, of "of_char :: char \<Rightarrow> nat"]
  by (simp add: inj_def)

lemma list_all_True [simp]: "list_all (\<lambda>_. True) xs"
  by (simp add: list_all_iff)

interpretation str: three_way cmpStr "\<lambda>_. True"
  using three_way_compareRange [OF three_way_char]
  by (simp add: cmpStr_compareRange [abs_def] list_all_iff [abs_def])

lemma cmpStr_eq [simp]: "cmpStr x y = SO_equal \<longleftrightarrow> x = y"
  by (rule str.cmp_eq) simp_all

lemma three_way_map_key:
  assumes "three_way cmp V" "distinct (map fst m)" "\<forall>p \<in> set m. V (fst p)"
  shows "three_way (\<lambda>p q. cmp (fst p) (fst q)) (\<lambda>p. p \<in> set m)"
proof (rule three_wayI)
  fix p q assume pq: "p \<in> set m" "q \<in> set m"
  then have "V (fst p)" "V (fst q)" using assms(3) by auto
  then have "cmp (fst p) (fst q) = SO_equal \<longleftrightarrow> fst p = fst q"
    by (rule three_way.cmp_eq [OF assms(1)])
  also have "\<dots> \<longleftrightarrow> p = q"
    using pq inj_on_eq_iff [of fst "set m" p q] assms(2) by (simp add: distinct_map)
  finally show "cmp (fst p) (fst q) = SO_equal \<longleftrightarrow> p = q" .
  show "cmp (fst q) (fst p) = so_flip (cmp (fst p) (fst q))"
    using \<open>V (fst p)\<close> \<open>V (fst q)\<close> by (rule three_way.cmp_flip [OF assms(1)])
next
  fix p q r assume "p \<in> set m" "q \<in> set m" "r \<in> set m"
    and lt: "cmp (fst p) (fst q) = SO_less" "cmp (fst q) (fst r) = SO_less"
  then have "V (fst p)" "V (fst q)" "V (fst r)" using assms(3) by auto
  then show "cmp (fst p) (fst r) = SO_less"
    using lt by (rule three_way.cmp_trans [OF assms(1)])
qed

lemma c_sort_pairs_canonical:
  assumes "three_way cmp V" "distinct (map fst m)" "\<forall>p \<in> set m. V (fst p)"
    and "mset m1 = mset m" "mset m2 = mset m"
  shows "c_sort (\<lambda>p q. cmp_lt cmp (fst p) (fst q)) m1 =
         c_sort (\<lambda>p q. cmp_lt cmp (fst p) (fst q)) m2"
proof -
  have lt: "(\<lambda>p q. cmp_lt cmp (fst p) (fst q)) = cmp_lt (\<lambda>p q. cmp (fst p) (fst q))"
    by (simp add: cmp_lt_def fun_eq_iff)
  have "distinct m1" "set m1 = set m"
    using assms(2,4) by (metis distinct_map mset_eq_imp_distinct_iff, metis set_mset_mset)
  then show ?thesis
    unfolding lt using assms(4,5)
    by (intro three_way.c_sort_canonical [OF three_way_map_key [OF assms(1-3)]]) auto
qed

lemma extract_map_canonical:
  assumes "three_way cmp V" "distinct (map fst m)" "\<forall>p \<in> set m. V (fst p)"
    and "permutes_lists it1" "permutes_lists it2"
  shows "extractTransformMap it1 cmp m True f s = extractTransformMap it2 cmp m True f s"
  using c_sort_pairs_canonical [OF assms(1-3), of "it1 m" "it2 m"] assms(4,5)
  by (simp add: extractTransformMap_def permutes_lists_def)

end
