(* ===== verification/Ipc_Messages.thy ===== *)
theory Ipc_Messages
  imports Comparison
begin

text \<open>
  The messages the driver and its workers exchange: indexer/IpcMessages.h and
  indexer/IpcMessages.cc, the command objects of indexer/CompilationDatabase.h, and the
  serialisation macros of indexer/Derive.h.

  The JSON values are those of LLVM (\<^verbatim>\<open>llvm::json\<close>), which is not part of the
  repository: the constructors and accessors the code calls are the fields of the record
  \<open>json_api\<close>, and \<open>json_laws\<close> states what their documentation promises (a value read back
  with the accessor of its own kind is the value stored). In the same way
  \<^verbatim>\<open>absl::StrSplit\<close> is the parameter \<open>strSplit\<close> of \<open>tryParseJobId\<close>.
\<close>

subsection \<open>Job identifiers\<close>

type_synonym WorkerId = nat

record JobId =
  taskId :: "32 word"
  subtaskId :: "32 word"

definition SHUTDOWN_VALUE :: "32 word" where
  "SHUTDOWN_VALUE = - 1"

definition newTask :: "32 word \<Rightarrow> JobId" where
  "newTask t = \<lparr>taskId = t, subtaskId = 0\<rparr>"

definition nextSubtask :: "JobId \<Rightarrow> JobId" where
  "nextSubtask j = \<lparr>taskId = taskId j, subtaskId = subtaskId j + 1\<rparr>"

definition Shutdown :: JobId where
  "Shutdown = \<lparr>taskId = SHUTDOWN_VALUE, subtaskId = SHUTDOWN_VALUE\<rparr>"

definition to64Bit :: "JobId \<Rightarrow> 64 word" where
  "to64Bit j = push_bit 32 (ucast (taskId j)) + ucast (subtaskId j)"

definition from64Bit :: "64 word \<Rightarrow> JobId" where
  "from64Bit v = \<lparr>taskId = ucast (drop_bit 32 v), subtaskId = ucast v\<rparr>"

subsection \<open>Message types\<close>

definition POISON_INDEX :: nat where
  "POISON_INDEX = 8080808080"

record CommandObject =
  index :: nat
  workingDirectory :: string
  filePath :: string
  arguments :: "string list"

definition default_CommandObject :: CommandObject where
  "default_CommandObject =
     \<lparr>index = POISON_INDEX, workingDirectory = '''', filePath = '''', arguments = []\<rparr>"

type_synonym AbsolutePath = string
type_synonym HashValue = "64 word"

record PreprocessedFileInfo =
  fi_path :: AbsolutePath
  fi_hashValue :: HashValue

record PreprocessedFileInfoMulti =
  fim_path :: AbsolutePath
  fim_hashValues :: "HashValue list"

datatype IndexJobKind = SemanticAnalysis | EmitIndex

text \<open>The tag and both payloads are stored side by side; see the note on unions in the header.\<close>

record IndexJob =
  job_kind :: IndexJobKind
  job_command :: CommandObject
  job_filesToBeIndexed :: "PreprocessedFileInfo list"

record IndexJobRequest =
  req_id :: JobId
  req_job :: IndexJob

record SemanticAnalysisJobResult =
  wellBehavedFiles :: "PreprocessedFileInfo list"
  illBehavedFiles :: "PreprocessedFileInfoMulti list"

record ShardPaths =
  docsAndExternals :: AbsolutePath
  forwardDecls :: AbsolutePath

record EmitIndexJobResult =
  totalTimeMicros :: "64 word"
  shardPaths :: ShardPaths

record IndexJobResult =
  res_kind :: IndexJobKind
  res_semanticAnalysis :: SemanticAnalysisJobResult
  res_emitIndex :: EmitIndexJobResult

record IndexJobResponse =
  rsp_workerId :: "64 word"
  rsp_jobId :: JobId
  rsp_result :: IndexJobResult

definition default_IndexJob :: IndexJob where
  "default_IndexJob = \<lparr>job_kind = SemanticAnalysis, job_command = default_CommandObject,
     job_filesToBeIndexed = []\<rparr>"

definition default_SemaResult :: SemanticAnalysisJobResult where
  "default_SemaResult = \<lparr>wellBehavedFiles = [], illBehavedFiles = []\<rparr>"

definition default_EmitResult :: EmitIndexJobResult where
  "default_EmitResult = \<lparr>totalTimeMicros = 0,
     shardPaths = \<lparr>docsAndExternals = '''', forwardDecls = ''''\<rparr>\<rparr>"

subsection \<open>Ordering of file descriptions\<close>

definition compareFileInfo ::
  "PreprocessedFileInfo \<Rightarrow> PreprocessedFileInfo \<Rightarrow> strong_ordering" where
  "compareFileInfo lhs rhs =
     CMP_EXPR (fi_hashValue lhs) (fi_hashValue rhs)
       (CMP_CHECK (cmpStr (fi_path lhs) (fi_path rhs)) SO_equal)"

definition compareFileInfoMulti ::
  "PreprocessedFileInfoMulti \<Rightarrow> PreprocessedFileInfoMulti \<Rightarrow> strong_ordering" where
  "compareFileInfoMulti lhs rhs =
     CMP_CHECK (cmpStr (fim_path lhs) (fim_path rhs))
       (CMP_CHECK (compareRange spaceship (fim_hashValues lhs) (fim_hashValues rhs)) SO_equal)"

subsection \<open>Names made of decimal numbers\<close>

definition digit_char :: "nat \<Rightarrow> char" where
  "digit_char d = char_of (48 + d)"

definition is_digit :: "char \<Rightarrow> bool" where
  "is_digit c \<longleftrightarrow> 48 \<le> (of_char c :: nat) \<and> (of_char c :: nat) \<le> 57"

fun fmt_nat :: "nat \<Rightarrow> string" where
  "fmt_nat n = (if n < 10 then [digit_char n] else fmt_nat (n div 10) @ [digit_char (n mod 10)])"

declare fmt_nat.simps [simp del]

definition digits_value :: "string \<Rightarrow> nat" where
  "digits_value s = foldl (\<lambda>a c. 10 * a + (of_char c - 48)) 0 s"

text \<open>
  \<^verbatim>\<open>std::from_chars\<close> for \<^verbatim>\<open>uint32_t\<close>: the longest prefix of digits; an error without a digit
  and on overflow. The rest of the text is not looked at.
\<close>

definition from_chars_u32 :: "string \<Rightarrow> 32 word option" where
  "from_chars_u32 s =
     (let ds = takeWhile is_digit s; v = digits_value ds
      in if ds = [] \<or> v \<ge> 2 ^ 32 then None else Some (word_of_nat v))"

definition driverToWorkerQueueName :: "string \<Rightarrow> WorkerId \<Rightarrow> string" where
  "driverToWorkerQueueName driverId workerId =
     ''scip-clang-'' @ driverId @ ''-worker-'' @ fmt_nat workerId @ ''-recv''"

definition workerToDriverQueueName :: "string \<Rightarrow> string" where
  "workerToDriverQueueName driverId = ''scip-clang-'' @ driverId @ ''-worker-send''"

definition shardPrefix :: "32 word \<Rightarrow> WorkerId \<Rightarrow> string" where
  "shardPrefix task workerId = ''job-'' @ fmt_nat (unat task) @ ''-worker-'' @ fmt_nat workerId"

definition tryParseJobId :: "(string \<Rightarrow> char \<Rightarrow> string list) \<Rightarrow> string \<Rightarrow> 32 word option" where
  "tryParseJobId strSplit fileName =
     (let parts = strSplit fileName (CHR ''-'')
      in if length parts \<ge> 3 \<and> parts ! 0 = ''job'' \<and> parts ! 2 = ''worker''
         then from_chars_u32 (parts ! 1) else None)"

text \<open>What the documentation of \<^verbatim>\<open>absl::StrSplit\<close> says of a single-character delimiter.\<close>

fun join_with :: "char \<Rightarrow> string list \<Rightarrow> string" where
  "join_with d [] = []"
| "join_with d [p] = p"
| "join_with d (p # q # ps) = p @ d # join_with d (q # ps)"

definition splits_text :: "(string \<Rightarrow> char \<Rightarrow> string list) \<Rightarrow> bool" where
  "splits_text strSplit \<longleftrightarrow>
     (\<forall>ps d. ps \<noteq> [] \<and> (\<forall>p \<in> set ps. d \<notin> set p) \<longrightarrow> strSplit (join_with d ps) d = ps)"

subsection \<open>Serialisation\<close>

record 'j json_api =
  of_uint64 :: "64 word \<Rightarrow> 'j"
  getAsUINT64 :: "'j \<Rightarrow> 64 word option"
  of_str :: "string \<Rightarrow> 'j"
  getAsString :: "'j \<Rightarrow> string option"
  of_array :: "'j list \<Rightarrow> 'j"
  getAsArray :: "'j \<Rightarrow> 'j list option"
  of_object :: "(string \<times> 'j) list \<Rightarrow> 'j"
  getAsObject :: "'j \<Rightarrow> (string \<rightharpoonup> 'j) option"

definition json_laws :: "'j json_api \<Rightarrow> bool" where
  "json_laws J \<longleftrightarrow>
     (\<forall>w. getAsUINT64 J (of_uint64 J w) = Some w) \<and>
     (\<forall>s. getAsString J (of_str J s) = Some s) \<and>
     (\<forall>xs. getAsArray J (of_array J xs) = Some xs) \<and>
     (\<forall>fs. distinct (map fst fs) \<longrightarrow> getAsObject J (of_object J fs) = Some (map_of fs))"

text \<open>\<^verbatim>\<open>ObjectMapper\<close>: the value has to be an object, and \<^verbatim>\<open>map\<close> reads one key of it.\<close>

definition mapper_map :: "'j json_api \<Rightarrow> 'j \<Rightarrow> string \<Rightarrow> ('j \<Rightarrow> 'a option) \<Rightarrow> 'a option" where
  "mapper_map J v key from =
     (case getAsObject J v of None \<Rightarrow> None
      | Some ob \<Rightarrow> (case ob key of None \<Rightarrow> None | Some w \<Rightarrow> from w))"

definition fromJSON_list :: "'j json_api \<Rightarrow> ('j \<Rightarrow> 'a option) \<Rightarrow> 'j \<Rightarrow> 'a list option" where
  "fromJSON_list J from v =
     (case getAsArray J v of None \<Rightarrow> None | Some xs \<Rightarrow> those (map from xs))"

definition toJSON_JobId :: "'j json_api \<Rightarrow> JobId \<Rightarrow> 'j" where
  "toJSON_JobId J j = of_uint64 J (to64Bit j)"

definition fromJSON_JobId :: "'j json_api \<Rightarrow> 'j \<Rightarrow> JobId option" where
  "fromJSON_JobId J v = map_option from64Bit (getAsUINT64 J v)"

definition toJSON_HashValue :: "'j json_api \<Rightarrow> HashValue \<Rightarrow> 'j" where
  "toJSON_HashValue J h = of_uint64 J h"

definition fromJSON_HashValue :: "'j json_api \<Rightarrow> 'j \<Rightarrow> HashValue option" where
  "fromJSON_HashValue J v = getAsUINT64 J v"

definition toJSON_Kind :: "'j json_api \<Rightarrow> IndexJobKind \<Rightarrow> 'j" where
  "toJSON_Kind J k = (case k of SemanticAnalysis \<Rightarrow> of_str J ''SemanticAnalysis''
                              | EmitIndex \<Rightarrow> of_str J ''EmitIndex'')"

definition fromJSON_Kind :: "'j json_api \<Rightarrow> 'j \<Rightarrow> IndexJobKind option" where
  "fromJSON_Kind J v =
     (case getAsString J v of None \<Rightarrow> None
      | Some s \<Rightarrow> if s = ''SemanticAnalysis'' then Some SemanticAnalysis
                  else if s = ''EmitIndex'' then Some EmitIndex else None)"

definition toJSON_CommandObject :: "'j json_api \<Rightarrow> CommandObject \<Rightarrow> 'j" where
  "toJSON_CommandObject J cmd =
     of_object J [(''directory'', of_str J (workingDirectory cmd)),
                  (''file'', of_str J (filePath cmd)),
                  (''arguments'', of_array J (map (of_str J) (arguments cmd)))]"

definition fromJSON_CommandObject ::
  "'j json_api \<Rightarrow> CommandObject \<Rightarrow> 'j \<Rightarrow> CommandObject option" where
  "fromJSON_CommandObject J cmd v =
     (case mapper_map J v ''directory'' (getAsString J) of None \<Rightarrow> None | Some d \<Rightarrow>
      (case mapper_map J v ''file'' (getAsString J) of None \<Rightarrow> None | Some f \<Rightarrow>
       (case mapper_map J v ''arguments'' (fromJSON_list J (getAsString J)) of None \<Rightarrow> None
        | Some a \<Rightarrow> Some (cmd\<lparr>workingDirectory := d, filePath := f, arguments := a\<rparr>))))"

definition toJSON_FileInfo :: "'j json_api \<Rightarrow> PreprocessedFileInfo \<Rightarrow> 'j" where
  "toJSON_FileInfo J t = of_object J [(''path'', of_str J (fi_path t)),
                                      (''hashValue'', toJSON_HashValue J (fi_hashValue t))]"

definition fromJSON_FileInfo :: "'j json_api \<Rightarrow> 'j \<Rightarrow> PreprocessedFileInfo option" where
  "fromJSON_FileInfo J v =
     (case mapper_map J v ''path'' (getAsString J) of None \<Rightarrow> None | Some p \<Rightarrow>
      (case mapper_map J v ''hashValue'' (fromJSON_HashValue J) of None \<Rightarrow> None
       | Some h \<Rightarrow> Some \<lparr>fi_path = p, fi_hashValue = h\<rparr>))"

definition toJSON_FileInfoMulti :: "'j json_api \<Rightarrow> PreprocessedFileInfoMulti \<Rightarrow> 'j" where
  "toJSON_FileInfoMulti J t =
     of_object J [(''path'', of_str J (fim_path t)),
                  (''hashValues'', of_array J (map (toJSON_HashValue J) (fim_hashValues t)))]"

definition fromJSON_FileInfoMulti :: "'j json_api \<Rightarrow> 'j \<Rightarrow> PreprocessedFileInfoMulti option" where
  "fromJSON_FileInfoMulti J v =
     (case mapper_map J v ''path'' (getAsString J) of None \<Rightarrow> None | Some p \<Rightarrow>
      (case mapper_map J v ''hashValues'' (fromJSON_list J (fromJSON_HashValue J)) of None \<Rightarrow> None
       | Some hs \<Rightarrow> Some \<lparr>fim_path = p, fim_hashValues = hs\<rparr>))"

definition toJSON_IndexJob :: "'j json_api \<Rightarrow> IndexJob \<Rightarrow> 'j" where
  "toJSON_IndexJob J job =
     (let details = (case job_kind job of
          SemanticAnalysis \<Rightarrow> toJSON_CommandObject J (job_command job)
        | EmitIndex \<Rightarrow> of_array J (map (toJSON_FileInfo J) (job_filesToBeIndexed job)))
      in of_object J [(''kind'', toJSON_Kind J (job_kind job)), (''details'', details)])"

definition fromJSON_IndexJob :: "'j json_api \<Rightarrow> IndexJob \<Rightarrow> 'j \<Rightarrow> IndexJob option" where
  "fromJSON_IndexJob J t v =
     (case mapper_map J v ''kind'' (fromJSON_Kind J) of None \<Rightarrow> None | Some k \<Rightarrow>
      (case k of
         SemanticAnalysis \<Rightarrow>
           map_option (\<lambda>c. t\<lparr>job_kind := k, job_command := c\<rparr>)
             (mapper_map J v ''details'' (fromJSON_CommandObject J (job_command t)))
       | EmitIndex \<Rightarrow>
           map_option (\<lambda>fs. t\<lparr>job_kind := k, job_filesToBeIndexed := fs\<rparr>)
             (mapper_map J v ''details'' (fromJSON_list J (fromJSON_FileInfo J)))))"

definition toJSON_IndexJobRequest :: "'j json_api \<Rightarrow> IndexJobRequest \<Rightarrow> 'j" where
  "toJSON_IndexJobRequest J r =
     of_object J [(''id'', toJSON_JobId J (req_id r)), (''job'', toJSON_IndexJob J (req_job r))]"

text \<open>The receiver decodes into a default-constructed \<^verbatim>\<open>IndexJobRequest\<close>.\<close>

definition fromJSON_IndexJobRequest :: "'j json_api \<Rightarrow> 'j \<Rightarrow> IndexJobRequest option" where
  "fromJSON_IndexJobRequest J v =
     (case mapper_map J v ''id'' (fromJSON_JobId J) of None \<Rightarrow> None | Some i \<Rightarrow>
      (case mapper_map J v ''job'' (fromJSON_IndexJob J default_IndexJob) of None \<Rightarrow> None
       | Some jb \<Rightarrow> Some \<lparr>req_id = i, req_job = jb\<rparr>))"

definition toJSON_SemaResult :: "'j json_api \<Rightarrow> SemanticAnalysisJobResult \<Rightarrow> 'j" where
  "toJSON_SemaResult J t =
     of_object J
       [(''wellBehavedFiles'', of_array J (map (toJSON_FileInfo J) (wellBehavedFiles t))),
        (''illBehavedFiles'', of_array J (map (toJSON_FileInfoMulti J) (illBehavedFiles t)))]"

definition fromJSON_SemaResult :: "'j json_api \<Rightarrow> 'j \<Rightarrow> SemanticAnalysisJobResult option" where
  "fromJSON_SemaResult J v =
     (case mapper_map J v ''wellBehavedFiles'' (fromJSON_list J (fromJSON_FileInfo J)) of
        None \<Rightarrow> None
      | Some w \<Rightarrow>
        (case mapper_map J v ''illBehavedFiles'' (fromJSON_list J (fromJSON_FileInfoMulti J)) of
           None \<Rightarrow> None | Some i \<Rightarrow> Some \<lparr>wellBehavedFiles = w, illBehavedFiles = i\<rparr>))"

definition toJSON_ShardPaths :: "'j json_api \<Rightarrow> ShardPaths \<Rightarrow> 'j" where
  "toJSON_ShardPaths J t = of_object J [(''docsAndExternals'', of_str J (docsAndExternals t)),
                                        (''forwardDecls'', of_str J (forwardDecls t))]"

definition fromJSON_ShardPaths :: "'j json_api \<Rightarrow> 'j \<Rightarrow> ShardPaths option" where
  "fromJSON_ShardPaths J v =
     (case mapper_map J v ''docsAndExternals'' (getAsString J) of None \<Rightarrow> None | Some d \<Rightarrow>
      (case mapper_map J v ''forwardDecls'' (getAsString J) of None \<Rightarrow> None
       | Some f \<Rightarrow> Some \<lparr>docsAndExternals = d, forwardDecls = f\<rparr>))"

definition toJSON_EmitResult :: "'j json_api \<Rightarrow> EmitIndexJobResult \<Rightarrow> 'j" where
  "toJSON_EmitResult J t =
     of_object J [(''statistics'', of_uint64 J (totalTimeMicros t)),
                  (''shardPaths'', toJSON_ShardPaths J (shardPaths t))]"

definition fromJSON_EmitResult :: "'j json_api \<Rightarrow> 'j \<Rightarrow> EmitIndexJobResult option" where
  "fromJSON_EmitResult J v =
     (case mapper_map J v ''statistics'' (getAsUINT64 J) of None \<Rightarrow> None | Some s \<Rightarrow>
      (case mapper_map J v ''shardPaths'' (fromJSON_ShardPaths J) of None \<Rightarrow> None
       | Some p \<Rightarrow> Some \<lparr>totalTimeMicros = s, shardPaths = p\<rparr>))"

definition toJSON_IndexJobResult :: "'j json_api \<Rightarrow> IndexJobResult \<Rightarrow> 'j" where
  "toJSON_IndexJobResult J r =
     (let details = (case res_kind r of
          SemanticAnalysis \<Rightarrow> toJSON_SemaResult J (res_semanticAnalysis r)
        | EmitIndex \<Rightarrow> toJSON_EmitResult J (res_emitIndex r))
      in of_object J [(''kind'', toJSON_Kind J (res_kind r)), (''details'', details)])"

definition fromJSON_IndexJobResult :: "'j json_api \<Rightarrow> IndexJobResult \<Rightarrow> 'j \<Rightarrow> IndexJobResult option" where
  "fromJSON_IndexJobResult J t v =
     (case mapper_map J v ''kind'' (fromJSON_Kind J) of None \<Rightarrow> None | Some k \<Rightarrow>
      (case k of
         SemanticAnalysis \<Rightarrow>
           map_option (\<lambda>d. t\<lparr>res_kind := k, res_semanticAnalysis := d\<rparr>)
             (mapper_map J v ''details'' (fromJSON_SemaResult J))
       | EmitIndex \<Rightarrow>
           map_option (\<lambda>d. t\<lparr>res_kind := k, res_emitIndex := d\<rparr>)
             (mapper_map J v ''details'' (fromJSON_EmitResult J))))"

definition toJSON_IndexJobResponse :: "'j json_api \<Rightarrow> IndexJobResponse \<Rightarrow> 'j" where
  "toJSON_IndexJobResponse J r =
     of_object J [(''workerId'', of_uint64 J (rsp_workerId r)),
                  (''jobId'', toJSON_JobId J (rsp_jobId r)),
                  (''result'', toJSON_IndexJobResult J (rsp_result r))]"

definition fromJSON_IndexJobResponse ::
  "'j json_api \<Rightarrow> IndexJobResult \<Rightarrow> 'j \<Rightarrow> IndexJobResponse option" where
  "fromJSON_IndexJobResponse J t v =
     (case mapper_map J v ''workerId'' (getAsUINT64 J) of None \<Rightarrow> None | Some w \<Rightarrow>
      (case mapper_map J v ''jobId'' (fromJSON_JobId J) of None \<Rightarrow> None | Some i \<Rightarrow>
       (case mapper_map J v ''result'' (fromJSON_IndexJobResult J t) of None \<Rightarrow> None
        | Some r \<Rightarrow> Some \<lparr>rsp_workerId = w, rsp_jobId = i, rsp_result = r\<rparr>)))"

subsection \<open>Job identifiers as 64-bit numbers\<close>

lemma not_bit_32 [simp]: "32 \<le> n \<Longrightarrow> \<not> bit (b :: 32 word) n"
  using bit_imp_le_length [of b n] by auto

lemma word_pack_unpack:
  fixes a b :: "32 word"
  shows "ucast (drop_bit 32 (push_bit 32 (ucast a :: 64 word) + ucast b)) = a"
    and "ucast (push_bit 32 (ucast a :: 64 word) + ucast b) = b"
proof -
  have "push_bit 32 (ucast a :: 64 word) + ucast b = or (push_bit 32 (ucast a)) (ucast b)"
    by (rule disjunctive_add) (auto simp: bit_simps dest: bit_imp_le_length)
  then show "ucast (drop_bit 32 (push_bit 32 (ucast a :: 64 word) + ucast b)) = a"
    and "ucast (push_bit 32 (ucast a :: 64 word) + ucast b) = b"
    by (auto intro!: bit_word_eqI simp: bit_simps)
qed

lemma to64Bit_roundtrip [simp]: "from64Bit (to64Bit j) = j"
  by (simp add: from64Bit_def to64Bit_def word_pack_unpack)

lemma from64Bit_roundtrip: "to64Bit (from64Bit v) = v"
proof -
  have "push_bit 32 (ucast (ucast (drop_bit 32 v) :: 32 word) :: 64 word) + ucast (ucast v :: 32 word)
      = or (push_bit 32 (ucast (ucast (drop_bit 32 v) :: 32 word))) (ucast (ucast v :: 32 word))"
    by (rule disjunctive_add) (auto simp: bit_simps)
  also have "\<dots> = v" by (rule bit_word_eqI) (auto simp: bit_simps)
  finally show ?thesis by (simp add: from64Bit_def to64Bit_def)
qed

lemma to64Bit_inj: "to64Bit i = to64Bit j \<longleftrightarrow> i = j"
  by (metis to64Bit_roundtrip)

subsection \<open>Decimal names\<close>

lemma of_char_digit [simp]: "d < 10 \<Longrightarrow> of_char (digit_char d) = 48 + d"
  by (simp add: digit_char_def)

lemma is_digit_digit [simp]: "d < 10 \<Longrightarrow> is_digit (digit_char d)"
  by (simp add: is_digit_def)

lemma digits_value_snoc: "digits_value (s @ [c]) = 10 * digits_value s + (of_char c - 48)"
  by (simp add: digits_value_def)

lemma fmt_nat_value [simp]: "digits_value (fmt_nat n) = n"
proof (induction n rule: fmt_nat.induct)
  case (1 n)
  then show ?case
    by (subst fmt_nat.simps) (auto simp: digits_value_snoc digits_value_def [of "[_]"])
qed

lemma fmt_nat_digits: "\<forall>c \<in> set (fmt_nat n). is_digit c"
proof (induction n rule: fmt_nat.induct)
  case (1 n)
  then show ?case by (subst fmt_nat.simps) auto
qed

lemma fmt_nat_nonempty [simp]: "fmt_nat n \<noteq> []"
  by (subst fmt_nat.simps) simp

lemma fmt_nat_inj [simp]: "fmt_nat m = fmt_nat n \<longleftrightarrow> m = n"
  by (metis fmt_nat_value)

lemma not_digit_dash [simp]: "\<not> is_digit (CHR ''-'')"
  by (simp add: is_digit_def)

lemma dash_notin_fmt_nat [simp]: "CHR ''-'' \<notin> set (fmt_nat n)"
  using fmt_nat_digits by force

lemma from_chars_fmt_nat: "from_chars_u32 (fmt_nat (unat w)) = Some w"
proof -
  have tw: "takeWhile is_digit (fmt_nat (unat w)) = fmt_nat (unat w)"
    by (simp add: takeWhile_eq_all_conv fmt_nat_digits)
  have "unat w < 2 ^ 32" using unsigned_less [of w] by simp
  then show ?thesis unfolding from_chars_u32_def Let_def tw by simp
qed

lemma join_with_snoc_append:
  "join_with d (p # q # ps) = p @ [d] @ join_with d (q # ps)"
  by simp

subsection \<open>Serialisation\<close>

named_theorems json_defs \<open>encoders and decoders\<close>

lemmas json_codec_defs [json_defs] =
  toJSON_JobId_def fromJSON_JobId_def toJSON_HashValue_def fromJSON_HashValue_def
  toJSON_Kind_def fromJSON_Kind_def toJSON_CommandObject_def fromJSON_CommandObject_def
  toJSON_FileInfo_def fromJSON_FileInfo_def toJSON_FileInfoMulti_def fromJSON_FileInfoMulti_def
  toJSON_SemaResult_def fromJSON_SemaResult_def toJSON_ShardPaths_def fromJSON_ShardPaths_def
  toJSON_EmitResult_def fromJSON_EmitResult_def

lemma those_map_Some: "(\<And>x. x \<in> set xs \<Longrightarrow> f (g x) = Some x) \<Longrightarrow> those (map f (map g xs)) = Some xs"
  by (induction xs) auto

lemma those_Some_map: "(\<And>x. x \<in> set xs \<Longrightarrow> f x = Some (g x)) \<Longrightarrow> those (map f xs) = Some (map g xs)"
  by (induction xs) auto

lemma getters [simp]:
  "json_laws J \<Longrightarrow> getAsUINT64 J (of_uint64 J w) = Some w"
  "json_laws J \<Longrightarrow> getAsString J (of_str J s) = Some s"
  "json_laws J \<Longrightarrow> getAsArray J (of_array J xs) = Some xs"
  "json_laws J \<Longrightarrow> distinct (map fst fs) \<Longrightarrow> getAsObject J (of_object J fs) = Some (map_of fs)"
  by (simp_all add: json_laws_def)

lemma mapper_of_object [simp]:
  "json_laws J \<Longrightarrow> distinct (map fst fs) \<Longrightarrow> map_of fs k = Some w \<Longrightarrow>
   mapper_map J (of_object J fs) k from = from w"
  by (simp add: mapper_map_def)

lemma list_roundtrip [simp]:
  "json_laws J \<Longrightarrow> (\<And>x. x \<in> set xs \<Longrightarrow> from (to x) = Some x) \<Longrightarrow>
   fromJSON_list J from (of_array J (map to xs)) = Some xs"
  by (simp add: fromJSON_list_def those_map_Some del: map_map)

lemma JobId_rt [simp]: "json_laws J \<Longrightarrow> fromJSON_JobId J (toJSON_JobId J j) = Some j"
  by (simp add: json_defs)

lemma HashValue_rt [simp]: "json_laws J \<Longrightarrow> fromJSON_HashValue J (toJSON_HashValue J h) = Some h"
  by (simp add: json_defs)

lemma Kind_rt [simp]: "json_laws J \<Longrightarrow> fromJSON_Kind J (toJSON_Kind J k) = Some k"
  by (cases k) (simp_all add: json_defs)

lemma CommandObject_rt [simp]:
  "json_laws J \<Longrightarrow> fromJSON_CommandObject J c0 (toJSON_CommandObject J c) = Some (c\<lparr>index := index c0\<rparr>)"
  by (simp add: toJSON_CommandObject_def fromJSON_CommandObject_def)

lemma FileInfo_rt [simp]: "json_laws J \<Longrightarrow> fromJSON_FileInfo J (toJSON_FileInfo J f) = Some f"
  by (simp add: toJSON_FileInfo_def fromJSON_FileInfo_def)

lemma FileInfoMulti_rt [simp]: "json_laws J \<Longrightarrow> fromJSON_FileInfoMulti J (toJSON_FileInfoMulti J f) = Some f"
  by (simp add: toJSON_FileInfoMulti_def fromJSON_FileInfoMulti_def)

lemma SemaResult_rt [simp]: "json_laws J \<Longrightarrow> fromJSON_SemaResult J (toJSON_SemaResult J r) = Some r"
  by (simp add: toJSON_SemaResult_def fromJSON_SemaResult_def)

lemma ShardPaths_rt [simp]: "json_laws J \<Longrightarrow> fromJSON_ShardPaths J (toJSON_ShardPaths J p) = Some p"
  by (simp add: toJSON_ShardPaths_def fromJSON_ShardPaths_def)

lemma EmitResult_rt [simp]: "json_laws J \<Longrightarrow> fromJSON_EmitResult J (toJSON_EmitResult J r) = Some r"
  by (simp add: toJSON_EmitResult_def fromJSON_EmitResult_def)

lemma request_roundtrip:
  "json_laws J \<Longrightarrow> fromJSON_IndexJobRequest J (toJSON_IndexJobRequest J r) =
     Some (r\<lparr>req_job :=
       (case job_kind (req_job r) of
          SemanticAnalysis \<Rightarrow> default_IndexJob\<lparr>job_kind := SemanticAnalysis,
            job_command := (job_command (req_job r))\<lparr>index := POISON_INDEX\<rparr>\<rparr>
        | EmitIndex \<Rightarrow> default_IndexJob\<lparr>job_kind := EmitIndex,
            job_filesToBeIndexed := job_filesToBeIndexed (req_job r)\<rparr>)\<rparr>)"
  by (simp add: toJSON_IndexJobRequest_def fromJSON_IndexJobRequest_def toJSON_IndexJob_def
      fromJSON_IndexJob_def Let_def default_IndexJob_def default_CommandObject_def
      split: IndexJobKind.splits)

lemma response_roundtrip:
  "json_laws J \<Longrightarrow> fromJSON_IndexJobResponse J t (toJSON_IndexJobResponse J r) =
     Some (r\<lparr>rsp_result :=
       (case res_kind (rsp_result r) of
          SemanticAnalysis \<Rightarrow> t\<lparr>res_kind := SemanticAnalysis,
            res_semanticAnalysis := res_semanticAnalysis (rsp_result r)\<rparr>
        | EmitIndex \<Rightarrow> t\<lparr>res_kind := EmitIndex,
            res_emitIndex := res_emitIndex (rsp_result r)\<rparr>)\<rparr>)"
  by (simp add: toJSON_IndexJobResponse_def fromJSON_IndexJobResponse_def
      toJSON_IndexJobResult_def fromJSON_IndexJobResult_def Let_def split: IndexJobKind.splits)

subsection \<open>Properties\<close>

text \<open>A concrete splitter and a concrete representation of JSON values.\<close>

fun split_on :: "string \<Rightarrow> char \<Rightarrow> string list" where
  "split_on [] d = [[]]"
| "split_on (c # s) d =
     (if c = d then [] # split_on s d
      else (case split_on s d of [] \<Rightarrow> [[c]] | p # ps \<Rightarrow> (c # p) # ps))"

lemma split_on_free: "d \<notin> set p \<Longrightarrow> split_on p d = [p]"
  by (induction p) auto

lemma split_on_append: "d \<notin> set p \<Longrightarrow> split_on (p @ d # s) d = p # split_on s d"
  by (induction p) auto

lemma splits_text_split_on: "splits_text split_on"
proof -
  have "split_on (join_with d ps) d = ps" if "ps \<noteq> []" "\<forall>p \<in> set ps. d \<notin> set p" for d ps
    using that by (induction d ps rule: join_with.induct) (auto simp: split_on_free split_on_append)
  then show ?thesis by (simp add: splits_text_def)
qed

lemma shardPrefix_join: "shardPrefix t w = join_with (CHR ''-'') [''job'', fmt_nat (unat t), ''worker'', fmt_nat w]"
  by (simp add: shardPrefix_def)

lemma shardPrefix_join_rest:
  "shardPrefix t w @ CHR ''-'' # rest = join_with (CHR ''-'') [''job'', fmt_nat (unat t), ''worker'', fmt_nat w, rest]"
  by (simp add: shardPrefix_def)

lemma split_on_shardPrefix: "split_on (shardPrefix t w) (CHR ''-'') = [''job'', fmt_nat (unat t), ''worker'', fmt_nat w]"
proof -
  have "\<forall>p \<in> set [''job'', fmt_nat (unat t), ''worker'', fmt_nat w]. CHR ''-'' \<notin> set p" by simp
  then show ?thesis using splits_text_split_on unfolding splits_text_def shardPrefix_join by blast
qed

lemma shardPrefix_inj: "shardPrefix t w = shardPrefix t' w' \<longleftrightarrow> t = t' \<and> w = w'"
proof
  assume "shardPrefix t w = shardPrefix t' w'"
  then have "[''job'', fmt_nat (unat t), ''worker'', fmt_nat w] = [''job'', fmt_nat (unat t'), ''worker'', fmt_nat w']"
    unfolding split_on_shardPrefix [symmetric] by simp
  then show "t = t' \<and> w = w'" by (simp add: word_unat_eq_iff)
qed simp

datatype json_value = JUint "64 word" | JStr string | JArr "json_value list" | JObj "(string \<times> json_value) list"

definition plain_json :: "json_value json_api" where
  "plain_json = \<lparr>of_uint64 = JUint, getAsUINT64 = (\<lambda>v. case v of JUint w \<Rightarrow> Some w | _ \<Rightarrow> None),
     of_str = JStr, getAsString = (\<lambda>v. case v of JStr s \<Rightarrow> Some s | _ \<Rightarrow> None),
     of_array = JArr, getAsArray = (\<lambda>v. case v of JArr xs \<Rightarrow> Some xs | _ \<Rightarrow> None),
     of_object = JObj, getAsObject = (\<lambda>v. case v of JObj fs \<Rightarrow> Some (map_of fs) | _ \<Rightarrow> None)\<rparr>"

lemma json_laws_plain: "json_laws plain_json"
  by (simp add: json_laws_def plain_json_def)

text \<open>
  The 64-bit form of a job identifier loses nothing, whatever the two 32-bit halves are, and
  every 64-bit number stands for a job identifier. In particular the sum in \<^verbatim>\<open>to64Bit\<close>
  never carries into the upper half.
\<close>

theorem job_id_codec:
  "from64Bit (to64Bit j) = j \<and> to64Bit (from64Bit v) = v"
  using to64Bit_roundtrip from64Bit_roundtrip by blast

text \<open>
  A request that is sent as JSON and decoded by the worker is the request that was sent: the
  identifier, the kind and the payload of that kind. The index of a command is not
  transmitted; the worker sees the poison value.
\<close>

theorem request_codec:
  assumes "json_laws J"
  shows "\<exists>r'. fromJSON_IndexJobRequest J (toJSON_IndexJobRequest J r) = Some r' \<and>
    req_id r' = req_id r \<and> job_kind (req_job r') = job_kind (req_job r) \<and>
    (job_kind (req_job r) = SemanticAnalysis \<longrightarrow>
       job_command (req_job r') = (job_command (req_job r))\<lparr>index := POISON_INDEX\<rparr>) \<and>
    (job_kind (req_job r) = EmitIndex \<longrightarrow>
       job_filesToBeIndexed (req_job r') = job_filesToBeIndexed (req_job r))"
  using request_roundtrip [OF assms, of r] by (auto split: IndexJobKind.splits)

definition sample_request :: IndexJobRequest where
  "sample_request = \<lparr>req_id = \<lparr>taskId = 7, subtaskId = 1\<rparr>, req_job = default_IndexJob\<lparr>job_kind := EmitIndex,
     job_filesToBeIndexed := [\<lparr>fi_path = ''/a.c'', fi_hashValue = 5\<rparr>]\<rparr>\<rparr>"

theorem request_codec_witness:
  "\<exists>r'. fromJSON_IndexJobRequest plain_json (toJSON_IndexJobRequest plain_json sample_request) = Some r' \<and>
    req_id r' = \<lparr>taskId = 7, subtaskId = 1\<rparr> \<and>
    job_filesToBeIndexed (req_job r') = [\<lparr>fi_path = ''/a.c'', fi_hashValue = 5\<rparr>]"
  using request_codec [OF json_laws_plain, of sample_request]
  by (auto simp: sample_request_def default_IndexJob_def)

text \<open>
  C30: A response that is sent as JSON and decoded by the driver keeps the worker, the job, the
  kind and the payload of that kind, whatever object it is decoded into.
\<close>

theorem response_codec:
  assumes "json_laws J"
  shows "\<exists>r'. fromJSON_IndexJobResponse J t (toJSON_IndexJobResponse J r) = Some r' \<and>
    rsp_workerId r' = rsp_workerId r \<and> rsp_jobId r' = rsp_jobId r \<and>
    res_kind (rsp_result r') = res_kind (rsp_result r) \<and>
    (case res_kind (rsp_result r) of
       SemanticAnalysis \<Rightarrow> res_semanticAnalysis (rsp_result r') = res_semanticAnalysis (rsp_result r)
     | EmitIndex \<Rightarrow> res_emitIndex (rsp_result r') = res_emitIndex (rsp_result r))"
  using response_roundtrip [OF assms, of t r] by (auto split: IndexJobKind.splits)

definition empty_result :: IndexJobResult where
  "empty_result = \<lparr>res_kind = EmitIndex, res_semanticAnalysis = default_SemaResult,
     res_emitIndex = default_EmitResult\<rparr>"

theorem response_codec_witness:
  "\<exists>r'. fromJSON_IndexJobResponse plain_json empty_result (toJSON_IndexJobResponse plain_json
      \<lparr>rsp_workerId = 3, rsp_jobId = newTask 2, rsp_result = empty_result\<lparr>res_kind := SemanticAnalysis,
        res_semanticAnalysis := \<lparr>wellBehavedFiles = [], illBehavedFiles = [\<lparr>fim_path = ''/h.h'', fim_hashValues = [1, 2]\<rparr>]\<rparr>\<rparr>\<rparr>) = Some r' \<and>
    rsp_workerId r' = 3 \<and> rsp_jobId r' = newTask 2 \<and>
    illBehavedFiles (res_semanticAnalysis (rsp_result r')) = [\<lparr>fim_path = ''/h.h'', fim_hashValues = [1, 2]\<rparr>]"
  using response_codec [OF json_laws_plain, of empty_result
    "\<lparr>rsp_workerId = 3, rsp_jobId = newTask 2, rsp_result = empty_result\<lparr>res_kind := SemanticAnalysis,
      res_semanticAnalysis := \<lparr>wellBehavedFiles = [], illBehavedFiles = [\<lparr>fim_path = ''/h.h'', fim_hashValues = [1, 2]\<rparr>]\<rparr>\<rparr>\<rparr>"]
  by (auto simp: empty_result_def)

text \<open>
  The name of a shard file gives back the task it was made for: every name that continues
  the prefix written by \<^verbatim>\<open>ShardPaths::prefix\<close> with a dash is parsed to the same number, and
  different tasks or workers have different prefixes.
\<close>

theorem shard_name_parses:
  assumes "splits_text strSplit" "CHR ''-'' \<notin> set rest"
  shows "tryParseJobId strSplit (shardPrefix t w) = Some t \<and>
    tryParseJobId strSplit (shardPrefix t w @ CHR ''-'' # rest) = Some t \<and>
    (shardPrefix t w = shardPrefix t' w' \<longleftrightarrow> t = t' \<and> w = w')"
proof (intro conjI)
  have split: "strSplit (join_with (CHR ''-'') ps) (CHR ''-'') = ps"
    if "ps \<noteq> []" "\<forall>p \<in> set ps. CHR ''-'' \<notin> set p" for ps
    using assms(1) that unfolding splits_text_def by blast
  show "tryParseJobId strSplit (shardPrefix t w) = Some t"
    unfolding tryParseJobId_def shardPrefix_join
    by (subst split) (simp_all add: from_chars_fmt_nat Let_def)
  show "tryParseJobId strSplit (shardPrefix t w @ CHR ''-'' # rest) = Some t"
    unfolding tryParseJobId_def shardPrefix_join_rest
    by (subst split) (simp_all add: from_chars_fmt_nat Let_def assms(2))
  show "shardPrefix t w = shardPrefix t' w' \<longleftrightarrow> t = t' \<and> w = w'" by (rule shardPrefix_inj)
qed

theorem shard_name_parses_witness:
  "tryParseJobId split_on (shardPrefix 42 3) = Some 42 \<and>
   tryParseJobId split_on (shardPrefix 42 3 @ ''-docs_and_externals.shard.scip'') = Some 42 \<and>
   shardPrefix 42 3 \<noteq> shardPrefix 4 23"
  using shard_name_parses [OF splits_text_split_on, of "''docs_and_externals.shard.scip''" 42 3 4 23]
  by simp

end
