(* ===== verification/Paths.thy ===== *)
theory Paths
  imports Ipc_Messages
begin

text \<open>
  Paths: indexer/Path.h and indexer/Path.cc. The path functions of LLVM
  (\<^verbatim>\<open>llvm::sys::path\<close>) are not part of the repository; the ones the code calls are the
  fields of \<open>llvm_path\<close>. \<^verbatim>\<open>std::filesystem::path::preferred_separator\<close> is the slash of the
  supported platforms (Linux and macOS).
\<close>

subsection \<open>Definitions\<close>

record llvm_path =
  is_absolute :: "string \<Rightarrow> bool"
  parent_path :: "string \<Rightarrow> string"
  components :: "string \<Rightarrow> string list"
  remove_dots :: "string \<Rightarrow> string"
  extension_of :: "string \<Rightarrow> string"

abbreviation preferred_separator :: char where
  "preferred_separator \<equiv> CHR ''/''"

text \<open>\<^verbatim>\<open>find_last_of\<close> with one character.\<close>

fun find_last :: "char \<Rightarrow> string \<Rightarrow> nat option" where
  "find_last c [] = None"
| "find_last c (x # xs) =
     (case find_last c xs of Some i \<Rightarrow> Some (Suc i) | None \<Rightarrow> if x = c then Some 0 else None)"

definition fileName :: "string \<Rightarrow> string option" where
  "fileName path =
     (case find_last preferred_separator path of
        None \<Rightarrow> None
      | Some i \<Rightarrow> if i = length path - 1 then None else Some (drop (i + 1) path))"

definition tryFrom :: "llvm_path \<Rightarrow> string \<Rightarrow> string option" where
  "tryFrom L path = (if is_absolute L path then Some path else None)"

fun skip_separators :: "string \<Rightarrow> string" where
  "skip_separators [] = []"
| "skip_separators (c # cs) = (if c = preferred_separator then skip_separators cs else c # cs)"

definition makeRelative :: "string \<Rightarrow> string \<Rightarrow> string option" where
  "makeRelative this longerPath =
     (if starts_with longerPath this then Some (skip_separators (drop (length this) longerPath))
      else None)"

fun has_double_slash :: "string \<Rightarrow> bool" where
  "has_double_slash (a # b # s) =
     ((a = CHR ''/'' \<and> b = CHR ''/'') \<or> has_double_slash (b # s))"
| "has_double_slash _ = False"

definition isNormalized :: "llvm_path \<Rightarrow> string \<Rightarrow> bool" where
  "isNormalized L path \<longleftrightarrow>
     (\<forall>c \<in> set (components L path). c \<noteq> ''.'' \<and> c \<noteq> ''..'') \<and> \<not> has_double_slash path"

definition normalize :: "llvm_path \<Rightarrow> string \<Rightarrow> string" where
  "normalize L path = remove_dots L path"

definition path_prefix :: "llvm_path \<Rightarrow> string \<Rightarrow> string option" where
  "path_prefix L path = tryFrom L (parent_path L path)"

text \<open>
  The range \<^verbatim>\<open>prefixesBegin\<close> to \<^verbatim>\<open>prefixesEnd\<close>: the path, its parent, and so on until the
  parent is no absolute path. The iteration is cut off after \<open>fuel\<close> elements.
\<close>

fun prefixes_fuel :: "llvm_path \<Rightarrow> nat \<Rightarrow> string \<Rightarrow> string list" where
  "prefixes_fuel L 0 path = []"
| "prefixes_fuel L (Suc n) path =
     path # (case path_prefix L path of None \<Rightarrow> [] | Some p \<Rightarrow> prefixes_fuel L n p)"

definition path_prefixes :: "llvm_path \<Rightarrow> string \<Rightarrow> string list" where
  "path_prefixes L path = prefixes_fuel L (length path + 1) path"

definition mkAbsolutePath :: "llvm_path \<Rightarrow> string \<Rightarrow> string result" where
  "mkAbsolutePath L value = enforcing (tryFrom L value \<noteq> None) ''AbsolutePath'' (Inr value)"

datatype RootKind = Project | Build | External

fun root_kind_rank :: "RootKind \<Rightarrow> nat" where
  "root_kind_rank Project = 0"
| "root_kind_rank Build = 1"
| "root_kind_rank External = 2"

record RootRelativePathRef =
  rel_value :: string
  rel_kind :: RootKind

definition mkRootRelativePathRef :: "llvm_path \<Rightarrow> string \<Rightarrow> RootKind \<Rightarrow> RootRelativePathRef result" where
  "mkRootRelativePathRef L value kind =
     enforcing (value \<noteq> []) ''use default ctor to make empty paths for explicitness''
     (enforcing (\<not> is_absolute L value) ''is_relative(value)''
       (Inr \<lparr>rel_value = value, rel_kind = kind\<rparr>))"

definition compareRootRelativePathRef ::
  "RootRelativePathRef \<Rightarrow> RootRelativePathRef \<Rightarrow> strong_ordering" where
  "compareRootRelativePathRef lhs rhs =
     CMP_STR (rel_value lhs) (rel_value rhs)
       (CMP_EXPR (root_kind_rank (rel_kind lhs)) (root_kind_rank (rel_kind rhs)) SO_equal)"

definition mkRootRelativePath :: "llvm_path \<Rightarrow> string \<Rightarrow> RootKind \<Rightarrow> RootRelativePathRef result" where
  "mkRootRelativePath L path kind =
     (if path = [] then Inr \<lparr>rel_value = path, rel_kind = kind\<rparr>
      else enforcing (\<not> is_absolute L path) ''is_relative(value)''
             (Inr \<lparr>rel_value = path, rel_kind = kind\<rparr>))"

definition replaceExtension :: "string \<Rightarrow> RootRelativePathRef \<Rightarrow> RootRelativePathRef" where
  "replaceExtension newExtension p =
     (case find_last (CHR ''.'') (rel_value p) of
        None \<Rightarrow> p
      | Some i \<Rightarrow> p\<lparr>rel_value := take i (rel_value p) @ newExtension\<rparr>)"

record RootPath =
  root_value :: string
  root_kind :: RootKind

definition joinPath :: "string \<Rightarrow> string \<Rightarrow> string" where
  "joinPath s1 s2 =
     (if ends_with s1 [preferred_separator] then s1 @ s2 else s1 @ preferred_separator # s2)"

definition tryMakeRelative ::
  "llvm_path \<Rightarrow> RootPath \<Rightarrow> string \<Rightarrow> RootRelativePathRef option result" where
  "tryMakeRelative L root path =
     (case makeRelative (root_value root) path of
        None \<Rightarrow> Inr None
      | Some rel \<Rightarrow> rbind (mkRootRelativePathRef L rel (root_kind root)) (\<lambda>r. Inr (Some r)))"

definition makeAbsoluteAllowKindMismatch ::
  "llvm_path \<Rightarrow> RootPath \<Rightarrow> RootRelativePathRef \<Rightarrow> string result" where
  "makeAbsoluteAllowKindMismatch L root rel =
     mkAbsolutePath L (joinPath (root_value root) (rel_value rel))"

definition makeAbsolute :: "llvm_path \<Rightarrow> RootPath \<Rightarrow> RootRelativePathRef \<Rightarrow> string result" where
  "makeAbsolute L root rel =
     enforcing (root_kind root = rel_kind rel) ''kind() == relativePathRef.kind()''
       (makeAbsoluteAllowKindMismatch L root rel)"

text \<open>
  What the code relies on: an absolute POSIX path is one that starts with the separator, and
  the parent of a path that has one is a proper prefix of it.
\<close>

definition posix_paths :: "llvm_path \<Rightarrow> bool" where
  "posix_paths L \<longleftrightarrow>
     (\<forall>p. is_absolute L p \<longleftrightarrow> starts_with p [preferred_separator]) \<and>
     (\<forall>p. is_absolute L (parent_path L p) \<longrightarrow>
            (\<exists>t. t \<noteq> [] \<and> p = parent_path L p @ t))"

subsection \<open>Lemmas\<close>

lemma find_last_None: "find_last c s = None \<longleftrightarrow> c \<notin> set s"
  by (induction s) (auto split: option.splits)

lemma find_last_Some:
  "find_last c s = Some i \<Longrightarrow> s = take i s @ c # drop (i + 1) s \<and> c \<notin> set (drop (i + 1) s)"
  by (induction s arbitrary: i) (auto simp: find_last_None split: option.splits if_splits)

lemma find_last_less: "find_last c s = Some i \<Longrightarrow> i < length s"
  by (induction s arbitrary: i) (auto split: option.splits if_splits)

lemma find_last_append: "c \<notin> set t \<Longrightarrow> find_last c (s @ c # t) = Some (length s)"
proof (induction s)
  case Nil
  then show ?case using find_last_None [of c t] by simp
qed simp

lemma skip_separators_dropWhile: "skip_separators s = dropWhile (\<lambda>c. c = preferred_separator) s"
  by (induction s) auto

lemma makeRelative_iff:
  "makeRelative p l = Some r \<longleftrightarrow>
     (\<exists>t. l = p @ t \<and> r = dropWhile (\<lambda>c. c = preferred_separator) t)"
  by (auto simp: makeRelative_def starts_with_iff skip_separators_dropWhile)

lemma makeRelative_joinPath:
  assumes "\<not> starts_with rel [preferred_separator]"
  shows "makeRelative root (joinPath root rel) = Some rel"
proof -
  have "skip_separators rel = rel"
    using assms by (cases rel) (auto simp: starts_with_def)
  then show ?thesis by (simp add: makeRelative_def joinPath_def starts_with_def)
qed

lemma fileName_eq:
  "fileName path = Some f \<longleftrightarrow>
     (\<exists>d. path = d @ preferred_separator # f) \<and> f \<noteq> [] \<and> preferred_separator \<notin> set f"
proof
  assume f: "fileName path = Some f"
  then obtain i where i: "find_last preferred_separator path = Some i" "i \<noteq> length path - 1"
      "f = drop (i + 1) path"
    by (auto simp: fileName_def split: option.splits if_splits)
  have "path = take i path @ preferred_separator # f" "preferred_separator \<notin> set f"
    using find_last_Some [OF i(1)] i(3) by auto
  moreover have "f \<noteq> []"
    using i find_last_less [OF i(1)] by auto
  ultimately show "(\<exists>d. path = d @ preferred_separator # f) \<and> f \<noteq> [] \<and> preferred_separator \<notin> set f"
    by blast
next
  assume "(\<exists>d. path = d @ preferred_separator # f) \<and> f \<noteq> [] \<and> preferred_separator \<notin> set f"
  then show "fileName path = Some f"
    by (auto simp: fileName_def find_last_append)
qed

lemma path_prefix_shorter:
  "posix_paths L \<Longrightarrow> path_prefix L p = Some q \<Longrightarrow> length q < length p"
  by (auto simp: path_prefix_def tryFrom_def posix_paths_def split: if_splits)
    (metis length_append length_greater_0_conv less_add_same_cancel1)

lemma prefixes_fuel_enough:
  assumes "posix_paths L"
  shows "length p < n \<Longrightarrow> length p < m \<Longrightarrow> prefixes_fuel L n p = prefixes_fuel L m p"
proof (induction n arbitrary: p m)
  case (Suc n)
  then obtain m' where m: "m = Suc m'" by (cases m) auto
  show ?case
  proof (cases "path_prefix L p")
    case (Some q)
    with path_prefix_shorter [OF assms this] Suc.prems m have "length q < n" "length q < m'" by auto
    with Suc.IH [of q m'] Some m show ?thesis by simp
  qed (simp add: m)
qed simp

text \<open>The iteration visits the path and then the prefixes of its parent.\<close>

lemma path_prefixes_rec:
  assumes "posix_paths L"
  shows "path_prefixes L p = p # (case path_prefix L p of None \<Rightarrow> [] | Some q \<Rightarrow> path_prefixes L q)"
proof (cases "path_prefix L p")
  case (Some q)
  then have "prefixes_fuel L (length p) q = prefixes_fuel L (length q + 1) q"
    using path_prefix_shorter [OF assms Some] by (intro prefixes_fuel_enough [OF assms]) auto
  with Some show ?thesis by (simp add: path_prefixes_def)
qed (simp add: path_prefixes_def)

lemma path_prefixes_self: "p \<in> set (path_prefixes L p)"
  by (simp add: path_prefixes_def)

subsection \<open>A concrete instance\<close>

definition slash_paths :: llvm_path where
  "slash_paths = \<lparr>is_absolute = (\<lambda>p. starts_with p ''/''),
     parent_path = (\<lambda>p. case find_last (CHR ''/'') p of None \<Rightarrow> [] | Some i \<Rightarrow> take i p),
     components = (\<lambda>p. [p]), remove_dots = id, extension_of = (\<lambda>p. [])\<rparr>"

lemma posix_slash_paths: "posix_paths slash_paths"
proof -
  have "\<exists>t. t \<noteq> [] \<and> p = parent_path slash_paths p @ t" if "is_absolute slash_paths (parent_path slash_paths p)" for p
  proof (cases "find_last (CHR ''/'') p")
    case None
    with that show ?thesis by (simp add: slash_paths_def starts_with_def)
  next
    case (Some i)
    then have "i < length p" by (rule find_last_less)
    then have "drop i p \<noteq> []" "p = parent_path slash_paths p @ drop i p" using Some by (simp_all add: slash_paths_def)
    then show ?thesis by blast
  qed
  then show ?thesis by (simp add: posix_paths_def) (simp add: slash_paths_def)
qed

subsection \<open>Properties\<close>

lemma prefix_is_prefix: "posix_paths L \<Longrightarrow> path_prefix L p = Some q \<Longrightarrow> \<exists>t. t \<noteq> [] \<and> p = q @ t"
  by (auto simp: path_prefix_def tryFrom_def posix_paths_def split: if_splits)

lemma path_prefixes_prefix:
  assumes "posix_paths L"
  shows "q \<in> set (path_prefixes L p) \<Longrightarrow> \<exists>t. p = q @ t"
proof (induction "length p" arbitrary: p rule: less_induct)
  case less
  show ?case
  proof (cases "path_prefix L p")
    case None
    with less.prems path_prefixes_rec [OF assms, of p] show ?thesis by simp
  next
    case (Some r)
    then obtain t where t: "p = r @ t" using prefix_is_prefix [OF assms] by blast
    show ?thesis
    proof (cases "q = p")
      case False
      then have "q \<in> set (path_prefixes L r)" using less.prems path_prefixes_rec [OF assms, of p] Some by simp
      from less.hyps [OF path_prefix_shorter [OF assms Some] this] t show ?thesis by auto
    qed simp
  qed
qed

text \<open>
  Walking up from a path. The range of prefixes of a path consists of the path and, when its
  parent is an absolute path, the range of the parent; it ends, and everything in it is a
  prefix of the path.
\<close>

theorem prefix_walk:
  assumes "posix_paths L"
  shows "path_prefixes L p = p # (case path_prefix L p of None \<Rightarrow> [] | Some q \<Rightarrow> path_prefixes L q) \<and>
    length (path_prefixes L p) \<le> length p + 1 \<and> (\<forall>q \<in> set (path_prefixes L p). \<exists>t. p = q @ t)"
proof -
  have "length (prefixes_fuel L n q) \<le> n" for n q
    by (induction n arbitrary: q) (auto split: option.splits)
  then have "length (path_prefixes L p) \<le> length p + 1" unfolding path_prefixes_def .
  with path_prefixes_rec [OF assms] path_prefixes_prefix [OF assms] show ?thesis by blast
qed

theorem prefix_walk_witness:
  "path_prefixes slash_paths ''/a/b/c'' = [''/a/b/c'', ''/a/b'', ''/a''] \<and>
   length (path_prefixes slash_paths ''/a/b/c'') \<le> 7 \<and> (\<exists>t. ''/a/b/c'' = ''/a'' @ t)"
  using prefix_walk [OF posix_slash_paths, of "''/a/b/c''"]
  by (simp add: path_prefixes_def path_prefix_def tryFrom_def slash_paths_def starts_with_def)

text \<open>
  Root-relative paths. A non-empty relative path that is made absolute under a root of the
  same kind is an absolute path, and making that path relative to the root gives the relative
  path back.
\<close>

theorem root_relative_roundtrip:
  assumes "posix_paths L" "is_absolute L (root_value root)"
    and "mkRootRelativePathRef L value (root_kind root) = Inr rel"
  shows "\<exists>p. makeAbsolute L root rel = Inr p \<and> is_absolute L p \<and> tryMakeRelative L root p = Inr (Some rel)"
proof -
  have rel: "value \<noteq> []" "\<not> is_absolute L value" "rel = \<lparr>rel_value = value, rel_kind = root_kind root\<rparr>"
    using assms(3) by (auto simp: mkRootRelativePathRef_def enforcing_def split: if_splits)
  let ?p = "joinPath (root_value root) value"
  have abs: "is_absolute L ?p"
    using assms(1,2) by (auto simp: posix_paths_def joinPath_def starts_with_iff)
  moreover have "\<not> starts_with value [preferred_separator]" using rel(2) assms(1) by (simp add: posix_paths_def)
  note makeRelative_joinPath [OF this]
  ultimately show ?thesis
    using rel assms(3)
    by (simp add: makeAbsolute_def makeAbsoluteAllowKindMismatch_def mkAbsolutePath_def tryFrom_def
        tryMakeRelative_def)
qed

theorem root_relative_roundtrip_witness:
  "\<exists>p. makeAbsolute slash_paths \<lparr>root_value = ''/proj'', root_kind = Project\<rparr>
        \<lparr>rel_value = ''src/a.c'', rel_kind = Project\<rparr> = Inr p \<and>
     tryMakeRelative slash_paths \<lparr>root_value = ''/proj'', root_kind = Project\<rparr> p =
       Inr (Some \<lparr>rel_value = ''src/a.c'', rel_kind = Project\<rparr>)"
  using root_relative_roundtrip [OF posix_slash_paths, of "\<lparr>root_value = ''/proj'', root_kind = Project\<rparr>" "''src/a.c''"
      "\<lparr>rel_value = ''src/a.c'', rel_kind = Project\<rparr>"]
  by (auto simp: slash_paths_def starts_with_def mkRootRelativePathRef_def)

text \<open>
  The containment test of \<^verbatim>\<open>makeRelative\<close> is one of strings, not of path components: every
  text appended to the root counts as being below it, so a sibling directory whose name
  continues the name of the root gives a relative path that does not lead back to the file.
\<close>

theorem makeRelative_is_textual:
  "makeRelative root (root @ t) = Some (dropWhile (\<lambda>c. c = preferred_separator) t) \<and>
   makeRelative ''/proj'' ''/proj2/a.h'' = Some ''2/a.h'' \<and> joinPath ''/proj'' ''2/a.h'' \<noteq> ''/proj2/a.h''"
  by (simp add: makeRelative_def starts_with_def joinPath_def ends_with_def skip_separators_dropWhile)

end
