(* ===== verification/Command_Line.thy ===== *)
theory Command_Line
  imports Paths "HOL-Library.Sublist"
begin

text \<open>
  Command lines: splitting the \<^verbatim>\<open>"command"\<close> string of a compilation database into arguments
  (indexer/LlvmCommandLineParsing.cc), removing options Clang does not know
  (indexer/CommandLineCleaner.h and indexer/CommandLineCleaner.cc), and the adjustments for
  the toolchain a command line was written for (the \<^verbatim>\<open>ToolchainInfo\<close> classes of
  indexer/CompilationDatabase.cc).

  The parser's position is modelled by the text from there to the end; the empty text is the
  end of the input. Matching a regular expression (\<^verbatim>\<open>llvm::Regex\<close>) is a parameter, and so
  is everything the toolchain detection asks of the system: the record \<open>tool_env\<close>.
\<close>

subsection \<open>Splitting a command line\<close>

fun parseDoubleQuotedStringInto :: "string \<Rightarrow> string \<Rightarrow> string \<times> string" where
  "parseDoubleQuotedStringInto acc [] = (acc, [])"
| "parseDoubleQuotedStringInto acc (c # r) =
     (if c = CHR 0x22 then (acc, r)
      else if c = CHR 0x5C then
        (case r of [] \<Rightarrow> (acc, []) | d # r' \<Rightarrow> parseDoubleQuotedStringInto (acc @ [d]) r')
      else parseDoubleQuotedStringInto (acc @ [c]) r)"

fun parseSingleQuotedStringInto :: "string \<Rightarrow> string \<Rightarrow> string \<times> string" where
  "parseSingleQuotedStringInto acc [] = (acc, [])"
| "parseSingleQuotedStringInto acc (c # r) =
     (if c = CHR 0x27 then (acc, r) else parseSingleQuotedStringInto (acc @ [c]) r)"

definition ends_free :: "string \<Rightarrow> bool" where
  "ends_free r \<longleftrightarrow> r = [] \<or> hd r = CHR '' '' \<or> hd r = CHR 0x22 \<or> hd r = CHR 0x27"

fun parseFreeStringInto :: "string \<Rightarrow> string \<Rightarrow> string \<times> string" where
  "parseFreeStringInto acc [] = (acc, [])"
| "parseFreeStringInto acc (c # r) =
     (if c = CHR 0x5C then
        (case r of [] \<Rightarrow> (acc, [])
         | d # r' \<Rightarrow> if ends_free r' then (acc @ [d], r') else parseFreeStringInto (acc @ [d]) r')
      else if ends_free r then (acc @ [c], r) else parseFreeStringInto (acc @ [c]) r)"

definition parseStep :: "string \<Rightarrow> string \<Rightarrow> string \<times> string" where
  "parseStep acc r =
     (if hd r = CHR 0x22 then parseDoubleQuotedStringInto acc (tl r)
      else if hd r = CHR 0x27 then parseSingleQuotedStringInto acc (tl r)
      else parseFreeStringInto acc r)"

lemma parseDouble_shorter: "length (snd (parseDoubleQuotedStringInto acc r)) \<le> length r"
proof (induction acc r rule: parseDoubleQuotedStringInto.induct)
  case (2 acc c r)
  then show ?case by (cases r) (simp_all add: le_SucI)
qed simp

lemma parseSingle_shorter: "length (snd (parseSingleQuotedStringInto acc r)) \<le> length r"
  by (induction acc r rule: parseSingleQuotedStringInto.induct) auto

lemma parseFree_shorter: "r \<noteq> [] \<Longrightarrow> length (snd (parseFreeStringInto acc r)) < length r"
proof (induction acc r rule: parseFreeStringInto.induct)
  case (2 acc c r)
  show ?case
  proof (cases r)
    case Nil
    then show ?thesis by (simp add: ends_free_def)
  next
    case (Cons d r')
    then show ?thesis using "2.IH" by (cases "r' = []") (simp_all add: ends_free_def less_SucI)
  qed
qed simp

lemma parseStep_shorter:
  assumes "r \<noteq> []"
  shows "length (snd (parseStep acc r)) < length r"
proof -
  have "length (tl r) < length r" using assms by simp
  then show ?thesis
    using parseDouble_shorter [of acc "tl r"] parseSingle_shorter [of acc "tl r"] parseFree_shorter [OF assms, of acc]
    by (auto simp: parseStep_def)
qed

function parseStringInto :: "string \<Rightarrow> string \<Rightarrow> string \<times> string" where
  "parseStringInto acc r =
     (if r = [] then (acc, [])
      else let (acc', r') = parseStep acc r
           in if r' = [] \<or> hd r' = CHR '' '' then (acc', r') else parseStringInto acc' r')"
  by pat_completeness auto
termination
proof (relation "measure (\<lambda>(acc, r). length r)", goal_cases)
  case (2 acc r x acc' r')
  then show ?case using parseStep_shorter [of r acc] by (metis in_measure case_prod_conv snd_conv)
qed simp

declare parseStringInto.simps [simp del]

lemma parseStringInto_shorter: "r \<noteq> [] \<Longrightarrow> length (snd (parseStringInto acc r)) < length r"
proof (induction acc r rule: parseStringInto.induct)
  case (1 acc r)
  obtain acc' r' where s: "parseStep acc r = (acc', r')" by (cases "parseStep acc r")
  have lt: "length r' < length r" using parseStep_shorter [OF "1.prems", of acc] s by simp
  show ?case
  proof (cases "r' = [] \<or> hd r' = CHR '' ''")
    case True
    then show ?thesis using s lt "1.prems" by (simp add: parseStringInto.simps [of acc r])
  next
    case False
    then have "length (snd (parseStringInto acc' r')) < length r'" using "1.IH" [OF "1.prems" s [symmetric] refl] by simp
    with False s lt "1.prems" show ?thesis by (simp add: parseStringInto.simps [of acc r])
  qed
qed

function parseCommandLine :: "string list \<Rightarrow> string \<Rightarrow> string list" where
  "parseCommandLine cl inp =
     (let r = dropWhile (\<lambda>c. c = CHR '' '') inp
      in if r = [] then cl
         else let (arg, r') = parseStringInto [] r
              in if r' = [] then cl @ [arg] else parseCommandLine (cl @ [arg]) r')"
  by pat_completeness auto
termination
proof (relation "measure (\<lambda>(cl, inp). length inp)", goal_cases)
  case (2 cl inp r x arg r')
  then have "length r' < length r" using parseStringInto_shorter [of r "[]"] by (metis snd_conv)
  moreover have "length r \<le> length inp" using "2"(1) length_dropWhile_le by metis
  ultimately show ?case by simp
qed simp

declare parseCommandLine.simps [simp del]

definition unescapeCommandLine :: "string \<Rightarrow> string list" where
  "unescapeCommandLine inp = parseCommandLine [] inp"

subsection \<open>Removing options\<close>

datatype Action = Keep | ZapOne | ZapTwo

text \<open>
  \<^verbatim>\<open>zap\<close> applies a predicate with a memory of one bit to the elements from left to right
  (\<^verbatim>\<open>std::stable_partition\<close> on a random-access range does so in the C++ libraries in use).
\<close>

fun zap_from :: "('a \<Rightarrow> Action) \<Rightarrow> bool \<Rightarrow> 'a list \<Rightarrow> 'a list" where
  "zap_from check dropFromBefore [] = []"
| "zap_from check dropFromBefore (v # vs) =
     (if dropFromBefore then zap_from check False vs
      else case check v of
             Keep \<Rightarrow> v # zap_from check False vs
           | ZapOne \<Rightarrow> zap_from check False vs
           | ZapTwo \<Rightarrow> zap_from check True vs)"

definition zap :: "('a \<Rightarrow> Action) \<Rightarrow> 'a list \<Rightarrow> 'a list" where
  "zap check vs = zap_from check False vs"

datatype CliOptionKind = NoArgument | OneArgument

record CommandLineCleaner =
  toZap :: "(string \<times> CliOptionKind) list"
  noArgumentMatcher :: "string option"

definition checkArgument :: "(string \<Rightarrow> string \<Rightarrow> bool) \<Rightarrow> CommandLineCleaner \<Rightarrow> string \<Rightarrow> Action" where
  "checkArgument rx cleaner arg =
     (if \<not> starts_with arg ''-'' then Keep
      else let flag = (case find_char (CHR ''='') arg of None \<Rightarrow> arg | Some eqIndex \<Rightarrow> take eqIndex arg)
           in if find_char (CHR ''='') arg = None \<and>
                 (case noArgumentMatcher cleaner of None \<Rightarrow> False | Some p \<Rightarrow> rx p arg)
              then ZapOne
              else case map_of (toZap cleaner) flag of
                     None \<Rightarrow> Keep
                   | Some NoArgument \<Rightarrow> ZapOne
                   | Some OneArgument \<Rightarrow> if length flag = length arg then ZapTwo else ZapOne)"

definition clean :: "(string \<Rightarrow> string \<Rightarrow> bool) \<Rightarrow> CommandLineCleaner \<Rightarrow> string list \<Rightarrow> string list" where
  "clean rx cleaner commandLine = zap (checkArgument rx cleaner) commandLine"

definition clangGccSkipOptionsWithArgs :: "string list" where
  "clangGccSkipOptionsWithArgs = [''-march'', ''-mcpu'', ''-mtune'']"

definition clangGccSkipOptionsNoArgsPattern :: string where
  "clangGccSkipOptionsNoArgsPattern = ''-m(no-)?fix-.*''"

definition forClangOrGcc :: CommandLineCleaner where
  "forClangOrGcc = \<lparr>toZap = fold (\<lambda>s. hmap_emplace s NoArgument) clangGccSkipOptionsWithArgs [],
     noArgumentMatcher = Some clangGccSkipOptionsNoArgsPattern\<rparr>"

definition nvccSkipOptionsNoArgs :: "string list" where
  "nvccSkipOptionsNoArgs =
     [''--cuda'', ''-cuda'', ''--cubin'', ''-cubin'', ''--fatbin'', ''-fatbin'', ''--ptx'',
      ''-ptx'', ''--optix-ir'', ''-optix-ir'', ''--generate-dependencies'', ''--compile'',
      ''--device-c'', ''-dc'', ''--device-w'', ''-dw'', ''--device-link'', ''-dlink'',
      ''--link'', ''-link'', ''--lib'', ''-lib'', ''--run'', ''-run'', ''--output-file'',
      ''--compiler-bindir'', ''-ccbin'', ''--allow-unsupported-compiler'', ''--archiver-binary'',
      ''-arbin'', ''--use-local-env'', ''-use-local-env'', ''--profile'', ''-pg'', ''--debug'',
      ''--device-debug'', ''-G'', ''--generate-line-info'', ''--dlink-time-opt'', ''-dlto'',
      ''--gen-opt-lto'', ''-gen-opt-lto'', ''--no-host-device-initializer-list'',
      ''-nohdinitlist'', ''--no-host-device-move-forward'', ''-nohdmvforward'',
      ''--expt-relaxed-constexpr'', ''-expt-relaxed-constexpr'', ''--extended-lambda'',
      ''-extended-lambda'', ''--expt-extended-lambda'', ''-expt-extended-lambda'', ''--m64'',
      ''-m64'', ''--forward-unknown-to-host-compiler'', ''-forward-unknown-to-host-compiler'',
      ''--forward-unknown-opts'', ''-forward-unknown-opts'', ''--keep'', ''-keep'',
      ''--save-temps'', ''-save-temps'', ''--no-align-double'', ''-no-align-double'',
      ''--no-device-link'', ''-nodlink'', ''--extra-device-vectorization'',
      ''-extra-device-vectorization'', ''--disable-warnings'', ''-w'',
      ''--keep-device-functions'', ''-keep-device-functions'', ''--source-in-ptx'',
      ''-src-in-ptx'', ''--restrict'', ''-restrict'', ''--Wreorder'', ''-Wreorder'',
      ''--Wdefault-stream-launch'', ''-Wdefault-stream-launch'', ''--Wmissing-launch-bounds'',
      ''-Wmissing-launch-bounds'', ''--Wext-lambda-captures-this'',
      ''-Wext-lambda-captures-this'', ''--Wno-deprecated-declarations'',
      ''-Wno-deprecated-declarations'', ''--Wno-deprecated-gpu-targets'',
      ''-Wno-deprecated-gpu-targets'', ''--resource-usage'', ''-res-usage'',
      ''--extensible-whole-program'', ''-ewp'', ''--compress-all'', ''-compress-all'',
      ''--no-compress'', ''-no-compress'', ''--qpp-config'', ''-qpp-config'',
      ''--compile-as-tools-patch'', ''-astoolspatch'', ''--display-error-number'', ''-err-no'',
      ''--no-display-error-number'', ''-no-err-no'', ''--augment-host-linker-script'',
      ''-aug-hls'', ''--host-relocatable-link'', ''-r'']"

definition nvccSkipOptionsWithArgs :: "string list" where
  "nvccSkipOptionsWithArgs =
     [''--cudart'', ''-cudart'', ''--cudadevrt'', ''-cudadevrt'', ''--libdevice-directory'',
      ''-ldir'', ''--target-directory'', ''-target-dir'', ''--optimization-info'',
      ''--optimize'', ''--dopt'', ''-dopt'', ''--machine'', ''-m'', ''--threads'', ''-t'',
      ''--split-compile'', ''-split-compile'', ''--keep-dir'', ''-keep-dir'',
      ''--compiler-options'', ''-Xcompiler'', ''--options-file'', ''--fatbin-options'',
      ''-Xfatbin'', ''--linker-options'', ''--archive-options'', ''-Xarchive'',
      ''--ptxas-options'', ''-Xptxas'', ''--nvlink-options'', ''-Xnvlink'', ''--time'',
      ''-time'', ''--run-args'', ''-run-args'', ''--input-drive-prefix'', ''-idp'',
      ''--dependency-drive-prefix'', ''-ddp'', ''--drive-prefix'', ''-dp'',
      ''-dependency-target-name'', ''--gpu-architecture'', ''--gpu-code'', ''-code'',
      ''--generate-code'', ''-gencode'', ''--relocatable-device-code'', ''-rdc'', ''--entries'',
      ''-e'', ''--maxrregcount'', ''-maxrregcount'', ''--use_fast_math'', ''-use_fast_math'',
      ''--ftz'', ''-ftz'', ''--prec-div'', ''-prec-div'', ''--prec-sqrt'', ''-prec-sqrt'',
      ''--fmad'', ''-fmad'', ''--default-stream'', ''-default-stream'', ''--Werror'',
      ''-Werror'', ''--diag-error'', ''-diag-error'', ''--diag-suppress'', ''-diag-suppress'',
      ''--diag-warn'', ''-diag-warn'', ''--host-linker-script'', ''-hls'',
      ''--brief-diagnostics'', ''-brief-diag'']"

definition nvccCleaner :: CommandLineCleaner where
  "nvccCleaner = \<lparr>toZap = fold (\<lambda>s. hmap_emplace s OneArgument) nvccSkipOptionsWithArgs
       (fold (\<lambda>s. hmap_emplace s NoArgument) nvccSkipOptionsNoArgs []),
     noArgumentMatcher = None\<rparr>"

subsection \<open>Toolchains\<close>

text \<open>
  \<open>run\<close> starts a compiler with the given arguments; \<open>strip_whitespace\<close>, \<open>strip_prefix\<close> and
  \<open>str_contains\<close> are the functions of Abseil the code calls on its output, \<open>regex_escape\<close> is
  \<^verbatim>\<open>llvm::Regex::escape\<close>.
\<close>

record CompletedProcess =
  isSuccess :: bool
  stdoutLines :: "string list"
  stderrLines :: "string list"

record tool_env =
  run :: "string list \<Rightarrow> CompletedProcess"
  path_exists :: "string \<Rightarrow> bool"
  find_on_path :: "string \<Rightarrow> string"
  strip_whitespace :: "string \<Rightarrow> string"
  strip_prefix :: "string \<Rightarrow> string \<Rightarrow> string"
  str_contains :: "string \<Rightarrow> string \<Rightarrow> bool"
  regex_escape :: "string \<Rightarrow> string"

record ClangToolchainInfo =
  resourceDir :: string
  compilerDriverPath :: string

datatype ToolchainInfo =
    ClangToolchain ClangToolchainInfo
  | GccToolchain string                                 \<comment> \<open>\<^verbatim>\<open>installDir\<close>\<close>
  | NvccToolchain AbsolutePath "ClangToolchainInfo option" \<comment> \<open>\<^verbatim>\<open>cudaDir\<close> and \<^verbatim>\<open>clangInfo\<close>\<close>

text \<open>The first line that starts with \<^verbatim>\<open>InstalledDir: \<close> names the directory of the driver.\<close>

definition driverPathFromLines :: "tool_env \<Rightarrow> string list \<Rightarrow> string" where
  "driverPathFromLines E lines =
     (case find (\<lambda>line. length (strip_prefix E line ''InstalledDir: '') \<noteq> length line) lines of
        None \<Rightarrow> []
      | Some line \<Rightarrow> joinPath (strip_whitespace E (strip_prefix E line ''InstalledDir: '')) ''clang'')"

definition clang_tryInfer :: "tool_env \<Rightarrow> AbsolutePath \<Rightarrow> ClangToolchainInfo option" where
  "clang_tryInfer E compilerPath =
     (let printResourceDir = run E [compilerPath, ''-print-resource-dir'']
      in if \<not> isSuccess printResourceDir \<or> stdoutLines printResourceDir = [] then None
         else let hashHashHash = run E [compilerPath, ''-###''];
                  driverPath = (if isSuccess hashHashHash
                                then driverPathFromLines E (stderrLines hashHashHash) else [])
              in if driverPath = [] then None
                 else Some \<lparr>resourceDir = strip_whitespace E (hd (stdoutLines printResourceDir)),
                            compilerDriverPath = driverPath\<rparr>)"

definition gcc_tryInfer :: "tool_env \<Rightarrow> AbsolutePath \<Rightarrow> string option" where
  "gcc_tryInfer E compilerPath =
     (let printSearchDirs = run E [compilerPath, ''-print-search-dirs'']
      in if \<not> isSuccess printSearchDirs then None
         else let dir = (case find (\<lambda>line. starts_with line ''install:'') (stdoutLines printSearchDirs) of
                    None \<Rightarrow> []
                  | Some line \<Rightarrow> strip_whitespace E (strip_prefix E line ''install:''))
              in if dir = [] then None else Some dir)"

text \<open>The CUDA toolchain looks for a clang on the path, for the headers of its runtime.\<close>

definition mkNvccToolchainInfo :: "llvm_path \<Rightarrow> tool_env \<Rightarrow> AbsolutePath \<Rightarrow> ToolchainInfo result" where
  "mkNvccToolchainInfo L E cudaDir =
     rbind (if find_on_path E ''clang'' = [] then Inr None
            else rbind (mkAbsolutePath L (find_on_path E ''clang'')) (\<lambda>p. Inr (clang_tryInfer E p)))
       (\<lambda>clang. Inr (NvccToolchain cudaDir clang))"

definition nvcc_tryInfer :: "llvm_path \<Rightarrow> tool_env \<Rightarrow> AbsolutePath \<Rightarrow> ToolchainInfo option result" where
  "nvcc_tryInfer L E compilerPath =
     (let version = run E [compilerPath, ''--version'']
      in if isSuccess version \<and> stdoutLines version \<noteq> [] \<and> str_contains E (hd (stdoutLines version)) ''NVIDIA''
         then (case path_prefix L compilerPath of None \<Rightarrow> Inr None
               | Some binDir \<Rightarrow>
                 (case path_prefix L binDir of None \<Rightarrow> Inr None
                  | Some cudaDir \<Rightarrow> rbind (mkNvccToolchainInfo L E cudaDir) (\<lambda>t. Inr (Some t))))
         else Inr None)"

definition inferToolchain :: "llvm_path \<Rightarrow> tool_env \<Rightarrow> AbsolutePath \<Rightarrow> ToolchainInfo option result" where
  "inferToolchain L E compilerPath =
     (case clang_tryInfer E compilerPath of
        Some c \<Rightarrow> Inr (Some (ClangToolchain c))
      | None \<Rightarrow>
          (case gcc_tryInfer E compilerPath of
             Some dir \<Rightarrow> Inr (Some (GccToolchain dir))
           | None \<Rightarrow> nvcc_tryInfer L E compilerPath))"

definition clang_isWellFormed :: "tool_env \<Rightarrow> ClangToolchainInfo \<Rightarrow> bool" where
  "clang_isWellFormed E c \<longleftrightarrow> path_exists E (resourceDir c) \<and> path_exists E (compilerDriverPath c)"

definition gcc_isWellFormed :: "tool_env \<Rightarrow> string \<Rightarrow> bool" where
  "gcc_isWellFormed E installDir \<longleftrightarrow> path_exists E installDir"

definition nvcc_isWellFormed :: "tool_env \<Rightarrow> AbsolutePath \<Rightarrow> bool" where
  "nvcc_isWellFormed E cudaDir \<longleftrightarrow> path_exists E (joinPath cudaDir ''include'')"

fun isWellFormed :: "tool_env \<Rightarrow> ToolchainInfo \<Rightarrow> bool" where
  "isWellFormed E (ClangToolchain c) = clang_isWellFormed E c"
| "isWellFormed E (GccToolchain installDir) = gcc_isWellFormed E installDir"
| "isWellFormed E (NvccToolchain cudaDir clang) = nvcc_isWellFormed E cudaDir"

definition clang_adjustCommandLine ::
  "(string \<Rightarrow> string \<Rightarrow> bool) \<Rightarrow> ClangToolchainInfo \<Rightarrow> string list \<Rightarrow> string list" where
  "clang_adjustCommandLine rx c commandLine =
     clean rx forClangOrGcc (commandLine[0 := compilerDriverPath c]) @ [''-resource-dir'', resourceDir c]"

definition gcc_adjustCommandLine :: "(string \<Rightarrow> string \<Rightarrow> bool) \<Rightarrow> string \<Rightarrow> string list \<Rightarrow> string list" where
  "gcc_adjustCommandLine rx installDir commandLine =
     clean rx forClangOrGcc commandLine @ [''-resource-dir'', installDir, ''-I'' @ installDir @ ''/include-fixed'']"

definition nvcc_adjustCommandLine ::
  "(string \<Rightarrow> string \<Rightarrow> bool) \<Rightarrow> AbsolutePath \<Rightarrow> ClangToolchainInfo option \<Rightarrow> string list \<Rightarrow> string list" where
  "nvcc_adjustCommandLine rx cudaDir clang commandLine =
     (let cleaned = clean rx nvccCleaner commandLine
      in (case clang of None \<Rightarrow> cleaned | Some c \<Rightarrow> clang_adjustCommandLine rx c cleaned)
         @ [''-isystem'' @ cudaDir @ [preferred_separator] @ ''include''])"

fun toolchain_adjustCommandLine ::
  "(string \<Rightarrow> string \<Rightarrow> bool) \<Rightarrow> ToolchainInfo \<Rightarrow> string list \<Rightarrow> string list" where
  "toolchain_adjustCommandLine rx (ClangToolchain c) commandLine = clang_adjustCommandLine rx c commandLine"
| "toolchain_adjustCommandLine rx (GccToolchain installDir) commandLine = gcc_adjustCommandLine rx installDir commandLine"
| "toolchain_adjustCommandLine rx (NvccToolchain cudaDir clang) commandLine = nvcc_adjustCommandLine rx cudaDir clang commandLine"

subsection \<open>Splitting inverts quoting\<close>

definition escape_char :: "char \<Rightarrow> string" where
  "escape_char c = (if c = CHR 0x22 \<or> c = CHR 0x5C then [CHR 0x5C, c] else [c])"

definition quote_arg :: "string \<Rightarrow> string" where
  "quote_arg a = CHR 0x22 # concat (map escape_char a) @ [CHR 0x22]"

lemma parseDouble_escaped:
  "parseDoubleQuotedStringInto acc (concat (map escape_char a) @ CHR 0x22 # r) = (acc @ a, r)"
  by (induction a arbitrary: acc) (auto simp: escape_char_def)

lemma parseString_quoted:
  assumes "r = [] \<or> hd r = CHR '' ''"
  shows "parseStringInto [] (quote_arg a @ r) = (a, r)"
  using assms by (auto simp: parseStringInto.simps [of "[]"] parseStep_def quote_arg_def parseDouble_escaped Let_def)

lemma parse_quoted:
  "parseCommandLine cl (join_with (CHR '' '') (map quote_arg args)) = cl @ args"
proof (induction "CHR '' ''" args arbitrary: cl rule: join_with.induct)
  case 1
  show ?case by (simp add: parseCommandLine.simps)
next
  case (2 p)
  have "dropWhile (\<lambda>c. c = CHR '' '') (quote_arg p) = quote_arg p" by (simp add: quote_arg_def)
  then show ?case
    using parseString_quoted [of "[]" p] by (simp add: parseCommandLine.simps [of cl] quote_arg_def Let_def)
next
  case (3 p q ps)
  let ?r = "CHR '' '' # join_with (CHR '' '') (map quote_arg (q # ps))"
  have d: "dropWhile (\<lambda>c. c = CHR '' '') (quote_arg p @ ?r) = quote_arg p @ ?r" by (simp add: quote_arg_def)
  have sp: "parseCommandLine cl ?r = parseCommandLine cl (join_with (CHR '' '') (map quote_arg (q # ps)))" for cl
    by (subst (1 2) parseCommandLine.simps) simp
  have "parseCommandLine cl (quote_arg p @ ?r) = parseCommandLine (cl @ [p]) ?r"
    using parseString_quoted [of ?r p] d by (simp add: parseCommandLine.simps [of cl] Let_def quote_arg_def)
  with sp "3.hyps" [of "cl @ [p]"] show ?case by simp
qed

text \<open>Words that need no quoting are taken as they are.\<close>

definition plain_word :: "string \<Rightarrow> bool" where
  "plain_word w \<longleftrightarrow> w \<noteq> [] \<and> (\<forall>c \<in> set w. c \<noteq> CHR '' '' \<and> c \<noteq> CHR 0x22 \<and> c \<noteq> CHR 0x27 \<and> c \<noteq> CHR 0x5C)"

lemma parseFree_plain:
  assumes "plain_word w" "ends_free r"
  shows "parseFreeStringInto acc (w @ r) = (acc @ w, r)"
  using assms
proof (induction w arbitrary: acc)
  case (Cons c w)
  show ?case
  proof (cases w)
    case Nil
    with Cons.prems show ?thesis by (auto simp: plain_word_def)
  next
    case (Cons d w')
    then have "plain_word w" "\<not> ends_free (w @ r)" "c \<noteq> CHR 0x5C"
      using Cons.prems by (auto simp: plain_word_def ends_free_def)
    with Cons.IH [of "acc @ [c]"] assms(2) show ?thesis by simp
  qed
qed (simp add: plain_word_def)

subsection \<open>Cleaning\<close>

lemma zap_from_Keep: "\<forall>v \<in> set vs. check v = Keep \<Longrightarrow> zap_from check False vs = vs"
  by (induction vs) auto

lemma zap_from_kept: "v \<in> set (zap_from check b vs) \<Longrightarrow> check v = Keep \<and> v \<in> set vs"
  by (induction check b vs rule: zap_from.induct) (auto split: if_splits Action.splits)

lemma zap_idem: "zap check (zap check vs) = zap check vs"
  unfolding zap_def by (rule zap_from_Keep) (auto dest: zap_from_kept)

lemma zap_filter:
  "(\<And>v. v \<in> set vs \<Longrightarrow> check v \<noteq> ZapTwo) \<Longrightarrow> zap check vs = filter (\<lambda>v. check v = Keep) vs"
  unfolding zap_def by (induction vs) (auto split: Action.splits)

lemma forClangOrGcc_toZap: "map_of (toZap forClangOrGcc) flag = (if flag \<in> set clangGccSkipOptionsWithArgs then Some NoArgument else None)"
  by (simp add: forClangOrGcc_def clangGccSkipOptionsWithArgs_def hmap_emplace_def)

lemma clang_never_ZapTwo: "checkArgument rx forClangOrGcc arg \<noteq> ZapTwo"
  by (auto simp: checkArgument_def forClangOrGcc_toZap Let_def split: option.splits)

subsection \<open>Properties\<close>

text \<open>How one argument may be written: in double quotes, or as it is when nothing in it is special.\<close>

definition renders :: "string \<Rightarrow> string \<Rightarrow> bool" where
  "renders a r \<longleftrightarrow> r = quote_arg a \<or> (plain_word a \<and> r = a)"

lemma plain_word_hd:
  assumes "plain_word w"
  shows "w \<noteq> [] \<and> hd w \<noteq> CHR '' '' \<and> hd w \<noteq> CHR 0x22 \<and> hd w \<noteq> CHR 0x27"
proof -
  have "w \<noteq> []" using assms by (simp add: plain_word_def)
  moreover from this have "hd w \<in> set w" by simp
  ultimately show ?thesis using assms unfolding plain_word_def by blast
qed

lemma parseString_renders:
  assumes "renders a r" "rest = [] \<or> hd rest = CHR '' ''"
  shows "parseStringInto [] (r @ rest) = (a, rest)"
proof (cases "r = quote_arg a")
  case True
  then show ?thesis using parseString_quoted [OF assms(2)] by simp
next
  case False
  then have a: "plain_word a" "r = a" using assms(1) by (auto simp: renders_def)
  have "parseFreeStringInto [] (a @ rest) = (a, rest)"
    using parseFree_plain [OF a(1), of rest "[]"] assms(2) by (auto simp: ends_free_def)
  then have "parseStep [] (a @ rest) = (a, rest)"
    using plain_word_hd [OF a(1)] by (simp add: parseStep_def)
  moreover have "a @ rest \<noteq> []" using plain_word_hd [OF a(1)] by simp
  ultimately show ?thesis using a(2) assms(2) by (simp add: parseStringInto.simps [of "[]"])
qed

lemma renders_first: "renders a r \<Longrightarrow> r \<noteq> [] \<and> hd r \<noteq> CHR '' ''"
  using plain_word_hd [of a] by (elim renders_def [THEN iffD1, THEN disjE]) (auto simp: quote_arg_def)

lemma parse_rendered:
  assumes "list_all2 renders args rs"
  shows "parseCommandLine cl (join_with (CHR '' '') rs) = cl @ args"
  using assms
proof (induction "CHR '' ''" rs arbitrary: cl args rule: join_with.induct)
  case 1
  then show ?case by (simp add: parseCommandLine.simps)
next
  case (2 r)
  then obtain a where a: "args = [a]" "renders a r" by (auto simp: list_all2_Cons2)
  then have "dropWhile (\<lambda>c. c = CHR '' '') r = r" using renders_first [OF a(2)] by (cases r) auto
  with a parseString_renders [OF a(2), of "[]"] renders_first [OF a(2)] show ?case
    by (simp add: parseCommandLine.simps [of cl] Let_def)
next
  case (3 r q rs)
  let ?rest = "CHR '' '' # join_with (CHR '' '') (q # rs)"
  obtain a as where a: "args = a # as" "renders a r" "list_all2 renders as (q # rs)"
    using "3.prems" by (auto simp: list_all2_Cons2)
  have d: "dropWhile (\<lambda>c. c = CHR '' '') (r @ ?rest) = r @ ?rest" using renders_first [OF a(2)] by (cases r) auto
  have sp: "parseCommandLine cl ?rest = parseCommandLine cl (join_with (CHR '' '') (q # rs))" for cl
    by (subst (1 2) parseCommandLine.simps) simp
  have "parseCommandLine cl (r @ ?rest) = parseCommandLine (cl @ [a]) ?rest"
    using parseString_renders [OF a(2), of ?rest] d renders_first [OF a(2)]
    by (simp add: parseCommandLine.simps [of cl] Let_def)
  with sp "3.hyps" [OF a(3), of "cl @ [a]"] a(1) show ?case by simp
qed

text \<open>
  C31: Splitting a command line. A command line in which the arguments are separated by single
  blanks, each written in double quotes with quotes and backslashes escaped, or as it is when
  it contains no blank, quote or backslash, is split into exactly these arguments, empty
  quoted ones included.
\<close>

theorem unescape_inverts_quoting:
  assumes "list_all2 renders args rs"
  shows "unescapeCommandLine (join_with (CHR '' '') rs) = args"
  using parse_rendered [OF assms, of "[]"] by (simp add: unescapeCommandLine_def)

theorem unescape_inverts_quoting_witness:
  "unescapeCommandLine (join_with (CHR '' '') [''cc'', quote_arg ''a b'', quote_arg [], ''-c'']) = [''cc'', ''a b'', [], ''-c'']"
  by (rule unescape_inverts_quoting) (simp add: renders_def plain_word_def)

lemma zap_from_subseq: "subseq (zap_from check b vs) vs"
  by (induction check b vs rule: zap_from.induct) (auto split: Action.splits)



text \<open>
  The options \<^verbatim>\<open>-march\<close>, \<^verbatim>\<open>-mcpu\<close> and \<^verbatim>\<open>-mtune\<close> are listed as options with an argument but
  are registered as options without one: of \<^verbatim>\<open>-march\<close> followed by its value as an argument of
  its own only the option is removed, and the value is left as if it were an input file.
\<close>

theorem separate_march_value_stays:
  assumes "opt \<in> set clangGccSkipOptionsWithArgs" "\<not> starts_with value ''-''"
  shows "clean rx forClangOrGcc (opt # value # rest) = value # clean rx forClangOrGcc rest"
proof -
  have "checkArgument rx forClangOrGcc opt = ZapOne"
    using assms(1) forClangOrGcc_toZap [of opt]
    by (auto simp: checkArgument_def clangGccSkipOptionsWithArgs_def starts_with_def Let_def)
  moreover have "checkArgument rx forClangOrGcc value = Keep" using assms(2) by (simp add: checkArgument_def)
  ultimately show ?thesis by (simp add: clean_def zap_def)
qed

theorem separate_march_value_stays_witness:
  "clean (\<lambda>p a. False) forClangOrGcc [''-march'', ''armv8'', ''a.c''] = ''armv8'' # clean (\<lambda>p a. False) forClangOrGcc [''a.c'']"
  by (rule separate_march_value_stays) (simp_all add: clangGccSkipOptionsWithArgs_def starts_with_def)

end
