(* ===== verification/Scheduler.thy ===== *)
theory Scheduler
  imports Ipc_Messages
begin

text \<open>
  The job scheduler of the driver process: class \<^verbatim>\<open>Scheduler\<close>, \<^verbatim>\<open>WorkerInfo\<close> and
  \<^verbatim>\<open>TrackedIndexJob\<close> of indexer/Driver.cc. The state is the record \<open>Scheduler\<close> with the
  fields of the class; every method is a function from the state to a checked new state.
  Process handles are process identifiers, points in time are integers, and
  \<^verbatim>\<open>std::chrono::steady_clock::now\<close> and the processes a spawn callback returns are arguments.

  The invariant \<open>sched_inv\<close> contains the invariants written as comments on the fields of
  the class (\<^verbatim>\<open>pendingJobs\<close>, \<^verbatim>\<open>wipJobs\<close>, \<^verbatim>\<open>maybeErroredJobs\<close>) and implies the
  equation that \<^verbatim>\<open>checkInvariants\<close> tests at run time.
\<close>

subsection \<open>State\<close>

type_synonym Process = nat
type_synonym Instant = int

datatype WorkerStatus = Busy | Idle | Stopped

record WorkerInfo =
  status :: WorkerStatus
  processHandle :: Process
  startTime :: Instant
  currentlyProcessing :: "JobId option"

definition newWorkerInfo :: "Process \<Rightarrow> WorkerInfo" where
  "newWorkerInfo p = \<lparr>status = Idle, processHandle = p, startTime = 0, currentlyProcessing = None\<rparr>"

record TrackedIndexJob =
  tj_job :: IndexJob
  assignedWorker :: "WorkerId option"

record Scheduler =
  workers :: "WorkerInfo list"
  idleWorkers :: "WorkerId list"
  stoppedWorkers :: "WorkerId list"
  allJobList :: "JobId \<rightharpoonup> TrackedIndexJob"
  pendingJobs :: "JobId list"
  wipJobs :: "JobId set"
  maybeErroredJobs :: "JobId set"

definition empty_scheduler :: Scheduler where
  "empty_scheduler = \<lparr>workers = [], idleWorkers = [], stoppedWorkers = [], allJobList = Map.empty,
     pendingJobs = [], wipJobs = {}, maybeErroredJobs = {}\<rparr>"

abbreviation cur :: "Scheduler \<Rightarrow> WorkerId \<Rightarrow> JobId option" where
  "cur s w \<equiv> currentlyProcessing (workers s ! w)"

definition get_worker :: "Scheduler \<Rightarrow> WorkerId \<Rightarrow> WorkerInfo result" where
  "get_worker s w = (if w < length (workers s) then Inr (workers s ! w) else Inl IndexOutOfRange)"

definition set_worker :: "WorkerId \<Rightarrow> WorkerInfo \<Rightarrow> Scheduler \<Rightarrow> Scheduler" where
  "set_worker w i s = s\<lparr>workers := (workers s)[w := i]\<rparr>"

subsection \<open>Operations\<close>

definition checkInvariants :: "Scheduler \<Rightarrow> Scheduler result" where
  "checkInvariants s =
     enforcing (card (wipJobs s) + length (idleWorkers s) + length (stoppedWorkers s)
                = length (workers s))
       ''wipJobs.size() + idleWorkers.size() + stoppedWorkers.size() != workers.size()''
       (Inr s)"

definition initializeWorkers :: "nat \<Rightarrow> (WorkerId \<Rightarrow> Process) \<Rightarrow> Scheduler \<Rightarrow> Scheduler result" where
  "initializeWorkers numWorkers spawn s =
     checkInvariants (s\<lparr>workers := map (\<lambda>w. newWorkerInfo (spawn w)) [0..<numWorkers],
                        idleWorkers := idleWorkers s @ [0..<numWorkers]\<rparr>)"

definition is_main_file :: "PreprocessedFileInfo \<Rightarrow> bool" where
  "is_main_file fi \<longleftrightarrow> ends_with (fi_path fi) ''.c'' \<or> ends_with (fi_path fi) ''.cc''
     \<or> ends_with (fi_path fi) ''.cxx'' \<or> ends_with (fi_path fi) ''.cpp''"

definition single_quoted :: "string \<Rightarrow> string" where
  "single_quoted p = CHR 0x27 # p @ [CHR 0x27]"

text \<open>The text logged for a job whose worker is terminated.\<close>

definition logJobSkip :: "Scheduler \<Rightarrow> JobId \<Rightarrow> string result" where
  "logJobSkip s jobId =
     (case allJobList s jobId of
        None \<Rightarrow> Inl (EnforceFailed ''it != allJobList.end()'')
      | Some t \<Rightarrow>
        (case job_kind (tj_job t) of
           SemanticAnalysis \<Rightarrow>
             Inr (''running semantic analysis for '' @ single_quoted (filePath (job_command (tj_job t))))
         | EmitIndex \<Rightarrow>
             (case find is_main_file (job_filesToBeIndexed (tj_job t)) of
                Some fi \<Rightarrow> Inr (''emitting an index for '' @ single_quoted (fi_path fi))
              | None \<Rightarrow> Inr ''emitting a shard'')))"

definition terminateRunningWorker :: "WorkerId \<Rightarrow> Process \<Rightarrow> Scheduler \<Rightarrow> Scheduler result" where
  "terminateRunningWorker workerId newHandle s =
     rbind (get_worker s workerId) (\<lambda>workerInfo.
     rbind (opt_value (currentlyProcessing workerInfo)) (\<lambda>oldJobId.
       (let erased = (oldJobId \<in> wipJobs s);
            s1 = s\<lparr>wipJobs := wipJobs s - {oldJobId},
                   maybeErroredJobs := insert oldJobId (maybeErroredJobs s)\<rparr>
        in enforcing erased ''worker was processing job, but the job was not marked WIP''
             (rbind (logJobSkip s1 oldJobId) (\<lambda>_.
               checkInvariants
                 ((set_worker workerId (newWorkerInfo newHandle) s1)
                    \<lparr>idleWorkers := idleWorkers s1 @ [workerId]\<rparr>))))))"

definition terminateIfLongRunning ::
  "Instant \<Rightarrow> (WorkerId \<Rightarrow> Process) \<Rightarrow> WorkerId \<Rightarrow> Scheduler \<Rightarrow> Scheduler result" where
  "terminateIfLongRunning startedBefore respawn workerId s =
     rbind (get_worker s workerId) (\<lambda>workerInfo.
       case status workerInfo of
         Idle \<Rightarrow> Inr s
       | Stopped \<Rightarrow> Inr s
       | Busy \<Rightarrow> if startTime workerInfo < startedBefore
                 then terminateRunningWorker workerId (respawn workerId) s else Inr s)"

definition terminateLongRunningWorkersAndRespawn ::
  "Instant \<Rightarrow> (WorkerId \<Rightarrow> Process) \<Rightarrow> Scheduler \<Rightarrow> Scheduler result" where
  "terminateLongRunningWorkersAndRespawn startedBefore respawn s =
     rbind (checkInvariants s)
       (rfold (terminateIfLongRunning startedBefore respawn) [0..<length (workers s)])"

definition queueSemaTask :: "CommandObject \<Rightarrow> Scheduler \<Rightarrow> Scheduler result" where
  "queueSemaTask cmd s =
     (let jobId = newTask (word_of_nat (index cmd));
          job = \<lparr>job_kind = SemanticAnalysis, job_command = cmd, job_filesToBeIndexed = []\<rparr>
      in enforcing (allJobList s jobId = None)
           ''expected jobId to be added for the first time''
           (Inr (s\<lparr>allJobList := (allJobList s)(jobId \<mapsto> \<lparr>tj_job = job, assignedWorker = None\<rparr>),
                   pendingJobs := pendingJobs s @ [jobId]\<rparr>)))"

definition claimIdleWorker :: "Scheduler \<Rightarrow> (WorkerId \<times> Scheduler) result" where
  "claimIdleWorker s =
     (case idleWorkers s of
        [] \<Rightarrow> Inl (EnforceFailed ''!this->idleWorkers.empty()'')
      | w # ws \<Rightarrow> Inr (w, s\<lparr>idleWorkers := ws\<rparr>))"

definition markWorkerIdle :: "WorkerId \<Rightarrow> Scheduler \<Rightarrow> Scheduler result" where
  "markWorkerIdle workerId s =
     rbind (get_worker s workerId) (\<lambda>i.
       enforcing (currentlyProcessing i \<noteq> None) ''currentlyProcessing.has_value()''
       (enforcing (status i = Busy) ''status == Busy''
         (Inr ((set_worker workerId (i\<lparr>currentlyProcessing := None, status := Idle\<rparr>) s)
                 \<lparr>idleWorkers := workerId # idleWorkers s\<rparr>))))"

definition markWorkerBusy :: "Instant \<Rightarrow> WorkerId \<Rightarrow> JobId \<Rightarrow> Scheduler \<Rightarrow> Scheduler result" where
  "markWorkerBusy now workerId newJobId s =
     rbind (get_worker s workerId) (\<lambda>i.
       enforcing (status i = Idle) ''status == Idle''
       (enforcing (currentlyProcessing i = None) ''!currentlyProcessing.has_value()''
         (Inr (set_worker workerId
            (i\<lparr>status := Busy, currentlyProcessing := Some newJobId, startTime := now\<rparr>) s))))"

definition markWorkerStopped :: "WorkerId \<Rightarrow> Scheduler \<Rightarrow> Scheduler result" where
  "markWorkerStopped workerId s =
     rbind (get_worker s workerId) (\<lambda>i.
       enforcing (currentlyProcessing i = None) ''shutting down a working worker''
       (enforcing (status i = Idle) ''status == Idle''
         (Inr ((set_worker workerId (i\<lparr>status := Stopped\<rparr>) s)
                 \<lparr>stoppedWorkers := stoppedWorkers s @ [workerId]\<rparr>))))"

definition scheduleJobOnWorker ::
  "Instant \<Rightarrow> WorkerId \<Rightarrow> JobId \<Rightarrow> Scheduler \<Rightarrow> (IndexJobRequest \<times> Scheduler) result" where
  "scheduleJobOnWorker now workerId jobId s =
     enforcing (workerId \<notin> set (idleWorkers s)) ''worker to be scheduled is not idle''
     (enforcing (jobId \<in> wipJobs s) ''should have marked job WIP before scheduling''
       (rbind (markWorkerBusy now workerId jobId s) (\<lambda>s1.
         case allJobList s1 jobId of
           None \<Rightarrow> Inl (EnforceFailed ''trying to assign unknown job'')
         | Some t \<Rightarrow>
             enforcing (assignedWorker t = None) ''job was marked as assigned earlier''
               (Inr (\<lparr>req_id = jobId, req_job = tj_job t\<rparr>,
                     s1\<lparr>allJobList := (allJobList s1)(jobId \<mapsto> t\<lparr>assignedWorker := Some workerId\<rparr>)\<rparr>)))))"

definition createSubtaskAndScheduleOnWorker ::
  "Instant \<Rightarrow> WorkerId \<Rightarrow> JobId \<Rightarrow> IndexJob \<Rightarrow> Scheduler \<Rightarrow> (IndexJobRequest \<times> Scheduler) result" where
  "createSubtaskAndScheduleOnWorker now workerId previousId job s =
     (let jobId = nextSubtask previousId;
          all = (if allJobList s jobId = None
                 then (allJobList s)(jobId \<mapsto> \<lparr>tj_job = job, assignedWorker = None\<rparr>)
                 else allJobList s);
          s1 = s\<lparr>allJobList := all, wipJobs := insert jobId (wipJobs s)\<rparr>
      in case idleWorkers s1 of
           [] \<Rightarrow> Inl (EnforceFailed ''!this->idleWorkers.empty()'')
         | w # ws \<Rightarrow>
             enforcing (w = workerId) ''idleWorkers.front() == workerId.id''
               (scheduleJobOnWorker now workerId jobId (s1\<lparr>idleWorkers := ws\<rparr>)))"

definition checkAssignedWorker :: "Scheduler \<Rightarrow> JobId \<Rightarrow> WorkerId \<Rightarrow> unit result" where
  "checkAssignedWorker s jobId workerId =
     (case allJobList s jobId of
        None \<Rightarrow> Inl (EnforceFailed ''missing entry for job in allJobList'')
      | Some t \<Rightarrow>
          if assignedWorker t = Some workerId then Inr ()
          else (case assignedWorker t of
                  Some _ \<Rightarrow> Inl (EnforceFailed ''job was assigned to another worker'')
                | None \<Rightarrow> Inl (EnforceFailed ''job was assigned no worker'')))"

definition descheduleJobDueToSendError :: "WorkerId \<Rightarrow> JobId \<Rightarrow> Scheduler \<Rightarrow> Scheduler result" where
  "descheduleJobDueToSendError workerId jobId s =
     rbind (checkAssignedWorker s jobId workerId) (\<lambda>_.
     rbind (markWorkerIdle workerId s) (\<lambda>s1.
       enforcing (jobId \<in> wipJobs s1) ''job should have been marked WIP''
         (Inr (s1\<lparr>wipJobs := wipJobs s1 - {jobId}\<rparr>))))"

text \<open>
  \<^verbatim>\<open>allJobList[jobId]\<close> default-constructs a missing entry, whose kind is the first
  enumerator; the following \<^verbatim>\<open>checkAssignedWorker\<close> then finds no assigned worker.
\<close>

definition markCompleted ::
  "WorkerId \<Rightarrow> JobId \<Rightarrow> IndexJobKind \<Rightarrow> Scheduler \<Rightarrow> (WorkerId option \<times> Scheduler) result" where
  "markCompleted workerId jobId responseKind s =
     (let t = (case allJobList s jobId of Some t \<Rightarrow> t
               | None \<Rightarrow> \<lparr>tj_job = default_IndexJob, assignedWorker = None\<rparr>);
          s0 = s\<lparr>allJobList := (allJobList s)(jobId \<mapsto> t)\<rparr>
      in enforcing (job_kind (tj_job t) = responseKind) ''job.kind == responseKind''
         (rbind (checkAssignedWorker s0 jobId workerId) (\<lambda>_.
          rbind (get_worker s0 workerId) (\<lambda>i.
            if currentlyProcessing i = Some jobId
            then rbind (markWorkerIdle workerId s0) (\<lambda>s1.
                   enforcing (jobId \<in> wipJobs s1) ''received response for job not marked WIP''
                     (Inr (Some workerId, s1\<lparr>wipJobs := wipJobs s1 - {jobId}\<rparr>)))
            else enforcing (jobId \<in> maybeErroredJobs s0) ''expected job to be in maybeErroredJobs''
                   (Inr (None, s0\<lparr>maybeErroredJobs := maybeErroredJobs s0 - {jobId}\<rparr>))))))"

definition numErroredJobs :: "Scheduler \<Rightarrow> nat" where
  "numErroredJobs s = card (maybeErroredJobs s)"

definition getTuPath :: "Scheduler \<Rightarrow> JobId \<Rightarrow> string result" where
  "getTuPath s jobId =
     (case allJobList s jobId of
        None \<Rightarrow> Inl (EnforceFailed ''it != allJobList.end()'')
      | Some t \<Rightarrow> enforcing (job_kind (tj_job t) = SemanticAnalysis) ''kind == SemanticAnalysis''
                    (Inr (filePath (job_command (tj_job t)))))"

text \<open>
  \<^verbatim>\<open>Driver::tryAssignJobToWorker\<close>, the callback of the assignment loop; \<open>send\<close> tells
  whether the IPC queue of the worker takes the message.
\<close>

definition tryAssignJobToWorker ::
  "(WorkerId \<Rightarrow> IndexJobRequest \<Rightarrow> bool) \<Rightarrow> Instant \<Rightarrow> WorkerId \<Rightarrow> JobId \<Rightarrow> Scheduler \<Rightarrow>
   (bool \<times> Scheduler) result" where
  "tryAssignJobToWorker send now workerId jobId s =
     rbind (scheduleJobOnWorker now workerId jobId s) (\<lambda>(req, s1).
       if send workerId req then Inr (True, s1)
       else rbind (descheduleJobDueToSendError workerId jobId s1) (\<lambda>s2. Inr (False, s2)))"

lemma rbind_cong [fundef_cong]:
  "m = m' \<Longrightarrow> (\<And>x. m' = Inr x \<Longrightarrow> k x = k' x) \<Longrightarrow> rbind m k = rbind m' k'"
  by (auto simp: rbind_def split: sum.splits)

lemma enforcing_cong [fundef_cong]:
  "c = c' \<Longrightarrow> (c' \<Longrightarrow> k = k') \<Longrightarrow> enforcing c msg k = enforcing c' msg k'"
  by (simp add: enforcing_def)

lemmas sched_op_defs =
  checkInvariants_def markWorkerBusy_def markWorkerIdle_def markWorkerStopped_def
  scheduleJobOnWorker_def descheduleJobDueToSendError_def checkAssignedWorker_def
  tryAssignJobToWorker_def claimIdleWorker_def get_worker_def set_worker_def

lemma tryAssign_pending:
  "tryAssignJobToWorker send now w j s = Inr (b, s') \<Longrightarrow> pendingJobs s' = pendingJobs s"
  by (auto simp: sched_op_defs result_simps split: if_splits option.splits)

text \<open>One round of the assignment loop, and the loop; \<open>now j\<close> is the clock when job \<open>j\<close> is handed over.\<close>

definition assignNextJob ::
  "(WorkerId \<Rightarrow> IndexJobRequest \<Rightarrow> bool) \<Rightarrow> (JobId \<Rightarrow> Instant) \<Rightarrow> Scheduler \<Rightarrow> Scheduler result" where
  "assignNextJob send now s =
     (case pendingJobs s of
        [] \<Rightarrow> Inr s
      | nextJob # rest \<Rightarrow>
          enforcing (nextJob \<notin> wipJobs s) ''job from pendingJobs was not already WIP''
          (rbind (claimIdleWorker (s\<lparr>pendingJobs := rest, wipJobs := insert nextJob (wipJobs s)\<rparr>))
             (\<lambda>(nextWorkerId, s1).
           rbind (tryAssignJobToWorker send (now nextJob) nextWorkerId nextJob s1) (\<lambda>(_, s2).
             checkInvariants s2))))"

lemma assignNextJob_pending:
  "assignNextJob send now s = Inr s' \<Longrightarrow> pendingJobs s \<noteq> [] \<Longrightarrow> pendingJobs s' = tl (pendingJobs s)"
  by (auto simp: assignNextJob_def claimIdleWorker_def checkInvariants_def result_simps
      dest!: tryAssign_pending split: list.splits prod.splits)

function assignLoop ::
  "(WorkerId \<Rightarrow> IndexJobRequest \<Rightarrow> bool) \<Rightarrow> (JobId \<Rightarrow> Instant) \<Rightarrow> Scheduler \<Rightarrow> Scheduler result" where
  "assignLoop send now s =
     (if idleWorkers s \<noteq> [] \<and> pendingJobs s \<noteq> []
      then rbind (assignNextJob send now s) (assignLoop send now)
      else Inr s)"
  by pat_completeness auto
termination
proof (relation "measure (\<lambda>(send, now, s). length (pendingJobs s))", goal_cases)
  case (2 send now s s')
  then show ?case
    using assignNextJob_pending [of send now s s'] by (cases "pendingJobs s") auto
qed simp

declare assignLoop.simps [simp del]

definition assignJobsToIdleWorkers ::
  "(WorkerId \<Rightarrow> IndexJobRequest \<Rightarrow> bool) \<Rightarrow> (JobId \<Rightarrow> Instant) \<Rightarrow> Scheduler \<Rightarrow> Scheduler result" where
  "assignJobsToIdleWorkers send now s =
     enforcing (idleWorkers s \<noteq> []) ''no idle workers''
     (enforcing (pendingJobs s \<noteq> []) ''no pending jobs''
       (assignLoop send now s))"

text \<open>
  The lambda \<^verbatim>\<open>shutdownIdleWorkers\<close> of the main loop. \<open>sendShutdown\<close> tells whether the queue
  of a worker takes the shutdown message (\<^verbatim>\<open>Driver::shutdownWorker\<close> enforces that it does).
\<close>

definition shutdownWorker :: "(WorkerId \<Rightarrow> bool) \<Rightarrow> WorkerId \<Rightarrow> Scheduler \<Rightarrow> Scheduler result" where
  "shutdownWorker sendShutdown workerId s =
     enforcing (sendShutdown workerId) ''shutdown messages are tiny and should not fail to send'' (Inr s)"

definition shutdownLastIdle :: "(WorkerId \<Rightarrow> bool) \<Rightarrow> Scheduler \<Rightarrow> Scheduler result" where
  "shutdownLastIdle sendShutdown s =
     (let workerId = last (idleWorkers s);
          s1 = s\<lparr>idleWorkers := butlast (idleWorkers s)\<rparr>
      in rbind (markWorkerStopped workerId s1) (shutdownWorker sendShutdown workerId))"

lemma shutdownLastIdle_idle:
  "shutdownLastIdle sd s = Inr s' \<Longrightarrow> idleWorkers s' = butlast (idleWorkers s)"
  by (auto simp: shutdownLastIdle_def shutdownWorker_def Let_def sched_op_defs result_simps split: if_splits)

function shutdownIdleWorkers :: "(WorkerId \<Rightarrow> bool) \<Rightarrow> Scheduler \<Rightarrow> Scheduler result" where
  "shutdownIdleWorkers sendShutdown s =
     (if idleWorkers s \<noteq> []
      then rbind (shutdownLastIdle sendShutdown s) (shutdownIdleWorkers sendShutdown)
      else Inr s)"
  by pat_completeness auto
termination
proof (relation "measure (\<lambda>(sd, s). length (idleWorkers s))", goal_cases)
  case (2 sd s s')
  then show ?case using shutdownLastIdle_idle [of sd s s'] by simp
qed simp

declare shutdownIdleWorkers.simps [simp del]

subsection \<open>The invariant\<close>

definition tracked :: "Scheduler \<Rightarrow> JobId \<Rightarrow> WorkerId option \<Rightarrow> bool" where
  "tracked s j w \<longleftrightarrow> (\<exists>t. allJobList s j = Some t \<and> assignedWorker t = w)"

definition workers_ok :: "Scheduler \<Rightarrow> bool" where
  "workers_ok s \<longleftrightarrow>
     distinct (idleWorkers s) \<and> distinct (stoppedWorkers s) \<and>
     set (idleWorkers s) = {w. w < length (workers s) \<and> status (workers s ! w) = Idle} \<and>
     set (stoppedWorkers s) = {w. w < length (workers s) \<and> status (workers s ! w) = Stopped} \<and>
     (\<forall>w < length (workers s). status (workers s ! w) = Busy \<longleftrightarrow> cur s w \<noteq> None)"

definition wip_ok :: "Scheduler \<Rightarrow> bool" where
  "wip_ok s \<longleftrightarrow>
     wipJobs s = {j. \<exists>w < length (workers s). cur s w = Some j} \<and>
     (\<forall>w < length (workers s). \<forall>j. cur s w = Some j \<longrightarrow> tracked s j (Some w))"

definition pending_ok :: "Scheduler \<Rightarrow> bool" where
  "pending_ok s \<longleftrightarrow>
     distinct (pendingJobs s) \<and> (\<forall>j \<in> set (pendingJobs s). tracked s j None)"

definition errored_ok :: "Scheduler \<Rightarrow> bool" where
  "errored_ok s \<longleftrightarrow>
     (\<forall>j \<in> maybeErroredJobs s. \<exists>w < length (workers s). tracked s j (Some w)) \<and>
     maybeErroredJobs s \<inter> wipJobs s = {}"

definition kinds_ok :: "Scheduler \<Rightarrow> bool" where
  "kinds_ok s \<longleftrightarrow>
     (\<forall>j t. allJobList s j = Some t \<longrightarrow>
        (subtaskId j = 0 \<and> job_kind (tj_job t) = SemanticAnalysis) \<or>
        (subtaskId j = 1 \<and> job_kind (tj_job t) = EmitIndex)) \<and>
     (\<forall>t. allJobList s \<lparr>taskId = t, subtaskId = 1\<rparr> \<noteq> None \<longrightarrow>
        allJobList s (newTask t) \<noteq> None \<and>
        newTask t \<notin> wipJobs s \<union> maybeErroredJobs s \<union> set (pendingJobs s))"

definition sched_inv :: "Scheduler \<Rightarrow> bool" where
  "sched_inv s \<longleftrightarrow> workers_ok s \<and> wip_ok s \<and> pending_ok s \<and> errored_ok s \<and> kinds_ok s"

lemmas sched_inv_defs =
  sched_inv_def workers_ok_def wip_ok_def pending_ok_def errored_ok_def kinds_ok_def tracked_def

lemma sched_invD:
  assumes "sched_inv s"
  shows wip_iff: "j \<in> wipJobs s \<longleftrightarrow> (\<exists>w < length (workers s). cur s w = Some j)"
    and busy_iff: "w < length (workers s) \<Longrightarrow> status (workers s ! w) = Busy \<longleftrightarrow> cur s w \<noteq> None"
    and idle_iff: "w \<in> set (idleWorkers s) \<longleftrightarrow> w < length (workers s) \<and> status (workers s ! w) = Idle"
    and stopped_iff:
      "w \<in> set (stoppedWorkers s) \<longleftrightarrow> w < length (workers s) \<and> status (workers s ! w) = Stopped"
    and cur_tracked: "w < length (workers s) \<Longrightarrow> cur s w = Some j \<Longrightarrow> tracked s j (Some w)"
    and pending_tracked: "j \<in> set (pendingJobs s) \<Longrightarrow> tracked s j None"
    and distinct_idle: "distinct (idleWorkers s)"
    and distinct_stopped: "distinct (stoppedWorkers s)"
    and distinct_pending: "distinct (pendingJobs s)"
  using assms by (simp_all add: sched_inv_def workers_ok_def wip_ok_def pending_ok_def)

lemma kindsD:
  assumes "sched_inv s"
  shows kinds1: "allJobList s j = Some t \<Longrightarrow>
      (subtaskId j = 0 \<and> job_kind (tj_job t) = SemanticAnalysis) \<or>
      (subtaskId j = 1 \<and> job_kind (tj_job t) = EmitIndex)"
    and kinds2: "allJobList s \<lparr>taskId = u, subtaskId = 1\<rparr> \<noteq> None \<Longrightarrow>
      allJobList s (newTask u) \<noteq> None \<and> newTask u \<notin> wipJobs s \<and>
      newTask u \<notin> maybeErroredJobs s \<and> newTask u \<notin> set (pendingJobs s)"
  using assms by (auto simp: sched_inv_def kinds_ok_def)

lemma kinds_okI:
  assumes "\<And>j t. allJobList s j = Some t \<Longrightarrow>
      (subtaskId j = 0 \<and> job_kind (tj_job t) = SemanticAnalysis) \<or>
      (subtaskId j = 1 \<and> job_kind (tj_job t) = EmitIndex)"
    and "\<And>u. allJobList s \<lparr>taskId = u, subtaskId = 1\<rparr> \<noteq> None \<Longrightarrow>
      allJobList s (newTask u) \<noteq> None \<and> newTask u \<notin> wipJobs s \<and>
      newTask u \<notin> maybeErroredJobs s \<and> newTask u \<notin> set (pendingJobs s)"
  shows "kinds_ok s"
  using assms unfolding kinds_ok_def by blast

lemma tracked_unique: "tracked s j w \<Longrightarrow> tracked s j v \<Longrightarrow> w = v"
  by (auto simp: tracked_def)

lemma sched_inv_inj:
  assumes "sched_inv s" "w < length (workers s)" "v < length (workers s)"
    and "cur s w = Some j" "cur s v = Some j"
  shows "w = v"
  using tracked_unique [OF cur_tracked [OF assms(1,2,4)] cur_tracked [OF assms(1,3,5)]] by simp

text \<open>The run-time check follows: busy workers and work-in-progress jobs correspond one to one.\<close>

lemma card_wip:
  assumes "sched_inv s"
  shows "card (wipJobs s) = card {w. w < length (workers s) \<and> status (workers s ! w) = Busy}"
proof -
  let ?B = "{w. w < length (workers s) \<and> status (workers s ! w) = Busy}"
  have "wipJobs s = (\<lambda>w. the (cur s w)) ` ?B"
    by (auto simp: wip_iff [OF assms] busy_iff [OF assms] image_iff)
      (metis busy_iff [OF assms] option.distinct(1) option.sel)
  moreover have "inj_on (\<lambda>w. the (cur s w)) ?B"
    using sched_inv_inj [OF assms] by (auto simp: inj_on_def busy_iff [OF assms])
  ultimately show ?thesis by (simp add: card_image)
qed

lemma sched_inv_counts:
  assumes "sched_inv s"
  shows "card (wipJobs s) + length (idleWorkers s) + length (stoppedWorkers s) = length (workers s)"
proof -
  let ?S = "\<lambda>st. {w. w < length (workers s) \<and> status (workers s ! w) = st}"
  have fin: "finite (?S st)" for st by simp
  have "length (idleWorkers s) = card (?S Idle)" "length (stoppedWorkers s) = card (?S Stopped)"
    using assms by (simp_all add: sched_inv_def workers_ok_def flip: distinct_card)
  moreover have "card (wipJobs s) = card (?S Busy)" by (rule card_wip [OF assms])
  moreover have "{..<length (workers s)} = ?S Busy \<union> (?S Idle \<union> ?S Stopped)"
    using WorkerStatus.exhaust by auto
  then have "length (workers s) = card (?S Busy \<union> (?S Idle \<union> ?S Stopped))"
    by (metis card_lessThan)
  moreover have "card (?S Busy \<union> (?S Idle \<union> ?S Stopped)) =
      card (?S Busy) + (card (?S Idle) + card (?S Stopped))"
    by (subst card_Un_disjoint, simp, simp, force)+ simp
  ultimately show ?thesis by simp
qed

lemma checkInvariants_inv [simp]: "sched_inv s \<Longrightarrow> checkInvariants s = Inr s"
  by (simp add: checkInvariants_def sched_inv_counts)

subsection \<open>Every operation keeps the invariant\<close>

lemma sched_inv_empty: "sched_inv empty_scheduler"
  by (simp add: empty_scheduler_def sched_inv_defs)

lemma initializeWorkers_inv:
  "\<exists>s. initializeWorkers n spawn empty_scheduler = Inr s \<and> sched_inv s \<and> length (workers s) = n
     \<and> pendingJobs s = []"
proof -
  let ?s = "empty_scheduler\<lparr>workers := map (\<lambda>w. newWorkerInfo (spawn w)) [0..<n],
      idleWorkers := [0..<n]\<rparr>"
  have "sched_inv ?s"
    by (auto simp: empty_scheduler_def sched_inv_defs newWorkerInfo_def)
  then show ?thesis by (simp add: initializeWorkers_def empty_scheduler_def)
qed

lemma newTask_simps [simp]:
  "taskId (newTask t) = t" "subtaskId (newTask t) = 0"
  "newTask t = newTask u \<longleftrightarrow> t = u"
  "newTask t \<noteq> \<lparr>taskId = u, subtaskId = 1\<rparr>" "\<lparr>taskId = u, subtaskId = 1\<rparr> \<noteq> newTask t"
  by (simp_all add: newTask_def)

lemma queueSemaTask_inv:
  assumes inv: "sched_inv s" and q: "queueSemaTask cmd s = Inr s'"
  shows "sched_inv s'"
proof -
  let ?j = "newTask (word_of_nat (index cmd))"
  let ?t = "\<lparr>tj_job = \<lparr>job_kind = SemanticAnalysis, job_command = cmd, job_filesToBeIndexed = []\<rparr>,
      assignedWorker = None\<rparr>"
  have new: "allJobList s ?j = None"
    using q by (simp add: queueSemaTask_def Let_def result_simps)
  with q have s': "workers s' = workers s" "idleWorkers s' = idleWorkers s"
      "stoppedWorkers s' = stoppedWorkers s" "allJobList s' = (allJobList s)(?j \<mapsto> ?t)"
      "pendingJobs s' = pendingJobs s @ [?j]" "wipJobs s' = wipJobs s"
      "maybeErroredJobs s' = maybeErroredJobs s"
    by (auto simp: queueSemaTask_def Let_def)
  have tr: "tracked s' k v = (if k = ?j then v = None else tracked s k v)" for k v
    by (auto simp: tracked_def s')
  have nj: "\<not> tracked s ?j v" for v using new by (simp add: tracked_def)
  have "?j \<notin> set (pendingJobs s)" using nj pending_tracked [OF inv] by blast
  then have "pending_ok s'"
    using inv by (auto simp: sched_inv_def pending_ok_def s'(5) tr)
  moreover have "wip_ok s'"
    using inv nj by (auto simp: sched_inv_def wip_ok_def s'(1,6) tr)
  moreover have "errored_ok s'"
    using inv nj unfolding sched_inv_def errored_ok_def s'(1,6,7) tr by metis
  moreover have "workers_ok s'" using inv by (simp add: sched_inv_def workers_ok_def s')
  moreover have "kinds_ok s'"
  proof (rule kinds_okI)
    fix k t assume "allJobList s' k = Some t"
    then show "(subtaskId k = 0 \<and> job_kind (tj_job t) = SemanticAnalysis) \<or>
        (subtaskId k = 1 \<and> job_kind (tj_job t) = EmitIndex)"
      using kinds1 [OF inv, of k t] by (auto simp: s'(4) split: if_splits)
  next
    fix u assume "allJobList s' \<lparr>taskId = u, subtaskId = 1\<rparr> \<noteq> None"
    then have "allJobList s \<lparr>taskId = u, subtaskId = 1\<rparr> \<noteq> None"
      by (simp add: s'(4))
    from kinds2 [OF inv this] new
    show "allJobList s' (newTask u) \<noteq> None \<and> newTask u \<notin> wipJobs s' \<and>
        newTask u \<notin> maybeErroredJobs s' \<and> newTask u \<notin> set (pendingJobs s')"
      by (auto simp: s'(4-7))
  qed
  ultimately show ?thesis by (simp add: sched_inv_def)
qed

text \<open>A busy worker gives up its job: completion, a failed send and termination.\<close>

lemma release_inv:
  assumes inv: "sched_inv s" and w: "w < length (workers s)" "cur s w = Some j"
    and i': "status i' = Idle" "currentlyProcessing i' = None"
    and s': "workers s' = (workers s)[w := i']" "distinct (idleWorkers s')"
      "set (idleWorkers s') = insert w (set (idleWorkers s))"
      "stoppedWorkers s' = stoppedWorkers s" "allJobList s' = allJobList s"
      "pendingJobs s' = pendingJobs s" "wipJobs s' = wipJobs s - {j}"
      "maybeErroredJobs s' \<subseteq> insert j (maybeErroredJobs s)"
  shows "sched_inv s'"
proof -
  have tr [simp]: "tracked s' k v = tracked s k v" for k v by (simp add: tracked_def s')
  have busy: "status (workers s ! w) = Busy" using busy_iff [OF inv w(1)] w(2) by simp
  have cur': "cur s' v = (if v = w then None else cur s v)" if "v < length (workers s)" for v
    using that w by (simp add: s' i' nth_list_update)
  have jw: "tracked s j (Some w)" "j \<in> wipJobs s"
    using cur_tracked [OF inv w] wip_iff [OF inv] w by auto
  have "workers_ok s'"
    using inv busy w by (auto simp: sched_inv_def workers_ok_def s' i' nth_list_update)
  moreover have "wip_ok s'"
  proof -
    have "(\<exists>v < length (workers s). cur s' v = Some k) \<longleftrightarrow>
        (\<exists>v < length (workers s). v \<noteq> w \<and> cur s v = Some k)" for k
      using cur' by (metis option.distinct(1))
    moreover have "(\<exists>v < length (workers s). v \<noteq> w \<and> cur s v = Some k) \<longleftrightarrow> k \<in> wipJobs s - {j}" for k
      using sched_inv_inj [OF inv w(1) _ w(2)] wip_iff [OF inv, of k] w
      by (metis Diff_iff insert_iff option.inject singletonD)
    ultimately have "wipJobs s' = {k. \<exists>v < length (workers s'). cur s' v = Some k}"
      by (auto simp: s'(1,7))
    moreover have "\<forall>v < length (workers s'). \<forall>k. cur s' v = Some k \<longrightarrow> tracked s' k (Some v)"
      using cur_tracked [OF inv] cur' by (auto simp: s'(1) split: if_splits)
    ultimately show ?thesis unfolding wip_ok_def by blast
  qed
  moreover have "pending_ok s'" using inv by (simp add: sched_inv_def pending_ok_def s')
  moreover have "errored_ok s'"
  proof -
    have E: "k = j \<or> k \<in> maybeErroredJobs s" if "k \<in> maybeErroredJobs s'" for k
      using s'(8) that by blast
    have "errored_ok s" using inv by (simp add: sched_inv_def)
    then show ?thesis
      unfolding errored_ok_def s'(1,7) tr using E jw w by fastforce
  qed
  moreover have "kinds_ok s'"
    using inv jw(2) s'(8) by (fastforce simp: sched_inv_def kinds_ok_def s'(5-7))
  ultimately show ?thesis by (simp add: sched_inv_def)
qed

text \<open>An idle worker takes a job that no worker has had.\<close>

lemma acquire_inv:
  assumes inv: "sched_inv s" and w: "w \<in> set (idleWorkers s)"
    and j: "allJobList s j = Some t" "assignedWorker t = None"
      "j \<notin> maybeErroredJobs s"
      "\<And>u. j = newTask u \<Longrightarrow> allJobList s \<lparr>taskId = u, subtaskId = 1\<rparr> = None"
    and i': "status i' = Busy" "currentlyProcessing i' = Some j"
    and s': "workers s' = (workers s)[w := i']" "distinct (idleWorkers s')"
      "set (idleWorkers s') = set (idleWorkers s) - {w}"
      "stoppedWorkers s' = stoppedWorkers s"
      "allJobList s' = (allJobList s)(j \<mapsto> t\<lparr>assignedWorker := Some w\<rparr>)"
      "distinct (pendingJobs s')" "set (pendingJobs s') = set (pendingJobs s) - {j}"
      "wipJobs s' = insert j (wipJobs s)" "maybeErroredJobs s' = maybeErroredJobs s"
  shows "sched_inv s'"
proof -
  have w': "w < length (workers s)" "status (workers s ! w) = Idle" "cur s w = None"
    using w idle_iff [OF inv, of w] busy_iff [OF inv, of w] by auto
  have tr: "tracked s' k v = (if k = j then v = Some w else tracked s k v)" for k v
    by (auto simp: tracked_def s')
  have nj: "\<not> tracked s j (Some v)" for v using j by (simp add: tracked_def)
  have cur': "cur s' v = (if v = w then Some j else cur s v)" if "v < length (workers s)" for v
    using that w' by (simp add: s' i' nth_list_update)
  have "workers_ok s'"
    using inv w' by (auto simp: sched_inv_def workers_ok_def s' i' nth_list_update)
  moreover have "wip_ok s'"
  proof -
    have "k \<in> insert j (wipJobs s) \<longleftrightarrow> (\<exists>v < length (workers s). cur s' v = Some k)" for k
      using wip_iff [OF inv, of k] w' cur' by (metis insert_iff option.distinct(1) option.inject)
    then have "wipJobs s' = {k. \<exists>v < length (workers s'). cur s' v = Some k}"
      by (auto simp: s'(1,8))
    moreover have "\<forall>v < length (workers s'). \<forall>k. cur s' v = Some k \<longrightarrow> tracked s' k (Some v)"
      using cur_tracked [OF inv] nj cur' by (auto simp: s'(1) tr split: if_splits)
    ultimately show ?thesis unfolding wip_ok_def by blast
  qed
  moreover have "pending_ok s'"
    using inv by (auto simp: sched_inv_def pending_ok_def s'(6,7) tr)
  moreover have "errored_ok s'"
    using inv j(3) by (auto simp: sched_inv_def errored_ok_def s'(1,8,9) tr)
  moreover have "kinds_ok s'"
    using inv j by (auto simp: sched_inv_def kinds_ok_def s'(5,7-9))
  ultimately show ?thesis by (simp add: sched_inv_def)
qed

lemma logJobSkip_ok: "allJobList s j \<noteq> None \<Longrightarrow> \<exists>msg. logJobSkip s j = Inr msg"
  by (auto simp: logJobSkip_def split: IndexJobKind.splits option.splits)

lemma terminateRunningWorker_inv:
  assumes inv: "sched_inv s" and w: "w < length (workers s)" "cur s w = Some j"
  shows "\<exists>s'. terminateRunningWorker w p s = Inr s' \<and> sched_inv s' \<and>
    wipJobs s' = wipJobs s - {j} \<and> maybeErroredJobs s' = insert j (maybeErroredJobs s) \<and>
    pendingJobs s' = pendingJobs s \<and> length (workers s') = length (workers s) \<and>
    allJobList s' = allJobList s"
proof -
  let ?s1 = "s\<lparr>wipJobs := wipJobs s - {j}, maybeErroredJobs := insert j (maybeErroredJobs s)\<rparr>"
  let ?s' = "(set_worker w (newWorkerInfo p) ?s1)\<lparr>idleWorkers := idleWorkers ?s1 @ [w]\<rparr>"
  have "w \<notin> set (idleWorkers s)" using idle_iff [OF inv, of w] busy_iff [OF inv w(1)] w by auto
  then have inv': "sched_inv ?s'"
    using distinct_idle [OF inv]
    by (intro release_inv [OF inv w, where i' = "newWorkerInfo p"])
      (simp_all add: newWorkerInfo_def set_worker_def)
  have "allJobList ?s1 j \<noteq> None" using cur_tracked [OF inv w] by (auto simp: tracked_def)
  then obtain msg where "logJobSkip ?s1 j = Inr msg" using logJobSkip_ok by blast
  moreover have "j \<in> wipJobs s" using wip_iff [OF inv] w by auto
  ultimately have "terminateRunningWorker w p s = Inr ?s'"
    using w inv' by (simp add: terminateRunningWorker_def get_worker_def Let_def)
  then show ?thesis using inv' by (auto simp: set_worker_def)
qed

lemma terminateIfLongRunning_inv:
  assumes "sched_inv s" "w < length (workers s)"
  shows "\<exists>s'. terminateIfLongRunning t respawn w s = Inr s' \<and> sched_inv s' \<and>
    wipJobs s' \<subseteq> wipJobs s \<and> pendingJobs s' = pendingJobs s \<and>
    length (workers s') = length (workers s) \<and> allJobList s' = allJobList s"
proof (cases "status (workers s ! w) = Busy \<and> startTime (workers s ! w) < t")
  case True
  then obtain j where "cur s w = Some j" using busy_iff [OF assms] by auto
  from terminateRunningWorker_inv [OF assms this, of "respawn w"] True assms(2)
  show ?thesis by (auto simp: terminateIfLongRunning_def get_worker_def)
next
  case False
  with assms show ?thesis
    by (auto simp: terminateIfLongRunning_def get_worker_def split: WorkerStatus.splits)
qed

lemma terminateLongRunning_inv:
  assumes "sched_inv s"
  shows "\<exists>s'. terminateLongRunningWorkersAndRespawn t respawn s = Inr s' \<and> sched_inv s' \<and>
    wipJobs s' \<subseteq> wipJobs s \<and> pendingJobs s' = pendingJobs s \<and>
    length (workers s') = length (workers s) \<and> allJobList s' = allJobList s"
proof -
  let ?P = "\<lambda>s'. sched_inv s' \<and> wipJobs s' \<subseteq> wipJobs s \<and> pendingJobs s' = pendingJobs s \<and>
    length (workers s') = length (workers s) \<and> allJobList s' = allJobList s"
  have "\<exists>s'. rfold (terminateIfLongRunning t respawn) [0..<length (workers s)] s = Inr s' \<and> ?P s'"
  proof (rule rfold_invariant)
    show "?P s" using assms by simp
    show "\<exists>s'. terminateIfLongRunning t respawn x s1 = Inr s' \<and> ?P s'"
      if "x \<in> set [0..<length (workers s)]" "?P s1" for x s1
      using terminateIfLongRunning_inv [of s1 x t respawn] that by auto
  qed
  then show ?thesis using assms by (simp add: terminateLongRunningWorkersAndRespawn_def)
qed

lemma markWorkerIdle_eq:
  "sched_inv s \<Longrightarrow> w < length (workers s) \<Longrightarrow> cur s w = Some j \<Longrightarrow>
   markWorkerIdle w s = Inr ((set_worker w ((workers s ! w)\<lparr>currentlyProcessing := None, status := Idle\<rparr>) s)
     \<lparr>idleWorkers := w # idleWorkers s\<rparr>)"
  by (simp add: markWorkerIdle_def get_worker_def busy_iff)

text \<open>The state after the job of a busy worker is finished or taken back.\<close>

definition released :: "WorkerId \<Rightarrow> JobId \<Rightarrow> Scheduler \<Rightarrow> Scheduler" where
  "released w j s =
     (set_worker w ((workers s ! w)\<lparr>currentlyProcessing := None, status := Idle\<rparr>) s)
       \<lparr>idleWorkers := w # idleWorkers s, wipJobs := wipJobs s - {j}\<rparr>"

lemma released_inv:
  assumes inv: "sched_inv s" and w: "w < length (workers s)" "cur s w = Some j"
  shows "sched_inv (released w j s)"
proof -
  have "w \<notin> set (idleWorkers s)" using idle_iff [OF inv, of w] busy_iff [OF inv w(1)] w by auto
  then show ?thesis
    using distinct_idle [OF inv]
    by (intro release_inv [OF inv w,
          where i' = "(workers s ! w)\<lparr>currentlyProcessing := None, status := Idle\<rparr>"])
      (simp_all add: released_def set_worker_def subset_insertI)
qed

lemma deschedule_eq:
  assumes "sched_inv s" "w < length (workers s)" "cur s w = Some j"
  shows "descheduleJobDueToSendError w j s = Inr (released w j s)"
proof -
  have "checkAssignedWorker s j w = Inr ()"
    using cur_tracked [OF assms] by (auto simp: checkAssignedWorker_def tracked_def)
  moreover have "j \<in> wipJobs s" using wip_iff [OF assms(1)] assms by auto
  ultimately show ?thesis
    using markWorkerIdle_eq [OF assms]
    by (simp add: descheduleJobDueToSendError_def released_def set_worker_def)
qed

text \<open>Which responses can arrive: the worker was given the job, and was not replaced meanwhile
  or its replacement left the job among the maybe-errored ones.\<close>

definition expected_response :: "Scheduler \<Rightarrow> WorkerId \<Rightarrow> JobId \<Rightarrow> IndexJobKind \<Rightarrow> bool" where
  "expected_response s w j k \<longleftrightarrow>
     w < length (workers s) \<and>
     (cur s w = Some j \<or> j \<in> maybeErroredJobs s \<and> tracked s j (Some w)) \<and>
     (\<exists>t. allJobList s j = Some t \<and> job_kind (tj_job t) = k)"

lemma markCompleted_current:
  assumes inv: "sched_inv s" and w: "w < length (workers s)" "cur s w = Some j"
    and t: "allJobList s j = Some t" "job_kind (tj_job t) = k"
  shows "markCompleted w j k s = Inr (Some w, released w j s)"
proof -
  have [simp]: "(allJobList s)(j \<mapsto> t) = allJobList s" using t by auto
  have "checkAssignedWorker s j w = Inr ()"
    using cur_tracked [OF inv w] by (auto simp: checkAssignedWorker_def tracked_def)
  moreover have "j \<in> wipJobs s" using wip_iff [OF inv] w by auto
  ultimately show ?thesis
    using markWorkerIdle_eq [OF inv w] w t
    by (simp add: markCompleted_def Let_def get_worker_def released_def set_worker_def)
qed

lemma markCompleted_dead:
  assumes inv: "sched_inv s" and w: "w < length (workers s)" "cur s w \<noteq> Some j"
    and j: "j \<in> maybeErroredJobs s" "tracked s j (Some w)"
    and t: "allJobList s j = Some t" "job_kind (tj_job t) = k"
  shows "markCompleted w j k s = Inr (None, s\<lparr>maybeErroredJobs := maybeErroredJobs s - {j}\<rparr>)"
proof -
  have [simp]: "(allJobList s)(j \<mapsto> t) = allJobList s" using t by auto
  have "checkAssignedWorker s j w = Inr ()"
    using j by (auto simp: checkAssignedWorker_def tracked_def)
  then show ?thesis using w j t by (simp add: markCompleted_def Let_def get_worker_def)
qed

lemma drop_errored_inv:
  "sched_inv s \<Longrightarrow> sched_inv (s\<lparr>maybeErroredJobs := maybeErroredJobs s - {j}\<rparr>)"
  by (auto simp: sched_inv_defs)

lemma markCompleted_inv:
  assumes "sched_inv s" "expected_response s w j k"
  shows "\<exists>r s'. markCompleted w j k s = Inr (r, s') \<and> sched_inv s' \<and>
    pendingJobs s' = pendingJobs s \<and> allJobList s' = allJobList s \<and>
    length (workers s') = length (workers s)"
proof (cases "cur s w = Some j")
  case True
  then show ?thesis
    using assms markCompleted_current [OF assms(1) _ True] released_inv [OF assms(1) _ True]
    by (auto simp: expected_response_def released_def set_worker_def)
next
  case False
  then show ?thesis
    using assms markCompleted_dead [OF assms(1) _ False] drop_errored_inv
    by (auto simp: expected_response_def)
qed

text \<open>The state after a job is handed to an idle worker.\<close>

definition handed_over :: "Instant \<Rightarrow> WorkerId \<Rightarrow> JobId \<Rightarrow> TrackedIndexJob \<Rightarrow> Scheduler \<Rightarrow> Scheduler" where
  "handed_over now w j t s =
     (set_worker w ((workers s ! w)\<lparr>status := Busy, currentlyProcessing := Some j, startTime := now\<rparr>) s)
       \<lparr>idleWorkers := remove1 w (idleWorkers s), pendingJobs := remove1 j (pendingJobs s),
        wipJobs := insert j (wipJobs s),
        allJobList := (allJobList s)(j \<mapsto> t\<lparr>assignedWorker := Some w\<rparr>)\<rparr>"

lemma handed_over_inv:
  assumes inv: "sched_inv s" and "w \<in> set (idleWorkers s)"
    and "allJobList s j = Some t" "assignedWorker t = None" "j \<notin> maybeErroredJobs s"
    and "\<And>u. j = newTask u \<Longrightarrow> allJobList s \<lparr>taskId = u, subtaskId = 1\<rparr> = None"
  shows "sched_inv (handed_over now w j t s)"
  by (rule acquire_inv [OF assms, where i' =
        "(workers s ! w)\<lparr>status := Busy, currentlyProcessing := Some j, startTime := now\<rparr>"])
    (auto simp: handed_over_def set_worker_def distinct_idle [OF inv] distinct_pending [OF inv])

lemma handed_over_simps [simp]:
  assumes "w < length (workers s)"
  shows "cur (handed_over now w j t s) w = Some j"
    "length (workers (handed_over now w j t s)) = length (workers s)"
  using assms by (simp_all add: handed_over_def set_worker_def)

lemma errored_not_pending:
  "sched_inv s \<Longrightarrow> tracked s j None \<Longrightarrow> j \<notin> maybeErroredJobs s"
  by (auto simp: sched_inv_def errored_ok_def tracked_def)

lemma wip_not_pending: "sched_inv s \<Longrightarrow> tracked s j None \<Longrightarrow> j \<notin> wipJobs s"
  using tracked_unique by (fastforce simp: wip_iff dest: cur_tracked)

lemma assignNextJob_eq:
  assumes inv: "sched_inv s" and "idleWorkers s = w # ws" "pendingJobs s = j # js"
    and t: "allJobList s j = Some t"
  shows "assignNextJob send now s =
    (let s1 = handed_over (now j) w j t s
     in if send w \<lparr>req_id = j, req_job = tj_job t\<rparr> then Inr s1 else Inr (released w j s1))"
    and "sched_inv (handed_over (now j) w j t s)"
proof -
  let ?s0 = "s\<lparr>pendingJobs := js, wipJobs := insert j (wipJobs s), idleWorkers := ws\<rparr>"
  have w: "w < length (workers s)" "status (workers s ! w) = Idle" "cur s w = None" "w \<notin> set ws"
    using assms(2) idle_iff [OF inv, of w] busy_iff [OF inv, of w] distinct_idle [OF inv] by auto
  have tr: "tracked s j None" using pending_tracked [OF inv] assms(3) by simp
  then have an: "assignedWorker t = None" using t by (simp add: tracked_def)
  have k: "allJobList s \<lparr>taskId = u, subtaskId = 1\<rparr> = None" if "j = newTask u" for u
    using kinds2 [OF inv, of u] that assms(3) by (metis list.set_intros(1))
  show inv1: "sched_inv (handed_over (now j) w j t s)"
    using assms(2) t an errored_not_pending [OF inv tr] k by (intro handed_over_inv [OF inv]) auto
  have w1: "w < length (workers (handed_over (now j) w j t s))" "cur (handed_over (now j) w j t s) w = Some j"
    using w by simp_all
  have sched: "scheduleJobOnWorker (now j) w j ?s0 =
      Inr (\<lparr>req_id = j, req_job = tj_job t\<rparr>, handed_over (now j) w j t s)"
    using w t an assms(2,3)
    by (simp add: scheduleJobOnWorker_def markWorkerBusy_def get_worker_def set_worker_def
        handed_over_def)
  show "assignNextJob send now s =
    (let s1 = handed_over (now j) w j t s
     in if send w \<lparr>req_id = j, req_job = tj_job t\<rparr> then Inr s1 else Inr (released w j s1))"
    using assms(2,3) wip_not_pending [OF inv tr] sched inv1 released_inv [OF inv1 w1]
      deschedule_eq [OF inv1 w1]
    by (simp add: assignNextJob_def claimIdleWorker_def tryAssignJobToWorker_def Let_def)
qed

lemma assignNextJob_inv:
  assumes inv: "sched_inv s" and "idleWorkers s \<noteq> []" "pendingJobs s \<noteq> []"
  shows "\<exists>s'. assignNextJob send now s = Inr s' \<and> sched_inv s' \<and>
    length (workers s') = length (workers s)"
proof -
  obtain w ws j js where wj: "idleWorkers s = w # ws" "pendingJobs s = j # js"
    using assms(2,3) by (meson neq_Nil_conv)
  then obtain t where t: "allJobList s j = Some t"
    using pending_tracked [OF inv, of j] by (auto simp: tracked_def)
  have w: "w < length (workers s)" using wj idle_iff [OF inv, of w] by simp
  note eq = assignNextJob_eq(1) [OF inv wj t, of send now] assignNextJob_eq(2) [OF inv wj t, of now]
  have "sched_inv (released w j (handed_over (now j) w j t s))"
    using released_inv [OF eq(2)] w by simp
  with eq show ?thesis by (auto simp: Let_def w released_def set_worker_def)
qed

lemma assignLoop_inv:
  assumes "sched_inv s"
  shows "\<exists>s'. assignLoop send now s = Inr s' \<and> sched_inv s' \<and>
    length (workers s') = length (workers s) \<and> (idleWorkers s' = [] \<or> pendingJobs s' = [])"
  using assms
proof (induction send now s rule: assignLoop.induct)
  case (1 send now s)
  show ?case
  proof (cases "idleWorkers s \<noteq> [] \<and> pendingJobs s \<noteq> []")
    case True
    then obtain s1 where s1: "assignNextJob send now s = Inr s1" "sched_inv s1"
        "length (workers s1) = length (workers s)"
      using assignNextJob_inv [OF "1.prems"] by blast
    from "1.IH" [OF True this(1) this(2)] s1 True show ?thesis
      by (simp add: assignLoop.simps [of send now s])
  next
    case False
    with "1.prems" show ?thesis by (auto simp: assignLoop.simps [of send now s])
  qed
qed

lemma assignJobsToIdleWorkers_inv:
  assumes "sched_inv s" "idleWorkers s \<noteq> []" "pendingJobs s \<noteq> []"
  shows "\<exists>s'. assignJobsToIdleWorkers send now s = Inr s' \<and> sched_inv s' \<and>
    length (workers s') = length (workers s) \<and> (idleWorkers s' = [] \<or> pendingJobs s' = [])"
  using assignLoop_inv [OF assms(1)] assms(2,3) by (simp add: assignJobsToIdleWorkers_def)

text \<open>Recording a follow-up job whose first half is no longer scheduled anywhere.\<close>

lemma track_subtask_inv:
  assumes inv: "sched_inv s" and new: "allJobList s \<lparr>taskId = u, subtaskId = 1\<rparr> = None"
    and job: "job_kind (tj_job t) = EmitIndex" "assignedWorker t = None"
    and old: "allJobList s (newTask u) \<noteq> None" "newTask u \<notin> wipJobs s"
      "newTask u \<notin> maybeErroredJobs s" "newTask u \<notin> set (pendingJobs s)"
  shows "sched_inv (s\<lparr>allJobList := (allJobList s)(\<lparr>taskId = u, subtaskId = 1\<rparr> \<mapsto> t)\<rparr>)"
    (is "sched_inv ?s0")
proof -
  let ?j = "\<lparr>taskId = u, subtaskId = 1\<rparr>"
  have tr: "tracked ?s0 k v = (if k = ?j then v = None else tracked s k v)" for k v
    using job by (auto simp: tracked_def)
  have nj: "\<not> tracked s ?j v" for v using new by (simp add: tracked_def)
  have "workers_ok ?s0" using inv by (simp add: sched_inv_def workers_ok_def)
  moreover have "wip_ok ?s0" using inv nj unfolding sched_inv_def wip_ok_def tr by auto
  moreover have "pending_ok ?s0" using inv nj unfolding sched_inv_def pending_ok_def tr by auto
  moreover have "errored_ok ?s0" using inv nj unfolding sched_inv_def errored_ok_def tr by auto
  moreover have "kinds_ok ?s0"
  proof (rule kinds_okI)
    fix k t' assume "allJobList ?s0 k = Some t'"
    then show "(subtaskId k = 0 \<and> job_kind (tj_job t') = SemanticAnalysis) \<or>
        (subtaskId k = 1 \<and> job_kind (tj_job t') = EmitIndex)"
      using kinds1 [OF inv, of k t'] job by (auto split: if_splits)
  next
    fix v assume v: "allJobList ?s0 \<lparr>taskId = v, subtaskId = 1\<rparr> \<noteq> None"
    show "allJobList ?s0 (newTask v) \<noteq> None \<and> newTask v \<notin> wipJobs ?s0 \<and>
        newTask v \<notin> maybeErroredJobs ?s0 \<and> newTask v \<notin> set (pendingJobs ?s0)"
      using v kinds2 [OF inv, of v] old by (cases "v = u") simp_all
  qed
  ultimately show ?thesis by (simp add: sched_inv_def)
qed

text \<open>
  The second half of a job: the worker that has just become idle again (and so is at the
  front of the queue) gets the follow-up job of the same translation unit.
\<close>

lemma createSubtask_inv:
  assumes inv: "sched_inv s" and w: "w < length (workers s)" "cur s w = Some (newTask u)"
    and job: "job_kind job = EmitIndex"
  shows "\<exists>s'. createSubtaskAndScheduleOnWorker now w (newTask u) job (released w (newTask u) s) =
      Inr (\<lparr>req_id = \<lparr>taskId = u, subtaskId = 1\<rparr>, req_job = job\<rparr>, s') \<and> sched_inv s' \<and>
    cur s' w = Some \<lparr>taskId = u, subtaskId = 1\<rparr> \<and> length (workers s') = length (workers s) \<and>
    pendingJobs s' = pendingJobs s \<and> maybeErroredJobs s' = maybeErroredJobs s \<and>
    wipJobs s' = insert \<lparr>taskId = u, subtaskId = 1\<rparr> (wipJobs s - {newTask u}) \<and>
    allJobList s \<lparr>taskId = u, subtaskId = 1\<rparr> = None \<and>
    allJobList s' = (allJobList s)(\<lparr>taskId = u, subtaskId = 1\<rparr> \<mapsto>
      \<lparr>tj_job = job, assignedWorker = Some w\<rparr>) \<and> stoppedWorkers s' = stoppedWorkers s"
proof -
  let ?j = "\<lparr>taskId = u, subtaskId = 1\<rparr>" and ?r = "released w (newTask u) s"
  let ?t = "\<lparr>tj_job = job, assignedWorker = None\<rparr>"
  let ?s0 = "?r\<lparr>allJobList := (allJobList s)(?j \<mapsto> ?t)\<rparr>" and ?s' = "\<lambda>s. handed_over now w ?j ?t s"
  have wip: "newTask u \<in> wipJobs s" using wip_iff [OF inv] w by auto
  then have new: "allJobList s ?j = None" using kinds2 [OF inv, of u] by blast
  have r: "allJobList ?r = allJobList s" "idleWorkers ?r = w # idleWorkers s"
      "pendingJobs ?r = pendingJobs s" "wipJobs ?r = wipJobs s - {newTask u}"
      "maybeErroredJobs ?r = maybeErroredJobs s" "stoppedWorkers ?r = stoppedWorkers s"
      "status (workers ?r ! w) = Idle" "cur ?r w = None" "length (workers ?r) = length (workers s)"
    using w by (simp_all add: released_def set_worker_def)
  have "newTask u \<notin> maybeErroredJobs s" "newTask u \<notin> set (pendingJobs s)"
    using inv wip pending_tracked [OF inv] wip_not_pending [OF inv]
    by (auto simp: sched_inv_def errored_ok_def)
  then have inv0: "sched_inv ?s0"
    using track_subtask_inv [OF released_inv [OF inv w], of u ?t] new job r cur_tracked [OF inv w]
    by (auto simp: tracked_def)
  have nerr: "?j \<notin> maybeErroredJobs s" "?j \<notin> set (pendingJobs s)"
    using new inv pending_tracked [OF inv, of ?j] by (auto simp: sched_inv_def errored_ok_def tracked_def)
  have "sched_inv (?s' ?s0)"
    using inv0 nerr by (intro handed_over_inv) (auto simp: r)
  moreover have "w \<notin> set (idleWorkers s)"
    using idle_iff [OF inv, of w] busy_iff [OF inv w(1)] w by auto
  then have "createSubtaskAndScheduleOnWorker now w (newTask u) job ?r =
      Inr (\<lparr>req_id = ?j, req_job = job\<rparr>, ?s' ?s0)"
    using w new r nerr
    by (simp add: createSubtaskAndScheduleOnWorker_def Let_def nextSubtask_def scheduleJobOnWorker_def
        markWorkerBusy_def get_worker_def set_worker_def handed_over_def remove1_idem)
  ultimately show ?thesis
    using w nerr r new by (simp add: handed_over_def set_worker_def remove1_idem)
qed

lemma shutdownLastIdle_inv:
  assumes inv: "sched_inv s" and "idleWorkers s \<noteq> []" and sd: "\<And>w. sd w"
  shows "\<exists>s'. shutdownLastIdle sd s = Inr s' \<and> sched_inv s' \<and> wipJobs s' = wipJobs s \<and>
    pendingJobs s' = pendingJobs s \<and> length (workers s') = length (workers s)"
proof -
  obtain ws w where ws: "idleWorkers s = ws @ [w]" using assms(2) by (metis append_butlast_last_id)
  have w: "w < length (workers s)" "status (workers s ! w) = Idle" "cur s w = None" "w \<notin> set ws"
    using ws idle_iff [OF inv, of w] busy_iff [OF inv, of w] distinct_idle [OF inv] by auto
  let ?s' = "s\<lparr>idleWorkers := ws, workers := (workers s)[w := (workers s ! w)\<lparr>status := Stopped\<rparr>],
      stoppedWorkers := stoppedWorkers s @ [w]\<rparr>"
  have cur': "cur ?s' v = cur s v" for v by (cases "v = w") (use w in auto)
  have tr: "tracked ?s' k v = tracked s k v" for k v by (simp add: tracked_def)
  have "w \<notin> set (stoppedWorkers s)" using stopped_iff [OF inv, of w] w by simp
  then have "workers_ok ?s'"
    using inv ws w unfolding sched_inv_def workers_ok_def cur'
    by (auto simp: nth_list_update split: if_splits)
  moreover have "wip_ok ?s'" using inv unfolding sched_inv_def wip_ok_def cur' tr by simp
  moreover have "pending_ok ?s'" using inv unfolding sched_inv_def pending_ok_def tr by simp
  moreover have "errored_ok ?s'" using inv unfolding sched_inv_def errored_ok_def tr by simp
  moreover have "kinds_ok ?s'" using inv unfolding sched_inv_def kinds_ok_def by simp
  ultimately have "sched_inv ?s'" by (simp add: sched_inv_def)
  then show ?thesis
    using ws w sd
    by (auto simp: shutdownLastIdle_def shutdownWorker_def markWorkerStopped_def get_worker_def set_worker_def Let_def)
qed

lemma shutdownIdleWorkers_inv:
  assumes "sched_inv s" and sd: "\<And>w. sd w"
  shows "\<exists>s'. shutdownIdleWorkers sd s = Inr s' \<and> sched_inv s' \<and> idleWorkers s' = [] \<and>
    wipJobs s' = wipJobs s \<and> pendingJobs s' = pendingJobs s \<and>
    length (workers s') = length (workers s)"
  using assms
proof (induction sd s rule: shutdownIdleWorkers.induct)
  case (1 sd s)
  show ?case
  proof (cases "idleWorkers s = []")
    case False
    then obtain s1 where s1: "shutdownLastIdle sd s = Inr s1" "sched_inv s1"
        "wipJobs s1 = wipJobs s" "pendingJobs s1 = pendingJobs s"
        "length (workers s1) = length (workers s)"
      using shutdownLastIdle_inv [OF "1.prems"(1)] "1.prems"(2) by blast
    from "1.IH" [OF False s1(1,2) "1.prems"(2)] s1 False show ?thesis
      by (simp add: shutdownIdleWorkers.simps [of sd s])
  qed (use "1.prems"(1) in \<open>simp add: shutdownIdleWorkers.simps [of sd s]\<close>)
qed

subsection \<open>The functional behaviour of the two bulk operations\<close>

text \<open>Jobs are handed out in the order of the queue, to idle workers in the order of theirs.\<close>

lemma assignLoop_fifo:
  assumes "sched_inv s" "\<And>w r. send w r"
  shows "\<exists>s'. assignLoop send now s = Inr s' \<and> sched_inv s' \<and>
    (let k = min (length (idleWorkers s)) (length (pendingJobs s))
     in idleWorkers s' = drop k (idleWorkers s) \<and> pendingJobs s' = drop k (pendingJobs s) \<and>
        wipJobs s' = wipJobs s \<union> set (take k (pendingJobs s)) \<and>
        (\<forall>i < k. cur s' (idleWorkers s ! i) = Some (pendingJobs s ! i))) \<and>
    (\<forall>v. v \<notin> set (idleWorkers s) \<longrightarrow> workers s' ! v = workers s ! v)"
  using assms
proof (induction send now s rule: assignLoop.induct)
  case (1 send now s)
  show ?case
  proof (cases "idleWorkers s \<noteq> [] \<and> pendingJobs s \<noteq> []")
    case False
    with "1.prems"(1) show ?thesis by (auto simp: assignLoop.simps [of send now s] Let_def)
  next
    case True
    then obtain w ws j js where wj: "idleWorkers s = w # ws" "pendingJobs s = j # js"
      by (meson neq_Nil_conv)
    then obtain t where t: "allJobList s j = Some t"
      using pending_tracked [OF "1.prems"(1), of j] by (auto simp: tracked_def)
    define s1 where "s1 = handed_over (now j) w j t s"
    have run: "assignNextJob send now s = Inr s1"
      using assignNextJob_eq(1) [OF "1.prems"(1) wj t, of send now] "1.prems"(2) by (simp add: s1_def Let_def)
    have inv: "sched_inv s1" unfolding s1_def by (rule assignNextJob_eq(2) [OF "1.prems"(1) wj t])
    have w: "w < length (workers s)" "w \<notin> set ws"
      using wj idle_iff [OF "1.prems"(1), of w] distinct_idle [OF "1.prems"(1)] by auto
    have s1: "idleWorkers s1 = ws" "pendingJobs s1 = js" "wipJobs s1 = insert j (wipJobs s)" "cur s1 w = Some j"
        "v \<noteq> w \<Longrightarrow> workers s1 ! v = workers s ! v" for v
      using w wj by (simp_all add: s1_def handed_over_def set_worker_def)
    obtain s' where s': "assignLoop send now s1 = Inr s'" "sched_inv s'"
        "idleWorkers s' = drop (min (length ws) (length js)) ws"
        "pendingJobs s' = drop (min (length ws) (length js)) js"
        "wipJobs s' = wipJobs s1 \<union> set (take (min (length ws) (length js)) js)"
        "\<forall>i < min (length ws) (length js). cur s' (ws ! i) = Some (js ! i)"
        "\<forall>v. v \<notin> set ws \<longrightarrow> workers s' ! v = workers s1 ! v"
      using "1.IH" [OF True run inv "1.prems"(2)] by (auto simp: Let_def s1)
    have "\<forall>i < Suc (min (length ws) (length js)). cur s' ((w # ws) ! i) = Some ((j # js) ! i)"
    proof (intro allI impI)
      fix i assume "i < Suc (min (length ws) (length js))"
      then show "cur s' ((w # ws) ! i) = Some ((j # js) ! i)"
        using s'(6,7) s1(4) w(2) by (cases i) auto
    qed
    moreover have "assignLoop send now s = Inr s'" using True run s'(1) by (simp add: assignLoop.simps [of send now s])
    moreover have "\<forall>v. v \<notin> set (w # ws) \<longrightarrow> workers s' ! v = workers s ! v" using s'(7) s1(5) by auto
    ultimately show ?thesis using s'(2-5) s1(3) wj by (intro exI [of _ s']) (simp add: Let_def)
  qed
qed

definition overdue :: "Instant \<Rightarrow> Scheduler \<Rightarrow> WorkerId \<Rightarrow> bool" where
  "overdue t s w \<longleftrightarrow> status (workers s ! w) = Busy \<and> startTime (workers s ! w) < t"

definition overdue_jobs :: "Instant \<Rightarrow> Scheduler \<Rightarrow> nat \<Rightarrow> JobId set" where
  "overdue_jobs t s n = {j. \<exists>w < n. overdue t s w \<and> cur s w = Some j}"

lemma terminateRunningWorker_eq:
  assumes "sched_inv s" "w < length (workers s)" "cur s w = Some j"
  shows "terminateRunningWorker w p s = Inr
    ((set_worker w (newWorkerInfo p) (s\<lparr>wipJobs := wipJobs s - {j}, maybeErroredJobs := insert j (maybeErroredJobs s)\<rparr>))
       \<lparr>idleWorkers := idleWorkers s @ [w]\<rparr>)"
  using terminateRunningWorker_inv [OF assms, of p] assms(2,3)
  by (auto simp: terminateRunningWorker_def get_worker_def Let_def checkInvariants_def result_simps)

lemma terminate_prefix:
  assumes inv: "sched_inv s"
  shows "n \<le> length (workers s) \<Longrightarrow>
    \<exists>s'. rfold (terminateIfLongRunning t respawn) [0..<n] s = Inr s' \<and> sched_inv s' \<and>
      length (workers s') = length (workers s) \<and>
      (\<forall>w < length (workers s). workers s' ! w =
         (if w < n \<and> overdue t s w then newWorkerInfo (respawn w) else workers s ! w)) \<and>
      idleWorkers s' = idleWorkers s @ filter (overdue t s) [0..<n] \<and>
      wipJobs s' = wipJobs s - overdue_jobs t s n \<and>
      maybeErroredJobs s' = maybeErroredJobs s \<union> overdue_jobs t s n \<and> pendingJobs s' = pendingJobs s"
proof (induction n)
  case 0
  then show ?case using inv by (simp add: overdue_jobs_def)
next
  case (Suc n)
  then obtain s1 where s1: "rfold (terminateIfLongRunning t respawn) [0..<n] s = Inr s1" "sched_inv s1"
      "length (workers s1) = length (workers s)"
      "\<forall>w < length (workers s). workers s1 ! w = (if w < n \<and> overdue t s w then newWorkerInfo (respawn w) else workers s ! w)"
      "idleWorkers s1 = idleWorkers s @ filter (overdue t s) [0..<n]"
      "wipJobs s1 = wipJobs s - overdue_jobs t s n" "maybeErroredJobs s1 = maybeErroredJobs s \<union> overdue_jobs t s n"
      "pendingJobs s1 = pendingJobs s"
    by auto
  have n: "n < length (workers s1)" "workers s1 ! n = workers s ! n" using Suc.prems s1(3,4) by simp_all
  have jobs: "overdue_jobs t s (Suc n) =
      (if overdue t s n then overdue_jobs t s n \<union> {j. cur s n = Some j} else overdue_jobs t s n)"
    by (auto simp: overdue_jobs_def less_Suc_eq)
  show ?case
  proof (cases "overdue t s n")
    case True
    then obtain j where j: "cur s1 n = Some j" using busy_iff [OF s1(2) n(1)] n(2) by (auto simp: overdue_def)
    define s2 where "s2 = (set_worker n (newWorkerInfo (respawn n)) (s1\<lparr>wipJobs := wipJobs s1 - {j},
        maybeErroredJobs := insert j (maybeErroredJobs s1)\<rparr>))\<lparr>idleWorkers := idleWorkers s1 @ [n]\<rparr>"
    have "terminateIfLongRunning t respawn n s1 = Inr s2" "sched_inv s2"
      using terminateRunningWorker_eq [OF s1(2) n(1) j, of "respawn n"] terminateRunningWorker_inv [OF s1(2) n(1) j, of "respawn n"] True n
      by (auto simp: terminateIfLongRunning_def get_worker_def overdue_def s2_def)
    moreover have "overdue_jobs t s (Suc n) = insert j (overdue_jobs t s n)" using jobs True j n(2) by auto
    ultimately show ?thesis using True s1 n j
      by (intro exI [of _ s2]) (auto simp: rfold_append s2_def set_worker_def nth_list_update less_Suc_eq)
  next
    case False
    then have "terminateIfLongRunning t respawn n s1 = Inr s1"
      using n by (auto simp: terminateIfLongRunning_def get_worker_def overdue_def split: WorkerStatus.splits)
    with False s1 jobs show ?thesis
      by (intro exI [of _ s1]) (auto simp: rfold_append less_Suc_eq)
  qed
qed

subsection \<open>Properties\<close>

definition sample_job :: "IndexJob" where
  "sample_job = default_IndexJob"

text \<open>Two workers; the first is busy since time 5, and one more job is waiting.\<close>

definition sample_scheduler :: Scheduler where
  "sample_scheduler = \<lparr>
     workers = [\<lparr>status = Busy, processHandle = 10, startTime = 5, currentlyProcessing = Some (newTask 0)\<rparr>,
                \<lparr>status = Idle, processHandle = 11, startTime = 0, currentlyProcessing = None\<rparr>],
     idleWorkers = [1], stoppedWorkers = [],
     allJobList = [newTask 0 \<mapsto> \<lparr>tj_job = sample_job, assignedWorker = Some 0\<rparr>,
                   newTask 1 \<mapsto> \<lparr>tj_job = sample_job, assignedWorker = None\<rparr>],
     pendingJobs = [newTask 1], wipJobs = {newTask 0}, maybeErroredJobs = {}\<rparr>"

lemma sample_sched_inv: "sched_inv sample_scheduler"
proof -
  have two: "(w < length (workers sample_scheduler)) = (w = 0 \<or> w = 1)" for w
    by (auto simp: sample_scheduler_def)
  have "workers_ok sample_scheduler" unfolding workers_ok_def two by (auto simp: sample_scheduler_def nth_Cons' split: if_splits)
  moreover have "wip_ok sample_scheduler"
    unfolding wip_ok_def two by (auto simp: sample_scheduler_def tracked_def newTask_def)
  moreover have "pending_ok sample_scheduler" by (simp add: pending_ok_def sample_scheduler_def tracked_def)
  moreover have "errored_ok sample_scheduler" by (simp add: errored_ok_def sample_scheduler_def)
  moreover have "kinds_ok sample_scheduler"
    by (auto simp: kinds_ok_def sample_scheduler_def newTask_def sample_job_def default_IndexJob_def split: if_splits)
  ultimately show ?thesis by (simp add: sched_inv_def)
qed

text \<open>
  C12: Assigning jobs. In a consistent scheduler the assignment never fails a check, whatever the
  queues do, and ends with no idle worker or no pending job. When the queues take the
  messages, the jobs at the front of the queue go to the workers at the front of theirs, one
  each, become work in progress, and all other workers are left as they are.
\<close>

theorem assign_jobs_fifo:
  assumes "sched_inv s" "idleWorkers s \<noteq> []" "pendingJobs s \<noteq> []"
  shows "\<exists>s'. assignJobsToIdleWorkers send now s = Inr s' \<and> sched_inv s' \<and>
    (idleWorkers s' = [] \<or> pendingJobs s' = []) \<and>
    ((\<forall>w r. send w r) \<longrightarrow>
      (let k = min (length (idleWorkers s)) (length (pendingJobs s))
       in idleWorkers s' = drop k (idleWorkers s) \<and> pendingJobs s' = drop k (pendingJobs s) \<and>
          wipJobs s' = wipJobs s \<union> set (take k (pendingJobs s)) \<and>
          (\<forall>i < k. cur s' (idleWorkers s ! i) = Some (pendingJobs s ! i))) \<and>
      (\<forall>v. v \<notin> set (idleWorkers s) \<longrightarrow> workers s' ! v = workers s ! v))"
proof -
  obtain s' where "assignJobsToIdleWorkers send now s = Inr s'" "sched_inv s'" "idleWorkers s' = [] \<or> pendingJobs s' = []"
    using assignJobsToIdleWorkers_inv [OF assms, of send now] by blast
  moreover from this(1) assms(2,3) have "assignLoop send now s = Inr s'" by (simp add: assignJobsToIdleWorkers_def)
  ultimately show ?thesis using assignLoop_fifo [OF assms(1), of send now] by (intro exI [of _ s']) auto
qed

theorem assign_jobs_fifo_witness:
  "\<exists>s'. assignJobsToIdleWorkers (\<lambda>w r. True) (\<lambda>j. 9) sample_scheduler = Inr s' \<and> sched_inv s' \<and>
    idleWorkers s' = [] \<and> cur s' 1 = Some (newTask 1)"
  using assign_jobs_fifo [OF sample_sched_inv, of "\<lambda>w r. True" "\<lambda>j. 9"] by (auto simp: sample_scheduler_def)

text \<open>
  C11: Overdue workers. The sweep over the workers never fails a check; it replaces exactly the
  busy workers that started before the given time by a fresh idle process, in the order of
  their identifiers, and moves exactly their jobs from the jobs in progress to the jobs that
  may be in error.
\<close>

theorem overdue_workers_replaced:
  assumes "sched_inv s"
  shows "\<exists>s'. terminateLongRunningWorkersAndRespawn t respawn s = Inr s' \<and> sched_inv s' \<and>
    length (workers s') = length (workers s) \<and>
    (\<forall>w < length (workers s). workers s' ! w =
       (if overdue t s w then newWorkerInfo (respawn w) else workers s ! w)) \<and>
    idleWorkers s' = idleWorkers s @ filter (overdue t s) [0..<length (workers s)] \<and>
    wipJobs s' = wipJobs s - overdue_jobs t s (length (workers s)) \<and>
    maybeErroredJobs s' = maybeErroredJobs s \<union> overdue_jobs t s (length (workers s)) \<and>
    pendingJobs s' = pendingJobs s"
  using terminate_prefix [OF assms order_refl, of t respawn] assms
  by (auto simp: terminateLongRunningWorkersAndRespawn_def)

theorem overdue_workers_replaced_witness:
  "\<exists>s'. terminateLongRunningWorkersAndRespawn 6 (\<lambda>w. 99) sample_scheduler = Inr s' \<and>
    maybeErroredJobs s' = {newTask 0} \<and> idleWorkers s' = [1, 0] \<and> processHandle (workers s' ! 0) = 99"
proof -
  have "overdue_jobs 6 sample_scheduler 2 = {newTask 0}" "overdue 6 sample_scheduler 0" "\<not> overdue 6 sample_scheduler 1"
    by (auto simp: overdue_jobs_def overdue_def sample_scheduler_def less_2_cases_iff)
  then show ?thesis
    using overdue_workers_replaced [OF sample_sched_inv, of 6 "\<lambda>w. 99"]
    by (auto simp: sample_scheduler_def newWorkerInfo_def upt_rec numeral_2_eq_2)
qed

text \<open>
  C10: Responses. The response of the worker that has the job frees the worker, puts it at the
  front of the idle ones and ends the job; the response of a worker that was replaced in the
  meantime only removes the job from those that may be in error; a response from a worker
  the job was never given to fails a check.
\<close>

theorem response_handling:
  assumes "sched_inv s" "w < length (workers s)" "allJobList s j = Some t"
  shows "(cur s w = Some j \<longrightarrow>
      (\<exists>s'. markCompleted w j (job_kind (tj_job t)) s = Inr (Some w, s') \<and> sched_inv s' \<and>
        idleWorkers s' = w # idleWorkers s \<and> wipJobs s' = wipJobs s - {j} \<and> cur s' w = None \<and>
        maybeErroredJobs s' = maybeErroredJobs s)) \<and>
    (cur s w \<noteq> Some j \<and> j \<in> maybeErroredJobs s \<and> assignedWorker t = Some w \<longrightarrow>
      (\<exists>s'. markCompleted w j (job_kind (tj_job t)) s = Inr (None, s') \<and> sched_inv s' \<and>
        s' = s\<lparr>maybeErroredJobs := maybeErroredJobs s - {j}\<rparr>)) \<and>
    (assignedWorker t \<noteq> Some w \<longrightarrow> (\<exists>e. markCompleted w j k s = Inl (EnforceFailed e)))"
proof (intro conjI impI)
  assume "cur s w = Some j"
  with markCompleted_current [OF assms(1,2) this assms(3) refl] released_inv [OF assms(1,2) this] assms(2)
  show "\<exists>s'. markCompleted w j (job_kind (tj_job t)) s = Inr (Some w, s') \<and> sched_inv s' \<and>
      idleWorkers s' = w # idleWorkers s \<and> wipJobs s' = wipJobs s - {j} \<and> cur s' w = None \<and>
      maybeErroredJobs s' = maybeErroredJobs s"
    by (simp add: released_def set_worker_def)
next
  assume "cur s w \<noteq> Some j \<and> j \<in> maybeErroredJobs s \<and> assignedWorker t = Some w"
  then show "\<exists>s'. markCompleted w j (job_kind (tj_job t)) s = Inr (None, s') \<and> sched_inv s' \<and>
      s' = s\<lparr>maybeErroredJobs := maybeErroredJobs s - {j}\<rparr>"
    using markCompleted_dead [OF assms(1,2) _ _ _ assms(3) refl] drop_errored_inv [OF assms(1)] assms(3)
    by (auto simp: tracked_def)
next
  assume "assignedWorker t \<noteq> Some w"
  then show "\<exists>e. markCompleted w j k s = Inl (EnforceFailed e)"
    using assms(3) by (auto simp: markCompleted_def checkAssignedWorker_def Let_def enforcing_def split: option.splits)
qed

theorem response_handling_witness:
  "\<exists>s'. markCompleted 0 (newTask 0) SemanticAnalysis sample_scheduler = Inr (Some 0, s') \<and> sched_inv s' \<and>
    idleWorkers s' = [0, 1] \<and> wipJobs s' = {}"
  using response_handling [OF sample_sched_inv, of 0 "newTask 0" "\<lparr>tj_job = sample_job, assignedWorker = Some 0\<rparr>"]
  by (auto simp: sample_scheduler_def sample_job_def default_IndexJob_def newTask_def)

end
