(* ===== verification/Planner.thy ===== *)
theory Planner
  imports Paths
begin

text \<open>
  Which worker indexes which file: class \<^verbatim>\<open>FileIndexingPlanner\<close> of indexer/Driver.cc. The
  planner remembers, for every path, the hashes of the preprocessed contents seen so far,
  and hands every new pair of a path and a hash to the worker that reported it first.
\<close>

subsection \<open>Definitions\<close>

type_synonym FileIndexingPlanner = "(AbsolutePath \<times> HashValue list) list"

type_synonym plan_state = "FileIndexingPlanner \<times> PreprocessedFileInfo list"

definition insertHash :: "AbsolutePath \<Rightarrow> HashValue \<Rightarrow> plan_state \<Rightarrow> plan_state" where
  "insertHash path hashValue st =
     (let (hashesSoFar, filesToBeIndexed) = st;
          hashes = (case map_of hashesSoFar path of None \<Rightarrow> [] | Some hs \<Rightarrow> hs)
      in if hashValue \<in> set hashes then st
         else (hmap_update path (hset_insert hashValue hashes) hashesSoFar,
               filesToBeIndexed @ [\<lparr>fi_path = path, fi_hashValue = hashValue\<rparr>]))"

definition saveIllBehaved ::
  "llvm_path \<Rightarrow> PreprocessedFileInfoMulti \<Rightarrow> plan_state \<Rightarrow> plan_state result" where
  "saveIllBehaved L fileInfoMulti st =
     enforcing (length (fim_hashValues fileInfoMulti) > 1) ''fileInfoMulti.hashValues.size() > 1''
       (rbind (mkAbsolutePath L (fim_path fileInfoMulti)) (\<lambda>path.
          Inr (fold (insertHash path) (fim_hashValues fileInfoMulti)
                 (hmap_emplace path [] (fst st), snd st))))"

definition saveWellBehaved ::
  "llvm_path \<Rightarrow> PreprocessedFileInfo \<Rightarrow> plan_state \<Rightarrow> plan_state result" where
  "saveWellBehaved L fileInfo st =
     rbind (mkAbsolutePath L (fi_path fileInfo)) (\<lambda>path.
       Inr (insertHash path (fi_hashValue fileInfo) (hmap_emplace path [] (fst st), snd st)))"

definition saveSemaResult ::
  "llvm_path \<Rightarrow> SemanticAnalysisJobResult \<Rightarrow> FileIndexingPlanner \<Rightarrow> plan_state result" where
  "saveSemaResult L semaResult hashesSoFar =
     rbind (rfold (saveIllBehaved L) (illBehavedFiles semaResult) (hashesSoFar, []))
       (rfold (saveWellBehaved L) (wellBehavedFiles semaResult))"

datatype MultiplyIndexed = MI_True | MI_False | MI_Unknown

definition isMultiplyIndexed ::
  "llvm_path \<Rightarrow> RootPath \<Rightarrow> FileIndexingPlanner \<Rightarrow> RootRelativePathRef \<Rightarrow> MultiplyIndexed result" where
  "isMultiplyIndexed L projectRootPath hashesSoFar relativePath =
     rbind (makeAbsolute L projectRootPath relativePath) (\<lambda>absPath.
       Inr (case map_of hashesSoFar absPath of
              None \<Rightarrow> MI_Unknown
            | Some hashes \<Rightarrow> if length hashes > 1 then MI_True else MI_False))"

subsection \<open>Abstraction: the set of pairs that have been handed out\<close>

definition recorded :: "FileIndexingPlanner \<Rightarrow> (AbsolutePath \<times> HashValue) set" where
  "recorded m = {(p, h). \<exists>hs. map_of m p = Some hs \<and> h \<in> set hs}"

definition planner_inv :: "FileIndexingPlanner \<Rightarrow> bool" where
  "planner_inv m \<longleftrightarrow> distinct (map fst m) \<and>
     (\<forall>p hs. map_of m p = Some hs \<longrightarrow> distinct hs \<and> hs \<noteq> [])"

definition info_pairs :: "PreprocessedFileInfo list \<Rightarrow> (AbsolutePath \<times> HashValue) list" where
  "info_pairs fs = map (\<lambda>f. (fi_path f, fi_hashValue f)) fs"

definition multi_pairs :: "PreprocessedFileInfoMulti list \<Rightarrow> (AbsolutePath \<times> HashValue) list" where
  "multi_pairs fs = concat (map (\<lambda>f. map (Pair (fim_path f)) (fim_hashValues f)) fs)"

definition reported :: "SemanticAnalysisJobResult \<Rightarrow> (AbsolutePath \<times> HashValue) list" where
  "reported r = multi_pairs (illBehavedFiles r) @ info_pairs (wellBehavedFiles r)"

text \<open>What a worker guarantees of its report.\<close>

definition sema_result_ok :: "llvm_path \<Rightarrow> SemanticAnalysisJobResult \<Rightarrow> bool" where
  "sema_result_ok L r \<longleftrightarrow>
     (\<forall>f \<in> set (illBehavedFiles r). length (fim_hashValues f) > 1 \<and> is_absolute L (fim_path f)) \<and>
     (\<forall>f \<in> set (wellBehavedFiles r). is_absolute L (fi_path f))"

text \<open>
  The specification: the pairs of the report in their order, less those recorded and less
  repetitions.
\<close>

fun fresh_pairs :: "'a set \<Rightarrow> 'a list \<Rightarrow> 'a list" where
  "fresh_pairs R [] = []"
| "fresh_pairs R (x # xs) = (if x \<in> R then fresh_pairs R xs else x # fresh_pairs (insert x R) xs)"

lemma fresh_pairs_append: "fresh_pairs R (xs @ ys) = fresh_pairs R xs @ fresh_pairs (R \<union> set xs) ys"
  by (induction xs arbitrary: R) (auto simp: insert_absorb)

lemma set_fresh_pairs: "set (fresh_pairs R xs) = set xs - R"
  by (induction xs arbitrary: R) auto

lemma distinct_fresh_pairs: "distinct (fresh_pairs R xs)"
  by (induction xs arbitrary: R) (auto simp: set_fresh_pairs)

text \<open>
  The concrete state and the specification side by side. A path whose hash set is still
  empty exists only between the two insertions of one report.
\<close>

definition plan_ok :: "plan_state \<Rightarrow> bool" where
  "plan_ok st \<longleftrightarrow> distinct (map fst (fst st)) \<and> (\<forall>p hs. map_of (fst st) p = Some hs \<longrightarrow> distinct hs)"

definition plan_step ::
  "plan_state \<Rightarrow> (AbsolutePath \<times> HashValue) list \<Rightarrow> plan_state \<Rightarrow> bool" where
  "plan_step st ps st' \<longleftrightarrow> plan_ok st' \<and>
     recorded (fst st') = recorded (fst st) \<union> set ps \<and>
     info_pairs (snd st') = info_pairs (snd st) @ fresh_pairs (recorded (fst st)) ps \<and>
     (\<forall>p. map_of (fst st') p = Some [] \<longrightarrow> map_of (fst st) p = Some [] \<and> p \<notin> fst ` set ps)"

lemma recorded_update:
  "recorded (hmap_update p hs m) = (recorded m - {p} \<times> UNIV) \<union> {p} \<times> set hs"
  by (auto simp: recorded_def split: if_splits)

lemma recorded_emplace [simp]: "recorded (hmap_emplace p [] m) = recorded m"
  by (auto simp: recorded_def split: if_splits)

lemma plan_step_refl: "plan_ok st \<Longrightarrow> plan_step st [] st"
  by (simp add: plan_step_def)

lemma plan_step_trans:
  assumes "plan_step s ps s'" "plan_step s' qs s''"
  shows "plan_step s (ps @ qs) s''"
  using assms unfolding plan_step_def by (simp add: fresh_pairs_append Un_assoc image_Un)

lemma insertHash_step:
  assumes "plan_ok st"
  shows "plan_step st [(p, h)] (insertHash p h st)"
proof -
  obtain m out where st: "st = (m, out)" by (cases st)
  define hs where "hs = (case map_of m p of None \<Rightarrow> [] | Some hs \<Rightarrow> hs)"
  have rec: "(p, h) \<in> recorded m \<longleftrightarrow> h \<in> set hs" "{p} \<times> set hs \<subseteq> recorded m"
    unfolding recorded_def hs_def by (cases "map_of m p"; force)+
  have ok: "distinct (map fst m)" "\<forall>q gs. map_of m q = Some gs \<longrightarrow> distinct gs" "distinct hs"
    using assms by (auto simp: plan_ok_def st hs_def split: option.splits)
  have eq: "insertHash p h st = (if h \<in> set hs then st else
      (hmap_update p (hset_insert h hs) m, out @ [\<lparr>fi_path = p, fi_hashValue = h\<rparr>]))"
    by (simp add: insertHash_def st hs_def)
  show ?thesis
  proof (cases "h \<in> set hs")
    case True
    then have "(p, h) \<in> recorded m" "map_of m p \<noteq> Some []" using rec(1) by (auto simp: hs_def)
    with True assms show ?thesis unfolding eq by (auto simp: plan_step_def st)
  next
    case False
    have "recorded (hmap_update p (hset_insert h hs) m) = insert (p, h) (recorded m)"
    proof -
      have "recorded m \<inter> {p} \<times> UNIV = {p} \<times> set hs"
        unfolding recorded_def hs_def by (cases "map_of m p"; force)
      then show ?thesis unfolding recorded_update by auto
    qed
    with False ok rec show ?thesis
      unfolding eq by (auto simp: plan_step_def st plan_ok_def info_pairs_def hset_insert_def split: if_splits)
  qed
qed

lemma fold_insertHash_step:
  assumes "plan_ok st"
  shows "plan_step st (map (Pair p) hs) (fold (insertHash p) hs st)"
  using assms
proof (induction hs arbitrary: st)
  case (Cons h hs)
  have "plan_step st [(p, h)] (insertHash p h st)" using insertHash_step [OF Cons.prems] .
  moreover from this have "plan_ok (insertHash p h st)" by (simp add: plan_step_def)
  note Cons.IH [OF this]
  ultimately show ?case using plan_step_trans by fastforce
qed (simp add: plan_step_refl)

text \<open>Making room for a path whose hashes follow at once.\<close>

lemma emplace_step:
  assumes "plan_ok st" "\<forall>q. map_of (fst st) q \<noteq> Some []" "ps \<noteq> []" "\<forall>x \<in> set ps. fst x = p"
    and "plan_step (hmap_emplace p [] (fst st), snd st) ps st'"
  shows "plan_step st ps st' \<and> (\<forall>q. map_of (fst st') q \<noteq> Some [])"
proof -
  have "fst ` set ps = {p}" using assms(3,4) by (cases ps) auto
  then show ?thesis using assms(1,2,5) by (auto simp: plan_step_def split: if_splits)
qed

definition plan_done :: "plan_state \<Rightarrow> bool" where
  "plan_done st \<longleftrightarrow> plan_ok st \<and> (\<forall>q. map_of (fst st) q \<noteq> Some [])"

lemma plan_ok_emplace: "plan_ok st \<Longrightarrow> plan_ok (hmap_emplace p [] (fst st), snd st)"
  by (auto simp: plan_ok_def split: if_splits)

lemma planner_inv_iff: "planner_inv m \<longleftrightarrow> plan_done (m, out)"
  by (auto simp: planner_inv_def plan_done_def plan_ok_def)

lemma rfold_steps:
  assumes "\<And>x st. x \<in> set xs \<Longrightarrow> plan_done st \<Longrightarrow>
      \<exists>st'. f x st = Inr st' \<and> plan_step st (g x) st' \<and> plan_done st'"
    and "plan_done st"
  shows "\<exists>st'. rfold f xs st = Inr st' \<and> plan_step st (concat (map g xs)) st' \<and> plan_done st'"
  using assms
proof (induction xs arbitrary: st)
  case Nil
  then show ?case by (simp add: plan_step_refl plan_done_def)
next
  case (Cons x xs)
  obtain s1 where s1: "f x st = Inr s1" "plan_step st (g x) s1" "plan_done s1"
    using Cons.prems(1) [OF _ Cons.prems(2), of x] by auto
  have "\<exists>st'. rfold f xs s1 = Inr st' \<and> plan_step s1 (concat (map g xs)) st' \<and> plan_done st'"
    by (rule Cons.IH) (use Cons.prems(1) s1(3) in \<open>simp_all del: split_paired_Ex\<close>)
  then obtain s2 where
    "rfold f xs s1 = Inr s2" "plan_step s1 (concat (map g xs)) s2" "plan_done s2" by blast
  with s1 plan_step_trans [OF s1(2), of "concat (map g xs)" s2] show ?case by simp
qed

lemma emplace_fold_step:
  fixes p :: AbsolutePath
  assumes "plan_done st" "hs \<noteq> []"
  defines "st' \<equiv> fold (insertHash p) hs (hmap_emplace p [] (fst st), snd st)"
  shows "plan_step st (map (Pair p) hs) st' \<and> plan_done st'"
proof -
  have st: "plan_ok st" "\<forall>q. map_of (fst st) q \<noteq> Some []" using assms(1) by (auto simp: plan_done_def)
  have "plan_step (hmap_emplace p [] (fst st), snd st) (map (Pair p) hs) st'"
    unfolding st'_def by (rule fold_insertHash_step [OF plan_ok_emplace [OF st(1)]])
  then have "plan_step st (map (Pair p) hs) st' \<and> (\<forall>q. map_of (fst st') q \<noteq> Some [])"
    by (intro emplace_step [OF st]) (use assms(2) in auto)
  then show ?thesis
    by (simp add: plan_done_def plan_step_def)
qed

lemma saveIllBehaved_step:
  assumes "plan_done st" "length (fim_hashValues f) > 1" "is_absolute L (fim_path f)"
  shows "\<exists>st'. saveIllBehaved L f st = Inr st' \<and>
    plan_step st (map (Pair (fim_path f)) (fim_hashValues f)) st' \<and> plan_done st'"
proof -
  have "fim_hashValues f \<noteq> []" using assms(2) by auto
  from emplace_fold_step [OF assms(1) this, of "fim_path f"] assms(2,3) show ?thesis
    by (simp add: saveIllBehaved_def mkAbsolutePath_def tryFrom_def)
qed

lemma saveWellBehaved_step:
  assumes "plan_done st" "is_absolute L (fi_path f)"
  shows "\<exists>st'. saveWellBehaved L f st = Inr st' \<and>
    plan_step st [(fi_path f, fi_hashValue f)] st' \<and> plan_done st'"
  using emplace_fold_step [OF assms(1), of "[fi_hashValue f]" "fi_path f"] assms(2)
  by (simp add: saveWellBehaved_def mkAbsolutePath_def tryFrom_def)

lemma saveSemaResult_spec:
  assumes inv: "planner_inv m" and r: "sema_result_ok L r"
  shows "\<exists>m' out. saveSemaResult L r m = Inr (m', out) \<and> planner_inv m' \<and>
    recorded m' = recorded m \<union> set (reported r) \<and>
    info_pairs out = fresh_pairs (recorded m) (reported r)"
proof -
  have "plan_done (m, [])" using inv planner_inv_iff by blast
  then have "\<exists>s1. rfold (saveIllBehaved L) (illBehavedFiles r) (m, []) = Inr s1 \<and>
      plan_step (m, []) (multi_pairs (illBehavedFiles r)) s1 \<and> plan_done s1"
    unfolding multi_pairs_def
    by (intro rfold_steps saveIllBehaved_step) (use r in \<open>auto simp: sema_result_ok_def\<close>)
  then obtain s1 where s1: "rfold (saveIllBehaved L) (illBehavedFiles r) (m, []) = Inr s1"
      "plan_step (m, []) (multi_pairs (illBehavedFiles r)) s1" "plan_done s1" by blast
  have "info_pairs fs = concat (map (\<lambda>f. [(fi_path f, fi_hashValue f)]) fs)" for fs
    by (induction fs) (auto simp: info_pairs_def)
  then have "\<exists>s2. rfold (saveWellBehaved L) (wellBehavedFiles r) s1 = Inr s2 \<and>
      plan_step s1 (info_pairs (wellBehavedFiles r)) s2 \<and> plan_done s2"
    by (simp only:) (intro rfold_steps saveWellBehaved_step s1(3), use r in \<open>auto simp: sema_result_ok_def\<close>)
  then obtain s2 where s2: "rfold (saveWellBehaved L) (wellBehavedFiles r) s1 = Inr s2"
      "plan_step s1 (info_pairs (wellBehavedFiles r)) s2" "plan_done s2" by blast
  have st: "plan_step (m, []) (reported r) s2"
    unfolding reported_def using plan_step_trans s1(2) s2(2) .
  show ?thesis
  proof (cases s2)
    case (Pair m' out)
    then show ?thesis
      using s1(1) s2(1,3) st planner_inv_iff [of m' out]
      by (auto simp: saveSemaResult_def plan_step_def info_pairs_def)
  qed
qed

subsection \<open>The contract between the driver and the planner\<close>

text \<open>
  What the driver relies on: saving a report never fails, remembers what was reported, and
  hands out the part of the report that was not known before. The consequence for a run is
  proved from this contract alone.
\<close>

fun save_all :: "('r \<Rightarrow> 's \<Rightarrow> ('s \<times> 'o) result) \<Rightarrow> 'r list \<Rightarrow> 's \<Rightarrow> ('s \<times> 'o list) result" where
  "save_all save [] s = Inr (s, [])"
| "save_all save (r # rs) s =
     rbind (save r s) (\<lambda>(s1, out). rbind (save_all save rs s1) (\<lambda>(s2, outs). Inr (s2, out # outs)))"

locale work_distribution =
  fixes save :: "'r \<Rightarrow> 's \<Rightarrow> ('s \<times> 'o) result"
    and inv :: "'s \<Rightarrow> bool"
    and known :: "'s \<Rightarrow> 'x set"
    and reports :: "'r \<Rightarrow> 'x list"
    and handed :: "'o \<Rightarrow> 'x list"
    and ok :: "'r \<Rightarrow> bool"
  assumes save_ok: "inv s \<Longrightarrow> ok r \<Longrightarrow> \<exists>s' out. save r s = Inr (s', out) \<and> inv s' \<and>
    known s' = known s \<union> set (reports r) \<and> handed out = fresh_pairs (known s) (reports r)"
begin

lemma save_all_fresh:
  "inv s \<Longrightarrow> \<forall>r \<in> set rs. ok r \<Longrightarrow> \<exists>s' outs. save_all save rs s = Inr (s', outs) \<and> inv s' \<and>
     known s' = known s \<union> set (concat (map reports rs)) \<and>
     concat (map handed outs) = fresh_pairs (known s) (concat (map reports rs)) \<and> length outs = length rs"
proof (induction rs arbitrary: s)
  case (Cons r rs)
  obtain s1 out where s1: "save r s = Inr (s1, out)" "inv s1" "known s1 = known s \<union> set (reports r)"
      "handed out = fresh_pairs (known s) (reports r)"
    using save_ok [of s r] Cons.prems by auto
  obtain s2 outs where s2: "save_all save rs s1 = Inr (s2, outs)" "inv s2"
      "known s2 = known s1 \<union> set (concat (map reports rs))"
      "concat (map handed outs) = fresh_pairs (known s1) (concat (map reports rs))" "length outs = length rs"
    using Cons.IH [OF s1(2)] Cons.prems by auto
  show ?case
    using s1 s2 by (intro exI [of _ s2] exI [of _ "out # outs"]) (simp add: fresh_pairs_append Un_assoc)
qed simp

lemma handed_once:
  assumes "inv s" "\<forall>r \<in> set rs. ok r"
  shows "\<exists>s' outs. save_all save rs s = Inr (s', outs) \<and> inv s' \<and> known s' = known s \<union> (\<Union>r \<in> set rs. set (reports r)) \<and>
    distinct (concat (map handed outs)) \<and>
    set (concat (map handed outs)) = (\<Union>r \<in> set rs. set (reports r)) - known s"
proof -
  have "set (concat (map reports rs)) = (\<Union>r \<in> set rs. set (reports r))" by simp
  with save_all_fresh [OF assms] show ?thesis by (metis distinct_fresh_pairs set_fresh_pairs)
qed

end

interpretation planner: work_distribution "saveSemaResult L" planner_inv recorded reported info_pairs
  "sema_result_ok L" for L
proof
  fix m r assume "planner_inv m" "sema_result_ok L r"
  then show "\<exists>m' out. saveSemaResult L r m = Inr (m', out) \<and> planner_inv m' \<and>
      recorded m' = recorded m \<union> set (reported r) \<and> info_pairs out = fresh_pairs (recorded m) (reported r)"
    by (rule saveSemaResult_spec)
qed

lemma planner_inv_empty: "planner_inv []" and recorded_empty: "recorded [] = {}"
  by (simp_all add: planner_inv_def recorded_def)

text \<open>The set of hashes recorded for a path.\<close>

definition hashes_of :: "AbsolutePath \<Rightarrow> (AbsolutePath \<times> HashValue) set \<Rightarrow> HashValue set" where
  "hashes_of p R = {h. (p, h) \<in> R}"

lemma length_hashes:
  assumes "planner_inv m" "map_of m p = Some hs"
  shows "length hs = card (hashes_of p (recorded m))"
proof -
  have "hashes_of p (recorded m) = set hs" using assms(2) by (auto simp: hashes_of_def recorded_def)
  then show ?thesis using assms by (simp add: planner_inv_def distinct_card)
qed

lemma no_hashes: "planner_inv m \<Longrightarrow> map_of m p = None \<longleftrightarrow> hashes_of p (recorded m) = {}"
proof (cases "map_of m p")
  case (Some hs)
  moreover assume "planner_inv m"
  ultimately have "hd hs \<in> hashes_of p (recorded m)" by (auto simp: hashes_of_def recorded_def planner_inv_def)
  with Some show ?thesis by auto
qed (simp add: hashes_of_def recorded_def)

subsection \<open>Properties\<close>

text \<open>
  One report. Every pair of a path and a hash that the worker reports is recorded, and the
  files it is told to index are exactly the pairs that were not recorded before, each once
  and in the order of the report, those of ill-behaved files first.
\<close>

theorem sema_result_plan:
  assumes "planner_inv m" "sema_result_ok L r"
  shows "\<exists>m' out. saveSemaResult L r m = Inr (m', out) \<and> planner_inv m' \<and>
    recorded m' = recorded m \<union> set (reported r) \<and>
    info_pairs out = fresh_pairs (recorded m) (reported r) \<and> distinct (info_pairs out) \<and>
    set (info_pairs out) = set (reported r) - recorded m"
  using saveSemaResult_spec [OF assms] set_fresh_pairs distinct_fresh_pairs by metis

definition sample_report :: SemanticAnalysisJobResult where
  "sample_report = \<lparr>wellBehavedFiles = [\<lparr>fi_path = ''/a.c'', fi_hashValue = 1\<rparr>, \<lparr>fi_path = ''/b.h'', fi_hashValue = 2\<rparr>],
     illBehavedFiles = [\<lparr>fim_path = ''/x.h'', fim_hashValues = [3, 4]\<rparr>]\<rparr>"

lemma sample_report_ok: "sema_result_ok slash_paths sample_report"
  by (simp add: sema_result_ok_def sample_report_def slash_paths_def starts_with_def)

lemma sample_planner_inv: "planner_inv [(''/b.h'', [2])]"
  by (simp add: planner_inv_def)

theorem sema_result_plan_witness:
  "\<exists>m' out. saveSemaResult slash_paths sample_report [(''/b.h'', [2])] = Inr (m', out) \<and>
    set (info_pairs out) = {(''/x.h'', 3), (''/x.h'', 4), (''/a.c'', 1)}"
proof -
  have "set (reported sample_report) - recorded [(''/b.h'', [2])] = {(''/x.h'', 3), (''/x.h'', 4), (''/a.c'', 1)}"
    by (auto simp: sample_report_def reported_def multi_pairs_def info_pairs_def recorded_def)
  with sema_result_plan [OF sample_planner_inv sample_report_ok] show ?thesis by metis
qed

text \<open>
  C6: A whole run. Over any sequence of reports that starts with an empty planner no pair of a
  path and a hash is handed out twice, and every pair that any worker reported is handed out.
\<close>

theorem every_file_indexed_once:
  assumes "\<forall>r \<in> set rs. sema_result_ok L r"
  shows "\<exists>m outs. save_all (saveSemaResult L) rs [] = Inr (m, outs) \<and>
    distinct (concat (map info_pairs outs)) \<and>
    set (concat (map info_pairs outs)) = (\<Union>r \<in> set rs. set (reported r))"
  using planner.handed_once [OF planner_inv_empty assms] unfolding recorded_empty by auto

theorem every_file_indexed_once_witness:
  "\<exists>m outs. save_all (saveSemaResult slash_paths) [sample_report, sample_report] [] = Inr (m, outs) \<and>
    distinct (concat (map info_pairs outs)) \<and> (''/a.c'', 1) \<in> set (concat (map info_pairs outs))"
proof -
  have "(''/a.c'', 1) \<in> set (reported sample_report)"
    by (simp add: sample_report_def reported_def info_pairs_def)
  moreover have "\<forall>r \<in> set [sample_report, sample_report]. sema_result_ok slash_paths r"
    using sample_report_ok by simp
  note every_file_indexed_once [OF this]
  moreover have "(\<Union>r \<in> set [sample_report, sample_report]. set (reported r)) = set (reported sample_report)" by simp
  ultimately show ?thesis by metis
qed

text \<open>
  After such a run the planner knows which files have several contents: a path counts as
  multiply indexed exactly when two different hashes were reported for it, and is unknown
  exactly when nothing was reported.
\<close>

theorem multiply_indexed_iff:
  assumes "\<forall>r \<in> set rs. sema_result_ok L r" "save_all (saveSemaResult L) rs [] = Inr (m, outs)"
    and "makeAbsolute L root rel = Inr p"
  shows "isMultiplyIndexed L root m rel = Inr
    (let n = card (hashes_of p (\<Union>r \<in> set rs. set (reported r)))
     in if n = 0 then MI_Unknown else if n = 1 then MI_False else MI_True)"
proof -
  have m: "planner_inv m" "recorded m = (\<Union>r \<in> set rs. set (reported r))"
    using planner.handed_once [OF planner_inv_empty assms(1)] assms(2) unfolding recorded_empty by auto
  show ?thesis
  proof (cases "map_of m p")
    case None
    then show ?thesis using no_hashes [OF m(1), of p] assms(3) m(2)
      by (simp add: isMultiplyIndexed_def)
  next
    case (Some hs)
    moreover have "hs \<noteq> []" using m(1) Some by (auto simp: planner_inv_def)
    then obtain n where n: "length hs = Suc n" by (cases hs) auto
    then have "card (hashes_of p (recorded m)) = Suc n" using length_hashes [OF m(1) Some] by simp
    ultimately show ?thesis
      using assms(3) n unfolding m(2) [symmetric] by (simp add: isMultiplyIndexed_def Let_def)
  qed
qed

theorem multiply_indexed_iff_witness:
  "\<exists>m outs. save_all (saveSemaResult slash_paths) [sample_report] [] = Inr (m, outs) \<and>
     isMultiplyIndexed slash_paths \<lparr>root_value = ''/'', root_kind = Project\<rparr> m
       \<lparr>rel_value = ''x.h'', rel_kind = Project\<rparr> = Inr MI_True"
proof -
  have ok: "\<forall>r \<in> set [sample_report]. sema_result_ok slash_paths r" using sample_report_ok by simp
  obtain m outs where m: "save_all (saveSemaResult slash_paths) [sample_report] [] = Inr (m, outs)"
    using planner.handed_once [OF planner_inv_empty ok] by blast
  have "makeAbsolute slash_paths \<lparr>root_value = ''/'', root_kind = Project\<rparr>
      \<lparr>rel_value = ''x.h'', rel_kind = Project\<rparr> = Inr ''/x.h''"
    by (simp add: makeAbsolute_def makeAbsoluteAllowKindMismatch_def joinPath_def mkAbsolutePath_def
        tryFrom_def slash_paths_def starts_with_def ends_with_def)
  note t = multiply_indexed_iff [OF ok m this]
  have "hashes_of ''/x.h'' (\<Union>r \<in> set [sample_report]. set (reported r)) = {3, 4}"
    by (auto simp: hashes_of_def sample_report_def reported_def multi_pairs_def info_pairs_def)
  with t m show ?thesis by auto
qed

end
