(* ===== verification/Driver_Options.thy ===== *)
theory Driver_Options
  imports Paths
begin

text \<open>
  Configuration of the driver and of the workers it spawns: \<^verbatim>\<open>DriverOptions\<close> and
  \<^verbatim>\<open>MessageQueues\<close> of indexer/Driver.cc, the options of indexer/CliOptions.h the two use, and
  the argument vector of \<^verbatim>\<open>Driver::spawnWorker\<close>.

  What the code asks the operating system is the record \<open>driver_env\<close>: the working directory,
  the lookup on \<^verbatim>\<open>PATH\<close>, whether a directory can be created, the directory for temporary
  files; the field \<open>regex_valid\<close> is \<^verbatim>\<open>llvm::Regex::isValid\<close>.
\<close>

subsection \<open>Options\<close>

record CliOptions =
  cli_compdbPath :: string
  cli_scipClangExecutablePath :: string
  cli_temporaryOutputDir :: string
  cli_indexOutputPath :: string
  cli_statsFilePath :: string
  cli_packageMapPath :: string
  cli_showCompilerDiagnostics :: bool
  cli_showProgress :: bool
  cli_ipcSizeHintBytes :: nat
  cli_receiveTimeout :: int
  cli_numWorkers :: nat
  cli_logLevel :: string
  cli_deterministic :: bool
  cli_preprocessorRecordHistoryFilterRegex :: string
  cli_supplementaryOutputDir :: string
  cli_originalArgv :: "string list"
  cli_isTesting :: bool
  cli_workerFault :: string
  cli_noStacktrace :: bool

record DriverOptions =
  workerExecutablePath :: string
  projectRootPath :: RootPath
  compdbPath :: string
  indexOutputPath :: string
  statsFilePath :: string
  packageMapPath :: string
  showCompilerDiagnostics :: bool
  showProgress :: bool
  ipcSizeHintBytes :: nat
  receiveTimeout :: int
  numWorkers :: nat
  deterministic :: bool
  preprocessorRecordHistoryFilterRegex :: string
  supplementaryOutputDir :: string
  workerFault :: string
  isTesting :: bool
  noStacktrace :: bool
  temporaryOutputDir :: string
  deleteTemporaryOutputDir :: bool
  originalArgv :: "string list"

record driver_env =
  current_path :: string
  search_path :: "string \<Rightarrow> string"
  create_directories :: "string \<Rightarrow> bool"
  temp_directory_path :: string
  regex_valid :: "string \<Rightarrow> bool"

text \<open>\<^verbatim>\<open>std::filesystem::path::append\<close>\<close>

definition path_append :: "string \<Rightarrow> string \<Rightarrow> string" where
  "path_append p q =
     (if starts_with q [preferred_separator] then q
      else if p = [] \<or> ends_with p [preferred_separator] then p @ q
      else p @ preferred_separator # q)"

text \<open>\<^verbatim>\<open>HeaderFilter\<close>: the text of the anchored regular expression, empty for no filter.\<close>

definition mkHeaderFilter :: "(string \<Rightarrow> bool) \<Rightarrow> string \<Rightarrow> string result" where
  "mkHeaderFilter valid re =
     (if re = [] then Inr []
      else let regexText = ''^('' @ re @ '')$''
           in if valid regexText then Inr regexText else Inl (ExitFailure ''ill-formed regex''))"

definition filter_isIdentity :: "string \<Rightarrow> bool" where
  "filter_isIdentity regexText \<longleftrightarrow> regexText = []"

definition setAbsolutePath :: "llvm_path \<Rightarrow> RootPath \<Rightarrow> string \<Rightarrow> string result" where
  "setAbsolutePath L root path =
     (if path = [] then Inr []
      else if is_absolute L path then mkAbsolutePath L path
      else rbind (mkRootRelativePathRef L path Project) (makeAbsolute L root))"

definition makeDirs :: "driver_env \<Rightarrow> string \<Rightarrow> string \<Rightarrow> unit result" where
  "makeDirs E path name =
     (if create_directories E path then Inr () else Inl (ExitFailure (''failed to create '' @ name)))"

definition resolveExecutable :: "llvm_path \<Rightarrow> driver_env \<Rightarrow> RootPath \<Rightarrow> string \<Rightarrow> string result" where
  "resolveExecutable L E root exe =
     (if find_char preferred_separator exe = None
      then (if search_path E exe = [] then Inl (ExitFailure ''could not find scip-clang on PATH'')
            else mkAbsolutePath L (search_path E exe))
      else setAbsolutePath L root exe)"

definition chooseTemporaryDir :: "driver_env \<Rightarrow> string \<Rightarrow> string \<Rightarrow> string" where
  "chooseTemporaryDir E driverId dir =
     (if dir = []
      then path_append (if temp_directory_path E = [] then ''scip-clang-temporary-output''
                        else temp_directory_path E) (''scip-clang-'' @ driverId)
      else dir)"

definition mkDriverOptions ::
  "llvm_path \<Rightarrow> driver_env \<Rightarrow> string \<Rightarrow> CliOptions \<Rightarrow> DriverOptions result" where
  "mkDriverOptions L E driverId cli =
     enforcing (is_absolute L (current_path E)) ''current_path() returned non-absolute path''
     (rbind (mkAbsolutePath L (current_path E)) (\<lambda>cwd.
      let root = \<lparr>root_value = cwd, root_kind = Project\<rparr> in
      rbind (resolveExecutable L E root (cli_scipClangExecutablePath cli)) (\<lambda>exe.
      rbind (setAbsolutePath L root (cli_indexOutputPath cli)) (\<lambda>out.
      rbind (setAbsolutePath L root (cli_compdbPath cli)) (\<lambda>compdb.
      rbind (setAbsolutePath L root (cli_statsFilePath cli)) (\<lambda>stats.
      rbind (setAbsolutePath L root (cli_packageMapPath cli)) (\<lambda>pkg.
      rbind (mkHeaderFilter (regex_valid E) (cli_preprocessorRecordHistoryFilterRegex cli)) (\<lambda>filter.
      rbind (if \<not> filter_isIdentity filter
             then makeDirs E (cli_supplementaryOutputDir cli) ''supplementary output directory''
             else Inr ()) (\<lambda>_.
      let tmp = chooseTemporaryDir E driverId (cli_temporaryOutputDir cli) in
      rbind (makeDirs E tmp ''temporary output directory'') (\<lambda>_.
        Inr \<lparr>workerExecutablePath = exe, projectRootPath = root, compdbPath = compdb,
             indexOutputPath = out, statsFilePath = stats, packageMapPath = pkg,
             showCompilerDiagnostics = cli_showCompilerDiagnostics cli,
             showProgress = cli_showProgress cli,
             ipcSizeHintBytes = cli_ipcSizeHintBytes cli, receiveTimeout = cli_receiveTimeout cli,
             numWorkers = cli_numWorkers cli, deterministic = cli_deterministic cli,
             preprocessorRecordHistoryFilterRegex = cli_preprocessorRecordHistoryFilterRegex cli,
             supplementaryOutputDir = cli_supplementaryOutputDir cli,
             workerFault = cli_workerFault cli, isTesting = cli_isTesting cli,
             noStacktrace = cli_noStacktrace cli, temporaryOutputDir = tmp,
             deleteTemporaryOutputDir = (cli_temporaryOutputDir cli = []),
             originalArgv = cli_originalArgv cli\<rparr>))))))))))"

text \<open>\<^verbatim>\<open>logLevel\<close> is the name \<^verbatim>\<open>spdlog\<close> gives its current level.\<close>

definition fmt_int :: "int \<Rightarrow> string" where
  "fmt_int n = (if n < 0 then CHR ''-'' # fmt_nat (nat (- n)) else fmt_nat (nat n))"

definition addWorkerOptions ::
  "string \<Rightarrow> DriverOptions \<Rightarrow> WorkerId \<Rightarrow> string list \<Rightarrow> string list result" where
  "addWorkerOptions logLevel opts workerId args =
     enforcing (temporaryOutputDir opts \<noteq> []) ''!temporaryOutputDir.empty()''
     (Inr (args
       @ [''--log-level='' @ logLevel, ''--receive-timeout-seconds='' @ fmt_int (receiveTimeout opts)]
       @ (if deterministic opts then [''--deterministic''] else [])
       @ (if statsFilePath opts \<noteq> [] then [''--measure-statistics''] else [])
       @ (if packageMapPath opts \<noteq> [] then [''--package-map-path='' @ packageMapPath opts] else [])
       @ (if noStacktrace opts then [''--no-stack-trace''] else [])
       @ (if showCompilerDiagnostics opts then [''--show-compiler-diagnostics''] else [])
       @ (if \<not> showProgress opts then [''--no-progress-report''] else [])
       @ (if preprocessorRecordHistoryFilterRegex opts \<noteq> []
          then [''--preprocessor-record-history-filter='' @ preprocessorRecordHistoryFilterRegex opts,
                ''--preprocessor-history-log-path='' @
                  path_append (supplementaryOutputDir opts)
                    (''preprocessor-history-worker-'' @ fmt_nat workerId @ ''.yaml'')] else [])
       @ (if workerFault opts \<noteq> [] then [''--force-worker-fault='' @ workerFault opts] else [])
       @ [''--temporary-output-dir='' @ temporaryOutputDir opts]))"

definition spawnWorkerArgs :: "string \<Rightarrow> string \<Rightarrow> DriverOptions \<Rightarrow> WorkerId \<Rightarrow> string list result" where
  "spawnWorkerArgs logLevel driverId opts workerId =
     addWorkerOptions logLevel opts workerId
       [workerExecutablePath opts, ''--worker-mode=ipc'', ''--driver-id='' @ driverId,
        ''--worker-id='' @ fmt_nat workerId]"

subsection \<open>Message queues\<close>

text \<open>
  \<open>create\<close> tells whether a queue of the given name can be created. \<open>maxNumWorkers\<close> is the bound
  \<^verbatim>\<open>numWorkersUpperBound\<close> derives, in floating point, from the space in \<^verbatim>\<open>/dev/shm\<close>.
  The queues that exist when creation stops with an exception are kept.
\<close>

record MessageQueues =
  driverToWorker :: "string list"
  workerToDriver :: string

definition mkMessageQueues ::
  "(string \<Rightarrow> bool) \<Rightarrow> string \<Rightarrow> nat \<Rightarrow> nat \<Rightarrow> MessageQueues result" where
  "mkMessageQueues create driverId maxNumWorkers numWorkersHint =
     enforcing (maxNumWorkers > 0) ''maxNumWorkers > 0''
     (let n = min maxNumWorkers numWorkersHint;
          w2d = workerToDriverQueueName driverId;
          d2w = (if create w2d
                 then takeWhile create (map (driverToWorkerQueueName driverId) [0..<n]) else []);
          failed = (\<not> create w2d \<or> length d2w < n)
      in if failed \<and> d2w = [] then Inl (ExitFailure ''failed to create IPC queues'')
         else Inr \<lparr>driverToWorker = d2w, workerToDriver = w2d\<rparr>)"

definition initDriverQueues ::
  "(string \<Rightarrow> bool) \<Rightarrow> string \<Rightarrow> nat \<Rightarrow> DriverOptions \<Rightarrow> (MessageQueues \<times> DriverOptions) result" where
  "initDriverQueues create driverId maxNumWorkers opts =
     rbind (mkMessageQueues create driverId maxNumWorkers (numWorkers opts)) (\<lambda>queues.
       let numSendQueues = length (driverToWorker queues)
       in enforcing (numSendQueues > 0) ''numSendQueues > 0''
          (enforcing (numSendQueues \<le> numWorkers opts) ''numSendQueues <= options.numWorkers''
            (Inr (queues, opts\<lparr>numWorkers := numSendQueues\<rparr>))))"

text \<open>The number of workers is cut down to the number of jobs before they are spawned.\<close>

definition limitWorkers :: "nat \<Rightarrow> DriverOptions \<Rightarrow> DriverOptions" where
  "limitWorkers compdbCommandCount opts =
     opts\<lparr>numWorkers := min compdbCommandCount (numWorkers opts)\<rparr>"

definition refillCount :: "DriverOptions \<Rightarrow> nat" where
  "refillCount opts = 2 * numWorkers opts"

subsection \<open>Lemmas\<close>

lemma fmt_nat_no_dash: "CHR ''-'' \<notin> set (fmt_nat n)"
  by (rule dash_notin_fmt_nat)

lemma append_dash_cancel:
  assumes "CHR ''-'' \<notin> set a" "CHR ''-'' \<notin> set b"
  shows "a @ CHR ''-'' # s = b @ CHR ''-'' # t \<longleftrightarrow> a = b \<and> s = t"
  using assms
proof (induction a arbitrary: b)
  case Nil
  then show ?case by (cases b) auto
next
  case (Cons x a)
  then show ?case by (cases b) auto
qed

lemma driverToWorkerQueueName_inj:
  "driverToWorkerQueueName d v = driverToWorkerQueueName d w \<longleftrightarrow> v = w"
  using append_dash_cancel [OF fmt_nat_no_dash [of v] fmt_nat_no_dash [of w], of "''recv''" "''recv''"]
  by (auto simp: driverToWorkerQueueName_def)

lemma queueNames_differ: "driverToWorkerQueueName d v \<noteq> workerToDriverQueueName d"
proof
  assume "driverToWorkerQueueName d v = workerToDriverQueueName d"
  then have "fmt_nat v @ ''-recv'' = ''send''"
    by (simp add: driverToWorkerQueueName_def workerToDriverQueueName_def)
  moreover have "CHR ''-'' \<in> set (fmt_nat v @ ''-recv'')" by simp
  ultimately show False by simp
qed

lemma mkAbsolutePath_Inr: "mkAbsolutePath L p = Inr q \<longleftrightarrow> q = p \<and> is_absolute L p"
  by (auto simp: mkAbsolutePath_def tryFrom_def result_simps)

lemma setAbsolutePath_Inr: "setAbsolutePath L root p = Inr q \<Longrightarrow> q = [] \<or> is_absolute L q"
  by (auto simp: setAbsolutePath_def mkAbsolutePath_Inr makeAbsolute_def
      makeAbsoluteAllowKindMismatch_def result_simps split: if_splits)

lemma takeWhile_map_upt_length: "length (takeWhile P (map f [0..<n])) \<le> n"
  using length_takeWhile_le [of P "map f [0..<n]"] by simp

subsection \<open>Properties\<close>

text \<open>
  The message queues. No two queues of one driver have the same name. The driver uses at
  least one and at most the requested number of workers, exactly one per queue that could be
  created, and gives up when not even the first queue for a worker can be created.
\<close>

theorem queue_setup:
  assumes "maxNumWorkers > 0" "numWorkers opts > 0"
  shows "(\<forall>v w. driverToWorkerQueueName driverId v = driverToWorkerQueueName driverId w \<longrightarrow> v = w) \<and>
    (\<forall>v. driverToWorkerQueueName driverId v \<noteq> workerToDriverQueueName driverId) \<and>
    (case initDriverQueues create driverId maxNumWorkers opts of
       Inr (queues, opts') \<Rightarrow>
         distinct (workerToDriver queues # driverToWorker queues) \<and>
         0 < numWorkers opts' \<and> numWorkers opts' \<le> min maxNumWorkers (numWorkers opts) \<and>
         numWorkers opts' = length (driverToWorker queues) \<and>
         (\<forall>q \<in> set (workerToDriver queues # driverToWorker queues). create q)
     | Inl e \<Rightarrow> \<not> create (workerToDriverQueueName driverId) \<or> \<not> create (driverToWorkerQueueName driverId 0))"
proof -
  let ?n = "min maxNumWorkers (numWorkers opts)" and ?w = "workerToDriverQueueName driverId"
  let ?names = "map (driverToWorkerQueueName driverId) [0..<?n]"
  define d2w where "d2w = (if create ?w then takeWhile create ?names else [])"
  have len: "length d2w \<le> ?n" unfolding d2w_def using takeWhile_map_upt_length [of create _ ?n] by (simp del: min.bounded_iff)
  have sub: "set d2w \<subseteq> set ?names" unfolding d2w_def using set_takeWhileD by force
  have dist: "distinct d2w"
    unfolding d2w_def by (simp add: distinct_takeWhile distinct_map inj_on_def driverToWorkerQueueName_inj)
  have created: "\<forall>q \<in> set d2w. create q" unfolding d2w_def by (auto dest: set_takeWhileD)
  have zero: "create ?w \<Longrightarrow> create (driverToWorkerQueueName driverId 0) \<Longrightarrow> d2w \<noteq> []"
  proof -
    assume "create ?w" "create (driverToWorkerQueueName driverId 0)"
    moreover have "[0..<?n] = 0 # [1..<?n]" using assms by (simp add: upt_rec)
    ultimately show "d2w \<noteq> []" by (simp add: d2w_def)
  qed
  have mk: "mkMessageQueues create driverId maxNumWorkers (numWorkers opts) =
      (if (\<not> create ?w \<or> length d2w < ?n) \<and> d2w = [] then Inl (ExitFailure ''failed to create IPC queues'')
       else Inr \<lparr>driverToWorker = d2w, workerToDriver = ?w\<rparr>)"
    using assms(1) unfolding mkMessageQueues_def Let_def d2w_def [symmetric] by (simp add: enforcing_def)
  have run: "initDriverQueues create driverId maxNumWorkers opts =
      (if d2w = [] then Inl (ExitFailure ''failed to create IPC queues'')
       else Inr (\<lparr>driverToWorker = d2w, workerToDriver = ?w\<rparr>, opts\<lparr>numWorkers := length d2w\<rparr>))"
  proof (cases "d2w = []")
    case True
    then have "length d2w < ?n" using assms by simp
    with True show ?thesis unfolding initDriverQueues_def mk by simp
  next
    case False
    then have "length d2w > 0" "length d2w \<le> numWorkers opts" using len by auto
    with False show ?thesis unfolding initDriverQueues_def mk by (simp add: Let_def)
  qed
  have "create ?w" if "d2w \<noteq> []" using that by (simp add: d2w_def split: if_splits)
  with run len sub dist created zero show ?thesis
    by (auto simp: driverToWorkerQueueName_inj queueNames_differ queueNames_differ [symmetric] dest!: subsetD)
qed

definition four_workers :: DriverOptions where
  "four_workers = \<lparr>workerExecutablePath = ''/bin/scip-clang'', projectRootPath = \<lparr>root_value = ''/p'', root_kind = Project\<rparr>,
     compdbPath = [], indexOutputPath = [], statsFilePath = [], packageMapPath = [], showCompilerDiagnostics = False,
     showProgress = False, ipcSizeHintBytes = 0, receiveTimeout = 300, numWorkers = 4, deterministic = False,
     preprocessorRecordHistoryFilterRegex = [], supplementaryOutputDir = [], workerFault = [], isTesting = False,
     noStacktrace = False, temporaryOutputDir = ''/t'', deleteTemporaryOutputDir = False, originalArgv = []\<rparr>"

theorem queue_setup_witness:
  "case initDriverQueues (\<lambda>q. True) ''7'' 3 four_workers of
     Inr (queues, opts') \<Rightarrow> distinct (workerToDriver queues # driverToWorker queues) \<and> numWorkers opts' \<le> 3
   | Inl e \<Rightarrow> False"
  using queue_setup [of 3 four_workers "''7''" "\<lambda>q. True"]
  by (auto simp: four_workers_def split: sum.splits)

lemma resolveExecutable_Inr:
  assumes "resolveExecutable L E root exe = Inr q"
  shows "is_absolute L q"
proof (cases "find_char preferred_separator exe")
  case None
  with assms show ?thesis by (auto simp: resolveExecutable_def mkAbsolutePath_Inr split: if_splits)
next
  case (Some i)
  then have "exe \<noteq> []" by auto
  with Some assms show ?thesis
    by (auto simp: resolveExecutable_def setAbsolutePath_def mkAbsolutePath_Inr makeAbsolute_def
        makeAbsoluteAllowKindMismatch_def result_simps split: if_splits)
qed

lemma chooseTemporaryDir_nonempty: "chooseTemporaryDir E driverId dir \<noteq> []"
  by (simp add: chooseTemporaryDir_def path_append_def starts_with_def)

text \<open>
  The driver's options. When the command line is accepted, the project root and the worker
  executable are absolute paths, every other path is absolute or not set, and the temporary
  directory is set, so that the command line of every worker can be built; the directory is
  deleted at the end only if the user did not name it.
\<close>

theorem driver_options_wellformed:
  assumes "mkDriverOptions L E driverId cli = Inr opts"
  shows "is_absolute L (root_value (projectRootPath opts)) \<and> root_kind (projectRootPath opts) = Project \<and>
    is_absolute L (workerExecutablePath opts) \<and>
    (\<forall>p \<in> {compdbPath opts, indexOutputPath opts, statsFilePath opts, packageMapPath opts}. p = [] \<or> is_absolute L p) \<and>
    (\<exists>args. spawnWorkerArgs logLevel driverId opts w = Inr args) \<and>
    (deleteTemporaryOutputDir opts \<longleftrightarrow> cli_temporaryOutputDir cli = [])"
proof -
  from assms obtain cwd exe out compdb stats pkg where
    abs: "mkAbsolutePath L (current_path E) = Inr cwd"
    and exe: "resolveExecutable L E \<lparr>root_value = cwd, root_kind = Project\<rparr> (cli_scipClangExecutablePath cli) = Inr exe"
    and out: "setAbsolutePath L \<lparr>root_value = cwd, root_kind = Project\<rparr> (cli_indexOutputPath cli) = Inr out"
    and compdb: "setAbsolutePath L \<lparr>root_value = cwd, root_kind = Project\<rparr> (cli_compdbPath cli) = Inr compdb"
    and stats: "setAbsolutePath L \<lparr>root_value = cwd, root_kind = Project\<rparr> (cli_statsFilePath cli) = Inr stats"
    and pkg: "setAbsolutePath L \<lparr>root_value = cwd, root_kind = Project\<rparr> (cli_packageMapPath cli) = Inr pkg"
    and opts: "projectRootPath opts = \<lparr>root_value = cwd, root_kind = Project\<rparr>" "workerExecutablePath opts = exe"
      "compdbPath opts = compdb" "indexOutputPath opts = out" "statsFilePath opts = stats" "packageMapPath opts = pkg"
      "temporaryOutputDir opts = chooseTemporaryDir E driverId (cli_temporaryOutputDir cli)"
      "deleteTemporaryOutputDir opts = (cli_temporaryOutputDir cli = [])"
    by (auto simp: mkDriverOptions_def Let_def result_simps)
  have "\<exists>args. spawnWorkerArgs logLevel driverId opts w = Inr args"
    using opts(7) chooseTemporaryDir_nonempty by (simp add: spawnWorkerArgs_def addWorkerOptions_def)
  with opts setAbsolutePath_Inr [OF out] setAbsolutePath_Inr [OF compdb] setAbsolutePath_Inr [OF stats]
    setAbsolutePath_Inr [OF pkg] resolveExecutable_Inr [OF exe] abs show ?thesis
    by (simp add: mkAbsolutePath_Inr)
qed

definition sample_cli :: CliOptions where
  "sample_cli = \<lparr>cli_compdbPath = ''build/cc.json'', cli_scipClangExecutablePath = ''scip-clang'', cli_temporaryOutputDir = [],
     cli_indexOutputPath = ''index.scip'', cli_statsFilePath = [], cli_packageMapPath = [], cli_showCompilerDiagnostics = False,
     cli_showProgress = True, cli_ipcSizeHintBytes = 100, cli_receiveTimeout = 300, cli_numWorkers = 2, cli_logLevel = ''info'',
     cli_deterministic = False, cli_preprocessorRecordHistoryFilterRegex = [], cli_supplementaryOutputDir = [],
     cli_originalArgv = [], cli_isTesting = False, cli_workerFault = [], cli_noStacktrace = False\<rparr>"

definition sample_driver_env :: driver_env where
  "sample_driver_env = \<lparr>current_path = ''/p'', search_path = (\<lambda>x. ''/bin/'' @ x), create_directories = (\<lambda>p. True),
     temp_directory_path = ''/tmp'', regex_valid = (\<lambda>r. True)\<rparr>"

theorem driver_options_wellformed_witness:
  "\<exists>opts args. mkDriverOptions slash_paths sample_driver_env ''9'' sample_cli = Inr opts \<and>
     is_absolute slash_paths (workerExecutablePath opts) \<and> spawnWorkerArgs ''info'' ''9'' opts 0 = Inr args"
proof -
  obtain opts where opts: "mkDriverOptions slash_paths sample_driver_env ''9'' sample_cli = Inr opts"
    by (simp add: mkDriverOptions_def sample_driver_env_def sample_cli_def slash_paths_def starts_with_def
        mkAbsolutePath_def tryFrom_def resolveExecutable_def setAbsolutePath_def mkRootRelativePathRef_def makeAbsolute_def
        makeAbsoluteAllowKindMismatch_def joinPath_def ends_with_def mkHeaderFilter_def filter_isIdentity_def makeDirs_def Let_def)
  from driver_options_wellformed [OF this, of "''info''" 0] opts show ?thesis by blast
qed

end
