(* ===== verification/Driver.thy ===== *)
theory Driver
  imports Scheduler Planner Driver_Options
begin

text \<open>
  The driver process: class \<^verbatim>\<open>Driver\<close> of indexer/Driver.cc with the main loop of
  \<^verbatim>\<open>Scheduler::runJobsTillCompletionAndShutdownWorkers\<close>. The parser of the compilation
  database is the parameter \<open>parseMore\<close> on a parser state (theory \<open>Compilation_Database\<close> supplies it);
  whether a queue takes a message, the clock and the processes spawned are arguments.

  The whole run is the step relation \<open>driver_step\<close>: the driver moves through the phases of
  its loop while workers put responses into the queue, time passes, and messages get lost.
\<close>

subsection \<open>State and operations\<close>

record 'p Driver =
  options :: DriverOptions
  scheduler :: Scheduler
  planner :: FileIndexingPlanner
  allStatistics :: "(JobId \<times> 64 word) list"
  allShardPaths :: "ShardPaths list"
  indexedSoFar :: "32 word"
  compdbParser :: 'p

type_synonym send_fun = "WorkerId \<Rightarrow> IndexJobRequest \<Rightarrow> bool"

definition spawnWorkers :: "(WorkerId \<Rightarrow> Process) \<Rightarrow> 'p Driver \<Rightarrow> 'p Driver result" where
  "spawnWorkers spawn d =
     rbind (initializeWorkers (numWorkers (options d)) spawn (scheduler d)) (\<lambda>s.
       Inr (d\<lparr>scheduler := s\<rparr>))"

definition refillJobs ::
  "('p \<Rightarrow> (CommandObject list \<times> 'p) result) \<Rightarrow> 'p Driver \<Rightarrow> (nat \<times> 'p Driver) result" where
  "refillJobs parseMore d =
     rbind (parseMore (compdbParser d)) (\<lambda>(commands, p).
     rbind (rfold queueSemaTask commands (scheduler d)) (\<lambda>s.
       Inr (length commands, d\<lparr>scheduler := s, compdbParser := p\<rparr>)))"

text \<open>
  The start of the run: the first refill has to give at least one job.
\<close>

definition beginRun ::
  "('p \<Rightarrow> (CommandObject list \<times> 'p) result) \<Rightarrow> 'p Driver \<Rightarrow> (nat \<times> 'p Driver) result" where
  "beginRun parseMore d =
     rbind (checkInvariants (scheduler d)) (\<lambda>_.
     rbind (refillJobs parseMore d) (\<lambda>(lastCount, d1).
       if lastCount = 0
       then Inl (ExitFailure ''compilation database has no entries that could be processed'')
       else enforcing (length (pendingJobs (scheduler d1)) = lastCount)
              ''pendingJobs.size() == refillCount'' (Inr (lastCount, d1))))"

text \<open>
  One pass through the loop up to the wait for results. The result carries no refill count
  when the loop is left.
\<close>

definition refillIfNeeded ::
  "('p \<Rightarrow> (CommandObject list \<times> 'p) result) \<Rightarrow> nat \<Rightarrow> 'p Driver \<Rightarrow> (nat \<times> 'p Driver) result" where
  "refillIfNeeded parseMore lastCount d =
     (if pendingJobs (scheduler d) = [] \<and> lastCount \<noteq> 0
      then rbind (refillJobs parseMore d) (\<lambda>(n, d1).
             enforcing (n = length (pendingJobs (scheduler d1))) ''refillCount == pendingJobs.size()''
               (Inr (n, d1)))
      else Inr (lastCount, d))"

definition useIdleWorkers ::
  "send_fun \<Rightarrow> (WorkerId \<Rightarrow> bool) \<Rightarrow> (JobId \<Rightarrow> Instant) \<Rightarrow> Scheduler \<Rightarrow> Scheduler result" where
  "useIdleWorkers send sendShutdown now s =
     (if idleWorkers s \<noteq> []
      then (if pendingJobs s = [] then shutdownIdleWorkers sendShutdown s
            else assignJobsToIdleWorkers send now s)
      else Inr s)"

definition loopTop ::
  "('p \<Rightarrow> (CommandObject list \<times> 'p) result) \<Rightarrow> send_fun \<Rightarrow> (WorkerId \<Rightarrow> bool) \<Rightarrow> (JobId \<Rightarrow> Instant) \<Rightarrow>
   nat \<Rightarrow> 'p Driver \<Rightarrow> (nat option \<times> 'p Driver) result" where
  "loopTop parseMore send sendShutdown now lastCount d =
     rbind (checkInvariants (scheduler d)) (\<lambda>s.
       if pendingJobs s = [] \<and> wipJobs s = {}
       then rbind (shutdownIdleWorkers sendShutdown s) (\<lambda>s1. Inr (None, d\<lparr>scheduler := s1\<rparr>))
       else rbind (refillIfNeeded parseMore lastCount d) (\<lambda>(n, d1).
            rbind (useIdleWorkers send sendShutdown now (scheduler d1)) (\<lambda>s2.
              enforcing (wipJobs s2 \<noteq> {}) ''!wipJobs.empty()''
                (Inr (Some n, d1\<lparr>scheduler := s2\<rparr>)))))"

definition endRun :: "'p Driver \<Rightarrow> 'p Driver result" where
  "endRun d =
     rbind (checkInvariants (scheduler d)) (\<lambda>s.
       enforcing (length (idleWorkers s) = 0) ''idleWorkers.size() == 0''
       (enforcing (length (stoppedWorkers s) = length (workers s))
          ''all workers should be stopped after jobs have been completed'' (Inr d)))"

text \<open>
  The two kinds of responses. When the request for the second half of a job cannot be sent,
  the code first takes the job back and then terminates the worker.
\<close>

definition handleSemaResult ::
  "llvm_path \<Rightarrow> send_fun \<Rightarrow> Instant \<Rightarrow> Process \<Rightarrow> WorkerId \<Rightarrow> JobId \<Rightarrow> SemanticAnalysisJobResult \<Rightarrow>
   'p Driver \<Rightarrow> 'p Driver result" where
  "handleSemaResult L send now newHandle workerId jobId semaResult d =
     rbind (saveSemaResult L semaResult (planner d)) (\<lambda>(pl, filesToBeIndexed).
     rbind (createSubtaskAndScheduleOnWorker now workerId jobId
              \<lparr>job_kind = EmitIndex, job_command = default_CommandObject,
               job_filesToBeIndexed = filesToBeIndexed\<rparr> (scheduler d)) (\<lambda>(newRequest, s1).
       if send workerId newRequest then Inr (d\<lparr>planner := pl, scheduler := s1\<rparr>)
       else rbind (descheduleJobDueToSendError workerId (req_id newRequest) s1) (\<lambda>s2.
            rbind (terminateRunningWorker workerId newHandle s2) (\<lambda>s3.
              Inr (d\<lparr>planner := pl, scheduler := s3\<rparr>)))))"

definition handleEmitResult :: "JobId \<Rightarrow> EmitIndexJobResult \<Rightarrow> 'p Driver \<Rightarrow> 'p Driver result" where
  "handleEmitResult jobId result d =
     (let d1 = (if statsFilePath (options d) \<noteq> []
                then d\<lparr>allStatistics := allStatistics d @ [(jobId, totalTimeMicros result)]\<rparr> else d);
          d2 = d1\<lparr>allShardPaths := allShardPaths d1 @ [shardPaths result],
                  indexedSoFar := indexedSoFar d1 + 1\<rparr>
      in if showProgress (options d)
         then rbind (getTuPath (scheduler d2) (newTask (taskId jobId))) (\<lambda>_. Inr d2)
         else Inr d2)"

definition processWorkerResponse ::
  "llvm_path \<Rightarrow> send_fun \<Rightarrow> Instant \<Rightarrow> Process \<Rightarrow> IndexJobResponse \<Rightarrow> 'p Driver \<Rightarrow> 'p Driver result" where
  "processWorkerResponse L send now newHandle response d =
     rbind (markCompleted (unat (rsp_workerId response)) (rsp_jobId response)
              (res_kind (rsp_result response)) (scheduler d)) (\<lambda>(latestIdle, s1).
       case latestIdle of
         None \<Rightarrow> Inr (d\<lparr>scheduler := s1\<rparr>)
       | Some workerId \<Rightarrow>
           (case res_kind (rsp_result response) of
              SemanticAnalysis \<Rightarrow>
                handleSemaResult L send now newHandle workerId (rsp_jobId response)
                  (res_semanticAnalysis (rsp_result response)) (d\<lparr>scheduler := s1\<rparr>)
            | EmitIndex \<Rightarrow>
                handleEmitResult (rsp_jobId response) (res_emitIndex (rsp_result response))
                  (d\<lparr>scheduler := s1\<rparr>)))"

text \<open>The end of \<^verbatim>\<open>processOneOrMoreJobResults\<close>: workers over their time are replaced.\<close>

definition finishRound ::
  "Instant \<Rightarrow> (WorkerId \<Rightarrow> Process) \<Rightarrow> 'p Driver \<Rightarrow> 'p Driver result" where
  "finishRound now respawn d =
     rbind (terminateLongRunningWorkersAndRespawn (now - receiveTimeout (options d)) respawn
              (scheduler d)) (\<lambda>s. Inr (d\<lparr>scheduler := s\<rparr>))"

text \<open>
  What the wait for results gives: a timeout, a message that cannot be decoded, or one
  response and those that are read after it without waiting.
\<close>

datatype receive_outcome =
    TimeoutError | MalformedMessage | Responses "(Instant \<times> Process \<times> IndexJobResponse) list"

definition processOneOrMoreJobResults ::
  "llvm_path \<Rightarrow> send_fun \<Rightarrow> receive_outcome \<Rightarrow> Instant \<Rightarrow> (WorkerId \<Rightarrow> Process) \<Rightarrow>
   'p Driver \<Rightarrow> 'p Driver result" where
  "processOneOrMoreJobResults L send outcome now respawn d =
     rbind (case outcome of
              TimeoutError \<Rightarrow> Inr d
            | MalformedMessage \<Rightarrow> Inr d
            | Responses rs \<Rightarrow>
                rfold (\<lambda>(t, p, response). processWorkerResponse L send t p response) rs d)
       (finishRound now respawn)"

definition emitStatsFile :: "'p Driver \<Rightarrow> (string \<times> 64 word) list option result" where
  "emitStatsFile d =
     (if statsFilePath (options d) = [] then Inr None
      else rbind (rfold (\<lambda>(jobId, stats) out.
             rbind (getTuPath (scheduler d) (newTask (taskId jobId))) (\<lambda>path.
               Inr (out @ [(taskId jobId, path, stats)]))) (allStatistics d) []) (\<lambda>perJobStats.
             Inr (Some (map snd (c_sort (\<lambda>p1 p2. fst p1 < fst p2) perJobStats)))))"

subsection \<open>The run as a step relation\<close>

text \<open>
  A configuration has the phase of the loop, the last refill count, the driver, and the
  contents of the queue from the workers. \<open>completed\<close> and \<open>lost\<close> are history variables: the
  jobs whose shards were recorded, and the jobs whose response came after their worker had
  been terminated, so that it was thrown away.
\<close>

datatype phase = AtTop | Waiting | Draining

record 'p config =
  cfg_phase :: phase
  cfg_refill :: nat
  cfg_driver :: "'p Driver"
  cfg_queue :: "IndexJobResponse list"
  completed :: "JobId set"
  lost :: "JobId set"

datatype 'p outcome = Running "'p config" | Finished "'p config" | Aborted failure

text \<open>A worker answers the job it has been given, once, with a result of the kind of the job.\<close>

definition worker_reply :: "llvm_path \<Rightarrow> 'p config \<Rightarrow> IndexJobResponse \<Rightarrow> bool" where
  "worker_reply L c rsp \<longleftrightarrow>
     (let s = scheduler (cfg_driver c); w = unat (rsp_workerId rsp); j = rsp_jobId rsp
      in w < length (workers s) \<and> cur s w = Some j \<and>
         j \<notin> set (map rsp_jobId (cfg_queue c)) \<and>
         (case allJobList s j of None \<Rightarrow> False
          | Some t \<Rightarrow> job_kind (tj_job t) = res_kind (rsp_result rsp)) \<and>
         sema_result_ok L (res_semanticAnalysis (rsp_result rsp)))"

definition note_response :: "IndexJobResponse \<Rightarrow> 'p config \<Rightarrow> 'p config" where
  "note_response rsp c =
     (let s = scheduler (cfg_driver c); w = unat (rsp_workerId rsp); j = rsp_jobId rsp
      in if cur s w \<noteq> Some j then c\<lparr>lost := insert j (lost c)\<rparr>
         else if res_kind (rsp_result rsp) = EmitIndex then c\<lparr>completed := insert j (completed c)\<rparr>
         else c)"

fun outcome_of :: "('a \<Rightarrow> 'p outcome) \<Rightarrow> 'a result \<Rightarrow> 'p outcome" where
  "outcome_of k (Inl e) = Aborted e"
| "outcome_of k (Inr x) = k x"

definition after_top :: "'p config \<Rightarrow> nat option \<times> 'p Driver \<Rightarrow> 'p outcome" where
  "after_top c r =
     (case r of
        (None, d) \<Rightarrow> outcome_of (\<lambda>d. Finished (c\<lparr>cfg_driver := d\<rparr>)) (endRun d)
      | (Some n, d) \<Rightarrow> Running (c\<lparr>cfg_phase := Waiting, cfg_refill := n, cfg_driver := d\<rparr>))"

text \<open>
  \<open>sends\<close> restricts how the queues behave: which messages to workers are taken, and whether
  messages from workers may be garbled. A message that cannot be decoded is skipped when it is
  the one the driver waits for; those that are read after it without waiting
  (\<^verbatim>\<open>JsonIpcQueue::tryReceiveInstant\<close>) have to be decodable.
\<close>

inductive driver_step ::
  "('p \<Rightarrow> (CommandObject list \<times> 'p) result) \<Rightarrow> llvm_path \<Rightarrow> (send_fun \<Rightarrow> (WorkerId \<Rightarrow> bool) \<Rightarrow> bool \<Rightarrow> bool) \<Rightarrow>
   'p config \<Rightarrow> 'p outcome \<Rightarrow> bool"
  for parseMore L sends
where
  top: "cfg_phase c = AtTop \<Longrightarrow> sends send sd garbled \<Longrightarrow>
    driver_step parseMore L sends c
      (outcome_of (after_top c) (loopTop parseMore send sd now (cfg_refill c) (cfg_driver c)))"
| reply: "worker_reply L c rsp \<Longrightarrow>
    driver_step parseMore L sends c (Running (c\<lparr>cfg_queue := cfg_queue c @ [rsp]\<rparr>))"
| receive: "cfg_phase c \<in> {Waiting, Draining} \<Longrightarrow> sends send sd garbled \<Longrightarrow> cfg_queue c = rsp # q \<Longrightarrow>
    driver_step parseMore L sends c
      (outcome_of (\<lambda>d. Running ((note_response rsp c)\<lparr>cfg_phase := Draining, cfg_driver := d, cfg_queue := q\<rparr>))
         (processWorkerResponse L send now newHandle rsp (cfg_driver c)))"
| timeout: "cfg_phase c = Waiting \<Longrightarrow>
    driver_step parseMore L sends c
      (outcome_of (\<lambda>d. Running (c\<lparr>cfg_phase := AtTop, cfg_driver := d\<rparr>))
         (finishRound now respawn (cfg_driver c)))"
| malformed: "cfg_phase c = Waiting \<Longrightarrow> cfg_queue c = rsp # q \<Longrightarrow>
    driver_step parseMore L sends c
      (outcome_of (\<lambda>d. Running (c\<lparr>cfg_queue := q, cfg_phase := AtTop, cfg_driver := d\<rparr>))
         (finishRound now respawn (cfg_driver c)))"
| malformed_drain: "cfg_phase c = Draining \<Longrightarrow> sends send sd True \<Longrightarrow> cfg_queue c = rsp # q \<Longrightarrow>
    driver_step parseMore L sends c (Aborted (EnforceFailed ''!recvError''))"
| drained: "cfg_phase c = Draining \<Longrightarrow> cfg_queue c = [] \<Longrightarrow>
    driver_step parseMore L sends c
      (outcome_of (\<lambda>d. Running (c\<lparr>cfg_phase := AtTop, cfg_driver := d\<rparr>))
         (finishRound now respawn (cfg_driver c)))"

text \<open>The configurations and outcomes of a run that starts with \<open>c0\<close>.\<close>

inductive driver_reaches ::
  "('p \<Rightarrow> (CommandObject list \<times> 'p) result) \<Rightarrow> llvm_path \<Rightarrow> (send_fun \<Rightarrow> (WorkerId \<Rightarrow> bool) \<Rightarrow> bool \<Rightarrow> bool) \<Rightarrow>
   'p config \<Rightarrow> 'p outcome \<Rightarrow> bool"
  for parseMore L sends c0
where
  reach_init: "driver_reaches parseMore L sends c0 (Running c0)"
| reach_step: "driver_reaches parseMore L sends c0 (Running c) \<Longrightarrow> driver_step parseMore L sends c oc \<Longrightarrow>
    driver_reaches parseMore L sends c0 oc"

definition reliable :: "send_fun \<Rightarrow> (WorkerId \<Rightarrow> bool) \<Rightarrow> bool \<Rightarrow> bool" where
  "reliable send sd garbled \<longleftrightarrow> (\<forall>w r. send w r) \<and> (\<forall>w. sd w) \<and> \<not> garbled"

text \<open>The configuration in which the loop starts, for a driver that has spawned its workers.\<close>

definition initial_driver :: "DriverOptions \<Rightarrow> 'p \<Rightarrow> 'p Driver" where
  "initial_driver opts p = \<lparr>options = opts, scheduler = empty_scheduler, planner = [],
     allStatistics = [], allShardPaths = [], indexedSoFar = 0, compdbParser = p\<rparr>"

definition start_config ::
  "('p \<Rightarrow> (CommandObject list \<times> 'p) result) \<Rightarrow> DriverOptions \<Rightarrow> (WorkerId \<Rightarrow> Process) \<Rightarrow> 'p \<Rightarrow> 'p config result" where
  "start_config parseMore opts spawn p =
     rbind (spawnWorkers spawn (initial_driver opts p)) (\<lambda>d.
     rbind (beginRun parseMore d) (\<lambda>(n, d1).
       Inr \<lparr>cfg_phase = AtTop, cfg_refill = n, cfg_driver = d1, cfg_queue = [],
            completed = {}, lost = {}\<rparr>))"

inductive_cases driver_step_cases: "driver_step parseMore L sends c oc"

end
