(* ===== verification/Driver_Run.thy ===== *)
theory Driver_Run
  imports Driver
begin

text \<open>
  What holds along every run of the driver: no check of the driver fails while the queues to
  the workers take every message, and every translation unit that was queued is accounted
  for. The contract between the driver and the parser of the compilation database is the
  locale \<open>command_source\<close>; the lemmas about runs are proved inside it.
\<close>

subsection \<open>Steps of the scheduler that lose no job\<close>

definition jobs_of :: "Scheduler \<Rightarrow> JobId set" where
  "jobs_of s = set (pendingJobs s) \<union> wipJobs s \<union> maybeErroredJobs s"

definition conserves :: "Scheduler \<Rightarrow> Scheduler \<Rightarrow> bool" where
  "conserves s s' \<longleftrightarrow>
     jobs_of s' = jobs_of s \<and>
     wipJobs s \<union> maybeErroredJobs s \<subseteq> wipJobs s' \<union> maybeErroredJobs s' \<and>
     dom (allJobList s') = dom (allJobList s) \<and>
     (\<forall>j t. allJobList s j = Some t \<and> assignedWorker t \<noteq> None \<longrightarrow> allJobList s' j = Some t) \<and>
     length (workers s') = length (workers s)"

lemma conserves_refl: "conserves s s"
  by (simp add: conserves_def)

lemma conserves_trans: "conserves s s' \<Longrightarrow> conserves s' s'' \<Longrightarrow> conserves s s''"
  unfolding conserves_def by (elim conjE, intro conjI) (blast | simp)+

lemma handed_over_conserves:
  assumes "sched_inv s" "w < length (workers s)" "pendingJobs s = j # js"
    and t: "allJobList s j = Some t" "assignedWorker t = None"
  shows "conserves s (handed_over now w j t s)"
  using assms by (auto simp: conserves_def jobs_of_def handed_over_def set_worker_def)

lemma terminateIfLongRunning_conserves:
  assumes "sched_inv s" "w < length (workers s)"
  shows "\<exists>s'. terminateIfLongRunning t respawn w s = Inr s' \<and> sched_inv s' \<and> conserves s s' \<and>
    pendingJobs s' = pendingJobs s \<and> stoppedWorkers s' = stoppedWorkers s"
proof (cases "status (workers s ! w) = Busy \<and> startTime (workers s ! w) < t")
  case True
  then obtain j where j: "cur s w = Some j" using busy_iff [OF assms] by auto
  then have "j \<in> wipJobs s" using wip_iff [OF assms(1)] assms(2) by auto
  moreover obtain s' where s': "terminateRunningWorker w (respawn w) s = Inr s'" "sched_inv s'"
      "wipJobs s' = wipJobs s - {j}" "maybeErroredJobs s' = insert j (maybeErroredJobs s)"
      "pendingJobs s' = pendingJobs s" "length (workers s') = length (workers s)"
      "allJobList s' = allJobList s"
    using terminateRunningWorker_inv [OF assms j] by blast
  moreover have "stoppedWorkers s' = stoppedWorkers s"
    using s'(1) by (auto simp: terminateRunningWorker_def Let_def checkInvariants_def set_worker_def
        get_worker_def result_simps split: if_splits)
  ultimately have "conserves s s'" "stoppedWorkers s' = stoppedWorkers s"
    by (auto simp: conserves_def jobs_of_def)
  with s' True assms(2) show ?thesis by (auto simp: terminateIfLongRunning_def get_worker_def)
next
  case False
  with assms show ?thesis
    by (auto simp: terminateIfLongRunning_def get_worker_def conserves_refl split: WorkerStatus.splits)
qed

lemma terminateLongRunning_conserves:
  assumes "sched_inv s"
  shows "\<exists>s'. terminateLongRunningWorkersAndRespawn t respawn s = Inr s' \<and> sched_inv s' \<and>
    conserves s s' \<and> pendingJobs s' = pendingJobs s \<and> stoppedWorkers s' = stoppedWorkers s"
proof -
  let ?P = "\<lambda>s'. sched_inv s' \<and> conserves s s' \<and> pendingJobs s' = pendingJobs s \<and>
    stoppedWorkers s' = stoppedWorkers s"
  have "\<exists>s'. rfold (terminateIfLongRunning t respawn) [0..<length (workers s)] s = Inr s' \<and> ?P s'"
  proof (rule rfold_invariant)
    show "?P s" using assms by (simp add: conserves_refl)
    fix x s1 assume x: "x \<in> set [0..<length (workers s)]" and P: "?P s1"
    then have "x < length (workers s1)" by (simp add: conserves_def)
    with P terminateIfLongRunning_conserves [of s1 x t respawn] conserves_trans [of s s1]
    show "\<exists>s'. terminateIfLongRunning t respawn x s1 = Inr s' \<and> ?P s'" by auto
  qed
  then show ?thesis using assms by (simp add: terminateLongRunningWorkersAndRespawn_def)
qed

lemma assignNextJob_conserves:
  assumes inv: "sched_inv s" and "idleWorkers s \<noteq> []" "pendingJobs s \<noteq> []" and "\<And>w r. send w r"
  shows "\<exists>s'. assignNextJob send now s = Inr s' \<and> sched_inv s' \<and> conserves s s' \<and>
    wipJobs s' \<noteq> {} \<and> wipJobs s \<subseteq> wipJobs s' \<and> stoppedWorkers s' = stoppedWorkers s"
proof -
  obtain w ws j js where wj: "idleWorkers s = w # ws" "pendingJobs s = j # js"
    using assms(2,3) by (meson neq_Nil_conv)
  then obtain t where t: "allJobList s j = Some t" "assignedWorker t = None"
    using pending_tracked [OF inv, of j] by (auto simp: tracked_def)
  have w: "w < length (workers s)" using wj idle_iff [OF inv, of w] by simp
  show ?thesis
    using assignNextJob_eq(1) [OF inv wj t(1), of send now] assignNextJob_eq(2) [OF inv wj t(1), of now]
      handed_over_conserves [OF inv w wj(2) t, of "now j"] assms(4)
    by (auto simp: Let_def handed_over_def set_worker_def)
qed

lemma assignLoop_conserves:
  assumes "sched_inv s" and "\<And>w r. send w r"
  shows "\<exists>s'. assignLoop send now s = Inr s' \<and> sched_inv s' \<and> conserves s s' \<and>
    wipJobs s \<subseteq> wipJobs s' \<and> stoppedWorkers s' = stoppedWorkers s \<and>
    (idleWorkers s \<noteq> [] \<and> pendingJobs s \<noteq> [] \<longrightarrow> wipJobs s' \<noteq> {})"
  using assms
proof (induction send now s rule: assignLoop.induct)
  case (1 send now s)
  show ?case
  proof (cases "idleWorkers s \<noteq> [] \<and> pendingJobs s \<noteq> []")
    case True
    then obtain s1 where s1: "assignNextJob send now s = Inr s1" "sched_inv s1" "conserves s s1"
        "wipJobs s1 \<noteq> {}" "wipJobs s \<subseteq> wipJobs s1" "stoppedWorkers s1 = stoppedWorkers s"
      using assignNextJob_conserves [OF "1.prems"(1), of send now] "1.prems"(2) by blast
    from "1.IH" [OF True s1(1,2) "1.prems"(2)] obtain s2 where
      "assignLoop send now s1 = Inr s2" "sched_inv s2" "conserves s1 s2" "wipJobs s1 \<subseteq> wipJobs s2"
      "stoppedWorkers s2 = stoppedWorkers s1"
      by blast
    with s1 True conserves_trans [OF s1(3)] show ?thesis
      by (auto simp: assignLoop.simps [of send now s])
  next
    case False
    with "1.prems"(1) show ?thesis by (auto simp: assignLoop.simps [of send now s] conserves_refl)
  qed
qed

lemma shutdownIdle_conserves:
  assumes "sched_inv s" and "\<And>w. sd w"
  shows "\<exists>s'. shutdownIdleWorkers sd s = Inr s' \<and> sched_inv s' \<and> conserves s s' \<and>
    idleWorkers s' = [] \<and> wipJobs s' = wipJobs s \<and> pendingJobs s' = pendingJobs s"
proof -
  have *: "shutdownIdleWorkers sd s = Inr s' \<Longrightarrow>
      allJobList s' = allJobList s \<and> maybeErroredJobs s' = maybeErroredJobs s" for s'
  proof (induction sd s rule: shutdownIdleWorkers.induct)
    case (1 sd s)
    show ?case
    proof (cases "idleWorkers s = []")
      case True
      with "1.prems" show ?thesis by (simp add: shutdownIdleWorkers.simps [of sd s])
    next
      case False
      with "1.prems"(1) obtain s1 where s1: "shutdownLastIdle sd s = Inr s1"
          "shutdownIdleWorkers sd s1 = Inr s'"
        by (auto simp: shutdownIdleWorkers.simps [of sd s] result_simps)
      then have "allJobList s1 = allJobList s" "maybeErroredJobs s1 = maybeErroredJobs s"
        by (auto simp: shutdownLastIdle_def shutdownWorker_def Let_def markWorkerStopped_def
            get_worker_def set_worker_def result_simps split: if_splits)
      with "1.IH" [OF False s1(1,2)] show ?thesis by simp
    qed
  qed
  from shutdownIdleWorkers_inv [of s sd] assms obtain s' where
    s': "shutdownIdleWorkers sd s = Inr s'" "sched_inv s'" "idleWorkers s' = []"
    "wipJobs s' = wipJobs s" "pendingJobs s' = pendingJobs s" "length (workers s') = length (workers s)"
    by blast
  with * [OF s'(1)] show ?thesis by (auto simp: conserves_def jobs_of_def)
qed

text \<open>Queueing the commands of one refill.\<close>

definition task_of :: "CommandObject \<Rightarrow> JobId" where
  "task_of cmd = newTask (word_of_nat (index cmd))"

lemma queueSemaTask_eq:
  assumes "allJobList s (task_of cmd) = None"
  shows "queueSemaTask cmd s = Inr (s\<lparr>allJobList := (allJobList s)(task_of cmd \<mapsto>
      \<lparr>tj_job = \<lparr>job_kind = SemanticAnalysis, job_command = cmd, job_filesToBeIndexed = []\<rparr>,
       assignedWorker = None\<rparr>), pendingJobs := pendingJobs s @ [task_of cmd]\<rparr>)"
  using assms by (simp add: queueSemaTask_def Let_def task_of_def)

definition refilled :: "Scheduler \<Rightarrow> CommandObject list \<Rightarrow> Scheduler \<Rightarrow> bool" where
  "refilled s cmds s' \<longleftrightarrow>
     pendingJobs s' = pendingJobs s @ map task_of cmds \<and> wipJobs s' = wipJobs s \<and>
     maybeErroredJobs s' = maybeErroredJobs s \<and> workers s' = workers s \<and>
     idleWorkers s' = idleWorkers s \<and> stoppedWorkers s' = stoppedWorkers s \<and>
     dom (allJobList s') = dom (allJobList s) \<union> task_of ` set cmds \<and>
     (\<forall>j t. allJobList s j = Some t \<longrightarrow> allJobList s' j = Some t)"

lemma queue_all:
  assumes "sched_inv s" "distinct (map task_of cmds)" "task_of ` set cmds \<inter> dom (allJobList s) = {}"
  shows "\<exists>s'. rfold queueSemaTask cmds s = Inr s' \<and> sched_inv s' \<and> refilled s cmds s'"
  using assms
proof (induction cmds arbitrary: s)
  case Nil
  then show ?case by (simp add: refilled_def)
next
  case (Cons c cmds)
  then have new: "allJobList s (task_of c) = None" by auto
  define s1 where "s1 = s\<lparr>allJobList := (allJobList s)(task_of c \<mapsto>
      \<lparr>tj_job = \<lparr>job_kind = SemanticAnalysis, job_command = c, job_filesToBeIndexed = []\<rparr>,
       assignedWorker = None\<rparr>), pendingJobs := pendingJobs s @ [task_of c]\<rparr>"
  have q: "queueSemaTask c s = Inr s1" unfolding s1_def by (rule queueSemaTask_eq [OF new])
  have r1: "refilled s [c] s1" using new by (auto simp: refilled_def s1_def)
  have "sched_inv s1" by (rule queueSemaTask_inv [OF Cons.prems(1) q])
  then obtain s' where s': "rfold queueSemaTask cmds s1 = Inr s'" "sched_inv s'" "refilled s1 cmds s'"
    using Cons.IH [of s1] Cons.prems(2,3) r1 by (auto simp: refilled_def)
  moreover have "refilled s (c # cmds) s'"
    using r1 s'(3) unfolding refilled_def by auto
  ultimately show ?case using q by auto
qed

lemma queue_all_fields:
  "rfold queueSemaTask cmds s = Inr s' \<Longrightarrow> wipJobs s' = wipJobs s \<and> stoppedWorkers s' = stoppedWorkers s \<and>
     workers s' = workers s"
  by (induction cmds arbitrary: s) (auto simp: queueSemaTask_def Let_def result_simps)

subsection \<open>Outstanding responses\<close>

lemma expected_response_iff:
  assumes "sched_inv s"
  shows "expected_response s w j k \<longleftrightarrow> j \<in> wipJobs s \<union> maybeErroredJobs s \<and>
    (\<exists>t. allJobList s j = Some t \<and> assignedWorker t = Some w \<and> job_kind (tj_job t) = k)"
    (is "?L \<longleftrightarrow> ?R")
proof
  assume L: ?L
  then have "tracked s j (Some w)" "j \<in> wipJobs s \<union> maybeErroredJobs s"
    using cur_tracked [OF assms] wip_iff [OF assms] by (auto simp: expected_response_def)
  with L show ?R by (auto simp: expected_response_def tracked_def)
next
  assume R: ?R
  then have tr: "tracked s j (Some w)" by (auto simp: tracked_def)
  have "w < length (workers s) \<and> (cur s w = Some j \<or> j \<in> maybeErroredJobs s)"
  proof (cases "j \<in> wipJobs s")
    case True
    then obtain v where "v < length (workers s)" "cur s v = Some j" using wip_iff [OF assms] by auto
    moreover from this have "v = w" using tracked_unique [OF cur_tracked [OF assms] tr] by simp
    ultimately show ?thesis by simp
  next
    case False
    with R have j: "j \<in> maybeErroredJobs s" by simp
    with assms obtain v where "v < length (workers s)" "tracked s j (Some v)"
      by (auto simp: sched_inv_def errored_ok_def)
    with tracked_unique [OF _ tr] j show ?thesis by blast
  qed
  with R tr show ?L by (auto simp: expected_response_def)
qed

lemma expected_response_conserves:
  assumes "sched_inv s" "sched_inv s'" "conserves s s'" "expected_response s w j k"
  shows "expected_response s' w j k"
  using assms(3,4) unfolding expected_response_iff [OF assms(1)] expected_response_iff [OF assms(2)]
    conserves_def by blast

lemma expected_response_refilled:
  assumes "sched_inv s" "sched_inv s'" "refilled s cmds s'" "expected_response s w j k"
  shows "expected_response s' w j k"
  using assms(3,4) unfolding expected_response_iff [OF assms(1)] expected_response_iff [OF assms(2)]
    refilled_def by blast

definition mail_ok :: "llvm_path \<Rightarrow> Scheduler \<Rightarrow> IndexJobResponse list \<Rightarrow> bool" where
  "mail_ok L s q \<longleftrightarrow> distinct (map rsp_jobId q) \<and>
     (\<forall>rsp \<in> set q. expected_response s (unat (rsp_workerId rsp)) (rsp_jobId rsp)
                      (res_kind (rsp_result rsp)) \<and>
                    sema_result_ok L (res_semanticAnalysis (rsp_result rsp)))"

lemma mail_conserves:
  "sched_inv s \<Longrightarrow> sched_inv s' \<Longrightarrow> conserves s s' \<Longrightarrow> mail_ok L s q \<Longrightarrow> mail_ok L s' q"
  using expected_response_conserves unfolding mail_ok_def by blast

lemma mail_refilled:
  "sched_inv s \<Longrightarrow> sched_inv s' \<Longrightarrow> refilled s cmds s' \<Longrightarrow> mail_ok L s q \<Longrightarrow> mail_ok L s' q"
  using expected_response_refilled unfolding mail_ok_def by blast

subsection \<open>Accounting for translation units\<close>

text \<open>
  Every task has exactly one job that is pending, in progress, possibly in error, lost or
  completed: \<open>taskId\<close> is a bijection from these jobs to the tasks.
\<close>

definition accounted :: "Scheduler \<Rightarrow> JobId set \<Rightarrow> JobId set \<Rightarrow> bool" where
  "accounted s lo co \<longleftrightarrow>
     inj_on taskId (jobs_of s \<union> lo \<union> co) \<and>
     taskId ` (jobs_of s \<union> lo \<union> co) = taskId ` dom (allJobList s) \<and>
     jobs_of s \<inter> (lo \<union> co) = {} \<and> lo \<inter> co = {} \<and> finite (dom (allJobList s)) \<and>
     jobs_of s \<union> lo \<union> co \<subseteq> dom (allJobList s)"

lemma accounted_conserves: "conserves s s' \<Longrightarrow> accounted s lo co \<Longrightarrow> accounted s' lo co"
  by (simp add: accounted_def conserves_def)

lemma accounted_refilled:
  assumes "refilled s cmds s'" "accounted s lo co" "inj_on taskId (task_of ` set cmds)"
    and "taskId ` task_of ` set cmds \<inter> taskId ` dom (allJobList s) = {}"
  shows "accounted s' lo co"
proof -
  let ?A = "jobs_of s \<union> lo \<union> co" and ?N = "task_of ` set cmds"
  have j: "jobs_of s' = jobs_of s \<union> ?N" "dom (allJobList s') = dom (allJobList s) \<union> ?N"
    using assms(1) by (auto simp: refilled_def jobs_of_def)
  have A: "inj_on taskId ?A" "taskId ` ?A = taskId ` dom (allJobList s)" "?A \<subseteq> dom (allJobList s)"
    using assms(2) by (auto simp: accounted_def)
  have "jobs_of s' \<union> lo \<union> co = ?A \<union> ?N" using j by auto
  moreover have "inj_on taskId (?A \<union> ?N)"
    using A assms(3,4) by (subst inj_on_Un) blast
  moreover have "?N \<inter> dom (allJobList s) = {}" using assms(4) by blast
  ultimately show ?thesis
    using assms(2) A j unfolding accounted_def by (auto simp: image_Un)
qed

text \<open>One job takes the place of another one of the same task.\<close>

lemma accounted_replace:
  assumes "accounted s lo co" "j \<in> jobs_of s" "taskId j' = taskId j" "j' \<notin> dom (allJobList s)"
    and "jobs_of s' = insert j' (jobs_of s - {j})" "dom (allJobList s') = insert j' (dom (allJobList s))"
  shows "accounted s' lo co"
proof -
  let ?A = "jobs_of s \<union> lo \<union> co"
  have A: "inj_on taskId ?A" "taskId ` ?A = taskId ` dom (allJobList s)" "?A \<subseteq> dom (allJobList s)"
      "j \<in> ?A" "j \<notin> lo \<union> co" "lo \<inter> co = {}" "jobs_of s \<inter> (lo \<union> co) = {}"
    using assms(1,2) by (auto simp: accounted_def)
  have eq: "jobs_of s' \<union> lo \<union> co = insert j' (?A - {j})" using A(5) assms(5) by auto
  have "inj_on taskId (insert j' (?A - {j}))"
    using A(1,4) assms(3) by (auto simp: inj_on_def)
  moreover have "taskId ` insert j' (?A - {j}) = taskId ` ?A" using A(4) assms(3) by auto
  moreover have "j' \<notin> lo \<union> co" using A(3) assms(4) by auto
  ultimately show ?thesis
    using assms(1,2,5,6) A assms(3) unfolding accounted_def eq by auto
qed

lemma accounted_complete:
  assumes "accounted s lo co" "j \<in> jobs_of s" "jobs_of s' = jobs_of s - {j}"
    and "dom (allJobList s') = dom (allJobList s)"
  shows "accounted s' (insert j lo) co" "accounted s' lo (insert j co)"
proof -
  have "jobs_of s' \<union> insert j lo \<union> co = jobs_of s \<union> lo \<union> co"
    "jobs_of s' \<union> lo \<union> insert j co = jobs_of s \<union> lo \<union> co"
    using assms(2,3) by auto
  then show "accounted s' (insert j lo) co" "accounted s' lo (insert j co)"
    using assms unfolding accounted_def by auto
qed

lemma accounted_card:
  assumes "accounted s lo co" "pendingJobs s = []" "wipJobs s = {}"
  shows "card (taskId ` dom (allJobList s)) = card (maybeErroredJobs s) + card lo + card co"
proof -
  have E: "jobs_of s = maybeErroredJobs s" using assms(2,3) by (simp add: jobs_of_def)
  have fin: "finite (maybeErroredJobs s)" "finite lo" "finite co"
    using assms(1) unfolding accounted_def E by (meson finite_subset le_sup_iff)+
  have "card (taskId ` dom (allJobList s)) = card (maybeErroredJobs s \<union> lo \<union> co)"
    using assms(1) unfolding accounted_def E by (metis card_image)
  also have "\<dots> = card (maybeErroredJobs s) + card lo + card co"
    using assms(1) fin unfolding accounted_def E by (subst card_Un_disjoint, auto)+
  finally show ?thesis .
qed

subsection \<open>The invariant of a run\<close>

definition sched_of :: "'p config \<Rightarrow> Scheduler" where
  "sched_of c = scheduler (cfg_driver c)"

definition counted :: "'p Driver \<Rightarrow> JobId set \<Rightarrow> bool" where
  "counted d co \<longleftrightarrow>
     length (allShardPaths d) = card co \<and> indexedSoFar d = word_of_nat (card co)"

definition stop_ok :: "Scheduler \<Rightarrow> nat \<Rightarrow> bool" where
  "stop_ok s n \<longleftrightarrow> workers s \<noteq> [] \<and> (stoppedWorkers s \<noteq> [] \<longrightarrow> pendingJobs s = [] \<and> n = 0)"

text \<open>
  What the driver relies on when it asks the parser for more commands: the parser returns,
  the indexes of the commands are new, and they fit the 32 bits of a task identifier.
\<close>

locale command_source =
  fixes parseMore :: "'p \<Rightarrow> (CommandObject list \<times> 'p) result"
    and nextIndex :: "'p \<Rightarrow> nat"
    and parser_ok :: "'p \<Rightarrow> bool"
  assumes parse_returns: "parser_ok p \<Longrightarrow> \<exists>cmds p'. parseMore p = Inr (cmds, p')"
    and parse_ok: "parser_ok p \<Longrightarrow> parseMore p = Inr (cmds, p') \<Longrightarrow>
      parser_ok p' \<and> nextIndex p \<le> nextIndex p' \<and> distinct (map index cmds) \<and>
      (\<forall>c \<in> set cmds. nextIndex p \<le> index c \<and> index c < nextIndex p')"
    and next_bound: "parser_ok p \<Longrightarrow> nextIndex p \<le> 2 ^ 32"
begin

definition driver_ok :: "'p Driver \<Rightarrow> bool" where
  "driver_ok d \<longleftrightarrow> sched_inv (scheduler d) \<and> planner_inv (planner d) \<and> parser_ok (compdbParser d) \<and>
     (\<forall>j \<in> dom (allJobList (scheduler d)). unat (taskId j) < nextIndex (compdbParser d))"

definition run_inv :: "llvm_path \<Rightarrow> 'p config \<Rightarrow> bool" where
  "run_inv L c \<longleftrightarrow> driver_ok (cfg_driver c) \<and> stop_ok (sched_of c) (cfg_refill c) \<and>
     mail_ok L (sched_of c) (cfg_queue c) \<and> accounted (sched_of c) (lost c) (completed c) \<and>
     counted (cfg_driver c) (completed c)"

lemma driver_ok_sched:
  "driver_ok d \<Longrightarrow> sched_inv s' \<Longrightarrow> taskId ` dom (allJobList s') = taskId ` dom (allJobList (scheduler d)) \<Longrightarrow>
   driver_ok (d\<lparr>scheduler := s'\<rparr>)"
  unfolding driver_ok_def by simp (metis (no_types, lifting) domI domIff image_iff option.exhaust)

lemma driver_ok_conserves:
  "driver_ok d \<Longrightarrow> sched_inv s' \<Longrightarrow> conserves (scheduler d) s' \<Longrightarrow> driver_ok (d\<lparr>scheduler := s'\<rparr>)"
  by (rule driver_ok_sched) (simp_all add: conserves_def)

lemma refillJobs_ok:
  assumes d: "driver_ok d" and acc: "accounted (scheduler d) lo co"
  shows "\<exists>cmds s' p'. refillJobs parseMore d = Inr (length cmds, d\<lparr>scheduler := s', compdbParser := p'\<rparr>) \<and>
    driver_ok (d\<lparr>scheduler := s', compdbParser := p'\<rparr>) \<and> refilled (scheduler d) cmds s' \<and>
    accounted s' lo co"
proof -
  let ?n = "nextIndex (compdbParser d)"
  have pk: "parser_ok (compdbParser d)" using d by (simp add: driver_ok_def)
  obtain cmds p' where pm: "parseMore (compdbParser d) = Inr (cmds, p')" using parse_returns [OF pk] by blast
  note po = parse_ok [OF pk pm]
  have lt: "index c < 2 ^ 32" if "c \<in> set cmds" for c
    using po next_bound [of p'] that by fastforce
  then have idx: "unat (taskId (task_of c)) = index c" if "c \<in> set cmds" for c
    using that by (simp add: task_of_def unsigned_of_nat take_bit_nat_eq_self)
  have inj: "inj_on taskId (task_of ` set cmds)"
    by (auto simp: inj_on_def task_of_def)
  have "inj_on task_of (set cmds)"
  proof (rule inj_onI)
    fix c c' assume "c \<in> set cmds" "c' \<in> set cmds" "task_of c = task_of c'"
    then have "index c = index c'" using idx by metis
    with po \<open>c \<in> set cmds\<close> \<open>c' \<in> set cmds\<close> show "c = c'" by (metis distinct_map inj_on_def)
  qed
  then have dist: "distinct (map task_of cmds)" using po by (simp add: distinct_map)
  have low: "unat (taskId j) < ?n" if "j \<in> dom (allJobList (scheduler d))" for j
    using d that by (simp add: driver_ok_def)
  have fresh: "taskId ` task_of ` set cmds \<inter> taskId ` dom (allJobList (scheduler d)) = {}"
  proof (rule ccontr)
    assume "\<not> ?thesis"
    then obtain c j where "c \<in> set cmds" "j \<in> dom (allJobList (scheduler d))"
      "taskId (task_of c) = taskId j" by blast
    then show False using idx [of c] low [of j] po by fastforce
  qed
  have sinv: "sched_inv (scheduler d)" using d by (simp add: driver_ok_def)
  have "task_of ` set cmds \<inter> dom (allJobList (scheduler d)) = {}" using fresh by blast
  from queue_all [OF sinv dist this] obtain s' where
    s': "rfold queueSemaTask cmds (scheduler d) = Inr s'" "sched_inv s'" "refilled (scheduler d) cmds s'"
    by blast
  have "unat (taskId j) < nextIndex p'" if "j \<in> dom (allJobList s')" for j
  proof -
    have "j \<in> dom (allJobList (scheduler d)) \<or> j \<in> task_of ` set cmds"
      using that s'(3) by (simp add: refilled_def)
    moreover have "unat (taskId j) < nextIndex p'" if "j \<in> dom (allJobList (scheduler d))"
      using low [OF that] po by (meson order_less_le_trans)
    ultimately show ?thesis using po idx by auto
  qed
  then have "driver_ok (d\<lparr>scheduler := s', compdbParser := p'\<rparr>)"
    using d s'(2) po by (simp add: driver_ok_def)
  moreover have "accounted s' lo co" by (rule accounted_refilled [OF s'(3) acc inj fresh])
  moreover have "refillJobs parseMore d = Inr (length cmds, d\<lparr>scheduler := s', compdbParser := p'\<rparr>)"
    using pm s'(1) by (simp add: refillJobs_def)
  ultimately show ?thesis using s'(3) by blast
qed

lemma useIdleWorkers_ok:
  assumes inv: "sched_inv s" and rel: "reliable send sd garbled"
    and stop: "stop_ok s n" and busy: "pendingJobs s \<noteq> [] \<or> wipJobs s \<noteq> {}"
    and refill: "pendingJobs s = [] \<Longrightarrow> n = 0"
  shows "\<exists>s'. useIdleWorkers send sd now s = Inr s' \<and> sched_inv s' \<and> conserves s s' \<and>
    wipJobs s' \<noteq> {} \<and> stop_ok s' n"
proof (cases "idleWorkers s = []")
  case True
  have "wipJobs s \<noteq> {}"
  proof
    assume w: "wipJobs s = {}"
    then have "length (stoppedWorkers s) = length (workers s)"
      using sched_inv_counts [OF inv] True by simp
    then have "stoppedWorkers s \<noteq> []" using stop by (auto simp: stop_ok_def)
    then show False using stop busy w by (simp add: stop_ok_def)
  qed
  with True inv stop show ?thesis by (simp add: useIdleWorkers_def conserves_refl)
next
  case False
  have send: "\<And>w r. send w r" and sd: "\<And>w. sd w" using rel by (auto simp: reliable_def)
  have len: "workers s' \<noteq> []" if "conserves s s'" for s'
    using that stop by (auto simp: conserves_def stop_ok_def)
  show ?thesis
  proof (cases "pendingJobs s = []")
    case True
    then have "n = 0" "wipJobs s \<noteq> {}" using refill busy by auto
    moreover obtain s' where "shutdownIdleWorkers sd s = Inr s'" "sched_inv s'" "conserves s s'"
        "wipJobs s' = wipJobs s" "pendingJobs s' = pendingJobs s"
      using shutdownIdle_conserves [of s sd] inv sd by blast
    ultimately show ?thesis using True False len [of s'] by (simp add: useIdleWorkers_def stop_ok_def)
  next
    case pend: False
    then have "stoppedWorkers s = []" using stop by (auto simp: stop_ok_def)
    moreover obtain s' where "assignLoop send now s = Inr s'" "sched_inv s'" "conserves s s'"
        "wipJobs s' \<noteq> {}" "stoppedWorkers s' = stoppedWorkers s"
      using assignLoop_conserves [of s send now] inv send pend False by blast
    ultimately show ?thesis using pend False len [of s']
      by (simp add: useIdleWorkers_def assignJobsToIdleWorkers_def stop_ok_def)
  qed
qed

lemma refillIfNeeded_ok:
  assumes "driver_ok d" "accounted (scheduler d) lo co" "stop_ok (scheduler d) n"
    and "pendingJobs (scheduler d) \<noteq> [] \<or> wipJobs (scheduler d) \<noteq> {}" "mail_ok L (scheduler d) q"
  shows "\<exists>n' d'. refillIfNeeded parseMore n d = Inr (n', d') \<and> driver_ok d' \<and>
    accounted (scheduler d') lo co \<and> stop_ok (scheduler d') n' \<and>
    (pendingJobs (scheduler d') \<noteq> [] \<or> wipJobs (scheduler d') \<noteq> {}) \<and>
    mail_ok L (scheduler d') q \<and> (pendingJobs (scheduler d') = [] \<longrightarrow> n' = 0) \<and>
    allShardPaths d' = allShardPaths d \<and> indexedSoFar d' = indexedSoFar d"
proof (cases "pendingJobs (scheduler d) = [] \<and> n \<noteq> 0")
  case False
  with assms show ?thesis by (auto simp: refillIfNeeded_def)
next
  case True
  obtain cmds s' p' where r: "refillJobs parseMore d = Inr (length cmds, d\<lparr>scheduler := s', compdbParser := p'\<rparr>)"
      "driver_ok (d\<lparr>scheduler := s', compdbParser := p'\<rparr>)" "refilled (scheduler d) cmds s'"
      "accounted s' lo co"
    using refillJobs_ok [OF assms(1,2)] by blast
  have s': "pendingJobs s' = map task_of cmds" "wipJobs s' = wipJobs (scheduler d)"
      "stoppedWorkers s' = []" "workers s' \<noteq> []"
    using r(3) True assms(3) by (auto simp: refilled_def stop_ok_def)
  have "mail_ok L s' q"
    using mail_refilled [OF _ _ r(3) assms(5)] assms(1) r(2) by (simp add: driver_ok_def)
  then show ?thesis using r s' True assms(4) by (simp add: refillIfNeeded_def stop_ok_def)
qed

text \<open>The top of the loop either goes on to wait or leaves the loop with nothing left to do.\<close>

lemma loopTop_ok:
  assumes inv: "run_inv L c" and rel: "reliable send sd garbled"
  shows "\<exists>r. loopTop parseMore send sd now (cfg_refill c) (cfg_driver c) = Inr r \<and>
    (case r of
       (Some n, d) \<Rightarrow> run_inv L (c\<lparr>cfg_phase := Waiting, cfg_refill := n, cfg_driver := d\<rparr>)
     | (None, d) \<Rightarrow> run_inv L (c\<lparr>cfg_refill := 0, cfg_driver := d\<rparr>) \<and> pendingJobs (scheduler d) = [] \<and>
         wipJobs (scheduler d) = {} \<and> idleWorkers (scheduler d) = [])"
proof -
  let ?d = "cfg_driver c" and ?s = "sched_of c"
  have c: "driver_ok ?d" "stop_ok ?s (cfg_refill c)" "mail_ok L ?s (cfg_queue c)"
      "accounted ?s (lost c) (completed c)" "counted ?d (completed c)" "sched_inv ?s"
    using inv by (auto simp: run_inv_def driver_ok_def sched_of_def)
  show ?thesis
  proof (cases "pendingJobs ?s = [] \<and> wipJobs ?s = {}")
    case True
    have "\<And>w. sd w" using rel by (simp add: reliable_def)
    then obtain s' where s': "shutdownIdleWorkers sd ?s = Inr s'" "sched_inv s'" "conserves ?s s'"
        "idleWorkers s' = []" "wipJobs s' = wipJobs ?s" "pendingJobs s' = pendingJobs ?s"
      using shutdownIdle_conserves [OF c(6)] by blast
    have "workers s' \<noteq> []" using c(2) s'(3) by (auto simp: stop_ok_def conserves_def)
    then have "run_inv L (c\<lparr>cfg_refill := 0, cfg_driver := ?d\<lparr>scheduler := s'\<rparr>\<rparr>)"
      using c s' True mail_conserves [OF c(6) s'(2,3) c(3)] accounted_conserves [OF s'(3) c(4)]
        driver_ok_conserves [OF c(1) s'(2)]
      by (simp add: run_inv_def sched_of_def stop_ok_def counted_def)
    with True s' c(6) show ?thesis by (simp add: loopTop_def sched_of_def)
  next
    case False
    then have "pendingJobs (scheduler ?d) \<noteq> [] \<or> wipJobs (scheduler ?d) \<noteq> {}"
      by (simp add: sched_of_def)
    from refillIfNeeded_ok [OF c(1) c(4,2) [unfolded sched_of_def] this c(3) [unfolded sched_of_def]]
    obtain n d1 where d1: "refillIfNeeded parseMore (cfg_refill c) ?d = Inr (n, d1)" "driver_ok d1"
        "accounted (scheduler d1) (lost c) (completed c)" "stop_ok (scheduler d1) n"
        "pendingJobs (scheduler d1) \<noteq> [] \<or> wipJobs (scheduler d1) \<noteq> {}"
        "mail_ok L (scheduler d1) (cfg_queue c)" "pendingJobs (scheduler d1) = [] \<Longrightarrow> n = 0"
        "allShardPaths d1 = allShardPaths ?d" "indexedSoFar d1 = indexedSoFar ?d"
      by blast
    have i1: "sched_inv (scheduler d1)" using d1(2) by (simp add: driver_ok_def)
    obtain s2 where s2: "useIdleWorkers send sd now (scheduler d1) = Inr s2" "sched_inv s2"
        "conserves (scheduler d1) s2" "wipJobs s2 \<noteq> {}" "stop_ok s2 n"
      using useIdleWorkers_ok [OF i1 rel d1(4,5,7)] by blast
    have "run_inv L (c\<lparr>cfg_phase := Waiting, cfg_refill := n, cfg_driver := d1\<lparr>scheduler := s2\<rparr>\<rparr>)"
      using c(5) d1 s2 mail_conserves [OF i1 s2(2,3) d1(6)] accounted_conserves [OF s2(3) d1(3)]
        driver_ok_conserves [OF d1(2) s2(2,3)]
      by (simp add: run_inv_def sched_of_def counted_def)
    moreover have "checkInvariants (scheduler ?d) = Inr (scheduler ?d)"
      using c(6) by (simp add: sched_of_def)
    ultimately show ?thesis using False d1(1) s2(1,4) by (auto simp: loopTop_def sched_of_def)
  qed
qed

lemma endRun_ok:
  assumes "run_inv L c" "idleWorkers (sched_of c) = []" "wipJobs (sched_of c) = {}"
  shows "endRun (cfg_driver c) = Inr (cfg_driver c)"
  using assms sched_inv_counts [of "sched_of c"]
  by (simp add: endRun_def run_inv_def driver_ok_def sched_of_def)

lemma finishRound_ok:
  assumes "run_inv L c"
  shows "\<exists>d'. finishRound now respawn (cfg_driver c) = Inr d' \<and>
    run_inv L (c\<lparr>cfg_phase := AtTop, cfg_driver := d'\<rparr>)"
proof -
  have c: "driver_ok (cfg_driver c)" "stop_ok (sched_of c) (cfg_refill c)"
      "mail_ok L (sched_of c) (cfg_queue c)" "accounted (sched_of c) (lost c) (completed c)"
      "counted (cfg_driver c) (completed c)" "sched_inv (sched_of c)"
    using assms by (auto simp: run_inv_def driver_ok_def sched_of_def)
  obtain s' where s': "terminateLongRunningWorkersAndRespawn
        (now - receiveTimeout (options (cfg_driver c))) respawn (sched_of c) = Inr s'"
      "sched_inv s'" "conserves (sched_of c) s'" "pendingJobs s' = pendingJobs (sched_of c)"
      "stoppedWorkers s' = stoppedWorkers (sched_of c)"
    using terminateLongRunning_conserves [OF c(6)] by blast
  have "stop_ok s' (cfg_refill c)"
    using c(2) s'(3-5) by (auto simp: stop_ok_def conserves_def)
  then show ?thesis
    using c(1,5) s'(1) mail_conserves [OF c(6) s'(2,3) c(3)] accounted_conserves [OF s'(3) c(4)]
      driver_ok_conserves [OF c(1) s'(2)] s'(3)
    by (simp add: finishRound_def run_inv_def sched_of_def counted_def)
qed

lemma mail_drop:
  assumes "mail_ok L s (rsp # q)" "sched_inv s" "sched_inv s'"
    and "wipJobs s \<union> maybeErroredJobs s - {rsp_jobId rsp} \<subseteq> wipJobs s' \<union> maybeErroredJobs s'"
    and "\<forall>j t. allJobList s j = Some t \<and> assignedWorker t \<noteq> None \<longrightarrow> allJobList s' j = Some t"
  shows "mail_ok L s' q"
proof -
  have "expected_response s' w j k" if "expected_response s w j k" "j \<noteq> rsp_jobId rsp" for w j k
    using that assms(4,5)
    unfolding expected_response_iff [OF assms(2)] expected_response_iff [OF assms(3)] by blast
  with assms(1) show ?thesis unfolding mail_ok_def by (auto simp: image_iff)
qed

lemma job_of_wip:
  assumes "sched_inv s" "w < length (workers s)" "cur s w = Some j"
  shows "j \<in> jobs_of s" "jobs_of s - {j} = set (pendingJobs s) \<union> (wipJobs s - {j}) \<union> maybeErroredJobs s"
proof -
  have "j \<in> wipJobs s" using wip_iff [OF assms(1)] assms(2,3) by auto
  moreover have "j \<notin> maybeErroredJobs s" using calculation assms(1) by (auto simp: sched_inv_def errored_ok_def)
  moreover have "j \<notin> set (pendingJobs s)"
    using pending_tracked [OF assms(1)] wip_not_pending [OF assms(1)] calculation(1) by blast
  ultimately show "j \<in> jobs_of s"
    "jobs_of s - {j} = set (pendingJobs s) \<union> (wipJobs s - {j}) \<union> maybeErroredJobs s"
    by (auto simp: jobs_of_def)
qed

lemma released_fields:
  assumes "w < length (workers s)"
  shows "allJobList (released w j s) = allJobList s" "pendingJobs (released w j s) = pendingJobs s"
    "wipJobs (released w j s) = wipJobs s - {j}" "maybeErroredJobs (released w j s) = maybeErroredJobs s"
    "stoppedWorkers (released w j s) = stoppedWorkers s"
    "length (workers (released w j s)) = length (workers s)"
  using assms by (simp_all add: released_def set_worker_def)

text \<open>A response of a worker that has been terminated.\<close>

lemma dead_response_ok:
  assumes inv: "run_inv L c" and q: "cfg_queue c = rsp # q"
    and dead: "cur (sched_of c) (unat (rsp_workerId rsp)) \<noteq> Some (rsp_jobId rsp)"
  shows "\<exists>d'. processWorkerResponse L send now h rsp (cfg_driver c) = Inr d' \<and>
    run_inv L ((note_response rsp c)\<lparr>cfg_phase := Draining, cfg_driver := d', cfg_queue := q\<rparr>)"
proof -
  let ?d = "cfg_driver c" and ?s = "sched_of c" and ?j = "rsp_jobId rsp" and ?w = "unat (rsp_workerId rsp)"
  let ?s' = "?s\<lparr>maybeErroredJobs := maybeErroredJobs ?s - {?j}\<rparr>"
  have c: "driver_ok ?d" "stop_ok ?s (cfg_refill c)" "mail_ok L ?s (rsp # q)"
      "accounted ?s (lost c) (completed c)" "counted ?d (completed c)" and si: "sched_inv ?s"
    using inv q by (auto simp: run_inv_def driver_ok_def sched_of_def)
  obtain t where ex: "?w < length (workers ?s)" "?j \<in> maybeErroredJobs ?s" "tracked ?s ?j (Some ?w)"
      "allJobList ?s ?j = Some t" "job_kind (tj_job t) = res_kind (rsp_result rsp)"
    using c(3) dead by (auto simp: mail_ok_def expected_response_def)
  have p: "processWorkerResponse L send now h rsp ?d = Inr (?d\<lparr>scheduler := ?s'\<rparr>)"
    using markCompleted_dead [OF si ex(1) dead ex(2-5)] by (simp add: processWorkerResponse_def sched_of_def)
  have si': "sched_inv ?s'" by (rule drop_errored_inv [OF si])
  have "?j \<notin> wipJobs ?s" "?j \<notin> set (pendingJobs ?s)"
    using si ex(2) errored_not_pending [OF si] pending_tracked [OF si]
    by (auto simp: sched_inv_def errored_ok_def)
  then have "jobs_of ?s' = jobs_of ?s - {?j}" "?j \<in> jobs_of ?s" using ex(2) by (auto simp: jobs_of_def)
  then have acc: "accounted ?s' (insert ?j (lost c)) (completed c)"
    by (intro accounted_complete [OF c(4)]) auto
  have mail: "mail_ok L ?s' q" by (rule mail_drop [OF c(3) si si']) auto
  have "driver_ok (?d\<lparr>scheduler := ?s'\<rparr>)"
    by (rule driver_ok_sched [OF c(1) si']) (simp add: sched_of_def)
  moreover have "stop_ok ?s' (cfg_refill c)" using c(2) by (simp add: stop_ok_def)
  moreover have "note_response rsp c = c\<lparr>lost := insert ?j (lost c)\<rparr>"
    using dead by (simp add: note_response_def sched_of_def)
  ultimately show ?thesis
    using p acc mail c(5) by (simp add: run_inv_def sched_of_def counted_def)
qed

lemma handleEmit_fields:
  assumes "getTuPath (scheduler d) (newTask (taskId j)) = Inr path"
  shows "\<exists>d'. handleEmitResult j r d = Inr d' \<and> scheduler d' = scheduler d \<and> planner d' = planner d \<and>
    compdbParser d' = compdbParser d \<and> length (allShardPaths d') = Suc (length (allShardPaths d)) \<and>
    indexedSoFar d' = indexedSoFar d + 1"
  using assms
  by (cases "statsFilePath (options d) = []"; cases "showProgress (options d)")
    (simp_all add: handleEmitResult_def Let_def)

lemma emit_response_ok:
  assumes inv: "run_inv L c" and q: "cfg_queue c = rsp # q"
    and cu: "cur (sched_of c) (unat (rsp_workerId rsp)) = Some (rsp_jobId rsp)"
    and kind: "res_kind (rsp_result rsp) = EmitIndex"
  shows "\<exists>d'. processWorkerResponse L send now h rsp (cfg_driver c) = Inr d' \<and>
    run_inv L ((note_response rsp c)\<lparr>cfg_phase := Draining, cfg_driver := d', cfg_queue := q\<rparr>)"
proof -
  let ?d = "cfg_driver c" and ?s = "sched_of c" and ?j = "rsp_jobId rsp" and ?w = "unat (rsp_workerId rsp)"
  let ?s' = "released ?w ?j ?s"
  have c: "driver_ok ?d" "stop_ok ?s (cfg_refill c)" "mail_ok L ?s (rsp # q)"
      "accounted ?s (lost c) (completed c)" "counted ?d (completed c)" and si: "sched_inv ?s"
    using inv q by (auto simp: run_inv_def driver_ok_def sched_of_def)
  obtain t where w: "?w < length (workers ?s)" and t: "allJobList ?s ?j = Some t" "job_kind (tj_job t) = EmitIndex"
    using c(3) kind by (auto simp: mail_ok_def expected_response_def)
  have si': "sched_inv ?s'" by (rule released_inv [OF si w cu])
  note f = released_fields [OF w, of ?j]
  have j: "?j = \<lparr>taskId = taskId ?j, subtaskId = 1\<rparr>" using kinds1 [OF si t(1)] t(2) by (cases ?j) auto
  then have "allJobList ?s (newTask (taskId ?j)) \<noteq> None" using kinds2 [OF si, of "taskId ?j"] t(1) by auto
  then obtain t0 where t0: "allJobList ?s (newTask (taskId ?j)) = Some t0" by blast
  then have "job_kind (tj_job t0) = SemanticAnalysis" using kinds1 [OF si t0] by auto
  then obtain path where path: "getTuPath ?s' (newTask (taskId ?j)) = Inr path"
    using t0 f(1) by (simp add: getTuPath_def)
  obtain d' where d': "handleEmitResult ?j (res_emitIndex (rsp_result rsp)) (?d\<lparr>scheduler := ?s'\<rparr>) = Inr d'"
      "scheduler d' = ?s'" "planner d' = planner ?d" "compdbParser d' = compdbParser ?d"
      "length (allShardPaths d') = Suc (length (allShardPaths ?d))" "indexedSoFar d' = indexedSoFar ?d + 1"
    using handleEmit_fields [of "?d\<lparr>scheduler := ?s'\<rparr>" ?j path] path by auto
  have p: "processWorkerResponse L send now h rsp ?d = Inr d'"
    using markCompleted_current [OF si w cu t] d'(1) kind by (simp add: processWorkerResponse_def sched_of_def)
  have acc: "accounted ?s' (lost c) (insert ?j (completed c))"
    using job_of_wip [OF si w cu] f by (intro accounted_complete [OF c(4)]) (auto simp: jobs_of_def)
  have "mail_ok L ?s' q" by (rule mail_drop [OF c(3) si si']) (use f in auto)
  moreover have "driver_ok d'" using c(1) si' d'(2-4) f(1) by (simp add: driver_ok_def sched_of_def)
  moreover have "?j \<notin> completed c" "finite (completed c)"
    using c(4) job_of_wip(1) [OF si w cu] by (auto simp: accounted_def intro: finite_subset)
  then have "counted d' (insert ?j (completed c))" using c(5) d'(5,6) by (simp add: counted_def)
  moreover have "stop_ok ?s' (cfg_refill c)" using c(2) f by (auto simp: stop_ok_def)
  moreover have "note_response rsp c = c\<lparr>completed := insert ?j (completed c)\<rparr>"
    using cu kind by (simp add: note_response_def sched_of_def)
  ultimately show ?thesis using p acc d'(2) by (simp add: run_inv_def sched_of_def)
qed

lemma sema_response_ok:
  assumes inv: "run_inv L c" and q: "cfg_queue c = rsp # q" and send: "\<And>w r. send w r"
    and cu: "cur (sched_of c) (unat (rsp_workerId rsp)) = Some (rsp_jobId rsp)"
    and kind: "res_kind (rsp_result rsp) = SemanticAnalysis"
  shows "\<exists>d'. processWorkerResponse L send now h rsp (cfg_driver c) = Inr d' \<and>
    run_inv L ((note_response rsp c)\<lparr>cfg_phase := Draining, cfg_driver := d', cfg_queue := q\<rparr>)"
proof -
  let ?d = "cfg_driver c" and ?s = "sched_of c" and ?j = "rsp_jobId rsp" and ?w = "unat (rsp_workerId rsp)"
  let ?r = "res_semanticAnalysis (rsp_result rsp)"
  have c: "driver_ok ?d" "stop_ok ?s (cfg_refill c)" "mail_ok L ?s (rsp # q)"
      "accounted ?s (lost c) (completed c)" "counted ?d (completed c)" and si: "sched_inv ?s"
    using inv q by (auto simp: run_inv_def driver_ok_def sched_of_def)
  obtain t where w: "?w < length (workers ?s)"
      and t: "allJobList ?s ?j = Some t" "job_kind (tj_job t) = SemanticAnalysis"
      and sema: "sema_result_ok L ?r"
    using c(3) kind by (auto simp: mail_ok_def expected_response_def)
  obtain u where j: "?j = newTask u" using kinds1 [OF si t(1)] t(2) by (cases ?j) (auto simp: newTask_def)
  let ?sub = "\<lparr>taskId = u, subtaskId = 1\<rparr>"
  obtain pl out where pl: "saveSemaResult L ?r (planner ?d) = Inr (pl, out)" "planner_inv pl"
  proof -
    have "planner_inv (planner ?d)" using c(1) by (simp add: driver_ok_def)
    from saveSemaResult_spec [OF this sema] that show ?thesis by blast
  qed
  let ?job = "\<lparr>job_kind = EmitIndex, job_command = default_CommandObject, job_filesToBeIndexed = out\<rparr>"
  obtain s' where s': "createSubtaskAndScheduleOnWorker now ?w ?j ?job (released ?w ?j ?s) =
        Inr (\<lparr>req_id = ?sub, req_job = ?job\<rparr>, s')" "sched_inv s'" "length (workers s') = length (workers ?s)"
      "pendingJobs s' = pendingJobs ?s" "maybeErroredJobs s' = maybeErroredJobs ?s"
      "wipJobs s' = insert ?sub (wipJobs ?s - {?j})" "allJobList ?s ?sub = None"
      "allJobList s' = (allJobList ?s)(?sub \<mapsto> \<lparr>tj_job = ?job, assignedWorker = Some ?w\<rparr>)"
      "stoppedWorkers s' = stoppedWorkers ?s"
    using createSubtask_inv [OF si w cu [unfolded j], of ?job now] unfolding j by auto
  let ?d' = "?d\<lparr>planner := pl, scheduler := s'\<rparr>"
  have p: "processWorkerResponse L send now h rsp ?d = Inr ?d'"
    using markCompleted_current [OF si w cu t] kind pl(1) s'(1) send
    by (simp add: processWorkerResponse_def handleSemaResult_def sched_of_def)
  have jw: "?j \<in> jobs_of ?s" "jobs_of s' = insert ?sub (jobs_of ?s - {?j})"
    using job_of_wip [OF si w cu] s'(4-6) by (auto simp: jobs_of_def)
  have acc: "accounted s' (lost c) (completed c)"
    by (rule accounted_replace [OF c(4) jw(1) _ _ jw(2)]) (use s'(7,8) j in auto)
  have mail: "mail_ok L s' q"
    by (rule mail_drop [OF c(3) si s'(2)]) (use s'(5-8) in auto)
  have "driver_ok ?d'"
  proof -
    have "driver_ok (?d\<lparr>scheduler := s'\<rparr>)"
      by (rule driver_ok_sched [OF c(1) s'(2)]) (use s'(8) t(1) j in \<open>force simp: sched_of_def\<close>)
    then show ?thesis using pl(2) by (simp add: driver_ok_def)
  qed
  moreover have "stop_ok s' (cfg_refill c)" using c(2) s'(3,4,9) by (auto simp: stop_ok_def)
  moreover have "note_response rsp c = c" using cu kind by (simp add: note_response_def sched_of_def)
  ultimately show ?thesis
    using p acc mail c(5) by (simp add: run_inv_def sched_of_def counted_def)
qed

lemma response_ok:
  assumes "run_inv L c" "cfg_queue c = rsp # q" "reliable send sd garbled"
  shows "\<exists>d'. processWorkerResponse L send now h rsp (cfg_driver c) = Inr d' \<and>
    run_inv L ((note_response rsp c)\<lparr>cfg_phase := Draining, cfg_driver := d', cfg_queue := q\<rparr>)"
proof -
  have "\<And>w r. send w r" using assms(3) by (simp add: reliable_def)
  then show ?thesis
    using dead_response_ok [OF assms(1,2)] emit_response_ok [OF assms(1,2)] sema_response_ok [OF assms(1,2)]
    by (cases "res_kind (rsp_result rsp)") blast+
qed

text \<open>Every step keeps the invariant; none aborts.\<close>

definition settled :: "llvm_path \<Rightarrow> 'p config \<Rightarrow> bool" where
  "settled L c \<longleftrightarrow> run_inv L (c\<lparr>cfg_refill := 0\<rparr>) \<and> pendingJobs (sched_of c) = [] \<and>
     wipJobs (sched_of c) = {} \<and> idleWorkers (sched_of c) = []"

definition outcome_ok :: "llvm_path \<Rightarrow> 'p outcome \<Rightarrow> bool" where
  "outcome_ok L oc \<longleftrightarrow> (case oc of Running c \<Rightarrow> run_inv L c | Finished c \<Rightarrow> settled L c | Aborted e \<Rightarrow> False)"

lemma top_outcome_ok:
  assumes "run_inv L c" "reliable send sd garbled"
  shows "outcome_ok L (outcome_of (after_top c) (loopTop parseMore send sd now (cfg_refill c) (cfg_driver c)))"
proof -
  obtain r where r: "loopTop parseMore send sd now (cfg_refill c) (cfg_driver c) = Inr r"
    and ok: "case r of
       (Some n, d) \<Rightarrow> run_inv L (c\<lparr>cfg_phase := Waiting, cfg_refill := n, cfg_driver := d\<rparr>)
     | (None, d) \<Rightarrow> run_inv L (c\<lparr>cfg_refill := 0, cfg_driver := d\<rparr>) \<and> pendingJobs (scheduler d) = [] \<and>
         wipJobs (scheduler d) = {} \<and> idleWorkers (scheduler d) = []"
    using loopTop_ok [OF assms] by blast
  obtain m d where md: "r = (m, d)" by (cases r)
  show ?thesis
  proof (cases m)
    case (Some n)
    with r ok md show ?thesis by (simp add: after_top_def outcome_ok_def)
  next
    case None
    let ?c = "c\<lparr>cfg_refill := 0, cfg_driver := d\<rparr>"
    have fin: "run_inv L ?c" "pendingJobs (sched_of ?c) = []" "wipJobs (sched_of ?c) = {}"
        "idleWorkers (sched_of ?c) = []"
      using ok None md by (simp_all add: sched_of_def)
    from endRun_ok [OF fin(1,4,3)] have e: "endRun d = Inr d" by simp
    have comm: "c\<lparr>cfg_driver := d, cfg_refill := 0\<rparr> = ?c" by simp
    have "settled L (c\<lparr>cfg_driver := d\<rparr>)"
      using fin unfolding settled_def comm by (simp add: sched_of_def)
    with r None md e show ?thesis by (simp add: after_top_def outcome_ok_def)
  qed
qed

lemma reply_ok:
  assumes "run_inv L c" "worker_reply L c rsp"
  shows "run_inv L (c\<lparr>cfg_queue := cfg_queue c @ [rsp]\<rparr>)"
  using assms
  by (auto simp: run_inv_def mail_ok_def worker_reply_def sched_of_def expected_response_def Let_def
      split: option.splits)

lemma run_inv_queue:
  "run_inv L c \<Longrightarrow> cfg_queue c = rsp # q \<Longrightarrow> run_inv L (c\<lparr>cfg_queue := q\<rparr>)"
  by (auto simp: run_inv_def mail_ok_def sched_of_def)

lemma step_ok:
  assumes "driver_step parseMore L reliable c oc" "run_inv L c"
  shows "outcome_ok L oc"
  using assms
proof (cases rule: driver_step.cases)
  case (top send sd garbled now)
  then show ?thesis using top_outcome_ok [OF assms(2)] by simp
next
  case (reply rsp)
  then show ?thesis using reply_ok [OF assms(2)] by (simp add: outcome_ok_def)
next
  case (receive send sd garbled rsp q now newHandle)
  from response_ok [OF assms(2) receive(4,3), of now newHandle] receive(1) show ?thesis
    by (auto simp: outcome_ok_def)
next
  case (timeout now respawn)
  then show ?thesis using finishRound_ok [OF assms(2), of now respawn] by (auto simp: outcome_ok_def)
next
  case (malformed rsp q now respawn)
  then show ?thesis
    using finishRound_ok [OF run_inv_queue [OF assms(2)], of rsp q now respawn] by (auto simp: outcome_ok_def)
next
  case (malformed_drain send sd rsp q)
  then show ?thesis by (simp add: reliable_def)
next
  case (drained now respawn)
  then show ?thesis using finishRound_ok [OF assms(2), of now respawn] by (auto simp: outcome_ok_def)
qed

lemma reaches_ok:
  "driver_reaches parseMore L reliable c0 oc \<Longrightarrow> run_inv L c0 \<Longrightarrow> outcome_ok L oc"
proof (induction rule: driver_reaches.induct)
  case (reach_step c oc)
  then show ?case using step_ok [of L c oc] by (simp add: outcome_ok_def)
qed (simp add: outcome_ok_def)

lemma start_ok:
  assumes "start_config parseMore opts spawn p = Inr c" "parser_ok p" "numWorkers opts > 0"
  shows "run_inv L c"
proof -
  obtain s where s: "initializeWorkers (numWorkers opts) spawn empty_scheduler = Inr s" "sched_inv s"
      "length (workers s) = numWorkers opts" "pendingJobs s = []"
    using initializeWorkers_inv by blast
  have s0: "allJobList s = Map.empty" "wipJobs s = {}" "maybeErroredJobs s = {}" "stoppedWorkers s = []"
    using s(1) by (auto simp: initializeWorkers_def checkInvariants_def empty_scheduler_def result_simps)
  define d where "d = (initial_driver opts p)\<lparr>scheduler := s\<rparr>"
  have d: "driver_ok d" "accounted (scheduler d) {} {}"
    using s s0 assms(2)
    by (simp_all add: d_def driver_ok_def initial_driver_def planner_inv_def accounted_def jobs_of_def)
  obtain cmds s' p' where r: "refillJobs parseMore d = Inr (length cmds, d\<lparr>scheduler := s', compdbParser := p'\<rparr>)"
      "driver_ok (d\<lparr>scheduler := s', compdbParser := p'\<rparr>)" "refilled (scheduler d) cmds s'"
      "accounted s' {} {}"
    using refillJobs_ok [OF d] by blast
  have "spawnWorkers spawn (initial_driver opts p) = Inr d"
    using s(1) by (simp add: spawnWorkers_def d_def initial_driver_def)
  with assms(1) r(1) have c: "c = \<lparr>cfg_phase = AtTop, cfg_refill = length cmds,
      cfg_driver = d\<lparr>scheduler := s', compdbParser := p'\<rparr>, cfg_queue = [], completed = {}, lost = {}\<rparr>"
    by (auto simp: start_config_def beginRun_def result_simps split: if_splits)
  have "stop_ok s' (length cmds)"
    using r(3) s(3) s0(4) assms(3) by (auto simp: stop_ok_def refilled_def d_def)
  with r c show ?thesis
    by (simp add: run_inv_def sched_of_def mail_ok_def counted_def d_def initial_driver_def)
qed

text \<open>When the run is over, every task is completed, possibly in error, or its mail was lost.\<close>

lemma finished_accounting:
  assumes "driver_reaches parseMore L reliable c0 (Finished c)" "run_inv L c0"
  shows "card (taskId ` dom (allJobList (sched_of c))) =
      length (allShardPaths (cfg_driver c)) + numErroredJobs (sched_of c) + card (lost c)"
    and "length (stoppedWorkers (sched_of c)) = length (workers (sched_of c))"
proof -
  have c: "settled L c" using reaches_ok [OF assms] by (simp add: outcome_ok_def)
  then have "accounted (sched_of c) (lost c) (completed c)" "counted (cfg_driver c) (completed c)"
      "sched_inv (sched_of c)"
    by (auto simp: settled_def run_inv_def sched_of_def driver_ok_def)
  with c accounted_card [of "sched_of c" "lost c" "completed c"] sched_inv_counts [of "sched_of c"]
  show "card (taskId ` dom (allJobList (sched_of c))) =
      length (allShardPaths (cfg_driver c)) + numErroredJobs (sched_of c) + card (lost c)"
    and "length (stoppedWorkers (sched_of c)) = length (workers (sched_of c))"
    by (auto simp: settled_def counted_def numErroredJobs_def)
qed

end

subsection \<open>Runs in which every worker is too slow\<close>

context command_source
begin

text \<open>The loop is at its top, nothing is in progress and nobody has been stopped.\<close>

definition fresh_round :: "llvm_path \<Rightarrow> 'p config \<Rightarrow> bool" where
  "fresh_round L c \<longleftrightarrow> run_inv L c \<and> cfg_phase c = AtTop \<and> wipJobs (sched_of c) = {} \<and>
     stoppedWorkers (sched_of c) = [] \<and> workers (sched_of c) \<noteq> []"

definition same_work :: "'p config \<Rightarrow> 'p config \<Rightarrow> bool" where
  "same_work c c' \<longleftrightarrow> compdbParser (cfg_driver c') = compdbParser (cfg_driver c) \<and>
     allShardPaths (cfg_driver c') = allShardPaths (cfg_driver c) \<and>
     dom (allJobList (sched_of c')) = dom (allJobList (sched_of c))"

lemma all_overdue:
  assumes inv: "sched_inv s" and t: "\<forall>w < length (workers s). startTime (workers s ! w) < t"
  shows "overdue_jobs t s (length (workers s)) = wipJobs s"
proof -
  have "overdue t s w \<longleftrightarrow> cur s w \<noteq> None" if "w < length (workers s)" for w
    using t busy_iff [OF inv that] that by (simp add: overdue_def)
  then have "(\<exists>w < length (workers s). overdue t s w \<and> cur s w = Some j) \<longleftrightarrow> j \<in> wipJobs s" for j
    unfolding wip_iff [OF inv] by (metis option.distinct(1))
  then show ?thesis unfolding overdue_jobs_def by blast
qed

lemma later_than_all: "\<exists>t. \<forall>w < length ws. startTime (ws ! w) < (t :: Instant)"
proof (induction ws rule: rev_induct)
  case (snoc x ws)
  then obtain t where t: "\<forall>w < length ws. startTime (ws ! w) < t" by blast
  show ?case
    by (rule exI [of _ "max t (startTime x + 1)"]) (use t in \<open>auto simp: nth_append less_Suc_eq\<close>)
qed simp

lemma timeout_kills_all:
  assumes "run_inv L c" "cfg_phase c = Waiting" "workers (sched_of c) \<noteq> []" "stoppedWorkers (sched_of c) = []"
  shows "\<exists>c'. driver_step parseMore L reliable c (Running c') \<and> fresh_round L c' \<and> same_work c c' \<and>
    pendingJobs (sched_of c') = pendingJobs (sched_of c)"
proof -
  let ?d = "cfg_driver c" and ?s = "sched_of c"
  have si: "sched_inv ?s" using assms(1) by (simp add: run_inv_def driver_ok_def sched_of_def)
  obtain t where t: "\<forall>w < length (workers ?s). startTime (workers ?s ! w) < t" using later_than_all by blast
  obtain s' where s': "terminateLongRunningWorkersAndRespawn t (\<lambda>w. 0) ?s = Inr s'" "wipJobs s' = {}"
      "length (workers s') = length (workers ?s)"
    using terminate_prefix [OF si order_refl, of t "\<lambda>w. 0"] all_overdue [OF si t] si
    by (auto simp: terminateLongRunningWorkersAndRespawn_def)
  have cs: "conserves ?s s'" "pendingJobs s' = pendingJobs ?s" "stoppedWorkers s' = stoppedWorkers ?s"
    using terminateLongRunning_conserves [OF si, of t "\<lambda>w. 0"] s'(1) by auto
  let ?c' = "c\<lparr>cfg_phase := AtTop, cfg_driver := ?d\<lparr>scheduler := s'\<rparr>\<rparr>"
  have run: "finishRound (t + receiveTimeout (options ?d)) (\<lambda>w. 0) ?d = Inr (?d\<lparr>scheduler := s'\<rparr>)"
    using s'(1) by (simp add: finishRound_def sched_of_def)
  have step: "driver_step parseMore L reliable c (Running ?c')"
    using driver_step.timeout [OF assms(2), of parseMore L reliable "t + receiveTimeout (options ?d)" "\<lambda>w. 0"] run by simp
  have "run_inv L ?c'" using step_ok [OF step assms(1)] by (simp add: outcome_ok_def)
  moreover have "workers s' \<noteq> []" using s'(3) assms(3) by auto
  ultimately have "fresh_round L ?c'" using s'(2) cs(3) assms(4) by (simp add: fresh_round_def sched_of_def)
  moreover have "same_work c ?c'" using cs(1) by (simp add: same_work_def sched_of_def conserves_def)
  ultimately show ?thesis using step cs(2) by (intro exI [of _ ?c']) (simp add: sched_of_def)
qed

lemma assign_round:
  assumes "fresh_round L c" "pendingJobs (sched_of c) \<noteq> []"
  shows "\<exists>c'. driver_step parseMore L reliable c (Running c') \<and> run_inv L c' \<and> cfg_phase c' = Waiting \<and> same_work c c' \<and>
    workers (sched_of c') \<noteq> [] \<and> stoppedWorkers (sched_of c') = [] \<and>
    length (pendingJobs (sched_of c')) < length (pendingJobs (sched_of c))"
proof -
  let ?d = "cfg_driver c" and ?s = "sched_of c"
  have c: "run_inv L c" "cfg_phase c = AtTop" "wipJobs ?s = {}" "stoppedWorkers ?s = []" "workers ?s \<noteq> []"
    using assms(1) by (auto simp: fresh_round_def)
  have si: "sched_inv ?s" using c(1) by (simp add: run_inv_def driver_ok_def sched_of_def)
  have idle: "idleWorkers ?s \<noteq> []" using sched_inv_counts [OF si] c(3-5) by auto
  let ?send = "\<lambda>(w :: WorkerId) (r :: IndexJobRequest). True" and ?now = "\<lambda>(j :: JobId). (0 :: Instant)"
  have rel: "reliable ?send (\<lambda>w. True) False" by (simp add: reliable_def)
  obtain s' where s': "assignLoop ?send ?now ?s = Inr s'"
      "pendingJobs s' = drop (min (length (idleWorkers ?s)) (length (pendingJobs ?s))) (pendingJobs ?s)"
    using assignLoop_fifo [OF si, of ?send ?now] by (auto simp: Let_def)
  have cs: "conserves ?s s'" "stoppedWorkers s' = stoppedWorkers ?s" "wipJobs s' \<noteq> {}"
    using assignLoop_conserves [OF si, of ?send ?now] s'(1) idle assms(2) by auto
  let ?c' = "c\<lparr>cfg_phase := Waiting, cfg_refill := cfg_refill c, cfg_driver := ?d\<lparr>scheduler := s'\<rparr>\<rparr>"
  have run: "loopTop parseMore ?send (\<lambda>w. True) ?now (cfg_refill c) ?d = Inr (Some (cfg_refill c), ?d\<lparr>scheduler := s'\<rparr>)"
    using si assms(2) idle s'(1) cs(3)
    by (simp add: loopTop_def refillIfNeeded_def useIdleWorkers_def assignJobsToIdleWorkers_def sched_of_def)
  have step: "driver_step parseMore L reliable c (Running ?c')"
    using driver_step.top [of c reliable ?send "\<lambda>w. True" False parseMore L ?now, OF c(2) rel] run by (simp add: after_top_def)
  have "run_inv L ?c'" using step_ok [OF step c(1)] by (simp add: outcome_ok_def)
  moreover have "length (workers s') = length (workers ?s)" using cs(1) by (simp add: conserves_def)
  then have "workers s' \<noteq> []" using c(5) by auto
  moreover have "length (pendingJobs s') < length (pendingJobs ?s)" using s'(2) idle assms(2) by simp
  moreover have "same_work c ?c'" using cs(1) by (simp add: same_work_def sched_of_def conserves_def)
  ultimately show ?thesis using step cs(2) c(4) by (intro exI [of _ ?c']) (simp add: sched_of_def)
qed

lemma finish_round:
  assumes "fresh_round L c" "pendingJobs (sched_of c) = []"
  shows "\<exists>c'. driver_step parseMore L reliable c (Finished c') \<and> same_work c c'"
proof -
  let ?d = "cfg_driver c" and ?s = "sched_of c"
  have c: "run_inv L c" "cfg_phase c = AtTop" "wipJobs ?s = {}" using assms(1) by (auto simp: fresh_round_def)
  have si: "sched_inv ?s" using c(1) by (simp add: run_inv_def driver_ok_def sched_of_def)
  let ?send = "\<lambda>(w :: WorkerId) (r :: IndexJobRequest). True" and ?now = "\<lambda>(j :: JobId). (0 :: Instant)"
  have rel: "reliable ?send (\<lambda>w. True) False" by (simp add: reliable_def)
  obtain s' where s': "shutdownIdleWorkers (\<lambda>w. True) ?s = Inr s'" "conserves ?s s'"
    using shutdownIdle_conserves [OF si, of "\<lambda>w. True"] by blast
  let ?d' = "?d\<lparr>scheduler := s'\<rparr>"
  have run: "loopTop parseMore ?send (\<lambda>w. True) ?now (cfg_refill c) ?d = Inr (None, ?d')"
    using si assms(2) c(3) s'(1) by (simp add: loopTop_def sched_of_def)
  have step: "driver_step parseMore L reliable c (outcome_of (\<lambda>d. Finished (c\<lparr>cfg_driver := d\<rparr>)) (endRun ?d'))"
    using driver_step.top [of c reliable ?send "\<lambda>w. True" False parseMore L ?now, OF c(2) rel] run by (simp add: after_top_def)
  have "endRun ?d' = Inr ?d'"
    using step_ok [OF step c(1)] by (cases "endRun ?d'") (auto simp: outcome_ok_def endRun_def result_simps)
  with step have "driver_step parseMore L reliable c (Finished (c\<lparr>cfg_driver := ?d'\<rparr>))" by simp
  moreover have "same_work c (c\<lparr>cfg_driver := ?d'\<rparr>)" using s'(2) by (simp add: same_work_def sched_of_def conserves_def)
  ultimately show ?thesis by blast
qed

lemma same_work_trans: "same_work a b \<Longrightarrow> same_work b c \<Longrightarrow> same_work a c"
  by (simp add: same_work_def)

lemma slow_workers_finish:
  "driver_reaches parseMore L reliable c0 (Running c) \<Longrightarrow> fresh_round L c \<Longrightarrow>
   \<exists>c'. driver_reaches parseMore L reliable c0 (Finished c') \<and> same_work c c'"
proof (induction "length (pendingJobs (sched_of c))" arbitrary: c rule: less_induct)
  case less
  show ?case
  proof (cases "pendingJobs (sched_of c) = []")
    case True
    from finish_round [OF less.prems(2) True] reach_step [OF less.prems(1)] show ?thesis by blast
  next
    case False
    from assign_round [OF less.prems(2) this] obtain c1 where
      c1: "driver_step parseMore L reliable c (Running c1)" "run_inv L c1" "cfg_phase c1 = Waiting" "same_work c c1"
        "workers (sched_of c1) \<noteq> []" "stoppedWorkers (sched_of c1) = []"
        "length (pendingJobs (sched_of c1)) < length (pendingJobs (sched_of c))" by blast
    from timeout_kills_all [OF c1(2,3,5,6)] obtain c2 where
      c2: "driver_step parseMore L reliable c1 (Running c2)" "fresh_round L c2" "same_work c1 c2"
        "pendingJobs (sched_of c2) = pendingJobs (sched_of c1)" by blast
    have "driver_reaches parseMore L reliable c0 (Running c2)"
      using reach_step [OF reach_step [OF less.prems(1) c1(1)] c2(1)] .
    from less.hyps [OF _ this c2(2)] c1(7) c2(4) obtain c' where
      "driver_reaches parseMore L reliable c0 (Finished c')" "same_work c2 c'" by auto
    with same_work_trans [OF same_work_trans [OF c1(4) c2(3)]] show ?thesis by blast
  qed
qed

lemma start_fresh:
  assumes "start_config parseMore opts spawn p = Inr c" "parser_ok p" "numWorkers opts > 0"
  shows "fresh_round L c"
proof -
  have "cfg_phase c = AtTop" "wipJobs (sched_of c) = {}" "stoppedWorkers (sched_of c) = []"
      "length (workers (sched_of c)) = numWorkers opts"
    using assms(1)
    by (auto simp: start_config_def beginRun_def spawnWorkers_def refillJobs_def initializeWorkers_def checkInvariants_def
        empty_scheduler_def initial_driver_def sched_of_def result_simps split: if_splits dest!: queue_all_fields)
  with start_ok [OF assms] assms(3) show ?thesis by (auto simp: fresh_round_def)
qed

end

end
