(* ===== verification/Compilation_Database.thy ===== *)
theory Compilation_Database
  imports Command_Line Driver_Run
begin

text \<open>
  The compilation database: validation, and the parser that hands out the commands in
  batches (indexer/CompilationDatabase.h and indexer/CompilationDatabase.cc).

  The JSON reader (rapidjson) is not part of the repository. It is represented by the list
  of events it will deliver to its handler; a handler that returns false stops the reader.
  The events of a stream that is malformed JSON end early with \<open>ReaderError\<close>.
\<close>

subsection \<open>Events\<close>

datatype json_event =
    EvNull | EvBool bool | EvNumber string | EvString string
  | EvStartObject | EvKey string | EvEndObject nat | EvStartArray | EvEndArray nat
  | ReaderError

datatype Key = Unset | Directory | File | Arguments | Command | Output

fun key_bit :: "Key \<Rightarrow> 32 word" where
  "key_bit Unset = 0"
| "key_bit Directory = 2"
| "key_bit File = 4"
| "key_bit Arguments = 8"
| "key_bit Command = 16"
| "key_bit Output = 32"

definition key_of :: "string \<Rightarrow> Key" where
  "key_of key =
     (if key = ''directory'' then Directory else if key = ''file'' then File
      else if key = ''command'' then Command else if key = ''arguments'' then Arguments
      else if key = ''output'' then Output else Unset)"

subsection \<open>Validation\<close>

datatype Context = Outermost | InTopLevelArray | InObject | InArgumentsValue | InArgumentsValueArray

record ValidationOptions =
  checkDirectoryPathsAreAbsolute :: bool
  tryDetectOutOfProjectRoot :: bool

text \<open>
  \<open>vh_count\<close> is the state of the inner handler of \<^verbatim>\<open>validateAndCountJobs\<close>, which records the
  element count of the array that was closed last. \<open>presentKeys\<close> has no initialiser in the
  source; its first value is an argument of the model.
\<close>

record ValidateHandler =
  vh_context :: Context
  presentKeys :: "32 word"
  lastKey :: Key
  vh_options :: ValidationOptions
  errorMessage :: string
  vh_warnings :: "string list"
  missing_warnings :: "string list"
  vh_count :: nat

definition mkValidateHandler :: "32 word \<Rightarrow> ValidationOptions \<Rightarrow> ValidateHandler" where
  "mkValidateHandler garbage opts = \<lparr>vh_context = Outermost, presentKeys = garbage, lastKey = Unset,
     vh_options = opts, errorMessage = [], vh_warnings = [], missing_warnings = [], vh_count = 0\<rparr>"

fun context_name :: "Context \<Rightarrow> string" where
  "context_name Outermost = ''outermost context''"
| "context_name InTopLevelArray = ''top-level array context''"
| "context_name InObject = ''command object context''"
| "context_name InArgumentsValue = ''value for the key '' @ single_quoted ''arguments''"
| "context_name InArgumentsValueArray = ''array for the key '' @ single_quoted ''arguments''"

definition markContextIllegal :: "string \<Rightarrow> ValidateHandler \<Rightarrow> bool \<times> ValidateHandler" where
  "markContextIllegal forItem h =
     (False, h\<lparr>errorMessage := ''unexpected '' @ forItem @ '' in '' @ context_name (vh_context h)\<rparr>)"

definition checkNecessaryKeysPresent :: "32 word \<Rightarrow> string option" where
  "checkNecessaryKeysPresent present =
     (let missing = (if and present (key_bit Directory) = 0 then [''directory''] else [])
            @ (if and present (key_bit File) = 0 then [''file''] else [])
            @ (if and present (key_bit Command) = 0 \<and> and present (key_bit Arguments) = 0
               then [''either command or arguments''] else [])
      in if missing = [] then None
         else Some (concat (map (\<lambda>k. k @ '', '') (butlast missing)) @ '' and '' @ last missing))"

definition unexpected :: "string \<Rightarrow> ValidateHandler \<Rightarrow> bool \<times> ValidateHandler" where
  "unexpected what h = (False, h\<lparr>errorMessage := ''unexpected '' @ what\<rparr>)"

definition vh_String :: "llvm_path \<Rightarrow> string \<Rightarrow> ValidateHandler \<Rightarrow> bool \<times> ValidateHandler" where
  "vh_String L str h =
     (case vh_context h of
        InObject \<Rightarrow>
          (if checkDirectoryPathsAreAbsolute (vh_options h) \<and> lastKey h = Directory \<and> tryFrom L str = None
           then (False, h\<lparr>errorMessage := ''expected absolute path for \"directory\" key but found '' @ single_quoted str\<rparr>)
           else (True, h))
      | InArgumentsValueArray \<Rightarrow> (True, h)
      | _ \<Rightarrow> markContextIllegal ''string'' h)"

definition vh_Key :: "string \<Rightarrow> ValidateHandler \<Rightarrow> bool \<times> ValidateHandler" where
  "vh_Key str h =
     (if vh_context h \<noteq> InObject then markContextIllegal (''object key '' @ str) h
      else let sawKey = key_of str;
               h1 = (if sawKey = Arguments then h\<lparr>vh_context := InArgumentsValue\<rparr> else h);
               h2 = (if sawKey = Unset then h1\<lparr>vh_warnings := hset_insert (''unknown key '' @ str) (vh_warnings h1)\<rparr>
                     else h1\<lparr>lastKey := sawKey, presentKeys := or (presentKeys h1) (key_bit sawKey)\<rparr>)
           in (True, h2))"

definition vh_EndObject :: "ValidateHandler \<Rightarrow> bool \<times> ValidateHandler" where
  "vh_EndObject h =
     (if vh_context h \<noteq> InObject then markContextIllegal ''object end ('}')'' h
      else (True, h\<lparr>vh_context := InTopLevelArray, presentKeys := 0,
             missing_warnings := missing_warnings h @
               (case checkNecessaryKeysPresent (presentKeys h) of None \<Rightarrow> [] | Some m \<Rightarrow> [m])\<rparr>))"

definition vh_StartArray :: "ValidateHandler \<Rightarrow> bool \<times> ValidateHandler" where
  "vh_StartArray h =
     (case vh_context h of
        Outermost \<Rightarrow> (True, h\<lparr>vh_context := InTopLevelArray\<rparr>)
      | InArgumentsValue \<Rightarrow> (True, h\<lparr>vh_context := InArgumentsValueArray\<rparr>)
      | _ \<Rightarrow> markContextIllegal ''array start ('[')'' h)"

definition vh_EndArray :: "nat \<Rightarrow> ValidateHandler \<Rightarrow> bool \<times> ValidateHandler" where
  "vh_EndArray elementCount h =
     (case vh_context h of
        InTopLevelArray \<Rightarrow> (True, h\<lparr>vh_context := Outermost, vh_count := elementCount\<rparr>)
      | InArgumentsValueArray \<Rightarrow> (True, h\<lparr>vh_context := InObject, vh_count := elementCount\<rparr>)
      | _ \<Rightarrow> markContextIllegal ''array end (']')'' h)"

definition vh_StartObject :: "ValidateHandler \<Rightarrow> bool \<times> ValidateHandler" where
  "vh_StartObject h =
     (case vh_context h of
        InTopLevelArray \<Rightarrow> (True, h\<lparr>vh_context := InObject\<rparr>)
      | _ \<Rightarrow> markContextIllegal ''object start ('{')'' h)"

definition validate_event :: "llvm_path \<Rightarrow> json_event \<Rightarrow> ValidateHandler \<Rightarrow> bool \<times> ValidateHandler" where
  "validate_event L ev h =
     (case ev of
        EvNull \<Rightarrow> unexpected ''null'' h
      | EvBool b \<Rightarrow> unexpected (''bool '' @ (if b then ''true'' else ''false'')) h
      | EvNumber n \<Rightarrow> unexpected (''number '' @ n) h
      | EvString str \<Rightarrow> vh_String L str h
      | EvStartObject \<Rightarrow> vh_StartObject h
      | EvKey str \<Rightarrow> vh_Key str h
      | EvEndObject _ \<Rightarrow> vh_EndObject h
      | EvStartArray \<Rightarrow> vh_StartArray h
      | EvEndArray n \<Rightarrow> vh_EndArray n h
      | ReaderError \<Rightarrow> (False, h))"

fun validate_all :: "llvm_path \<Rightarrow> json_event list \<Rightarrow> ValidateHandler \<Rightarrow> bool \<times> ValidateHandler" where
  "validate_all L [] h = (True, h)"
| "validate_all L (ev # evs) h =
     (case validate_event L ev h of (ok, h1) \<Rightarrow> if ok then validate_all L evs h1 else (False, h1))"

definition validateAndCountJobs ::
  "llvm_path \<Rightarrow> 32 word \<Rightarrow> ValidationOptions \<Rightarrow> json_event list \<Rightarrow> nat result" where
  "validateAndCountJobs L garbage opts evs =
     (case validate_all L evs (mkValidateHandler garbage opts) of
        (True, h) \<Rightarrow> Inr (vh_count h)
      | (False, h) \<Rightarrow> Inl (ExitFailure (''failed to parse compile_commands.json: '' @ errorMessage h)))"

text \<open>\<open>file\<close> is what opening the file gives: nothing, no file size, or the events.\<close>

datatype compdb_open = CannotOpen | NoFileSize | Opened "json_event list"

definition openAndExitOnErrors ::
  "llvm_path \<Rightarrow> 32 word \<Rightarrow> ValidationOptions \<Rightarrow> compdb_open \<Rightarrow> (nat \<times> json_event list) result" where
  "openAndExitOnErrors L garbage opts file =
     (case file of
        CannotOpen \<Rightarrow> Inl (ExitFailure ''failed to open'')
      | NoFileSize \<Rightarrow> Inl (ExitFailure ''failed to read file size'')
      | Opened evs \<Rightarrow>
          rbind (validateAndCountJobs L garbage opts evs) (\<lambda>commandCount.
            if commandCount = 0 then Inl (ExitFailure ''0 objects in outermost array; nothing to index'')
            else Inr (commandCount, evs)))"

subsection \<open>Extracting command objects\<close>

record CommandObjectHandler =
  previousKey :: Key
  wipCommand :: CommandObject
  parseLimit :: nat
  commands :: "CommandObject list"

definition mkCommandObjectHandler :: "nat \<Rightarrow> CommandObjectHandler" where
  "mkCommandObjectHandler limit =
     \<lparr>previousKey = Unset, wipCommand = default_CommandObject, parseLimit = limit, commands = []\<rparr>"

definition ch_String :: "string \<Rightarrow> CommandObjectHandler \<Rightarrow> CommandObjectHandler result" where
  "ch_String str h =
     (let c = wipCommand h
      in case previousKey h of
           Unset \<Rightarrow> Inl (EnforceFailed ''unexpected input'')
         | Directory \<Rightarrow> Inr (h\<lparr>wipCommand := c\<lparr>workingDirectory := str\<rparr>\<rparr>)
         | File \<Rightarrow> Inr (h\<lparr>wipCommand := c\<lparr>filePath := str\<rparr>\<rparr>)
         | Command \<Rightarrow> Inr (h\<lparr>wipCommand := c\<lparr>arguments := unescapeCommandLine str\<rparr>\<rparr>)
         | Arguments \<Rightarrow> Inr (h\<lparr>wipCommand := c\<lparr>arguments := arguments c @ [str]\<rparr>\<rparr>)
         | Output \<Rightarrow> Inr h)"

definition ch_Key :: "string \<Rightarrow> CommandObjectHandler \<Rightarrow> CommandObjectHandler result" where
  "ch_Key str h =
     enforcing (key_of str \<noteq> Unset) ''unexpected key should've been caught by validation''
       (Inr (h\<lparr>previousKey := key_of str\<rparr>))"

definition ch_EndObject :: "CommandObjectHandler \<Rightarrow> CommandObjectHandler" where
  "ch_EndObject h = h\<lparr>commands := commands h @ [wipCommand h], wipCommand := default_CommandObject,
     previousKey := Unset\<rparr>"

definition reachedLimit :: "CommandObjectHandler \<Rightarrow> bool" where
  "reachedLimit h \<longleftrightarrow> length (commands h) = parseLimit h"

text \<open>The callbacks the class does not define are those of the base class: they do nothing.\<close>

definition handle_event :: "json_event \<Rightarrow> CommandObjectHandler \<Rightarrow> CommandObjectHandler result" where
  "handle_event ev h =
     (case ev of EvString str \<Rightarrow> ch_String str h | EvKey str \<Rightarrow> ch_Key str h
      | EvEndObject _ \<Rightarrow> Inr (ch_EndObject h) | _ \<Rightarrow> Inr h)"

subsection \<open>The resumable parser\<close>

record ParseOptions =
  po_refillCount :: nat
  po_adjustCommandLine :: bool
  skipNonMainFileEntries :: bool
  checkFilesExist :: bool

definition mkParseOptions :: "nat \<Rightarrow> bool \<Rightarrow> ParseOptions result" where
  "mkParseOptions n forTesting =
     enforcing (n > 0) ''refillCount > 0''
       (Inr \<lparr>po_refillCount = n, po_adjustCommandLine = \<not> forTesting,
             skipNonMainFileEntries = \<not> forTesting, checkFilesExist = \<not> forTesting\<rparr>)"

record ResumableParser =
  rp_events :: "json_event list"
  rp_handler :: CommandObjectHandler
  currentIndex :: nat
  rp_options :: ParseOptions
  emittedErrors :: "string list"
  toolchainInfoMap :: "(string \<times> ToolchainInfo option) list"
  skippedNonTuFileExtension :: nat
  skippedNonExistentTuFile :: nat

definition initializeParser :: "json_event list \<Rightarrow> ParseOptions \<Rightarrow> ResumableParser" where
  "initializeParser evs opts = \<lparr>rp_events = evs, rp_handler = mkCommandObjectHandler (po_refillCount opts),
     currentIndex = 0, rp_options = opts, emittedErrors = [], toolchainInfoMap = [],
     skippedNonTuFileExtension = 0, skippedNonExistentTuFile = 0\<rparr>"

text \<open>The file extensions of main files, and the regular expression built from them.\<close>

definition main_extensions :: "string list" where
  "main_extensions = [''c'', ''C'', ''cc'', ''cpp'', ''CPP'', ''cxx'', ''c++'', ''cu'']"

definition fileExtensionRegex :: "tool_env \<Rightarrow> string" where
  "fileExtensionRegex E =
     ''.+('' @ join_with (CHR ''|'') (map (\<lambda>ext. regex_escape E (CHR ''.'' # ext)) main_extensions) @ '')$''"

definition doesFileExist :: "llvm_path \<Rightarrow> tool_env \<Rightarrow> string \<Rightarrow> string \<Rightarrow> bool" where
  "doesFileExist L E path base =
     (if is_absolute L path then path_exists E path
      else path_exists E (base @ preferred_separator # path))"

text \<open>\<^verbatim>\<open>ResumableParser::adjustCommandLine\<close>: the toolchain is looked up once per compiler path.\<close>

definition emitError :: "string \<Rightarrow> ResumableParser \<Rightarrow> ResumableParser" where
  "emitError err p = p\<lparr>emittedErrors := hset_insert err (emittedErrors p)\<rparr>"

definition compilerInvocationPath ::
  "llvm_path \<Rightarrow> tool_env \<Rightarrow> string \<Rightarrow> string \<Rightarrow> ResumableParser \<Rightarrow> (string \<times> ResumableParser) result" where
  "compilerInvocationPath L E directoryPath compiler p =
     (if find_char preferred_separator compiler = None
      then (if find_on_path E compiler = []
            then Inr ([], emitError (''couldn't find '' @ single_quoted compiler @ '' on PATH'') p)
            else rbind (mkAbsolutePath L (find_on_path E compiler)) (\<lambda>a. Inr (a, p)))
      else if \<not> is_absolute L compiler
      then (if is_absolute L directoryPath
            then rbind (mkAbsolutePath L (joinPath directoryPath compiler)) (\<lambda>a. Inr (a, p))
            else Inr ([], p))
      else rbind (mkAbsolutePath L compiler) (\<lambda>a. Inr (a, p)))"

definition adjustCommandLine ::
  "llvm_path \<Rightarrow> tool_env \<Rightarrow> (string \<Rightarrow> string \<Rightarrow> bool) \<Rightarrow> string \<Rightarrow> string list \<Rightarrow> ResumableParser \<Rightarrow>
   (string list \<times> ResumableParser) result" where
  "adjustCommandLine L E rx directoryPath commandLine p =
     (let compiler = hd commandLine;
          fail = (\<lambda>p. (commandLine, p\<lparr>toolchainInfoMap := hmap_emplace compiler None (toolchainInfoMap p)\<rparr>))
      in case map_of (toolchainInfoMap p) compiler of
           Some (Some t) \<Rightarrow> Inr (toolchain_adjustCommandLine rx t commandLine, p)
         | Some None \<Rightarrow> Inr (commandLine, p)
         | None \<Rightarrow>
             rbind (compilerInvocationPath L E directoryPath compiler p) (\<lambda>(path, p1).
               if path = [] then Inr (fail p1)
               else rbind (inferToolchain L E path) (\<lambda>tc.
                 case tc of
                   None \<Rightarrow> Inr (fail p1)
                 | Some t \<Rightarrow>
                     if \<not> isWellFormed E t then Inr (fail p1)
                     else Inr (toolchain_adjustCommandLine rx t commandLine,
                            p1\<lparr>toolchainInfoMap := hmap_emplace compiler (Some t) (toolchainInfoMap p1)\<rparr>))))"

text \<open>Feeding the handler until it has enough commands or the reader is done.\<close>

fun feed :: "json_event list \<Rightarrow> CommandObjectHandler \<Rightarrow> (json_event list \<times> CommandObjectHandler) result" where
  "feed [] h = Inr ([], h)"
| "feed (ev # evs) h =
     (if reachedLimit h then Inr (ev # evs, h) else rbind (handle_event ev h) (feed evs))"

text \<open>One command: it gets its index, and is kept or counted as skipped.\<close>

definition takeCommand ::
  "llvm_path \<Rightarrow> tool_env \<Rightarrow> (string \<Rightarrow> string \<Rightarrow> bool) \<Rightarrow> CommandObject \<Rightarrow> CommandObject list \<times> ResumableParser \<Rightarrow>
   CommandObject list \<times> ResumableParser" where
  "takeCommand L E rx cmd st =
     (let (out, p) = st; cmd1 = cmd\<lparr>index := currentIndex p\<rparr>; p1 = p\<lparr>currentIndex := currentIndex p + 1\<rparr>
      in if skipNonMainFileEntries (rp_options p) \<and> \<not> rx (fileExtensionRegex E) (filePath cmd)
         then (out, p1\<lparr>skippedNonTuFileExtension := skippedNonTuFileExtension p1 + 1\<rparr>)
         else if checkFilesExist (rp_options p) \<and> \<not> doesFileExist L E (filePath cmd) (workingDirectory cmd)
         then (out, p1\<lparr>skippedNonExistentTuFile := skippedNonExistentTuFile p1 + 1\<rparr>)
         else (out @ [cmd1], p1))"

definition takeCommands ::
  "llvm_path \<Rightarrow> tool_env \<Rightarrow> (string \<Rightarrow> string \<Rightarrow> bool) \<Rightarrow> ResumableParser \<Rightarrow> CommandObject list \<times> ResumableParser" where
  "takeCommands L E rx p =
     (case fold (takeCommand L E rx) (commands (rp_handler p)) ([], p) of
        (out, p1) \<Rightarrow> (out, p1\<lparr>rp_handler := (rp_handler p1)\<lparr>commands := []\<rparr>\<rparr>))"

text \<open>Batches are read until one has a command that is kept, or nothing is left.\<close>

lemma handle_event_count:
  "handle_event ev h = Inr h' \<Longrightarrow> length (commands h') \<le> length (commands h) + 1"
  by (auto simp: handle_event_def ch_String_def ch_Key_def ch_EndObject_def Let_def result_simps
      split: json_event.splits Key.splits)

lemma feed_count:
  "feed evs h = Inr (evs', h') \<Longrightarrow> length evs' + length (commands h') \<le> length evs + length (commands h)"
proof (induction evs h rule: feed.induct)
  case (2 ev evs h)
  show ?case
  proof (cases "reachedLimit h")
    case False
    with "2.prems" obtain h1 where "handle_event ev h = Inr h1" "feed evs h1 = Inr (evs', h')"
      by (auto simp: result_simps)
    with "2.IH" [OF False this(1) this(2)] handle_event_count [OF this(1)] show ?thesis by simp
  qed (use "2.prems" in simp)
qed simp

lemma takeCommand_events:
  "rp_events (snd (takeCommand L E rx cmd st)) = rp_events (snd st) \<and>
   rp_handler (snd (takeCommand L E rx cmd st)) = rp_handler (snd st)"
  by (simp add: takeCommand_def Let_def split: prod.splits)

lemma takeCommands_events:
  "rp_events (snd (takeCommands L E rx p)) = rp_events p \<and>
   rp_handler (snd (takeCommands L E rx p)) = (rp_handler p)\<lparr>commands := []\<rparr>"
proof -
  have "rp_events (snd (fold (takeCommand L E rx) cs st)) = rp_events (snd st) \<and>
      rp_handler (snd (fold (takeCommand L E rx) cs st)) = rp_handler (snd st)" for cs st
    by (induction cs arbitrary: st) (simp_all add: takeCommand_events)
  from this [of "commands (rp_handler p)" "([], p)"] show ?thesis
    by (cases "fold (takeCommand L E rx) (commands (rp_handler p)) ([], p)") (simp add: takeCommands_def)
qed

function parseLoop ::
  "llvm_path \<Rightarrow> tool_env \<Rightarrow> (string \<Rightarrow> string \<Rightarrow> bool) \<Rightarrow> ResumableParser \<Rightarrow>
   (CommandObject list \<times> ResumableParser) result" where
  "parseLoop L E rx p =
     (case feed (rp_events p) (rp_handler p) of
        Inl e \<Rightarrow> Inl e
      | Inr (evs, h) \<Rightarrow>
          (let p1 = p\<lparr>rp_events := evs, rp_handler := h\<rparr>
           in if commands h = [] then Inr ([], p1)
              else if fst (takeCommands L E rx p1) = [] then parseLoop L E rx (snd (takeCommands L E rx p1))
              else Inr (takeCommands L E rx p1)))"
  by pat_completeness auto
termination
proof (relation "measure (\<lambda>(L, E, rx, p). length (rp_events p) + length (commands (rp_handler p)))", goal_cases)
  case (2 L E rx p x evs h p1)
  then have "length evs + length (commands h) \<le> length (rp_events p) + length (commands (rp_handler p))"
    using feed_count [of "rp_events p" "rp_handler p" evs h] by simp
  moreover have "rp_events (snd (takeCommands L E rx p1)) = evs"
      "commands (rp_handler (snd (takeCommands L E rx p1))) = []"
    using takeCommands_events [of L E rx p1] "2"(3) by simp_all
  moreover have "length (commands h) > 0" using "2" by simp
  ultimately have "length evs < length (rp_events p) + length (commands (rp_handler p))"
      "rp_events (snd (takeCommands L E rx p1)) = evs" "commands (rp_handler (snd (takeCommands L E rx p1))) = []"
    by linarith+
  then show ?case by simp
qed simp

declare parseLoop.simps [simp del]

definition adjustCommand ::
  "llvm_path \<Rightarrow> tool_env \<Rightarrow> (string \<Rightarrow> string \<Rightarrow> bool) \<Rightarrow> CommandObject \<Rightarrow>
   CommandObject list \<times> ResumableParser \<Rightarrow> (CommandObject list \<times> ResumableParser) result" where
  "adjustCommand L E rx cmd st =
     (if arguments cmd = [] then Inr (fst st @ [cmd], snd st)
      else rbind (adjustCommandLine L E rx (workingDirectory cmd) (arguments cmd) (snd st)) (\<lambda>(args, p).
             Inr (fst st @ [cmd\<lparr>arguments := args\<rparr>], p)))"

definition parseMore ::
  "llvm_path \<Rightarrow> tool_env \<Rightarrow> (string \<Rightarrow> string \<Rightarrow> bool) \<Rightarrow> ResumableParser \<Rightarrow>
   (CommandObject list \<times> ResumableParser) result" where
  "parseMore L E rx p =
     (if rp_events p = [] then Inr ([], p)
      else rbind (parseLoop L E rx p) (\<lambda>(out, p1).
             if po_adjustCommandLine (rp_options p1) then rfold (adjustCommand L E rx) out ([], p1)
             else Inr (out, p1)))"

end
