(* ===== verification/Compdb_Correct.thy ===== *)
theory Compdb_Correct
  imports Compilation_Database
begin

text \<open>
  Correctness of the compilation database code on well-formed databases: validation accepts
  them and counts the entries, and the parser hands out one command per entry, in order,
  however the batches are cut. The last part interprets the locale \<open>command_source\<close> on the
  parser, so that the theorems on runs of the driver hold for it.
\<close>

subsection \<open>Databases and their events\<close>

text \<open>An entry of the database: its members, with a string or a list of strings as value.\<close>

type_synonym compdb_entry = "(string \<times> (string + string list)) list"

fun member_events :: "string \<times> (string + string list) \<Rightarrow> json_event list" where
  "member_events (k, Inl s) = [EvKey k, EvString s]"
| "member_events (k, Inr ss) = EvKey k # EvStartArray # map EvString ss @ [EvEndArray (length ss)]"

definition entry_events :: "compdb_entry \<Rightarrow> json_event list" where
  "entry_events kvs = EvStartObject # concat (map member_events kvs) @ [EvEndObject (length kvs)]"

definition body_events :: "compdb_entry list \<Rightarrow> nat \<Rightarrow> json_event list" where
  "body_events es n = concat (map entry_events es) @ [EvEndArray n]"

definition database_events :: "compdb_entry list \<Rightarrow> json_event list" where
  "database_events es = EvStartArray # body_events es (length es)"

fun member_ok :: "string \<times> (string + string list) \<Rightarrow> bool" where
  "member_ok (k, Inl s) \<longleftrightarrow> key_of k \<noteq> Unset \<and> key_of k \<noteq> Arguments"
| "member_ok (k, Inr ss) \<longleftrightarrow> key_of k = Arguments"

definition entry_ok :: "compdb_entry \<Rightarrow> bool" where
  "entry_ok kvs \<longleftrightarrow> (\<forall>m \<in> set kvs. member_ok m)"

fun add_member :: "string \<times> (string + string list) \<Rightarrow> CommandObject \<Rightarrow> CommandObject" where
  "add_member (k, Inl s) c =
     (case key_of k of Directory \<Rightarrow> c\<lparr>workingDirectory := s\<rparr> | File \<Rightarrow> c\<lparr>filePath := s\<rparr>
      | Command \<Rightarrow> c\<lparr>arguments := unescapeCommandLine s\<rparr> | _ \<Rightarrow> c)"
| "add_member (k, Inr ss) c = c\<lparr>arguments := arguments c @ ss\<rparr>"

definition command_of :: "compdb_entry \<Rightarrow> CommandObject" where
  "command_of kvs = fold add_member kvs default_CommandObject"

subsection \<open>Validation accepts well-formed databases\<close>

definition dirs_ok :: "llvm_path \<Rightarrow> ValidationOptions \<Rightarrow> compdb_entry \<Rightarrow> bool" where
  "dirs_ok L opts kvs \<longleftrightarrow> (checkDirectoryPathsAreAbsolute opts \<longrightarrow>
     (\<forall>(k, v) \<in> set kvs. \<forall>s. v = Inl s \<and> key_of k = Directory \<longrightarrow> is_absolute L s))"

lemma validate_all_append:
  "validate_all L (xs @ ys) h =
     (case validate_all L xs h of (ok, h1) \<Rightarrow> if ok then validate_all L ys h1 else (False, h1))"
  by (induction xs arbitrary: h) (auto split: prod.splits)

lemma validate_strings:
  "vh_context h = InArgumentsValueArray \<Longrightarrow> validate_all L (map EvString ss) h = (True, h)"
  by (induction ss) (simp_all add: validate_event_def vh_String_def)

text \<open>What validation of an entry may change while it stays in one object.\<close>

definition same_base :: "ValidateHandler \<Rightarrow> ValidateHandler \<Rightarrow> bool" where
  "same_base h h' \<longleftrightarrow> vh_options h' = vh_options h \<and> vh_warnings h' = vh_warnings h"

lemma validate_member:
  assumes "vh_context h = InObject" "member_ok m" "dirs_ok L (vh_options h) [m]"
  shows "\<exists>h'. validate_all L (member_events m) h = (True, h') \<and> vh_context h' = InObject \<and> same_base h h'"
proof (cases m)
  case (Pair k v)
  show ?thesis
  proof (cases v)
    case (Inl s)
    then show ?thesis
      using assms Pair
      by (auto simp: validate_event_def vh_Key_def vh_String_def Let_def dirs_ok_def tryFrom_def same_base_def)
  next
    case (Inr ss)
    let ?h1 = "h\<lparr>vh_context := InArgumentsValue, lastKey := Arguments, presentKeys := or (presentKeys h) (key_bit Arguments)\<rparr>"
    have "validate_all L (member_events m) h =
        validate_all L (map EvString ss @ [EvEndArray (length ss)]) (?h1\<lparr>vh_context := InArgumentsValueArray\<rparr>)"
      using assms Pair Inr by (simp add: validate_event_def vh_Key_def vh_StartArray_def Let_def)
    then show ?thesis
      by (simp add: validate_all_append validate_strings validate_event_def vh_EndArray_def same_base_def)
  qed
qed

lemma validate_members:
  assumes "vh_context h = InObject" "entry_ok kvs" "dirs_ok L (vh_options h) kvs"
  shows "\<exists>h'. validate_all L (concat (map member_events kvs)) h = (True, h') \<and> vh_context h' = InObject \<and> same_base h h'"
  using assms
proof (induction kvs arbitrary: h)
  case (Cons m kvs)
  have m: "member_ok m" "dirs_ok L (vh_options h) [m]" "entry_ok kvs" "dirs_ok L (vh_options h) kvs"
    using Cons.prems(2,3) by (auto simp: entry_ok_def dirs_ok_def)
  obtain h1 where h1: "validate_all L (member_events m) h = (True, h1)" "vh_context h1 = InObject" "same_base h h1"
    using validate_member [OF Cons.prems(1) m(1,2)] by blast
  obtain h2 where "validate_all L (concat (map member_events kvs)) h1 = (True, h2)" "vh_context h2 = InObject" "same_base h1 h2"
    using Cons.IH [OF h1(2) m(3)] m(4) h1(3) by (auto simp: same_base_def)
  with h1 show ?case by (auto simp: validate_all_append same_base_def)
qed (simp add: same_base_def)

lemma validate_entry:
  assumes "vh_context h = InTopLevelArray" "entry_ok kvs" "dirs_ok L (vh_options h) kvs"
  shows "\<exists>h'. validate_all L (entry_events kvs) h = (True, h') \<and> vh_context h' = InTopLevelArray \<and> same_base h h'"
proof -
  let ?h = "h\<lparr>vh_context := InObject\<rparr>"
  obtain h1 where h1: "validate_all L (concat (map member_events kvs)) ?h = (True, h1)" "vh_context h1 = InObject" "same_base ?h h1"
    using validate_members [of ?h kvs L] assms by auto
  have "validate_all L (entry_events kvs) h =
      validate_all L (concat (map member_events kvs) @ [EvEndObject (length kvs)]) ?h"
    using assms(1) by (simp add: entry_events_def validate_event_def vh_StartObject_def)
  with h1 show ?thesis
    by (auto simp: validate_all_append validate_event_def vh_EndObject_def same_base_def)
qed

lemma validate_entries:
  assumes "vh_context h = InTopLevelArray" "\<forall>e \<in> set es. entry_ok e \<and> dirs_ok L (vh_options h) e"
  shows "\<exists>h'. validate_all L (concat (map entry_events es)) h = (True, h') \<and> vh_context h' = InTopLevelArray \<and> same_base h h'"
  using assms
proof (induction es arbitrary: h)
  case (Cons e es)
  obtain h1 where h1: "validate_all L (entry_events e) h = (True, h1)" "vh_context h1 = InTopLevelArray" "same_base h h1"
    using validate_entry [OF Cons.prems(1), of e L] Cons.prems(2) by auto
  obtain h2 where "validate_all L (concat (map entry_events es)) h1 = (True, h2)"
      "vh_context h2 = InTopLevelArray" "same_base h1 h2"
    using Cons.IH [OF h1(2)] Cons.prems(2) h1(3) by (auto simp: same_base_def)
  with h1 show ?case by (auto simp: validate_all_append same_base_def)
qed (simp add: same_base_def)

lemma validate_database:
  assumes "\<forall>e \<in> set es. entry_ok e \<and> dirs_ok L opts e"
  shows "\<exists>h. validate_all L (database_events es) (mkValidateHandler garbage opts) = (True, h) \<and>
    vh_count h = length es \<and> vh_warnings h = []"
proof -
  let ?h = "(mkValidateHandler garbage opts)\<lparr>vh_context := InTopLevelArray\<rparr>"
  obtain h1 where h1: "validate_all L (concat (map entry_events es)) ?h = (True, h1)"
      "vh_context h1 = InTopLevelArray" "same_base ?h h1"
    using validate_entries [of ?h es L] assms by (auto simp: mkValidateHandler_def)
  have "validate_all L (database_events es) (mkValidateHandler garbage opts) =
      validate_all L (concat (map entry_events es) @ [EvEndArray (length es)]) ?h"
    by (simp add: database_events_def body_events_def validate_event_def vh_StartArray_def mkValidateHandler_def)
  with h1 show ?thesis
    by (auto simp: validate_all_append validate_event_def vh_EndArray_def same_base_def mkValidateHandler_def)
qed

subsection \<open>The handler builds one command per entry\<close>

fun handle_all :: "json_event list \<Rightarrow> CommandObjectHandler \<Rightarrow> CommandObjectHandler result" where
  "handle_all [] h = Inr h"
| "handle_all (ev # evs) h = rbind (handle_event ev h) (handle_all evs)"

lemma handle_all_append: "handle_all (xs @ ys) h = rbind (handle_all xs h) (handle_all ys)"
  by (induction xs arbitrary: h) (auto simp: rbind_def split: sum.splits)

lemma handle_strings:
  "previousKey h = Arguments \<Longrightarrow> handle_all (map EvString ss) h =
     Inr (h\<lparr>wipCommand := (wipCommand h)\<lparr>arguments := arguments (wipCommand h) @ ss\<rparr>\<rparr>)"
  by (induction ss arbitrary: h) (simp_all add: handle_event_def ch_String_def Let_def)

lemma handle_member:
  assumes "member_ok m"
  shows "\<exists>k. handle_all (member_events m) h = Inr (h\<lparr>previousKey := k, wipCommand := add_member m (wipCommand h)\<rparr>)"
proof (cases m)
  case (Pair k v)
  show ?thesis
  proof (cases v)
    case (Inl s)
    with assms Pair show ?thesis
      by (cases "key_of k") (auto simp: handle_event_def ch_Key_def ch_String_def Let_def)
  next
    case (Inr ss)
    with assms Pair show ?thesis
      by (intro exI [of _ Arguments])
        (simp add: handle_event_def ch_Key_def handle_all_append handle_strings)
  qed
qed

lemma handle_members:
  assumes "entry_ok kvs"
  shows "\<exists>k. handle_all (concat (map member_events kvs)) h =
    Inr (h\<lparr>previousKey := k, wipCommand := fold add_member kvs (wipCommand h)\<rparr>)"
  using assms
proof (induction kvs arbitrary: h)
  case Nil
  show ?case by (intro exI [of _ "previousKey h"]) simp
next
  case (Cons m kvs)
  then have m: "member_ok m" "entry_ok kvs" by (auto simp: entry_ok_def)
  obtain k where k: "handle_all (member_events m) h = Inr (h\<lparr>previousKey := k, wipCommand := add_member m (wipCommand h)\<rparr>)"
    using handle_member [OF m(1)] by blast
  with Cons.IH [OF m(2), of "h\<lparr>previousKey := k, wipCommand := add_member m (wipCommand h)\<rparr>"] show ?case
    by (auto simp: handle_all_append)
qed

definition at_rest :: "CommandObjectHandler \<Rightarrow> bool" where
  "at_rest h \<longleftrightarrow> previousKey h = Unset \<and> wipCommand h = default_CommandObject"

lemma handle_entry:
  assumes "entry_ok kvs" "at_rest h"
  shows "handle_all (entry_events kvs) h = Inr (h\<lparr>commands := commands h @ [command_of kvs]\<rparr>)"
proof -
  obtain k where "handle_all (concat (map member_events kvs)) h =
      Inr (h\<lparr>previousKey := k, wipCommand := command_of kvs\<rparr>)"
    using handle_members [OF assms(1), of h] assms(2) by (auto simp: at_rest_def command_of_def)
  then show ?thesis
    using assms(2) by (simp add: entry_events_def handle_all_append handle_event_def ch_EndObject_def at_rest_def)
qed

subsection \<open>Batches end between entries\<close>

lemma quiet_event:
  assumes "handle_event ev h = Inr h'" "\<forall>n. ev \<noteq> EvEndObject n"
  shows "commands h' = commands h \<and> parseLimit h' = parseLimit h"
  using assms by (auto simp: handle_event_def ch_String_def ch_Key_def Let_def result_simps
      split: json_event.splits Key.splits)

lemma feed_quiet:
  assumes "\<forall>ev \<in> set xs. \<forall>n. ev \<noteq> EvEndObject n" "\<not> reachedLimit h" "handle_all xs h = Inr h'"
  shows "feed (xs @ ys) h = feed ys h' \<and> \<not> reachedLimit h'"
  using assms
proof (induction xs arbitrary: h)
  case (Cons ev xs)
  then obtain h1 where h1: "handle_event ev h = Inr h1" "handle_all xs h1 = Inr h'" by (auto simp: result_simps)
  have "\<not> reachedLimit h1" using quiet_event [OF h1(1)] Cons.prems(1,2) by (simp add: reachedLimit_def)
  with Cons.IH [of h1] h1 Cons.prems show ?case by simp
qed simp

lemma member_events_quiet: "ev \<in> set (member_events m) \<Longrightarrow> ev \<noteq> EvEndObject n"
  by (cases m rule: member_events.cases) auto

lemma feed_entry:
  assumes "entry_ok kvs" "at_rest h" "\<not> reachedLimit h"
  shows "feed (entry_events kvs @ ys) h = feed ys (h\<lparr>commands := commands h @ [command_of kvs]\<rparr>)"
proof -
  let ?xs = "EvStartObject # concat (map member_events kvs)"
  have quiet: "\<forall>ev \<in> set ?xs. \<forall>n. ev \<noteq> EvEndObject n" using member_events_quiet by auto
  obtain h1 where h1: "handle_all ?xs h = Inr h1" "handle_event (EvEndObject (length kvs)) h1 =
      Inr (h\<lparr>commands := commands h @ [command_of kvs]\<rparr>)"
    using handle_entry [OF assms(1,2)]
    by (auto simp: entry_events_def handle_all_append handle_event_def result_simps)
  from feed_quiet [OF quiet assms(3) h1(1), of "EvEndObject (length kvs) # ys"] h1(2) show ?thesis
    by (simp add: entry_events_def)
qed

definition remaining :: "json_event list \<Rightarrow> compdb_entry list \<Rightarrow> bool" where
  "remaining evs es \<longleftrightarrow> (evs = [] \<and> es = []) \<or>
     (\<exists>n. evs = body_events es n \<or> evs = EvStartArray # body_events es n)"

lemma feed_body:
  assumes "\<forall>e \<in> set es. entry_ok e" "at_rest h" "length (commands h) \<le> parseLimit h"
  shows "\<exists>evs. feed (body_events es n) h =
      Inr (evs, h\<lparr>commands := commands h @ map command_of (take (parseLimit h - length (commands h)) es)\<rparr>) \<and>
    remaining evs (drop (parseLimit h - length (commands h)) es)"
  using assms
proof (induction es arbitrary: h)
  case Nil
  show ?case
  proof (cases "reachedLimit h")
    case True
    then show ?thesis by (auto simp: body_events_def remaining_def)
  next
    case False
    then show ?thesis by (simp add: body_events_def handle_event_def remaining_def)
  qed
next
  case (Cons e es)
  show ?case
  proof (cases "reachedLimit h")
    case True
    then have "feed (body_events (e # es) n) h = Inr (body_events (e # es) n, h)"
      by (simp add: body_events_def entry_events_def)
    with True show ?thesis by (auto simp: reachedLimit_def remaining_def)
  next
    case False
    let ?h = "h\<lparr>commands := commands h @ [command_of e]\<rparr>"
    have lt: "length (commands h) < parseLimit h" using False Cons.prems(3) by (simp add: reachedLimit_def)
    then obtain k where k: "parseLimit h - length (commands h) = Suc k" by (metis Suc_diff_Suc)
    have "feed (body_events (e # es) n) h = feed (body_events es n) ?h"
      using feed_entry [OF _ Cons.prems(2) False] Cons.prems(1) by (simp add: body_events_def)
    moreover have "at_rest ?h" "length (commands ?h) \<le> parseLimit ?h" "parseLimit ?h - length (commands ?h) = k"
      using Cons.prems(2) lt k by (auto simp: at_rest_def)
    ultimately show ?thesis using Cons.IH [of ?h] Cons.prems(1) k by simp
  qed
qed

lemma feed_remaining:
  assumes "remaining evs es" "\<forall>e \<in> set es. entry_ok e" "at_rest h" "commands h = []" "parseLimit h > 0"
  shows "\<exists>evs'. feed evs h = Inr (evs', h\<lparr>commands := map command_of (take (parseLimit h) es)\<rparr>) \<and>
    remaining evs' (drop (parseLimit h) es)"
proof -
  have nl: "\<not> reachedLimit h" using assms(4,5) by (simp add: reachedLimit_def)
  have body: "\<exists>evs'. feed (body_events es n) h = Inr (evs', h\<lparr>commands := map command_of (take (parseLimit h) es)\<rparr>) \<and>
    remaining evs' (drop (parseLimit h) es)" for n
    using feed_body [OF assms(2,3), of n] assms(4) by simp
  consider "evs = []" "es = []" | n where "evs = body_events es n" | n where "evs = EvStartArray # body_events es n"
    using assms(1) by (auto simp: remaining_def)
  then show ?thesis
  proof cases
    case 1
    with assms(4) show ?thesis by (simp add: remaining_def)
  next
    case (2 n)
    with body show ?thesis by simp
  next
    case (3 n)
    with body [of n] nl show ?thesis by (simp add: handle_event_def)
  qed
qed

subsection \<open>Which commands are kept\<close>

definition keeps :: "llvm_path \<Rightarrow> tool_env \<Rightarrow> (string \<Rightarrow> string \<Rightarrow> bool) \<Rightarrow> ParseOptions \<Rightarrow> CommandObject \<Rightarrow> bool" where
  "keeps L E rx opts c \<longleftrightarrow>
     (skipNonMainFileEntries opts \<longrightarrow> rx (fileExtensionRegex E) (filePath c)) \<and>
     (checkFilesExist opts \<longrightarrow> doesFileExist L E (filePath c) (workingDirectory c))"

fun kept_from :: "(CommandObject \<Rightarrow> bool) \<Rightarrow> nat \<Rightarrow> CommandObject list \<Rightarrow> CommandObject list" where
  "kept_from P i [] = []"
| "kept_from P i (c # cs) = (if P c then c\<lparr>index := i\<rparr> # kept_from P (Suc i) cs else kept_from P (Suc i) cs)"

lemma kept_from_append: "kept_from P i (xs @ ys) = kept_from P i xs @ kept_from P (i + length xs) ys"
  by (induction xs arbitrary: i) auto

lemma kept_from_index: "c \<in> set (kept_from P i cs) \<Longrightarrow> i \<le> index c \<and> index c < i + length cs"
  by (induction cs arbitrary: i) (fastforce split: if_splits)+

lemma kept_from_distinct: "distinct (map index (kept_from P i cs))"
  by (induction cs arbitrary: i) (use kept_from_index in fastforce)+

lemma takeCommand_spec:
  assumes "st' = takeCommand L E rx c st"
  shows "fst st' = fst st @ kept_from (keeps L E rx (rp_options (snd st))) (currentIndex (snd st)) [c]"
    "currentIndex (snd st') = currentIndex (snd st) + 1" "rp_options (snd st') = rp_options (snd st)"
  using assms by (auto simp: takeCommand_def Let_def keeps_def split: prod.splits)

lemma takeCommands_fold:
  "fst (fold (takeCommand L E rx) cs st) =
     fst st @ kept_from (keeps L E rx (rp_options (snd st))) (currentIndex (snd st)) cs \<and>
   currentIndex (snd (fold (takeCommand L E rx) cs st)) = currentIndex (snd st) + length cs \<and>
   rp_options (snd (fold (takeCommand L E rx) cs st)) = rp_options (snd st)"
proof (induction cs arbitrary: st)
  case (Cons c cs)
  define st1 where "st1 = takeCommand L E rx c st"
  note t = takeCommand_spec [OF st1_def]
  show ?case
    using Cons.IH [of st1] kept_from_append [of "keeps L E rx (rp_options (snd st))" "currentIndex (snd st)" "[c]" cs]
    by (simp add: st1_def [symmetric] t del: kept_from.simps)
qed simp

lemma takeCommands_spec:
  "fst (takeCommands L E rx p) = kept_from (keeps L E rx (rp_options p)) (currentIndex p) (commands (rp_handler p))"
  "currentIndex (snd (takeCommands L E rx p)) = currentIndex p + length (commands (rp_handler p))"
  "rp_options (snd (takeCommands L E rx p)) = rp_options p"
  using takeCommands_fold [of L E rx "commands (rp_handler p)" "([], p)"]
  by (cases "fold (takeCommand L E rx) (commands (rp_handler p)) ([], p)"; simp add: takeCommands_def)+

subsection \<open>The parser hands out the commands of the database\<close>

lemma take_min_add: "take (min n (length xs) + m) xs = take n xs @ take m (drop n xs)"
proof (cases "n \<le> length xs")
  case True
  then show ?thesis using take_add [of n m xs] by (simp add: min_def)
qed simp

lemma drop_min_add: "drop (min n (length xs) + m) xs = drop m (drop n xs)"
  by (cases "n \<le> length xs") (simp_all add: min_def add.commute)

definition parser_at ::
  "ResumableParser \<Rightarrow> compdb_entry list \<Rightarrow> bool" where
  "parser_at p es \<longleftrightarrow> remaining (rp_events p) es \<and> (\<forall>e \<in> set es. entry_ok e) \<and>
     at_rest (rp_handler p) \<and> commands (rp_handler p) = [] \<and> parseLimit (rp_handler p) > 0"

lemma parseLoop_spec:
  assumes "parser_at p es"
  shows "\<exists>m out p'. parseLoop L E rx p = Inr (out, p') \<and> m \<le> length es \<and> parser_at p' (drop m es) \<and>
    out = kept_from (keeps L E rx (rp_options p)) (currentIndex p) (map command_of (take m es)) \<and>
    currentIndex p' = currentIndex p + m \<and> rp_options p' = rp_options p \<and> (out = [] \<longrightarrow> m = length es) \<and>
    parseLimit (rp_handler p') = parseLimit (rp_handler p) \<and> length out \<le> parseLimit (rp_handler p)"
  using assms
proof (induction L E rx p arbitrary: es rule: parseLoop.induct)
  case (1 L E rx p)
  let ?n = "parseLimit (rp_handler p)" and ?P = "keeps L E rx (rp_options p)"
  obtain evs where evs: "feed (rp_events p) (rp_handler p) =
        Inr (evs, (rp_handler p)\<lparr>commands := map command_of (take ?n es)\<rparr>)" "remaining evs (drop ?n es)"
    using feed_remaining [of "rp_events p" es "rp_handler p"] "1.prems" by (auto simp: parser_at_def)
  define h where "h = (rp_handler p)\<lparr>commands := map command_of (take ?n es)\<rparr>"
  define p1 where "p1 = p\<lparr>rp_events := evs, rp_handler := h\<rparr>"
  define p2 where "p2 = snd (takeCommands L E rx p1)"
  have p1: "rp_options p1 = rp_options p" "currentIndex p1 = currentIndex p"
      "commands (rp_handler p1) = map command_of (take ?n es)" "rp_events p1 = evs"
    by (simp_all add: p1_def h_def)
  have out: "fst (takeCommands L E rx p1) = kept_from ?P (currentIndex p) (map command_of (take ?n es))"
    using takeCommands_spec(1) [of L E rx p1] p1 by simp
  have p2: "currentIndex p2 = currentIndex p + min ?n (length es)" "rp_options p2 = rp_options p"
      "rp_events p2 = evs" "rp_handler p2 = h\<lparr>commands := []\<rparr>"
    using takeCommands_spec(2,3) [of L E rx p1] takeCommands_events [of L E rx p1] p1
    by (simp_all add: p2_def p1_def min.commute)
  have at2: "parser_at p2 (drop ?n es)"
    using "1.prems" evs(2) p2 by (auto simp: parser_at_def h_def at_rest_def dest: in_set_dropD)
  have feed: "feed (rp_events p) (rp_handler p) = Inr (evs, h)" using evs(1) by (simp add: h_def)
  show ?case
  proof (cases "es = []")
    case True
    then have "commands h = []" by (simp add: h_def)
    then have "parseLoop L E rx p = Inr ([], p1)"
      using feed by (simp add: parseLoop.simps [of L E rx p] p1_def)
    moreover have "parser_at p1 []" using "1.prems" evs(2) True by (simp add: parser_at_def p1_def h_def at_rest_def)
    ultimately show ?thesis using True p1 by (intro exI [of _ 0]) (simp add: h_def p1_def)
  next
    case False
    have n: "?n > 0" using "1.prems" by (simp add: parser_at_def)
    then have ne: "commands h \<noteq> []" using False by (simp add: h_def)
    have len: "length (kept_from P i cs) \<le> length cs" for P i cs by (induction cs arbitrary: i) (auto simp: le_SucI)
    show ?thesis
    proof (cases "fst (takeCommands L E rx p1) = []")
      case True
      have run: "parseLoop L E rx p = parseLoop L E rx p2"
        using feed ne True by (simp add: parseLoop.simps [of L E rx p] p1_def p2_def)
      from "1.IH" [OF feed refl refl ne, folded p1_def, OF True, folded p2_def, OF at2]
      obtain m out p' where ih: "parseLoop L E rx p2 = Inr (out, p')" "m \<le> length (drop ?n es)"
          "parser_at p' (drop m (drop ?n es))"
          "out = kept_from (keeps L E rx (rp_options p2)) (currentIndex p2) (map command_of (take m (drop ?n es)))"
          "currentIndex p' = currentIndex p2 + m" "rp_options p' = rp_options p2"
          "out = [] \<longrightarrow> m = length (drop ?n es)" "parseLimit (rp_handler p') = parseLimit (rp_handler p2)"
          "length out \<le> parseLimit (rp_handler p2)"
        by blast
      let ?m = "min ?n (length es) + m"
      have split: "take ?m es = take ?n es @ take m (drop ?n es)" "drop ?m es = drop m (drop ?n es)"
        by (rule take_min_add, rule drop_min_add)
      have "out = kept_from ?P (currentIndex p) (map command_of (take ?m es))"
        using ih(4) out True p2 unfolding split by (simp add: kept_from_append min.commute)
      moreover have "?m \<le> length es" "out = [] \<longrightarrow> ?m = length es" using ih(2,7) by auto
      moreover have "parser_at p' (drop ?m es)" using ih(3) split(2) by simp
      moreover have "parseLoop L E rx p = Inr (out, p')" using run ih(1) by simp
      moreover have "currentIndex p' = currentIndex p + ?m" "rp_options p' = rp_options p"
          "parseLimit (rp_handler p') = ?n" "length out \<le> ?n"
        using ih(5,6,8,9) p2 by (simp_all add: h_def)
      ultimately show ?thesis by blast
    next
      case False
      have run: "parseLoop L E rx p = Inr (fst (takeCommands L E rx p1), p2)"
        using feed ne False by (simp add: parseLoop.simps [of L E rx p] p1_def p2_def)
      let ?m = "min ?n (length es)"
      have "take ?m es = take ?n es" "drop ?m es = drop ?n es" by (cases "?n \<le> length es"; simp)+
      moreover have "length (fst (takeCommands L E rx p1)) \<le> ?n"
        unfolding out using len [of ?P "currentIndex p" "map command_of (take ?n es)"] by simp
      moreover have "parseLimit (rp_handler p2) = ?n" "?m \<le> length es" using p2(4) by (simp_all add: h_def)
      ultimately show ?thesis
        using run out p2(1,2) at2 False
        by (intro exI [of _ ?m] exI [of _ "fst (takeCommands L E rx p1)"] exI [of _ p2]) simp
    qed
  qed
qed

text \<open>
  The adjustment of the command lines leaves everything but the arguments. What it needs of
  the system: looking a program up on the search path gives an absolute path or nothing.
\<close>

definition env_ok :: "llvm_path \<Rightarrow> tool_env \<Rightarrow> bool" where
  "env_ok L E \<longleftrightarrow> posix_paths L \<and> (\<forall>x. find_on_path E x = [] \<or> is_absolute L (find_on_path E x))"

definition cmd_key :: "CommandObject \<Rightarrow> nat \<times> string \<times> string" where
  "cmd_key c = (index c, workingDirectory c, filePath c)"

definition parser_core :: "ResumableParser \<Rightarrow> json_event list \<times> CommandObjectHandler \<times> nat \<times> ParseOptions" where
  "parser_core p = (rp_events p, rp_handler p, currentIndex p, rp_options p)"

lemma inferToolchain_returns: "env_ok L E \<Longrightarrow> \<exists>t. inferToolchain L E path = Inr t"
  by (auto simp: inferToolchain_def nvcc_tryInfer_def mkNvccToolchainInfo_def env_ok_def mkAbsolutePath_def tryFrom_def Let_def
      split: option.splits)

lemma compilerInvocationPath_returns:
  assumes "env_ok L E"
  shows "\<exists>path p'. compilerInvocationPath L E dir c p = Inr (path, p') \<and> parser_core p' = parser_core p"
proof -
  have L: "posix_paths L" and f: "find_on_path E c = [] \<or> is_absolute L (find_on_path E c)"
    using assms by (auto simp: env_ok_def)
  have "is_absolute L (joinPath dir c)" if "is_absolute L dir"
    using that L by (cases dir) (auto simp: posix_paths_def joinPath_def starts_with_def)
  then show ?thesis using f
    by (auto simp: compilerInvocationPath_def mkAbsolutePath_def tryFrom_def emitError_def parser_core_def)
qed

lemma adjustCommandLine_returns:
  assumes "env_ok L E"
  shows "\<exists>args p'. adjustCommandLine L E rx dir cl p = Inr (args, p') \<and> parser_core p' = parser_core p"
proof (cases "map_of (toolchainInfoMap p) (hd cl)")
  case (Some t)
  then show ?thesis by (cases t) (simp_all add: adjustCommandLine_def Let_def)
next
  case None
  obtain path p1 where p1: "compilerInvocationPath L E dir (hd cl) p = Inr (path, p1)" "parser_core p1 = parser_core p"
    using compilerInvocationPath_returns [OF assms] by blast
  obtain t where t: "inferToolchain L E path = Inr t" using inferToolchain_returns [OF assms] by blast
  have core: "parser_core (p1\<lparr>toolchainInfoMap := m\<rparr>) = parser_core p" for m
    using p1(2) by (simp add: parser_core_def)
  show ?thesis using None p1 t core by (auto simp: adjustCommandLine_def Let_def split: option.splits)
qed

lemma adjustCommands_returns:
  assumes "env_ok L E"
  shows "\<exists>out' p'. rfold (adjustCommand L E rx) cs (out, p) = Inr (out', p') \<and> parser_core p' = parser_core p \<and>
    map cmd_key out' = map cmd_key out @ map cmd_key cs"
proof (induction cs arbitrary: out p)
  case (Cons c cs)
  obtain c1 p1 where s: "adjustCommand L E rx c (out, p) = Inr (out @ [c1], p1)" "cmd_key c1 = cmd_key c"
      "parser_core p1 = parser_core p"
    using adjustCommandLine_returns [OF assms, of rx "workingDirectory c" "arguments c" p]
    by (cases "arguments c = []") (auto simp: adjustCommand_def cmd_key_def)
  with Cons.IH [of "out @ [c1]" p1] show ?case by auto
qed simp

lemma parser_at_core: "parser_core p = parser_core q \<Longrightarrow> parser_at p es = parser_at q es"
  by (simp add: parser_core_def parser_at_def)

lemma parseMore_spec:
  assumes E: "env_ok L E" and p: "parser_at p es"
  shows "\<exists>m out p'. parseMore L E rx p = Inr (out, p') \<and> m \<le> length es \<and> parser_at p' (drop m es) \<and>
    map cmd_key out = map cmd_key (kept_from (keeps L E rx (rp_options p)) (currentIndex p) (map command_of (take m es))) \<and>
    currentIndex p' = currentIndex p + m \<and> rp_options p' = rp_options p \<and> (out = [] \<longrightarrow> m = length es) \<and>
    length out \<le> parseLimit (rp_handler p)"
proof (cases "rp_events p = []")
  case True
  then have "es = []" using p by (auto simp: parser_at_def remaining_def body_events_def)
  with True p show ?thesis by (simp add: parseMore_def)
next
  case False
  obtain m out p1 where l: "parseLoop L E rx p = Inr (out, p1)" "m \<le> length es" "parser_at p1 (drop m es)"
      "out = kept_from (keeps L E rx (rp_options p)) (currentIndex p) (map command_of (take m es))"
      "currentIndex p1 = currentIndex p + m" "rp_options p1 = rp_options p" "out = [] \<longrightarrow> m = length es"
      "length out \<le> parseLimit (rp_handler p)"
    using parseLoop_spec [OF p, of L E rx] by blast
  show ?thesis
  proof (cases "po_adjustCommandLine (rp_options p1)")
    case False
    have "parseMore L E rx p = Inr (out, p1)" using False \<open>rp_events p \<noteq> []\<close> l(1) by (simp add: parseMore_def)
    with l(2,3,5-8) arg_cong [OF l(4), of "map cmd_key"] show ?thesis by blast
  next
    case True
    obtain out' p2 where a: "rfold (adjustCommand L E rx) out ([], p1) = Inr (out', p2)"
        "parser_core p2 = parser_core p1" "map cmd_key out' = map cmd_key out"
      using adjustCommands_returns [OF E, of rx out "[]" p1] by auto
    have "length out' = length out" using a(3) by (metis length_map)
    moreover have "currentIndex p2 = currentIndex p1" "rp_options p2 = rp_options p1"
      using a(2) by (simp_all add: parser_core_def)
    moreover have "out' = [] \<longrightarrow> out = []" using a(3) by (metis map_is_Nil_conv)
    moreover have "parseMore L E rx p = Inr (out', p2)"
      using \<open>rp_events p \<noteq> []\<close> True l(1) a(1) by (simp add: parseMore_def)
    moreover have "parser_at p2 (drop m es)" using parser_at_core [OF a(2)] l(3) by simp
    ultimately show ?thesis
      using l(2,5-8) a(3) [unfolded l(4)] by (intro exI [of _ m] exI [of _ out'] exI [of _ p2]) simp
  qed
qed

subsection \<open>The parser is a source of commands\<close>

definition parser_ok :: "llvm_path \<Rightarrow> tool_env \<Rightarrow> ResumableParser \<Rightarrow> bool" where
  "parser_ok L E p \<longleftrightarrow> env_ok L E \<and> (\<exists>es. parser_at p es \<and> currentIndex p + length es \<le> 2 ^ 32)"

lemma map_index_key:
  assumes "map cmd_key xs = map cmd_key ys"
  shows "map index xs = map index ys"
proof -
  have eq: "map index zs = map fst (map cmd_key zs)" for zs by (simp add: cmd_key_def comp_def)
  show ?thesis unfolding eq assms ..
qed

lemma parse_batch_indexes:
  assumes "map cmd_key out = map cmd_key (kept_from P i cs)"
  shows "distinct (map index out)" "c \<in> set out \<Longrightarrow> i \<le> index c \<and> index c < i + length cs"
proof -
  have ix: "map index out = map index (kept_from P i cs)" by (rule map_index_key [OF assms])
  then show "distinct (map index out)" using kept_from_distinct by metis
  show "i \<le> index c \<and> index c < i + length cs" if "c \<in> set out"
  proof -
    have "index c \<in> set (map index (kept_from P i cs))" using that ix by (metis image_eqI set_map)
    then show ?thesis using kept_from_index by fastforce
  qed
qed

interpretation compdb: command_source "parseMore L E rx" currentIndex "parser_ok L E" for L E rx
proof
  fix p assume "parser_ok L E p"
  then show "\<exists>cmds p'. parseMore L E rx p = Inr (cmds, p')"
    using parseMore_spec unfolding parser_ok_def by blast
next
  fix p cmds p' assume p: "parser_ok L E p" and run: "parseMore L E rx p = Inr (cmds, p')"
  then obtain es where es: "env_ok L E" "parser_at p es" "currentIndex p + length es \<le> 2 ^ 32"
    by (auto simp: parser_ok_def)
  obtain m where m: "m \<le> length es" "parser_at p' (drop m es)"
      "map cmd_key cmds = map cmd_key (kept_from (keeps L E rx (rp_options p)) (currentIndex p) (map command_of (take m es)))"
      "currentIndex p' = currentIndex p + m"
    using parseMore_spec [OF es(1,2), of rx] run by auto
  have "length (map command_of (take m es)) = m" using m(1) by simp
  with parse_batch_indexes [OF m(3)] m es
  show "parser_ok L E p' \<and> currentIndex p \<le> currentIndex p' \<and> distinct (map index cmds) \<and>
      (\<forall>c \<in> set cmds. currentIndex p \<le> index c \<and> index c < currentIndex p')"
    by (auto simp: parser_ok_def)
next
  fix p assume "parser_ok L E p"
  then show "currentIndex p \<le> 2 ^ 32" by (auto simp: parser_ok_def)
qed

subsection \<open>Reading the whole database\<close>

text \<open>Asking for batches until an empty one comes, at most \<open>n\<close> times.\<close>

fun parse_batches ::
  "llvm_path \<Rightarrow> tool_env \<Rightarrow> (string \<Rightarrow> string \<Rightarrow> bool) \<Rightarrow> nat \<Rightarrow> ResumableParser \<Rightarrow>
   (CommandObject list list \<times> ResumableParser) result" where
  "parse_batches L E rx 0 p = Inr ([], p)"
| "parse_batches L E rx (Suc n) p =
     rbind (parseMore L E rx p) (\<lambda>(cmds, p1).
       if cmds = [] then Inr ([], p1)
       else rbind (parse_batches L E rx n p1) (\<lambda>(bs, p2). Inr (cmds # bs, p2)))"

lemma parseMore_limit:
  assumes "env_ok L E" "parser_at p es" "parseMore L E rx p = Inr (out, p')"
  shows "parseLimit (rp_handler p') = parseLimit (rp_handler p)"
proof (cases "rp_events p = []")
  case True
  then show ?thesis using assms(3) by (simp add: parseMore_def)
next
  case False
  obtain out1 p1 where l: "parseLoop L E rx p = Inr (out1, p1)" "parseLimit (rp_handler p1) = parseLimit (rp_handler p)"
    using parseLoop_spec [OF assms(2), of L E rx] by blast
  show ?thesis
  proof (cases "po_adjustCommandLine (rp_options p1)")
    case True
    obtain out2 p2 where "rfold (adjustCommand L E rx) out1 ([], p1) = Inr (out2, p2)" "parser_core p2 = parser_core p1"
      using adjustCommands_returns [OF assms(1), of rx out1 "[]" p1] by blast
    then show ?thesis using True False l assms(3) by (simp add: parseMore_def parser_core_def)
  next
    case no: False
    then show ?thesis using False l assms(3) by (simp add: parseMore_def)
  qed
qed

lemma parse_batches_spec:
  assumes E: "env_ok L E"
  shows "parser_at p es \<Longrightarrow> length es < n \<Longrightarrow> \<exists>bs p'. parse_batches L E rx n p = Inr (bs, p') \<and> parser_at p' [] \<and>
    map cmd_key (concat bs) =
      map cmd_key (kept_from (keeps L E rx (rp_options p)) (currentIndex p) (map command_of es)) \<and>
    (\<forall>b \<in> set bs. b \<noteq> [] \<and> length b \<le> parseLimit (rp_handler p))"
proof (induction n arbitrary: p es)
  case (Suc n)
  obtain m out p1 where m: "parseMore L E rx p = Inr (out, p1)" "m \<le> length es" "parser_at p1 (drop m es)"
      "map cmd_key out = map cmd_key (kept_from (keeps L E rx (rp_options p)) (currentIndex p) (map command_of (take m es)))"
      "currentIndex p1 = currentIndex p + m" "rp_options p1 = rp_options p" "out = [] \<longrightarrow> m = length es"
      "length out \<le> parseLimit (rp_handler p)"
    using parseMore_spec [OF E Suc.prems(1), of rx] by blast
  show ?case
  proof (cases "out = []")
    case True
    then have "take m es = es" "drop m es = []" using m(7) by simp_all
    with True m show ?thesis by (intro exI [of _ "[]"] exI [of _ p1]) simp
  next
    case False
    have "m \<noteq> 0"
    proof
      assume "m = 0"
      then have "map cmd_key out = []" using m(4) by simp
      with False show False by simp
    qed
    then have "length (drop m es) < n" using Suc.prems(2) m(2) by simp
    from Suc.IH [OF m(3) this] obtain bs p2 where bs: "parse_batches L E rx n p1 = Inr (bs, p2)" "parser_at p2 []"
        "map cmd_key (concat bs) = map cmd_key (kept_from (keeps L E rx (rp_options p1)) (currentIndex p1) (map command_of (drop m es)))"
        "\<forall>b \<in> set bs. b \<noteq> [] \<and> length b \<le> parseLimit (rp_handler p1)"
      by blast
    have "kept_from P i (map command_of es) = kept_from P i (map command_of (take m es)) @
        kept_from P (i + m) (map command_of (drop m es))" for P i
      using kept_from_append [of P i "map command_of (take m es)" "map command_of (drop m es)"] m(2)
      by (simp flip: map_append add: min_absorb2)
    then have "map cmd_key (concat (out # bs)) =
        map cmd_key (kept_from (keeps L E rx (rp_options p)) (currentIndex p) (map command_of es))"
      using m(4-6) bs(3) by simp
    moreover have "parse_batches L E rx (Suc n) p = Inr (out # bs, p2)" using m(1) False bs(1) by simp
    moreover have "\<forall>b \<in> set (out # bs). b \<noteq> [] \<and> length b \<le> parseLimit (rp_handler p)"
      using bs(4) m(8) False parseMore_limit [OF E Suc.prems(1) m(1)] by simp
    ultimately show ?thesis using bs(2) by blast
  qed
qed simp

lemma initial_parser_at:
  assumes "\<forall>e \<in> set es. entry_ok e" "po_refillCount opts > 0"
  shows "parser_at (initializeParser (database_events es) opts) es"
  using assms by (auto simp: parser_at_def initializeParser_def mkCommandObjectHandler_def remaining_def
      database_events_def at_rest_def)

subsection \<open>Properties\<close>

text \<open>
  Validation. A database in which every entry has known keys only, with a list of strings for
  the arguments and strings for everything else, is accepted with its number of entries,
  whatever the uninitialised bit set of present keys contains; an empty one is refused.
\<close>

theorem wellformed_database_accepted:
  assumes "\<forall>e \<in> set es. entry_ok e \<and> dirs_ok L opts e"
  shows "openAndExitOnErrors L garbage opts (Opened (database_events es)) =
    (if es = [] then Inl (ExitFailure ''0 objects in outermost array; nothing to index'')
     else Inr (length es, database_events es))"
  using validate_database [OF assms, of garbage]
  by (auto simp: openAndExitOnErrors_def validateAndCountJobs_def)

definition sample_entry :: "string \<Rightarrow> compdb_entry" where
  "sample_entry f = [(''directory'', Inl ''/p''), (''file'', Inl f), (''arguments'', Inr [''cc'', f])]"

lemma sample_entry_ok: "entry_ok (sample_entry f)" "dirs_ok slash_paths opts (sample_entry f)"
  by (simp_all add: sample_entry_def entry_ok_def key_of_def dirs_ok_def slash_paths_def starts_with_def)

theorem wellformed_database_accepted_witness:
  "openAndExitOnErrors slash_paths 0 \<lparr>checkDirectoryPathsAreAbsolute = True, tryDetectOutOfProjectRoot = False\<rparr>
     (Opened (database_events [sample_entry ''a.c''])) = Inr (1, database_events [sample_entry ''a.c''])"
  using wellformed_database_accepted [of "[sample_entry ''a.c'']" slash_paths _ 0] sample_entry_ok by simp

text \<open>
  A relative directory is refused. When directories have to be absolute, a database in which
  some entry, after well-formed ones, has a relative directory is not accepted.
\<close>

theorem relative_directory_refused:
  assumes "\<forall>e \<in> set es. entry_ok e \<and> dirs_ok L opts e" "entry_ok kvs" "dirs_ok L opts kvs"
    and "checkDirectoryPathsAreAbsolute opts" "\<not> is_absolute L dir"
  shows "\<exists>msg. validateAndCountJobs L garbage opts
    (EvStartArray # concat (map entry_events es) @ EvStartObject # concat (map member_events kvs) @
       EvKey ''directory'' # EvString dir # rest) = Inl (ExitFailure msg)"
proof -
  let ?h = "(mkValidateHandler garbage opts)\<lparr>vh_context := InTopLevelArray\<rparr>"
  obtain h1 where h1: "validate_all L (concat (map entry_events es)) ?h = (True, h1)"
      "vh_context h1 = InTopLevelArray" "same_base ?h h1"
    using validate_entries [of ?h es L] assms(1) by (auto simp: mkValidateHandler_def)
  have o: "vh_options h1 = opts" using h1(3) by (simp add: same_base_def mkValidateHandler_def)
  obtain h2 where h2: "validate_all L (concat (map member_events kvs)) (h1\<lparr>vh_context := InObject\<rparr>) = (True, h2)"
      "vh_context h2 = InObject" "same_base (h1\<lparr>vh_context := InObject\<rparr>) h2"
    using validate_members [of "h1\<lparr>vh_context := InObject\<rparr>" kvs L] assms(2,3) o by auto
  have "vh_options h2 = opts" using h2(3) o by (simp add: same_base_def)
  then have "fst (validate_all L (EvKey ''directory'' # EvString dir # rest) h2) = False"
    using h2(2) assms(4,5)
    by (simp add: validate_event_def vh_Key_def vh_String_def key_of_def Let_def tryFrom_def)
  moreover have "validate_all L (EvStartArray # concat (map entry_events es) @ EvStartObject # concat (map member_events kvs) @
       EvKey ''directory'' # EvString dir # rest) (mkValidateHandler garbage opts) =
      validate_all L (EvKey ''directory'' # EvString dir # rest) h2"
    using h1 h2
    by (simp add: validate_all_append validate_event_def vh_StartArray_def vh_StartObject_def mkValidateHandler_def)
  ultimately show ?thesis
    unfolding validateAndCountJobs_def
    by (cases "validate_all L (EvKey ''directory'' # EvString dir # rest) h2") auto
qed

theorem relative_directory_refused_witness:
  "\<exists>msg. validateAndCountJobs slash_paths 0 \<lparr>checkDirectoryPathsAreAbsolute = True, tryDetectOutOfProjectRoot = False\<rparr>
    (EvStartArray # concat (map entry_events [sample_entry ''a.c'']) @ EvStartObject # concat (map member_events []) @
       EvKey ''directory'' # EvString ''build'' # [EvEndObject 1, EvEndArray 2]) = Inl (ExitFailure msg)"
proof (rule relative_directory_refused)
  show "\<forall>e \<in> set [sample_entry ''a.c'']. entry_ok e \<and> dirs_ok slash_paths
      \<lparr>checkDirectoryPathsAreAbsolute = True, tryDetectOutOfProjectRoot = False\<rparr> e"
    using sample_entry_ok by simp
qed (simp_all add: entry_ok_def dirs_ok_def slash_paths_def starts_with_def)


definition sample_tool_env :: tool_env where
  "sample_tool_env = \<lparr>run = (\<lambda>args. \<lparr>isSuccess = False, stdoutLines = [], stderrLines = []\<rparr>), path_exists = (\<lambda>p. True),
     find_on_path = (\<lambda>p. []), strip_whitespace = id, strip_prefix = (\<lambda>s p. s), str_contains = (\<lambda>s t. False), regex_escape = id\<rparr>"

lemma sample_env_ok: "env_ok slash_paths sample_tool_env"
  using posix_slash_paths by (simp add: env_ok_def sample_tool_env_def)

definition sample_parse_options :: ParseOptions where
  "sample_parse_options = \<lparr>po_refillCount = 2, po_adjustCommandLine = False, skipNonMainFileEntries = False, checkFilesExist = False\<rparr>"


text \<open>
  C7: Batches. Asking the parser for more commands until it has none left takes at most one call
  more than the database has entries, never fails a check, and gives, over all batches and in
  the order of the database, exactly the entries that are kept: those with the extension of a
  main file that exist (as far as the options ask for that). Each command has the position of
  its entry as its index, its directory and its file; no batch before the last is empty, and
  none is larger than the limit.
\<close>

theorem batches_cover_database:
  assumes "env_ok L E" "\<forall>e \<in> set es. entry_ok e" "po_refillCount opts > 0"
  shows "\<exists>bs p'. parse_batches L E rx (length es + 1) (initializeParser (database_events es) opts) = Inr (bs, p') \<and>
    map cmd_key (concat bs) = map cmd_key (kept_from (keeps L E rx opts) 0 (map command_of es)) \<and>
    (\<forall>b \<in> set bs. b \<noteq> [] \<and> length b \<le> po_refillCount opts) \<and>
    (\<exists>p''. parseMore L E rx p' = Inr ([], p''))"
proof -
  let ?p = "initializeParser (database_events es) opts"
  have p: "rp_options ?p = opts" "currentIndex ?p = 0" "parseLimit (rp_handler ?p) = po_refillCount opts"
    by (simp_all add: initializeParser_def mkCommandObjectHandler_def)
  obtain bs p' where bs: "parse_batches L E rx (length es + 1) ?p = Inr (bs, p')" "parser_at p' []"
      "map cmd_key (concat bs) = map cmd_key (kept_from (keeps L E rx opts) 0 (map command_of es))"
      "\<forall>b \<in> set bs. b \<noteq> [] \<and> length b \<le> po_refillCount opts"
    using parse_batches_spec [OF assms(1) initial_parser_at [OF assms(2,3)], of "length es + 1" rx] unfolding p by auto
  moreover have "\<exists>p''. parseMore L E rx p' = Inr ([], p'')" using parseMore_spec [OF assms(1) bs(2), of rx] by auto
  ultimately show ?thesis by blast
qed

theorem batches_cover_database_witness:
  "\<exists>bs p'. parse_batches slash_paths sample_tool_env (\<lambda>r s. True) 4
      (initializeParser (database_events (map sample_entry [''a.c'', ''b.c'', ''c.c''])) sample_parse_options) = Inr (bs, p') \<and>
    map cmd_key (concat bs) = [(0, ''/p'', ''a.c''), (1, ''/p'', ''b.c''), (2, ''/p'', ''c.c'')]"
proof -
  let ?es = "map sample_entry [''a.c'', ''b.c'', ''c.c'']"
  have ok: "\<forall>e \<in> set ?es. entry_ok e" using sample_entry_ok(1) by simp
  have key: "cmd_key ((command_of (sample_entry f))\<lparr>index := i\<rparr>) = (i, ''/p'', f)" for i f
    by (simp add: cmd_key_def command_of_def sample_entry_def key_of_def)
  have "keeps slash_paths sample_tool_env (\<lambda>r s. True) sample_parse_options = (\<lambda>c. True)"
    by (simp add: keeps_def sample_parse_options_def fun_eq_iff)
  then have "map cmd_key (kept_from (keeps slash_paths sample_tool_env (\<lambda>r s. True) sample_parse_options) 0 (map command_of ?es)) =
      [(0, ''/p'', ''a.c''), (1, ''/p'', ''b.c''), (2, ''/p'', ''c.c'')]"
    by (simp add: key)
  moreover have "po_refillCount sample_parse_options > 0" "length ?es + 1 = 4" by (simp_all add: sample_parse_options_def)
  ultimately show ?thesis using batches_cover_database [OF sample_env_ok ok, of sample_parse_options "\<lambda>r s. True"] by metis
qed

end
