(* ===== verification/Symbol_Names.thy ===== *)
theory Symbol_Names
  imports Comparison
begin

text \<open>
  Symbol names and their package-independent suffixes: indexer/SymbolName.h and
  indexer/SymbolName.cc. A name and a suffix are strings, compared by \<open>cmpStr\<close>. The package
  part of a name ends in a dollar sign followed by a blank.
\<close>

type_synonym SymbolNameRef = string
type_synonym SymbolSuffix = string

definition getPackageAgnosticSuffix :: "SymbolNameRef \<Rightarrow> SymbolSuffix option" where
  "getPackageAgnosticSuffix name =
     (case find_char (CHR ''$'') name of
        None \<Rightarrow> None
      | Some ix \<Rightarrow> if ix = length name - 1 \<or> name ! (ix + 1) \<noteq> CHR '' '' then None
                   else Some (drop (ix + 2) name))"

definition addFakePrefix :: "SymbolSuffix \<Rightarrow> SymbolNameRef" where
  "addFakePrefix suffix = ''cxx . . $ '' @ suffix"

lemma suffix_of_fake_prefix: "getPackageAgnosticSuffix (addFakePrefix suffix) = Some suffix"
  by (simp add: getPackageAgnosticSuffix_def addFakePrefix_def)

lemma suffix_iff:
  "getPackageAgnosticSuffix name = Some suffix \<longleftrightarrow>
     (\<exists>pkg. CHR ''$'' \<notin> set pkg \<and> name = pkg @ ''$ '' @ suffix)"
proof
  assume "getPackageAgnosticSuffix name = Some suffix"
  then obtain ix where ix: "find_char (CHR ''$'') name = Some ix" "ix \<noteq> length name - 1"
      "name ! (ix + 1) = CHR '' ''" "suffix = drop (ix + 2) name"
    by (auto simp: getPackageAgnosticSuffix_def split: option.splits if_splits)
  note f = find_char_Some [OF ix(1)]
  have "name = take ix name @ name ! ix # name ! (ix + 1) # drop (ix + 2) name"
    using f ix(2) by (metis Cons_nth_drop_Suc Suc_eq_plus1 Suc_lessI add_2_eq_Suc' diff_Suc_1 id_take_nth_drop)
  with f ix show "\<exists>pkg. CHR ''$'' \<notin> set pkg \<and> name = pkg @ ''$ '' @ suffix"
    by (metis append_Cons append_Nil)
next
  assume "\<exists>pkg. CHR ''$'' \<notin> set pkg \<and> name = pkg @ ''$ '' @ suffix"
  then obtain pkg where "CHR ''$'' \<notin> set pkg" "name = pkg @ ''$ '' @ suffix" by blast
  moreover from this have "find_char (CHR ''$'') name = Some (length pkg)"
    using find_char_append [of "CHR ''$''" pkg] by simp
  ultimately show "getPackageAgnosticSuffix name = Some suffix"
    by (simp add: getPackageAgnosticSuffix_def nth_append)
qed

text \<open>
  The suffix of a symbol name is what follows the first dollar sign, if a blank comes right
  after it; otherwise there is none. The name that stands for a forward declaration that no
  shard defines has the suffix it was made from.
\<close>

theorem package_agnostic_suffix:
  "(getPackageAgnosticSuffix name = Some suffix \<longleftrightarrow>
      (\<exists>pkg. CHR ''$'' \<notin> set pkg \<and> name = pkg @ ''$ '' @ suffix)) \<and>
   getPackageAgnosticSuffix (addFakePrefix suffix) = Some suffix"
  using suffix_iff suffix_of_fake_prefix by blast

end
