(* ===== verification/Scip_Data.thy ===== *)
theory Scip_Data
  imports Symbol_Names
begin

text \<open>
  The messages of the SCIP format as far as the merging code reads or writes them, and the
  orders on them: the first part of indexer/ScipExtras.h and indexer/ScipExtras.cc, and
  proto/fwd_decls.proto. A repeated field is a list, an \<^verbatim>\<open>int32\<close> and an enumeration an
  \<open>int\<close>.
\<close>

subsection \<open>Messages\<close>

record Relationship =
  rel_symbol :: string
  is_reference :: bool
  is_implementation :: bool
  is_type_definition :: bool
  is_definition :: bool

record Diagnostic =
  severity :: int
  code :: string
  message :: string
  source :: string
  tags :: "int list"

record Occurrence =
  range :: "int list"
  symbol :: string
  symbol_roles :: int
  override_documentation :: "string list"
  syntax_kind :: int
  diagnostics :: "Diagnostic list"

record SymbolInformation =
  si_symbol :: string
  si_documentation :: "string list"
  si_relationships :: "Relationship list"

record Document =
  language :: string
  relative_path :: string
  occurrences :: "Occurrence list"
  symbols :: "SymbolInformation list"

record Index =
  documents :: "Document list"
  external_symbols :: "SymbolInformation list"

record ForwardDeclReference =
  ref_relative_path :: string
  ref_range :: "int list"

record ForwardDecl =
  fd_suffix :: SymbolSuffix
  fd_documentation :: string
  fd_references :: "ForwardDeclReference list"

subsection \<open>Orders\<close>

definition compareRelationships :: "Relationship \<Rightarrow> Relationship \<Rightarrow> strong_ordering" where
  "compareRelationships lhs rhs =
     CMP_EXPR (is_definition lhs) (is_definition rhs)
     (CMP_EXPR (is_reference lhs) (is_reference rhs)
     (CMP_EXPR (is_type_definition lhs) (is_type_definition rhs)
     (CMP_EXPR (is_implementation lhs) (is_implementation rhs)
     (CMP_STR (rel_symbol lhs) (rel_symbol rhs) SO_equal))))"

text \<open>Ranges have three elements, or four when they span lines.\<close>

definition valid_range :: "int list \<Rightarrow> bool" where
  "valid_range r \<longleftrightarrow> length r = 3 \<or> length r = 4"

definition compareScipRange :: "int list \<Rightarrow> int list \<Rightarrow> strong_ordering" where
  "compareScipRange a b =
     CMP_EXPR (a ! 0) (b ! 0)
     (CMP_EXPR (a ! 1) (b ! 1)
     (CMP_EXPR (length a) (length b)
     (CMP_EXPR (a ! 2) (b ! 2)
     (if length a = 3 then SO_equal
      else CMP_EXPR (a ! 3) (b ! 3) SO_equal))))"

definition compareDiagnostics :: "Diagnostic \<Rightarrow> Diagnostic \<Rightarrow> strong_ordering" where
  "compareDiagnostics d1 d2 =
     CMP_EXPR (severity d1) (severity d2)
     (CMP_STR (code d1) (code d2)
     (CMP_STR (message d1) (message d2)
     (CMP_STR (source d1) (source d2)
     (compareRange spaceship (tags d1) (tags d2)))))"

definition compareOccurrences :: "Occurrence \<Rightarrow> Occurrence \<Rightarrow> strong_ordering" where
  "compareOccurrences lhs rhs =
     CMP_CHECK (compareScipRange (range lhs) (range rhs))
     (CMP_STR (symbol lhs) (symbol rhs)
     (CMP_EXPR (symbol_roles lhs) (symbol_roles rhs)
     (CMP_EXPR (syntax_kind lhs) (syntax_kind rhs)
     (CMP_CHECK (compareRange (\<lambda>d1 d2. CMP_STR d1 d2 SO_equal)
                   (override_documentation lhs) (override_documentation rhs))
     (CMP_CHECK (compareRange compareDiagnostics (diagnostics lhs) (diagnostics rhs)) SO_equal)))))"

definition valid_occurrence :: "Occurrence \<Rightarrow> bool" where
  "valid_occurrence o' \<longleftrightarrow> valid_range (range o')"

subsection \<open>Each of them is a three-way comparison\<close>

text \<open>Every comparison is that of a tuple of keys, which determine the message.\<close>

lemma CMP_CHECK_right [simp]: "CMP_CHECK c SO_equal = c"
  by (simp add: CMP_CHECK_def)

lemma spaceship_refl [simp]: "spaceship x x = SO_equal"
  by simp

lemmas cmp_key_simps = cmp_then_def CMP_EXPR_def CMP_STR_def

lemmas three_way_keys = three_way_then three_way_spaceship str.three_way_axioms

lemma three_way_Relationship: "three_way compareRelationships (\<lambda>_. True)"
proof -
  let ?k = "\<lambda>r :: Relationship. (is_definition r, is_reference r, is_type_definition r, is_implementation r, rel_symbol r)"
  have "three_way (cmp_then spaceship (cmp_then spaceship (cmp_then spaceship (cmp_then spaceship cmpStr))))
      (\<lambda>p :: bool \<times> bool \<times> bool \<times> bool \<times> string. True)"
    by (rule three_way_mono [OF three_way_then [OF three_way_spaceship three_way_then [OF three_way_spaceship
            three_way_then [OF three_way_spaceship three_way_then [OF three_way_spaceship str.three_way_axioms]]]]]) simp
  then show ?thesis
  proof (rule three_way_vimage_on [where p = ?k])
    show "inj_on ?k {x. True}" by (intro inj_onI Relationship.equality) simp_all
  qed (simp_all add: compareRelationships_def cmp_key_simps)
qed

lemma three_way_range: "three_way compareScipRange valid_range"
proof -
  let ?k = "\<lambda>a :: int list. (a ! 0, a ! 1, length a, a ! 2, if length a = 3 then 0 else a ! 3)"
  have "three_way (cmp_then spaceship (cmp_then spaceship (cmp_then spaceship (cmp_then spaceship spaceship))))
      (\<lambda>p :: int \<times> int \<times> nat \<times> int \<times> int. True)"
    by (rule three_way_mono [OF three_way_then [OF three_way_spaceship three_way_then [OF three_way_spaceship
            three_way_then [OF three_way_spaceship three_way_then [OF three_way_spaceship three_way_spaceship]]]]]) simp
  then show ?thesis
  proof (rule three_way_vimage_on [where p = ?k])
    show "inj_on ?k {x. valid_range x}"
    proof (rule inj_onI)
      fix a b assume "a \<in> {x. valid_range x}" "b \<in> {x. valid_range x}" and k: "?k a = ?k b"
      then have v: "length a = 3 \<or> length a = 4" "length a = length b" by (auto simp: valid_range_def)
      show "a = b"
      proof (rule nth_equalityI)
        fix i assume "i < length a"
        with v have "i = 0 \<or> i = 1 \<or> i = 2 \<or> (i = 3 \<and> length a = 4)" by auto
        with k v show "a ! i = b ! i" by auto
      qed (rule v(2))
    qed
    show "compareScipRange x y = cmp_then spaceship (cmp_then spaceship (cmp_then spaceship
        (cmp_then spaceship spaceship))) (?k x) (?k y)" if "valid_range x" "valid_range y" for x y
      by (cases "length x = length y"; cases "length x = 3")
        (auto simp: compareScipRange_def cmp_key_simps CMP_CHECK_def)
  qed simp
qed

lemma three_way_Diagnostic: "three_way compareDiagnostics (\<lambda>_. True)"
proof -
  let ?k = "\<lambda>d :: Diagnostic. (severity d, code d, message d, source d, tags d)"
  have tags: "three_way (compareRange (spaceship :: int \<Rightarrow> _)) (\<lambda>_. True)"
    using three_way_compareRange [OF three_way_spaceship] by (simp add: list_all_iff [abs_def])
  have "three_way (cmp_then spaceship (cmp_then cmpStr (cmp_then cmpStr (cmp_then cmpStr (compareRange spaceship)))))
      (\<lambda>p :: int \<times> string \<times> string \<times> string \<times> int list. True)"
    by (rule three_way_mono [OF three_way_then [OF three_way_spaceship three_way_then [OF str.three_way_axioms
            three_way_then [OF str.three_way_axioms three_way_then [OF str.three_way_axioms tags]]]]]) simp
  then show ?thesis
  proof (rule three_way_vimage_on [where p = ?k])
    show "inj_on ?k {x. True}" by (intro inj_onI Diagnostic.equality) simp_all
  qed (simp_all add: compareDiagnostics_def cmp_key_simps)
qed

lemma three_way_Occurrence: "three_way compareOccurrences valid_occurrence"
proof -
  let ?k = "\<lambda>x :: Occurrence. (range x, symbol x, symbol_roles x, syntax_kind x, override_documentation x, diagnostics x)"
  have strs: "three_way (compareRange cmpStr) (\<lambda>_. True)"
    using three_way_compareRange [OF str.three_way_axioms] by (simp add: list_all_iff [abs_def])
  have diags: "three_way (compareRange compareDiagnostics) (\<lambda>_. True)"
    using three_way_compareRange [OF three_way_Diagnostic] by (simp add: list_all_iff [abs_def])
  have "three_way (cmp_then compareScipRange (cmp_then cmpStr (cmp_then spaceship (cmp_then spaceship
      (cmp_then (compareRange cmpStr) (compareRange compareDiagnostics))))))
      (\<lambda>p :: int list \<times> string \<times> int \<times> int \<times> string list \<times> Diagnostic list. valid_range (fst p))"
    by (rule three_way_mono [OF three_way_then [OF three_way_range three_way_then [OF str.three_way_axioms
            three_way_then [OF three_way_spaceship three_way_then [OF three_way_spaceship
            three_way_then [OF strs diags]]]]]]) simp
  then show ?thesis
  proof (rule three_way_vimage_on [where p = ?k])
    show "inj_on ?k {x. valid_occurrence x}" by (intro inj_onI Occurrence.equality) simp_all
  qed (simp_all add: compareOccurrences_def valid_occurrence_def cmp_key_simps)
qed

interpretation rels: three_way compareRelationships "\<lambda>_. True"
  by (rule three_way_Relationship)

interpretation occs: three_way compareOccurrences valid_occurrence
  by (rule three_way_Occurrence)

subsection \<open>Properties\<close>

text \<open>
  The order on occurrences. On occurrences with a range of three or four numbers, the
  comparison says equal for equal occurrences only, is antisymmetric and is transitive, so
  that sorting by it is well defined and has one result.
\<close>

theorem occurrence_order:
  assumes "valid_occurrence a" "valid_occurrence b" "valid_occurrence c"
  shows "(compareOccurrences a b = SO_equal \<longleftrightarrow> a = b) \<and>
    compareOccurrences b a = so_flip (compareOccurrences a b) \<and>
    (compareOccurrences a b = SO_less \<and> compareOccurrences b c = SO_less \<longrightarrow> compareOccurrences a c = SO_less)"
  using occs.cmp_eq [OF assms(1,2)] occs.cmp_flip [OF assms(1,2)] occs.cmp_trans [OF assms] by blast

definition occurrence_at :: "int list \<Rightarrow> string \<Rightarrow> Occurrence" where
  "occurrence_at r s = \<lparr>range = r, symbol = s, symbol_roles = 0, override_documentation = [], syntax_kind = 0,
     diagnostics = []\<rparr>"

theorem occurrence_order_witness:
  "compareOccurrences (occurrence_at [1, 2, 5] ''a'') (occurrence_at [1, 2, 3, 0] ''a'') = SO_less \<and>
   compareOccurrences (occurrence_at [1, 2, 3, 0] ''a'') (occurrence_at [1, 2, 5] ''a'') = SO_greater"
  using occurrence_order [of "occurrence_at [1, 2, 5] ''a''" "occurrence_at [1, 2, 3, 0] ''a''" "occurrence_at [1, 2, 5] ''a''"]
  by (simp add: valid_occurrence_def valid_range_def occurrence_at_def compareOccurrences_def compareScipRange_def
      CMP_EXPR_def CMP_CHECK_def spaceship_def)

end
