(* ===== verification/Scip_Builders.thy ===== *)
theory Scip_Builders
  imports Scip_Data Paths
begin

text \<open>
  Merging the shards of an index: the builders of indexer/ScipExtras.h and
  indexer/ScipExtras.cc. A flat hash set is a list without duplicates, a flat hash map an
  association list with distinct keys; the order in which the code sees their elements is
  the record \<open>hash_orders\<close>, one field per element type. Interned names are the names. The
  pointers a \<^verbatim>\<open>ForwardDeclResolver\<close> holds are \<open>SymRef\<close> values that say where the symbol
  is kept. The output stream is the list of the \<^verbatim>\<open>Index\<close> messages written to it.
\<close>

subsection \<open>Symbols\<close>

definition missingDocumentationPlaceholder :: string where
  "missingDocumentationPlaceholder = ''No documentation available.''"

record SymbolInformationBuilder =
  sib_documentation :: "string list"
  sib_relationships :: "Relationship list"
  sib_name :: SymbolNameRef

definition docs_present :: "string list \<Rightarrow> bool" where
  "docs_present docs \<longleftrightarrow> docs \<noteq> [] \<and> docs ! 0 \<noteq> missingDocumentationPlaceholder"

definition builder_hasDocumentation :: "SymbolInformationBuilder \<Rightarrow> bool" where
  "builder_hasDocumentation b \<longleftrightarrow> docs_present (sib_documentation b)"

definition info_hasDocumentation :: "SymbolInformation \<Rightarrow> bool" where
  "info_hasDocumentation si \<longleftrightarrow> docs_present (si_documentation si)"

definition setDocumentation ::
  "string list \<Rightarrow> SymbolInformationBuilder \<Rightarrow> SymbolInformationBuilder result" where
  "setDocumentation newDocumentation b =
     enforcing (\<not> builder_hasDocumentation b) ''!this->hasDocumentation()''
       (Inr (b\<lparr>sib_documentation := newDocumentation\<rparr>))"

definition mergeRelationships ::
  "Relationship list \<Rightarrow> SymbolInformationBuilder \<Rightarrow> SymbolInformationBuilder" where
  "mergeRelationships newRelationships b =
     b\<lparr>sib_relationships := fold hset_insert newRelationships (sib_relationships b)\<rparr>"

definition mkSymbolInformationBuilder ::
  "SymbolNameRef \<Rightarrow> string list \<Rightarrow> Relationship list \<Rightarrow> SymbolInformationBuilder result" where
  "mkSymbolInformationBuilder name docs rels =
     rbind (setDocumentation docs \<lparr>sib_documentation = [], sib_relationships = [], sib_name = name\<rparr>)
       (\<lambda>b. Inr (mergeRelationships rels b))"

record DocumentBuilder =
  db_language :: string
  db_relative_path :: string
  db_occurrences :: "Occurrence list"
  db_symbolInfos :: "(SymbolNameRef \<times> SymbolInformationBuilder) list"

record hash_orders =
  ord_rels :: "Relationship list \<Rightarrow> Relationship list"
  ord_occs :: "Occurrence list \<Rightarrow> Occurrence list"
  ord_names :: "SymbolNameRef list \<Rightarrow> SymbolNameRef list"
  ord_syms :: "(SymbolNameRef \<times> SymbolInformationBuilder) list \<Rightarrow>
               (SymbolNameRef \<times> SymbolInformationBuilder) list"
  ord_docs :: "(string \<times> DocumentBuilder) list \<Rightarrow> (string \<times> DocumentBuilder) list"

definition hash_orders_ok :: "hash_orders \<Rightarrow> bool" where
  "hash_orders_ok H \<longleftrightarrow> permutes_lists (ord_rels H) \<and> permutes_lists (ord_occs H) \<and>
     permutes_lists (ord_names H) \<and> permutes_lists (ord_syms H) \<and> permutes_lists (ord_docs H)"

definition finishSymbol ::
  "hash_orders \<Rightarrow> bool \<Rightarrow> SymbolInformationBuilder \<Rightarrow> SymbolInformation \<Rightarrow> SymbolInformation" where
  "finishSymbol H deterministic b out =
     extractTransformSet (ord_rels H) compareRelationships (sib_relationships b) deterministic
       (\<lambda>rel si. si\<lparr>si_relationships := si_relationships si @ [rel]\<rparr>)
       (out\<lparr>si_documentation := si_documentation out @ sib_documentation b\<rparr>)"

definition namedSymbol :: "SymbolNameRef \<Rightarrow> SymbolInformation" where
  "namedSymbol name = \<lparr>si_symbol = name, si_documentation = [], si_relationships = []\<rparr>"

subsection \<open>Documents\<close>

definition mergeSymbol ::
  "SymbolInformation \<Rightarrow> DocumentBuilder \<Rightarrow> DocumentBuilder result" where
  "mergeSymbol symbolInfo db =
     (let name = si_symbol symbolInfo
      in case map_of (db_symbolInfos db) name of
           None \<Rightarrow>
             rbind (mkSymbolInformationBuilder name (si_documentation symbolInfo) (si_relationships symbolInfo))
               (\<lambda>b. Inr (db\<lparr>db_symbolInfos := hmap_emplace name b (db_symbolInfos db)\<rparr>))
         | Some b \<Rightarrow>
             rbind (if \<not> builder_hasDocumentation b then setDocumentation (si_documentation symbolInfo) b
                    else Inr b) (\<lambda>b1.
               Inr (db\<lparr>db_symbolInfos :=
                 hmap_update name (mergeRelationships (si_relationships symbolInfo) b1) (db_symbolInfos db)\<rparr>)))"

definition mergeDocument :: "Document \<Rightarrow> DocumentBuilder \<Rightarrow> DocumentBuilder result" where
  "mergeDocument doc db =
     rfold mergeSymbol (symbols doc)
       (db\<lparr>db_occurrences := fold hset_insert (occurrences doc) (db_occurrences db)\<rparr>)"

definition mkDocumentBuilder :: "Document \<Rightarrow> DocumentBuilder result" where
  "mkDocumentBuilder first =
     mergeDocument first \<lparr>db_language = language first, db_relative_path = relative_path first,
       db_occurrences = [], db_symbolInfos = []\<rparr>"

definition finishDocument :: "hash_orders \<Rightarrow> bool \<Rightarrow> DocumentBuilder \<Rightarrow> Document" where
  "finishDocument H deterministic db =
     (let soFar = \<lparr>language = db_language db, relative_path = db_relative_path db,
                   occurrences = [], symbols = []\<rparr>;
          withOccs = extractTransformSet (ord_occs H) compareOccurrences (db_occurrences db) deterministic
            (\<lambda>x d. d\<lparr>occurrences := occurrences d @ [x]\<rparr>) soFar
      in extractTransformMap (ord_syms H) cmpStr (db_symbolInfos db) deterministic
           (\<lambda>name b d. d\<lparr>symbols := symbols d @ [finishSymbol H deterministic b (namedSymbol name)]\<rparr>)
           withOccs)"

subsection \<open>Forward declarations\<close>

datatype SymRef =
    InDocument nat nat            \<comment> \<open>\<^verbatim>\<open>documents[i].symbols(k)\<close>\<close>
  | InBuilder string SymbolNameRef \<comment> \<open>\<^verbatim>\<open>multiplyIndexed[path].symbolInfos[name]\<close>\<close>

record ForwardDeclResolver =
  docInternalMap :: "(SymbolSuffix \<times> SymRef) list"
  externalsMap :: "(SymbolSuffix \<times> SymbolNameRef list) list"

definition resolver_insert :: "SymbolSuffix \<Rightarrow> SymRef \<Rightarrow> ForwardDeclResolver \<Rightarrow> ForwardDeclResolver" where
  "resolver_insert suffix ref r = r\<lparr>docInternalMap := hmap_emplace suffix ref (docInternalMap r)\<rparr>"

definition insertNamed :: "SymbolNameRef \<Rightarrow> SymRef \<Rightarrow> ForwardDeclResolver \<Rightarrow> ForwardDeclResolver" where
  "insertNamed name ref r =
     (case getPackageAgnosticSuffix name of None \<Rightarrow> r | Some suffix \<Rightarrow> resolver_insert suffix ref r)"

definition insertExternal :: "SymbolNameRef \<Rightarrow> ForwardDeclResolver \<Rightarrow> ForwardDeclResolver" where
  "insertExternal name r =
     (case getPackageAgnosticSuffix name of
        None \<Rightarrow> r
      | Some suffix \<Rightarrow>
          (let names = (case map_of (externalsMap r) suffix of None \<Rightarrow> [] | Some ns \<Rightarrow> ns)
           in r\<lparr>externalsMap := hmap_update suffix (hset_insert name names) (externalsMap r)\<rparr>))"

definition lookupInDocuments :: "ForwardDeclResolver \<Rightarrow> SymbolSuffix \<Rightarrow> SymRef option" where
  "lookupInDocuments r suffix = map_of (docInternalMap r) suffix"

definition lookupExternals :: "ForwardDeclResolver \<Rightarrow> SymbolSuffix \<Rightarrow> SymbolNameRef list option" where
  "lookupExternals r suffix = map_of (externalsMap r) suffix"

definition deleteExternals :: "SymbolSuffix \<Rightarrow> ForwardDeclResolver \<Rightarrow> ForwardDeclResolver" where
  "deleteExternals suffix r = r\<lparr>externalsMap := hmap_erase suffix (externalsMap r)\<rparr>"

record ForwardDeclOccurrence =
  fdo_symbol :: SymbolNameRef
  fdo_range :: "int list"

text \<open>The range is kept in four numbers; an unused one is -1.\<close>

definition mkForwardDeclOccurrence ::
  "SymbolNameRef \<Rightarrow> ForwardDeclReference \<Rightarrow> ForwardDeclOccurrence result" where
  "mkForwardDeclOccurrence sname ref =
     enforcing (length (ref_range ref) = 3 \<or> length (ref_range ref) = 4)
       ''ref.range_size() == 3 || ref.range_size() == 4''
       (Inr \<lparr>fdo_symbol = sname,
             fdo_range = ref_range ref @ replicate (4 - length (ref_range ref)) (-1)\<rparr>)"

definition empty_occurrence :: Occurrence where
  "empty_occurrence = \<lparr>range = [], symbol = [], symbol_roles = 0, override_documentation = [],
     syntax_kind = 0, diagnostics = []\<rparr>"

definition addTo :: "ForwardDeclOccurrence \<Rightarrow> Occurrence \<Rightarrow> Occurrence" where
  "addTo f occ = occ\<lparr>symbol := fdo_symbol f,
     range := range occ @ takeWhile (\<lambda>x. x \<noteq> -1) (fdo_range f)\<rparr>"

subsection \<open>The index\<close>

record IndexBuilder =
  ib_documents :: "Document list"
  multiplyIndexed :: "(string \<times> DocumentBuilder) list"
  externalSymbols :: "(SymbolNameRef \<times> SymbolInformationBuilder) list"
  forwardDeclOccurenceMap :: "(string \<times> ForwardDeclOccurrence list) list"

definition empty_IndexBuilder :: IndexBuilder where
  "empty_IndexBuilder = \<lparr>ib_documents = [], multiplyIndexed = [], externalSymbols = [],
     forwardDeclOccurenceMap = []\<rparr>"

definition mkDocPath :: "llvm_path \<Rightarrow> string \<Rightarrow> string result" where
  "mkDocPath L value =
     enforcing (value \<noteq> []) ''!value.empty()''
       (enforcing (\<not> is_absolute L value) ''is_relative(value)'' (Inr value))"

definition addDocument ::
  "llvm_path \<Rightarrow> Document \<Rightarrow> bool \<Rightarrow> IndexBuilder \<Rightarrow> IndexBuilder result" where
  "addDocument L doc isMultiplyIndexed ib =
     enforcing (relative_path doc \<noteq> []) ''!doc.relative_path().empty()''
     (rbind (mkDocPath L (relative_path doc)) (\<lambda>docPath.
       if isMultiplyIndexed
       then (case map_of (multiplyIndexed ib) docPath of
               None \<Rightarrow> rbind (mkDocumentBuilder doc) (\<lambda>db.
                         Inr (ib\<lparr>multiplyIndexed := multiplyIndexed ib @ [(docPath, db)]\<rparr>))
             | Some db \<Rightarrow> rbind (mergeDocument doc db) (\<lambda>db1.
                         Inr (ib\<lparr>multiplyIndexed := hmap_update docPath db1 (multiplyIndexed ib)\<rparr>)))
       else enforcing (map_of (multiplyIndexed ib) docPath = None)
              ''found in multiplyIndexed map despite !isMultiplyIndexed''
              (Inr (ib\<lparr>ib_documents := ib_documents ib @ [doc]\<rparr>))))"

definition addExternalSymbolUnchecked ::
  "SymbolNameRef \<Rightarrow> SymbolInformation \<Rightarrow> IndexBuilder \<Rightarrow> IndexBuilder result" where
  "addExternalSymbolUnchecked name extSym ib =
     rbind (mkSymbolInformationBuilder name (si_documentation extSym)
              (fold hset_insert (si_relationships extSym) [])) (\<lambda>b.
       Inr (ib\<lparr>externalSymbols := hmap_emplace name b (externalSymbols ib)\<rparr>))"

definition addExternalSymbol :: "SymbolInformation \<Rightarrow> IndexBuilder \<Rightarrow> IndexBuilder result" where
  "addExternalSymbol extSym ib =
     (let name = si_symbol extSym
      in case map_of (externalSymbols ib) name of
           None \<Rightarrow> addExternalSymbolUnchecked name extSym ib
         | Some b \<Rightarrow>
             rbind (if \<not> builder_hasDocumentation b \<and> length (si_documentation extSym) > 0
                    then setDocumentation (si_documentation extSym) b else Inr b) (\<lambda>b1.
               Inr (ib\<lparr>externalSymbols :=
                 hmap_update name (mergeRelationships (si_relationships extSym) b1) (externalSymbols ib)\<rparr>)))"

text \<open>
  The resolver is filled from the documents in their order, then from the merged documents
  and the external symbols in the order of the hash tables.
\<close>

definition indexed :: "'a list \<Rightarrow> (nat \<times> 'a) list" where
  "indexed xs = zip [0..<length xs] xs"

definition populateFromDocument :: "nat \<times> Document \<Rightarrow> ForwardDeclResolver \<Rightarrow> ForwardDeclResolver" where
  "populateFromDocument p r =
     fold (\<lambda>(k, si). insertNamed (si_symbol si) (InDocument (fst p) k)) (indexed (symbols (snd p))) r"

definition populateFromBuilder ::
  "hash_orders \<Rightarrow> string \<times> DocumentBuilder \<Rightarrow> ForwardDeclResolver \<Rightarrow> ForwardDeclResolver" where
  "populateFromBuilder H p r =
     fold (\<lambda>(name, _). insertNamed name (InBuilder (fst p) name)) (ord_syms H (db_symbolInfos (snd p))) r"

definition populateForwardDeclResolver :: "hash_orders \<Rightarrow> IndexBuilder \<Rightarrow> ForwardDeclResolver" where
  "populateForwardDeclResolver H ib =
     fold (\<lambda>(name, _). insertExternal name) (ord_syms H (externalSymbols ib))
       (fold (populateFromBuilder H) (ord_docs H (multiplyIndexed ib))
          (fold populateFromDocument (indexed (ib_documents ib))
             \<lparr>docInternalMap = [], externalsMap = []\<rparr>))"

definition addForwardDeclOccurrence ::
  "SymbolNameRef \<Rightarrow> ForwardDeclReference \<Rightarrow> IndexBuilder \<Rightarrow> IndexBuilder result" where
  "addForwardDeclOccurrence name ref ib =
     rbind (mkForwardDeclOccurrence name ref) (\<lambda>f.
       let m = forwardDeclOccurenceMap ib; path = ref_relative_path ref;
           old = (case map_of m path of None \<Rightarrow> [] | Some fs \<Rightarrow> fs)
       in Inr (ib\<lparr>forwardDeclOccurenceMap := hmap_update path (old @ [f]) m\<rparr>))"

definition addForwardDeclOccurrences ::
  "SymbolNameRef \<Rightarrow> ForwardDecl \<Rightarrow> IndexBuilder \<Rightarrow> IndexBuilder result" where
  "addForwardDeclOccurrences name forwardDecl ib =
     rfold (addForwardDeclOccurrence name) (fd_references forwardDecl) ib"

definition documentExternal ::
  "ForwardDecl \<Rightarrow> SymbolNameRef \<Rightarrow> IndexBuilder \<Rightarrow> IndexBuilder result" where
  "documentExternal fd symbolName ib =
     (case map_of (externalSymbols ib) symbolName of
        None \<Rightarrow> Inl (EnforceFailed ''lookupExternals succeeded earlier'')
      | Some b \<Rightarrow>
          rbind (if \<not> builder_hasDocumentation b then setDocumentation [fd_documentation fd] b
                 else Inr b) (\<lambda>b1.
            addForwardDeclOccurrences symbolName fd
              (ib\<lparr>externalSymbols := hmap_update symbolName b1 (externalSymbols ib)\<rparr>)))"

definition discardExternals :: "SymbolNameRef list \<Rightarrow> IndexBuilder \<Rightarrow> IndexBuilder" where
  "discardExternals names ib =
     fold (\<lambda>name ib. ib\<lparr>externalSymbols := hmap_erase name (externalSymbols ib)\<rparr>) names ib"

text \<open>Following a pointer of the resolver, to read the symbol's name and to document it.\<close>

definition deref_name :: "IndexBuilder \<Rightarrow> SymRef \<Rightarrow> SymbolNameRef result" where
  "deref_name ib ref =
     (case ref of
        InDocument i k \<Rightarrow>
          (if i < length (ib_documents ib) \<and> k < length (symbols (ib_documents ib ! i))
           then Inr (si_symbol (symbols (ib_documents ib ! i) ! k)) else Inl NullDereference)
      | InBuilder path name \<Rightarrow>
          (case map_of (multiplyIndexed ib) path of None \<Rightarrow> Inl NullDereference
           | Some db \<Rightarrow> (case map_of (db_symbolInfos db) name of None \<Rightarrow> Inl NullDereference
                         | Some b \<Rightarrow> Inr (sib_name b))))"

definition documentInternal :: "string \<Rightarrow> SymRef \<Rightarrow> IndexBuilder \<Rightarrow> IndexBuilder result" where
  "documentInternal documentation ref ib =
     (case ref of
        InDocument i k \<Rightarrow>
          (let doc = ib_documents ib ! i; si = symbols doc ! k
           in if \<not> info_hasDocumentation si
              then Inr (ib\<lparr>ib_documents := (ib_documents ib)[i :=
                     doc\<lparr>symbols := (symbols doc)[k := si\<lparr>si_documentation := [documentation]\<rparr>]\<rparr>]\<rparr>)
              else Inr ib)
      | InBuilder path name \<Rightarrow>
          (case map_of (multiplyIndexed ib) path of None \<Rightarrow> Inl NullDereference
           | Some db \<Rightarrow>
             (case map_of (db_symbolInfos db) name of None \<Rightarrow> Inl NullDereference
              | Some b \<Rightarrow>
                  if \<not> builder_hasDocumentation b
                  then rbind (setDocumentation [documentation] b) (\<lambda>b1.
                    Inr (ib\<lparr>multiplyIndexed := hmap_update path
                      (db\<lparr>db_symbolInfos := hmap_update name b1 (db_symbolInfos db)\<rparr>) (multiplyIndexed ib)\<rparr>))
                  else Inr ib)))"

definition addForwardDeclaration ::
  "hash_orders \<Rightarrow> ForwardDecl \<Rightarrow> ForwardDeclResolver \<times> IndexBuilder \<Rightarrow>
   (ForwardDeclResolver \<times> IndexBuilder) result" where
  "addForwardDeclaration H fd st =
     (let (r, ib) = st; suffix = fd_suffix fd
      in case lookupInDocuments r suffix of
           None \<Rightarrow>
             (case lookupExternals r suffix of
                Some externals \<Rightarrow>
                  enforcing (externals \<noteq> []) ''externals list for a suffix should be non-empty''
                    (rbind (rfold (documentExternal fd) (ord_names H externals) ib) (\<lambda>ib1. Inr (r, ib1)))
              | None \<Rightarrow>
                  (let name = addFakePrefix suffix
                   in rbind (addExternalSymbolUnchecked name
                          \<lparr>si_symbol = [], si_documentation = [fd_documentation fd], si_relationships = []\<rparr> ib)
                        (\<lambda>ib1. rbind (addForwardDeclOccurrences name fd ib1)
                           (\<lambda>ib2. Inr (insertExternal name r, ib2)))))
         | Some ref \<Rightarrow>
             (let (r1, ib1) = (case lookupExternals r suffix of
                   None \<Rightarrow> (r, ib)
                 | Some externals \<Rightarrow> (deleteExternals suffix r, discardExternals externals ib))
              in rbind (deref_name ib1 ref) (\<lambda>name.
                 rbind (if fd_documentation fd \<noteq> [] then documentInternal (fd_documentation fd) ref ib1
                        else Inr ib1) (\<lambda>ib2.
                 rbind (addForwardDeclOccurrences name fd ib2) (\<lambda>ib3. Inr (r1, ib3))))))"

subsection \<open>Writing the index\<close>

record IndexWriter =
  iw_index :: Index
  iw_occurrences :: "(string \<times> ForwardDeclOccurrence list) list"
  iw_output :: "Index list"

definition iw_write :: "IndexWriter \<Rightarrow> IndexWriter" where
  "iw_write w = w\<lparr>iw_output := iw_output w @ [iw_index w],
                  iw_index := \<lparr>documents = [], external_symbols = []\<rparr>\<rparr>"

definition writeDocument :: "bool \<Rightarrow> Document \<Rightarrow> IndexWriter \<Rightarrow> IndexWriter" where
  "writeDocument deterministic doc w =
     (let doc1 = (case map_of (iw_occurrences w) (relative_path doc) of
            None \<Rightarrow> doc
          | Some fs \<Rightarrow>
              (let all = occurrences doc @ map (\<lambda>f. addTo f empty_occurrence) fs
               in doc\<lparr>occurrences := (if deterministic then c_sort (cmp_lt compareOccurrences) all else all)\<rparr>))
      in iw_write (w\<lparr>iw_index := (iw_index w)\<lparr>documents := documents (iw_index w) @ [doc1]\<rparr>\<rparr>))"

definition writeExternalSymbol :: "SymbolInformation \<Rightarrow> IndexWriter \<Rightarrow> IndexWriter" where
  "writeExternalSymbol symbolInfo w =
     (let w1 = w\<lparr>iw_index := (iw_index w)\<lparr>external_symbols := external_symbols (iw_index w) @ [symbolInfo]\<rparr>\<rparr>
      in if length (external_symbols (iw_index w1)) mod 1024 = 0 then iw_write w1 else w1)"

text \<open>The last \<open>iw_write\<close> is that of the writer's destructor.\<close>

definition finishIndex :: "hash_orders \<Rightarrow> bool \<Rightarrow> IndexBuilder \<Rightarrow> Index list" where
  "finishIndex H deterministic ib =
     (let w0 = \<lparr>iw_index = \<lparr>documents = [], external_symbols = []\<rparr>,
                iw_occurrences = forwardDeclOccurenceMap ib, iw_output = []\<rparr>;
          w1 = fold (writeDocument deterministic) (ib_documents ib) w0;
          w2 = extractTransformMap (ord_docs H) cmpStr (multiplyIndexed ib) deterministic
                 (\<lambda>_ db. writeDocument deterministic (finishDocument H deterministic db)) w1;
          w3 = extractTransformMap (ord_syms H) cmpStr (externalSymbols ib) deterministic
                 (\<lambda>name b. writeExternalSymbol (finishSymbol H deterministic b (namedSymbol name))) w2
      in iw_output (iw_write w3))"

end
