(* ===== verification/Forward_Decls.thy ===== *)
theory Forward_Decls
  imports Scip_Merge
begin

text \<open>
  Forward declarations: the invariant that ties a \<^verbatim>\<open>ForwardDeclResolver\<close> to the
  \<^verbatim>\<open>IndexBuilder\<close> it points into, and what \<^verbatim>\<open>addForwardDeclaration\<close> does on each of its
  branches.
\<close>

subsection \<open>The invariant\<close>

definition resolver_ok :: "ForwardDeclResolver \<Rightarrow> IndexBuilder \<Rightarrow> bool" where
  "resolver_ok r ib \<longleftrightarrow>
     (\<forall>s ref. lookupInDocuments r s = Some ref \<longrightarrow>
        (\<exists>n. deref_name ib ref = Inr n \<and> getPackageAgnosticSuffix n = Some s)) \<and>
     (\<forall>s ns. lookupExternals r s = Some ns \<longrightarrow> ns \<noteq> [] \<and> distinct ns \<and>
        (\<forall>n \<in> set ns. getPackageAgnosticSuffix n = Some s \<and> map_of (externalSymbols ib) n \<noteq> None)) \<and>
     (\<forall>s n. map_of (externalSymbols ib) n \<noteq> None \<and> getPackageAgnosticSuffix n = Some s \<longrightarrow>
        (\<exists>ns. lookupExternals r s = Some ns \<and> n \<in> set ns))"

definition fd_ok :: "ForwardDecl \<Rightarrow> bool" where
  "fd_ok fd \<longleftrightarrow> (\<forall>ref \<in> set (fd_references fd). valid_range (ref_range ref))"

lemma resolver_okD:
  assumes "resolver_ok r ib"
  shows "lookupInDocuments r s = Some ref \<Longrightarrow> \<exists>n. deref_name ib ref = Inr n \<and> getPackageAgnosticSuffix n = Some s"
    and "lookupExternals r s = Some ns \<Longrightarrow> ns \<noteq> [] \<and> distinct ns \<and>
      (\<forall>n \<in> set ns. getPackageAgnosticSuffix n = Some s \<and> map_of (externalSymbols ib) n \<noteq> None)"
    and "map_of (externalSymbols ib) n \<noteq> None \<Longrightarrow> getPackageAgnosticSuffix n = Some s \<Longrightarrow>
      \<exists>ns. lookupExternals r s = Some ns \<and> n \<in> set ns"
  using assms unfolding resolver_ok_def by blast+

text \<open>The invariant depends only on the names in the documents and on the keys of the externals.\<close>

lemma resolver_ok_cong:
  assumes "resolver_ok r ib" "\<And>ref. deref_name ib' ref = deref_name ib ref"
    and "\<And>n. map_of (externalSymbols ib') n = None \<longleftrightarrow> map_of (externalSymbols ib) n = None"
  shows "resolver_ok r ib'"
  using assms unfolding resolver_ok_def by simp

lemma deref_name_cong:
  "ib_documents ib' = ib_documents ib \<Longrightarrow> multiplyIndexed ib' = multiplyIndexed ib \<Longrightarrow>
   deref_name ib' ref = deref_name ib ref"
  by (simp add: deref_name_def split: SymRef.splits)

subsection \<open>Occurrences\<close>

definition occs_of :: "(string \<times> ForwardDeclOccurrence list) list \<Rightarrow> string \<Rightarrow> ForwardDeclOccurrence list" where
  "occs_of m path = (case map_of m path of None \<Rightarrow> [] | Some fs \<Rightarrow> fs)"

definition fdo :: "SymbolNameRef \<Rightarrow> ForwardDeclReference \<Rightarrow> ForwardDeclOccurrence" where
  "fdo name ref = \<lparr>fdo_symbol = name,
     fdo_range = ref_range ref @ replicate (4 - length (ref_range ref)) (-1)\<rparr>"

definition refs_in :: "string \<Rightarrow> ForwardDecl \<Rightarrow> ForwardDeclReference list" where
  "refs_in path fd = filter (\<lambda>ref. ref_relative_path ref = path) (fd_references fd)"

lemma mkForwardDeclOccurrence_ok: "valid_range (ref_range ref) \<Longrightarrow> mkForwardDeclOccurrence n ref = Inr (fdo n ref)"
  by (auto simp: mkForwardDeclOccurrence_def valid_range_def fdo_def)

lemma addForwardDeclOccurrences_list:
  assumes "\<forall>ref \<in> set refs. valid_range (ref_range ref)"
  shows "\<exists>m. rfold (addForwardDeclOccurrence n) refs ib = Inr (ib\<lparr>forwardDeclOccurenceMap := m\<rparr>) \<and>
    (\<forall>path. occs_of m path = occs_of (forwardDeclOccurenceMap ib) path @
       map (fdo n) (filter (\<lambda>ref. ref_relative_path ref = path) refs))"
  using assms
proof (induction refs arbitrary: ib)
  case Nil
  then show ?case by (intro exI [of _ "forwardDeclOccurenceMap ib"]) simp
next
  case (Cons ref refs)
  let ?p = "ref_relative_path ref" and ?m = "forwardDeclOccurenceMap ib"
  let ?m1 = "hmap_update ?p (occs_of ?m ?p @ [fdo n ref]) ?m"
  let ?ib = "ib\<lparr>forwardDeclOccurenceMap := ?m1\<rparr>"
  have step: "addForwardDeclOccurrence n ref ib = Inr ?ib"
    using Cons.prems by (simp add: addForwardDeclOccurrence_def mkForwardDeclOccurrence_ok Let_def occs_of_def)
  have occ1: "occs_of ?m1 path = (if path = ?p then occs_of ?m ?p @ [fdo n ref] else occs_of ?m path)" for path
    by (simp add: occs_of_def)
  obtain m where m: "rfold (addForwardDeclOccurrence n) refs ?ib = Inr (?ib\<lparr>forwardDeclOccurenceMap := m\<rparr>)"
      "\<forall>path. occs_of m path = occs_of ?m1 path @ map (fdo n) (filter (\<lambda>ref. ref_relative_path ref = path) refs)"
    using Cons.IH [of ?ib] Cons.prems by auto
  have "\<forall>path. occs_of m path = occs_of ?m path @
      map (fdo n) (filter (\<lambda>ref. ref_relative_path ref = path) (ref # refs))"
    using m(2) occ1 by auto
  with step m(1) show ?case by (intro exI [of _ m]) simp
qed

lemma addForwardDeclOccurrences_ok:
  assumes "fd_ok fd"
  shows "\<exists>m. addForwardDeclOccurrences n fd ib = Inr (ib\<lparr>forwardDeclOccurenceMap := m\<rparr>) \<and>
    (\<forall>path. occs_of m path = occs_of (forwardDeclOccurenceMap ib) path @ map (fdo n) (refs_in path fd))"
  unfolding addForwardDeclOccurrences_def refs_in_def
  by (rule addForwardDeclOccurrences_list) (use assms in \<open>simp add: fd_ok_def\<close>)

text \<open>An occurrence that is added to a document has the range of the reference.\<close>

lemma addTo_fdo:
  assumes "valid_range (ref_range ref)" "-1 \<notin> set (ref_range ref)"
  shows "addTo (fdo n ref) empty_occurrence = empty_occurrence\<lparr>range := ref_range ref, symbol := n\<rparr>"
proof -
  have "takeWhile (\<lambda>x. x \<noteq> -1) (ref_range ref @ replicate k (-1)) = ref_range ref" for k
    using assms(2) by (induction "ref_range ref" arbitrary: ref) (auto simp: takeWhile_append takeWhile_replicate)
  then show ?thesis by (simp add: addTo_def fdo_def empty_occurrence_def)
qed

subsection \<open>Documenting a symbol keeps its name\<close>

lemma update_symbol_name:
  fixes docs :: "Document list"
  assumes "a < length docs" "si_symbol si = si_symbol (symbols (docs ! i) ! k)"
  defines "docs' \<equiv> docs[i := (docs ! i)\<lparr>symbols := (symbols (docs ! i))[k := si]\<rparr>]"
  shows "length (symbols (docs' ! a)) = length (symbols (docs ! a))"
    "b < length (symbols (docs ! a)) \<Longrightarrow> si_symbol (symbols (docs' ! a) ! b) = si_symbol (symbols (docs ! a) ! b)"
  using assms by (cases "a = i"; cases "b = k"; simp)+

lemma documentInternal_ok:
  assumes "deref_name ib ref = Inr n"
  shows "\<exists>ib'. documentInternal doc ref ib = Inr ib' \<and> (\<forall>q. deref_name ib' q = deref_name ib q) \<and>
    externalSymbols ib' = externalSymbols ib \<and> forwardDeclOccurenceMap ib' = forwardDeclOccurenceMap ib"
proof (cases ref)
  case (InDocument i k)
  let ?docs = "ib_documents ib"
  let ?si = "(symbols (?docs ! i) ! k)\<lparr>si_documentation := [doc]\<rparr>"
  let ?ib = "ib\<lparr>ib_documents := ?docs[i := (?docs ! i)\<lparr>symbols := (symbols (?docs ! i))[k := ?si]\<rparr>]\<rparr>"
  have "deref_name ?ib q = deref_name ib q" for q
    using update_symbol_name [where docs = ?docs and i = i and k = k and si = ?si]
    by (cases q) (auto simp: deref_name_def)
  with InDocument show ?thesis by (simp add: documentInternal_def Let_def)
next
  case (InBuilder path name)
  then obtain db b where "map_of (multiplyIndexed ib) path = Some db" "map_of (db_symbolInfos db) name = Some b"
    using assms by (auto simp: deref_name_def split: option.splits)
  with InBuilder show ?thesis
    by (auto simp: documentInternal_def deref_name_def setDocumentation_def split: SymRef.splits option.splits)
qed

lemma discardExternals_fields [simp]:
  "ib_documents (discardExternals ns ib) = ib_documents ib"
  "multiplyIndexed (discardExternals ns ib) = multiplyIndexed ib"
  "forwardDeclOccurenceMap (discardExternals ns ib) = forwardDeclOccurenceMap ib"
  unfolding discardExternals_def by (induction ns arbitrary: ib) auto

lemma discardExternals_map:
  "map_of (externalSymbols (discardExternals ns ib)) n =
     (if n \<in> set ns then None else map_of (externalSymbols ib) n)"
  unfolding discardExternals_def by (induction ns arbitrary: ib) auto

subsection \<open>One forward declaration\<close>

text \<open>
  What a caller sees: the result is again consistent; the references are recorded under the
  given names; documents keep their symbols.
\<close>

definition resolved ::
  "ForwardDecl \<Rightarrow> SymbolNameRef list \<Rightarrow> IndexBuilder \<Rightarrow> ForwardDeclResolver \<times> IndexBuilder \<Rightarrow> bool" where
  "resolved fd names ib st' \<longleftrightarrow> resolver_ok (fst st') (snd st') \<and>
     (\<forall>ref. deref_name (snd st') ref = deref_name ib ref) \<and>
     (\<forall>path. occs_of (forwardDeclOccurenceMap (snd st')) path =
        occs_of (forwardDeclOccurenceMap ib) path @ concat (map (\<lambda>n. map (fdo n) (refs_in path fd)) names))"

text \<open>The definition is in a document: it is the one meant, and external entries go away.\<close>

lemma forward_in_document:
  assumes ok: "resolver_ok r ib" and fd: "fd_ok fd" and look: "lookupInDocuments r (fd_suffix fd) = Some ref"
  shows "\<exists>n r' ib'. addForwardDeclaration H fd (r, ib) = Inr (r', ib') \<and> deref_name ib ref = Inr n \<and>
    resolved fd [n] ib (r', ib') \<and> (\<forall>m. map_of (externalSymbols ib') m =
      (if getPackageAgnosticSuffix m = Some (fd_suffix fd) then None else map_of (externalSymbols ib) m))"
proof -
  let ?s = "fd_suffix fd"
  obtain n where n: "deref_name ib ref = Inr n" using resolver_okD(1) [OF ok look] by blast
  define r1 ib1 where "r1 = (case lookupExternals r ?s of None \<Rightarrow> r | Some _ \<Rightarrow> deleteExternals ?s r)"
    and "ib1 = (case lookupExternals r ?s of None \<Rightarrow> ib | Some ns \<Rightarrow> discardExternals ns ib)"
  have d1: "deref_name ib1 q = deref_name ib q" for q
    by (rule deref_name_cong) (simp_all add: ib1_def split: option.splits)
  have o1: "forwardDeclOccurenceMap ib1 = forwardDeclOccurenceMap ib" by (simp add: ib1_def split: option.splits)
  have e1: "map_of (externalSymbols ib1) m =
      (if getPackageAgnosticSuffix m = Some ?s then None else map_of (externalSymbols ib) m)" for m
  proof (cases "lookupExternals r ?s")
    case None
    then show ?thesis
      using resolver_okD(3) [OF ok, of m ?s] by (cases "map_of (externalSymbols ib) m") (auto simp: ib1_def)
  next
    case (Some ns)
    then show ?thesis
      using resolver_okD(2) [OF ok Some] resolver_okD(3) [OF ok, of m ?s]
      by (cases "map_of (externalSymbols ib) m") (auto simp: ib1_def discardExternals_map)
  qed
  have l1: "lookupInDocuments r1 q = lookupInDocuments r q" "lookupExternals r1 q =
      (if q = ?s then None else lookupExternals r q)" for q
    by (auto simp: r1_def deleteExternals_def lookupInDocuments_def lookupExternals_def split: option.splits)
  have ok1: "resolver_ok r1 ib1"
    using ok unfolding resolver_ok_def d1 l1 e1 by (auto split: if_splits)
  obtain ib2 where ib2: "(if fd_documentation fd \<noteq> [] then documentInternal (fd_documentation fd) ref ib1 else Inr ib1)
        = Inr ib2" "\<forall>q. deref_name ib2 q = deref_name ib1 q" "externalSymbols ib2 = externalSymbols ib1"
      "forwardDeclOccurenceMap ib2 = forwardDeclOccurenceMap ib1"
    using documentInternal_ok [of ib1 ref n "fd_documentation fd"] n d1 by (cases "fd_documentation fd = []") auto
  obtain m where m: "addForwardDeclOccurrences n fd ib2 = Inr (ib2\<lparr>forwardDeclOccurenceMap := m\<rparr>)"
      "\<forall>path. occs_of m path = occs_of (forwardDeclOccurenceMap ib2) path @ map (fdo n) (refs_in path fd)"
    using addForwardDeclOccurrences_ok [OF fd] by blast
  let ?ib3 = "ib2\<lparr>forwardDeclOccurenceMap := m\<rparr>"
  have pair: "(case lookupExternals r ?s of None \<Rightarrow> (r, ib)
      | Some externals \<Rightarrow> (deleteExternals ?s r, discardExternals externals ib)) = (r1, ib1)"
    by (simp add: r1_def ib1_def split: option.splits)
  have run: "addForwardDeclaration H fd (r, ib) = Inr (r1, ?ib3)"
    using look n d1 ib2(1) m(1) by (simp add: addForwardDeclaration_def pair Let_def)
  have d3: "deref_name ?ib3 q = deref_name ib q" for q
    using deref_name_cong [of ?ib3 ib2 q] ib2(2) d1 by simp
  have "resolver_ok r1 ?ib3"
    by (rule resolver_ok_cong [OF ok1]) (use d3 d1 ib2(3) in simp_all)
  then have "resolved fd [n] ib (r1, ?ib3)" using d3 m(2) ib2(4) o1 by (simp add: resolved_def)
  with run n e1 ib2(3) show ?thesis by auto
qed

text \<open>Only external symbols have the suffix: they get the documentation and the references.\<close>

lemma documentExternal_ok:
  assumes "map_of (externalSymbols ib) n \<noteq> None" "fd_ok fd"
  shows "\<exists>ib'. documentExternal fd n ib = Inr ib' \<and> ib_documents ib' = ib_documents ib \<and>
    multiplyIndexed ib' = multiplyIndexed ib \<and>
    (\<forall>m. map_of (externalSymbols ib') m = None \<longleftrightarrow> map_of (externalSymbols ib) m = None) \<and>
    (\<forall>path. occs_of (forwardDeclOccurenceMap ib') path =
       occs_of (forwardDeclOccurenceMap ib) path @ map (fdo n) (refs_in path fd))"
proof -
  obtain b where b: "map_of (externalSymbols ib) n = Some b" using assms(1) by blast
  obtain b1 where b1: "(if \<not> builder_hasDocumentation b then setDocumentation [fd_documentation fd] b else Inr b) = Inr b1"
    by (cases "builder_hasDocumentation b") (simp_all add: setDocumentation_def)
  let ?ib = "ib\<lparr>externalSymbols := hmap_update n b1 (externalSymbols ib)\<rparr>"
  obtain m where m: "addForwardDeclOccurrences n fd ?ib = Inr (?ib\<lparr>forwardDeclOccurenceMap := m\<rparr>)"
    "\<forall>path. occs_of m path = occs_of (forwardDeclOccurenceMap ?ib) path @ map (fdo n) (refs_in path fd)"
    using addForwardDeclOccurrences_ok [OF assms(2)] by blast
  have "documentExternal fd n ib = Inr (?ib\<lparr>forwardDeclOccurenceMap := m\<rparr>)"
    using b b1 m(1) by (simp add: documentExternal_def)
  with m(2) b show ?thesis by simp
qed

lemma documentExternals_ok:
  assumes "\<forall>n \<in> set ns. map_of (externalSymbols ib) n \<noteq> None" "fd_ok fd"
  shows "\<exists>ib'. rfold (documentExternal fd) ns ib = Inr ib' \<and> ib_documents ib' = ib_documents ib \<and>
    multiplyIndexed ib' = multiplyIndexed ib \<and>
    (\<forall>m. map_of (externalSymbols ib') m = None \<longleftrightarrow> map_of (externalSymbols ib) m = None) \<and>
    (\<forall>path. occs_of (forwardDeclOccurenceMap ib') path =
       occs_of (forwardDeclOccurenceMap ib) path @ concat (map (\<lambda>n. map (fdo n) (refs_in path fd)) ns))"
  using assms(1)
proof (induction ns arbitrary: ib)
  case (Cons n ns)
  then obtain ib1 where ib1: "documentExternal fd n ib = Inr ib1" "ib_documents ib1 = ib_documents ib"
      "multiplyIndexed ib1 = multiplyIndexed ib"
      "\<forall>m. map_of (externalSymbols ib1) m = None \<longleftrightarrow> map_of (externalSymbols ib) m = None"
      "\<forall>path. occs_of (forwardDeclOccurenceMap ib1) path =
         occs_of (forwardDeclOccurenceMap ib) path @ map (fdo n) (refs_in path fd)"
    using documentExternal_ok [OF _ assms(2), of ib n] by auto
  from ib1(4) Cons.prems have "\<forall>n \<in> set ns. map_of (externalSymbols ib1) n \<noteq> None" by simp
  from Cons.IH [OF this] ib1 show ?case by auto
qed simp

lemma forward_in_externals:
  assumes ok: "resolver_ok r ib" and fd: "fd_ok fd" and H: "permutes_lists (ord_names H)"
    and look: "lookupInDocuments r (fd_suffix fd) = None" "lookupExternals r (fd_suffix fd) = Some ns"
  shows "\<exists>ib'. addForwardDeclaration H fd (r, ib) = Inr (r, ib') \<and>
    resolved fd (ord_names H ns) ib (r, ib') \<and>
    (\<forall>m. map_of (externalSymbols ib') m = None \<longleftrightarrow> map_of (externalSymbols ib) m = None)"
proof -
  have ns: "ns \<noteq> []" "\<forall>n \<in> set ns. map_of (externalSymbols ib) n \<noteq> None"
    using resolver_okD(2) [OF ok look(2)] by auto
  moreover have "set (ord_names H ns) = set ns" using H by (metis mset_eq_setD permutes_lists_def)
  ultimately obtain ib' where ib': "rfold (documentExternal fd) (ord_names H ns) ib = Inr ib'"
      "ib_documents ib' = ib_documents ib" "multiplyIndexed ib' = multiplyIndexed ib"
      "\<forall>m. map_of (externalSymbols ib') m = None \<longleftrightarrow> map_of (externalSymbols ib) m = None"
      "\<forall>path. occs_of (forwardDeclOccurenceMap ib') path =
       occs_of (forwardDeclOccurenceMap ib) path @ concat (map (\<lambda>n. map (fdo n) (refs_in path fd)) (ord_names H ns))"
    using documentExternals_ok [OF _ fd, of "ord_names H ns" ib] by auto
  have d: "deref_name ib' q = deref_name ib q" for q by (rule deref_name_cong) (use ib' in simp_all)
  have "resolver_ok r ib'" by (rule resolver_ok_cong [OF ok d]) (use ib'(4) in simp)
  with d ib'(5) have "resolved fd (ord_names H ns) ib (r, ib')" by (simp add: resolved_def)
  with ib' ns look show ?thesis by (auto simp: addForwardDeclaration_def Let_def)
qed

text \<open>The suffix is unknown: an external symbol with a made-up package takes it.\<close>

lemma forward_unknown:
  assumes ok: "resolver_ok r ib" and fd: "fd_ok fd"
    and look: "lookupInDocuments r (fd_suffix fd) = None" "lookupExternals r (fd_suffix fd) = None"
  defines "n \<equiv> addFakePrefix (fd_suffix fd)"
  shows "\<exists>r' ib'. addForwardDeclaration H fd (r, ib) = Inr (r', ib') \<and> resolved fd [n] ib (r', ib') \<and>
    map_of (externalSymbols ib') = (map_of (externalSymbols ib))(n \<mapsto>
      \<lparr>sib_documentation = [fd_documentation fd], sib_relationships = [], sib_name = n\<rparr>)"
proof -
  let ?s = "fd_suffix fd"
  let ?b = "\<lparr>sib_documentation = [fd_documentation fd], sib_relationships = [], sib_name = n\<rparr>"
  have suf: "getPackageAgnosticSuffix n = Some ?s" unfolding n_def by (rule suffix_of_fake_prefix)
  then have new: "map_of (externalSymbols ib) n = None" using resolver_okD(3) [OF ok, of n ?s] look(2)
    by (cases "map_of (externalSymbols ib) n") auto
  let ?ib1 = "ib\<lparr>externalSymbols := externalSymbols ib @ [(n, ?b)]\<rparr>"
  have add: "addExternalSymbolUnchecked n \<lparr>si_symbol = [], si_documentation = [fd_documentation fd], si_relationships = []\<rparr> ib
      = Inr ?ib1"
    using new by (simp add: addExternalSymbolUnchecked_def mkSymbolInformationBuilder_def setDocumentation_def
        builder_hasDocumentation_def mergeRelationships_def hmap_emplace_def)
  obtain m where m: "addForwardDeclOccurrences n fd ?ib1 = Inr (?ib1\<lparr>forwardDeclOccurenceMap := m\<rparr>)"
    "\<forall>path. occs_of m path = occs_of (forwardDeclOccurenceMap ?ib1) path @ map (fdo n) (refs_in path fd)"
    using addForwardDeclOccurrences_ok [OF fd] by blast
  let ?ib2 = "?ib1\<lparr>forwardDeclOccurenceMap := m\<rparr>" and ?r = "insertExternal n r"
  have run: "addForwardDeclaration H fd (r, ib) = Inr (?r, ?ib2)"
    using look add m(1) by (simp add: addForwardDeclaration_def Let_def n_def)
  have d: "deref_name ?ib2 q = deref_name ib q" for q by (rule deref_name_cong) simp_all
  have e: "map_of (externalSymbols ?ib2) = (map_of (externalSymbols ib))(n \<mapsto> ?b)"
    using new by (auto simp: fun_eq_iff map_add_def split: option.splits)
  have l: "lookupInDocuments ?r q = lookupInDocuments r q"
      "lookupExternals ?r q = (if q = ?s then Some [n] else lookupExternals r q)" for q
    using suf look(2)
    by (auto simp: insertExternal_def Let_def lookupInDocuments_def lookupExternals_def hset_insert_def)
  have "resolver_ok ?r ?ib2"
    using ok suf look(2) unfolding resolver_ok_def d e l by (auto split: if_splits) fastforce
  then have "resolved fd [n] ib (?r, ?ib2)" using d m(2) by (simp add: resolved_def)
  with run e show ?thesis by blast
qed

subsection \<open>Many forward declarations\<close>

lemma addForwardDeclaration_ok:
  assumes "resolver_ok r ib" "fd_ok fd" "permutes_lists (ord_names H)"
  shows "\<exists>st'. addForwardDeclaration H fd (r, ib) = Inr st' \<and> resolver_ok (fst st') (snd st')"
proof (cases "lookupInDocuments r (fd_suffix fd)")
  case None
  show ?thesis
  proof (cases "lookupExternals r (fd_suffix fd)")
    case None
    with \<open>lookupInDocuments r (fd_suffix fd) = None\<close> forward_unknown [OF assms(1,2), of H]
    show ?thesis by (fastforce simp: resolved_def)
  next
    case (Some ns)
    with \<open>lookupInDocuments r (fd_suffix fd) = None\<close> forward_in_externals [OF assms(1-3), of ns]
    show ?thesis by (fastforce simp: resolved_def)
  qed
next
  case (Some ref)
  from forward_in_document [OF assms(1,2) this, of H] show ?thesis by (fastforce simp: resolved_def)
qed

interpretation fwd: checked_machine "addForwardDeclaration H" "\<lambda>st. resolver_ok (fst st) (snd st)"
  "\<lambda>fd _. fd_ok fd \<and> permutes_lists (ord_names H)" for H
  by unfold_locales (use addForwardDeclaration_ok in fastforce)

subsection \<open>The resolver at the start\<close>

definition internal_ok :: "IndexBuilder \<Rightarrow> ForwardDeclResolver \<Rightarrow> bool" where
  "internal_ok ib r \<longleftrightarrow> (\<forall>s ref. lookupInDocuments r s = Some ref \<longrightarrow>
     (\<exists>n. deref_name ib ref = Inr n \<and> getPackageAgnosticSuffix n = Some s))"

definition externals_ok :: "SymbolNameRef set \<Rightarrow> ForwardDeclResolver \<Rightarrow> bool" where
  "externals_ok N r \<longleftrightarrow>
     (\<forall>s. lookupExternals r s = None \<longrightarrow> {n \<in> N. getPackageAgnosticSuffix n = Some s} = {}) \<and>
     (\<forall>s ns. lookupExternals r s = Some ns \<longrightarrow> ns \<noteq> [] \<and> distinct ns \<and>
        set ns = {n \<in> N. getPackageAgnosticSuffix n = Some s})"

lemma insertNamed_ok:
  "internal_ok ib r \<Longrightarrow> deref_name ib ref = Inr name \<Longrightarrow> internal_ok ib (insertNamed name ref r)"
  by (auto simp: internal_ok_def insertNamed_def resolver_insert_def lookupInDocuments_def
      split: option.splits if_splits)

lemma insertNamed_externals [simp]: "externalsMap (insertNamed name ref r) = externalsMap r"
  by (simp add: insertNamed_def resolver_insert_def split: option.splits)

lemma fold_invariant_list:
  "P s \<Longrightarrow> (\<And>x s. x \<in> set xs \<Longrightarrow> P s \<Longrightarrow> P (f x s)) \<Longrightarrow> P (fold f xs s)"
  by (induction xs arbitrary: s) auto

lemma set_indexed: "(i, x) \<in> set (indexed xs) \<longleftrightarrow> i < length xs \<and> x = xs ! i"
  by (force simp: indexed_def set_zip)

lemma populateFromDocument_ok:
  assumes "(i, doc) \<in> set (indexed (ib_documents ib))" "internal_ok ib r \<and> externalsMap r = []"
  shows "internal_ok ib (populateFromDocument (i, doc) r) \<and> externalsMap (populateFromDocument (i, doc) r) = []"
  unfolding populateFromDocument_def
proof (rule fold_invariant_list [where P = "\<lambda>r. internal_ok ib r \<and> externalsMap r = []", OF assms(2)])
  fix x r assume x: "x \<in> set (indexed (symbols (snd (i, doc))))" and r: "internal_ok ib r \<and> externalsMap r = []"
  obtain k si where ks: "x = (k, si)" by (cases x)
  with x assms(1) have "deref_name ib (InDocument i k) = Inr (si_symbol si)"
    by (auto simp: set_indexed deref_name_def)
  with r ks show "internal_ok ib ((case x of (k, si) \<Rightarrow> insertNamed (si_symbol si) (InDocument (fst (i, doc)) k)) r) \<and>
      externalsMap ((case x of (k, si) \<Rightarrow> insertNamed (si_symbol si) (InDocument (fst (i, doc)) k)) r) = []"
    by (simp add: insertNamed_ok)
qed

lemma populateFromBuilder_ok:
  assumes "(path, db) \<in> set (multiplyIndexed ib)" "ib_ok ib" "permutes_lists (ord_syms H)"
    and "internal_ok ib r \<and> externalsMap r = []"
  shows "internal_ok ib (populateFromBuilder H (path, db) r) \<and> externalsMap (populateFromBuilder H (path, db) r) = []"
  unfolding populateFromBuilder_def
proof (rule fold_invariant_list [where P = "\<lambda>r. internal_ok ib r \<and> externalsMap r = []", OF assms(4)])
  fix x r assume x: "x \<in> set (ord_syms H (db_symbolInfos (snd (path, db))))" and r: "internal_ok ib r \<and> externalsMap r = []"
  obtain n b where nb: "x = (n, b)" by (cases x)
  have "set (ord_syms H (db_symbolInfos db)) = set (db_symbolInfos db)"
    using assms(3) by (metis mset_eq_setD permutes_lists_def)
  with x nb have mem: "(n, b) \<in> set (db_symbolInfos db)" by simp
  have dbok: "db_ok db" using assms(1,2) by (auto simp: ib_ok_def)
  then have "map_of (db_symbolInfos db) n = Some b" "sib_name b = n" using mem by (auto simp: db_ok_def)
  moreover have "map_of (multiplyIndexed ib) path = Some db" using assms(1,2) by (simp add: ib_ok_def)
  ultimately have "deref_name ib (InBuilder path n) = Inr n" by (simp add: deref_name_def)
  with r nb show "internal_ok ib ((case x of (name, _) \<Rightarrow> insertNamed name (InBuilder (fst (path, db)) name)) r) \<and>
      externalsMap ((case x of (name, _) \<Rightarrow> insertNamed name (InBuilder (fst (path, db)) name)) r) = []"
    by (simp add: insertNamed_ok)
qed

lemma insertExternal_ok:
  assumes "externals_ok N r"
  shows "externals_ok (insert n N) (insertExternal n r)"
proof (cases "getPackageAgnosticSuffix n")
  case None
  then have "{m \<in> insert n N. getPackageAgnosticSuffix m = Some s} = {m \<in> N. getPackageAgnosticSuffix m = Some s}" for s
    by auto
  with assms None show ?thesis by (simp add: externals_ok_def insertExternal_def)
next
  case (Some t)
  define ns where "ns = (case lookupExternals r t of None \<Rightarrow> [] | Some ns \<Rightarrow> ns)"
  have l: "lookupExternals (insertExternal n r) s = (if s = t then Some (hset_insert n ns) else lookupExternals r s)" for s
    using Some by (simp add: insertExternal_def lookupExternals_def Let_def ns_def)
  have ns: "set ns = {m \<in> N. getPackageAgnosticSuffix m = Some t}" "distinct ns"
    using assms unfolding externals_ok_def ns_def by (cases "lookupExternals r t"; force)+
  have "set (hset_insert n ns) = {m \<in> insert n N. getPackageAgnosticSuffix m = Some t}" "hset_insert n ns \<noteq> []"
    using ns(1) Some by (auto simp: hset_insert_def)
  moreover have "{m \<in> insert n N. getPackageAgnosticSuffix m = Some s} = {m \<in> N. getPackageAgnosticSuffix m = Some s}"
    if "s \<noteq> t" for s using Some that by auto
  ultimately show ?thesis
    using assms ns(2) Some unfolding externals_ok_def l by (simp, metis option.inject)
qed

lemma insertExternal_internal [simp]: "docInternalMap (insertExternal n r) = docInternalMap r"
  by (simp add: insertExternal_def Let_def split: option.splits)

lemma fold_insertExternal_ok:
  "externals_ok N r \<Longrightarrow> externals_ok (N \<union> fst ` set xs) (fold (\<lambda>(n, _). insertExternal n) xs r) \<and>
   docInternalMap (fold (\<lambda>(n, _). insertExternal n) xs r) = docInternalMap r"
proof (induction xs arbitrary: N r)
  case (Cons x xs)
  obtain n b where x: "x = (n, b)" by (cases x)
  from Cons.IH [OF insertExternal_ok [OF Cons.prems, of n]] show ?case by (simp add: x)
qed simp

lemma populate_ok:
  assumes ok: "ib_ok ib" and H: "hash_orders_ok H"
  shows "resolver_ok (populateForwardDeclResolver H ib) ib"
proof -
  have it: "permutes_lists (ord_docs H)" "permutes_lists (ord_syms H)" using H by (auto simp: hash_orders_ok_def)
  have sets: "set (ord_docs H (multiplyIndexed ib)) = set (multiplyIndexed ib)"
      "set (ord_syms H (externalSymbols ib)) = set (externalSymbols ib)"
    using it by (metis mset_eq_setD permutes_lists_def)+
  let ?P = "\<lambda>r. internal_ok ib r \<and> externalsMap r = []"
  let ?r0 = "\<lparr>docInternalMap = [], externalsMap = []\<rparr>"
  define r1 where "r1 = fold populateFromDocument (indexed (ib_documents ib)) ?r0"
  define r2 where "r2 = fold (populateFromBuilder H) (ord_docs H (multiplyIndexed ib)) r1"
  have "?P ?r0" by (simp add: internal_ok_def lookupInDocuments_def)
  then have "?P r1"
    unfolding r1_def by (rule fold_invariant_list [where P = ?P]) (use populateFromDocument_ok in auto)
  then have r2: "?P r2"
    unfolding r2_def by (rule fold_invariant_list [where P = ?P]) (use populateFromBuilder_ok [OF _ ok it(2)] sets in auto)
  then have "externals_ok {} r2" by (simp add: externals_ok_def lookupExternals_def)
  from fold_insertExternal_ok [OF this, of "ord_syms H (externalSymbols ib)"] sets
  have r3: "externals_ok (fst ` set (externalSymbols ib)) (populateForwardDeclResolver H ib)"
      "docInternalMap (populateForwardDeclResolver H ib) = docInternalMap r2"
    by (simp_all add: populateForwardDeclResolver_def r1_def r2_def)
  then have "internal_ok ib (populateForwardDeclResolver H ib)"
    using r2 by (simp add: internal_ok_def lookupInDocuments_def)
  moreover have keys: "map_of (externalSymbols ib) n \<noteq> None \<longleftrightarrow> n \<in> fst ` set (externalSymbols ib)" for n
    by (simp add: map_of_eq_None_iff)
  have "\<exists>ns. lookupExternals (populateForwardDeclResolver H ib) s = Some ns \<and> n \<in> set ns"
    if "n \<in> fst ` set (externalSymbols ib)" "getPackageAgnosticSuffix n = Some s" for s n
    using r3(1) that unfolding externals_ok_def
    by (cases "lookupExternals (populateForwardDeclResolver H ib) s") blast+
  moreover have "ns \<noteq> [] \<and> distinct ns \<and> (\<forall>n \<in> set ns. getPackageAgnosticSuffix n = Some s \<and>
      n \<in> fst ` set (externalSymbols ib))"
    if "lookupExternals (populateForwardDeclResolver H ib) s = Some ns" for s ns
    using r3(1) that unfolding externals_ok_def by simp
  ultimately show ?thesis unfolding resolver_ok_def internal_ok_def keys by blast
qed

subsection \<open>Properties\<close>

text \<open>
  C9: One forward declaration. It never follows a dangling reference and keeps the resolver
  consistent with the index. Its references are recorded under exactly these names: the name
  of the definition when a document has one with this suffix (the external symbols with the
  suffix are then dropped); otherwise the names of the external symbols with the suffix;
  otherwise a new external symbol with a made-up package. All of them have the suffix of the
  declaration.
\<close>

theorem forward_declaration_resolution:
  assumes "resolver_ok r ib" "fd_ok fd" "permutes_lists (ord_names H)"
  shows "\<exists>names r' ib'. addForwardDeclaration H fd (r, ib) = Inr (r', ib') \<and> resolved fd names ib (r', ib') \<and>
    (\<forall>n \<in> set names. getPackageAgnosticSuffix n = Some (fd_suffix fd)) \<and>
    (case lookupInDocuments r (fd_suffix fd) of
       Some ref \<Rightarrow> (\<exists>n. deref_name ib ref = Inr n \<and> names = [n]) \<and>
         (\<forall>m. map_of (externalSymbols ib') m =
            (if getPackageAgnosticSuffix m = Some (fd_suffix fd) then None else map_of (externalSymbols ib) m))
     | None \<Rightarrow>
         (case lookupExternals r (fd_suffix fd) of
            Some ns \<Rightarrow> mset names = mset ns
          | None \<Rightarrow> names = [addFakePrefix (fd_suffix fd)]))"
proof (cases "lookupInDocuments r (fd_suffix fd)")
  case (Some ref)
  from forward_in_document [OF assms(1,2) this, of H] obtain n r' ib' where
    *: "addForwardDeclaration H fd (r, ib) = Inr (r', ib')" "deref_name ib ref = Inr n" "resolved fd [n] ib (r', ib')"
    "\<forall>m. map_of (externalSymbols ib') m =
      (if getPackageAgnosticSuffix m = Some (fd_suffix fd) then None else map_of (externalSymbols ib) m)" by blast
  moreover have "getPackageAgnosticSuffix n = Some (fd_suffix fd)" using resolver_okD(1) [OF assms(1) Some] *(2) by auto
  ultimately show ?thesis using Some by (intro exI [of _ "[n]"] exI [of _ r'] exI [of _ ib']) simp
next
  case None
  show ?thesis
  proof (cases "lookupExternals r (fd_suffix fd)")
    case (Some ns)
    from forward_in_externals [OF assms None this] obtain ib' where
      "addForwardDeclaration H fd (r, ib) = Inr (r, ib')" "resolved fd (ord_names H ns) ib (r, ib')" by blast
    moreover have "mset (ord_names H ns) = mset ns" using assms(3) by (simp add: permutes_lists_def)
    moreover from this have "set (ord_names H ns) = set ns" by (rule mset_eq_setD)
    ultimately show ?thesis using None Some resolver_okD(2) [OF assms(1) Some]
      by (intro exI [of _ "ord_names H ns"] exI [of _ r] exI [of _ ib']) simp
  next
    case No: None
    from forward_unknown [OF assms(1,2) None No, of H] obtain r' ib' where
      "addForwardDeclaration H fd (r, ib) = Inr (r', ib')" "resolved fd [addFakePrefix (fd_suffix fd)] ib (r', ib')" by blast
    then show ?thesis using None No suffix_of_fake_prefix
      by (intro exI [of _ "[addFakePrefix (fd_suffix fd)]"] exI [of _ r'] exI [of _ ib']) simp
  qed
qed

definition sample_fd :: "string \<Rightarrow> ForwardDecl" where
  "sample_fd doc = \<lparr>fd_suffix = ''f().'', fd_documentation = doc,
     fd_references = [\<lparr>ref_relative_path = ''a.c'', ref_range = [1, 2, 3]\<rparr>]\<rparr>"

lemma sample_fd_ok: "fd_ok (sample_fd doc)"
  by (simp add: fd_ok_def sample_fd_def valid_range_def)

definition empty_resolver :: ForwardDeclResolver where
  "empty_resolver = \<lparr>docInternalMap = [], externalsMap = []\<rparr>"

lemma empty_resolver_ok: "resolver_ok empty_resolver empty_IndexBuilder"
  by (simp add: resolver_ok_def empty_resolver_def empty_IndexBuilder_def lookupInDocuments_def lookupExternals_def)

theorem forward_declaration_resolution_witness:
  "\<exists>r' ib'. addForwardDeclaration identity_orders (sample_fd ''d'') (empty_resolver, empty_IndexBuilder) = Inr (r', ib') \<and>
     resolver_ok r' ib' \<and> occs_of (forwardDeclOccurenceMap ib') ''a.c'' =
       [fdo (addFakePrefix ''f().'') \<lparr>ref_relative_path = ''a.c'', ref_range = [1, 2, 3]\<rparr>]"
proof -
  have "permutes_lists (ord_names identity_orders)" using sample_orders_ok(1) by (simp add: hash_orders_ok_def)
  from forward_declaration_resolution [OF empty_resolver_ok sample_fd_ok this, of "''d''"]
  obtain names r' ib' where
    "addForwardDeclaration identity_orders (sample_fd ''d'') (empty_resolver, empty_IndexBuilder) = Inr (r', ib')"
    "resolved (sample_fd ''d'') names empty_IndexBuilder (r', ib')" "names = [addFakePrefix ''f().'']"
    by (auto simp: empty_resolver_def lookupInDocuments_def lookupExternals_def sample_fd_def)
  then show ?thesis
    by (auto simp: resolved_def occs_of_def empty_IndexBuilder_def refs_in_def sample_fd_def)
qed

text \<open>
  All forward declarations. Starting from the resolver that is filled from a well-formed
  index, any sequence of well-formed forward declarations is merged without failing a check.
\<close>

theorem forward_declarations_merge:
  assumes "ib_ok ib" "hash_orders_ok H" "\<forall>fd \<in> set fds. fd_ok fd"
  shows "\<exists>r ib'. rfold (addForwardDeclaration H) fds (populateForwardDeclResolver H ib, ib) = Inr (r, ib') \<and>
    resolver_ok r ib'"
proof -
  have "permutes_lists (ord_names H)" using assms(2) by (simp add: hash_orders_ok_def)
  with assms(3) have run: "fwd.allowed_run H fds st" for st
    by (intro fwd.allowed_runI) blast
  show ?thesis
    using fwd.run_inv [OF _ run, of "(populateForwardDeclResolver H ib, ib)"] populate_ok [OF assms(1,2)] by auto
qed

theorem forward_declarations_merge_witness:
  "\<exists>r ib'. rfold (addForwardDeclaration identity_orders) [sample_fd ''d'', sample_fd []]
     (populateForwardDeclResolver identity_orders sample_builder, sample_builder) = Inr (r, ib') \<and> resolver_ok r ib'"
  by (rule forward_declarations_merge [OF sample_builder_ok sample_orders_ok(1)]) (simp add: sample_fd_ok)

text \<open>
  The range of a reference survives. A reference whose range has three or four numbers, none
  of them the filler -1, becomes an occurrence with exactly this range and the name it was
  resolved to.
\<close>

theorem forward_reference_range:
  assumes "valid_range (ref_range ref)" "-1 \<notin> set (ref_range ref)"
  shows "\<exists>f. mkForwardDeclOccurrence n ref = Inr f \<and>
    addTo f empty_occurrence = empty_occurrence\<lparr>range := ref_range ref, symbol := n\<rparr>"
  using mkForwardDeclOccurrence_ok [OF assms(1)] addTo_fdo [OF assms] by simp

theorem forward_reference_range_witness:
  "\<exists>f. mkForwardDeclOccurrence ''n'' \<lparr>ref_relative_path = ''a.c'', ref_range = [1, 2, 3]\<rparr> = Inr f \<and>
    addTo f empty_occurrence = empty_occurrence\<lparr>range := [1, 2, 3], symbol := ''n''\<rparr>"
  using forward_reference_range [of "\<lparr>ref_relative_path = ''a.c'', ref_range = [1, 2, 3]\<rparr>" "''n''"]
  by (simp add: valid_range_def)

text \<open>
  An empty documentation blocks a later one. When a forward declaration without documentation
  is the first with its suffix, the external symbol made for it has a documentation that
  consists of one empty text, which counts as present; the documentation of a later forward
  declaration with the same suffix is then dropped.
\<close>

theorem empty_documentation_sticks:
  assumes "resolver_ok r ib" "fd_ok fd1" "fd_ok fd2" "permutes_lists (ord_names H)"
    and "lookupInDocuments r (fd_suffix fd1) = None" "lookupExternals r (fd_suffix fd1) = None"
    and "fd_suffix fd2 = fd_suffix fd1" "fd_documentation fd1 = []"
  shows "\<exists>r1 ib1 ib2. addForwardDeclaration H fd1 (r, ib) = Inr (r1, ib1) \<and>
    addForwardDeclaration H fd2 (r1, ib1) = Inr (r1, ib2) \<and>
    map_option sib_documentation (map_of (externalSymbols ib2) (addFakePrefix (fd_suffix fd1))) = Some [[]]"
proof -
  let ?s = "fd_suffix fd1"
  let ?n = "addFakePrefix ?s"
  let ?b = "\<lparr>sib_documentation = [[]], sib_relationships = [], sib_name = ?n\<rparr>"
  have suf: "getPackageAgnosticSuffix ?n = Some ?s" by (rule suffix_of_fake_prefix)
  have new: "map_of (externalSymbols ib) ?n = None"
    using resolver_okD(3) [OF assms(1), of ?n ?s] suf assms(6) by (cases "map_of (externalSymbols ib) ?n") auto
  have mk: "addExternalSymbolUnchecked ?n \<lparr>si_symbol = [], si_documentation = [[]], si_relationships = []\<rparr> ib =
      Inr (ib\<lparr>externalSymbols := externalSymbols ib @ [(?n, ?b)]\<rparr>)"
    using new by (simp add: addExternalSymbolUnchecked_def mkSymbolInformationBuilder_def setDocumentation_def
        builder_hasDocumentation_def mergeRelationships_def hmap_emplace_def)
  define ib0 where "ib0 = ib\<lparr>externalSymbols := externalSymbols ib @ [(?n, ?b)]\<rparr>"
  obtain m1 where m1: "addForwardDeclOccurrences ?n fd1 ib0 = Inr (ib0\<lparr>forwardDeclOccurenceMap := m1\<rparr>)"
    using addForwardDeclOccurrences_ok [OF assms(2)] by blast
  define ib1 where "ib1 = ib0\<lparr>forwardDeclOccurenceMap := m1\<rparr>"
  define r1 where "r1 = insertExternal ?n r"
  have run1: "addForwardDeclaration H fd1 (r, ib) = Inr (r1, ib1)"
    using assms(5,6,8) mk m1 by (simp add: addForwardDeclaration_def Let_def r1_def ib1_def ib0_def)
  have look: "lookupInDocuments r1 ?s = None" "lookupExternals r1 ?s = Some [?n]"
    using assms(5,6) suf by (simp_all add: r1_def insertExternal_def lookupInDocuments_def lookupExternals_def Let_def hset_insert_def)
  have ext: "map_of (externalSymbols ib1) ?n = Some ?b" using new by (simp add: ib1_def ib0_def map_add_def)
  have perm: "ord_names H [?n] = [?n]" using assms(4) unfolding permutes_lists_def by (metis mset_single_iff_right mset.simps)
  define ib1' where "ib1' = ib1\<lparr>externalSymbols := hmap_update ?n ?b (externalSymbols ib1)\<rparr>"
  obtain m2 where m2: "addForwardDeclOccurrences ?n fd2 ib1' = Inr (ib1'\<lparr>forwardDeclOccurenceMap := m2\<rparr>)"
    using addForwardDeclOccurrences_ok [OF assms(3)] by blast
  have "documentExternal fd2 ?n ib1 = Inr (ib1'\<lparr>forwardDeclOccurenceMap := m2\<rparr>)"
    using ext m2 by (simp add: documentExternal_def builder_hasDocumentation_def docs_present_def
        missingDocumentationPlaceholder_def ib1'_def)
  then have "addForwardDeclaration H fd2 (r1, ib1) = Inr (r1, ib1'\<lparr>forwardDeclOccurenceMap := m2\<rparr>)"
    using look perm assms(7) by (simp add: addForwardDeclaration_def Let_def)
  moreover have "map_of (externalSymbols (ib1'\<lparr>forwardDeclOccurenceMap := m2\<rparr>)) ?n = Some ?b" by (simp add: ib1'_def)
  ultimately show ?thesis using run1 by (metis (no_types, lifting) option.simps(9) SymbolInformationBuilder.select_convs(1))
qed

theorem empty_documentation_sticks_witness:
  "\<exists>r1 ib1 ib2. addForwardDeclaration identity_orders (sample_fd []) (empty_resolver, empty_IndexBuilder) = Inr (r1, ib1) \<and>
    addForwardDeclaration identity_orders (sample_fd ''docs'') (r1, ib1) = Inr (r1, ib2) \<and>
    map_option sib_documentation (map_of (externalSymbols ib2) (addFakePrefix ''f().'')) = Some [[]]"
proof -
  have "permutes_lists (ord_names identity_orders)" using sample_orders_ok(1) by (simp add: hash_orders_ok_def)
  note t = empty_documentation_sticks [OF empty_resolver_ok sample_fd_ok sample_fd_ok this, of "[]" "''docs''"]
  show ?thesis
    using t by (simp add: sample_fd_def empty_resolver_def lookupInDocuments_def lookupExternals_def)
qed

subsection \<open>What forward declarations leave alone\<close>

text \<open>The outline of a builder: everything in it but documentation, externals and forward references.\<close>

definition doc_outline :: "Document \<Rightarrow> string \<times> string \<times> Occurrence list \<times> string list" where
  "doc_outline d = (language d, relative_path d, occurrences d, map si_symbol (symbols d))"

definition builder_outline ::
  "string \<times> DocumentBuilder \<Rightarrow> string \<times> string \<times> string \<times> Occurrence list \<times> string list" where
  "builder_outline p = (fst p, db_language (snd p), db_relative_path (snd p), db_occurrences (snd p),
     map fst (db_symbolInfos (snd p)))"

definition outline :: "IndexBuilder \<Rightarrow> (string \<times> string \<times> Occurrence list \<times> string list) list \<times>
   (string \<times> string \<times> string \<times> Occurrence list \<times> string list) list" where
  "outline ib = (map doc_outline (ib_documents ib), map builder_outline (multiplyIndexed ib))"

lemma outline_cong:
  "ib_documents ib' = ib_documents ib \<Longrightarrow> multiplyIndexed ib' = multiplyIndexed ib \<Longrightarrow> outline ib' = outline ib"
  by (simp add: outline_def)

lemma occurrences_outline:
  assumes "addForwardDeclOccurrences n fd ib = Inr ib'"
  shows "outline ib' = outline ib"
proof (rule rfold_preserves [where g = outline])
  show "rfold (addForwardDeclOccurrence n) (fd_references fd) ib = Inr ib'"
    using assms by (simp add: addForwardDeclOccurrences_def)
  show "outline s' = outline s" if "addForwardDeclOccurrence n x s = Inr s'" for x s s'
    using that by (intro outline_cong) (auto simp: addForwardDeclOccurrence_def result_simps Let_def)
qed

lemma map_list_update_same: "f x = f (xs ! i) \<Longrightarrow> map f (xs[i := x]) = map f xs"
  by (metis linorder_not_le list_update_beyond list_update_id map_update nth_map)

lemma map_hmap_update_same:
  "map_of m k = Some v \<Longrightarrow> f (k, w) = f (k, v) \<Longrightarrow> map f (hmap_update k w m) = map f m"
  by (induction m) auto

lemma documentInternal_outline:
  assumes "documentInternal doc ref ib = Inr ib'"
  shows "outline ib' = outline ib"
proof (cases ref)
  case (InDocument i k)
  let ?d = "ib_documents ib ! i"
  have "doc_outline (?d\<lparr>symbols := (symbols ?d)[k := (symbols ?d ! k)\<lparr>si_documentation := [doc]\<rparr>]\<rparr>) = doc_outline ?d"
    by (simp add: doc_outline_def map_list_update_same)
  then show ?thesis
    using assms InDocument by (auto simp: documentInternal_def Let_def outline_def map_list_update_same split: if_splits)
next
  case (InBuilder path name)
  with assms obtain db b where db: "map_of (multiplyIndexed ib) path = Some db" "map_of (db_symbolInfos db) name = Some b"
    by (auto simp: documentInternal_def split: option.splits)
  have "map fst (hmap_update name c (db_symbolInfos db)) = map fst (db_symbolInfos db)" for c
    using db(2) by (simp add: keys_hmap_update)
  then show ?thesis
    using assms InBuilder db
    by (auto simp: documentInternal_def outline_def builder_outline_def map_hmap_update_same result_simps split: if_splits)
qed

lemma addForwardDeclaration_outline:
  assumes "addForwardDeclaration H fd st = Inr st'"
  shows "outline (snd st') = outline (snd st)"
proof -
  obtain r ib where st: "st = (r, ib)" by (cases st)
  show ?thesis
  proof (cases "lookupInDocuments r (fd_suffix fd)")
    case None
    show ?thesis
    proof (cases "lookupExternals r (fd_suffix fd)")
      case (Some ns)
      with assms None st obtain ib1 where ib1: "rfold (documentExternal fd) (ord_names H ns) ib = Inr ib1" "snd st' = ib1"
        by (auto simp: addForwardDeclaration_def result_simps)
      have "outline s' = outline s" if "documentExternal fd x s = Inr s'" for x s s'
        using that by (auto simp: documentExternal_def result_simps dest!: occurrences_outline split: option.splits)
          (simp_all add: outline_def)
      from rfold_preserves [where g = outline, OF this ib1(1)] ib1(2) st show ?thesis by simp
    next
      case No: None
      with assms None st show ?thesis
        by (auto simp: addForwardDeclaration_def addExternalSymbolUnchecked_def Let_def result_simps dest!: occurrences_outline)
          (simp add: outline_def)
    qed
  next
    case (Some ref)
    define r1 ib1 where "r1 = (case lookupExternals r (fd_suffix fd) of None \<Rightarrow> r | Some _ \<Rightarrow> deleteExternals (fd_suffix fd) r)"
      and "ib1 = (case lookupExternals r (fd_suffix fd) of None \<Rightarrow> ib | Some ns \<Rightarrow> discardExternals ns ib)"
    have pair: "(case lookupExternals r (fd_suffix fd) of None \<Rightarrow> (r, ib)
        | Some externals \<Rightarrow> (deleteExternals (fd_suffix fd) r, discardExternals externals ib)) = (r1, ib1)"
      by (simp add: r1_def ib1_def split: option.splits)
    have o1: "outline ib1 = outline ib" by (rule outline_cong) (simp_all add: ib1_def split: option.splits)
    from assms st Some obtain n ib2 ib3 where
      ib2: "(if fd_documentation fd \<noteq> [] then documentInternal (fd_documentation fd) ref ib1 else Inr ib1) = Inr ib2"
      and ib3: "addForwardDeclOccurrences n fd ib2 = Inr ib3" "snd st' = ib3"
      by (auto simp: addForwardDeclaration_def pair Let_def result_simps)
    have "outline ib2 = outline ib1" using ib2 documentInternal_outline by (auto split: if_splits)
    with occurrences_outline [OF ib3(1)] ib3(2) o1 st show ?thesis by simp
  qed
qed

end
