(* ===== verification/Index_Merging.thy ===== *)
theory Index_Merging
  imports Driver Forward_Decls
begin

text \<open>
  The last phase of the driver: \<^verbatim>\<open>Driver::emitScipIndex\<close>, \<^verbatim>\<open>isMultiplyIndexedApproximate\<close> and
  \<^verbatim>\<open>mergeShardsAndEmit\<close> of indexer/Driver.cc. Reading and parsing a shard file is a function
  from its path to the message, or to nothing when the file cannot be opened or parsed.
\<close>

subsection \<open>Definitions\<close>

record shard_files =
  read_index :: "AbsolutePath \<Rightarrow> Index option"
  read_forward_decls :: "AbsolutePath \<Rightarrow> ForwardDecl list option"

definition parsedJobId :: "(string \<Rightarrow> char \<Rightarrow> string list) \<Rightarrow> AbsolutePath \<Rightarrow> 32 word option" where
  "parsedJobId strSplit shardPath =
     (case fileName shardPath of None \<Rightarrow> None | Some f \<Rightarrow> tryParseJobId strSplit f)"

definition isMultiplyIndexedApproximate ::
  "llvm_path \<Rightarrow> (string \<Rightarrow> char \<Rightarrow> string list) \<Rightarrow> RootPath \<Rightarrow> FileIndexingPlanner \<Rightarrow> string \<Rightarrow>
   AbsolutePath \<Rightarrow> 32 word list \<Rightarrow> (bool \<times> 32 word list) result" where
  "isMultiplyIndexedApproximate L strSplit root pl relativePath shardPath badJobIds =
     rbind (mkRootRelativePathRef L relativePath Project) (\<lambda>ref.
     rbind (isMultiplyIndexed L root pl ref) (\<lambda>multiplyIndexed.
       Inr (case multiplyIndexed of
              MI_True \<Rightarrow> (True, badJobIds)
            | MI_False \<Rightarrow> (False, badJobIds)
            | MI_Unknown \<Rightarrow>
                (True, (case parsedJobId strSplit shardPath of
                          None \<Rightarrow> badJobIds | Some jobId \<Rightarrow> hset_insert jobId badJobIds)))))"

definition mergeShardDocument ::
  "llvm_path \<Rightarrow> (string \<Rightarrow> char \<Rightarrow> string list) \<Rightarrow> RootPath \<Rightarrow> FileIndexingPlanner \<Rightarrow> AbsolutePath \<Rightarrow>
   Document \<Rightarrow> IndexBuilder \<times> 32 word list \<Rightarrow> (IndexBuilder \<times> 32 word list) result" where
  "mergeShardDocument L strSplit root pl shardPath doc st =
     rbind (isMultiplyIndexedApproximate L strSplit root pl (relative_path doc) shardPath (snd st)) (\<lambda>(multi, bad).
     rbind (addDocument L doc multi (fst st)) (\<lambda>ib. Inr (ib, bad)))"

definition mergeShard ::
  "llvm_path \<Rightarrow> (string \<Rightarrow> char \<Rightarrow> string list) \<Rightarrow> shard_files \<Rightarrow> 'p Driver \<Rightarrow> ShardPaths \<Rightarrow>
   IndexBuilder \<times> 32 word list \<Rightarrow> (IndexBuilder \<times> 32 word list) result" where
  "mergeShard L strSplit F d paths st =
     (case read_index F (docsAndExternals paths) of
        None \<Rightarrow> Inr st
      | Some indexShard \<Rightarrow>
          rbind (rfold (mergeShardDocument L strSplit (projectRootPath (options d)) (planner d)
                   (docsAndExternals paths)) (documents indexShard) st) (\<lambda>(ib, bad).
          rbind (rfold addExternalSymbol (external_symbols indexShard) ib) (\<lambda>ib1.
          rbind (case parsedJobId strSplit (docsAndExternals paths) of
                   None \<Rightarrow> Inr []
                 | Some jobId \<Rightarrow> getTuPath (scheduler d) (newTask jobId)) (\<lambda>_. Inr (ib1, bad)))))"

definition mergeForwardDecls ::
  "hash_orders \<Rightarrow> shard_files \<Rightarrow> ShardPaths \<Rightarrow> ForwardDeclResolver \<times> IndexBuilder \<Rightarrow>
   (ForwardDeclResolver \<times> IndexBuilder) result" where
  "mergeForwardDecls H F paths st =
     (case read_forward_decls F (forwardDecls paths) of
        None \<Rightarrow> Inr st
      | Some fds \<Rightarrow> rfold (addForwardDeclaration H) fds st)"

definition mergeShardsAndEmit ::
  "llvm_path \<Rightarrow> (string \<Rightarrow> char \<Rightarrow> string list) \<Rightarrow> hash_orders \<Rightarrow> shard_files \<Rightarrow> 'p Driver \<Rightarrow>
   (Index list \<times> 32 word list) result" where
  "mergeShardsAndEmit L strSplit H F d =
     rbind (rfold (mergeShard L strSplit F d) (allShardPaths d) (empty_IndexBuilder, [])) (\<lambda>(ib, bad).
     rbind (rfold (mergeForwardDecls H F) (allShardPaths d) (populateForwardDeclResolver H ib, ib)) (\<lambda>(r, ib1).
       Inr (finishIndex H (deterministic (options d)) ib1, sort bad)))"

definition emitScipIndex ::
  "llvm_path \<Rightarrow> (string \<Rightarrow> char \<Rightarrow> string list) \<Rightarrow> hash_orders \<Rightarrow> shard_files \<Rightarrow> 'p Driver \<Rightarrow>
   (Index list \<times> 32 word list) result" where
  "emitScipIndex L strSplit H F d =
     mergeShardsAndEmit L strSplit H F
       (if deterministic (options d)
        then d\<lparr>allShardPaths :=
          c_sort (\<lambda>p1 p2. cmp_lt cmpStr (docsAndExternals p1) (docsAndExternals p2)) (allShardPaths d)\<rparr>
        else d)"

subsection \<open>Adding documents\<close>

text \<open>
  The decision whether a document is multiply indexed depends on its path alone, because the
  planner does not change any more. So a path is either always merged or never.
\<close>

definition multi_path :: "RootPath \<Rightarrow> FileIndexingPlanner \<Rightarrow> string \<Rightarrow> bool" where
  "multi_path root pl path \<longleftrightarrow>
     (case map_of pl (joinPath (root_value root) path) of None \<Rightarrow> True | Some hs \<Rightarrow> length hs > 1)"

definition shard_doc_ok :: "llvm_path \<Rightarrow> Document \<Rightarrow> bool" where
  "shard_doc_ok L doc \<longleftrightarrow> relative_path doc \<noteq> [] \<and> \<not> is_absolute L (relative_path doc) \<and> document_ok doc"

lemma isMultiplyIndexedApproximate_eq:
  assumes L: "posix_paths L" and root: "root_kind root = Project" "is_absolute L (root_value root)"
    and path: "path \<noteq> []" "\<not> is_absolute L path"
  shows "\<exists>bad'. isMultiplyIndexedApproximate L strSplit root pl path shard bad =
    Inr (multi_path root pl path, bad')"
proof -
  have "is_absolute L (joinPath (root_value root) path)"
    using L root(2) by (cases "root_value root") (auto simp: posix_paths_def joinPath_def starts_with_def)
  then have "isMultiplyIndexed L root pl \<lparr>rel_value = path, rel_kind = Project\<rparr> =
      Inr (case map_of pl (joinPath (root_value root) path) of None \<Rightarrow> MI_Unknown
           | Some hs \<Rightarrow> if length hs > 1 then MI_True else MI_False)"
    using root by (simp add: isMultiplyIndexed_def makeAbsolute_def makeAbsoluteAllowKindMismatch_def
        mkAbsolutePath_def tryFrom_def)
  then show ?thesis
    using path by (auto simp: isMultiplyIndexedApproximate_def mkRootRelativePathRef_def multi_path_def
        split: option.splits)
qed

lemma db_ok_represents:
  assumes "doc_represents db ds" "\<forall>d \<in> set ds. document_ok d"
  shows "db_ok db"
proof -
  have m: "represents keep_doc (db_symbolInfos db) (concat (map symbols ds))"
    using assms(1) by (simp add: doc_represents_def)
  have "sib_ok b \<and> sib_name b = n" if "(n, b) \<in> set (db_symbolInfos db)" for n b
  proof -
    have "map_of (db_symbolInfos db) n = Some b" using that m by (simp add: represents_def)
    from represents_Some [OF m this] show ?thesis by (simp add: builds_def sib_ok_def)
  qed
  with assms m show ?thesis by (auto simp: db_ok_def doc_represents_def represents_def document_ok_def)
qed

subsection \<open>The builder after the shards\<close>

text \<open>
  The abstract view of the builder: the documents and the external symbols it was given, in
  order. Documents with a path that has one content stand for themselves; those of a path
  with several contents are merged into one builder.
\<close>

definition of_path :: "string \<Rightarrow> Document list \<Rightarrow> Document list" where
  "of_path p docs = filter (\<lambda>d. relative_path d = p) docs"

definition ib_represents ::
  "(string \<Rightarrow> bool) \<Rightarrow> IndexBuilder \<Rightarrow> Document list \<Rightarrow> SymbolInformation list \<Rightarrow> bool" where
  "ib_represents multi ib docs exts \<longleftrightarrow>
     ib_documents ib = filter (\<lambda>d. \<not> multi (relative_path d)) docs \<and>
     distinct (map fst (multiplyIndexed ib)) \<and>
     (\<forall>p. map_of (multiplyIndexed ib) p = None \<longrightarrow> \<not> multi p \<or> of_path p docs = []) \<and>
     (\<forall>p db. map_of (multiplyIndexed ib) p = Some db \<longrightarrow> multi p \<and> of_path p docs \<noteq> [] \<and>
        doc_represents db (of_path p docs) \<and> db_relative_path db = p) \<and>
     represents keep_ext (externalSymbols ib) exts"

lemma of_path_snoc: "of_path p (docs @ [d]) = (if relative_path d = p then of_path p docs @ [d] else of_path p docs)"
  by (simp add: of_path_def)

lemma addDocument_represents:
  assumes ib: "ib_represents multi ib docs exts" and d: "relative_path d \<noteq> []" "\<not> is_absolute L (relative_path d)"
  shows "\<exists>ib'. addDocument L d (multi (relative_path d)) ib = Inr ib' \<and> ib_represents multi ib' (docs @ [d]) exts"
proof -
  let ?p = "relative_path d"
  have ibD: "map_of (multiplyIndexed ib) p = Some db \<Longrightarrow> multi p \<and> of_path p docs \<noteq> [] \<and>
      doc_represents db (of_path p docs) \<and> db_relative_path db = p" for p db
    using ib by (simp add: ib_represents_def)
  have path: "mkDocPath L ?p = Inr ?p" using d by (simp add: mkDocPath_def)
  consider (single) "\<not> multi ?p" | (new) "multi ?p" "map_of (multiplyIndexed ib) ?p = None"
    | (again) db where "multi ?p" "map_of (multiplyIndexed ib) ?p = Some db" by blast
  then show ?thesis
  proof cases
    case single
    then have "map_of (multiplyIndexed ib) ?p = None" using ibD [of ?p] by (cases "map_of (multiplyIndexed ib) ?p") auto
    then have run: "addDocument L d (multi ?p) ib = Inr (ib\<lparr>ib_documents := ib_documents ib @ [d]\<rparr>)"
      using single d path by (simp add: addDocument_def)
    have "ib_represents multi (ib\<lparr>ib_documents := ib_documents ib @ [d]\<rparr>) (docs @ [d]) exts"
      using ib single unfolding ib_represents_def by (auto simp: of_path_snoc)
    with run show ?thesis by blast
  next
    case new
    then have nil: "of_path ?p docs = []" using ib by (auto simp: ib_represents_def)
    obtain db where db: "mkDocumentBuilder d = Inr db" "doc_represents db [d]" "db_relative_path db = ?p"
      using mkDocumentBuilder_represents by blast
    let ?ib = "ib\<lparr>multiplyIndexed := multiplyIndexed ib @ [(?p, db)]\<rparr>"
    have run: "addDocument L d (multi ?p) ib = Inr ?ib" using new d path db(1) by (simp add: addDocument_def)
    have lk: "map_of (multiplyIndexed ?ib) p = (if p = ?p then Some db else map_of (multiplyIndexed ib) p)" for p
      using new(2) by (auto simp: map_add_def split: option.splits)
    have "distinct (map fst (multiplyIndexed ?ib))"
      using new(2) ib by (auto simp: ib_represents_def map_of_eq_None_iff)
    then have "ib_represents multi ?ib (docs @ [d]) exts"
      using ib new(1) db nil unfolding ib_represents_def lk by (auto simp: of_path_snoc)
    with run show ?thesis by blast
  next
    case again
    from ibD [OF again(2)] obtain db' where db': "mergeDocument d db = Inr db'"
        "doc_represents db' (of_path ?p docs @ [d])" "db_relative_path db' = ?p"
      using mergeDocument_represents [of db "of_path ?p docs" d] by auto
    let ?ib = "ib\<lparr>multiplyIndexed := hmap_update ?p db' (multiplyIndexed ib)\<rparr>"
    have run: "addDocument L d (multi ?p) ib = Inr ?ib" using again d path db'(1) by (simp add: addDocument_def)
    have "ib_represents multi ?ib (docs @ [d]) exts"
      using ib again(1) db' unfolding ib_represents_def by (auto simp: of_path_snoc)
    with run show ?thesis by blast
  qed
qed

lemma addExternals_represent:
  assumes "ib_represents multi ib docs exts"
  shows "\<exists>ib'. rfold addExternalSymbol new ib = Inr ib' \<and> ib_represents multi ib' docs (exts @ new)"
  using assms
proof (induction new arbitrary: ib exts)
  case (Cons si new)
  then have "represents keep_ext (externalSymbols ib) exts" by (simp add: ib_represents_def)
  from addExternalSymbol_represents [OF this, of si] obtain m where
    m: "addExternalSymbol si ib = Inr (ib\<lparr>externalSymbols := m\<rparr>)" "represents keep_ext m (exts @ [si])" by blast
  with Cons.prems have "ib_represents multi (ib\<lparr>externalSymbols := m\<rparr>) docs (exts @ [si])"
    by (simp add: ib_represents_def)
  from Cons.IH [OF this] m(1) show ?case by simp
qed simp

lemma ib_represents_empty: "ib_represents multi empty_IndexBuilder [] []"
  by (simp add: ib_represents_def empty_IndexBuilder_def represents_def of_name_def of_path_def)

lemma ib_represents_ok:
  assumes ib: "ib_represents multi ib docs exts" and docs: "\<forall>d \<in> set docs. document_ok d"
  shows "ib_ok ib"
proof -
  have "db_ok db" if "(p, db) \<in> set (multiplyIndexed ib)" for p db
  proof -
    have "map_of (multiplyIndexed ib) p = Some db" using that ib by (simp add: ib_represents_def)
    then have "doc_represents db (of_path p docs)" using ib by (simp add: ib_represents_def)
    then show ?thesis by (rule db_ok_represents) (use docs in \<open>auto simp: of_path_def\<close>)
  qed
  moreover have r: "represents keep_ext (externalSymbols ib) exts" using ib by (simp add: ib_represents_def)
  have "sib_ok b" if "(n, b) \<in> set (externalSymbols ib)" for n b
  proof -
    have "map_of (externalSymbols ib) n = Some b" using that r by (simp add: represents_def)
    from represents_Some [OF r this] show ?thesis by (simp add: builds_def sib_ok_def)
  qed
  ultimately show ?thesis using ib r by (auto simp: ib_ok_def ib_represents_def represents_def)
qed

subsection \<open>Merging all shards\<close>

text \<open>What the workers and the planner guarantee of the shards.\<close>

definition shard_ok ::
  "llvm_path \<Rightarrow> (string \<Rightarrow> char \<Rightarrow> string list) \<Rightarrow> shard_files \<Rightarrow> 'p Driver \<Rightarrow> ShardPaths \<Rightarrow> bool" where
  "shard_ok L strSplit F d paths \<longleftrightarrow>
     (\<forall>ix. read_index F (docsAndExternals paths) = Some ix \<longrightarrow> (\<forall>doc \<in> set (documents ix). shard_doc_ok L doc)) \<and>
     (\<forall>fds. read_forward_decls F (forwardDecls paths) = Some fds \<longrightarrow> (\<forall>fd \<in> set fds. fd_ok fd)) \<and>
     (\<forall>jobId. parsedJobId strSplit (docsAndExternals paths) = Some jobId \<longrightarrow>
        (\<exists>path. getTuPath (scheduler d) (newTask jobId) = Inr path))"

definition driver_paths_ok :: "llvm_path \<Rightarrow> 'p Driver \<Rightarrow> bool" where
  "driver_paths_ok L d \<longleftrightarrow> posix_paths L \<and> root_kind (projectRootPath (options d)) = Project \<and>
     is_absolute L (root_value (projectRootPath (options d)))"

definition shard_documents :: "shard_files \<Rightarrow> ShardPaths list \<Rightarrow> Document list" where
  "shard_documents F ps = concat (map (\<lambda>p. case read_index F (docsAndExternals p) of
     None \<Rightarrow> [] | Some ix \<Rightarrow> documents ix) ps)"

definition shard_externals :: "shard_files \<Rightarrow> ShardPaths list \<Rightarrow> SymbolInformation list" where
  "shard_externals F ps = concat (map (\<lambda>p. case read_index F (docsAndExternals p) of
     None \<Rightarrow> [] | Some ix \<Rightarrow> external_symbols ix) ps)"

definition driver_multi :: "'p Driver \<Rightarrow> string \<Rightarrow> bool" where
  "driver_multi d = multi_path (projectRootPath (options d)) (planner d)"

lemma mergeShardDocuments_represent:
  assumes "driver_paths_ok L d" "\<forall>doc \<in> set new. shard_doc_ok L doc"
    and "ib_represents (driver_multi d) ib docs exts"
  shows "\<exists>ib' bad'. rfold (mergeShardDocument L strSplit (projectRootPath (options d)) (planner d) shard) new (ib, bad) =
    Inr (ib', bad') \<and> ib_represents (driver_multi d) ib' (docs @ new) exts"
  using assms(2,3)
proof (induction new arbitrary: ib docs bad)
  case (Cons doc new)
  have doc: "relative_path doc \<noteq> []" "\<not> is_absolute L (relative_path doc)"
    using Cons.prems(1) by (auto simp: shard_doc_ok_def)
  obtain bad1 where bad1: "isMultiplyIndexedApproximate L strSplit (projectRootPath (options d)) (planner d)
      (relative_path doc) shard bad = Inr (driver_multi d (relative_path doc), bad1)"
    using isMultiplyIndexedApproximate_eq [OF _ _ _ doc] assms(1) unfolding driver_paths_ok_def driver_multi_def by blast
  obtain ib1 where ib1: "addDocument L doc (driver_multi d (relative_path doc)) ib = Inr ib1"
      "ib_represents (driver_multi d) ib1 (docs @ [doc]) exts"
    using addDocument_represents [OF Cons.prems(2) doc] by blast
  have "\<forall>doc \<in> set new. shard_doc_ok L doc" using Cons.prems(1) by simp
  from Cons.IH [OF this ib1(2), of bad1] bad1 ib1(1) show ?case
    by (simp add: mergeShardDocument_def)
qed simp

lemma mergeShards_represent:
  assumes "driver_paths_ok L d" "\<forall>p \<in> set ps. shard_ok L strSplit F d p"
    and "ib_represents (driver_multi d) ib docs exts"
  shows "\<exists>ib' bad'. rfold (mergeShard L strSplit F d) ps (ib, bad) = Inr (ib', bad') \<and>
    ib_represents (driver_multi d) ib' (docs @ shard_documents F ps) (exts @ shard_externals F ps)"
  using assms(2,3)
proof (induction ps arbitrary: ib docs exts bad)
  case (Cons p ps)
  have ok: "shard_ok L strSplit F d p" "\<forall>p \<in> set ps. shard_ok L strSplit F d p" using Cons.prems(1) by auto
  show ?case
  proof (cases "read_index F (docsAndExternals p)")
    case None
    with Cons.IH [OF ok(2) Cons.prems(2), of bad] show ?thesis
      by (simp add: mergeShard_def shard_documents_def shard_externals_def)
  next
    case (Some ix)
    then have "\<forall>doc \<in> set (documents ix). shard_doc_ok L doc" using ok(1) by (simp add: shard_ok_def)
    from mergeShardDocuments_represent [OF assms(1) this Cons.prems(2)] obtain ib1 bad1 where
      ib1: "rfold (mergeShardDocument L strSplit (projectRootPath (options d)) (planner d) (docsAndExternals p))
          (documents ix) (ib, bad) = Inr (ib1, bad1)" "ib_represents (driver_multi d) ib1 (docs @ documents ix) exts"
      by blast
    obtain ib2 where ib2: "rfold addExternalSymbol (external_symbols ix) ib1 = Inr ib2"
        "ib_represents (driver_multi d) ib2 (docs @ documents ix) (exts @ external_symbols ix)"
      using addExternals_represent [OF ib1(2)] by blast
    have "mergeShard L strSplit F d p (ib, bad) = Inr (ib2, bad1)"
      using Some ib1(1) ib2(1) ok(1) by (auto simp: mergeShard_def shard_ok_def split: option.splits)
    with Cons.IH [OF ok(2) ib2(2), of bad1] Some show ?thesis
      by (simp add: shard_documents_def shard_externals_def)
  qed
qed (simp add: shard_documents_def shard_externals_def)

lemma mergeForwardDecls_ok:
  assumes "\<forall>p \<in> set ps. shard_ok L strSplit F d p" "permutes_lists (ord_names H)" "resolver_ok (fst st) (snd st)"
  shows "\<exists>st'. rfold (mergeForwardDecls H F) ps st = Inr st' \<and> resolver_ok (fst st') (snd st')"
proof (rule rfold_invariant [where P = "\<lambda>st. resolver_ok (fst st) (snd st)", OF assms(3)])
  fix p and st :: "ForwardDeclResolver \<times> IndexBuilder"
  assume p: "p \<in> set ps" and st: "resolver_ok (fst st) (snd st)"
  show "\<exists>st'. mergeForwardDecls H F p st = Inr st' \<and> resolver_ok (fst st') (snd st')"
  proof (cases "read_forward_decls F (forwardDecls p)")
    case None
    with st show ?thesis by (simp add: mergeForwardDecls_def)
  next
    case (Some fds)
    then have fds: "\<forall>fd \<in> set fds. fd_ok fd" using p assms(1) by (auto simp: shard_ok_def)
    have "\<exists>st'. rfold (addForwardDeclaration H) fds st = Inr st' \<and> resolver_ok (fst st') (snd st')"
      by (rule rfold_invariant [where P = "\<lambda>st. resolver_ok (fst st) (snd st)", OF st])
        (use fds assms(2) addForwardDeclaration_ok in fastforce)
    with Some show ?thesis by (simp add: mergeForwardDecls_def)
  qed
qed

lemma shard_documents_ok:
  assumes "\<forall>p \<in> set ps. shard_ok L strSplit F d p"
  shows "\<forall>doc \<in> set (shard_documents F ps). document_ok doc"
proof
  fix doc assume "doc \<in> set (shard_documents F ps)"
  then obtain p where p: "p \<in> set ps"
      "doc \<in> set (case read_index F (docsAndExternals p) of None \<Rightarrow> [] | Some ix \<Rightarrow> documents ix)"
    by (auto simp: shard_documents_def)
  then obtain ix where "read_index F (docsAndExternals p) = Some ix" "doc \<in> set (documents ix)"
    by (cases "read_index F (docsAndExternals p)") auto
  with assms p(1) show "document_ok doc" by (auto simp: shard_ok_def shard_doc_ok_def)
qed

lemma mergeShardsAndEmit_ok:
  assumes "driver_paths_ok L d" "\<forall>p \<in> set (allShardPaths d). shard_ok L strSplit F d p" "hash_orders_ok H"
  shows "\<exists>out. mergeShardsAndEmit L strSplit H F d = Inr out"
proof -
  obtain ib bad where ib: "rfold (mergeShard L strSplit F d) (allShardPaths d) (empty_IndexBuilder, []) = Inr (ib, bad)"
      "ib_represents (driver_multi d) ib (shard_documents F (allShardPaths d)) (shard_externals F (allShardPaths d))"
    using mergeShards_represent [OF assms(1,2) ib_represents_empty, of "[]"] by auto
  have "\<forall>doc \<in> set (shard_documents F (allShardPaths d)). document_ok doc"
    using shard_documents_ok [OF assms(2)] by simp
  then have "resolver_ok (populateForwardDeclResolver H ib) ib"
    using populate_ok [OF ib_represents_ok [OF ib(2)] assms(3)] by blast
  moreover have "permutes_lists (ord_names H)" using assms(3) by (simp add: hash_orders_ok_def)
  ultimately obtain st where "rfold (mergeForwardDecls H F) (allShardPaths d) (populateForwardDeclResolver H ib, ib) = Inr st"
    using mergeForwardDecls_ok [OF assms(2), of H "(populateForwardDeclResolver H ib, ib)"] by auto
  with ib(1) show ?thesis by (cases st) (simp add: mergeShardsAndEmit_def)
qed

subsection \<open>The merged index is complete\<close>

lemma outline_map_of:
  assumes "map builder_outline m' = map builder_outline m"
  shows "map fst m' = map fst m"
proof -
  have "map fst xs = map fst (map builder_outline xs)" for xs by (simp add: builder_outline_def comp_def)
  then show ?thesis using assms by metis
qed

lemma mergeForwardDecls_outline:
  assumes "rfold (mergeForwardDecls H F) ps st = Inr st'"
  shows "outline (snd st') = outline (snd st)"
proof (rule rfold_preserves [where g = "\<lambda>st. outline (snd st)", OF _ assms])
  fix p s s' assume "mergeForwardDecls H F p s = Inr s'"
  then show "outline (snd s') = outline (snd s)"
    using rfold_preserves [where g = "\<lambda>st. outline (snd st)" and f = "addForwardDeclaration H"] addForwardDeclaration_outline
    by (auto simp: mergeForwardDecls_def split: option.splits)
qed

text \<open>What is written: for every entry of the outline a document with its path and its occurrences.\<close>

lemma with_forward_path [simp]: "relative_path (with_forward_occurrences det m doc) = relative_path doc"
  by (simp add: with_forward_occurrences_def Let_def split: option.splits)

lemma with_forward_occs: "set (occurrences doc) \<subseteq> set (occurrences (with_forward_occurrences det m doc))"
  by (auto simp: with_forward_occurrences_def Let_def split: option.splits)

lemma finishDocument_fields:
  assumes "hash_orders_ok H"
  shows "relative_path (finishDocument H det db) = db_relative_path db"
    "set (occurrences (finishDocument H det db)) = set (db_occurrences db)"
proof -
  have "mset (ord_occs H xs) = mset xs" for xs using assms by (simp add: hash_orders_ok_def permutes_lists_def)
  then have "set (ord_occs H xs) = set xs" for xs by (metis mset_eq_setD)
  then show "set (occurrences (finishDocument H det db)) = set (db_occurrences db)"
    by (simp add: finishDocument_eq occ_order_def)
qed (simp add: finishDocument_eq)

definition written_paths :: "IndexBuilder \<Rightarrow> string multiset" where
  "written_paths ib = mset (map relative_path (ib_documents ib)) + mset (map (db_relative_path \<circ> snd) (multiplyIndexed ib))"

lemma finishIndex_paths:
  assumes "hash_orders_ok H"
  shows "mset (map relative_path (all_documents (finishIndex H det ib))) = written_paths ib"
proof -
  let ?o = "key_order (ord_docs H) cmpStr det (multiplyIndexed ib)"
  have "permutes_lists (ord_docs H)" using assms by (simp add: hash_orders_ok_def)
  then have "mset ?o = mset (multiplyIndexed ib)" by (rule mset_key_order)
  moreover have "all_documents (finishIndex H det ib) = map (with_forward_occurrences det (forwardDeclOccurenceMap ib))
      (ib_documents ib @ map (\<lambda>(p, db). finishDocument H det db) ?o)"
    using finishIndex_docs by simp
  ultimately show ?thesis
    by (simp add: written_paths_def comp_def case_prod_unfold finishDocument_fields(1) [OF assms])
qed

lemma finishIndex_occurrences:
  assumes "hash_orders_ok H"
  shows "d \<in> set (ib_documents ib) \<Longrightarrow> \<exists>x \<in> set (all_documents (finishIndex H det ib)).
      relative_path x = relative_path d \<and> set (occurrences d) \<subseteq> set (occurrences x)"
    and "(p, db) \<in> set (multiplyIndexed ib) \<Longrightarrow> \<exists>x \<in> set (all_documents (finishIndex H det ib)).
      relative_path x = db_relative_path db \<and> set (db_occurrences db) \<subseteq> set (occurrences x)"
proof -
  let ?o = "key_order (ord_docs H) cmpStr det (multiplyIndexed ib)" and ?w = "with_forward_occurrences det (forwardDeclOccurenceMap ib)"
  have it: "permutes_lists (ord_docs H)" using assms by (simp add: hash_orders_ok_def)
  have docs: "all_documents (finishIndex H det ib) = map ?w (ib_documents ib @ map (\<lambda>(p, db). finishDocument H det db) ?o)"
    by (rule finishIndex_docs)
  show "\<exists>x \<in> set (all_documents (finishIndex H det ib)). relative_path x = relative_path d \<and> set (occurrences d) \<subseteq> set (occurrences x)"
    if "d \<in> set (ib_documents ib)"
    unfolding docs using that with_forward_occs [of d] by (intro bexI [of _ "?w d"]) auto
  show "\<exists>x \<in> set (all_documents (finishIndex H det ib)). relative_path x = db_relative_path db \<and> set (db_occurrences db) \<subseteq> set (occurrences x)"
    if "(p, db) \<in> set (multiplyIndexed ib)"
  proof (rule bexI [of _ "?w (finishDocument H det db)"])
    show "?w (finishDocument H det db) \<in> set (all_documents (finishIndex H det ib))"
      unfolding docs using that it by force
    show "relative_path (?w (finishDocument H det db)) = db_relative_path db \<and>
        set (db_occurrences db) \<subseteq> set (occurrences (?w (finishDocument H det db)))"
      using with_forward_occs [of "finishDocument H det db"] finishDocument_fields [OF assms, of det db] by simp
  qed
qed

lemma outline_cases:
  assumes "outline ib' = outline ib"
  shows "d \<in> set (ib_documents ib) \<Longrightarrow>
      \<exists>d' \<in> set (ib_documents ib'). relative_path d' = relative_path d \<and> occurrences d' = occurrences d"
    and "(p, db) \<in> set (multiplyIndexed ib) \<Longrightarrow> \<exists>db'. (p, db') \<in> set (multiplyIndexed ib') \<and>
      db_relative_path db' = db_relative_path db \<and> db_occurrences db' = db_occurrences db"
    and "written_paths ib' = written_paths ib"
proof -
  have o1: "map doc_outline (ib_documents ib') = map doc_outline (ib_documents ib)"
    and o2: "map builder_outline (multiplyIndexed ib') = map builder_outline (multiplyIndexed ib)"
    using assms by (simp_all add: outline_def)
  show "\<exists>d' \<in> set (ib_documents ib'). relative_path d' = relative_path d \<and> occurrences d' = occurrences d"
    if "d \<in> set (ib_documents ib)"
  proof -
    have "doc_outline d \<in> set (map doc_outline (ib_documents ib'))" unfolding o1 using that by simp
    then show ?thesis by (auto simp: doc_outline_def)
  qed
  show "\<exists>db'. (p, db') \<in> set (multiplyIndexed ib') \<and> db_relative_path db' = db_relative_path db \<and>
      db_occurrences db' = db_occurrences db" if "(p, db) \<in> set (multiplyIndexed ib)"
  proof -
    have "builder_outline (p, db) \<in> set (map builder_outline (multiplyIndexed ib'))" unfolding o2 using that by force
    then show ?thesis by (auto simp: builder_outline_def)
  qed
  have "map relative_path ds = map (\<lambda>x. fst (snd x)) (map doc_outline ds)" for ds by (simp add: doc_outline_def)
  moreover have "map (db_relative_path \<circ> snd) bs = map (\<lambda>x. fst (snd (snd x))) (map builder_outline bs)" for bs
    by (simp add: builder_outline_def)
  ultimately show "written_paths ib' = written_paths ib" unfolding written_paths_def using o1 o2 by metis
qed

lemma written_paths_count:
  assumes ib: "ib_represents multi ib docs exts"
  shows "count (written_paths ib) p =
    (if multi p then (if of_path p docs = [] then 0 else 1) else length (of_path p docs))"
proof -
  have lookup: "map_of (multiplyIndexed ib) q = Some db \<Longrightarrow> multi q \<and> of_path q docs \<noteq> [] \<and> db_relative_path db = q" for q db
    using ib by (simp add: ib_represents_def)
  have dist: "distinct (map fst (multiplyIndexed ib))" using ib by (simp add: ib_represents_def)
  have "(db_relative_path \<circ> snd) x = fst x" if "x \<in> set (multiplyIndexed ib)" for x
    using that dist lookup [of "fst x" "snd x"] by simp
  then have "map (db_relative_path \<circ> snd) (multiplyIndexed ib) = map fst (multiplyIndexed ib)" by (simp add: comp_def)
  then have builders: "count (mset (map (db_relative_path \<circ> snd) (multiplyIndexed ib))) p =
      (if p \<in> fst ` set (multiplyIndexed ib) then 1 else 0)"
    using dist by (metis (no_types, lifting) distinct_count_atmost_1 list.set_map)
  have known: "p \<in> fst ` set (multiplyIndexed ib) \<longleftrightarrow> multi p \<and> of_path p docs \<noteq> []"
    using ib lookup [of p] map_of_eq_None_iff [of "multiplyIndexed ib" p] unfolding ib_represents_def
    by (cases "map_of (multiplyIndexed ib) p") auto
  have single: "count (mset (map relative_path (ib_documents ib))) p = (if multi p then 0 else length (of_path p docs))"
  proof -
    have len: "count (mset (map relative_path xs)) p = length (filter (\<lambda>d. relative_path d = p) xs)" for xs
      by (induction xs) auto
    have docs: "ib_documents ib = filter (\<lambda>d. \<not> multi (relative_path d)) docs" using ib by (simp add: ib_represents_def)
    have "filter (\<lambda>d. relative_path d = p) (ib_documents ib) = (if multi p then [] else of_path p docs)"
      unfolding docs by (auto simp: of_path_def filter_empty_conv intro: filter_cong)
    then show ?thesis unfolding len by simp
  qed
  show ?thesis using single builders known by (simp add: written_paths_def)
qed

lemma represented_occurrences:
  assumes ib: "ib_represents multi ib docs exts" and d: "d \<in> set docs"
  shows "(\<exists>d' \<in> set (ib_documents ib). relative_path d' = relative_path d \<and> set (occurrences d) \<subseteq> set (occurrences d')) \<or>
    (\<exists>db. (relative_path d, db) \<in> set (multiplyIndexed ib) \<and> db_relative_path db = relative_path d \<and>
       set (occurrences d) \<subseteq> set (db_occurrences db))"
proof (cases "multi (relative_path d)")
  case False
  then have "d \<in> set (ib_documents ib)" using ib d by (simp add: ib_represents_def)
  then show ?thesis by blast
next
  case True
  have "of_path (relative_path d) docs \<noteq> []" using d by (auto simp: of_path_def filter_empty_conv)
  with True ib obtain db where db: "map_of (multiplyIndexed ib) (relative_path d) = Some db"
    unfolding ib_represents_def by fastforce
  with ib have "doc_represents db (of_path (relative_path d) docs)" "db_relative_path db = relative_path d"
    unfolding ib_represents_def by auto
  moreover have "d \<in> set (of_path (relative_path d) docs)" using d by (simp add: of_path_def)
  ultimately have "set (occurrences d) \<subseteq> set (db_occurrences db)" by (auto simp: doc_represents_def)
  with db \<open>db_relative_path db = relative_path d\<close> show ?thesis by (blast dest: map_of_SomeD)
qed

lemma merge_complete:
  assumes "driver_paths_ok L d" "\<forall>p \<in> set (allShardPaths d). shard_ok L strSplit F d p" "hash_orders_ok H"
  shows "\<exists>out bad. mergeShardsAndEmit L strSplit H F d = Inr (out, bad) \<and>
    (\<forall>p. count (mset (map relative_path (all_documents out))) p =
       (let n = length (of_path p (shard_documents F (allShardPaths d)))
        in if driver_multi d p then min n 1 else n)) \<and>
    (\<forall>doc \<in> set (shard_documents F (allShardPaths d)). \<exists>x \<in> set (all_documents out).
       relative_path x = relative_path doc \<and> set (occurrences doc) \<subseteq> set (occurrences x))"
proof -
  let ?docs = "shard_documents F (allShardPaths d)" and ?det = "deterministic (options d)"
  obtain ib bad where ib: "rfold (mergeShard L strSplit F d) (allShardPaths d) (empty_IndexBuilder, []) = Inr (ib, bad)"
      "ib_represents (driver_multi d) ib ?docs (shard_externals F (allShardPaths d))"
    using mergeShards_represent [OF assms(1,2) ib_represents_empty, of "[]"] by auto
  obtain out where out: "mergeShardsAndEmit L strSplit H F d = Inr out" using mergeShardsAndEmit_ok [OF assms] by blast
  with ib(1) obtain r ib1 where fd: "rfold (mergeForwardDecls H F) (allShardPaths d) (populateForwardDeclResolver H ib, ib) = Inr (r, ib1)"
    and fin: "out = (finishIndex H ?det ib1, sort bad)"
    by (auto simp: mergeShardsAndEmit_def result_simps)
  note o = outline_cases [OF mergeForwardDecls_outline [OF fd, unfolded snd_conv]]
  have counts: "count (mset (map relative_path (all_documents (finishIndex H ?det ib1)))) p =
      (let n = length (of_path p ?docs) in if driver_multi d p then min n 1 else n)" for p
  proof -
    have "min (length (of_path p ?docs)) 1 = (if of_path p ?docs = [] then 0 else 1)" by (cases "of_path p ?docs") auto
    then show ?thesis unfolding finishIndex_paths [OF assms(3)] o(3) written_paths_count [OF ib(2)] by (simp add: Let_def)
  qed
  have "\<exists>x \<in> set (all_documents (finishIndex H ?det ib1)). relative_path x = relative_path doc \<and>
      set (occurrences doc) \<subseteq> set (occurrences x)" if doc: "doc \<in> set ?docs" for doc
    using represented_occurrences [OF ib(2) doc]
  proof (elim disjE bexE exE conjE)
    fix d' assume "d' \<in> set (ib_documents ib)" "relative_path d' = relative_path doc" "set (occurrences doc) \<subseteq> set (occurrences d')"
    with o(1) [of d'] finishIndex_occurrences(1) [OF assms(3), of _ ib1 ?det] show ?thesis by (metis subset_trans)
  next
    fix db assume db: "(relative_path doc, db) \<in> set (multiplyIndexed ib)" "db_relative_path db = relative_path doc"
      "set (occurrences doc) \<subseteq> set (db_occurrences db)"
    from o(2) [OF db(1)] obtain db' where "(relative_path doc, db') \<in> set (multiplyIndexed ib1)"
      "db_relative_path db' = relative_path doc" "db_occurrences db' = db_occurrences db" using db(2) by auto
    with finishIndex_occurrences(2) [OF assms(3), of "relative_path doc" db' ib1 ?det] db(3) show ?thesis by (metis subset_trans)
  qed
  with out fin counts show ?thesis by blast
qed

subsection \<open>Properties\<close>


definition sample_options :: DriverOptions where
  "sample_options = \<lparr>workerExecutablePath = ''/bin/scip-clang'', projectRootPath = \<lparr>root_value = ''/p'', root_kind = Project\<rparr>,
     compdbPath = ''/p/compile_commands.json'', indexOutputPath = ''/p/index.scip'', statsFilePath = [], packageMapPath = [],
     showCompilerDiagnostics = False, showProgress = False, ipcSizeHintBytes = 1000, receiveTimeout = 300, numWorkers = 1,
     deterministic = True, preprocessorRecordHistoryFilterRegex = [], supplementaryOutputDir = [], workerFault = [],
     isTesting = False, noStacktrace = False, temporaryOutputDir = ''/t'', deleteTemporaryOutputDir = True, originalArgv = []\<rparr>"

definition sample_shards :: shard_files where
  "sample_shards = \<lparr>read_index = (\<lambda>p. Some \<lparr>documents = [\<lparr>language = ''CPP'', relative_path = ''a.h'',
       occurrences = [occurrence_at [0, 1, 2] ''s''], symbols = []\<rparr>], external_symbols = []\<rparr>),
     read_forward_decls = (\<lambda>p. None)\<rparr>"

definition merging_driver :: "unit Driver" where
  "merging_driver = (initial_driver sample_options ())\<lparr>planner := [(''/p/a.h'', [1, 2])],
     allShardPaths := [\<lparr>docsAndExternals = ''/t/x'', forwardDecls = ''/t/y''\<rparr>, \<lparr>docsAndExternals = ''/t/z'', forwardDecls = ''/t/u''\<rparr>]\<rparr>"


text \<open>Two documents that define symbols with one suffix in different packages.\<close>

definition clash_symbol :: "string \<Rightarrow> DocumentBuilder \<Rightarrow> DocumentBuilder" where
  "clash_symbol n db = db\<lparr>db_symbolInfos := [(n, \<lparr>sib_documentation = [], sib_relationships = [], sib_name = n\<rparr>)]\<rparr>"

definition clash_doc :: "string \<Rightarrow> DocumentBuilder" where
  "clash_doc p = \<lparr>db_language = [], db_relative_path = p, db_occurrences = [], db_symbolInfos = []\<rparr>"

definition clash_builder :: IndexBuilder where
  "clash_builder = empty_IndexBuilder\<lparr>multiplyIndexed :=
     [(''a.c'', clash_symbol ''p$ f().'' (clash_doc ''a.c'')), (''b.c'', clash_symbol ''q$ f().'' (clash_doc ''b.c''))]\<rparr>"

definition resolve_and_finish :: "hash_orders \<Rightarrow> ForwardDecl \<Rightarrow> IndexBuilder \<Rightarrow> Index list result" where
  "resolve_and_finish H fd ib =
     rbind (addForwardDeclaration H fd (populateForwardDeclResolver H ib, ib)) (\<lambda>st. Inr (finishIndex H True (snd st)))"

definition occurrence_symbols :: "Index list result \<Rightarrow> string list list" where
  "occurrence_symbols r = (case r of Inl e \<Rightarrow> [] | Inr out \<Rightarrow> map (\<lambda>d. map symbol (occurrences d)) (all_documents out))"


end
