(* ===== verification/Ipc_Space.thy ===== *)
theory Ipc_Space
  imports Driver_Options "HOL-Library.Log_Nat"
begin

text \<open>
  How many workers there is room for: \<^verbatim>\<open>MessageQueues::numWorkersUpperBound\<close> of indexer/Driver.cc, which divides the free space in
  \<^verbatim>\<open>/dev/shm\<close> by the space of one worker in floating point, \<^verbatim>\<open>availableSpaceForIpc\<close> of indexer/os/Linux.cc and
  indexer/os/macOS.cc, and the constructor of \<^verbatim>\<open>Driver\<close>, which also removes the queues that an earlier driver has left behind.

  A nonnegative \<^verbatim>\<open>double\<close> is kept as a natural number of units of \<open>2\<^sup>-\<^sup>1\<^sup>2\<^sup>0\<close>, and every operation rounds its exact result to 53
  significant bits, to even in the middle, as the IEEE standard says. All values of this computation that are not zero are between
  \<open>2\<^sup>-\<^sup>6\<^sup>6\<close> and \<open>2\<^sup>6\<^sup>5\<close>, so that neither overflow nor loss of precision at the lower end can occur, and a significand fits in the units.
\<close>

subsection \<open>Floating point\<close>

type_synonym double = nat

definition double_unit :: nat where
  "double_unit = 2 ^ 120"

text \<open>\<open>round53 a b\<close> is the quotient of \<open>a\<close> and \<open>b\<close>, in units, rounded.\<close>

definition round53 :: "nat \<Rightarrow> nat \<Rightarrow> double" where
  "round53 a b =
     (let k = floorlog 2 (a div b) - 53; d = b * 2 ^ k; m = a div d; r = a mod d
      in (if d < 2 * r \<or> (d = 2 * r \<and> odd m) then m + 1 else m) * 2 ^ k)"

definition double_of :: "nat \<Rightarrow> double" where
  "double_of n = round53 (n * double_unit) 1"

definition double_times :: "double \<Rightarrow> double \<Rightarrow> double" where
  "double_times x y = round53 (x * y) double_unit"

definition double_divide :: "double \<Rightarrow> double \<Rightarrow> double" where
  "double_divide x y = round53 (x * double_unit) y"

definition truncate_double :: "double \<Rightarrow> nat" where
  "truncate_double x = x div double_unit"

text \<open>The literal \<^verbatim>\<open>1.2\<close>: the nearest value with 53 bits.\<close>

definition literal_1_2 :: double where
  "literal_1_2 = round53 (12 * double_unit) 10"

subsection \<open>The space for messages\<close>

text \<open>An error code is its number; \<^verbatim>\<open>std::errc::read_only_file_system\<close> is 30.\<close>

record statvfs_info =
  f_readonly :: bool
  f_bavail :: "64 word"
  f_bsize :: "64 word"

definition read_only_file_system :: int where
  "read_only_file_system = 30"

definition availableSpaceUnknown :: "64 word" where
  "availableSpaceUnknown = - 1"

definition availableSpaceForIpc_linux :: "int + statvfs_info \<Rightarrow> int + 64 word" where
  "availableSpaceForIpc_linux shm =
     (case shm of
        Inl errno \<Rightarrow> Inl errno
      | Inr info \<Rightarrow> if f_readonly info then Inl read_only_file_system else Inr (f_bavail info * f_bsize info))"

definition availableSpaceForIpc_macOS :: "int + 64 word" where
  "availableSpaceForIpc_macOS = Inr availableSpaceUnknown"

text \<open>
  A hint of zero makes the divisor zero. The conversion of the quotient, which is not a number in range, is not defined then: it is the
  argument \<open>undefinedValue\<close>.
\<close>

definition maxWorkersForSpace :: "nat \<Rightarrow> nat \<Rightarrow> nat \<Rightarrow> nat" where
  "maxWorkersForSpace undefinedValue space perWorkerSizeHintBytes =
     (if perWorkerSizeHintBytes = 0 then undefinedValue
      else truncate_double (double_divide (double_of space) (double_times (double_of perWorkerSizeHintBytes) literal_1_2)))"

definition numWorkersUpperBound :: "nat \<Rightarrow> int + 64 word \<Rightarrow> nat \<Rightarrow> nat result" where
  "numWorkersUpperBound undefinedValue spaceOrError perWorkerSizeHintBytes =
     (case spaceOrError of
        Inl e \<Rightarrow> if e = read_only_file_system then Inl (ExitFailure ''/dev/shm is read-only'') else Inr (2 ^ 64 - 1)
      | Inr space \<Rightarrow>
          let maxNumWorkers = maxWorkersForSpace undefinedValue (unat space) perWorkerSizeHintBytes
          in if maxNumWorkers = 0 then Inl (ExitFailure ''not enough free bytes in /dev/shm'') else Inr maxNumWorkers)"

subsection \<open>The queues of a driver\<close>

text \<open>\<open>present\<close> holds the names of the queues that exist.\<close>

definition deleteIfPresent :: "string \<Rightarrow> nat \<Rightarrow> string set \<Rightarrow> string set" where
  "deleteIfPresent driverId n present =
     fold (\<lambda>w s. s - {driverToWorkerQueueName driverId w}) [0..<n] present - {workerToDriverQueueName driverId}"

text \<open>
  The constructor. A queue is created only under a name that is not in use; \<open>can\<close> tells whether the system
  has the resources for it.
\<close>

definition mkDriverQueues ::
  "(string \<Rightarrow> bool) \<Rightarrow> nat \<Rightarrow> int + 64 word \<Rightarrow> string \<Rightarrow> string set \<Rightarrow> DriverOptions \<Rightarrow> (MessageQueues \<times> DriverOptions) result" where
  "mkDriverQueues can undefinedValue spaceOrError driverId present opts =
     (let present' = deleteIfPresent driverId (numWorkers opts) present
      in rbind (numWorkersUpperBound undefinedValue spaceOrError (ipcSizeHintBytes opts)) (\<lambda>maxNumWorkers.
           initDriverQueues (\<lambda>q. q \<notin> present' \<and> can q) driverId maxNumWorkers opts))"

subsection \<open>Rounding errors\<close>

lemma round53_significand:
  assumes "b > 0" "2 ^ 52 \<le> a div b"
  shows "2 ^ 52 \<le> a div (b * 2 ^ (floorlog 2 (a div b) - 53))"
proof -
  let ?q = "a div b" and ?L = "floorlog 2 (a div b)"
  have L: "53 \<le> ?L" by (rule floorlog_geI) (use assms(2) in simp_all)
  have "2 ^ (?L - 1) \<le> ?q" using floorlog_bounds [of ?q 2] assms(2) by simp
  moreover have "(2 :: nat) ^ (?L - 1) = 2 ^ 52 * 2 ^ (?L - 53)"
  proof -
    have "?L - 1 = 52 + (?L - 53)" using L by simp
    then show ?thesis by (simp only: power_add)
  qed
  ultimately have "2 ^ 52 * 2 ^ (?L - 53) \<le> ?q" by simp
  then have "2 ^ 52 \<le> ?q div 2 ^ (?L - 53)" by (simp add: less_eq_div_iff_mult_less_eq)
  then show ?thesis by (simp add: div_mult2_eq)
qed

lemma round53_nat_bounds:
  assumes "b > 0" "2 ^ 52 \<le> a div b"
  shows "2 ^ 53 * (round53 a b * b) \<le> (2 ^ 53 + 1) * a" "(2 ^ 53 - 1) * a \<le> 2 ^ 53 * (round53 a b * b)"
proof -
  define k where "k = floorlog 2 (a div b) - 53"
  define d where "d = b * 2 ^ k"
  define m where "m = a div d"
  define r where "r = a mod d"
  have m: "2 ^ 52 \<le> m" using round53_significand [OF assms] by (simp add: m_def d_def k_def)
  have a: "a = m * d + r" by (simp add: m_def r_def)
  have d: "d > 0" using assms(1) by (simp add: d_def)
  then have r: "r < d" by (simp add: r_def)
  have md: "2 ^ 52 * d \<le> m * d" using m by (rule mult_le_mono1)
  have R: "round53 a b * b = (if d < 2 * r \<or> (d = 2 * r \<and> odd m) then m * d + d else m * d)"
    unfolding round53_def Let_def k_def [symmetric] d_def [symmetric] m_def [symmetric] r_def [symmetric]
    by (simp add: d_def algebra_simps)
  define p where "p = m * d"
  have p: "a = p + r" "2 ^ 52 * d \<le> p" using a md by (simp_all add: p_def)
  have up: "2 ^ 53 * y \<le> (2 ^ 53 + 1) * a" and low: "(2 ^ 53 - 1) * a \<le> 2 ^ 53 * y"
    if "y = p \<and> 2 * r \<le> d \<or> y = p + d \<and> d \<le> 2 * r" for y
    using that p r by auto
  have "round53 a b * b = p \<and> 2 * r \<le> d \<or> round53 a b * b = p + d \<and> d \<le> 2 * r"
    using R by (auto simp: p_def)
  from up [OF this] low [OF this]
  show "2 ^ 53 * (round53 a b * b) \<le> (2 ^ 53 + 1) * a" "(2 ^ 53 - 1) * a \<le> 2 ^ 53 * (round53 a b * b)" by blast+
qed

lemma round53_bounds:
  assumes "b > 0" "2 ^ 52 \<le> a div b"
  shows "real (round53 a b) \<le> 10001 / 10000 * (real a / real b)" "9999 / 10000 * (real a / real b) \<le> real (round53 a b)"
proof -
  have "real (2 ^ 53 * (round53 a b * b)) \<le> real ((2 ^ 53 + 1) * a)" "real ((2 ^ 53 - 1) * a) \<le> real (2 ^ 53 * (round53 a b * b))"
    using round53_nat_bounds [OF assms] by (simp_all only: of_nat_le_iff)
  then have "real (round53 a b) * real b \<le> 10001 / 10000 * real a" "9999 / 10000 * real a \<le> real (round53 a b) * real b"
    by simp_all
  then show "real (round53 a b) \<le> 10001 / 10000 * (real a / real b)" "9999 / 10000 * (real a / real b) \<le> real (round53 a b)"
    using assms(1) by (simp_all add: field_simps)
qed

lemma round53_small: "b > 0 \<Longrightarrow> a div b < 2 ^ 52 \<Longrightarrow> round53 a b \<le> 2 ^ 52"
proof -
  assume b: "b > 0" and q: "a div b < 2 ^ 52"
  then have "floorlog 2 (a div b) \<le> 53" by (intro floorlog_leI) simp_all
  then show ?thesis using q by (simp add: round53_def Let_def)
qed

definition real_value :: "double \<Rightarrow> real" where
  "real_value x = real x / real double_unit"

lemma double_of_bounds:
  assumes "n > 0"
  shows "real_value (double_of n) \<le> 10001 / 10000 * real n" "9999 / 10000 * real n \<le> real_value (double_of n)"
proof -
  have "2 ^ 52 \<le> n * double_unit div 1" using assms by (cases n) (simp_all add: double_unit_def)
  note bounds = round53_bounds [OF zero_less_one this]
  show "real_value (double_of n) \<le> 10001 / 10000 * real n" "9999 / 10000 * real n \<le> real_value (double_of n)"
    using bounds by (simp_all add: real_value_def double_of_def field_simps double_unit_def)
qed

lemma literal_1_2_bounds: "real_value literal_1_2 \<le> 12002 / 10000" "11998 / 10000 \<le> real_value literal_1_2"
proof -
  have "2 ^ 52 \<le> 12 * double_unit div 10" by (simp add: double_unit_def)
  note bounds = round53_bounds [OF _ this]
  show "real_value literal_1_2 \<le> 12002 / 10000" "11998 / 10000 \<le> real_value literal_1_2"
    using bounds by (simp_all add: real_value_def literal_1_2_def double_unit_def)
qed

lemma real_value_times:
  assumes "1 / 2 \<le> real_value x * real_value y"
  shows "real_value (double_times x y) \<le> 10001 / 10000 * (real_value x * real_value y)"
    "9999 / 10000 * (real_value x * real_value y) \<le> real_value (double_times x y)"
proof -
  have u: "real double_unit > 0" by (simp add: double_unit_def)
  have "real (2 ^ 52 * double_unit * 2) \<le> real (x * y * 2)"
  proof -
    have "real double_unit * real double_unit \<le> 2 * (real x * real y)"
      using assms u by (simp add: real_value_def field_simps)
    moreover have "2 ^ 53 * real double_unit \<le> real double_unit * real double_unit" by (simp add: double_unit_def)
    ultimately show ?thesis by simp
  qed
  then have "2 ^ 52 * double_unit \<le> x * y" unfolding of_nat_le_iff by simp
  then have big: "2 ^ 52 \<le> x * y div double_unit" by (simp add: less_eq_div_iff_mult_less_eq double_unit_def)
  have "double_unit > 0" by (simp add: double_unit_def)
  note bounds = round53_bounds [OF this big]
  show "real_value (double_times x y) \<le> 10001 / 10000 * (real_value x * real_value y)"
    "9999 / 10000 * (real_value x * real_value y) \<le> real_value (double_times x y)"
    using divide_right_mono [OF bounds(1), of "real double_unit"] divide_right_mono [OF bounds(2), of "real double_unit"] u
    by (simp_all add: double_times_def real_value_def field_simps)
qed

lemma real_value_divide:
  assumes "y > 0" "2 ^ 52 \<le> x * double_unit div y"
  shows "real_value (double_divide x y) \<le> 10001 / 10000 * (real_value x / real_value y)"
    "9999 / 10000 * (real_value x / real_value y) \<le> real_value (double_divide x y)"
  using round53_bounds [OF assms]
  by (simp_all add: double_divide_def real_value_def field_simps double_unit_def)

lemma worker_size_bounds:
  fixes hint :: nat
  assumes "hint > 0"
  defines "P \<equiv> double_times (double_of hint) literal_1_2"
  shows "real_value P \<le> 12006 / 10000 * real hint" "11994 / 10000 * real hint \<le> real_value P"
proof -
  let ?H = "real_value (double_of hint)" and ?C = "real_value literal_1_2"
  note H = double_of_bounds [OF assms(1)] and C = literal_1_2_bounds
  have lower: "11996 / 10000 * real hint \<le> ?H * ?C"
  proof -
    have "9999 / 10000 * real hint * (11998 / 10000) \<le> ?H * ?C" using H C by (intro mult_mono) simp_all
    then show ?thesis by simp
  qed
  have upper: "?H * ?C \<le> 12004 / 10000 * real hint"
  proof -
    have "?H * ?C \<le> 10001 / 10000 * real hint * (12002 / 10000)" using H C by (intro mult_mono) simp_all
    then show ?thesis by simp
  qed
  have "real hint \<ge> 1" using assms(1) by simp
  then have "1 / 2 \<le> ?H * ?C" using lower by simp
  from real_value_times [OF this] lower upper
  show "real_value P \<le> 12006 / 10000 * real hint" "11994 / 10000 * real hint \<le> real_value P"
    unfolding P_def by simp_all
qed

lemma truncate_le: "real (truncate_double x) \<le> real_value x"
  by (simp add: truncate_double_def real_value_def of_nat_div_le_of_nat)

lemma truncate_zero: "truncate_double x = 0 \<longleftrightarrow> real_value x < 1"
  by (simp add: truncate_double_def real_value_def double_unit_def div_eq_0_iff)

lemma double_of_zero: "double_of 0 = 0"
  by (simp add: double_of_def round53_def Let_def)

lemma maxWorkers_fit:
  assumes "hint > 0"
  shows "23 * (maxWorkersForSpace u space hint * hint) \<le> 20 * space"
proof (cases "maxWorkersForSpace u space hint = 0")
  case False
  define S where "S = double_of space"
  define P where "P = double_times (double_of hint) literal_1_2"
  define n where "n = truncate_double (double_divide S P)"
  have n: "maxWorkersForSpace u space hint = n" using assms by (simp add: maxWorkersForSpace_def n_def S_def P_def)
  have P: "11994 / 10000 * real hint \<le> real_value P" unfolding P_def by (rule worker_size_bounds(2) [OF assms])
  with assms have pos: "real_value P > 0" by (simp add: order_less_le_trans)
  then have "P > 0" by (auto simp: real_value_def zero_less_divide_iff)
  have space: "space > 0"
    using False n by (cases space) (simp_all add: n_def S_def double_of_zero double_divide_def round53_def truncate_double_def Let_def)
  have big: "2 ^ 52 \<le> S * double_unit div P"
  proof (rule ccontr)
    assume "\<not> 2 ^ 52 \<le> S * double_unit div P"
    then have "double_divide S P \<le> 2 ^ 52" using round53_small [OF \<open>P > 0\<close>] by (simp add: double_divide_def)
    also have "\<dots> < double_unit" by (simp add: double_unit_def)
    finally show False using False n by (simp add: n_def truncate_double_def)
  qed
  have "real n \<le> 10001 / 10000 * (real_value S / real_value P)"
    using order_trans [OF truncate_le real_value_divide(1) [OF \<open>P > 0\<close> big]] by (simp add: n_def)
  also have "\<dots> \<le> 10001 / 10000 * (10001 / 10000 * real space / (11994 / 10000 * real hint))"
    using double_of_bounds [OF space] P assms pos by (intro mult_left_mono frac_le) (simp_all add: S_def)
  also have "\<dots> \<le> 20 / 23 * (real space / real hint)" using assms by (simp add: field_simps)
  finally have "real (23 * (n * hint)) \<le> real (20 * space)" using assms by (simp add: field_simps)
  then show ?thesis unfolding n of_nat_le_iff .
qed simp

lemma maxWorkers_positive:
  assumes "hint > 0" "5 * hint \<le> 4 * space"
  shows "maxWorkersForSpace u space hint > 0"
proof -
  define S where "S = double_of space"
  define P where "P = double_times (double_of hint) literal_1_2"
  have P: "real_value P \<le> 12006 / 10000 * real hint" "11994 / 10000 * real hint \<le> real_value P"
    unfolding P_def by (rule worker_size_bounds [OF assms(1)])+
  with assms have pos: "real_value P > 0" by (simp add: order_less_le_trans)
  then have "P > 0" by (auto simp: real_value_def zero_less_divide_iff)
  have space: "space > 0" using assms by (cases space) simp_all
  have "real (5 * hint) \<le> real (4 * space)" using assms(2) by (simp only: of_nat_le_iff)
  then have ratio: "5 / 4 * real hint \<le> real space" by simp
  have "9999 / 10000 * (5 / 4 * real hint) / (12006 / 10000 * real hint) \<le> real_value S / real_value P"
  proof (intro frac_le)
    show "9999 / 10000 * (5 / 4 * real hint) \<le> real_value S"
      using double_of_bounds(2) [OF space] ratio by (simp add: S_def)
  qed (use P pos double_of_bounds(2) [OF space] space in \<open>simp_all add: S_def\<close>)
  then have quotient: "104 / 100 \<le> real_value S / real_value P" using assms(1) by simp
  have "2 ^ 53 \<le> real (S * double_unit) / real P"
  proof -
    have "104 / 100 * real double_unit \<le> real_value S / real_value P * real double_unit"
      using quotient by (rule mult_right_mono) simp
    also have "\<dots> = real (S * double_unit) / real P" by (simp add: real_value_def double_unit_def)
    finally show ?thesis by (simp add: double_unit_def)
  qed
  then have "real (2 ^ 53 * P) \<le> real (S * double_unit)" using \<open>P > 0\<close> by (simp add: field_simps)
  then have "2 ^ 53 * P \<le> S * double_unit" by (simp only: of_nat_le_iff)
  then have "2 ^ 52 * P \<le> S * double_unit" by simp
  then have big: "2 ^ 52 \<le> S * double_unit div P" using \<open>P > 0\<close> by (simp add: less_eq_div_iff_mult_less_eq)
  have "9999 / 10000 * (104 / 100) \<le> 9999 / 10000 * (real_value S / real_value P)" using quotient by simp
  also have "\<dots> \<le> real_value (double_divide S P)" by (rule real_value_divide(2) [OF \<open>P > 0\<close> big])
  finally have "\<not> real_value (double_divide S P) < 1" by simp
  then show ?thesis using assms(1) truncate_zero [of "double_divide S P"] by (simp add: maxWorkersForSpace_def S_def P_def)
qed

lemma deleteIfPresent_eq:
  "deleteIfPresent driverId n present =
   present - driverToWorkerQueueName driverId ` {0..<n} - {workerToDriverQueueName driverId}"
proof -
  have "fold (\<lambda>w s. s - {f w}) ws s = s - f ` set ws" for f :: "nat \<Rightarrow> string" and ws s
    by (induction ws arbitrary: s) auto
  then show ?thesis by (simp add: deleteIfPresent_def)
qed

subsection \<open>Properties\<close>

text \<open>
  C15: The driver sets up its queues whenever there is room for them. With a size hint that is not zero, the constructor gives
  at least one and at most the requested number of workers. All queue names are different, each queue could be created, also when an
  earlier driver with the same identifier has left its queues behind, and in spite of all rounding the free space is enough for
  115% of the hint for each worker. It stops the program only if the file system is read-only, if there is
  less space than 125% of the hint for a single worker, or if the system refuses one of the first two queues.
\<close>

theorem driver_queues_ready:
  assumes workers: "numWorkers opts > 0" and hint: "ipcSizeHintBytes opts > 0"
  shows "case mkDriverQueues can undefinedValue (availableSpaceForIpc_linux (Inr info)) driverId present opts of
     Inr (queues, opts') \<Rightarrow>
       distinct (workerToDriver queues # driverToWorker queues) \<and>
       (\<forall>q \<in> set (workerToDriver queues # driverToWorker queues). can q) \<and>
       numWorkers opts' = length (driverToWorker queues) \<and> 0 < numWorkers opts' \<and> numWorkers opts' \<le> numWorkers opts \<and>
       23 * (numWorkers opts' * ipcSizeHintBytes opts) \<le> 20 * unat (f_bavail info * f_bsize info)
   | Inl e \<Rightarrow> f_readonly info \<or> 4 * unat (f_bavail info * f_bsize info) < 5 * ipcSizeHintBytes opts \<or>
       \<not> can (workerToDriverQueueName driverId) \<or> \<not> can (driverToWorkerQueueName driverId 0)"
proof (cases "f_readonly info")
  case False
  let ?space = "unat (f_bavail info * f_bsize info)" and ?hint = "ipcSizeHintBytes opts"
  let ?max = "maxWorkersForSpace undefinedValue ?space ?hint"
  define create where "create q \<longleftrightarrow> q \<notin> deleteIfPresent driverId (numWorkers opts) present \<and> can q" for q
  have can: "create q \<Longrightarrow> can q" for q by (simp add: create_def)
  have free: "create (workerToDriverQueueName driverId) = can (workerToDriverQueueName driverId)"
    "create (driverToWorkerQueueName driverId 0) = can (driverToWorkerQueueName driverId 0)"
    using workers by (auto simp: create_def deleteIfPresent_eq)
  have eq: "mkDriverQueues can undefinedValue (availableSpaceForIpc_linux (Inr info)) driverId present opts =
      (if ?max = 0 then Inl (ExitFailure ''not enough free bytes in /dev/shm'') else initDriverQueues create driverId ?max opts)"
    using False unfolding create_def
    by (simp add: mkDriverQueues_def availableSpaceForIpc_linux_def numWorkersUpperBound_def Let_def)
  show ?thesis
  proof (cases "?max = 0")
    case True
    then have "\<not> 5 * ?hint \<le> 4 * ?space" using maxWorkers_positive [OF hint, of ?space undefinedValue] by (intro notI) simp
    with True show ?thesis by (simp add: eq)
  next
    case max: False
    have fit: "23 * (n * ?hint) \<le> 20 * ?space" if "n \<le> ?max" for n
      using mult_le_mono1 [OF that, of ?hint] maxWorkers_fit [OF hint, of undefinedValue ?space] by linarith
    have queues: "case initDriverQueues create driverId ?max opts of
       Inr (queues, opts') \<Rightarrow>
         distinct (workerToDriver queues # driverToWorker queues) \<and>
         0 < numWorkers opts' \<and> numWorkers opts' \<le> min ?max (numWorkers opts) \<and>
         numWorkers opts' = length (driverToWorker queues) \<and>
         (\<forall>q \<in> set (workerToDriver queues # driverToWorker queues). create q)
     | Inl e \<Rightarrow> \<not> create (workerToDriverQueueName driverId) \<or> \<not> create (driverToWorkerQueueName driverId 0)"
      using queue_setup [of ?max opts driverId create] max workers by blast
    show ?thesis
    proof (cases "initDriverQueues create driverId ?max opts")
      case (Inl e)
      with queues max free show ?thesis by (simp add: eq)
    next
      case (Inr p)
      obtain queues opts' where p: "p = (queues, opts')" by (cases p)
      from queues have facts: "distinct (workerToDriver queues # driverToWorker queues)" "0 < numWorkers opts'"
        "numWorkers opts' \<le> ?max" "numWorkers opts' \<le> numWorkers opts" "numWorkers opts' = length (driverToWorker queues)"
        "\<forall>q \<in> set (workerToDriver queues # driverToWorker queues). create q"
        unfolding p Inr sum.case prod.case min.bounded_iff by blast+
      have "\<forall>q \<in> set (workerToDriver queues # driverToWorker queues). can q" using facts(6) can by blast
      with facts fit [OF facts(3)] Inr p max show ?thesis by (simp add: eq)
    qed
  qed
qed (simp add: mkDriverQueues_def availableSpaceForIpc_linux_def numWorkersUpperBound_def Let_def)

text \<open>A stale queue of the same driver does not matter; there is room for three of the four workers.\<close>

definition four_workers_1MB :: DriverOptions where
  "four_workers_1MB = four_workers\<lparr>ipcSizeHintBytes := 1000000\<rparr>"

theorem driver_queues_ready_witness:
  "case mkDriverQueues (\<lambda>q. True) 0 (availableSpaceForIpc_linux (Inr \<lparr>f_readonly = False, f_bavail = 1000, f_bsize = 4096\<rparr>)) ''7''
      {workerToDriverQueueName ''7'', driverToWorkerQueueName ''7'' 0} four_workers_1MB of
     Inr (queues, opts') \<Rightarrow> distinct (workerToDriver queues # driverToWorker queues) \<and> 0 < numWorkers opts' \<and>
       23 * (numWorkers opts' * 1000000) \<le> 20 * 4096000
   | Inl e \<Rightarrow> False"
  using driver_queues_ready [where opts = four_workers_1MB and can = "\<lambda>q. True" and undefinedValue = 0
      and info = "\<lparr>f_readonly = False, f_bavail = 1000, f_bsize = 4096\<rparr>" and driverId = "''7''"
      and present = "{workerToDriverQueueName ''7'', driverToWorkerQueueName ''7'' 0}"]
  by (auto simp: four_workers_1MB_def four_workers_def split: sum.splits)

text \<open>
  With no workers at all, which the option \<^verbatim>\<open>--jobs\<close> allows and which is the default on a machine that does not know its number
  of processors, the constructor fails a check.
\<close>

theorem no_workers_requested:
  assumes "numWorkers opts = 0" "numWorkersUpperBound undefinedValue spaceOrError (ipcSizeHintBytes opts) = Inr n" "n > 0"
    "can (workerToDriverQueueName driverId)"
  shows "mkDriverQueues can undefinedValue spaceOrError driverId present opts = Inl (EnforceFailed ''numSendQueues > 0'')"
  using assms by (simp add: mkDriverQueues_def initDriverQueues_def mkMessageQueues_def deleteIfPresent_eq)

text \<open>The unknown space of macOS, and a file system that cannot be asked, put no useful bound on the number of workers.\<close>

lemma macOS_space: "hint > 0 \<Longrightarrow> hint \<le> 10 ^ 9 \<Longrightarrow>
    \<exists>n > 0. numWorkersUpperBound u availableSpaceForIpc_macOS hint = Inr n"
proof -
  assume hint: "hint > 0" "hint \<le> 10 ^ 9"
  have space: "unat availableSpaceUnknown = 2 ^ 64 - 1" by (simp add: availableSpaceUnknown_def unsigned_minus_1_eq_mask mask_eq_exp_minus_1)
  have "maxWorkersForSpace u (unat availableSpaceUnknown) hint > 0"
    by (rule maxWorkers_positive) (use hint in \<open>simp_all add: space\<close>)
  then show ?thesis by (simp add: numWorkersUpperBound_def availableSpaceForIpc_macOS_def Let_def)
qed

end
