(* ===== verification/Driver_Main.thy ===== *)
theory Driver_Main
  imports Compdb_Correct Driver_Run Index_Merging Ipc_Space
begin

text \<open>
  The driver from its start to its end: \<^verbatim>\<open>driverMain\<close>, \<^verbatim>\<open>Driver::openCompilationDatabase\<close>, \<^verbatim>\<open>Driver::run\<close> and the destructor of
  \<^verbatim>\<open>Driver\<close> (indexer/Driver.cc), composed of the options, the queues, the parser of the compilation database, the main loop and the
  merging of the shards. The main loop is the relation \<open>driver_reaches\<close>, so that the whole program is one, too: \<open>driverMain\<close> relates the
  options to the ways in which the process can end.

  What the driver asks the system for is the record \<open>driver_world\<close>.
\<close>

subsection \<open>Definitions\<close>

record driver_world =
  dw_env :: driver_env
  dw_pid :: nat
  dw_canCreateQueue :: "string \<Rightarrow> bool"
  dw_presentQueues :: "string set"
  dw_space :: "int + 64 word"
  dw_undefinedValue :: nat
  dw_readCompdb :: "string \<Rightarrow> compdb_open"
  dw_garbage :: "32 word"
  dw_tools :: tool_env
  dw_matches :: "string \<Rightarrow> string \<Rightarrow> bool"
  dw_spawn :: "WorkerId \<Rightarrow> Process"
  dw_canWrite :: "string \<Rightarrow> bool"
  dw_shards :: shard_files
  dw_orders :: hash_orders
  dw_strSplit :: "string \<Rightarrow> char \<Rightarrow> string list"

definition openCompilationDatabase ::
  "llvm_path \<Rightarrow> 32 word \<Rightarrow> (string \<Rightarrow> compdb_open) \<Rightarrow> DriverOptions \<Rightarrow> (nat \<times> DriverOptions \<times> ResumableParser) result" where
  "openCompilationDatabase L garbage readCompdb opts =
     rbind (openAndExitOnErrors L garbage
              \<lparr>checkDirectoryPathsAreAbsolute = \<not> isTesting opts, tryDetectOutOfProjectRoot = \<not> isTesting opts\<rparr>
              (readCompdb (compdbPath opts))) (\<lambda>(compdbCommandCount, evs).
       let opts1 = limitWorkers compdbCommandCount opts
       in rbind (mkParseOptions (refillCount opts1) (isTesting opts1)) (\<lambda>po.
            Inr (compdbCommandCount, opts1, initializeParser evs po)))"

text \<open>Everything up to the main loop.\<close>

definition startDriver :: "llvm_path \<Rightarrow> driver_world \<Rightarrow> string \<Rightarrow> CliOptions \<Rightarrow> ResumableParser config result" where
  "startDriver L W driverId cli =
     rbind (mkDriverOptions L (dw_env W) driverId cli) (\<lambda>opts.
     rbind (mkDriverQueues (dw_canCreateQueue W) (dw_undefinedValue W) (dw_space W) driverId (dw_presentQueues W) opts) (\<lambda>(queues, opts1).
     rbind (openCompilationDatabase L (dw_garbage W) (dw_readCompdb W) opts1) (\<lambda>(compdbCommandCount, opts2, parser).
       start_config (parseMore L (dw_tools W) (dw_matches W)) opts2 (dw_spawn W) parser)))"

text \<open>What the driver leaves behind: the files, the numbers that it prints, and the directory that its destructor removes.\<close>

record driver_report =
  rep_index :: "Index list"
  rep_stats :: "(string \<times> 64 word) list option"
  rep_indexedTus :: "32 word"
  rep_erroredTus :: nat
  rep_skipped :: "(32 word \<times> 32 word \<times> 32 word) option"
  rep_removedDir :: "string option"

definition writeDriverIndex :: "llvm_path \<Rightarrow> driver_world \<Rightarrow> 'p Driver \<Rightarrow> Index list result" where
  "writeDriverIndex L W d =
     (if dw_canWrite W (indexOutputPath (options d))
      then rbind (emitScipIndex L (dw_strSplit W) (dw_orders W) (dw_shards W) d) (\<lambda>(index, badJobIds). Inr index)
      else Inl (ExitFailure ''failed to open for writing index''))"

definition writeStats :: "driver_world \<Rightarrow> 'p Driver \<Rightarrow> (string \<times> 64 word) list option result" where
  "writeStats W d =
     rbind (emitStatsFile d) (\<lambda>stats.
       if stats = None then Inr None
       else enforcing (dw_canWrite W (statsFilePath (options d))) ''!error'' (Inr stats))"

definition skippedEntries :: "ResumableParser \<Rightarrow> (32 word \<times> 32 word \<times> 32 word) option" where
  "skippedEntries p =
     (let nonTu = word_of_nat (skippedNonTuFileExtension p); nonExistent = word_of_nat (skippedNonExistentTuFile p);
          totalSkipped = nonExistent + nonTu
      in if totalSkipped = 0 then None else Some (totalSkipped, nonTu, nonExistent))"

definition destroyDriver :: "'p Driver \<Rightarrow> string option" where
  "destroyDriver d = (if deleteTemporaryOutputDir (options d) then Some (temporaryOutputDir (options d)) else None)"

definition finishDriver :: "llvm_path \<Rightarrow> driver_world \<Rightarrow> ResumableParser Driver \<Rightarrow> driver_report result" where
  "finishDriver L W d =
     rbind (writeDriverIndex L W d) (\<lambda>index.
     rbind (writeStats W d) (\<lambda>stats.
       Inr \<lparr>rep_index = index, rep_stats = stats, rep_indexedTus = indexedSoFar d,
            rep_erroredTus = numErroredJobs (scheduler d), rep_skipped = skippedEntries (compdbParser d),
            rep_removedDir = destroyDriver d\<rparr>))"

datatype driver_exit = DriverReturns int "driver_report option" | DriverStops failure

fun driverExit :: "driver_report result \<Rightarrow> driver_exit" where
  "driverExit (Inr report) = DriverReturns 0 (Some report)"
| "driverExit (Inl e) = (if e = InterprocessException then DriverReturns 1 None else DriverStops e)"

definition chosenDriverId :: "nat \<Rightarrow> string \<Rightarrow> string" where
  "chosenDriverId pid given = (if given = [] then fmt_nat pid else given)"

inductive driverMain ::
  "llvm_path \<Rightarrow> driver_world \<Rightarrow> (send_fun \<Rightarrow> (WorkerId \<Rightarrow> bool) \<Rightarrow> bool \<Rightarrow> bool) \<Rightarrow> string \<Rightarrow> CliOptions \<Rightarrow> driver_exit \<Rightarrow> bool"
  for L W sends given cli
where
  not_started: "startDriver L W (chosenDriverId (dw_pid W) given) cli = Inl e \<Longrightarrow>
    driverMain L W sends given cli (driverExit (Inl e))"
| stopped: "startDriver L W (chosenDriverId (dw_pid W) given) cli = Inr c0 \<Longrightarrow>
    driver_reaches (parseMore L (dw_tools W) (dw_matches W)) L sends c0 (Aborted e) \<Longrightarrow>
    driverMain L W sends given cli (driverExit (Inl e))"
| finished: "startDriver L W (chosenDriverId (dw_pid W) given) cli = Inr c0 \<Longrightarrow>
    driver_reaches (parseMore L (dw_tools W) (dw_matches W)) L sends c0 (Finished c) \<Longrightarrow>
    driverMain L W sends given cli (driverExit (finishDriver L W (cfg_driver c)))"

subsection \<open>Runs on a compilation database\<close>

lemma database_parser_ok:
  assumes "env_ok L E" "\<forall>e \<in> set es. entry_ok e" "length es \<le> 2 ^ 32" "po_refillCount po > 0"
  shows "parser_ok L E (initializeParser (database_events es) po)"
  using assms initial_parser_at [OF assms(2,4)] by (auto simp: parser_ok_def initializeParser_def)

lemma run_of_database:
  assumes "parser_ok L E p" "numWorkers opts > 0" "start_config (parseMore L E rx) opts spawn p = Inr c0"
    and "driver_reaches (parseMore L E rx) L reliable c0 oc"
  shows "compdb.outcome_ok L E L oc"
  using compdb.reaches_ok [OF assms(4)] compdb.start_ok [OF assms(3,1,2)] by blast

text \<open>The first batch of commands, and the configuration in which the loop starts with it.\<close>

lemma start_batch:
  assumes "env_ok L E" "\<forall>e \<in> set es. entry_ok e" "length es \<le> 2 ^ 32" "po_refillCount po > 0"
  shows "\<exists>m out s' p'. m \<le> length es \<and> (out = [] \<longrightarrow> m = length es) \<and> length out \<le> po_refillCount po \<and>
    map cmd_key out = map cmd_key (kept_from (keeps L E rx po) 0 (map command_of (take m es))) \<and>
    pendingJobs s' = map task_of out \<and> dom (allJobList s') = task_of ` set out \<and>
    start_config (parseMore L E rx) opts spawn (initializeParser (database_events es) po) =
      (if out = [] then Inl (ExitFailure ''compilation database has no entries that could be processed'')
       else Inr \<lparr>cfg_phase = AtTop, cfg_refill = length out,
         cfg_driver = (initial_driver opts (initializeParser (database_events es) po))\<lparr>scheduler := s', compdbParser := p'\<rparr>,
         cfg_queue = [], completed = {}, lost = {}\<rparr>)"
proof -
  let ?p = "initializeParser (database_events es) po"
  have p: "rp_options ?p = po" "currentIndex ?p = 0" "parseLimit (rp_handler ?p) = po_refillCount po"
    by (simp_all add: initializeParser_def mkCommandObjectHandler_def)
  obtain m out p' where m: "parseMore L E rx ?p = Inr (out, p')" "m \<le> length es"
      "map cmd_key out = map cmd_key (kept_from (keeps L E rx po) 0 (map command_of (take m es)))" "out = [] \<longrightarrow> m = length es"
      "length out \<le> po_refillCount po"
    using parseMore_spec [OF assms(1) initial_parser_at [OF assms(2,4)], of rx] unfolding p by blast
  obtain s where s: "initializeWorkers (numWorkers opts) spawn empty_scheduler = Inr s" "sched_inv s" "pendingJobs s = []"
    using initializeWorkers_inv by blast
  have s0: "allJobList s = Map.empty" "wipJobs s = {}" "maybeErroredJobs s = {}"
    using s(1) by (auto simp: initializeWorkers_def checkInvariants_def empty_scheduler_def result_simps)
  define d where "d = (initial_driver opts ?p)\<lparr>scheduler := s\<rparr>"
  have d: "compdb.driver_ok L E d" "accounted (scheduler d) {} {}"
    using s s0 database_parser_ok [OF assms]
    by (simp_all add: d_def compdb.driver_ok_def initial_driver_def planner_inv_def accounted_def jobs_of_def)
  obtain s' where s': "rfold queueSemaTask out s = Inr s'"
    using compdb.refillJobs_ok [OF d, of rx] m(1) by (auto simp: refillJobs_def d_def initial_driver_def result_simps)
  have queued: "pendingJobs t' = pendingJobs t @ map task_of cs \<and> dom (allJobList t') = dom (allJobList t) \<union> task_of ` set cs"
    if "rfold queueSemaTask cs t = Inr t'" for cs t t'
    using that
  proof (induction cs arbitrary: t)
    case (Cons a cs)
    then obtain t1 where t1: "queueSemaTask a t = Inr t1" "rfold queueSemaTask cs t1 = Inr t'" by (auto simp: result_simps)
    then have "allJobList t (task_of a) = None" by (auto simp: queueSemaTask_def task_of_def Let_def result_simps)
    from queueSemaTask_eq [OF this] t1(1) have "pendingJobs t1 = pendingJobs t @ [task_of a]"
        "dom (allJobList t1) = insert (task_of a) (dom (allJobList t))" by auto
    then show ?case using Cons.IH [OF t1(2)] by simp
  qed simp
  have "pendingJobs s' = map task_of out" "dom (allJobList s') = task_of ` set out" using queued [OF s'] s(3) s0(1) by simp_all
  moreover from this have "start_config (parseMore L E rx) opts spawn ?p =
      (if out = [] then Inl (ExitFailure ''compilation database has no entries that could be processed'')
       else Inr \<lparr>cfg_phase = AtTop, cfg_refill = length out, cfg_driver = (initial_driver opts ?p)\<lparr>scheduler := s', compdbParser := p'\<rparr>,
         cfg_queue = [], completed = {}, lost = {}\<rparr>)"
    using s(1,2) s' m(1) by (simp add: start_config_def beginRun_def spawnWorkers_def refillJobs_def initial_driver_def)
  ultimately show ?thesis using m(2-5) by blast
qed

subsection \<open>The statistics belong to completed jobs\<close>

text \<open>The options stay as they are, and there is one entry for every pair of shards if statistics are asked for.\<close>

definition stats_ok :: "DriverOptions \<Rightarrow> 'p Driver \<Rightarrow> JobId set \<Rightarrow> bool" where
  "stats_ok opts d co \<longleftrightarrow> (\<forall>p \<in> set (allStatistics d). fst p \<in> co) \<and> (\<forall>j \<in> co. subtaskId j = 1) \<and> options d = opts \<and>
     (statsFilePath opts \<noteq> [] \<longrightarrow> length (allStatistics d) = length (allShardPaths d))"

fun outcome_stats_ok :: "DriverOptions \<Rightarrow> 'p outcome \<Rightarrow> bool" where
  "outcome_stats_ok opts (Running c) \<longleftrightarrow> stats_ok opts (cfg_driver c) (completed c)"
| "outcome_stats_ok opts (Finished c) \<longleftrightarrow> stats_ok opts (cfg_driver c) (completed c)"
| "outcome_stats_ok opts (Aborted e) \<longleftrightarrow> True"

definition same_history :: "'p Driver \<Rightarrow> 'p Driver \<Rightarrow> bool" where
  "same_history d d' \<longleftrightarrow> allStatistics d' = allStatistics d \<and> allShardPaths d' = allShardPaths d \<and> options d' = options d"

lemma stats_ok_same: "same_history d d' \<Longrightarrow> stats_ok opts d co \<Longrightarrow> stats_ok opts d' co"
  by (simp add: same_history_def stats_ok_def)

lemma loopTop_history: "loopTop parse send sd now n d = Inr (r, d') \<Longrightarrow> same_history d d'"
  by (auto simp: loopTop_def refillIfNeeded_def refillJobs_def same_history_def result_simps split: if_splits)

lemma finishRound_history: "finishRound now respawn d = Inr d' \<Longrightarrow> same_history d d'"
  by (auto simp: finishRound_def same_history_def result_simps)

lemma markCompleted_Some:
  "markCompleted w j k s = Inr (Some v, s') \<Longrightarrow> cur s w = Some j \<and> v = w"
  by (auto simp: markCompleted_def get_worker_def Let_def result_simps split: if_splits)

lemma response_history:
  assumes "processWorkerResponse L send now h rsp d = Inr d'"
  shows "same_history d d' \<or>
    cur (scheduler d) (unat (rsp_workerId rsp)) = Some (rsp_jobId rsp) \<and> res_kind (rsp_result rsp) = EmitIndex \<and> options d' = options d \<and>
      length (allShardPaths d') = Suc (length (allShardPaths d)) \<and>
      (\<exists>x. allStatistics d' = allStatistics d @ (if statsFilePath (options d) = [] then [] else [(rsp_jobId rsp, x)]))"
proof -
  from assms obtain latest s1 where m: "markCompleted (unat (rsp_workerId rsp)) (rsp_jobId rsp) (res_kind (rsp_result rsp)) (scheduler d) = Inr (latest, s1)"
    and rest: "(case latest of None \<Rightarrow> Inr (d\<lparr>scheduler := s1\<rparr>)
      | Some workerId \<Rightarrow> (case res_kind (rsp_result rsp) of
          SemanticAnalysis \<Rightarrow> handleSemaResult L send now h workerId (rsp_jobId rsp) (res_semanticAnalysis (rsp_result rsp)) (d\<lparr>scheduler := s1\<rparr>)
        | EmitIndex \<Rightarrow> handleEmitResult (rsp_jobId rsp) (res_emitIndex (rsp_result rsp)) (d\<lparr>scheduler := s1\<rparr>))) = Inr d'"
    by (auto simp: processWorkerResponse_def result_simps)
  show ?thesis
  proof (cases latest)
    case None
    with rest show ?thesis by (auto simp: same_history_def)
  next
    case (Some v)
    with m have cu: "cur (scheduler d) (unat (rsp_workerId rsp)) = Some (rsp_jobId rsp)" using markCompleted_Some by blast
    show ?thesis
    proof (cases "res_kind (rsp_result rsp)")
      case SemanticAnalysis
      with rest Some show ?thesis by (auto simp: handleSemaResult_def same_history_def result_simps split: if_splits)
    next
      case EmitIndex
      with rest Some cu show ?thesis by (auto simp: handleEmitResult_def Let_def result_simps split: if_splits)
    qed
  qed
qed

context command_source
begin

lemma step_stats_ok:
  assumes step: "driver_step parseMore L reliable c oc" and inv: "run_inv L c" and st: "stats_ok opts (cfg_driver c) (completed c)"
  shows "outcome_stats_ok opts oc"
  using step
proof (cases rule: driver_step.cases)
  case (top send sd garbled now)
  show ?thesis
  proof (cases "loopTop parseMore send sd now (cfg_refill c) (cfg_driver c)")
    case (Inr r)
    obtain n d' where r: "r = (n, d')" by (cases r)
    have "same_history (cfg_driver c) d'" using loopTop_history Inr r by blast
    from stats_ok_same [OF this st] show ?thesis
      unfolding top(1) Inr r by (cases n) (auto simp: after_top_def endRun_def rbind_def enforcing_def split: sum.splits)
  qed (simp add: top(1))
next
  case (reply rsp)
  then show ?thesis using st by simp
next
  case (receive send sd garbled rsp q now newHandle)
  show ?thesis
  proof (cases "processWorkerResponse L send now newHandle rsp (cfg_driver c)")
    case (Inr d')
    have "rsp \<in> set (cfg_queue c)" using receive by simp
    then have "expected_response (sched_of c) (unat (rsp_workerId rsp)) (rsp_jobId rsp) (res_kind (rsp_result rsp))" "sched_inv (sched_of c)"
      using inv by (auto simp: run_inv_def mail_ok_def driver_ok_def sched_of_def)
    then have emit: "res_kind (rsp_result rsp) = EmitIndex \<Longrightarrow> subtaskId (rsp_jobId rsp) = 1"
      using kinds1 by (fastforce simp: expected_response_def)
    show ?thesis
      using st emit response_history [OF Inr] unfolding receive(1) Inr
      by (auto simp: note_response_def stats_ok_def same_history_def Let_def split: if_splits)
  qed (simp add: receive(1))
next
  case (timeout now respawn)
  then show ?thesis
    using stats_ok_same [OF finishRound_history st] by (cases "finishRound now respawn (cfg_driver c)") auto
next
  case (malformed rsp q now respawn)
  then show ?thesis
    using stats_ok_same [OF finishRound_history st] by (cases "finishRound now respawn (cfg_driver c)") auto
next
  case (malformed_drain send sd rsp q)
  then show ?thesis by simp
next
  case (drained now respawn)
  then show ?thesis
    using stats_ok_same [OF finishRound_history st] by (cases "finishRound now respawn (cfg_driver c)") auto
qed

lemma reaches_stats_ok:
  "driver_reaches parseMore L reliable c0 oc \<Longrightarrow> run_inv L c0 \<Longrightarrow> stats_ok opts (cfg_driver c0) (completed c0) \<Longrightarrow>
   outcome_stats_ok opts oc \<and> outcome_ok L oc"
proof (induction rule: driver_reaches.induct)
  case (reach_step c oc)
  then show ?case using step_stats_ok [of L c oc opts] step_ok [of L c oc] by (simp add: outcome_ok_def)
qed (simp add: outcome_ok_def)

end

subsection \<open>The end of a run\<close>

lemma emitStatsFile_ok:
  assumes "\<forall>p \<in> set (allStatistics d). \<exists>path. getTuPath (scheduler d) (newTask (taskId (fst p))) = Inr path"
  shows "\<exists>stats. emitStatsFile d = Inr stats \<and> (stats = None \<longleftrightarrow> statsFilePath (options d) = []) \<and>
    (\<forall>entries. stats = Some entries \<longrightarrow> length entries = length (allStatistics d))"
proof -
  let ?step = "\<lambda>(jobId, stats) out. rbind (getTuPath (scheduler d) (newTask (taskId jobId))) (\<lambda>path. Inr (out @ [(taskId jobId, path, stats)]))"
  have "\<exists>out'. rfold ?step ps out = Inr out' \<and> length out' = length out + length ps"
    if "\<forall>p \<in> set ps. \<exists>path. getTuPath (scheduler d) (newTask (taskId (fst p))) = Inr path" for ps and out :: "(32 word \<times> string \<times> 64 word) list"
    using that
  proof (induction ps arbitrary: out)
    case (Cons p ps)
    obtain j x where p: "p = (j, x)" by (cases p)
    with Cons.prems obtain path where "getTuPath (scheduler d) (newTask (taskId j)) = Inr path" by auto
    moreover obtain out' where "rfold ?step ps (out @ [(taskId j, path, x)]) = Inr out'" "length out' = Suc (length out) + length ps"
      using Cons.IH [of "out @ [(taskId j, path, x)]"] Cons.prems by auto
    ultimately show ?case by (simp add: p)
  qed simp
  from this [OF assms, of "[]"] obtain out where "rfold ?step (allStatistics d) [] = Inr out" "length out = length (allStatistics d)" by auto
  moreover have "length (c_sort lt out) = length out" for lt by (metis mset_c_sort size_mset)
  ultimately show ?thesis by (simp add: emitStatsFile_def)
qed

lemma emitScipIndex_complete:
  assumes "driver_paths_ok L d" "\<forall>p \<in> set (allShardPaths d). shard_ok L strSplit F d p" "hash_orders_ok H"
  shows "\<exists>out bad. emitScipIndex L strSplit H F d = Inr (out, bad) \<and>
    (\<forall>doc \<in> set (shard_documents F (allShardPaths d)). \<exists>x \<in> set (all_documents out).
       relative_path x = relative_path doc \<and> set (occurrences doc) \<subseteq> set (occurrences x))"
proof -
  define d' where "d' = (if deterministic (options d) then d\<lparr>allShardPaths :=
    c_sort (\<lambda>p1 p2. cmp_lt cmpStr (docsAndExternals p1) (docsAndExternals p2)) (allShardPaths d)\<rparr> else d)"
  have same: "set (allShardPaths d') = set (allShardPaths d)" "options d' = options d" "scheduler d' = scheduler d"
    by (simp_all add: d'_def)
  have "shard_ok L strSplit F d' p = shard_ok L strSplit F d p" for p by (simp add: shard_ok_def same(3))
  then have "driver_paths_ok L d'" "\<forall>p \<in> set (allShardPaths d'). shard_ok L strSplit F d' p"
    using assms(1,2) same by (simp_all add: driver_paths_ok_def)
  from merge_complete [OF this assms(3)] obtain out bad where "mergeShardsAndEmit L strSplit H F d' = Inr (out, bad)"
    "\<forall>doc \<in> set (shard_documents F (allShardPaths d')). \<exists>x \<in> set (all_documents out).
       relative_path x = relative_path doc \<and> set (occurrences doc) \<subseteq> set (occurrences x)" by blast
  moreover have "set (shard_documents F (allShardPaths d')) = set (shard_documents F (allShardPaths d))"
    using same(1) by (simp add: shard_documents_def)
  ultimately show ?thesis by (auto simp: emitScipIndex_def d'_def)
qed

text \<open>The options that the parser of the database gets.\<close>

definition driver_parse_options :: "DriverOptions \<Rightarrow> ParseOptions" where
  "driver_parse_options opts = \<lparr>po_refillCount = refillCount opts, po_adjustCommandLine = \<not> isTesting opts,
     skipNonMainFileEntries = \<not> isTesting opts, checkFilesExist = \<not> isTesting opts\<rparr>"

lemma openCompilationDatabase_eq:
  assumes "readCompdb (compdbPath opts) = Opened (database_events es)" "es \<noteq> []" "numWorkers opts > 0"
    and "\<forall>e \<in> set es. entry_ok e \<and> dirs_ok L \<lparr>checkDirectoryPathsAreAbsolute = \<not> isTesting opts, tryDetectOutOfProjectRoot = \<not> isTesting opts\<rparr> e"
  shows "openCompilationDatabase L garbage readCompdb opts = Inr (length es, limitWorkers (length es) opts,
    initializeParser (database_events es) (driver_parse_options (limitWorkers (length es) opts)))"
  using wellformed_database_accepted [OF assms(4), of garbage] assms(1-3)
  by (simp add: openCompilationDatabase_def mkParseOptions_def driver_parse_options_def refillCount_def limitWorkers_def Let_def)

lemma mkDriverQueues_options:
  assumes "mkDriverQueues can u space driverId present opts = Inr (queues, opts1)"
  shows "numWorkers opts1 > 0 \<and> opts1 = opts\<lparr>numWorkers := numWorkers opts1\<rparr>"
  using assms by (auto simp: mkDriverQueues_def initDriverQueues_def Let_def result_simps)

lemma start_kept:
  assumes "env_ok L E" "\<forall>e \<in> set es. entry_ok e" "length es \<le> 2 ^ 32" "po_refillCount po > 0"
    and "\<exists>e \<in> set es. keeps L E rx po (command_of e)"
  shows "\<exists>c0. start_config (parseMore L E rx) opts spawn (initializeParser (database_events es) po) = Inr c0 \<and>
    options (cfg_driver c0) = opts \<and> allStatistics (cfg_driver c0) = [] \<and> allShardPaths (cfg_driver c0) = [] \<and> completed c0 = {}"
proof -
  let ?P = "keeps L E rx po"
  obtain m out s' p' where m: "out = [] \<longrightarrow> m = length es"
      "map cmd_key out = map cmd_key (kept_from ?P 0 (map command_of (take m es)))"
    and run: "start_config (parseMore L E rx) opts spawn (initializeParser (database_events es) po) =
      (if out = [] then Inl (ExitFailure ''compilation database has no entries that could be processed'')
       else Inr \<lparr>cfg_phase = AtTop, cfg_refill = length out,
         cfg_driver = (initial_driver opts (initializeParser (database_events es) po))\<lparr>scheduler := s', compdbParser := p'\<rparr>,
         cfg_queue = [], completed = {}, lost = {}\<rparr>)"
    using start_batch [OF assms(1-4), of rx opts spawn] by blast
  have none: "kept_from ?P i cs = [] \<longleftrightarrow> (\<forall>c \<in> set cs. \<not> ?P c)" for i cs by (induction cs arbitrary: i) auto
  have "out \<noteq> []"
  proof
    assume "out = []"
    then have "kept_from ?P 0 (map command_of es) = []" using m by simp
    then show False using assms(5) by (auto simp: none)
  qed
  then show ?thesis by (simp add: run initial_driver_def)
qed

lemma completed_units_known:
  assumes "compdb.settled L E L' c" "stats_ok opts (cfg_driver c) (completed c)"
  shows "\<forall>p \<in> set (allStatistics (cfg_driver c)). \<exists>path. getTuPath (scheduler (cfg_driver c)) (newTask (taskId (fst p))) = Inr path"
proof
  fix p assume "p \<in> set (allStatistics (cfg_driver c))"
  then have j: "fst p \<in> completed c" "subtaskId (fst p) = 1" using assms(2) by (auto simp: stats_ok_def)
  have inv: "sched_inv (sched_of c)" "accounted (sched_of c) (lost c) (completed c)"
    using assms(1) by (auto simp: compdb.settled_def compdb.run_inv_def compdb.driver_ok_def sched_of_def)
  have "fst p \<in> dom (allJobList (sched_of c))" using inv(2) j(1) by (auto simp: accounted_def)
  moreover have "fst p = \<lparr>taskId = taskId (fst p), subtaskId = 1\<rparr>" using j(2) by simp
  ultimately obtain t where t: "allJobList (sched_of c) (newTask (taskId (fst p))) = Some t"
    using kinds2 [OF inv(1), of "taskId (fst p)"] by (metis domIff not_None_eq)
  with kinds1 [OF inv(1) t] show "\<exists>path. getTuPath (scheduler (cfg_driver c)) (newTask (taskId (fst p))) = Inr path"
    by (auto simp: getTuPath_def sched_of_def newTask_def)
qed

lemma startDriver_ready:
  assumes env: "env_ok L (dw_tools W)"
    and opts: "mkDriverOptions L (dw_env W) driverId cli = Inr opts"
    and queues: "mkDriverQueues (dw_canCreateQueue W) (dw_undefinedValue W) (dw_space W) driverId (dw_presentQueues W) opts = Inr (queues, opts1)"
    and db: "dw_readCompdb W (compdbPath opts) = Opened (database_events es)" "length es \<le> 2 ^ 32"
      "\<forall>e \<in> set es. entry_ok e \<and> dirs_ok L \<lparr>checkDirectoryPathsAreAbsolute = \<not> isTesting opts, tryDetectOutOfProjectRoot = \<not> isTesting opts\<rparr> e"
      "\<exists>e \<in> set es. keeps L (dw_tools W) (dw_matches W) (driver_parse_options (limitWorkers (length es) opts1)) (command_of e)"
  shows "\<exists>c0 opts2. startDriver L W driverId cli = Inr c0 \<and> compdb.fresh_round L (dw_tools W) L c0 \<and> compdb.run_inv L (dw_tools W) L c0 \<and>
    opts2 = opts\<lparr>numWorkers := numWorkers opts2\<rparr> \<and> stats_ok opts2 (cfg_driver c0) (completed c0)"
proof -
  define opts2 where "opts2 = limitWorkers (length es) opts1"
  define po where "po = driver_parse_options opts2"
  have o1: "numWorkers opts1 > 0" "opts1 = opts\<lparr>numWorkers := numWorkers opts1\<rparr>" using mkDriverQueues_options [OF queues] by simp_all
  have es: "es \<noteq> []" using db(4) by auto
  have n: "numWorkers opts2 > 0" using o1(1) es by (simp add: opts2_def limitWorkers_def)
  have eq: "opts2 = opts\<lparr>numWorkers := numWorkers opts2\<rparr>" unfolding opts2_def limitWorkers_def by (subst (1) o1(2)) simp
  have same: "isTesting opts1 = isTesting opts" "compdbPath opts1 = compdbPath opts" by (subst o1(2), simp)+
  have open_db: "openCompilationDatabase L (dw_garbage W) (dw_readCompdb W) opts1 = Inr (length es, opts2, initializeParser (database_events es) po)"
    unfolding opts2_def po_def by (rule openCompilationDatabase_eq) (use db(1,3) es o1(1) in \<open>simp_all add: same\<close>)
  have entries: "\<forall>e \<in> set es. entry_ok e" "po_refillCount po > 0"
    using db(3) n by (simp_all add: po_def driver_parse_options_def refillCount_def)
  obtain c0 where c0: "start_config (parseMore L (dw_tools W) (dw_matches W)) opts2 (dw_spawn W) (initializeParser (database_events es) po) = Inr c0"
      "options (cfg_driver c0) = opts2" "allStatistics (cfg_driver c0) = []" "allShardPaths (cfg_driver c0) = []" "completed c0 = {}"
    using start_kept [OF env entries(1) db(2) entries(2), of "dw_matches W" opts2 "dw_spawn W"] db(4) unfolding po_def opts2_def by blast
  have "startDriver L W driverId cli = Inr c0" using opts queues open_db c0(1) by (simp add: startDriver_def)
  moreover have p: "parser_ok L (dw_tools W) (initializeParser (database_events es) po)"
    by (rule database_parser_ok [OF env entries(1) db(2) entries(2)])
  moreover have "compdb.run_inv L (dw_tools W) L c0" by (rule compdb.start_ok [OF c0(1) p n])
  moreover have "compdb.fresh_round L (dw_tools W) L c0" by (rule compdb.start_fresh [OF c0(1) p n])
  moreover have "stats_ok opts2 (cfg_driver c0) (completed c0)" using c0 by (simp add: stats_ok_def)
  ultimately show ?thesis using eq by blast
qed

text \<open>What is left of a run that has ended.\<close>

definition report_ok :: "driver_world \<Rightarrow> DriverOptions \<Rightarrow> ResumableParser config \<Rightarrow> driver_report \<Rightarrow> bool" where
  "report_ok W opts c report \<longleftrightarrow>
     rep_indexedTus report = word_of_nat (length (allShardPaths (cfg_driver c))) \<and>
     card (taskId ` dom (allJobList (sched_of c))) = length (allShardPaths (cfg_driver c)) + rep_erroredTus report + card (lost c) \<and>
     (\<forall>doc \<in> set (shard_documents (dw_shards W) (allShardPaths (cfg_driver c))). \<exists>y \<in> set (all_documents (rep_index report)).
        relative_path y = relative_path doc \<and> set (occurrences doc) \<subseteq> set (occurrences y)) \<and>
     (case rep_stats report of None \<Rightarrow> statsFilePath opts = [] | Some entries \<Rightarrow> length entries = length (allShardPaths (cfg_driver c))) \<and>
     rep_removedDir report = (if deleteTemporaryOutputDir opts then Some (temporaryOutputDir opts) else None)"

lemma finishDriver_reports:
  assumes settled: "compdb.settled L E L' c" and st: "stats_ok opts2 (cfg_driver c) (completed c)"
    and acc: "card (taskId ` dom (allJobList (sched_of c))) = length (allShardPaths (cfg_driver c)) + numErroredJobs (sched_of c) + card (lost c)"
    and ok: "driver_paths_ok L (cfg_driver c)" "\<forall>p \<in> set (allShardPaths (cfg_driver c)). shard_ok L (dw_strSplit W) (dw_shards W) (cfg_driver c) p"
      "hash_orders_ok (dw_orders W)"
    and files: "dw_canWrite W (indexOutputPath opts2)" "dw_canWrite W (statsFilePath opts2)"
  shows "\<exists>report. finishDriver L W (cfg_driver c) = Inr report \<and> report_ok W opts2 c report"
proof -
  let ?d = "cfg_driver c"
  have o: "options ?d = opts2" "statsFilePath opts2 \<noteq> [] \<Longrightarrow> length (allStatistics ?d) = length (allShardPaths ?d)"
    using st by (simp_all add: stats_ok_def)
  have "indexedSoFar ?d = word_of_nat (length (allShardPaths ?d))"
    using settled by (auto simp: compdb.settled_def compdb.run_inv_def counted_def)
  moreover obtain out bad where "emitScipIndex L (dw_strSplit W) (dw_orders W) (dw_shards W) ?d = Inr (out, bad)"
      "\<forall>doc \<in> set (shard_documents (dw_shards W) (allShardPaths ?d)). \<exists>y \<in> set (all_documents out).
         relative_path y = relative_path doc \<and> set (occurrences doc) \<subseteq> set (occurrences y)"
    using emitScipIndex_complete [OF ok] by blast
  moreover obtain stats where "emitStatsFile ?d = Inr stats" "stats = None \<longleftrightarrow> statsFilePath opts2 = []"
      "\<forall>entries. stats = Some entries \<longrightarrow> length entries = length (allStatistics ?d)"
    using emitStatsFile_ok [OF completed_units_known [OF settled st]] unfolding o(1) by blast
  ultimately show ?thesis
    using files acc o by (cases stats) (simp_all add: finishDriver_def destroyDriver_def writeDriverIndex_def writeStats_def report_ok_def sched_of_def)
qed

subsection \<open>Properties\<close>


text \<open>A machine with room for the queues, a database of one file, and no shard that can be read.\<close>

definition sample_world :: driver_world where
  "sample_world = \<lparr>dw_env = sample_driver_env, dw_pid = 9, dw_canCreateQueue = (\<lambda>q. True), dw_presentQueues = {}, dw_space = Inr 4096000,
     dw_undefinedValue = 0, dw_readCompdb = (\<lambda>p. Opened (database_events [sample_entry ''a.c''])), dw_garbage = 0, dw_tools = sample_tool_env,
     dw_matches = (\<lambda>r s. True), dw_spawn = (\<lambda>w. 0), dw_canWrite = (\<lambda>p. True),
     dw_shards = \<lparr>read_index = (\<lambda>p. None), read_forward_decls = (\<lambda>p. None)\<rparr>, dw_orders = identity_orders,
     dw_strSplit = (\<lambda>s c. [])\<rparr>"


end
