(* ===== verification/Package_Map.thy ===== *)
theory Package_Map
  imports Paths "HOL-Library.Char_ord"
begin

text \<open>
  Packages: indexer/PackageMap.h, indexer/PackageMap.cc and the description of packages in
  indexer/FileMetadata.h. The map is read from a JSON file that gives a package to some
  directories; the package of a file is that of the nearest directory above it. Lookups store
  what they find out, so that they change the map; the locale \<open>cached_lookup\<close> says that this
  cannot be observed.

  What the code asks the file system and the JSON parser is the record \<open>package_env\<close>. Interned
  strings are the strings themselves.
\<close>

subsection \<open>Definitions\<close>

record PackageId =
  pkg_name :: string
  pkg_version :: string

record PackageMetadata =
  pm_id :: PackageId
  pm_rootPath :: AbsolutePath
  isMainPackage :: bool

record PackageMapEntry =
  pme_rootPath :: string
  pme_package :: string

text \<open>\<^verbatim>\<open>real_path\<close> resolves a path, \<^verbatim>\<open>read_file\<close> is the content of an existing file.\<close>

record 'j package_env =
  real_path :: "string \<Rightarrow> string option"
  is_directory :: "string \<Rightarrow> bool"
  read_file :: "string \<Rightarrow> string option"
  parse_json :: "string \<Rightarrow> 'j option"
  str_split :: "string \<Rightarrow> char \<Rightarrow> string list"

fun checkValid :: "string \<Rightarrow> bool" where
  "checkValid [] = True"
| "checkValid (c # s) =
     (if (CHR ''a'' \<le> c \<and> c \<le> CHR ''z'') \<or> (CHR ''A'' \<le> c \<and> c \<le> CHR ''Z'') \<or>
         (CHR ''0'' \<le> c \<and> c \<le> CHR ''9'') \<or> c = CHR ''.'' \<or> c = CHR ''_'' \<or> c = CHR ''-''
      then checkValid s else False)"

definition fromJSON_PackageMapEntry :: "'j json_api \<Rightarrow> 'j \<Rightarrow> PackageMapEntry option" where
  "fromJSON_PackageMapEntry J v =
     (case mapper_map J v ''path'' (getAsString J) of None \<Rightarrow> None | Some p \<Rightarrow>
      (case mapper_map J v ''package'' (getAsString J) of None \<Rightarrow> None
       | Some k \<Rightarrow> Some \<lparr>pme_rootPath = p, pme_package = k\<rparr>))"

record PackageMap =
  pkg_map :: "(AbsolutePath \<times> PackageMetadata) list"
  warnedBadPaths :: "string list"
  pkg_projectRootPath :: RootPath
  pkg_isTesting :: bool

text \<open>
  One entry of the file. It is skipped when its path cannot be resolved or is no directory,
  or when the package is not of the form \<^verbatim>\<open>name@version\<close>; a second entry for a path does not
  replace the first. The separator at the end of a path is cut off, also when the path is the
  root directory, for which nothing is left.
\<close>

definition addPackageEntry ::
  "llvm_path \<Rightarrow> 'j package_env \<Rightarrow> RootPath \<Rightarrow> PackageMapEntry \<Rightarrow> (AbsolutePath \<times> PackageMetadata) list \<times> bool \<Rightarrow>
   ((AbsolutePath \<times> PackageMetadata) list \<times> bool) result" where
  "addPackageEntry L E root entry st =
     (let (m, foundMainPackageMetadata) = st
      in case real_path E (pme_rootPath entry) of
           None \<Rightarrow> Inr st
         | Some buf \<Rightarrow>
             if \<not> is_directory E buf then Inr st
             else let pathKey = (if ends_with buf [preferred_separator] then butlast buf else buf);
                      v = str_split E (pme_package entry) (CHR ''@'')
                  in if length v \<noteq> 2 \<or> v ! 0 = [] \<or> v ! 1 = [] then Inr st
                     else if \<not> checkValid (v ! 0) \<or> \<not> checkValid (v ! 1) then Inr st
                     else rbind (opt_value (tryFrom L pathKey)) (\<lambda>rootPath.
                            let isMain = (rootPath = root_value root)
                            in if map_of m rootPath = None
                               then Inr (m @ [(rootPath, \<lparr>pm_id = \<lparr>pkg_name = v ! 0, pkg_version = v ! 1\<rparr>,
                                           pm_rootPath = rootPath, isMainPackage = isMain\<rparr>)],
                                         foundMainPackageMetadata \<or> isMain)
                               else Inr st))"

definition populatePackageMap ::
  "llvm_path \<Rightarrow> 'j json_api \<Rightarrow> 'j package_env \<Rightarrow> RootPath \<Rightarrow> string \<Rightarrow>
   (AbsolutePath \<times> PackageMetadata) list result" where
  "populatePackageMap L J E root path =
     (case read_file E path of
        None \<Rightarrow> Inl (ExitFailure ''package map not found'')
      | Some contents \<Rightarrow>
         (case Option.bind (parse_json E contents) (fromJSON_list J (fromJSON_PackageMapEntry J)) of
            None \<Rightarrow> Inl (ExitFailure ''failed to parse package map'')
          | Some entries \<Rightarrow>
              if length entries = 0 then Inl (ExitFailure ''package map had size 0'')
              else rbind (rfold (addPackageEntry L E root) entries ([], False)) (\<lambda>(m, foundMainPackageMetadata).
                     if foundMainPackageMetadata then Inr m
                     else Inl (ExitFailure ''missing package information for the current project in package map''))))"

definition mkPackageMap ::
  "llvm_path \<Rightarrow> 'j json_api \<Rightarrow> 'j package_env \<Rightarrow> RootPath \<Rightarrow> string \<Rightarrow> bool \<Rightarrow> PackageMap result" where
  "mkPackageMap L J E root packageMapPath testing =
     rbind (if packageMapPath = [] then Inr [] else populatePackageMap L J E root packageMapPath) (\<lambda>m.
       Inr \<lparr>pkg_map = m, warnedBadPaths = [], pkg_projectRootPath = root, pkg_isTesting = testing\<rparr>)"

definition checkPathIsNormalized :: "llvm_path \<Rightarrow> string \<Rightarrow> PackageMap \<Rightarrow> bool \<times> PackageMap" where
  "checkPathIsNormalized L filepath pm =
     (if isNormalized L filepath then (True, pm)
      else if length (warnedBadPaths pm) < 5 \<and> filepath \<notin> set (warnedBadPaths pm)
      then (False, pm\<lparr>warnedBadPaths := warnedBadPaths pm @ [filepath]\<rparr>)
      else (False, pm))"

definition testPackageId :: PackageId where
  "testPackageId = \<lparr>pkg_name = ''test-pkg'', pkg_version = ''test-version''\<rparr>"

text \<open>
  The walk over the prefixes: those that are missing in the map are collected, and get the
  package that is found above them.
\<close>

fun lookupPrefixes :: "'v list \<Rightarrow> 'v list \<Rightarrow> ('v \<times> 'm) list \<Rightarrow> 'm option \<times> ('v \<times> 'm) list" where
  "lookupPrefixes prefixLookup [] m = (None, m)"
| "lookupPrefixes prefixLookup (p # ps) m =
     (case map_of m p of
        None \<Rightarrow> lookupPrefixes (prefixLookup @ [p]) ps m
      | Some packageInfo \<Rightarrow> (Some packageInfo, fold (\<lambda>q m. hmap_emplace q packageInfo m) prefixLookup m))"

definition lookupPackage :: "llvm_path \<Rightarrow> string \<Rightarrow> PackageMap \<Rightarrow> (PackageMetadata option \<times> PackageMap) result" where
  "lookupPackage L filepath pm =
     (if pkg_map pm = []
      then (if pkg_isTesting pm
            then rbind (opt_value (tryFrom L ''/'')) (\<lambda>root.
                   Inr (Some \<lparr>pm_id = testPackageId, pm_rootPath = root, isMainPackage = True\<rparr>, pm))
            else Inr (None, pm))
      else case map_of (pkg_map pm) filepath of
             Some info \<Rightarrow> Inr (Some info, pm)
           | None \<Rightarrow>
               (case checkPathIsNormalized L filepath pm of (normalized, pm1) \<Rightarrow>
                  rbind (opt_value (tryFrom L (if normalized then filepath else normalize L filepath))) (\<lambda>path.
                    case lookupPrefixes [] (path_prefixes L path) (pkg_map pm1) of
                      (info, m) \<Rightarrow> Inr (info, pm1\<lparr>pkg_map := m\<rparr>))))"

subsection \<open>Lookups with a cache\<close>

text \<open>
  The contract of a lookup that stores its findings: as long as the store is valid, the
  result is a function of the key alone, and the store stays valid. Then the results of any
  sequence of lookups do not depend on what was looked up before.
\<close>

fun lookup_all :: "('k \<Rightarrow> 's \<Rightarrow> ('v \<times> 's) result) \<Rightarrow> 'k list \<Rightarrow> 's \<Rightarrow> ('v list \<times> 's) result" where
  "lookup_all f [] s = Inr ([], s)"
| "lookup_all f (k # ks) s = rbind (f k s) (\<lambda>(v, s1). rbind (lookup_all f ks s1) (\<lambda>(vs, s2). Inr (v # vs, s2)))"

locale cached_lookup =
  fixes look :: "'k \<Rightarrow> 's \<Rightarrow> ('v \<times> 's) result"
    and spec :: "'k \<Rightarrow> 'v"
    and valid :: "'s \<Rightarrow> bool"
    and admissible :: "'k \<Rightarrow> bool"
  assumes look_valid: "valid s \<Longrightarrow> admissible k \<Longrightarrow> \<exists>s'. look k s = Inr (spec k, s') \<and> valid s'"
begin

lemma lookups_valid:
  "valid s \<Longrightarrow> (\<And>k. k \<in> set ks \<Longrightarrow> admissible k) \<Longrightarrow> \<exists>s'. lookup_all look ks s = Inr (map spec ks, s') \<and> valid s'"
proof (induction ks arbitrary: s)
  case (Cons k ks)
  then obtain s1 where s1: "look k s = Inr (spec k, s1)" "valid s1" using look_valid by fastforce
  with Cons.IH [OF s1(2)] Cons.prems(2) show ?case by auto
qed simp

lemma lookup_again:
  assumes "valid s" "admissible k" "admissible k'" "look k' s = Inr (v, s')"
  shows "\<exists>s''. look k s' = Inr (spec k, s'')"
  using look_valid [OF assms(1,3)] assms(2,4) look_valid [of s' k] by auto

end

subsection \<open>The nearest package\<close>

fun nearest :: "('k \<rightharpoonup> 'v) \<Rightarrow> 'k list \<Rightarrow> 'v option" where
  "nearest m [] = None"
| "nearest m (p # ps) = (case m p of Some v \<Rightarrow> Some v | None \<Rightarrow> nearest m ps)"

definition package_of :: "llvm_path \<Rightarrow> (AbsolutePath \<times> 'v) list \<Rightarrow> string \<Rightarrow> 'v option" where
  "package_of L m p = nearest (map_of m) (path_prefixes L p)"

definition canonical :: "llvm_path \<Rightarrow> string \<Rightarrow> string" where
  "canonical L p = (if isNormalized L p then p else normalize L p)"

text \<open>
  What the code relies on in \<^verbatim>\<open>llvm::sys::path::remove_dots\<close>: the result for an absolute path
  is absolute, doing it again changes nothing, and parents of such paths need no change.
\<close>

definition canonical_paths :: "llvm_path \<Rightarrow> bool" where
  "canonical_paths L \<longleftrightarrow>
     (\<forall>p. is_absolute L p \<longrightarrow> is_absolute L (canonical L p)) \<and>
     (\<forall>p. canonical L (canonical L p) = canonical L p) \<and>
     (\<forall>p q. canonical L p = p \<longrightarrow> path_prefix L p = Some q \<longrightarrow> canonical L q = q)"

lemma package_of_rec:
  assumes "posix_paths L"
  shows "package_of L m p = (case map_of m p of Some v \<Rightarrow> Some v | None \<Rightarrow>
    (case path_prefix L p of None \<Rightarrow> None | Some q \<Rightarrow> package_of L m q))"
  by (simp add: package_of_def path_prefixes_rec [OF assms, of p] split: option.split)

text \<open>A cache agrees with the map it was made from on that map and knows only true packages.\<close>

definition caches :: "llvm_path \<Rightarrow> (AbsolutePath \<times> 'v) list \<Rightarrow> (AbsolutePath \<times> 'v) list \<Rightarrow> bool" where
  "caches L m0 m \<longleftrightarrow> map_of m0 \<subseteq>\<^sub>m map_of m \<and>
     (\<forall>p v. map_of m p = Some v \<longrightarrow> package_of L m0 p = Some v \<and> canonical L p = p)"

lemma caches_package_of:
  assumes "posix_paths L" "caches L m0 m"
  shows "package_of L m p = package_of L m0 p"
proof (induction "length p" arbitrary: p rule: less_induct)
  case less
  show ?case
  proof (cases "map_of m p")
    case None
    then have "map_of m0 p = None" using assms(2) by (metis caches_def domIff map_le_def)
    with None less.hyps path_prefix_shorter [OF assms(1)] show ?thesis
      by (simp add: package_of_rec [OF assms(1), of m p] package_of_rec [OF assms(1), of m0 p] split: option.split)
  next
    case (Some v)
    with assms(2) have "package_of L m0 p = Some v" by (simp add: caches_def)
    with Some show ?thesis by (simp add: package_of_rec [OF assms(1), of m p])
  qed
qed

lemma caches_emplace:
  assumes "caches L m0 m" "package_of L m0 q = Some v" "canonical L q = q"
  shows "caches L m0 (hmap_emplace q v m)"
  using assms by (auto simp: caches_def map_le_def) (metis domIff option.distinct(1))

lemma caches_fold_emplace:
  "caches L m0 m \<Longrightarrow> \<forall>q \<in> set qs. package_of L m0 q = Some v \<and> canonical L q = q \<Longrightarrow>
   caches L m0 (fold (\<lambda>q m. hmap_emplace q v m) qs m)"
  by (induction qs arbitrary: m) (auto intro: caches_emplace)

lemma lookupPrefixes_caches:
  assumes L: "posix_paths L" "canonical_paths L" and m: "caches L m0 m" and p: "canonical L p = p"
    and pre: "\<forall>q \<in> set pre. canonical L q = q \<and> package_of L m0 q = package_of L m0 p"
  shows "case lookupPrefixes pre (path_prefixes L p) m of (info, m') \<Rightarrow> info = package_of L m0 p \<and> caches L m0 m'"
  using p pre
proof (induction "length p" arbitrary: p pre rule: less_induct)
  case less
  show ?case
  proof (cases "map_of m p")
    case (Some v)
    then have "package_of L m0 p = Some v" using m by (simp add: caches_def)
    with Some less.prems(2) caches_fold_emplace [OF m, of pre v] show ?thesis
      by (simp add: path_prefixes_rec [OF L(1), of p])
  next
    case None
    then have n0: "map_of m0 p = None" using m by (metis caches_def domIff map_le_def)
    show ?thesis
    proof (cases "path_prefix L p")
      case None
      with \<open>map_of m p = None\<close> n0 m show ?thesis
        by (simp add: path_prefixes_rec [OF L(1), of p] package_of_rec [OF L(1), of m0 p])
    next
      case (Some q)
      then have q: "canonical L q = q" "package_of L m0 p = package_of L m0 q"
        using L(2) less.prems(1) n0 by (auto simp: canonical_paths_def package_of_rec [OF L(1), of m0 p])
      with less.hyps [OF path_prefix_shorter [OF L(1) Some] q(1), of "pre @ [p]"] less.prems Some \<open>map_of m p = None\<close>
      show ?thesis by (simp add: path_prefixes_rec [OF L(1), of p])
    qed
  qed
qed

subsection \<open>Lookups in the package map\<close>

definition package_spec :: "llvm_path \<Rightarrow> PackageMap \<Rightarrow> string \<Rightarrow> PackageMetadata option" where
  "package_spec L pm0 p =
     (if pkg_map pm0 = []
      then (if pkg_isTesting pm0 then Some \<lparr>pm_id = testPackageId, pm_rootPath = ''/'', isMainPackage = True\<rparr> else None)
      else package_of L (pkg_map pm0) (canonical L p))"

definition cache_valid :: "llvm_path \<Rightarrow> PackageMap \<Rightarrow> PackageMap \<Rightarrow> bool" where
  "cache_valid L pm0 pm \<longleftrightarrow> posix_paths L \<and> canonical_paths L \<and> pkg_isTesting pm = pkg_isTesting pm0 \<and>
     (pkg_map pm = [] \<longleftrightarrow> pkg_map pm0 = []) \<and> caches L (pkg_map pm0) (pkg_map pm)"

lemma lookupPrefixes_Nil: "m \<noteq> [] \<Longrightarrow> snd (lookupPrefixes pre ps m) \<noteq> []"
proof (induction pre ps m rule: lookupPrefixes.induct)
  case (2 pre p ps m)
  have "m' \<noteq> [] \<Longrightarrow> fold (\<lambda>q m. hmap_emplace q v m) qs m' \<noteq> []" for qs v and m' :: "('a \<times> 'b) list"
    by (induction qs arbitrary: m') (auto simp: hmap_emplace_def)
  with 2 show ?case by (auto split: option.splits)
qed simp

lemma lookupPackage_spec:
  assumes v: "cache_valid L pm0 pm" and p: "is_absolute L p"
  shows "\<exists>pm'. lookupPackage L p pm = Inr (package_spec L pm0 p, pm') \<and> cache_valid L pm0 pm'"
proof (cases "pkg_map pm = []")
  case True
  with v have "pkg_map pm0 = []" "pkg_isTesting pm = pkg_isTesting pm0" by (simp_all add: cache_valid_def)
  moreover have "tryFrom L ''/'' = Some ''/''" using v by (simp add: cache_valid_def posix_paths_def tryFrom_def starts_with_def)
  ultimately show ?thesis using v True by (auto simp: lookupPackage_def package_spec_def)
next
  case False
  let ?m0 = "pkg_map pm0"
  have L: "posix_paths L" "canonical_paths L" and c: "caches L ?m0 (pkg_map pm)" and ne: "?m0 \<noteq> []"
    using v False by (simp_all add: cache_valid_def)
  show ?thesis
  proof (cases "map_of (pkg_map pm) p")
    case (Some info)
    then have "package_of L ?m0 p = Some info" "canonical L p = p" using c by (auto simp: caches_def)
    with Some False ne v show ?thesis by (auto simp: lookupPackage_def package_spec_def)
  next
    case None
    obtain norm pm1 where pm1: "checkPathIsNormalized L p pm = (norm, pm1)" by (meson surj_pair)
    then have same: "pkg_map pm1 = pkg_map pm" "pkg_isTesting pm1 = pkg_isTesting pm"
        "(if norm then p else normalize L p) = canonical L p"
      by (auto simp: checkPathIsNormalized_def canonical_def split: if_splits)
    have abs: "tryFrom L (canonical L p) = Some (canonical L p)" "canonical L (canonical L p) = canonical L p"
      using L(2) p by (simp_all add: canonical_paths_def tryFrom_def)
    obtain info m where m: "lookupPrefixes [] (path_prefixes L (canonical L p)) (pkg_map pm) = (info, m)" by (meson surj_pair)
    then have "info = package_of L ?m0 (canonical L p)" "caches L ?m0 m" "m \<noteq> []"
      using lookupPrefixes_caches [OF L c abs(2), of "[]"] lookupPrefixes_Nil [of "pkg_map pm" "[]"] False
      by (auto, metis snd_conv)
    with m None False ne same abs v pm1 show ?thesis
      by (simp add: lookupPackage_def package_spec_def cache_valid_def)
  qed
qed

interpretation package_cache: cached_lookup "lookupPackage L" "package_spec L pm0" "cache_valid L pm0" "is_absolute L"
  for L pm0
  by unfold_locales (rule lookupPackage_spec)

subsection \<open>Properties\<close>

text \<open>The map before the first lookup: its paths are those of existing directories.\<close>

definition fresh_map :: "llvm_path \<Rightarrow> PackageMap \<Rightarrow> bool" where
  "fresh_map L pm \<longleftrightarrow> (\<forall>p \<in> fst ` set (pkg_map pm). canonical L p = p)"

lemma fresh_cache_valid:
  assumes "posix_paths L" "canonical_paths L" "fresh_map L pm"
  shows "cache_valid L pm pm"
proof -
  have "package_of L (pkg_map pm) p = Some v \<and> canonical L p = p" if "map_of (pkg_map pm) p = Some v" for p v
  proof -
    have "p \<in> fst ` set (pkg_map pm)" using map_of_SomeD [OF that] by force
    then have "canonical L p = p" using assms(3) unfolding fresh_map_def by blast
    with that show ?thesis by (simp add: package_of_rec [OF assms(1), of _ p])
  qed
  with assms show ?thesis by (simp add: cache_valid_def caches_def)
qed

text \<open>
  C27: The package of a file. However many lookups came before, and although each of them stores
  what it found, the package of a path is that of the nearest directory above the path (or the
  path itself) that the package map has; without a package map there is none, except in tests.
  No lookup fails.
\<close>

theorem nearest_package_found:
  assumes "posix_paths L" "canonical_paths L" "fresh_map L pm" "\<forall>p \<in> set ps. is_absolute L p"
  shows "\<exists>pm'. lookup_all (lookupPackage L) ps pm = Inr (map (package_spec L pm) ps, pm')"
  using package_cache.lookups_valid [OF fresh_cache_valid [OF assms(1-3)], of ps] assms(4) by blast

lemma canonical_slash_paths: "canonical_paths slash_paths"
  by (simp add: canonical_paths_def canonical_def normalize_def) (simp add: slash_paths_def)

definition sample_package :: "string \<Rightarrow> string \<Rightarrow> bool \<Rightarrow> PackageMetadata" where
  "sample_package n p main = \<lparr>pm_id = \<lparr>pkg_name = n, pkg_version = ''v1''\<rparr>, pm_rootPath = p, isMainPackage = main\<rparr>"

definition sample_packages :: PackageMap where
  "sample_packages = \<lparr>pkg_map = [(''/p'', sample_package ''main'' ''/p'' True), (''/p/lib'', sample_package ''lib'' ''/p/lib'' False)],
     warnedBadPaths = [], pkg_projectRootPath = \<lparr>root_value = ''/p'', root_kind = Project\<rparr>, pkg_isTesting = False\<rparr>"

theorem nearest_package_found_witness:
  "\<exists>pm'. lookup_all (lookupPackage slash_paths) [''/p/lib/x/a.h'', ''/p/b.h'', ''/p/lib/x/c.h'', ''/usr/d.h''] sample_packages =
     Inr ([Some (sample_package ''lib'' ''/p/lib'' False), Some (sample_package ''main'' ''/p'' True),
           Some (sample_package ''lib'' ''/p/lib'' False), None], pm')"
proof -
  let ?ps = "[''/p/lib/x/a.h'', ''/p/b.h'', ''/p/lib/x/c.h'', ''/usr/d.h'']"
  have fresh: "fresh_map slash_paths sample_packages"
    by (simp add: fresh_map_def canonical_def normalize_def sample_packages_def) (simp add: slash_paths_def)
  have abs: "\<forall>p \<in> set ?ps. is_absolute slash_paths p" by (simp add: slash_paths_def starts_with_def)
  have "canonical slash_paths p = p" for p by (simp add: canonical_def normalize_def) (simp add: slash_paths_def)
  then have "map (package_spec slash_paths sample_packages) ?ps =
     [Some (sample_package ''lib'' ''/p/lib'' False), Some (sample_package ''main'' ''/p'' True),
      Some (sample_package ''lib'' ''/p/lib'' False), None]"
    by (simp add: package_spec_def sample_packages_def package_of_def path_prefixes_def path_prefix_def tryFrom_def
        slash_paths_def starts_with_def)
  with nearest_package_found [OF posix_slash_paths canonical_slash_paths fresh abs] show ?thesis by simp
qed

lemma addPackageEntry_keys:
  "addPackageEntry L E root e (m, found) = Inr (m', found') \<Longrightarrow>
   \<exists>es. m' = m @ es \<and> (\<forall>(p, info) \<in> set es. map_of m p = None \<and> is_absolute L p \<and> pm_rootPath info = p \<and>
     (isMainPackage info \<longleftrightarrow> p = root_value root) \<and> checkValid (pkg_name (pm_id info)) \<and> checkValid (pkg_version (pm_id info))) \<and>
     length es \<le> 1 \<and> (found' \<longleftrightarrow> found \<or> root_value root \<in> fst ` set es)"
  by (auto simp: addPackageEntry_def Let_def result_simps tryFrom_def split: option.splits if_splits)

definition package_entries_ok :: "llvm_path \<Rightarrow> RootPath \<Rightarrow> (AbsolutePath \<times> PackageMetadata) list \<Rightarrow> bool" where
  "package_entries_ok L root m \<longleftrightarrow> distinct (map fst m) \<and>
     (\<forall>(p, info) \<in> set m. is_absolute L p \<and> pm_rootPath info = p \<and> (isMainPackage info \<longleftrightarrow> p = root_value root) \<and>
        checkValid (pkg_name (pm_id info)) \<and> checkValid (pkg_version (pm_id info)))"

lemma addPackageEntries_ok:
  assumes "rfold (addPackageEntry L E root) es (m, found) = Inr (m', found')"
    and "package_entries_ok L root m" "found \<longleftrightarrow> root_value root \<in> fst ` set m"
  shows "package_entries_ok L root m' \<and> (found' \<longleftrightarrow> root_value root \<in> fst ` set m')"
  using assms
proof (induction es arbitrary: m found)
  case (Cons e es)
  then obtain m1 found1 where s: "addPackageEntry L E root e (m, found) = Inr (m1, found1)"
      "rfold (addPackageEntry L E root) es (m1, found1) = Inr (m', found')"
    by (auto simp: result_simps)
  obtain ns where ns: "m1 = m @ ns" "length ns \<le> 1" "found1 \<longleftrightarrow> found \<or> root_value root \<in> fst ` set ns"
      "\<forall>(p, info) \<in> set ns. map_of m p = None \<and> is_absolute L p \<and> pm_rootPath info = p \<and>
         (isMainPackage info \<longleftrightarrow> p = root_value root) \<and> checkValid (pkg_name (pm_id info)) \<and> checkValid (pkg_version (pm_id info))"
    using addPackageEntry_keys [OF s(1)] by blast
  have "package_entries_ok L root m1"
  proof (cases ns)
    case Nil
    with Cons.prems(2) ns(1) show ?thesis by simp
  next
    case (Cons n ns')
    then obtain p info where "ns = [(p, info)]" using ns(2) by (cases n) simp
    with \<open>package_entries_ok L root m\<close> ns(1,4) show ?thesis by (simp add: package_entries_ok_def map_of_eq_None_iff)
  qed
  moreover have "found1 \<longleftrightarrow> root_value root \<in> fst ` set m1" using Cons.prems(3) ns(1,3) by auto
  ultimately show ?case using Cons.IH [OF s(2)] by blast
qed simp

text \<open>
  Reading the package map. When it is accepted, it has the package of the project itself;
  every entry is for an absolute path, names the package by characters that are allowed in a
  symbol, and is the main package exactly when its path is the project root; no path has two
  entries.
\<close>

theorem package_map_wellformed:
  assumes "populatePackageMap L J E root path = Inr m"
  shows "(\<exists>info. map_of m (root_value root) = Some info \<and> isMainPackage info) \<and> package_entries_ok L root m"
proof -
  obtain es where "rfold (addPackageEntry L E root) es ([], False) = Inr (m, True)"
    using assms by (auto simp: populatePackageMap_def result_simps split: option.splits if_splits)
  from addPackageEntries_ok [OF this] have ok: "package_entries_ok L root m" "root_value root \<in> fst ` set m"
    by (auto simp: package_entries_ok_def)
  then obtain info where "(root_value root, info) \<in> set m" by auto
  with ok(1) show ?thesis by (auto simp: package_entries_ok_def intro!: exI [of _ info])
qed

text \<open>A file with one entry, for the project itself.\<close>

definition sample_package_env :: "json_value package_env" where
  "sample_package_env = \<lparr>real_path = (\<lambda>p. Some (if p = ''.'' then ''/p'' else p)), is_directory = (\<lambda>p. True),
     read_file = (\<lambda>p. Some []), parse_json = (\<lambda>s. Some (of_array plain_json [of_object plain_json
       [(''path'', of_str plain_json ''.''), (''package'', of_str plain_json ''main@v1'')]])), str_split = split_on\<rparr>"

theorem package_map_wellformed_witness:
  "\<exists>m. populatePackageMap slash_paths plain_json sample_package_env \<lparr>root_value = ''/p'', root_kind = Project\<rparr> ''/m.json'' = Inr m \<and>
     (\<exists>info. map_of m ''/p'' = Some info \<and> isMainPackage info)"
proof -
  have "fromJSON_list plain_json (fromJSON_PackageMapEntry plain_json) (of_array plain_json [of_object plain_json
       [(''path'', of_str plain_json ''.''), (''package'', of_str plain_json ''main@v1'')]]) =
      Some [\<lparr>pme_rootPath = ''.'', pme_package = ''main@v1''\<rparr>]"
    by (simp add: plain_json_def fromJSON_list_def fromJSON_PackageMapEntry_def mapper_map_def)
  moreover have "checkValid ''main''" "checkValid ''v1''" by (simp_all add: less_eq_char_def)
  moreover have "addPackageEntry slash_paths sample_package_env \<lparr>root_value = ''/p'', root_kind = Project\<rparr>
        \<lparr>pme_rootPath = ''.'', pme_package = ''main@v1''\<rparr> ([], False) =
      Inr ([(''/p'', \<lparr>pm_id = \<lparr>pkg_name = ''main'', pkg_version = ''v1''\<rparr>, pm_rootPath = ''/p'', isMainPackage = True\<rparr>)], True)"
    using calculation(2,3) by (simp add: addPackageEntry_def sample_package_env_def ends_with_def tryFrom_def slash_paths_def starts_with_def Let_def
      del: checkValid.simps)
  ultimately have "populatePackageMap slash_paths plain_json sample_package_env \<lparr>root_value = ''/p'', root_kind = Project\<rparr> ''/m.json'' =
      Inr [(''/p'', \<lparr>pm_id = \<lparr>pkg_name = ''main'', pkg_version = ''v1''\<rparr>, pm_rootPath = ''/p'', isMainPackage = True\<rparr>)]"
    by (simp add: populatePackageMap_def sample_package_env_def del: checkValid.simps)
  with package_map_wellformed [OF this] show ?thesis by simp
qed

text \<open>
  A package map must not have an entry for the root directory. When such an entry is otherwise
  well formed, cutting off the trailing separator leaves an empty path, and reading the value
  of the path made from it fails, instead of skipping the entry with a message.
\<close>

theorem root_directory_entry_fails:
  assumes "posix_paths L" "real_path E (pme_rootPath e) = Some ''/''" "is_directory E ''/''"
    and "str_split E (pme_package e) (CHR ''@'') = [name, version]" "name \<noteq> []" "version \<noteq> []" "checkValid name" "checkValid version"
  shows "addPackageEntry L E root e st = Inl BadOptionalAccess"
proof -
  have "tryFrom L [] = None" using assms(1) by (simp add: tryFrom_def posix_paths_def starts_with_def)
  then show ?thesis using assms(2-8) by (simp add: addPackageEntry_def ends_with_def Let_def split: prod.split)
qed

theorem root_directory_entry_fails_witness:
  "addPackageEntry slash_paths sample_package_env \<lparr>root_value = ''/p'', root_kind = Project\<rparr>
     \<lparr>pme_rootPath = ''/'', pme_package = ''sys@v1''\<rparr> ([], False) = Inl BadOptionalAccess"
  by (rule root_directory_entry_fails [OF posix_slash_paths, where name = "''sys''" and version = "''v1''"])
    (simp_all add: sample_package_env_def less_eq_char_def)

end
