(* ===== verification/File_Metadata.thy ===== *)
theory File_Metadata
  imports Package_Map
begin

text \<open>
  What a worker knows about the files of a translation unit: indexer/IdPathMappings.h,
  indexer/IdPathMappings.cc and indexer/FileMetadata.h. \<^verbatim>\<open>ClangIdLookupMap\<close> leads from a path
  and a hash value to the identifier Clang has for the file, \<^verbatim>\<open>FileMetadataMap\<close> from the
  identifier to a path that is the same for all workers.

  A \<^verbatim>\<open>clang::FileID\<close> is invalid or identifies a file. \<open>realPath\<close> resolves a path in the file
  system and \<open>hashText\<close> is \<^verbatim>\<open>HashValue::forText\<close>, a call of \<^verbatim>\<open>wyhash\<close>; both are parameters.
\<close>

subsection \<open>Identifiers of files\<close>

datatype FileID = InvalidFileID | FileID nat

definition fid_isValid :: "FileID \<Rightarrow> bool" where
  "fid_isValid f \<longleftrightarrow> f \<noteq> InvalidFileID"

type_synonym hash_to_id = "(HashValue \<times> FileID) list"
type_synonym ClangIdLookupMap = "(AbsolutePath \<times> hash_to_id) list"

definition idmap_insert :: "AbsolutePath \<Rightarrow> HashValue \<Rightarrow> FileID \<Rightarrow> ClangIdLookupMap \<Rightarrow> ClangIdLookupMap" where
  "idmap_insert absPath hashValue fileId impl =
     (case map_of impl absPath of
        None \<Rightarrow> impl @ [(absPath, [(hashValue, fileId)])]
      | Some hashToFileId \<Rightarrow> hmap_update absPath (hmap_update hashValue fileId hashToFileId) impl)"

text \<open>The traversal; \<open>order\<close> is the order of the hash table.\<close>

definition forEachPathAndHash ::
  "(ClangIdLookupMap \<Rightarrow> ClangIdLookupMap) \<Rightarrow> (AbsolutePath \<Rightarrow> hash_to_id \<Rightarrow> 's \<Rightarrow> 's result) \<Rightarrow>
   ClangIdLookupMap \<Rightarrow> 's \<Rightarrow> 's result" where
  "forEachPathAndHash order callback impl =
     rfold (\<lambda>(absPath, hashToFileId) s.
       enforcing (hashToFileId \<noteq> []) ''Shouldn't have stored empty maps'' (callback absPath hashToFileId s)) (order impl)"

definition idmap_lookup :: "ClangIdLookupMap \<Rightarrow> AbsolutePath \<Rightarrow> HashValue \<Rightarrow> FileID option" where
  "idmap_lookup impl absPath hashValue =
     (case map_of impl absPath of None \<Rightarrow> None | Some hashToFileId \<Rightarrow> map_of hashToFileId hashValue)"

definition lookupAnyFileId :: "(hash_to_id \<Rightarrow> hash_to_id) \<Rightarrow> ClangIdLookupMap \<Rightarrow> AbsolutePath \<Rightarrow> FileID option result" where
  "lookupAnyFileId order impl absPath =
     (case map_of impl absPath of
        None \<Rightarrow> Inr None
      | Some hashToFileId \<Rightarrow>
         (case order hashToFileId of
            [] \<Rightarrow> Inl (EnforceFailed ''Shouldn't have stored empty maps'')
          | (hashValue, fileId) # _ \<Rightarrow> Inr (Some fileId)))"

subsection \<open>Metadata of files\<close>

record StableFileId =
  sf_path :: RootRelativePathRef
  isInProject :: bool
  isSynthetic :: bool

record FileMetadata =
  stableFileId :: StableFileId
  originalPath :: AbsolutePath
  packageInfo :: "PackageMetadata option"

definition packageId :: "FileMetadata \<Rightarrow> PackageId" where
  "packageId md = (case packageInfo md of Some info \<Rightarrow> pm_id info | None \<Rightarrow> \<lparr>pkg_name = [], pkg_version = []\<rparr>)"

record FileMetadataMap =
  fm_storage :: "RootRelativePathRef list"
  fm_map :: "(FileID \<times> FileMetadata) list"
  fm_projectRootPath :: RootPath
  fm_buildRootPath :: RootPath
  fm_packageMap :: PackageMap

definition mkFileMetadataMap :: "RootPath \<Rightarrow> RootPath \<Rightarrow> PackageMap \<Rightarrow> FileMetadataMap" where
  "mkFileMetadataMap projectRoot buildRoot pm = \<lparr>fm_storage = [], fm_map = [], fm_projectRootPath = projectRoot,
     fm_buildRootPath = buildRoot, fm_packageMap = pm\<rparr>"

definition emplaceMetadata :: "FileID \<Rightarrow> FileMetadata \<Rightarrow> FileMetadataMap \<Rightarrow> bool \<times> FileMetadataMap" where
  "emplaceMetadata fileId md fmm = (map_of (fm_map fmm) fileId = None, fmm\<lparr>fm_map := hmap_emplace fileId md (fm_map fmm)\<rparr>)"

definition insertRelPath ::
  "FileID \<Rightarrow> AbsolutePath \<Rightarrow> PackageMetadata option \<Rightarrow> RootRelativePathRef \<Rightarrow> bool \<Rightarrow> FileMetadataMap \<Rightarrow>
   (bool \<times> FileMetadataMap) result" where
  "insertRelPath fileId absPath pkg relPath inProject fmm =
     enforcing (rel_value relPath \<noteq> []) ''file path is unexpectedly equal to project root''
       (Inr (emplaceMetadata fileId \<lparr>stableFileId = \<lparr>sf_path = relPath, isInProject = inProject, isSynthetic = False\<rparr>,
          originalPath = absPath, packageInfo = pkg\<rparr> fmm))"

text \<open>A file outside of all known roots gets a made-up path.\<close>

definition insertSynthetic ::
  "llvm_path \<Rightarrow> (string \<Rightarrow> 64 word) \<Rightarrow> FileID \<Rightarrow> AbsolutePath \<Rightarrow> PackageMetadata option \<Rightarrow> FileMetadataMap \<Rightarrow>
   (bool \<times> FileMetadataMap) result" where
  "insertSynthetic L hashText fileId absPath pkg fmm =
     (case fileName absPath of
        None \<Rightarrow> Inl (EnforceFailed ''Clang returned file path without a file name'')
      | Some name \<Rightarrow>
          rbind (mkRootRelativePath L (''<external>/'' @ fmt_nat (unat (hashText absPath)) @ ''/'' @ name) Build) (\<lambda>stored.
          rbind (mkRootRelativePathRef L (rel_value stored) (rel_kind stored)) (\<lambda>ref.
            Inr (emplaceMetadata fileId \<lparr>stableFileId = \<lparr>sf_path = ref, isInProject = False, isSynthetic = True\<rparr>,
              originalPath = absPath, packageInfo = pkg\<rparr> (fmm\<lparr>fm_storage := fm_storage fmm @ [stored]\<rparr>)))))"

definition insertInProject ::
  "llvm_path \<Rightarrow> (string \<Rightarrow> 64 word) \<Rightarrow> FileID \<Rightarrow> AbsolutePath \<Rightarrow> FileMetadataMap \<Rightarrow> (bool \<times> FileMetadataMap) result" where
  "insertInProject L hashText fileId absPath fmm =
     rbind (tryMakeRelative L (fm_projectRootPath fmm) absPath) (\<lambda>optRel.
       case optRel of
         Some rel \<Rightarrow> insertRelPath fileId absPath None rel True fmm
       | None \<Rightarrow> insertSynthetic L hashText fileId absPath None fmm)"

text \<open>
  The order of the attempts: the root of the package of the file; for a file without package
  the build root, if the project has the same file; the project root; a made-up path.
\<close>

definition insertWithoutPackage ::
  "llvm_path \<Rightarrow> (string \<Rightarrow> string option) \<Rightarrow> (string \<Rightarrow> 64 word) \<Rightarrow> FileID \<Rightarrow> AbsolutePath \<Rightarrow> FileMetadataMap \<Rightarrow>
   (bool \<times> FileMetadataMap) result" where
  "insertWithoutPackage L realPath hashText fileId absPath fmm =
     rbind (tryMakeRelative L (fm_buildRootPath fmm) absPath) (\<lambda>buildRel.
       case buildRel of
         None \<Rightarrow> insertInProject L hashText fileId absPath fmm
       | Some rel \<Rightarrow>
           rbind (makeAbsoluteAllowKindMismatch L (fm_projectRootPath fmm) rel) (\<lambda>original.
             case realPath original of
               None \<Rightarrow> insertInProject L hashText fileId absPath fmm
             | Some real \<Rightarrow>
                 if real = original
                 then rbind (mkRootRelativePathRef L (rel_value rel) Project) (\<lambda>projectRel.
                        insertRelPath fileId absPath None projectRel True fmm)
                 else insertSynthetic L hashText fileId absPath None fmm))"

definition insertMetadata ::
  "llvm_path \<Rightarrow> (string \<Rightarrow> string option) \<Rightarrow> (string \<Rightarrow> 64 word) \<Rightarrow> FileID \<Rightarrow> AbsolutePath \<Rightarrow> FileMetadataMap \<Rightarrow>
   (bool \<times> FileMetadataMap) result" where
  "insertMetadata L realPath hashText fileId absPath fmm0 =
     enforcing (fid_isValid fileId) ''invalid FileIDs should be filtered out after preprocessing''
     (enforcing (absPath \<noteq> []) ''inserting file with empty absolute path''
     (rbind (lookupPackage L absPath (fm_packageMap fmm0)) (\<lambda>(optPackage, pm).
        let fmm = fmm0\<lparr>fm_packageMap := pm\<rparr> in
        case optPackage of
          Some pkg \<Rightarrow>
            (case makeRelative (pm_rootPath pkg) absPath of
               Some s \<Rightarrow> rbind (mkRootRelativePathRef L s External) (\<lambda>rel.
                           insertRelPath fileId absPath optPackage rel (isMainPackage pkg) fmm)
             | None \<Rightarrow> insertSynthetic L hashText fileId absPath optPackage fmm)
        | None \<Rightarrow> insertWithoutPackage L realPath hashText fileId absPath fmm)))"

definition populateMetadata ::
  "llvm_path \<Rightarrow> (string \<Rightarrow> string option) \<Rightarrow> (string \<Rightarrow> 64 word) \<Rightarrow> (ClangIdLookupMap \<Rightarrow> ClangIdLookupMap) \<Rightarrow>
   (hash_to_id \<Rightarrow> hash_to_id) \<Rightarrow> ClangIdLookupMap \<Rightarrow> FileMetadataMap \<Rightarrow> FileMetadataMap result" where
  "populateMetadata L realPath hashText order order' =
     forEachPathAndHash order (\<lambda>absPath hashToFileId.
       rfold (\<lambda>(hash, fileId) fmm.
         rbind (insertMetadata L realPath hashText fileId absPath fmm) (\<lambda>(inserted, fmm1).
           enforcing inserted ''there is a 1-1 mapping from FileID -> (path, hash)'' (Inr fmm1))) (order' hashToFileId))"

definition forEachFileId ::
  "((FileID \<times> FileMetadata) list \<Rightarrow> (FileID \<times> FileMetadata) list) \<Rightarrow> (FileID \<Rightarrow> StableFileId \<Rightarrow> 's \<Rightarrow> 's) \<Rightarrow>
   FileMetadataMap \<Rightarrow> 's \<Rightarrow> 's" where
  "forEachFileId order callback fmm = fold (\<lambda>(fileId, md). callback fileId (stableFileId md)) (order (fm_map fmm))"

definition getStableFileId :: "FileMetadataMap \<Rightarrow> FileID \<Rightarrow> StableFileId option" where
  "getStableFileId fmm fileId = map_option stableFileId (map_of (fm_map fmm) fileId)"

definition getFileMetadata :: "FileMetadataMap \<Rightarrow> FileID \<Rightarrow> FileMetadata option" where
  "getFileMetadata fmm fileId = map_of (fm_map fmm) fileId"

subsection \<open>The identifier map\<close>

lemma idmap_lookup_insert:
  "idmap_lookup (idmap_insert p h f m) p' h' = (if p' = p \<and> h' = h then Some f else idmap_lookup m p' h')"
  by (auto simp: idmap_lookup_def idmap_insert_def map_of_snoc split: option.splits)

definition ids_of :: "ClangIdLookupMap \<Rightarrow> FileID list" where
  "ids_of m = concat (map (\<lambda>(p, hs). map snd hs) m)"

definition idmap_ok :: "ClangIdLookupMap \<Rightarrow> bool" where
  "idmap_ok m \<longleftrightarrow> distinct (map fst m) \<and> (\<forall>(p, hs) \<in> set m. hs \<noteq> [] \<and> distinct (map fst hs)) \<and> distinct (ids_of m)"

lemma hmap_update_split:
  assumes "map_of m k = Some old"
  obtains xs ys where "m = xs @ (k, old) # ys" "hmap_update k v m = xs @ (k, v) # ys"
proof -
  have "\<exists>xs ys. m = xs @ (k, old) # ys \<and> hmap_update k v m = xs @ (k, v) # ys" using assms
  proof (induction m)
    case (Cons a m)
    show ?case
    proof (cases "fst a = k")
      case True
      with Cons.prems show ?thesis by (cases a) (auto intro: exI [of _ "[]"])
    next
      case False
      then obtain xs ys where "m = xs @ (k, old) # ys" "hmap_update k v m = xs @ (k, v) # ys"
        using Cons by (cases a) (auto split: if_splits)
      with False have "a # m = (a # xs) @ (k, old) # ys \<and> hmap_update k v (a # m) = (a # xs) @ (k, v) # ys" by (cases a) auto
      then show ?thesis by blast
    qed
  qed simp
  with that show thesis by blast
qed

lemma hmap_update_snd:
  "v \<notin> set (map snd m) \<Longrightarrow> distinct (map snd m) \<Longrightarrow> distinct (map snd (hmap_update k v m))"
  "set (map snd (hmap_update k v m)) \<subseteq> insert v (set (map snd m))"
  by (induction k v m rule: hmap_update.induct) auto

lemma idmap_insert_ok:
  assumes "idmap_ok m" "f \<notin> set (ids_of m)"
  shows "idmap_ok (idmap_insert p h f m) \<and> set (ids_of (idmap_insert p h f m)) \<subseteq> insert f (set (ids_of m))"
proof (cases "map_of m p")
  case None
  then have "idmap_insert p h f m = m @ [(p, [(h, f)])]" by (simp add: idmap_insert_def)
  with assms None show ?thesis by (simp add: idmap_ok_def ids_of_def map_of_eq_None_iff)
next
  case (Some hs)
  then obtain xs ys where m: "m = xs @ (p, hs) # ys"
      "hmap_update p (hmap_update h f hs) m = xs @ (p, hmap_update h f hs) # ys"
    by (rule hmap_update_split)
  have d: "distinct (map snd (hmap_update h f hs))" "set (map snd (hmap_update h f hs)) \<subseteq> insert f (set (map snd hs))"
    using hmap_update_snd(1) [of f hs h] hmap_update_snd(2) [of h f hs] assms m(1) by (auto simp: idmap_ok_def ids_of_def)
  define hs' where "hs' = hmap_update h f hs"
  have new: "idmap_insert p h f m = xs @ (p, hs') # ys" using Some m(2) by (simp add: idmap_insert_def hs'_def)
  have ids: "ids_of m = ids_of xs @ map snd hs @ ids_of ys" "ids_of (idmap_insert p h f m) = ids_of xs @ map snd hs' @ ids_of ys"
    unfolding new unfolding m(1) by (simp_all add: ids_of_def)
  have "distinct (ids_of (idmap_insert p h f m))"
    using assms d unfolding hs'_def [symmetric] ids idmap_ok_def distinct_append set_append by blast
  moreover have "set (ids_of (idmap_insert p h f m)) \<subseteq> insert f (set (ids_of m))"
    using d(2) unfolding hs'_def [symmetric] ids by auto
  moreover have "hs' \<noteq> []" unfolding hs'_def by (cases hs) (auto split: if_splits)
  moreover have "distinct (map fst hs')" using assms(1) m(1) by (auto simp: hs'_def idmap_ok_def)
  moreover have "distinct (map fst (xs @ (p, hs') # ys))" "\<forall>(q, gs) \<in> set (xs @ ys). gs \<noteq> [] \<and> distinct (map fst gs)"
    using assms(1) unfolding m(1) idmap_ok_def by auto
  ultimately show ?thesis unfolding idmap_ok_def unfolding new by auto
qed

subsection \<open>Inserting metadata\<close>

text \<open>The cases the documentation of \<^verbatim>\<open>FileMetadata\<close> lists.\<close>

definition metadata_ok :: "llvm_path \<Rightarrow> FileMetadata \<Rightarrow> bool" where
  "metadata_ok L md \<longleftrightarrow> (let s = stableFileId md in
     rel_value (sf_path s) \<noteq> [] \<and> \<not> is_absolute L (rel_value (sf_path s)) \<and> \<not> (isInProject s \<and> isSynthetic s) \<and>
     (\<not> isInProject s \<and> \<not> isSynthetic s \<longrightarrow> packageInfo md \<noteq> None) \<and>
     (isSynthetic s \<longrightarrow> starts_with (rel_value (sf_path s)) ''<external>/''))"

definition metadata_map_ok :: "llvm_path \<Rightarrow> PackageMap \<Rightarrow> FileMetadataMap \<Rightarrow> bool" where
  "metadata_map_ok L pm0 fmm \<longleftrightarrow> cache_valid L pm0 (fm_packageMap fmm) \<and>
     is_absolute L (root_value (fm_projectRootPath fmm)) \<and> (\<forall>md \<in> snd ` set (fm_map fmm). metadata_ok L md)"

text \<open>A path of a file: it has a name and is none of the roots.\<close>

definition file_path_ok :: "llvm_path \<Rightarrow> PackageMap \<Rightarrow> RootPath \<Rightarrow> RootPath \<Rightarrow> AbsolutePath \<Rightarrow> bool" where
  "file_path_ok L pm0 projectRoot buildRoot p \<longleftrightarrow> is_absolute L p \<and> fileName p \<noteq> None \<and>
     p \<noteq> root_value projectRoot \<and> p \<noteq> root_value buildRoot \<and>
     (\<forall>pkg. package_spec L pm0 p = Some pkg \<longrightarrow> p \<noteq> pm_rootPath pkg)"

lemma makeRelative_file:
  assumes "posix_paths L" "makeRelative root p = Some s" "fileName p \<noteq> None" "p \<noteq> root"
  shows "mkRootRelativePathRef L s k = Inr \<lparr>rel_value = s, rel_kind = k\<rparr> \<and> s \<noteq> [] \<and> \<not> is_absolute L s"
proof -
  obtain d f where f: "p = d @ preferred_separator # f" "f \<noteq> []" "preferred_separator \<notin> set f"
    using assms(3) by (auto simp: fileName_eq)
  obtain t where t: "p = root @ t" "s = dropWhile (\<lambda>c. c = preferred_separator) t" "t \<noteq> []"
    using assms(2,4) by (auto simp: makeRelative_iff)
  have "last t = last f" using f t by (metis last.simps last_appendR list.distinct(1))
  then have "last t \<noteq> preferred_separator" using f(2,3) by (metis last_in_set)
  then have ne: "s \<noteq> []" using t(3) last_in_set [of t] unfolding t(2) dropWhile_eq_Nil_conv by blast
  have "hd s \<noteq> preferred_separator" using hd_dropWhile [of "\<lambda>c. c = preferred_separator" t] ne unfolding t(2) by blast
  then have "\<not> is_absolute L s" using assms(1) ne by (cases s) (auto simp: posix_paths_def starts_with_def)
  with ne show ?thesis by (simp add: mkRootRelativePathRef_def)
qed

text \<open>What every insertion does to the map.\<close>

definition stores :: "llvm_path \<Rightarrow> PackageMap \<Rightarrow> FileID \<Rightarrow> AbsolutePath \<Rightarrow> FileMetadataMap \<Rightarrow> bool \<times> FileMetadataMap \<Rightarrow> bool" where
  "stores L pm0 f p fmm r \<longleftrightarrow> (\<exists>md. metadata_ok L md \<and> originalPath md = p \<and> packageInfo md = package_spec L pm0 p \<and>
     fst r = (map_of (fm_map fmm) f = None) \<and> fm_map (snd r) = hmap_emplace f md (fm_map fmm) \<and>
     fm_projectRootPath (snd r) = fm_projectRootPath fmm \<and> fm_buildRootPath (snd r) = fm_buildRootPath fmm \<and>
     fm_packageMap (snd r) = fm_packageMap fmm)"

lemma insertRelPath_stores:
  assumes "rel_value rel \<noteq> []" "\<not> is_absolute L (rel_value rel)" "pkg = package_spec L pm0 p" "inProject \<or> pkg \<noteq> None"
  shows "\<exists>r. insertRelPath f p pkg rel inProject fmm = Inr r \<and> stores L pm0 f p fmm r"
  using assms by (auto simp: insertRelPath_def stores_def emplaceMetadata_def metadata_ok_def intro!: exI)

lemma insertSynthetic_stores:
  assumes "posix_paths L" "fileName p \<noteq> None" "pkg = package_spec L pm0 p"
  shows "\<exists>r. insertSynthetic L hashText f p pkg fmm = Inr r \<and> stores L pm0 f p fmm r"
proof -
  obtain name where n: "fileName p = Some name" using assms(2) by blast
  let ?v = "''<external>/'' @ fmt_nat (unat (hashText p)) @ ''/'' @ name"
  have rel: "\<not> is_absolute L ?v" using assms(1) by (simp add: posix_paths_def starts_with_def)
  have ext: "starts_with ?v ''<external>/''" by (rule starts_with_append)
  from rel have run: "insertSynthetic L hashText f p pkg fmm = Inr (emplaceMetadata f
      \<lparr>stableFileId = \<lparr>sf_path = \<lparr>rel_value = ?v, rel_kind = Build\<rparr>, isInProject = False, isSynthetic = True\<rparr>,
       originalPath = p, packageInfo = pkg\<rparr> (fmm\<lparr>fm_storage := fm_storage fmm @ [\<lparr>rel_value = ?v, rel_kind = Build\<rparr>]\<rparr>))"
    using n by (simp add: insertSynthetic_def mkRootRelativePath_def mkRootRelativePathRef_def del: append_Cons append_Nil)
  define md where "md = \<lparr>stableFileId = \<lparr>sf_path = \<lparr>rel_value = ?v, rel_kind = Build\<rparr>, isInProject = False, isSynthetic = True\<rparr>,
       originalPath = p, packageInfo = pkg\<rparr>"
  have "metadata_ok L md" "originalPath md = p" "packageInfo md = package_spec L pm0 p"
    using rel ext assms(3) by (simp_all add: md_def metadata_ok_def)
  then show ?thesis unfolding run md_def [symmetric] by (auto simp: stores_def emplaceMetadata_def)
qed

lemma insertInProject_stores:
  assumes "posix_paths L" "fileName p \<noteq> None" "p \<noteq> root_value (fm_projectRootPath fmm)" "package_spec L pm0 p = None"
  shows "\<exists>r. insertInProject L hashText f p fmm = Inr r \<and> stores L pm0 f p fmm r"
proof (cases "makeRelative (root_value (fm_projectRootPath fmm)) p")
  case None
  with insertSynthetic_stores [OF assms(1,2), of None pm0 hashText f fmm] assms(4) show ?thesis
    by (simp add: insertInProject_def tryMakeRelative_def)
next
  case (Some s)
  let ?rel = "\<lparr>rel_value = s, rel_kind = root_kind (fm_projectRootPath fmm)\<rparr>"
  from Some makeRelative_file [OF assms(1) Some assms(2,3), of "root_kind (fm_projectRootPath fmm)"]
  have "insertInProject L hashText f p fmm = insertRelPath f p None ?rel True fmm" "s \<noteq> []" "\<not> is_absolute L s"
    by (simp_all add: insertInProject_def tryMakeRelative_def)
  then show ?thesis using insertRelPath_stores [of ?rel L None pm0 p True f fmm] assms(4) by simp
qed

lemma insertMetadata_stores:
  assumes fmm: "metadata_map_ok L pm0 fmm" and p: "file_path_ok L pm0 (fm_projectRootPath fmm) (fm_buildRootPath fmm) p"
    and f: "fid_isValid f"
  shows "\<exists>r pm. insertMetadata L realPath hashText f p fmm = Inr r \<and> cache_valid L pm0 pm \<and>
    stores L pm0 f p (fmm\<lparr>fm_packageMap := pm\<rparr>) r"
proof -
  have L: "posix_paths L" using fmm by (simp add: metadata_map_ok_def cache_valid_def)
  have p': "is_absolute L p" "fileName p \<noteq> None" "p \<noteq> root_value (fm_projectRootPath fmm)" "p \<noteq> root_value (fm_buildRootPath fmm)"
      "p \<noteq> []" and pkg: "\<And>pkg. package_spec L pm0 p = Some pkg \<Longrightarrow> p \<noteq> pm_rootPath pkg"
    using p L by (auto simp: file_path_ok_def posix_paths_def starts_with_def)
  obtain pm where pm: "lookupPackage L p (fm_packageMap fmm) = Inr (package_spec L pm0 p, pm)" "cache_valid L pm0 pm"
    using lookupPackage_spec [of L pm0 "fm_packageMap fmm" p] fmm p' by (auto simp: metadata_map_ok_def)
  define fmm1 where "fmm1 = fmm\<lparr>fm_packageMap := pm\<rparr>"
  have roots: "fm_projectRootPath fmm1 = fm_projectRootPath fmm" "fm_buildRootPath fmm1 = fm_buildRootPath fmm"
    by (simp_all add: fmm1_def)
  note inProject = insertInProject_stores [where hashText = hashText and f = f and ?pm0.0 = pm0, OF L p'(2) p'(3) [folded roots(1)]]
  note synthetic = insertSynthetic_stores [where hashText = hashText and f = f and fmm = fmm1 and ?pm0.0 = pm0, OF L p'(2) refl]
  have "\<exists>r. insertMetadata L realPath hashText f p fmm = Inr r \<and> stores L pm0 f p fmm1 r"
  proof (cases "package_spec L pm0 p")
    case (Some k)
    show ?thesis
    proof (cases "makeRelative (pm_rootPath k) p")
      case None
      with Some f p'(5) pm(1) synthetic show ?thesis by (simp add: insertMetadata_def fmm1_def)
    next
      case (Some s)
      from makeRelative_file [OF L this p'(2) pkg [OF \<open>package_spec L pm0 p = Some k\<close>], of External]
      have "insertMetadata L realPath hashText f p fmm =
          insertRelPath f p (package_spec L pm0 p) \<lparr>rel_value = s, rel_kind = External\<rparr> (isMainPackage k) fmm1" "s \<noteq> []" "\<not> is_absolute L s"
        using \<open>package_spec L pm0 p = Some k\<close> Some f p'(5) pm(1) by (simp_all add: insertMetadata_def fmm1_def)
      then show ?thesis
        using insertRelPath_stores [of "\<lparr>rel_value = s, rel_kind = External\<rparr>" L _ pm0 p] \<open>package_spec L pm0 p = Some k\<close> by simp
    qed
  next
    case None
    have start: "insertMetadata L realPath hashText f p fmm = insertWithoutPackage L realPath hashText f p fmm1"
      using None f p'(5) pm(1) by (simp add: insertMetadata_def fmm1_def Let_def)
    show ?thesis
    proof (cases "makeRelative (root_value (fm_buildRootPath fmm1)) p")
      case None
      with start inProject \<open>package_spec L pm0 p = None\<close> show ?thesis by (simp add: insertWithoutPackage_def tryMakeRelative_def)
    next
      case (Some s)
      note rel = makeRelative_file [OF L Some p'(2) p'(4) [folded roots(2)]]
      define original where "original = joinPath (root_value (fm_projectRootPath fmm1)) s"
      have "is_absolute L original"
        using fmm L by (auto simp: original_def roots metadata_map_ok_def posix_paths_def joinPath_def starts_with_iff)
      then have abs: "makeAbsoluteAllowKindMismatch L (fm_projectRootPath fmm1) \<lparr>rel_value = s, rel_kind = k\<rparr> = Inr original" for k
        by (simp add: makeAbsoluteAllowKindMismatch_def mkAbsolutePath_def tryFrom_def original_def)
      have "\<exists>r. insertRelPath f p None \<lparr>rel_value = s, rel_kind = Project\<rparr> True fmm1 = Inr r \<and> stores L pm0 f p fmm1 r"
        using insertRelPath_stores [of "\<lparr>rel_value = s, rel_kind = Project\<rparr>" L None pm0 p True f fmm1] rel \<open>package_spec L pm0 p = None\<close> by simp
      with start Some rel abs inProject synthetic \<open>package_spec L pm0 p = None\<close> show ?thesis
        by (auto simp: insertWithoutPackage_def tryMakeRelative_def split: option.split)
    qed
  qed
  with pm(2) show ?thesis by (auto simp: fmm1_def)
qed

subsection \<open>Filling the map\<close>

lemma rfold_map: "rfold f (map g xs) s = rfold (f \<circ> g) xs s"
  by (induction xs arbitrary: s) (auto simp: rbind_def split: sum.split)

lemma rfold_concat: "rfold f (concat xss) s = rfold (rfold f) xss s"
  by (induction xss arbitrary: s) (auto simp: rfold_append rbind_def split: sum.split)

lemma rfold_cong: "(\<And>x s. x \<in> set xs \<Longrightarrow> f x s = g x s) \<Longrightarrow> rfold f xs s = rfold g xs s"
  by (induction xs arbitrary: s) (auto simp: rbind_def split: sum.split)

definition insert_once ::
  "llvm_path \<Rightarrow> (string \<Rightarrow> string option) \<Rightarrow> (string \<Rightarrow> 64 word) \<Rightarrow> AbsolutePath \<times> FileID \<Rightarrow> FileMetadataMap \<Rightarrow> FileMetadataMap result" where
  "insert_once L realPath hashText pf fmm =
     rbind (insertMetadata L realPath hashText (snd pf) (fst pf) fmm) (\<lambda>(inserted, fmm1).
       enforcing inserted ''there is a 1-1 mapping from FileID -> (path, hash)'' (Inr fmm1))"

definition path_ids :: "(ClangIdLookupMap \<Rightarrow> ClangIdLookupMap) \<Rightarrow> (hash_to_id \<Rightarrow> hash_to_id) \<Rightarrow> ClangIdLookupMap \<Rightarrow> (AbsolutePath \<times> FileID) list" where
  "path_ids order order' impl = concat (map (\<lambda>(p, hs). map (\<lambda>(h, f). (p, f)) (order' hs)) (order impl))"

lemma populateMetadata_eq:
  assumes "\<forall>(p, hs) \<in> set (order impl). hs \<noteq> []"
  shows "populateMetadata L realPath hashText order order' impl fmm =
    rfold (insert_once L realPath hashText) (path_ids order order' impl) fmm"
proof -
  have inner: "rfold (\<lambda>(hash, fileId) fmm. rbind (insertMetadata L realPath hashText fileId p fmm) (\<lambda>(inserted, fmm1).
          enforcing inserted ''there is a 1-1 mapping from FileID -> (path, hash)'' (Inr fmm1))) hs s =
      rfold (insert_once L realPath hashText) (map (\<lambda>(h, f). (p, f)) hs) s" for p hs s
    unfolding rfold_map by (rule rfold_cong) (auto simp: insert_once_def split: prod.split)
  show ?thesis
    unfolding populateMetadata_def forEachPathAndHash_def path_ids_def rfold_concat rfold_map
    by (rule rfold_cong) (use assms in \<open>auto simp: inner\<close>)
qed

lemma insert_all_stores:
  assumes "metadata_map_ok L pm0 fmm" "distinct (map snd ps)" "\<forall>f \<in> set (map snd ps). map_of (fm_map fmm) f = None \<and> fid_isValid f"
    and "\<forall>p \<in> set (map fst ps). file_path_ok L pm0 (fm_projectRootPath fmm) (fm_buildRootPath fmm) p"
  shows "\<exists>fmm'. rfold (insert_once L realPath hashText) ps fmm = Inr fmm' \<and> metadata_map_ok L pm0 fmm' \<and>
    fm_projectRootPath fmm' = fm_projectRootPath fmm \<and> fm_buildRootPath fmm' = fm_buildRootPath fmm \<and>
    (\<forall>(p, f) \<in> set ps. \<exists>md. map_of (fm_map fmm') f = Some md \<and> originalPath md = p \<and> packageInfo md = package_spec L pm0 p) \<and>
    (\<forall>f. f \<notin> snd ` set ps \<longrightarrow> map_of (fm_map fmm') f = map_of (fm_map fmm) f)"
  using assms
proof (induction ps arbitrary: fmm)
  case (Cons pf ps)
  obtain p f where pf: "pf = (p, f)" by (cases pf)
  from Cons.prems pf obtain r pm where r: "insertMetadata L realPath hashText f p fmm = Inr r" "cache_valid L pm0 pm"
      "stores L pm0 f p (fmm\<lparr>fm_packageMap := pm\<rparr>) r"
    using insertMetadata_stores [of L pm0 fmm p f realPath hashText] by auto
  then obtain md where md: "metadata_ok L md" "originalPath md = p" "packageInfo md = package_spec L pm0 p" "fst r"
      "fm_map (snd r) = fm_map fmm @ [(f, md)]" "fm_projectRootPath (snd r) = fm_projectRootPath fmm"
      "fm_buildRootPath (snd r) = fm_buildRootPath fmm" "fm_packageMap (snd r) = pm"
    using Cons.prems(3) pf by (auto simp: stores_def hmap_emplace_def)
  have ok: "metadata_map_ok L pm0 (snd r)" using Cons.prems(1) md r(2) by (auto simp: metadata_map_ok_def)
  have "map_of (fm_map (snd r)) g = (if g = f then Some md else map_of (fm_map fmm) g)" for g
    using Cons.prems(3) pf md(5) by (auto simp: map_add_def split: option.split)
  note r_map = this
  have "\<forall>g \<in> set (map snd ps). map_of (fm_map (snd r)) g = None \<and> fid_isValid g"
    using Cons.prems(2,3) pf by (auto simp: r_map)
  from Cons.IH [OF ok _ this] Cons.prems(2,4) md(6,7) obtain fmm' where
    "rfold (insert_once L realPath hashText) ps (snd r) = Inr fmm'" "metadata_map_ok L pm0 fmm'"
    "fm_projectRootPath fmm' = fm_projectRootPath fmm" "fm_buildRootPath fmm' = fm_buildRootPath fmm"
    "\<forall>(p, f) \<in> set ps. \<exists>md. map_of (fm_map fmm') f = Some md \<and> originalPath md = p \<and> packageInfo md = package_spec L pm0 p"
    "\<forall>g. g \<notin> snd ` set ps \<longrightarrow> map_of (fm_map fmm') g = map_of (fm_map (snd r)) g"
    by auto
  moreover have "f \<notin> snd ` set ps" using Cons.prems(2) pf by auto
  moreover have "insert_once L realPath hashText pf fmm = Inr (snd r)" using r(1) md(4) pf by (cases r) (simp add: insert_once_def)
  ultimately show ?case using md(2,3) pf r_map by auto
qed simp

lemma path_ids_permuted:
  assumes "permutes_lists order" "permutes_lists order'"
  shows "mset (path_ids order order' m) = mset (path_ids (\<lambda>m. m) (\<lambda>hs. hs) m)"
proof -
  define g where "g = (\<lambda>(p :: AbsolutePath, hs). image_mset (\<lambda>(h, f). (p, f :: FileID)) (mset (hs :: hash_to_id)))"
  have "mset (path_ids order order' m) = (\<Sum>\<^sub># (image_mset g (mset (order m))))"
    unfolding path_ids_def mset_concat map_map
    by (simp add: mset_concat g_def comp_def case_prod_unfold assms(2) [unfolded permutes_lists_def]
        flip: sum_mset_sum_list)
  moreover have "mset (path_ids (\<lambda>m. m) (\<lambda>hs. hs) m) = (\<Sum>\<^sub># (image_mset g (mset m)))"
    unfolding path_ids_def mset_concat map_map
    by (simp add: mset_concat g_def comp_def case_prod_unfold flip: sum_mset_sum_list)
  ultimately show ?thesis using assms(1) by (simp add: permutes_lists_def)
qed

lemma path_ids_of: "map snd (path_ids (\<lambda>m. m) (\<lambda>hs. hs) m) = ids_of m"
  by (simp add: path_ids_def ids_of_def map_concat case_prod_unfold comp_def)

lemma path_ids_lookup:
  assumes "idmap_lookup m p h = Some f"
  shows "(p, f) \<in> set (path_ids (\<lambda>m. m) (\<lambda>hs. hs) m)"
proof -
  from assms obtain hs where "(p, hs) \<in> set m" "(h, f) \<in> set hs"
    by (auto simp: idmap_lookup_def dest!: map_of_SomeD split: option.splits)
  then show ?thesis by (force simp: path_ids_def)
qed

definition idmap_files_ok :: "llvm_path \<Rightarrow> PackageMap \<Rightarrow> RootPath \<Rightarrow> RootPath \<Rightarrow> ClangIdLookupMap \<Rightarrow> bool" where
  "idmap_files_ok L pm projectRoot buildRoot m \<longleftrightarrow> (\<forall>f \<in> set (ids_of m). fid_isValid f) \<and>
     (\<forall>p \<in> set (map fst m). file_path_ok L pm projectRoot buildRoot p)"

text \<open>
  The metadata of a translation unit are complete and truthful. The identifier map is one that
  \<^verbatim>\<open>insert\<close> builds from distinct identifiers of files with a name, in whatever order the hash
  tables enumerate it; the package map is one that has just been read. Then \<^verbatim>\<open>populate\<close> raises
  none of its checks, and every file of the identifier map gets metadata with its own path,
  its nearest package, and a stable path that is relative, not empty, and synthetic only below
  \<^verbatim>\<open><external>\<close>.
\<close>

lemma file_metadata_complete:
  assumes "posix_paths L" "canonical_paths L" "fresh_map L pm" "is_absolute L (root_value projectRoot)"
    and "permutes_lists order" "permutes_lists order'"
    and m: "idmap_ok m" "idmap_files_ok L pm projectRoot buildRoot m"
  shows "\<exists>fmm. populateMetadata L realPath hashText order order' m (mkFileMetadataMap projectRoot buildRoot pm) = Inr fmm \<and>
    metadata_map_ok L pm fmm \<and> fm_projectRootPath fmm = projectRoot \<and> fm_buildRootPath fmm = buildRoot \<and>
    (\<forall>p h f. idmap_lookup m p h = Some f \<longrightarrow>
       (\<exists>md. getFileMetadata fmm f = Some md \<and> getStableFileId fmm f = Some (stableFileId md) \<and>
          originalPath md = p \<and> packageInfo md = package_spec L pm p \<and> metadata_ok L md))"
proof -
  let ?ps = "path_ids order order' m" and ?fmm = "mkFileMetadataMap projectRoot buildRoot pm"
  have perm: "mset ?ps = mset (path_ids (\<lambda>m. m) (\<lambda>hs. hs) m)" using assms(5,6) by (rule path_ids_permuted)
  then have "mset (map snd ?ps) = mset (ids_of m)" unfolding path_ids_of [symmetric] mset_map by simp
  from mset_eq_imp_distinct_iff [OF this] mset_eq_setD [OF this]
  have d: "distinct (map snd ?ps)" and ids: "set (map snd ?ps) = set (ids_of m)"
    using m(1) unfolding idmap_ok_def by blast+
  from perm have set: "set ?ps = set (path_ids (\<lambda>m. m) (\<lambda>hs. hs) m)" by (rule mset_eq_setD)
  have paths: "set (map fst ?ps) \<subseteq> set (map fst m)" unfolding set_map set by (force simp: path_ids_def)
  have "set (order m) = set m" using assms(5) by (metis mset_eq_setD permutes_lists_def)
  then have run: "populateMetadata L realPath hashText order order' m ?fmm = rfold (insert_once L realPath hashText) ?ps ?fmm"
    using m(1) by (intro populateMetadata_eq) (simp add: idmap_ok_def case_prod_unfold)
  have ok: "metadata_map_ok L pm ?fmm"
    using fresh_cache_valid [OF assms(1-3)] assms(4) by (simp add: metadata_map_ok_def mkFileMetadataMap_def)
  have "\<forall>f \<in> set (map snd ?ps). map_of (fm_map ?fmm) f = None \<and> fid_isValid f"
    using m(2) unfolding ids by (simp add: idmap_files_ok_def mkFileMetadataMap_def)
  moreover have "\<forall>p \<in> set (map fst ?ps). file_path_ok L pm (fm_projectRootPath ?fmm) (fm_buildRootPath ?fmm) p"
    using m(2) paths unfolding idmap_files_ok_def mkFileMetadataMap_def FileMetadataMap.select_convs by blast
  ultimately obtain fmm where fmm: "rfold (insert_once L realPath hashText) ?ps ?fmm = Inr fmm" "metadata_map_ok L pm fmm"
      "fm_projectRootPath fmm = fm_projectRootPath ?fmm \<and> fm_buildRootPath fmm = fm_buildRootPath ?fmm"
      "\<forall>(p, f) \<in> set ?ps. \<exists>md. map_of (fm_map fmm) f = Some md \<and> originalPath md = p \<and> packageInfo md = package_spec L pm p"
    using insert_all_stores [OF ok d, of realPath hashText] by blast
  have "\<exists>md. getFileMetadata fmm f = Some md \<and> getStableFileId fmm f = Some (stableFileId md) \<and>
      originalPath md = p \<and> packageInfo md = package_spec L pm p \<and> metadata_ok L md" if "idmap_lookup m p h = Some f" for p h f
  proof -
    from fmm(4) path_ids_lookup [OF that] obtain md where md: "map_of (fm_map fmm) f = Some md" "originalPath md = p"
        "packageInfo md = package_spec L pm p" unfolding set [symmetric] by blast
    moreover have "metadata_ok L md" using fmm(2) map_of_SomeD [OF md(1)] by (force simp: metadata_map_ok_def)
    ultimately show ?thesis by (simp add: getFileMetadata_def getStableFileId_def)
  qed
  with run fmm(1-3) show ?thesis by (auto simp: mkFileMetadataMap_def)
qed

text \<open>A translation unit with a header that was included twice, and one outside of the project.\<close>

definition sample_ids :: ClangIdLookupMap where
  "sample_ids = [(''/p/lib/a.h'', [(7, FileID 2), (9, FileID 3)]), (''/usr/d.h'', [(1, FileID 4)])]"

abbreviation sample_root :: RootPath where
  "sample_root \<equiv> \<lparr>root_value = ''/p'', root_kind = Project\<rparr>"

abbreviation sample_build :: RootPath where
  "sample_build \<equiv> \<lparr>root_value = ''/b'', root_kind = Build\<rparr>"

lemma sample_packages_fresh: "fresh_map slash_paths sample_packages" "is_absolute slash_paths (root_value sample_root)"
  by (simp add: fresh_map_def canonical_def normalize_def sample_packages_def) (simp_all add: slash_paths_def starts_with_def)

lemma sample_package_specs:
  "package_spec slash_paths sample_packages ''/p/lib/a.h'' = Some (sample_package ''lib'' ''/p/lib'' False)"
  "package_spec slash_paths sample_packages ''/p/m.cc'' = Some (sample_package ''main'' ''/p'' True)"
  "package_spec slash_paths sample_packages ''/usr/d.h'' = None"
proof -
  have "canonical slash_paths p = p" for p by (simp add: canonical_def normalize_def) (simp add: slash_paths_def)
  then show "package_spec slash_paths sample_packages ''/p/lib/a.h'' = Some (sample_package ''lib'' ''/p/lib'' False)"
    "package_spec slash_paths sample_packages ''/p/m.cc'' = Some (sample_package ''main'' ''/p'' True)"
    "package_spec slash_paths sample_packages ''/usr/d.h'' = None"
    by (simp_all add: package_spec_def sample_packages_def package_of_def path_prefixes_def path_prefix_def tryFrom_def slash_paths_def starts_with_def)
qed

lemma sample_file_paths:
  "file_path_ok slash_paths sample_packages sample_root sample_build ''/p/lib/a.h''"
  "file_path_ok slash_paths sample_packages sample_root sample_build ''/p/m.cc''"
  "file_path_ok slash_paths sample_packages sample_root sample_build ''/usr/d.h''"
  by (simp_all add: file_path_ok_def sample_package_specs fileName_def) (simp_all add: slash_paths_def starts_with_def sample_package_def)

lemma sample_ids_ok: "idmap_ok sample_ids" "idmap_files_ok slash_paths sample_packages sample_root sample_build sample_ids"
  by (simp_all add: sample_ids_def idmap_ok_def idmap_files_ok_def ids_of_def fid_isValid_def sample_file_paths)

end
