(* ===== verification/Symbol_Format.thy ===== *)
theory Symbol_Format
  imports File_Metadata Symbol_Names
begin

text \<open>
  The text of symbol names: the first part of indexer/SymbolFormatter.cc, with the descriptors
  of indexer/SymbolFormatter.h, and \<^verbatim>\<open>HashValue\<close> of indexer/Hash.h. A name is a package followed
  by descriptors, and its text is what the other tools of the SCIP ecosystem read, so the
  question is whether different packages and descriptors can have the same text.

  \<open>wyhash\<close> is the hash function of the library of that name: of a byte string and a seed.
\<close>

subsection \<open>Hash values\<close>

type_synonym wyhash = "string \<Rightarrow> 64 word \<Rightarrow> 64 word"

definition hv_mix :: "wyhash \<Rightarrow> string \<Rightarrow> HashValue \<Rightarrow> HashValue" where
  "hv_mix wyhash key rawValue = wyhash key rawValue"

definition forText :: "wyhash \<Rightarrow> string \<Rightarrow> 64 word" where
  "forText wyhash t = hv_mix wyhash t 0"

subsection \<open>Escaping\<close>

definition simple_char :: "char \<Rightarrow> bool" where
  "simple_char c \<longleftrightarrow> (CHR ''a'' \<le> c \<and> c \<le> CHR ''z'') \<or> (CHR ''A'' \<le> c \<and> c \<le> CHR ''Z'') \<or>
     (CHR ''0'' \<le> c \<and> c \<le> CHR ''9'') \<or> c = CHR ''+'' \<or> c = CHR ''-'' \<or> c = CHR ''$'' \<or> c = CHR ''_''"

text \<open>\<^verbatim>\<open>absl::StrReplaceAll\<close> for a single character.\<close>

fun str_replace :: "char \<Rightarrow> string \<Rightarrow> string \<Rightarrow> string" where
  "str_replace c r [] = []"
| "str_replace c r (x # xs) = (if x = c then r else [x]) @ str_replace c r xs"

fun escape_scan :: "string \<Rightarrow> bool \<times> bool \<Rightarrow> bool \<times> bool" where
  "escape_scan [] flags = flags"
| "escape_scan (c # s) (needsEscape, needsBacktickEscape) =
     (if simple_char c then escape_scan s (needsEscape, needsBacktickEscape)
      else escape_scan s (True, needsBacktickEscape \<or> c = CHR ''`''))"

definition Escaped :: "string \<Rightarrow> string" where
  "Escaped t =
     (let (needsEscape, needsBacktickEscape) = escape_scan t (False, False)
      in if needsEscape
         then if needsBacktickEscape then ''`'' @ str_replace (CHR ''`'') ''``'' t @ ''`'' else ''`'' @ t @ ''`''
         else t)"

definition addSpaceEscaped :: "string \<Rightarrow> string" where
  "addSpaceEscaped t = (if CHR '' '' \<in> set t then str_replace (CHR '' '') ''  '' t else t)"

subsection \<open>Descriptors and symbols\<close>

datatype Suffix = UnspecifiedSuffix | NamespaceSuffix | TypeSuffix | TermSuffix | MethodSuffix | TypeParameterSuffix |
  ParameterSuffix | MetaSuffix | LocalSuffix | MacroSuffix

record DescriptorBuilder =
  descr_name :: string
  disambiguator :: string
  suffix :: Suffix

record SymbolBuilder =
  sym_packageId :: PackageId
  descriptors :: "DescriptorBuilder list"

fun formatDescriptor :: "DescriptorBuilder \<Rightarrow> string result" where
  "formatDescriptor d =
     (case suffix d of
        NamespaceSuffix \<Rightarrow> Inr (Escaped (descr_name d) @ ''/'')
      | TypeSuffix \<Rightarrow> Inr (Escaped (descr_name d) @ ''#'')
      | TermSuffix \<Rightarrow> Inr (Escaped (descr_name d) @ ''.'')
      | MetaSuffix \<Rightarrow> Inr (Escaped (descr_name d) @ '':'')
      | MethodSuffix \<Rightarrow> Inr (Escaped (descr_name d) @ ''('' @ Escaped (disambiguator d) @ '').'')
      | TypeParameterSuffix \<Rightarrow> Inr (''['' @ Escaped (descr_name d) @ '']'')
      | ParameterSuffix \<Rightarrow> Inr (''('' @ Escaped (descr_name d) @ '')'')
      | MacroSuffix \<Rightarrow> Inr (Escaped (descr_name d) @ ''!'')
      | _ \<Rightarrow> Inl (EnforceFailed ''unknown descriptor suffix''))"

fun formatDescriptors :: "DescriptorBuilder list \<Rightarrow> string \<Rightarrow> string result" where
  "formatDescriptors [] out = Inr out"
| "formatDescriptors (d # ds) out = rbind (formatDescriptor d) (\<lambda>s. formatDescriptors ds (out @ s))"

definition formatPackage :: "PackageId \<Rightarrow> string" where
  "formatPackage p = ''cxx . '' @ (if pkg_name p = [] then ''. '' else addSpaceEscaped (pkg_name p) @ '' '') @
     (if pkg_version p \<noteq> [] then addSpaceEscaped (pkg_version p) else []) @ ''$ ''"

definition formatSymbol :: "SymbolBuilder \<Rightarrow> string result" where
  "formatSymbol b = formatDescriptors (descriptors b) (formatPackage (sym_packageId b))"

definition formatContextual :: "SymbolNameRef \<Rightarrow> DescriptorBuilder \<Rightarrow> SymbolNameRef result" where
  "formatContextual contextSymbol d = rbind (formatDescriptor d) (\<lambda>s. Inr (contextSymbol @ s))"

definition formatLocal :: "32 word \<Rightarrow> SymbolNameRef" where
  "formatLocal counter = ''local '' @ fmt_nat (unat counter)"

text \<open>\<^verbatim>\<open>{:x}\<close>: the hexadecimal digits of a number.\<close>

definition hex_char :: "nat \<Rightarrow> char" where
  "hex_char d = (if d < 10 then digit_char d else char_of (87 + d))"

fun fmt_hex_nat :: "nat \<Rightarrow> string" where
  "fmt_hex_nat n = (if n < 16 then [hex_char n] else fmt_hex_nat (n div 16) @ [hex_char (n mod 16)])"

declare fmt_hex_nat.simps [simp del]

definition fmt_hex :: "64 word \<Rightarrow> string" where
  "fmt_hex w = fmt_hex_nat (unat w)"

subsection \<open>Reading the text back\<close>

text \<open>A reader of the grammar of symbols, as the SCIP protocol describes it.\<close>

fun unquote :: "string \<Rightarrow> (string \<times> string) option" where
  "unquote [] = None"
| "unquote [c] = (if c = CHR ''`'' then Some ([], []) else None)"
| "unquote (c # c' # s) =
     (if c = CHR ''`''
      then if c' = CHR ''`'' then map_option (map_prod ((#) c) id) (unquote s) else Some ([], c' # s)
      else map_option (map_prod ((#) c) id) (unquote (c' # s)))"

definition read_identifier :: "string \<Rightarrow> (string \<times> string) option" where
  "read_identifier s =
     (if s \<noteq> [] \<and> hd s = CHR ''`'' then unquote (tl s) else Some (takeWhile simple_char s, dropWhile simple_char s))"

definition expect :: "string \<Rightarrow> 'a \<Rightarrow> string \<Rightarrow> ('a \<times> string) option" where
  "expect t x s = (if starts_with s t then Some (x, drop (length t) s) else None)"

definition read_tail :: "string \<Rightarrow> string \<Rightarrow> (DescriptorBuilder \<times> string) option" where
  "read_tail n s =
     (case s of
        [] \<Rightarrow> None
      | c # r \<Rightarrow>
          if c = CHR ''/'' then Some (\<lparr>descr_name = n, disambiguator = [], suffix = NamespaceSuffix\<rparr>, r)
          else if c = CHR ''#'' then Some (\<lparr>descr_name = n, disambiguator = [], suffix = TypeSuffix\<rparr>, r)
          else if c = CHR ''.'' then Some (\<lparr>descr_name = n, disambiguator = [], suffix = TermSuffix\<rparr>, r)
          else if c = CHR '':'' then Some (\<lparr>descr_name = n, disambiguator = [], suffix = MetaSuffix\<rparr>, r)
          else if c = CHR ''!'' then Some (\<lparr>descr_name = n, disambiguator = [], suffix = MacroSuffix\<rparr>, r)
          else if c = CHR ''('' then Option.bind (read_identifier r) (\<lambda>(d, r').
            expect '').'' \<lparr>descr_name = n, disambiguator = d, suffix = MethodSuffix\<rparr> r')
          else None)"

definition read_descriptor :: "string \<Rightarrow> (DescriptorBuilder \<times> string) option" where
  "read_descriptor s =
     (if starts_with s ''['' then Option.bind (read_identifier (tl s)) (\<lambda>(n, r).
        expect '']'' \<lparr>descr_name = n, disambiguator = [], suffix = TypeParameterSuffix\<rparr> r)
      else if starts_with s ''('' then Option.bind (read_identifier (tl s)) (\<lambda>(n, r).
        expect '')'' \<lparr>descr_name = n, disambiguator = [], suffix = ParameterSuffix\<rparr> r)
      else Option.bind (read_identifier s) (\<lambda>(n, r). read_tail n r))"

text \<open>Every descriptor takes a character at least, so the length of the text is enough fuel.\<close>

fun read_descriptors :: "nat \<Rightarrow> string \<Rightarrow> DescriptorBuilder list option" where
  "read_descriptors fuel [] = Some []"
| "read_descriptors 0 (c # s) = None"
| "read_descriptors (Suc fuel) (c # s) =
     Option.bind (read_descriptor (c # s)) (\<lambda>(d, r). map_option ((#) d) (read_descriptors fuel r))"

definition read_package :: "string \<Rightarrow> PackageId" where
  "read_package s =
     (let n = takeWhile (\<lambda>c. c \<noteq> CHR '' '') s; v = drop (Suc (length n)) s
      in if n = ''.'' \<and> v = [] then \<lparr>pkg_name = [], pkg_version = []\<rparr> else \<lparr>pkg_name = n, pkg_version = v\<rparr>)"

definition read_symbol :: "string \<Rightarrow> SymbolBuilder option" where
  "read_symbol s =
     (if starts_with s ''cxx . '' then
        Option.bind (getPackageAgnosticSuffix s) (\<lambda>sfx. map_option (\<lambda>ds.
          \<lparr>sym_packageId = read_package (drop 6 (take (length s - length sfx - 2) s)), descriptors = ds\<rparr>)
            (read_descriptors (length sfx) sfx))
      else None)"

lemma escape_scan_eq:
  "escape_scan t (e, b) = (e \<or> \<not> list_all simple_char t, b \<or> CHR ''`'' \<in> set t)"
proof (induction t arbitrary: e b)
  case (Cons c t)
  have "\<not> simple_char (CHR ''`'')" by (simp add: simple_char_def less_eq_char_def)
  with Cons show ?case by auto
qed simp

lemma str_replace_absent: "c \<notin> set t \<Longrightarrow> str_replace c r t = t"
  by (induction t) auto

lemma Escaped_eq: "Escaped t = (if list_all simple_char t then t else ''`'' @ str_replace (CHR ''`'') ''``'' t @ ''`'')"
  by (simp add: Escaped_def escape_scan_eq str_replace_absent)

lemma unquote_backtick: "unquote (CHR ''`'' # CHR ''`'' # s) = map_option (map_prod ((#) (CHR ''`'')) id) (unquote s)"
  by (cases s) simp_all

lemma unquote_replaced:
  assumes "rest = [] \<or> hd rest \<noteq> CHR ''`''"
  shows "unquote (str_replace (CHR ''`'') ''``'' t @ CHR ''`'' # rest) = Some (t, rest)"
proof (induction t)
  case Nil
  then show ?case using assms by (cases rest) auto
next
  case (Cons c t)
  let ?r = "str_replace (CHR ''`'') ''``'' t @ CHR ''`'' # rest"
  show ?case
  proof (cases "c = CHR ''`''")
    case True
    with Cons show ?thesis by (simp add: unquote_backtick del: unquote.simps)
  next
    case False
    obtain c' s where "?r = c' # s" by (cases ?r) auto
    with False Cons show ?thesis by simp
  qed
qed

lemma read_identifier_Escaped:
  assumes "rest = [] \<or> (hd rest \<noteq> CHR ''`'' \<and> \<not> simple_char (hd rest))"
  shows "read_identifier (Escaped t @ rest) = Some (t, rest)"
proof (cases "list_all simple_char t")
  case True
  have "\<not> simple_char (CHR ''`'')" by (simp add: simple_char_def less_eq_char_def)
  with True have "\<not> (t @ rest \<noteq> [] \<and> hd (t @ rest) = CHR ''`'')" using assms by (cases t) auto
  moreover have "takeWhile simple_char (t @ rest) = t" "dropWhile simple_char (t @ rest) = rest"
    using True assms by (cases rest; simp add: takeWhile_append2 dropWhile_append2 list_all_iff)+
  ultimately show ?thesis using True unfolding read_identifier_def Escaped_eq by auto
next
  case False
  then show ?thesis using unquote_replaced [of rest t] assms by (auto simp: read_identifier_def Escaped_eq)
qed

subsection \<open>Descriptors\<close>

definition descr_ok :: "DescriptorBuilder \<Rightarrow> bool" where
  "descr_ok d \<longleftrightarrow> suffix d \<noteq> UnspecifiedSuffix \<and> suffix d \<noteq> LocalSuffix \<and>
     (if suffix d = MethodSuffix then descr_name d \<noteq> [] else disambiguator d = [])"

definition descr_text :: "DescriptorBuilder \<Rightarrow> string" where
  "descr_text d = (case formatDescriptor d of Inl e \<Rightarrow> [] | Inr s \<Rightarrow> s)"

lemma formatDescriptor_ok: "descr_ok d \<Longrightarrow> formatDescriptor d = Inr (descr_text d) \<and> descr_text d \<noteq> []"
  by (cases "suffix d") (simp_all add: descr_ok_def descr_text_def)

lemma formatDescriptors_ok: "list_all descr_ok ds \<Longrightarrow> formatDescriptors ds out = Inr (out @ concat (map descr_text ds))"
proof (induction ds arbitrary: out)
  case (Cons d ds)
  with formatDescriptor_ok [of d] show ?case by (simp del: formatDescriptor.simps)
qed simp

lemma Escaped_first:
  assumes "t \<noteq> [] \<or> s \<noteq> []"
  shows "hd (Escaped t @ s) = (if t = [] then hd s else if list_all simple_char t then hd t else CHR ''`'')"
  using assms by (auto simp: Escaped_eq)

lemma not_bracket:
  assumes "t = [] \<longrightarrow> s \<noteq> [] \<and> hd s \<noteq> b" "b \<in> {CHR ''['', CHR ''(''}"
  shows "\<not> starts_with (Escaped t @ s) [b]"
proof -
  have "\<not> simple_char b" "b \<noteq> CHR ''`''" using assms(2) by (auto simp: simple_char_def less_eq_char_def)
  then have "hd (Escaped t @ s) \<noteq> b" using assms(1) by (subst Escaped_first) (cases t; auto)+
  then show ?thesis by (cases "Escaped t @ s") (auto simp: starts_with_def)
qed

lemma read_prefixed:
  assumes "\<not> simple_char c" "c \<noteq> CHR ''`''" "t = [] \<longrightarrow> c \<noteq> CHR ''('' \<and> c \<noteq> CHR ''[''"
  shows "read_descriptor (Escaped t @ c # s) = read_tail t (c # s)"
proof -
  have "read_identifier (Escaped t @ c # s) = Some (t, c # s)" using assms by (intro read_identifier_Escaped) simp
  moreover have "\<not> starts_with (Escaped t @ c # s) ''(''" "\<not> starts_with (Escaped t @ c # s) ''[''"
    using assms(3) by (intro not_bracket; simp)+
  ultimately show ?thesis by (simp add: read_descriptor_def)
qed

lemma read_descriptor_text:
  assumes "descr_ok d"
  shows "read_descriptor (descr_text d @ s) = Some (d, s)"
proof -
  have chars: "\<not> simple_char c \<and> c \<noteq> CHR ''`''" if "c \<in> set ''/#.:!()[]''" for c
    using that by (auto simp: simple_char_def less_eq_char_def)
  note ident = read_identifier_Escaped [of "_ # _"]
  obtain n m x where d: "d = \<lparr>descr_name = n, disambiguator = m, suffix = x\<rparr>" by (cases d) auto
  have paren: "read_identifier (Escaped m @ CHR '')'' # s') = Some (m, CHR '')'' # s')" for m s'
    by (rule ident) (use chars [of "CHR '')''"] in simp)
  have bracket: "read_identifier (Escaped m @ CHR '']'' # s') = Some (m, CHR '']'' # s')" for m s'
    by (rule ident) (use chars [of "CHR '']''"] in simp)
  show ?thesis
  proof (cases x)
    case MethodSuffix
    then have "n \<noteq> []" using assms d by (simp add: descr_ok_def)
    then have "read_descriptor (descr_text d @ s) = read_tail n (CHR ''('' # Escaped m @ '').'' @ s)"
      using read_prefixed [of "CHR ''(''" n] chars [of "CHR ''(''"] d MethodSuffix by (simp add: descr_text_def)
    then show ?thesis using paren d MethodSuffix by (simp add: read_tail_def expect_def starts_with_def)
  next
    case TypeParameterSuffix
    then show ?thesis using bracket assms d by (simp add: descr_text_def descr_ok_def read_descriptor_def expect_def starts_with_def)
  next
    case ParameterSuffix
    then show ?thesis using paren assms d by (simp add: descr_text_def descr_ok_def read_descriptor_def expect_def starts_with_def)
  qed (use assms d chars in \<open>simp_all add: descr_text_def descr_ok_def read_prefixed read_tail_def\<close>)
qed

lemma read_descriptors_text:
  "list_all descr_ok ds \<Longrightarrow> length ds \<le> fuel \<Longrightarrow> read_descriptors fuel (concat (map descr_text ds)) = Some ds"
proof (induction ds arbitrary: fuel)
  case (Cons d ds)
  then obtain f where f: "fuel = Suc f" by (cases fuel) auto
  have "concat (map descr_text (d # ds)) \<noteq> []" using formatDescriptor_ok [of d] Cons.prems by simp
  then obtain c s where "concat (map descr_text (d # ds)) = c # s" by (meson list.exhaust)
  with read_descriptor_text [of d "concat (map descr_text ds)"] Cons f show ?case by simp
qed simp

lemma descr_texts_length: "list_all descr_ok ds \<Longrightarrow> length ds \<le> length (concat (map descr_text ds))"
proof (induction ds)
  case (Cons d ds)
  have "descr_text d \<noteq> []" using formatDescriptor_ok [of d] Cons.prems by simp
  with Cons show ?case by (cases "descr_text d") auto
qed simp

subsection \<open>Packages\<close>

text \<open>A package as the package map has it, or none.\<close>

definition package_ok :: "PackageId \<Rightarrow> bool" where
  "package_ok p \<longleftrightarrow> p = \<lparr>pkg_name = [], pkg_version = []\<rparr> \<or>
     (pkg_name p \<noteq> [] \<and> checkValid (pkg_name p) \<and> pkg_version p \<noteq> [] \<and> checkValid (pkg_version p))"

lemma checkValid_chars: "checkValid s \<Longrightarrow> CHR '' '' \<notin> set s \<and> CHR ''$'' \<notin> set s"
proof (induction s)
  case (Cons c s)
  have "\<not> checkValid [CHR '' '']" "\<not> checkValid [CHR ''$'']" by (simp_all add: less_eq_char_def)
  with Cons show ?case by (auto split: if_splits)
qed simp

lemma formatPackage_eq:
  assumes "package_ok p"
  obtains pkg where "formatPackage p = pkg @ ''$ ''" "CHR ''$'' \<notin> set pkg" "starts_with pkg ''cxx . ''"
    "read_package (drop 6 pkg) = p"
proof (cases "pkg_name p = []")
  case True
  then have "p = \<lparr>pkg_name = [], pkg_version = []\<rparr>" using assms by (auto simp: package_ok_def)
  then show thesis
    by (intro that [of "''cxx . . ''"]) (simp_all add: formatPackage_def starts_with_def read_package_def)
next
  case False
  with assms have v: "checkValid (pkg_name p)" "pkg_version p \<noteq> []" "checkValid (pkg_version p)" by (auto simp: package_ok_def)
  note chars = checkValid_chars [OF v(1)] checkValid_chars [OF v(3)]
  let ?n = "pkg_name p" and ?v = "pkg_version p"
  let ?pkg = "''cxx . '' @ ?n @ '' '' @ ?v"
  have "takeWhile (\<lambda>c. c \<noteq> CHR '' '') (?n @ CHR '' '' # ?v) = ?n"
    using chars by (subst takeWhile_append2) auto
  then have "read_package (drop 6 ?pkg) = p" using v(2) by (simp add: read_package_def Let_def)
  moreover have "formatPackage p = ?pkg @ ''$ ''" using chars False v(2) by (simp add: formatPackage_def addSpaceEscaped_def)
  ultimately show thesis using chars by (intro that [of ?pkg]) (auto simp: starts_with_def)
qed

definition symbol_builder_ok :: "SymbolBuilder \<Rightarrow> bool" where
  "symbol_builder_ok b \<longleftrightarrow> package_ok (sym_packageId b) \<and> list_all descr_ok (descriptors b)"

lemma formatSymbol_ok:
  "symbol_builder_ok b \<Longrightarrow> formatSymbol b = Inr (formatPackage (sym_packageId b) @ concat (map descr_text (descriptors b)))"
  by (simp add: formatSymbol_def symbol_builder_ok_def formatDescriptors_ok)

lemma suffix_of_symbol:
  assumes "package_ok p"
  shows "getPackageAgnosticSuffix (formatPackage p @ s) = Some s"
proof -
  obtain pkg where "formatPackage p = pkg @ ''$ ''" "CHR ''$'' \<notin> set pkg" using assms by (rule formatPackage_eq)
  then show ?thesis unfolding suffix_iff by auto
qed

lemma read_symbol_text:
  assumes "symbol_builder_ok b"
  shows "read_symbol (formatPackage (sym_packageId b) @ concat (map descr_text (descriptors b))) = Some b"
proof -
  let ?s = "concat (map descr_text (descriptors b))"
  have ok: "package_ok (sym_packageId b)" "list_all descr_ok (descriptors b)" using assms by (simp_all add: symbol_builder_ok_def)
  obtain pkg where pkg: "formatPackage (sym_packageId b) = pkg @ ''$ ''" "starts_with pkg ''cxx . ''"
      "read_package (drop 6 pkg) = sym_packageId b"
    using ok(1) by (rule formatPackage_eq)
  have "getPackageAgnosticSuffix (pkg @ ''$ '' @ ?s) = Some ?s" using suffix_of_symbol [OF ok(1), of ?s] pkg(1) by simp
  moreover have "read_descriptors (length ?s) ?s = Some (descriptors b)"
    by (rule read_descriptors_text [OF ok(2) descr_texts_length [OF ok(2)]])
  moreover have "starts_with (pkg @ ''$ '' @ ?s) ''cxx . ''" using pkg(2) by (auto simp: starts_with_iff)
  moreover have "take (length (pkg @ ''$ '' @ ?s) - length ?s - 2) (pkg @ ''$ '' @ ?s) = pkg" by simp
  ultimately show ?thesis using pkg(1,3) by (simp add: read_symbol_def)
qed

text \<open>
  C26: The text of a symbol determines the symbol. For a package that the package map accepts, or
  none, and descriptors of the known kinds, where a method has a name, formatting does not fail,
  reading the text by the grammar of symbols gives package and descriptors back, whatever
  characters the names have, and the part of the text that does not depend on the package is
  the text of the descriptors.
\<close>

theorem symbol_text_roundtrip:
  assumes "symbol_builder_ok b"
  shows "\<exists>s. formatSymbol b = Inr s \<and> read_symbol s = Some b \<and>
    getPackageAgnosticSuffix s = Some (concat (map descr_text (descriptors b)))"
  using formatSymbol_ok [OF assms] read_symbol_text [OF assms] suffix_of_symbol [of "sym_packageId b"] assms
  by (simp add: symbol_builder_ok_def)

theorem symbol_text_roundtrip_witness:
  "\<exists>s. formatSymbol \<lparr>sym_packageId = \<lparr>pkg_name = ''lib.a'', pkg_version = ''1.2''\<rparr>,
      descriptors = [\<lparr>descr_name = ''std'', disambiguator = [], suffix = NamespaceSuffix\<rparr>,
        \<lparr>descr_name = ''operator`'', disambiguator = ''9f'', suffix = MethodSuffix\<rparr>]\<rparr> = Inr s \<and>
    read_symbol s = Some \<lparr>sym_packageId = \<lparr>pkg_name = ''lib.a'', pkg_version = ''1.2''\<rparr>,
      descriptors = [\<lparr>descr_name = ''std'', disambiguator = [], suffix = NamespaceSuffix\<rparr>,
        \<lparr>descr_name = ''operator`'', disambiguator = ''9f'', suffix = MethodSuffix\<rparr>]\<rparr>"
proof -
  let ?b = "\<lparr>sym_packageId = \<lparr>pkg_name = ''lib.a'', pkg_version = ''1.2''\<rparr>,
      descriptors = [\<lparr>descr_name = ''std'', disambiguator = [], suffix = NamespaceSuffix\<rparr>,
        \<lparr>descr_name = ''operator`'', disambiguator = ''9f'', suffix = MethodSuffix\<rparr>]\<rparr>"
  have "checkValid ''lib.a''" "checkValid ''1.2''" by (simp_all add: less_eq_char_def)
  then have "symbol_builder_ok ?b" by (simp add: symbol_builder_ok_def package_ok_def descr_ok_def)
  from symbol_text_roundtrip [OF this] show ?thesis by blast
qed

text \<open>The text of a hash value fits the buffer of sixteen characters.\<close>

lemma fmt_hex_nat_length: "n < 16 ^ Suc k \<Longrightarrow> length (fmt_hex_nat n) \<le> Suc k"
proof (induction k arbitrary: n)
  case (Suc k)
  then have "n div 16 < 16 ^ Suc k" by (simp add: less_mult_imp_div_less mult.commute)
  from Suc.IH [OF this] show ?case by (subst fmt_hex_nat.simps) simp
qed (subst fmt_hex_nat.simps, simp)

lemma fmt_hex_fits: "length (fmt_hex w) \<le> 16"
proof -
  have "unat w < 16 ^ Suc 15" by (rule order_less_le_trans [OF unsigned_less]) simp
  then show ?thesis using fmt_hex_nat_length [of "unat w" 15] by (simp add: fmt_hex_def)
qed

end
