(* ===== verification/Symbol_Formatter.thy ===== *)
theory Symbol_Formatter
  imports Symbol_Format
begin

text \<open>
  The symbols of declarations and macros: \<^verbatim>\<open>SymbolFormatter\<close> of indexer/SymbolFormatter.h and
  indexer/SymbolFormatter.cc, with the list of declarations of indexer/ClangAstMacros.h.

  A declaration of Clang's syntax tree is a value with its address, its class, its printed
  name, its location and its declaration context, so that the chain of contexts ends in the
  translation unit. What else the code asks Clang about a declaration or a location is a field
  of \<open>clang_api\<close>, indexed by the address.
\<close>

subsection \<open>Declarations\<close>

type_synonym SourceLocation = "32 word"

definition loc_isInvalid :: "SourceLocation \<Rightarrow> bool" where
  "loc_isInvalid l \<longleftrightarrow> l = 0"

datatype VarKind = Decomposition | ParmVar | VarTemplatePartialSpecialization | VarTemplateSpecialization | PlainVar |
  OMPCapturedExpr | OtherVar

datatype DeclKind = TranslationUnitDecl | ExternCContextDecl | BindingDecl | ClassTemplateDecl | EnumConstantDecl | EnumDecl |
  FieldDecl | FunctionDecl | FunctionTemplateDecl | NamespaceDecl | NonTypeTemplateParmDecl | RecordDecl |
  TemplateTemplateParmDecl | TemplateTypeParmDecl | TypeAliasTemplateDecl | TypedefNameDecl | UsingShadowDecl | UsingDecl |
  VarDecl VarKind | VarTemplateDecl | OtherTypeDecl | OtherDecl

datatype Decl = Decl (decl_ptr: nat) (decl_kind: DeclKind) (decl_name: string) (decl_location: SourceLocation)
  (decl_context: "Decl option")

record PresumedLoc =
  pl_fileID :: FileID
  pl_filename :: string
  pl_line :: "32 word"
  pl_column :: "32 word"

record clang_api =
  getFileID :: "SourceLocation \<Rightarrow> FileID"
  getExpansionLoc :: "SourceLocation \<Rightarrow> SourceLocation"
  getPresumedLoc :: "SourceLocation \<Rightarrow> bool \<Rightarrow> PresumedLoc option"
  getMainFileID :: FileID
  getSpellingLoc :: "SourceLocation \<Rightarrow> SourceLocation"
  isFileID :: "SourceLocation \<Rightarrow> bool"
  tryGetRealPathName :: "FileID \<Rightarrow> string option"
  describeSLocEntry :: "FileID \<Rightarrow> string"
  getDefinitionLoc :: "nat \<Rightarrow> SourceLocation"
  isBuiltinMacro :: "nat \<Rightarrow> bool"
  getCanonicalDecl :: "nat \<Rightarrow> nat"
  getDefinition :: "nat \<Rightarrow> Decl option"
  getTemplatedDecl :: "nat \<Rightarrow> Decl"
  getUnderlyingDecl :: "nat \<Rightarrow> Decl option"
  isScoped :: "nat \<Rightarrow> bool"
  isLocalVarDeclOrParm :: "nat \<Rightarrow> bool"
  isLocalExternDecl :: "nat \<Rightarrow> bool"
  isTemplateInstantiation :: "nat \<Rightarrow> bool"
  getInstantiatedFromMemberFunction :: "nat \<Rightarrow> nat option"
  getSpecializedTemplate :: "nat \<Rightarrow> nat option"
  getInstantiatedFromMemberTemplate :: "nat \<Rightarrow> nat option"
  getTemplatedFunction :: "nat \<Rightarrow> nat"
  getTypeString :: "nat \<Rightarrow> string"

definition isa_TagDecl :: "Decl \<Rightarrow> bool" where
  "isa_TagDecl d \<longleftrightarrow> decl_kind d = RecordDecl \<or> decl_kind d = EnumDecl"

definition isa_TypeDecl :: "Decl \<Rightarrow> bool" where
  "isa_TypeDecl d \<longleftrightarrow> isa_TagDecl d \<or> decl_kind d \<in> {TypedefNameDecl, TemplateTypeParmDecl, OtherTypeDecl}"

subsection \<open>State\<close>

record SymbolFormatter =
  sfm_fileMetadataMap :: FileMetadataMap
  locationBasedCache :: "(SourceLocation \<times> SymbolNameRef) list"
  namespacePrefixCache :: "((nat option \<times> FileID) \<times> SymbolNameRef) list"
  declBasedCache :: "(nat \<times> SymbolNameRef) list"
  fileSymbolCache :: "(StableFileId \<times> SymbolNameRef) list"
  anonymousTypeCounters :: "(FileID \<times> 32 word) list"
  localVariableCounters :: "(FileID \<times> 32 word) list"

type_synonym symbol_query = "SymbolFormatter \<Rightarrow> (SymbolNameRef option \<times> SymbolFormatter) result"

definition mkSymbolFormatter :: "FileMetadataMap \<Rightarrow> SymbolFormatter" where
  "mkSymbolFormatter fmm = \<lparr>sfm_fileMetadataMap = fmm, locationBasedCache = [], namespacePrefixCache = [], declBasedCache = [],
     fileSymbolCache = [], anonymousTypeCounters = [], localVariableCounters = []\<rparr>"

text \<open>\<^verbatim>\<open>counters[{fileId}]++\<close>: the old value, zero for a new key.\<close>

definition counter_of :: "(FileID \<times> 32 word) list \<Rightarrow> FileID \<Rightarrow> 32 word" where
  "counter_of m f = (case map_of m f of None \<Rightarrow> 0 | Some n \<Rightarrow> n)"

definition counter_next :: "FileID \<Rightarrow> (FileID \<times> 32 word) list \<Rightarrow> (FileID \<times> 32 word) list" where
  "counter_next f m = hmap_update f (counter_of m f + 1) m"

definition formatNamed :: "SymbolNameRef option \<Rightarrow> DescriptorBuilder \<Rightarrow> SymbolFormatter \<Rightarrow> (SymbolNameRef option \<times> SymbolFormatter) result" where
  "formatNamed optContextSymbol d F =
     (case optContextSymbol of
        None \<Rightarrow> Inr (None, F)
      | Some c \<Rightarrow> rbind (formatContextual c d) (\<lambda>s. Inr (Some s, F)))"

subsection \<open>Caches\<close>

definition getMacroSymbol :: "clang_api \<Rightarrow> SourceLocation \<Rightarrow> SymbolFormatter \<Rightarrow> (SymbolNameRef \<times> SymbolFormatter) result" where
  "getMacroSymbol A defLoc F =
     (case map_of (locationBasedCache F) defLoc of
        Some s \<Rightarrow> Inr (s, F)
      | None \<Rightarrow>
         (case getPresumedLoc A defLoc False of
            None \<Rightarrow> Inl (EnforceFailed ''defPLoc.isValid()'')
          | Some pl \<Rightarrow>
              let (filepath, pkg) = (case getFileMetadata (sfm_fileMetadataMap F) (pl_fileID pl) of
                    Some md \<Rightarrow> (rel_value (sf_path (stableFileId md)), packageId md)
                  | None \<Rightarrow> (pl_filename pl, \<lparr>pkg_name = [], pkg_version = []\<rparr>));
                  n = filepath @ '':'' @ fmt_nat (unat (pl_line pl)) @ '':'' @ fmt_nat (unat (pl_column pl))
              in rbind (formatSymbol \<lparr>sym_packageId = pkg, descriptors = [\<lparr>descr_name = n, disambiguator = [], suffix = MacroSuffix\<rparr>]\<rparr>) (\<lambda>symbol.
                   Inr (symbol, F\<lparr>locationBasedCache := hmap_emplace defLoc symbol (locationBasedCache F)\<rparr>))))"

definition getFileSymbol :: "FileMetadata \<Rightarrow> SymbolFormatter \<Rightarrow> (SymbolNameRef \<times> SymbolFormatter) result" where
  "getFileSymbol md F =
     (case map_of (fileSymbolCache F) (stableFileId md) of
        Some s \<Rightarrow> Inr (s, F)
      | None \<Rightarrow>
          rbind (formatSymbol \<lparr>sym_packageId = packageId md, descriptors =
              [\<lparr>descr_name = ''<file>/'' @ rel_value (sf_path (stableFileId md)), disambiguator = [], suffix = NamespaceSuffix\<rparr>]\<rparr>) (\<lambda>symbol.
            Inr (symbol, F\<lparr>fileSymbolCache := hmap_emplace (stableFileId md) symbol (fileSymbolCache F)\<rparr>)))"

definition getSymbolCached :: "clang_api \<Rightarrow> Decl \<Rightarrow> symbol_query \<Rightarrow> symbol_query" where
  "getSymbolCached A d getSymbol F =
     (let canonicalDecl = getCanonicalDecl A (decl_ptr d)
      in case map_of (declBasedCache F) canonicalDecl of
           Some s \<Rightarrow> Inr (Some s, F)
         | None \<Rightarrow>
             rbind (getSymbol F) (\<lambda>(optSymbol, F1).
               case optSymbol of
                 None \<Rightarrow> Inr (None, F1)
               | Some s \<Rightarrow>
                   enforcing (s \<noteq> []) ''forgot to use nullopt to signal failure in computing symbol name''
                   (enforcing (map_of (declBasedCache F1) canonicalDecl = None) ''inserted''
                     (Inr (Some s, F1\<lparr>declBasedCache := hmap_emplace canonicalDecl s (declBasedCache F1)\<rparr>)))))"

definition getSymbolCachedInFile :: "clang_api \<Rightarrow> nat option \<Rightarrow> SourceLocation \<Rightarrow> symbol_query \<Rightarrow> symbol_query" where
  "getSymbolCachedInFile A ptr loc getSymbol F =
     (let key = (map_option (getCanonicalDecl A) ptr, getFileID A loc)
      in case map_of (namespacePrefixCache F) key of
           Some s \<Rightarrow> Inr (Some s, F)
         | None \<Rightarrow>
             rbind (getSymbol F) (\<lambda>(optSymbol, F1).
               case optSymbol of
                 None \<Rightarrow> Inr (None, F1)
               | Some s \<Rightarrow>
                   enforcing (s \<noteq> []) ''forgot to use nullopt to signal failure in compute symbol name''
                   (enforcing (map_of (namespacePrefixCache F1) key = None) ''inserted''
                     (Inr (Some s, F1\<lparr>namespacePrefixCache := hmap_emplace key s (namespacePrefixCache F1)\<rparr>)))))"

subsection \<open>Symbols of contexts\<close>

definition getLocationBasedSymbolPrefix :: "clang_api \<Rightarrow> SourceLocation \<Rightarrow> symbol_query" where
  "getLocationBasedSymbolPrefix A loc F =
     (if loc_isInvalid loc then Inr (None, F)
      else getSymbolCachedInFile A None loc (\<lambda>F1.
             case getFileMetadata (sfm_fileMetadataMap F1) (getFileID A loc) of
               None \<Rightarrow> Inr (None, F1)
             | Some md \<Rightarrow> rbind (formatSymbol \<lparr>sym_packageId = packageId md, descriptors = []\<rparr>) (\<lambda>s. Inr (Some s, F1))) F)"

definition namespaceName :: "clang_api \<Rightarrow> FileMetadataMap \<Rightarrow> Decl \<Rightarrow> string result" where
  "namespaceName A fmm d =
     (if decl_name d = [] then
        enforcing (fid_isValid (getMainFileID A)) ''mainFileId.isValid()''
          (case getStableFileId fmm (getMainFileID A) of
             None \<Rightarrow> Inl (EnforceFailed ''main file always has a valid StableFileId'')
           | Some sf \<Rightarrow> Inr (''$anonymous_namespace_'' @ rel_value (sf_path sf)))
      else Inr (decl_name d))"

text \<open>
  The functions that call \<^verbatim>\<open>getContextSymbol\<close> get the query for the symbol of their context as an
  argument; \<open>getContextSymbol\<close> below closes the recursion over the chain of contexts.
\<close>

definition namespaceSymbolIn :: "clang_api \<Rightarrow> (SourceLocation \<Rightarrow> symbol_query) \<Rightarrow> Decl \<Rightarrow> SourceLocation \<Rightarrow> symbol_query" where
  "namespaceSymbolIn A contextSymbol d loc = getSymbolCachedInFile A (Some (decl_ptr d)) loc (\<lambda>F.
     rbind (contextSymbol loc F) (\<lambda>(optContextSymbol, F1).
       case optContextSymbol of
         None \<Rightarrow> Inr (None, F1)
       | Some c \<Rightarrow> rbind (namespaceName A (sfm_fileMetadataMap F1) d) (\<lambda>n.
           formatNamed (Some c) \<lparr>descr_name = n, disambiguator = [], suffix = NamespaceSuffix\<rparr> F1)))"

definition anonymousTypeName :: "wyhash \<Rightarrow> FileMetadataMap \<Rightarrow> Decl \<Rightarrow> FileID \<Rightarrow> 32 word \<Rightarrow> string" where
  "anonymousTypeName wyhash fmm definitionTagDecl defFileId counter =
     (let plain = ''$anonymous_type_'' @ fmt_nat (unat counter)
      in if (case decl_context definitionTagDecl of None \<Rightarrow> False | Some c \<Rightarrow> decl_kind c \<in> {NamespaceDecl, TranslationUnitDecl})
         then case getStableFileId fmm defFileId of
                Some sf \<Rightarrow> ''$anonymous_type_'' @ fmt_hex (forText wyhash (rel_value (sf_path sf))) @ ''_'' @ fmt_nat (unat counter)
              | None \<Rightarrow> plain
         else plain)"

definition anonymousTagSymbol :: "clang_api \<Rightarrow> wyhash \<Rightarrow> Decl \<Rightarrow> SymbolNameRef \<Rightarrow> symbol_query" where
  "anonymousTagSymbol A wyhash definitionTagDecl contextSymbol F =
     (let defFileId = getFileID A (getExpansionLoc A (decl_location definitionTagDecl));
          counter = counter_of (anonymousTypeCounters F) defFileId;
          F1 = F\<lparr>anonymousTypeCounters := counter_next defFileId (anonymousTypeCounters F)\<rparr>
      in enforcing (fid_isValid defFileId) ''defFileId.isValid()''
           (formatNamed (Some contextSymbol) \<lparr>descr_name = anonymousTypeName wyhash (sfm_fileMetadataMap F1) definitionTagDecl defFileId counter,
              disambiguator = [], suffix = TypeSuffix\<rparr> F1))"

definition tagSymbolIn :: "clang_api \<Rightarrow> wyhash \<Rightarrow> (SourceLocation \<Rightarrow> symbol_query) \<Rightarrow> Decl \<Rightarrow> symbol_query" where
  "tagSymbolIn A wyhash contextSymbol d = getSymbolCached A d (\<lambda>F.
     rbind (contextSymbol (decl_location d) F) (\<lambda>(optContextSymbol, F1).
       case optContextSymbol of
         None \<Rightarrow> Inr (None, F1)
       | Some c \<Rightarrow>
           if decl_name d \<noteq> [] then formatNamed (Some c) \<lparr>descr_name = decl_name d, disambiguator = [], suffix = TypeSuffix\<rparr> F1
           else case getDefinition A (decl_ptr d) of
                  None \<Rightarrow> Inr (None, F1)
                | Some definitionTagDecl \<Rightarrow> anonymousTagSymbol A wyhash definitionTagDecl c F1))"

text \<open>
  The type of a function, for an instance of a template the type before instantiation.
\<close>

definition definingFunction :: "clang_api \<Rightarrow> nat \<Rightarrow> nat" where
  "definingFunction A p =
     (if isTemplateInstantiation A p then
        case getInstantiatedFromMemberFunction A p of
          Some member \<Rightarrow> member
        | None \<Rightarrow>
           (case getSpecializedTemplate A p of
              None \<Rightarrow> p
            | Some template \<Rightarrow>
               (case getInstantiatedFromMemberTemplate A template of
                  Some uninstantiated \<Rightarrow> getTemplatedFunction A uninstantiated
                | None \<Rightarrow> getTemplatedFunction A template))
      else p)"

definition getFunctionDisambiguator :: "clang_api \<Rightarrow> wyhash \<Rightarrow> nat \<Rightarrow> string" where
  "getFunctionDisambiguator A wyhash p = fmt_hex (forText wyhash (getTypeString A (definingFunction A p)))"

definition functionSymbolIn :: "clang_api \<Rightarrow> wyhash \<Rightarrow> (SourceLocation \<Rightarrow> symbol_query) \<Rightarrow> Decl \<Rightarrow> symbol_query" where
  "functionSymbolIn A wyhash contextSymbol d = getSymbolCached A d (\<lambda>F.
     rbind (contextSymbol (decl_location d) F) (\<lambda>(optContextSymbol, F1).
       formatNamed optContextSymbol \<lparr>descr_name = decl_name d,
         disambiguator = getFunctionDisambiguator A wyhash (decl_ptr d), suffix = MethodSuffix\<rparr> F1))"

fun getContextSymbol :: "clang_api \<Rightarrow> wyhash \<Rightarrow> Decl option \<Rightarrow> SourceLocation \<Rightarrow> symbol_query" where
  "getContextSymbol A wyhash None = (\<lambda>loc F. Inl NullDereference)"
| "getContextSymbol A wyhash (Some (Decl p k n l ctx)) =
     (let declContext = Decl p k n l ctx; up = getContextSymbol A wyhash ctx
      in (\<lambda>loc0. let loc = getExpansionLoc A loc0 in
           case k of
             NamespaceDecl \<Rightarrow> namespaceSymbolIn A up declContext loc
           | RecordDecl \<Rightarrow> tagSymbolIn A wyhash up declContext
           | EnumDecl \<Rightarrow> tagSymbolIn A wyhash up declContext
           | TranslationUnitDecl \<Rightarrow> getLocationBasedSymbolPrefix A loc
           | ExternCContextDecl \<Rightarrow> getLocationBasedSymbolPrefix A loc
           | FunctionDecl \<Rightarrow> functionSymbolIn A wyhash up declContext
           | _ \<Rightarrow> (\<lambda>F. Inr (None, F))))"

definition getNamespaceSymbolPrefix :: "clang_api \<Rightarrow> wyhash \<Rightarrow> Decl \<Rightarrow> SourceLocation \<Rightarrow> symbol_query" where
  "getNamespaceSymbolPrefix A wyhash d = namespaceSymbolIn A (getContextSymbol A wyhash (decl_context d)) d"

definition getNamespaceSymbol :: "clang_api \<Rightarrow> wyhash \<Rightarrow> Decl \<Rightarrow> symbol_query" where
  "getNamespaceSymbol A wyhash d = getNamespaceSymbolPrefix A wyhash d (decl_location d)"

definition getTagSymbol :: "clang_api \<Rightarrow> wyhash \<Rightarrow> Decl \<Rightarrow> symbol_query" where
  "getTagSymbol A wyhash d = tagSymbolIn A wyhash (getContextSymbol A wyhash (decl_context d)) d"

definition getRecordSymbol :: "clang_api \<Rightarrow> wyhash \<Rightarrow> Decl \<Rightarrow> symbol_query" where
  "getRecordSymbol A wyhash d = getTagSymbol A wyhash d"

definition getEnumSymbol :: "clang_api \<Rightarrow> wyhash \<Rightarrow> Decl \<Rightarrow> symbol_query" where
  "getEnumSymbol A wyhash d = getTagSymbol A wyhash d"

definition getFunctionSymbol :: "clang_api \<Rightarrow> wyhash \<Rightarrow> Decl \<Rightarrow> symbol_query" where
  "getFunctionSymbol A wyhash d = functionSymbolIn A wyhash (getContextSymbol A wyhash (decl_context d)) d"

subsection \<open>Symbols of other declarations\<close>

definition memberSymbol :: "clang_api \<Rightarrow> wyhash \<Rightarrow> Suffix \<Rightarrow> Decl \<Rightarrow> symbol_query" where
  "memberSymbol A wyhash sfx d F =
     rbind (getContextSymbol A wyhash (decl_context d) (decl_location d) F) (\<lambda>(optContextSymbol, F1).
       formatNamed optContextSymbol \<lparr>descr_name = decl_name d, disambiguator = [], suffix = sfx\<rparr> F1)"

definition getNextLocalSymbol :: "clang_api \<Rightarrow> Decl \<Rightarrow> symbol_query" where
  "getNextLocalSymbol A d F =
     (if decl_name d = [] then Inr (None, F)
      else getSymbolCached A d (\<lambda>F1.
             let defFileId = getFileID A (getExpansionLoc A (decl_location d));
                 counter = counter_of (localVariableCounters F1) defFileId
             in Inr (Some (formatLocal counter),
                     F1\<lparr>localVariableCounters := counter_next defFileId (localVariableCounters F1)\<rparr>)) F)"

definition getBindingSymbol :: "clang_api \<Rightarrow> Decl \<Rightarrow> symbol_query" where
  "getBindingSymbol A d = getNextLocalSymbol A d"

definition getTemplateParmSymbol :: "clang_api \<Rightarrow> Decl \<Rightarrow> symbol_query" where
  "getTemplateParmSymbol A d = getNextLocalSymbol A d"

definition getLocalVarOrParmSymbol :: "clang_api \<Rightarrow> Decl \<Rightarrow> symbol_query" where
  "getLocalVarOrParmSymbol A d F =
     enforcing (isLocalVarDeclOrParm A (decl_ptr d)) ''varDecl.isLocalVarDeclOrParm()'' (getNextLocalSymbol A d F)"

definition getClassTemplateSymbol :: "clang_api \<Rightarrow> wyhash \<Rightarrow> Decl \<Rightarrow> symbol_query" where
  "getClassTemplateSymbol A wyhash d = getRecordSymbol A wyhash (getTemplatedDecl A (decl_ptr d))"

definition getTypedefNameSymbol :: "clang_api \<Rightarrow> wyhash \<Rightarrow> Decl \<Rightarrow> symbol_query" where
  "getTypedefNameSymbol A wyhash d = getSymbolCached A d (memberSymbol A wyhash TypeSuffix d)"

definition getTypeAliasTemplateSymbol :: "clang_api \<Rightarrow> wyhash \<Rightarrow> Decl \<Rightarrow> symbol_query" where
  "getTypeAliasTemplateSymbol A wyhash d = getTypedefNameSymbol A wyhash (getTemplatedDecl A (decl_ptr d))"

definition getEnumConstantSymbol :: "clang_api \<Rightarrow> wyhash \<Rightarrow> Decl \<Rightarrow> symbol_query" where
  "getEnumConstantSymbol A wyhash d = getSymbolCached A d (\<lambda>F.
     case decl_context d of
       None \<Rightarrow> Inl NullDereference
     | Some parent \<Rightarrow>
         enforcing (decl_kind parent = EnumDecl) ''decl context for EnumConstantDecl should be EnumDecl''
           (rbind (if isScoped A (decl_ptr parent) then getEnumSymbol A wyhash parent F
                   else getContextSymbol A wyhash (decl_context parent) (decl_location d) F) (\<lambda>(optContextSymbol, F1).
              formatNamed optContextSymbol \<lparr>descr_name = decl_name d, disambiguator = [], suffix = TermSuffix\<rparr> F1)))"

definition getFunctionTemplateSymbol :: "clang_api \<Rightarrow> wyhash \<Rightarrow> Decl \<Rightarrow> symbol_query" where
  "getFunctionTemplateSymbol A wyhash d = getFunctionSymbol A wyhash (getTemplatedDecl A (decl_ptr d))"

definition getFieldSymbol :: "clang_api \<Rightarrow> wyhash \<Rightarrow> Decl \<Rightarrow> symbol_query" where
  "getFieldSymbol A wyhash d F =
     (if decl_name d = [] then Inr (None, F) else getSymbolCached A d (memberSymbol A wyhash TermSuffix d) F)"

definition getVarSymbol :: "clang_api \<Rightarrow> wyhash \<Rightarrow> Decl \<Rightarrow> symbol_query" where
  "getVarSymbol A wyhash d F =
     (if isLocalVarDeclOrParm A (decl_ptr d) \<and> \<not> isLocalExternDecl A (decl_ptr d) then getLocalVarOrParmSymbol A d F
      else if decl_name d = [] then Inr (None, F)
      else getSymbolCached A d (\<lambda>F1.
             case decl_kind d of
               VarDecl Decomposition \<Rightarrow> Inl (EnforceFailed ''DecompositionDecls require recursive traversal'')
             | VarDecl ParmVar \<Rightarrow> Inl (EnforceFailed ''already handled parameter case earlier'')
             | VarDecl VarTemplatePartialSpecialization \<Rightarrow> memberSymbol A wyhash TermSuffix d F1
             | VarDecl VarTemplateSpecialization \<Rightarrow> memberSymbol A wyhash TermSuffix d F1
             | VarDecl PlainVar \<Rightarrow> memberSymbol A wyhash TermSuffix d F1
             | _ \<Rightarrow> Inr (None, F1)) F)"

definition getVarTemplateSymbol :: "clang_api \<Rightarrow> wyhash \<Rightarrow> Decl \<Rightarrow> symbol_query" where
  "getVarTemplateSymbol A wyhash d = getVarSymbol A wyhash (getTemplatedDecl A (decl_ptr d))"

text \<open>
  The kind of a name that a using declaration brings into scope. The loop of the code goes
  around a second time for an alias template only, whose templated declaration is by its type a
  \<^verbatim>\<open>TypeAliasDecl\<close>, so that two rounds are all there are.
\<close>

definition shadowRound :: "clang_api \<Rightarrow> wyhash \<Rightarrow> Decl \<Rightarrow> (string \<times> Suffix) option" where
  "shadowRound A wyhash d =
     (if decl_kind d = TemplateTypeParmDecl then Some ([], TypeParameterSuffix)
      else if isa_TypeDecl d \<or> decl_kind d = ClassTemplateDecl then Some ([], TypeSuffix)
      else if decl_kind d = NamespaceDecl then Some ([], NamespaceSuffix)
      else case decl_kind d of
             EnumConstantDecl \<Rightarrow> Some ([], TermSuffix)
           | VarDecl _ \<Rightarrow> Some ([], TermSuffix)
           | VarTemplateDecl \<Rightarrow> Some ([], TermSuffix)
           | FunctionDecl \<Rightarrow> Some (getFunctionDisambiguator A wyhash (decl_ptr d), MethodSuffix)
           | FunctionTemplateDecl \<Rightarrow> Some (getFunctionDisambiguator A wyhash (decl_ptr (getTemplatedDecl A (decl_ptr d))), MethodSuffix)
           | _ \<Rightarrow> None)"

definition shadowSuffix :: "clang_api \<Rightarrow> wyhash \<Rightarrow> Decl \<Rightarrow> (string \<times> Suffix) option" where
  "shadowSuffix A wyhash d =
     shadowRound A wyhash (if decl_kind d = TypeAliasTemplateDecl then getTemplatedDecl A (decl_ptr d) else d)"

definition getUsingShadowSymbol :: "clang_api \<Rightarrow> wyhash \<Rightarrow> Decl \<Rightarrow> symbol_query" where
  "getUsingShadowSymbol A wyhash d F =
     (if decl_name d = [] then Inr (None, F)
      else case getUnderlyingDecl A (decl_ptr d) of
             None \<Rightarrow> Inr (None, F)
           | Some canonicalDecl \<Rightarrow>
               getSymbolCached A d (\<lambda>F0.
                 rbind (getContextSymbol A wyhash (decl_context d) (decl_location d) F0) (\<lambda>(optContextSymbol, F1).
                   case optContextSymbol of
                     None \<Rightarrow> Inr (None, F1)
                   | Some c \<Rightarrow>
                      (case shadowSuffix A wyhash canonicalDecl of
                         None \<Rightarrow> Inr (None, F1)
                       | Some (dis, sfx) \<Rightarrow> formatNamed (Some c) \<lparr>descr_name = decl_name d, disambiguator = dis, suffix = sfx\<rparr> F1))) F)"

definition getUsingSymbol :: "Decl \<Rightarrow> symbol_query" where
  "getUsingSymbol d F = Inl (EnforceFailed ''call getUsingShadowSymbol instead'')"

definition getNamedDeclSymbol :: "clang_api \<Rightarrow> wyhash \<Rightarrow> Decl \<Rightarrow> symbol_query" where
  "getNamedDeclSymbol A wyhash d =
     (case decl_kind d of
        BindingDecl \<Rightarrow> getBindingSymbol A d
      | ClassTemplateDecl \<Rightarrow> getClassTemplateSymbol A wyhash d
      | EnumConstantDecl \<Rightarrow> getEnumConstantSymbol A wyhash d
      | EnumDecl \<Rightarrow> getEnumSymbol A wyhash d
      | FieldDecl \<Rightarrow> getFieldSymbol A wyhash d
      | FunctionDecl \<Rightarrow> getFunctionSymbol A wyhash d
      | FunctionTemplateDecl \<Rightarrow> getFunctionTemplateSymbol A wyhash d
      | NamespaceDecl \<Rightarrow> getNamespaceSymbol A wyhash d
      | NonTypeTemplateParmDecl \<Rightarrow> getTemplateParmSymbol A d
      | RecordDecl \<Rightarrow> getRecordSymbol A wyhash d
      | TemplateTemplateParmDecl \<Rightarrow> getTemplateParmSymbol A d
      | TemplateTypeParmDecl \<Rightarrow> getTemplateParmSymbol A d
      | TypeAliasTemplateDecl \<Rightarrow> getTypeAliasTemplateSymbol A wyhash d
      | TypedefNameDecl \<Rightarrow> getTypedefNameSymbol A wyhash d
      | UsingShadowDecl \<Rightarrow> getUsingShadowSymbol A wyhash d
      | UsingDecl \<Rightarrow> getUsingSymbol d
      | VarDecl _ \<Rightarrow> getVarSymbol A wyhash d
      | VarTemplateDecl \<Rightarrow> getVarTemplateSymbol A wyhash d
      | _ \<Rightarrow> (\<lambda>F. Inr (None, F)))"

end
