(* ===== verification/Symbol_Suffixes.thy ===== *)
theory Symbol_Suffixes
  imports Symbol_Formatter
begin

text \<open>
  What the symbols of \<^verbatim>\<open>SymbolFormatter\<close> say about a declaration. The caches are keyed by
  canonical declarations, so the symbol of a declaration may have been made for another
  declaration of the same entity; this theory shows which part of it cannot depend on that, and
  that none of the checks of the formatter fails.
\<close>

subsection \<open>The contract of a cache\<close>

locale symbol_cache =
  fixes key :: "'d \<Rightarrow> 'k"
    and cached :: "'d \<Rightarrow> symbol_query \<Rightarrow> symbol_query"
    and table :: "SymbolFormatter \<Rightarrow> ('k \<times> SymbolNameRef) list"
    and store :: "'k \<Rightarrow> SymbolNameRef \<Rightarrow> SymbolFormatter \<Rightarrow> SymbolFormatter"
  assumes hit: "map_of (table F) (key d) = Some s \<Longrightarrow> cached d q F = Inr (Some s, F)"
    and miss_none: "map_of (table F) (key d) = None \<Longrightarrow> q F = Inr (None, F1) \<Longrightarrow> cached d q F = Inr (None, F1)"
    and miss_some: "map_of (table F) (key d) = None \<Longrightarrow> q F = Inr (Some s, F1) \<Longrightarrow> s \<noteq> [] \<Longrightarrow>
      map_of (table F1) (key d) = None \<Longrightarrow> cached d q F = Inr (Some s, store (key d) s F1)"
    and table_store: "map_of (table F) k = None \<Longrightarrow> map_of (table (store k s F)) = (map_of (table F))(k \<mapsto> s)"
begin

text \<open>
  A query behind a cache keeps what the query and the insertion keep, and what it answers with
  is in the table.
\<close>

lemma cached_ok:
  assumes "I F" "R F F"
    and q: "\<exists>r F1. q F = Inr (r, F1) \<and> I F1 \<and> R F F1 \<and> post r \<and> (map_of (table F) (key d) = None \<longrightarrow> map_of (table F1) (key d) = None)"
    and hit_post: "\<And>s. map_of (table F) (key d) = Some s \<Longrightarrow> post (Some s)"
    and nonempty: "\<And>s. post (Some s) \<Longrightarrow> s \<noteq> []"
    and stored: "\<And>s F1. I F1 \<Longrightarrow> R F F1 \<Longrightarrow> post (Some s) \<Longrightarrow> map_of (table F1) (key d) = None \<Longrightarrow>
      I (store (key d) s F1) \<and> R F (store (key d) s F1)"
  shows "\<exists>r F1. cached d q F = Inr (r, F1) \<and> I F1 \<and> R F F1 \<and> post r \<and> (r \<noteq> None \<longrightarrow> map_of (table F1) (key d) = r)"
proof (cases "map_of (table F) (key d)")
  case (Some s)
  with hit [OF Some, of q] hit_post [OF Some] assms(1,2) show ?thesis by auto
next
  case None
  obtain r F1 where q: "q F = Inr (r, F1)" "I F1" "R F F1" "post r" "map_of (table F1) (key d) = None" using q None by blast
  show ?thesis
  proof (cases r)
    case None
    with miss_none [OF \<open>map_of (table F) (key d) = None\<close>] q show ?thesis by auto
  next
    case (Some s)
    with q nonempty have "cached d q F = Inr (Some s, store (key d) s F1)" by (intro miss_some [OF None]) auto
    with stored [of F1 s] q Some table_store [of F1 "key d" s] show ?thesis by auto
  qed
qed

end

definition declStore :: "nat \<Rightarrow> SymbolNameRef \<Rightarrow> SymbolFormatter \<Rightarrow> SymbolFormatter" where
  "declStore k s F = F\<lparr>declBasedCache := hmap_emplace k s (declBasedCache F)\<rparr>"

definition prefixStore :: "nat option \<times> FileID \<Rightarrow> SymbolNameRef \<Rightarrow> SymbolFormatter \<Rightarrow> SymbolFormatter" where
  "prefixStore k s F = F\<lparr>namespacePrefixCache := hmap_emplace k s (namespacePrefixCache F)\<rparr>"

interpretation decl_cache: symbol_cache "\<lambda>d. getCanonicalDecl A (decl_ptr d)" "getSymbolCached A" declBasedCache declStore for A
  by unfold_locales (auto simp: getSymbolCached_def declStore_def Let_def)

interpretation prefix_cache: symbol_cache "\<lambda>(p, loc). (map_option (getCanonicalDecl A) p, getFileID A loc)"
  "\<lambda>(p, loc). getSymbolCachedInFile A p loc" namespacePrefixCache prefixStore for A
  by unfold_locales (auto simp: getSymbolCachedInFile_def prefixStore_def Let_def split: prod.splits)

subsection \<open>The part of a symbol that does not depend on the package\<close>

definition descr :: "string \<Rightarrow> string \<Rightarrow> Suffix \<Rightarrow> DescriptorBuilder" where
  "descr n dis sfx = \<lparr>descr_name = n, disambiguator = dis, suffix = sfx\<rparr>"

text \<open>
  The descriptors of the chain of contexts. A type without a name has none here, since its
  symbol depends on a counter.
\<close>

fun context_suffix :: "clang_api \<Rightarrow> wyhash \<Rightarrow> FileMetadataMap \<Rightarrow> Decl option \<Rightarrow> SymbolSuffix option" where
  "context_suffix A wyhash fmm None = None"
| "context_suffix A wyhash fmm (Some (Decl p k n l ctx)) =
     (case k of
        TranslationUnitDecl \<Rightarrow> Some []
      | ExternCContextDecl \<Rightarrow> Some []
      | NamespaceDecl \<Rightarrow> map_option (\<lambda>c. c @ descr_text (descr (case namespaceName A fmm (Decl p k n l ctx) of Inr m \<Rightarrow> m | Inl e \<Rightarrow> []) [] NamespaceSuffix))
          (context_suffix A wyhash fmm ctx)
      | RecordDecl \<Rightarrow> if n = [] then None else map_option (\<lambda>c. c @ descr_text (descr n [] TypeSuffix)) (context_suffix A wyhash fmm ctx)
      | EnumDecl \<Rightarrow> if n = [] then None else map_option (\<lambda>c. c @ descr_text (descr n [] TypeSuffix)) (context_suffix A wyhash fmm ctx)
      | FunctionDecl \<Rightarrow> map_option (\<lambda>c. c @ descr_text (descr n (getFunctionDisambiguator A wyhash p) MethodSuffix)) (context_suffix A wyhash fmm ctx)
      | _ \<Rightarrow> None)"

definition member_suffix :: "clang_api \<Rightarrow> wyhash \<Rightarrow> FileMetadataMap \<Rightarrow> Decl option \<Rightarrow> DescriptorBuilder \<Rightarrow> SymbolSuffix option" where
  "member_suffix A wyhash fmm ctx d = map_option (\<lambda>c. c @ descr_text d) (context_suffix A wyhash fmm ctx)"

definition is_local :: "clang_api \<Rightarrow> Decl \<Rightarrow> bool" where
  "is_local A d \<longleftrightarrow> isLocalVarDeclOrParm A (decl_ptr d) \<and> \<not> isLocalExternDecl A (decl_ptr d)"

definition local_decl :: "clang_api \<Rightarrow> Decl \<Rightarrow> bool" where
  "local_decl A d \<longleftrightarrow> decl_kind d \<in> {BindingDecl, NonTypeTemplateParmDecl, TemplateTemplateParmDecl, TemplateTypeParmDecl} \<or>
     (\<exists>v. decl_kind d = VarDecl v) \<and> is_local A d"

definition decl_file :: "clang_api \<Rightarrow> Decl \<Rightarrow> FileID" where
  "decl_file A d = getFileID A (getExpansionLoc A (decl_location d))"

definition local_keys :: "clang_api \<Rightarrow> Decl set \<Rightarrow> FileID \<Rightarrow> nat set" where
  "local_keys A U f = (\<lambda>d. getCanonicalDecl A (decl_ptr d)) ` {d \<in> U. local_decl A d \<and> decl_file A d = f}"

definition decl_suffix :: "clang_api \<Rightarrow> wyhash \<Rightarrow> FileMetadataMap \<Rightarrow> Decl \<Rightarrow> SymbolSuffix option" where
  "decl_suffix A wyhash fmm d =
     (case decl_kind d of
        RecordDecl \<Rightarrow> context_suffix A wyhash fmm (Some d)
      | EnumDecl \<Rightarrow> context_suffix A wyhash fmm (Some d)
      | FunctionDecl \<Rightarrow> context_suffix A wyhash fmm (Some d)
      | NamespaceDecl \<Rightarrow> context_suffix A wyhash fmm (Some d)
      | FieldDecl \<Rightarrow> member_suffix A wyhash fmm (decl_context d) (descr (decl_name d) [] TermSuffix)
      | TypedefNameDecl \<Rightarrow> member_suffix A wyhash fmm (decl_context d) (descr (decl_name d) [] TypeSuffix)
      | EnumConstantDecl \<Rightarrow>
         (case decl_context d of None \<Rightarrow> None | Some parent \<Rightarrow>
            member_suffix A wyhash fmm (if isScoped A (decl_ptr parent) then Some parent else decl_context parent)
              (descr (decl_name d) [] TermSuffix))
      | UsingShadowDecl \<Rightarrow>
         (case Option.bind (getUnderlyingDecl A (decl_ptr d)) (shadowSuffix A wyhash) of None \<Rightarrow> None | Some (dis, sfx) \<Rightarrow>
            member_suffix A wyhash fmm (decl_context d) (descr (decl_name d) dis sfx))
      | VarDecl v \<Rightarrow>
         (if is_local A d \<or> v \<notin> {VarTemplatePartialSpecialization, VarTemplateSpecialization, PlainVar} then None
          else member_suffix A wyhash fmm (decl_context d) (descr (decl_name d) [] TermSuffix))
      | _ \<Rightarrow> None)"

text \<open>The location of a file of the translation unit that has metadata.\<close>

definition known_loc :: "clang_api \<Rightarrow> FileMetadataMap \<Rightarrow> SourceLocation \<Rightarrow> bool" where
  "known_loc A fmm l \<longleftrightarrow> \<not> loc_isInvalid (getExpansionLoc A l) \<and> getFileMetadata fmm (getFileID A (getExpansionLoc A l)) \<noteq> None"

fun known_context :: "clang_api \<Rightarrow> FileMetadataMap \<Rightarrow> Decl option \<Rightarrow> SourceLocation \<Rightarrow> bool" where
  "known_context A fmm None loc \<longleftrightarrow> False"
| "known_context A fmm (Some (Decl p k n l ctx)) loc \<longleftrightarrow>
     (case k of
        TranslationUnitDecl \<Rightarrow> known_loc A fmm loc
      | ExternCContextDecl \<Rightarrow> known_loc A fmm loc
      | NamespaceDecl \<Rightarrow> known_context A fmm ctx loc
      | RecordDecl \<Rightarrow> n \<noteq> [] \<and> known_context A fmm ctx l
      | EnumDecl \<Rightarrow> n \<noteq> [] \<and> known_context A fmm ctx l
      | FunctionDecl \<Rightarrow> known_context A fmm ctx l
      | _ \<Rightarrow> False)"

fun chain_keys :: "clang_api \<Rightarrow> Decl option \<Rightarrow> nat set" where
  "chain_keys A None = {}"
| "chain_keys A (Some (Decl p k n l ctx)) = insert (getCanonicalDecl A p) (chain_keys A ctx)"

text \<open>
  What is used of Clang: \<open>U\<close> has the declarations of the translation unit. A declaration is no
  redeclaration of one of its contexts, redeclarations have the same names, those of a local
  declaration are in one file, and a location has one expansion. The main file has metadata, and so far as files have a package it is one of the
  package map.
\<close>

definition contexts_closed :: "Decl set \<Rightarrow> bool" where
  "contexts_closed U \<longleftrightarrow> (\<forall>d \<in> U. decl_kind d \<notin> {TranslationUnitDecl, ExternCContextDecl} \<longrightarrow>
     (\<exists>c \<in> U. decl_context d = Some c))"

definition metadata_known :: "clang_api \<Rightarrow> FileMetadataMap \<Rightarrow> bool" where
  "metadata_known A fmm \<longleftrightarrow> fid_isValid (getMainFileID A) \<and> getStableFileId fmm (getMainFileID A) \<noteq> None \<and>
     (\<forall>f md. getFileMetadata fmm f = Some md \<longrightarrow> package_ok (packageId md))"

definition clang_ok :: "clang_api \<Rightarrow> wyhash \<Rightarrow> FileMetadataMap \<Rightarrow> Decl set \<Rightarrow> bool" where
  "clang_ok A wyhash fmm U \<longleftrightarrow> contexts_closed U \<and> metadata_known A fmm \<and>
     (\<forall>l. getExpansionLoc A (getExpansionLoc A l) = getExpansionLoc A l) \<and>
     (\<forall>d \<in> U. getCanonicalDecl A (decl_ptr d) \<notin> chain_keys A (decl_context d)) \<and>
     (\<forall>d \<in> U. \<forall>d' \<in> U. getCanonicalDecl A (decl_ptr d) = getCanonicalDecl A (decl_ptr d') \<longrightarrow>
        decl_suffix A wyhash fmm d = decl_suffix A wyhash fmm d' \<and> local_decl A d = local_decl A d' \<and>
        (local_decl A d \<longrightarrow> decl_file A d = decl_file A d')) \<and>
     (\<forall>d \<in> U. \<forall>t. isa_TagDecl d \<and> getDefinition A (decl_ptr d) = Some t \<longrightarrow>
        fid_isValid (getFileID A (getExpansionLoc A (decl_location t))))"

lemma chain_keys_Some: "chain_keys A (Some d) = insert (getCanonicalDecl A (decl_ptr d)) (chain_keys A (decl_context d))"
  by (cases d) simp

lemma clang_ok_agree:
  "clang_ok A wyhash fmm U \<Longrightarrow> d \<in> U \<Longrightarrow> d' \<in> U \<Longrightarrow> getCanonicalDecl A (decl_ptr d) = getCanonicalDecl A (decl_ptr d') \<Longrightarrow>
   decl_suffix A wyhash fmm d = decl_suffix A wyhash fmm d'"
  unfolding clang_ok_def by blast

lemma clang_ok_local:
  "clang_ok A wyhash fmm U \<Longrightarrow> d \<in> U \<Longrightarrow> getCanonicalDecl A (decl_ptr d) \<in> local_keys A U f \<longleftrightarrow> local_decl A d \<and> decl_file A d = f"
  unfolding clang_ok_def local_keys_def by blast

lemma clang_ok_fresh:
  "clang_ok A wyhash fmm U \<Longrightarrow> d \<in> U \<Longrightarrow> getCanonicalDecl A (decl_ptr d) \<notin> chain_keys A (decl_context d)"
  unfolding clang_ok_def by blast

lemma clang_ok_context:
  "clang_ok A wyhash fmm U \<Longrightarrow> d \<in> U \<Longrightarrow> decl_kind d \<notin> {TranslationUnitDecl, ExternCContextDecl} \<Longrightarrow> \<exists>c \<in> U. decl_context d = Some c"
  unfolding clang_ok_def contexts_closed_def by blast

lemma clang_ok_metadata: "clang_ok A wyhash fmm U \<Longrightarrow> metadata_known A fmm"
  unfolding clang_ok_def by blast

subsection \<open>The invariant of the formatter\<close>

text \<open>What an answer says of a suffix, and whether there is one.\<close>

definition tells :: "SymbolSuffix option \<Rightarrow> bool \<Rightarrow> SymbolNameRef option \<Rightarrow> bool" where
  "tells X known r \<longleftrightarrow> (\<forall>s. r = Some s \<longrightarrow> s \<noteq> [] \<and> (\<forall>x. X = Some x \<longrightarrow> getPackageAgnosticSuffix s = Some x)) \<and>
     (known \<longrightarrow> r \<noteq> None)"

definition decls_ok :: "clang_api \<Rightarrow> wyhash \<Rightarrow> FileMetadataMap \<Rightarrow> Decl set \<Rightarrow> (nat \<times> SymbolNameRef) list \<Rightarrow> bool" where
  "decls_ok A wyhash fmm U m \<longleftrightarrow>
     (\<forall>d \<in> U. \<forall>s. map_of m (getCanonicalDecl A (decl_ptr d)) = Some s \<longrightarrow> tells (decl_suffix A wyhash fmm d) True (Some s))"

definition prefixes_ok :: "clang_api \<Rightarrow> wyhash \<Rightarrow> FileMetadataMap \<Rightarrow> Decl set \<Rightarrow> ((nat option \<times> FileID) \<times> SymbolNameRef) list \<Rightarrow> bool" where
  "prefixes_ok A wyhash fmm U m \<longleftrightarrow>
     (\<forall>d \<in> U. \<forall>f s. map_of m (Some (getCanonicalDecl A (decl_ptr d)), f) = Some s \<longrightarrow> tells (decl_suffix A wyhash fmm d) True (Some s)) \<and>
     (\<forall>f s. map_of m (None, f) = Some s \<longrightarrow> tells (Some []) True (Some s))"

text \<open>The local symbols of a file are numbered in the order in which they are made.\<close>

definition local_entries :: "clang_api \<Rightarrow> Decl set \<Rightarrow> FileID \<Rightarrow> SymbolFormatter \<Rightarrow> (nat \<times> SymbolNameRef) list" where
  "local_entries A U f F = filter (\<lambda>(k, s). k \<in> local_keys A U f) (declBasedCache F)"

definition locals_ok :: "clang_api \<Rightarrow> Decl set \<Rightarrow> SymbolFormatter \<Rightarrow> bool" where
  "locals_ok A U F \<longleftrightarrow> distinct (map fst (declBasedCache F)) \<and>
     (\<forall>f. map snd (local_entries A U f F) = map (\<lambda>i. formatLocal (of_nat i)) [0..<length (local_entries A U f F)] \<and>
        counter_of (localVariableCounters F) f = of_nat (length (local_entries A U f F)))"

definition symbols_ok :: "clang_api \<Rightarrow> wyhash \<Rightarrow> FileMetadataMap \<Rightarrow> Decl set \<Rightarrow> SymbolFormatter \<Rightarrow> bool" where
  "symbols_ok A wyhash fmm U F \<longleftrightarrow> sfm_fileMetadataMap F = fmm \<and> decls_ok A wyhash fmm U (declBasedCache F) \<and>
     prefixes_ok A wyhash fmm U (namespacePrefixCache F) \<and> locals_ok A U F"

definition adds :: "nat set \<Rightarrow> SymbolFormatter \<Rightarrow> SymbolFormatter \<Rightarrow> bool" where
  "adds K F F' \<longleftrightarrow> (\<forall>k. k \<notin> K \<and> map_of (declBasedCache F) k = None \<longrightarrow> map_of (declBasedCache F') k = None) \<and>
     (\<forall>k f. k \<notin> K \<and> map_of (namespacePrefixCache F) (Some k, f) = None \<longrightarrow> map_of (namespacePrefixCache F') (Some k, f) = None) \<and>
     (\<forall>k s. map_of (declBasedCache F) k = Some s \<longrightarrow> map_of (declBasedCache F') k = Some s) \<and>
     locationBasedCache F' = locationBasedCache F"

definition query_ok :: "clang_api \<Rightarrow> wyhash \<Rightarrow> FileMetadataMap \<Rightarrow> Decl set \<Rightarrow> nat set \<Rightarrow> SymbolSuffix option \<Rightarrow> bool \<Rightarrow> symbol_query \<Rightarrow> bool" where
  "query_ok A wyhash fmm U K X known q \<longleftrightarrow>
     (\<forall>F. symbols_ok A wyhash fmm U F \<longrightarrow>
        (\<exists>r F'. q F = Inr (r, F') \<and> symbols_ok A wyhash fmm U F' \<and> adds K F F' \<and> tells X known r))"

lemma adds_refl: "adds K F F"
  by (simp add: adds_def)

lemma adds_mono: "adds K F F' \<Longrightarrow> K \<subseteq> K' \<Longrightarrow> adds K' F F'"
  by (auto simp: adds_def)

lemma adds_trans: "adds K F F1 \<Longrightarrow> adds K F1 F2 \<Longrightarrow> adds K F F2"
  by (auto simp: adds_def)

lemma suffix_append: "getPackageAgnosticSuffix s = Some x \<Longrightarrow> getPackageAgnosticSuffix (s @ t) = Some (x @ t)"
  unfolding suffix_iff by auto

lemma query_ok_none: "\<not> known \<Longrightarrow> query_ok A wyhash fmm U K X known (\<lambda>F. Inr (None, F))"
  by (simp add: query_ok_def tells_def adds_refl)

lemma query_ok_weaken:
  "query_ok A wyhash fmm U K X known q \<Longrightarrow> K \<subseteq> K' \<Longrightarrow> (known' \<longrightarrow> known) \<Longrightarrow> X' = X \<or> X' = None \<Longrightarrow> query_ok A wyhash fmm U K' X' known' q"
  unfolding query_ok_def tells_def by (meson adds_mono option.distinct(1))

text \<open>A query that extends the symbol of a context by a descriptor.\<close>

definition extends :: "SymbolSuffix option \<Rightarrow> SymbolNameRef \<Rightarrow> SymbolSuffix option \<Rightarrow> bool \<Rightarrow> SymbolNameRef option \<Rightarrow> bool" where
  "extends X c Y known r \<longleftrightarrow> (\<forall>s. r = Some s \<longrightarrow> (\<exists>t. t \<noteq> [] \<and> s = c @ t \<and> (Y \<noteq> None \<longrightarrow> Y = map_option (\<lambda>x. x @ t) X))) \<and>
     (known \<longrightarrow> r \<noteq> None)"

lemma tells_extends: "tells X k (Some c) \<Longrightarrow> extends X c Y known r \<Longrightarrow> tells Y known r"
  by (cases X) (auto simp: tells_def extends_def suffix_append)

lemma query_ok_extend:
  assumes q: "query_ok A wyhash fmm U K X known q"
    and f: "\<And>c F. symbols_ok A wyhash fmm U F \<Longrightarrow> \<exists>r F'. f c F = Inr (r, F') \<and> symbols_ok A wyhash fmm U F' \<and> adds K F F' \<and> extends X c Y known r"
  shows "query_ok A wyhash fmm U K Y known (\<lambda>F. rbind (q F) (\<lambda>(r, F1). case r of None \<Rightarrow> Inr (None, F1) | Some c \<Rightarrow> f c F1))"
  unfolding query_ok_def
proof (intro allI impI)
  fix F assume F: "symbols_ok A wyhash fmm U F"
  obtain r F1 where r: "q F = Inr (r, F1)" "symbols_ok A wyhash fmm U F1" "adds K F F1" "tells X known r"
    using q F by (auto simp: query_ok_def)
  show "\<exists>r F'. rbind (q F) (\<lambda>(r, F1). case r of None \<Rightarrow> Inr (None, F1) | Some c \<Rightarrow> f c F1) = Inr (r, F') \<and>
      symbols_ok A wyhash fmm U F' \<and> adds K F F' \<and> tells Y known r"
  proof (cases r)
    case None
    with r show ?thesis by (auto simp: tells_def)
  next
    case (Some c)
    obtain r2 F2 where f2: "f c F1 = Inr (r2, F2)" "symbols_ok A wyhash fmm U F2" "adds K F1 F2" "extends X c Y known r2"
      using f [OF r(2), of c] by blast
    have "tells Y known r2" using tells_extends [OF _ f2(4)] r(4) Some by blast
    with r(1) f2(1,2) adds_trans [OF r(3) f2(3)] Some show ?thesis by auto
  qed
qed

lemma descr_known:
  "sfx \<noteq> UnspecifiedSuffix \<Longrightarrow> sfx \<noteq> LocalSuffix \<Longrightarrow>
   formatDescriptor (descr n dis sfx) = Inr (descr_text (descr n dis sfx)) \<and> descr_text (descr n dis sfx) \<noteq> []"
  by (cases sfx) (simp_all add: descr_def descr_text_def)

text \<open>A query for a declaration behind the cache.\<close>

lemma prefixStore_simps [simp]:
  "sfm_fileMetadataMap (prefixStore k s F) = sfm_fileMetadataMap F"
  "declBasedCache (prefixStore k s F) = declBasedCache F" "locationBasedCache (prefixStore k s F) = locationBasedCache F"
  "namespacePrefixCache (prefixStore k s F) = hmap_emplace k s (namespacePrefixCache F)"
  "locals_ok A U (prefixStore k s F) = locals_ok A U F"
  by (simp_all add: locals_ok_def local_entries_def prefixStore_def)

lemma nonlocal_kind:
  "decl_kind d \<in> {RecordDecl, EnumDecl, FunctionDecl, NamespaceDecl, EnumConstantDecl, FieldDecl, TypedefNameDecl, UsingShadowDecl} \<Longrightarrow> \<not> local_decl A d"
  by (auto simp: local_decl_def)

lemma declStore_locals:
  assumes "map_of (declBasedCache F) k = None" "\<And>f. k \<notin> local_keys A U f" "locals_ok A U F"
  shows "locals_ok A U (declStore k s F)"
proof -
  have "local_entries A U f (declStore k s F) = local_entries A U f F" for f
    using assms(1,2) by (simp add: local_entries_def declStore_def hmap_emplace_def)
  with assms(1,3) show ?thesis unfolding locals_ok_def by (simp add: declStore_def)
qed

lemma query_ok_cached:
  assumes ok: "clang_ok A wyhash fmm U" and d: "d \<in> U" "getCanonicalDecl A (decl_ptr d) \<notin> K" "\<not> local_decl A d"
    and q: "query_ok A wyhash fmm U K (decl_suffix A wyhash fmm d) known q"
  shows "query_ok A wyhash fmm U (insert (getCanonicalDecl A (decl_ptr d)) K) (decl_suffix A wyhash fmm d) known (getSymbolCached A d q)"
  unfolding query_ok_def
proof (intro allI impI)
  let ?k = "getCanonicalDecl A (decl_ptr d)"
  fix F assume F: "symbols_ok A wyhash fmm U F"
  have agree: "decl_suffix A wyhash fmm d' = decl_suffix A wyhash fmm d" if "d' \<in> U" "getCanonicalDecl A (decl_ptr d') = ?k" for d'
    using clang_ok_agree [OF ok that(1) d(1) that(2)] .
  have "\<exists>r F1. getSymbolCached A d q F = Inr (r, F1) \<and> symbols_ok A wyhash fmm U F1 \<and> adds (insert ?k K) F F1 \<and>
      tells (decl_suffix A wyhash fmm d) known r \<and> (r \<noteq> None \<longrightarrow> map_of (declBasedCache F1) ?k = r)"
  proof (rule decl_cache.cached_ok [where I = "symbols_ok A wyhash fmm U" and R = "adds (insert ?k K)"])
    show "\<exists>r F1. q F = Inr (r, F1) \<and> symbols_ok A wyhash fmm U F1 \<and> adds (insert ?k K) F F1 \<and> tells (decl_suffix A wyhash fmm d) known r \<and>
        (map_of (declBasedCache F) ?k = None \<longrightarrow> map_of (declBasedCache F1) ?k = None)"
      using q [unfolded query_ok_def, rule_format, OF F] d(2) by (auto simp: adds_def)
  next
    fix s assume "map_of (declBasedCache F) ?k = Some s"
    with F d(1) show "tells (decl_suffix A wyhash fmm d) known (Some s)" by (auto simp: symbols_ok_def decls_ok_def tells_def)
  next
    fix s F1 assume F1: "symbols_ok A wyhash fmm U F1" "adds (insert ?k K) F F1" "tells (decl_suffix A wyhash fmm d) known (Some s)"
      "map_of (declBasedCache F1) ?k = None"
    have "tells (decl_suffix A wyhash fmm d') True (Some s)" if "d' \<in> U" "getCanonicalDecl A (decl_ptr d') = ?k" for d'
      using F1(3) unfolding agree [OF that] by (simp add: tells_def)
    moreover have "locals_ok A U (declStore ?k s F1)"
      using F1(1,4) clang_ok_local [OF ok d(1)] d(3) by (intro declStore_locals) (auto simp: symbols_ok_def)
    ultimately have "symbols_ok A wyhash fmm U (declStore ?k s F1)"
      using F1(1,4) unfolding symbols_ok_def by (auto simp: decls_ok_def declStore_def)
    with F1(2,4) show "symbols_ok A wyhash fmm U (declStore ?k s F1) \<and> adds (insert ?k K) F (declStore ?k s F1)"
      by (auto simp: adds_def declStore_def)
  qed (use F in \<open>auto simp: adds_refl tells_def\<close>)
  then show "\<exists>r F'. getSymbolCached A d q F = Inr (r, F') \<and> symbols_ok A wyhash fmm U F' \<and> adds (insert ?k K) F F' \<and>
      tells (decl_suffix A wyhash fmm d) known r" by blast
qed

lemma formatNamed_extends:
  assumes "sfx \<noteq> UnspecifiedSuffix" "sfx \<noteq> LocalSuffix" "Y \<noteq> None \<longrightarrow> Y = map_option (\<lambda>x. x @ descr_text (descr n dis sfx)) X"
  shows "\<exists>r. formatNamed (Some c) \<lparr>descr_name = n, disambiguator = dis, suffix = sfx\<rparr> F = Inr (r, F) \<and> extends X c Y known r"
proof -
  have "formatDescriptor (descr n dis sfx) = Inr (descr_text (descr n dis sfx))" "descr_text (descr n dis sfx) \<noteq> []"
    using descr_known [OF assms(1,2), of n dis] by blast+
  then show ?thesis unfolding descr_def [symmetric] formatNamed_def formatContextual_def
    using assms(3) by (simp add: extends_def)
qed

lemma formatNamed_option:
  "rbind m (\<lambda>(opt, F1). formatNamed opt d F1) =
   rbind m (\<lambda>(opt, F1). case opt of None \<Rightarrow> Inr (None, F1) | Some c \<Rightarrow> formatNamed (Some c) d F1)"
  by (rule arg_cong [where f = "rbind m"]) (auto simp: formatNamed_def fun_eq_iff split: option.split)

text \<open>A member of a context.\<close>

lemma query_ok_member:
  assumes "query_ok A wyhash fmm U K X known q" "sfx \<noteq> UnspecifiedSuffix" "sfx \<noteq> LocalSuffix"
    and "Y \<noteq> None \<longrightarrow> Y = map_option (\<lambda>x. x @ descr_text (descr n dis sfx)) X"
  shows "query_ok A wyhash fmm U K Y known (\<lambda>F. rbind (q F) (\<lambda>(opt, F1).
    formatNamed opt \<lparr>descr_name = n, disambiguator = dis, suffix = sfx\<rparr> F1))"
  unfolding formatNamed_option using formatNamed_extends [OF assms(2-4)] adds_refl
  by (intro query_ok_extend [OF assms(1)]) blast

lemma query_ok_prefix_cached:
  assumes ok: "clang_ok A wyhash fmm U" and d: "d \<in> U" "getCanonicalDecl A (decl_ptr d) \<notin> K"
    and q: "query_ok A wyhash fmm U K (decl_suffix A wyhash fmm d) known q"
  shows "query_ok A wyhash fmm U (insert (getCanonicalDecl A (decl_ptr d)) K) (decl_suffix A wyhash fmm d) known
    (getSymbolCachedInFile A (Some (decl_ptr d)) loc q)"
  unfolding query_ok_def
proof (intro allI impI)
  let ?p = "getCanonicalDecl A (decl_ptr d)"
  let ?k = "(Some ?p, getFileID A loc)" and ?d = "(Some (decl_ptr d), loc)"
  fix F assume F: "symbols_ok A wyhash fmm U F"
  have agree: "decl_suffix A wyhash fmm d' = decl_suffix A wyhash fmm d" if "d' \<in> U" "getCanonicalDecl A (decl_ptr d') = ?p" for d'
    using clang_ok_agree [OF ok that(1) d(1) that(2)] .
  have "\<exists>r F1. (case ?d of (p, loc) \<Rightarrow> getSymbolCachedInFile A p loc) q F = Inr (r, F1) \<and> symbols_ok A wyhash fmm U F1 \<and>
      adds (insert ?p K) F F1 \<and> tells (decl_suffix A wyhash fmm d) known r \<and>
      (r \<noteq> None \<longrightarrow> map_of (namespacePrefixCache F1) (case ?d of (p, loc) \<Rightarrow> (map_option (getCanonicalDecl A) p, getFileID A loc)) = r)"
  proof (rule prefix_cache.cached_ok [where I = "symbols_ok A wyhash fmm U" and R = "adds (insert ?p K)"], unfold prod.case option.map)
    show "\<exists>r F1. q F = Inr (r, F1) \<and> symbols_ok A wyhash fmm U F1 \<and> adds (insert ?p K) F F1 \<and> tells (decl_suffix A wyhash fmm d) known r \<and>
        (map_of (namespacePrefixCache F) ?k = None \<longrightarrow> map_of (namespacePrefixCache F1) ?k = None)"
      using q [unfolded query_ok_def, rule_format, OF F] d(2) by (auto simp: adds_def)
  next
    fix s assume "map_of (namespacePrefixCache F) ?k = Some s"
    with F d(1) show "tells (decl_suffix A wyhash fmm d) known (Some s)" by (auto simp: symbols_ok_def prefixes_ok_def tells_def)
  next
    fix s F1 assume F1: "symbols_ok A wyhash fmm U F1" "adds (insert ?p K) F F1" "tells (decl_suffix A wyhash fmm d) known (Some s)"
      "map_of (namespacePrefixCache F1) ?k = None"
    have "tells (decl_suffix A wyhash fmm d') True (Some s)" if "d' \<in> U" "getCanonicalDecl A (decl_ptr d') = ?p" for d'
      using F1(3) unfolding agree [OF that] by (simp add: tells_def)
    with F1(1,4) have "symbols_ok A wyhash fmm U (prefixStore ?k s F1)" by (auto simp: symbols_ok_def prefixes_ok_def)
    with F1(2,4) show "symbols_ok A wyhash fmm U (prefixStore ?k s F1) \<and> adds (insert ?p K) F (prefixStore ?k s F1)"
      by (auto simp: adds_def)
  qed (use F in \<open>auto simp: adds_refl tells_def\<close>)
  then show "\<exists>r F'. getSymbolCachedInFile A (Some (decl_ptr d)) loc q F = Inr (r, F') \<and> symbols_ok A wyhash fmm U F' \<and> adds (insert ?p K) F F' \<and>
      tells (decl_suffix A wyhash fmm d) known r" by auto
qed

lemma location_prefix_ok:
  assumes "metadata_known A fmm" "known \<longrightarrow> \<not> loc_isInvalid loc \<and> getFileMetadata fmm (getFileID A loc) \<noteq> None"
  shows "query_ok A wyhash fmm U K (Some []) known (getLocationBasedSymbolPrefix A loc)"
proof (cases "loc_isInvalid loc")
  case True
  then have "getLocationBasedSymbolPrefix A loc = (\<lambda>F. Inr (None, F))" by (simp add: getLocationBasedSymbolPrefix_def fun_eq_iff)
  then show ?thesis using True assms(2) query_ok_none by metis
next
  case False
  define q :: symbol_query where "q = (\<lambda>F1. case getFileMetadata (sfm_fileMetadataMap F1) (getFileID A loc) of
      None \<Rightarrow> Inr (None, F1)
    | Some md \<Rightarrow> rbind (formatSymbol \<lparr>sym_packageId = packageId md, descriptors = []\<rparr>) (\<lambda>s. Inr (Some s, F1)))"
  let ?k = "(None, getFileID A loc)" and ?d = "(None, loc)"
  show ?thesis unfolding query_ok_def
  proof (intro allI impI)
    fix F assume F: "symbols_ok A wyhash fmm U F"
    have fmm: "sfm_fileMetadataMap F = fmm" using F by (simp add: symbols_ok_def)
    have run: "\<exists>r. q F = Inr (r, F) \<and> tells (Some []) known r"
    proof (cases "getFileMetadata fmm (getFileID A loc)")
      case None
      then show ?thesis using assms(2) fmm by (simp add: q_def tells_def)
    next
      case (Some md)
      then have "package_ok (packageId md)" using assms(1) by (simp add: metadata_known_def)
      from suffix_of_symbol [OF this, of "[]"] Some fmm show ?thesis
        by (simp add: q_def tells_def formatSymbol_def) (simp add: formatPackage_def)
    qed
    have "\<exists>r F1. (case ?d of (p, loc) \<Rightarrow> getSymbolCachedInFile A p loc) q F = Inr (r, F1) \<and> symbols_ok A wyhash fmm U F1 \<and>
        adds K F F1 \<and> tells (Some []) known r \<and>
        (r \<noteq> None \<longrightarrow> map_of (namespacePrefixCache F1) (case ?d of (p, loc) \<Rightarrow> (map_option (getCanonicalDecl A) p, getFileID A loc)) = r)"
    proof (rule prefix_cache.cached_ok [where I = "symbols_ok A wyhash fmm U" and R = "adds K"], unfold prod.case option.map)
      show "\<exists>r F1. q F = Inr (r, F1) \<and> symbols_ok A wyhash fmm U F1 \<and> adds K F F1 \<and> tells (Some []) known r \<and>
          (map_of (namespacePrefixCache F) ?k = None \<longrightarrow> map_of (namespacePrefixCache F1) ?k = None)"
        using run F adds_refl by blast
    next
      fix s assume "map_of (namespacePrefixCache F) ?k = Some s"
      with F show "tells (Some []) known (Some s)" by (auto simp: symbols_ok_def prefixes_ok_def tells_def)
    next
      fix s F1 assume F1: "symbols_ok A wyhash fmm U F1" "adds K F F1" "tells (Some []) known (Some s)" "map_of (namespacePrefixCache F1) ?k = None"
      then have "symbols_ok A wyhash fmm U (prefixStore ?k s F1)"
        by (auto simp: symbols_ok_def prefixes_ok_def tells_def)
      with F1(2,4) show "symbols_ok A wyhash fmm U (prefixStore ?k s F1) \<and> adds K F (prefixStore ?k s F1)"
        by (auto simp: adds_def)
    qed (use F in \<open>auto simp: adds_refl tells_def\<close>)
    then show "\<exists>r F'. getLocationBasedSymbolPrefix A loc F = Inr (r, F') \<and> symbols_ok A wyhash fmm U F' \<and> adds K F F' \<and> tells (Some []) known r"
      using False by (auto simp: getLocationBasedSymbolPrefix_def q_def)
  qed
qed

lemma known_context_expansion:
  "(\<forall>l. getExpansionLoc A (getExpansionLoc A l) = getExpansionLoc A l) \<Longrightarrow>
   known_context A fmm c (getExpansionLoc A loc) = known_context A fmm c loc"
  by (induction A fmm c loc rule: known_context.induct) (auto simp: known_loc_def split: DeclKind.splits)

lemma namespaceName_returns:
  "metadata_known A fmm \<Longrightarrow> \<exists>n. namespaceName A fmm d = Inr n"
  by (auto simp: namespaceName_def metadata_known_def split: option.split)

lemma namespace_symbol_ok:
  assumes ok: "clang_ok A wyhash fmm U" and d: "d \<in> U" "decl_kind d = NamespaceDecl"
    and up: "query_ok A wyhash fmm U (chain_keys A (decl_context d)) (context_suffix A wyhash fmm (decl_context d)) known (up loc)"
  shows "query_ok A wyhash fmm U (chain_keys A (Some d)) (decl_suffix A wyhash fmm d) known (namespaceSymbolIn A up d loc)"
proof -
  obtain p n l ctx where d': "d = Decl p NamespaceDecl n l ctx" using d(2) by (cases d) auto
  obtain m where m: "namespaceName A fmm d = Inr m" using namespaceName_returns [OF clang_ok_metadata [OF ok]] by blast
  have sfx: "decl_suffix A wyhash fmm d = map_option (\<lambda>x. x @ descr_text (descr m [] NamespaceSuffix)) (context_suffix A wyhash fmm (decl_context d))"
    using m d' by (simp add: decl_suffix_def)
  have "query_ok A wyhash fmm U (chain_keys A (decl_context d)) (decl_suffix A wyhash fmm d) known
    (\<lambda>F. rbind (up loc F) (\<lambda>(r, F1). case r of None \<Rightarrow> Inr (None, F1) | Some c \<Rightarrow>
       rbind (namespaceName A (sfm_fileMetadataMap F1) d) (\<lambda>n. formatNamed (Some c) \<lparr>descr_name = n, disambiguator = [], suffix = NamespaceSuffix\<rparr> F1)))"
  proof (rule query_ok_extend [OF up])
    fix c F assume F: "symbols_ok A wyhash fmm U F"
    then have "sfm_fileMetadataMap F = fmm" by (simp add: symbols_ok_def)
    moreover obtain r where "formatNamed (Some c) \<lparr>descr_name = m, disambiguator = [], suffix = NamespaceSuffix\<rparr> F = Inr (r, F)"
        "extends (context_suffix A wyhash fmm (decl_context d)) c (decl_suffix A wyhash fmm d) known r"
      using formatNamed_extends [of NamespaceSuffix "decl_suffix A wyhash fmm d" m "[]" "context_suffix A wyhash fmm (decl_context d)" c F known] sfx
      by auto
    ultimately show "\<exists>r F'. rbind (namespaceName A (sfm_fileMetadataMap F) d) (\<lambda>n. formatNamed (Some c) \<lparr>descr_name = n, disambiguator = [], suffix = NamespaceSuffix\<rparr> F) = Inr (r, F') \<and>
        symbols_ok A wyhash fmm U F' \<and> adds (chain_keys A (decl_context d)) F F' \<and>
        extends (context_suffix A wyhash fmm (decl_context d)) c (decl_suffix A wyhash fmm d) known r"
      using m F adds_refl by auto
  qed
  then show ?thesis unfolding namespaceSymbolIn_def chain_keys_Some
    by (rule query_ok_prefix_cached [OF ok d(1) clang_ok_fresh [OF ok d(1)]])
qed

lemma function_symbol_ok:
  assumes ok: "clang_ok A wyhash fmm U" and d: "d \<in> U" "decl_kind d = FunctionDecl"
    and up: "query_ok A wyhash fmm U (chain_keys A (decl_context d)) (context_suffix A wyhash fmm (decl_context d)) known (up (decl_location d))"
  shows "query_ok A wyhash fmm U (chain_keys A (Some d)) (decl_suffix A wyhash fmm d) known (functionSymbolIn A wyhash up d)"
proof -
  obtain p n l ctx where d': "d = Decl p FunctionDecl n l ctx" using d(2) by (cases d) auto
  then have sfx: "decl_suffix A wyhash fmm d \<noteq> None \<longrightarrow> decl_suffix A wyhash fmm d =
      map_option (\<lambda>x. x @ descr_text (descr (decl_name d) (getFunctionDisambiguator A wyhash (decl_ptr d)) MethodSuffix))
        (context_suffix A wyhash fmm (decl_context d))"
    by (simp add: decl_suffix_def)
  show ?thesis unfolding functionSymbolIn_def chain_keys_Some
    by (rule query_ok_cached [OF ok d(1) clang_ok_fresh [OF ok d(1)] nonlocal_kind query_ok_member [OF up _ _ sfx]]) (simp_all add: d(2))
qed

lemma symbols_ok_counters [simp]:
  "symbols_ok A wyhash fmm U (F\<lparr>anonymousTypeCounters := m\<rparr>) = symbols_ok A wyhash fmm U F"
  "adds K F (F'\<lparr>anonymousTypeCounters := m\<rparr>) = adds K F F'"
  by (simp_all add: symbols_ok_def adds_def locals_ok_def local_entries_def)

lemma tag_symbol_ok:
  assumes ok: "clang_ok A wyhash fmm U" and d: "d \<in> U" "isa_TagDecl d" and known: "known \<longrightarrow> decl_name d \<noteq> []"
    and up: "query_ok A wyhash fmm U (chain_keys A (decl_context d)) (context_suffix A wyhash fmm (decl_context d)) known (up (decl_location d))"
  shows "query_ok A wyhash fmm U (chain_keys A (Some d)) (decl_suffix A wyhash fmm d) known (tagSymbolIn A wyhash up d)"
  unfolding tagSymbolIn_def chain_keys_Some
proof (rule query_ok_cached [OF ok d(1) clang_ok_fresh [OF ok d(1)] nonlocal_kind query_ok_extend [OF up]])
  show "decl_kind d \<in> {RecordDecl, EnumDecl, FunctionDecl, NamespaceDecl, EnumConstantDecl, FieldDecl, TypedefNameDecl, UsingShadowDecl}"
    using d(2) by (auto simp: isa_TagDecl_def)
next
  let ?X = "context_suffix A wyhash fmm (decl_context d)" and ?Y = "decl_suffix A wyhash fmm d"
  fix c F assume F: "symbols_ok A wyhash fmm U F"
  have Y: "?Y = (if decl_name d = [] then None else map_option (\<lambda>x. x @ descr_text (descr (decl_name d) [] TypeSuffix)) ?X)"
    using d(2) by (cases d) (auto simp: decl_suffix_def isa_TagDecl_def)
  note named = formatNamed_extends [of TypeSuffix ?Y _ "[]" ?X c _ known, OF _ _]
  show "\<exists>r F'. (if decl_name d \<noteq> [] then formatNamed (Some c) \<lparr>descr_name = decl_name d, disambiguator = [], suffix = TypeSuffix\<rparr> F
           else case getDefinition A (decl_ptr d) of
                  None \<Rightarrow> Inr (None, F)
                | Some definitionTagDecl \<Rightarrow> anonymousTagSymbol A wyhash definitionTagDecl c F) = Inr (r, F') \<and>
      symbols_ok A wyhash fmm U F' \<and> adds (chain_keys A (decl_context d)) F F' \<and> extends ?X c ?Y known r"
  proof (cases "decl_name d = []")
    case False
    with named [of "decl_name d" F] Y F adds_refl show ?thesis by auto
  next
    case True
    show ?thesis
    proof (cases "getDefinition A (decl_ptr d)")
      case None
      with True Y F known adds_refl show ?thesis by (auto simp: extends_def)
    next
      case (Some t)
      define f where "f = getFileID A (getExpansionLoc A (decl_location t))"
      define F2 where "F2 = F\<lparr>anonymousTypeCounters := counter_next f (anonymousTypeCounters F)\<rparr>"
      define n where "n = anonymousTypeName wyhash (sfm_fileMetadataMap F2) t f (counter_of (anonymousTypeCounters F) f)"
      have "fid_isValid f" using ok d Some unfolding clang_ok_def f_def by blast
      then have "anonymousTagSymbol A wyhash t c F = formatNamed (Some c) \<lparr>descr_name = n, disambiguator = [], suffix = TypeSuffix\<rparr> F2"
        by (simp add: anonymousTagSymbol_def Let_def f_def F2_def n_def)
      moreover obtain r where "formatNamed (Some c) \<lparr>descr_name = n, disambiguator = [], suffix = TypeSuffix\<rparr> F2 = Inr (r, F2)" "extends ?X c ?Y known r"
        using named [of n F2] Y True by auto
      moreover have "symbols_ok A wyhash fmm U F2" "adds (chain_keys A (decl_context d)) F F2"
        using F adds_refl by (simp_all add: F2_def)
      ultimately show ?thesis using True Some by auto
    qed
  qed
qed

lemma context_symbol_ok:
  assumes ok: "clang_ok A wyhash fmm U"
  shows "c \<in> U \<Longrightarrow> query_ok A wyhash fmm U (chain_keys A (Some c)) (context_suffix A wyhash fmm (Some c))
    (known_context A fmm (Some c) loc) (getContextSymbol A wyhash (Some c) loc)"
proof (induction c arbitrary: loc)
  case (Decl p k n l ctx)
  let ?d = "Decl p k n l ctx" and ?loc = "getExpansionLoc A loc"
  have exp: "\<forall>l. getExpansionLoc A (getExpansionLoc A l) = getExpansionLoc A l" using ok by (simp add: clang_ok_def)
  have up: "query_ok A wyhash fmm U (chain_keys A ctx) (context_suffix A wyhash fmm ctx) (known_context A fmm ctx loc') (getContextSymbol A wyhash ctx loc')"
    if k: "k \<notin> {TranslationUnitDecl, ExternCContextDecl}" for loc'
  proof -
    obtain c where "c \<in> U" "ctx = Some c" using clang_ok_context [OF ok Decl.prems] k by auto
    with Decl.IH [of c] show ?thesis by simp
  qed
  have prefix: "query_ok A wyhash fmm U K (Some []) (known_loc A fmm loc) (getLocationBasedSymbolPrefix A ?loc)" for K
    by (rule location_prefix_ok [OF clang_ok_metadata [OF ok]]) (simp add: known_loc_def)
  have tag: "query_ok A wyhash fmm U (chain_keys A (Some ?d)) (context_suffix A wyhash fmm (Some ?d)) (n \<noteq> [] \<and> known_context A fmm ctx l)
      (tagSymbolIn A wyhash (getContextSymbol A wyhash ctx) ?d)" if "k = RecordDecl \<or> k = EnumDecl"
  proof -
    have "query_ok A wyhash fmm U (chain_keys A (decl_context ?d)) (context_suffix A wyhash fmm (decl_context ?d)) (n \<noteq> [] \<and> known_context A fmm ctx l)
        (getContextSymbol A wyhash ctx (decl_location ?d))"
      using up [of l] that by (auto intro: query_ok_weaken)
    from tag_symbol_ok [where up = "getContextSymbol A wyhash ctx", OF ok Decl.prems _ _ this] that show ?thesis by (auto simp: isa_TagDecl_def decl_suffix_def)
  qed
  show ?case
  proof (cases k)
    case NamespaceDecl
    have "query_ok A wyhash fmm U (chain_keys A (decl_context ?d)) (context_suffix A wyhash fmm (decl_context ?d)) (known_context A fmm ctx loc)
        (getContextSymbol A wyhash ctx ?loc)"
      using up [of ?loc] NamespaceDecl known_context_expansion [OF exp, of fmm ctx loc] by simp
    from namespace_symbol_ok [where up = "getContextSymbol A wyhash ctx", OF ok Decl.prems _ this] NamespaceDecl show ?thesis by (simp add: decl_suffix_def)
  next
    case FunctionDecl
    have "query_ok A wyhash fmm U (chain_keys A (decl_context ?d)) (context_suffix A wyhash fmm (decl_context ?d)) (known_context A fmm ctx l)
        (getContextSymbol A wyhash ctx (decl_location ?d))"
      using up [of l] FunctionDecl by simp
    from function_symbol_ok [where up = "getContextSymbol A wyhash ctx", OF ok Decl.prems _ this] FunctionDecl show ?thesis by (simp add: decl_suffix_def)
  qed (use prefix tag query_ok_none in \<open>simp_all add: query_ok_none\<close>)
qed

subsection \<open>All declarations\<close>

definition is_template :: "Decl \<Rightarrow> bool" where
  "is_template d \<longleftrightarrow> decl_kind d \<in> {ClassTemplateDecl, FunctionTemplateDecl, TypeAliasTemplateDecl, VarTemplateDecl}"

definition templated :: "clang_api \<Rightarrow> Decl \<Rightarrow> Decl" where
  "templated A d = (if is_template d then getTemplatedDecl A (decl_ptr d) else d)"

definition symbol_context :: "clang_api \<Rightarrow> Decl \<Rightarrow> Decl option" where
  "symbol_context A d =
     (if decl_kind d = EnumConstantDecl
      then Option.bind (decl_context d) (\<lambda>parent. if isScoped A (decl_ptr parent) then Some parent else decl_context parent)
      else decl_context d)"

text \<open>The declarations that are certain to have a symbol.\<close>

definition known_decl :: "clang_api \<Rightarrow> wyhash \<Rightarrow> FileMetadataMap \<Rightarrow> Decl \<Rightarrow> bool" where
  "known_decl A wyhash fmm d \<longleftrightarrow> (decl_kind d = NamespaceDecl \<or> decl_name d \<noteq> []) \<and>
     (local_decl A d \<or> decl_suffix A wyhash fmm d \<noteq> None \<and> known_context A fmm (symbol_context A d) (decl_location d))"

text \<open>
  The declarations that the indexer asks for: not a using declaration, which has a shadow for
  every name, and no decomposition, whose bindings are asked for instead.
\<close>

definition plain_queryable :: "clang_api \<Rightarrow> Decl set \<Rightarrow> Decl \<Rightarrow> bool" where
  "plain_queryable A U d \<longleftrightarrow> d \<in> U \<and> \<not> is_template d \<and> decl_kind d \<noteq> UsingDecl \<and>
     (decl_kind d \<in> {VarDecl Decomposition, VarDecl ParmVar} \<longrightarrow> is_local A d \<or> decl_name d = []) \<and>
     (decl_kind d = EnumConstantDecl \<longrightarrow> (\<exists>parent. decl_context d = Some parent \<and> decl_kind parent = EnumDecl))"

definition queryable :: "clang_api \<Rightarrow> Decl set \<Rightarrow> Decl \<Rightarrow> bool" where
  "queryable A U d \<longleftrightarrow> plain_queryable A U (templated A d) \<and>
     (decl_kind d = ClassTemplateDecl \<longrightarrow> decl_kind (templated A d) = RecordDecl) \<and>
     (decl_kind d = FunctionTemplateDecl \<longrightarrow> decl_kind (templated A d) = FunctionDecl) \<and>
     (decl_kind d = TypeAliasTemplateDecl \<longrightarrow> decl_kind (templated A d) = TypedefNameDecl) \<and>
     (decl_kind d = VarTemplateDecl \<longrightarrow> (\<exists>v. decl_kind (templated A d) = VarDecl v))"

lemma getNamedDeclSymbol_templated:
  "queryable A U d \<Longrightarrow> getNamedDeclSymbol A wyhash d = getNamedDeclSymbol A wyhash (templated A d)"
  by (auto simp: queryable_def templated_def is_template_def getNamedDeclSymbol_def getClassTemplateSymbol_def
      getFunctionTemplateSymbol_def getTypeAliasTemplateSymbol_def getVarTemplateSymbol_def split: if_splits)

lemma local_entries_append:
  assumes "map_of (declBasedCache F) k = None"
  shows "local_entries A U f (declStore k s F\<lparr>localVariableCounters := m\<rparr>) = local_entries A U f F @ (if k \<in> local_keys A U f then [(k, s)] else [])"
  using assms by (simp add: local_entries_def declStore_def hmap_emplace_def)

lemma counter_of_next: "counter_of (counter_next f m) g = (if g = f then counter_of m f + 1 else counter_of m g)"
  by (simp add: counter_next_def counter_of_def)

lemma local_symbol_ok:
  assumes ok: "clang_ok A wyhash fmm U" and d: "d \<in> U" "decl_suffix A wyhash fmm d = None" "local_decl A d"
  shows "query_ok A wyhash fmm U UNIV None (decl_name d \<noteq> []) (getNextLocalSymbol A d)"
proof (cases "decl_name d = []")
  case True
  then have "getNextLocalSymbol A d = (\<lambda>F. Inr (None, F))" by (simp add: getNextLocalSymbol_def fun_eq_iff)
  then show ?thesis using True by (simp add: query_ok_none)
next
  case named: False
  let ?k = "getCanonicalDecl A (decl_ptr d)" and ?f = "decl_file A d"
  show ?thesis unfolding query_ok_def
  proof (intro allI impI)
    fix F assume F: "symbols_ok A wyhash fmm U F"
    show "\<exists>r F'. getNextLocalSymbol A d F = Inr (r, F') \<and> symbols_ok A wyhash fmm U F' \<and> adds UNIV F F' \<and> tells None (decl_name d \<noteq> []) r"
    proof (cases "map_of (declBasedCache F) ?k")
      case (Some s)
      then have "getNextLocalSymbol A d F = Inr (Some s, F)" using named by (simp add: getNextLocalSymbol_def getSymbolCached_def)
      moreover have "s \<noteq> []" using F d(1) Some by (auto simp: symbols_ok_def decls_ok_def tells_def)
      ultimately show ?thesis using F adds_refl by (auto simp: tells_def)
    next
      case None
      define s where "s = formatLocal (counter_of (localVariableCounters F) ?f)"
      define F' where "F' = declStore ?k s F\<lparr>localVariableCounters := counter_next ?f (localVariableCounters F)\<rparr>"
      have ne: "s \<noteq> []" by (simp add: s_def formatLocal_def)
      then have run: "getNextLocalSymbol A d F = Inr (Some s, F')" using named None
        by (simp add: getNextLocalSymbol_def getSymbolCached_def Let_def F'_def s_def declStore_def decl_file_def)
      have "tells (decl_suffix A wyhash fmm d') True (Some s)" if "d' \<in> U" "getCanonicalDecl A (decl_ptr d') = ?k" for d'
        using clang_ok_agree [OF ok that(1) d(1) that(2)] d(2) ne by (simp add: tells_def)
      with F None have "decls_ok A wyhash fmm U (declBasedCache F')"
        by (auto simp: symbols_ok_def decls_ok_def F'_def declStore_def)
      moreover have "locals_ok A U F'"
      proof -
        have "distinct (map fst (declBasedCache F'))" using F by (simp add: F'_def declStore_def symbols_ok_def locals_ok_def)
        moreover have "local_entries A U f F' = local_entries A U f F @ (if f = ?f then [(?k, s)] else [])" for f
          using local_entries_append [OF None, of A U f _ s] clang_ok_local [OF ok d(1)] d(3) by (simp add: F'_def)
        moreover have "counter_of (localVariableCounters F') f = (if f = ?f then counter_of (localVariableCounters F) f + 1 else counter_of (localVariableCounters F) f)" for f
          by (simp add: F'_def counter_of_next)
        ultimately show ?thesis using F by (auto simp: symbols_ok_def locals_ok_def s_def)
      qed
      ultimately have "symbols_ok A wyhash fmm U F'" using F by (simp add: symbols_ok_def F'_def declStore_def)
      moreover have "adds UNIV F F'" using None by (auto simp: adds_def F'_def declStore_def)
      ultimately show ?thesis using run ne by (auto simp: tells_def)
    qed
  qed
qed

lemma member_symbol_ok:
  assumes ok: "clang_ok A wyhash fmm U" and d: "d \<in> U" "decl_kind d \<notin> {TranslationUnitDecl, ExternCContextDecl}" "\<not> local_decl A d"
    and sfx: "sfx \<noteq> UnspecifiedSuffix" "sfx \<noteq> LocalSuffix"
      "decl_suffix A wyhash fmm d = member_suffix A wyhash fmm (decl_context d) (descr (decl_name d) [] sfx)"
  shows "query_ok A wyhash fmm U UNIV (decl_suffix A wyhash fmm d) (known_context A fmm (decl_context d) (decl_location d))
    (getSymbolCached A d (memberSymbol A wyhash sfx d))"
proof -
  obtain c where c: "c \<in> U" "decl_context d = Some c" using clang_ok_context [OF ok d(1,2)] by blast
  note up = context_symbol_ok [OF ok c(1), of "decl_location d", folded c(2)]
  have "query_ok A wyhash fmm U (chain_keys A (decl_context d)) (decl_suffix A wyhash fmm d)
      (known_context A fmm (decl_context d) (decl_location d)) (memberSymbol A wyhash sfx d)"
    unfolding memberSymbol_def [abs_def] by (rule query_ok_member [OF up sfx(1,2)]) (simp add: sfx(3) member_suffix_def)
  from query_ok_cached [OF ok d(1) clang_ok_fresh [OF ok d(1)] d(3) this] show ?thesis by (auto intro: query_ok_weaken)
qed

lemma tag_query_ok:
  assumes ok: "clang_ok A wyhash fmm U" and d: "d \<in> U" "isa_TagDecl d"
  shows "query_ok A wyhash fmm U UNIV (decl_suffix A wyhash fmm d) (decl_name d \<noteq> [] \<and> known_context A fmm (decl_context d) (decl_location d))
    (getTagSymbol A wyhash d)"
proof -
  obtain c where c: "c \<in> U" "decl_context d = Some c" using clang_ok_context [OF ok d(1)] d(2) by (auto simp: isa_TagDecl_def)
  note up = query_ok_weaken [OF context_symbol_ok [OF ok c(1), of "decl_location d", folded c(2)] subset_refl]
  have "query_ok A wyhash fmm U (chain_keys A (Some d)) (decl_suffix A wyhash fmm d)
      (decl_name d \<noteq> [] \<and> known_context A fmm (decl_context d) (decl_location d)) (getTagSymbol A wyhash d)"
    unfolding getTagSymbol_def
    by (rule tag_symbol_ok [where up = "getContextSymbol A wyhash (decl_context d)", OF ok d]) (auto intro: up)
  then show ?thesis by (auto intro: query_ok_weaken)
qed

lemma function_query_ok:
  assumes ok: "clang_ok A wyhash fmm U" and d: "d \<in> U" "decl_kind d = FunctionDecl"
  shows "query_ok A wyhash fmm U UNIV (decl_suffix A wyhash fmm d) (known_context A fmm (decl_context d) (decl_location d))
    (getFunctionSymbol A wyhash d)"
proof -
  obtain c where c: "c \<in> U" "decl_context d = Some c" using clang_ok_context [OF ok d(1)] d(2) by auto
  note up = context_symbol_ok [OF ok c(1), of "decl_location d", folded c(2)]
  from function_symbol_ok [where up = "getContextSymbol A wyhash (decl_context d)", OF ok d up]
  show ?thesis unfolding getFunctionSymbol_def by (auto intro: query_ok_weaken)
qed

lemma namespace_query_ok:
  assumes ok: "clang_ok A wyhash fmm U" and d: "d \<in> U" "decl_kind d = NamespaceDecl"
  shows "query_ok A wyhash fmm U UNIV (decl_suffix A wyhash fmm d) (known_context A fmm (decl_context d) (decl_location d))
    (getNamespaceSymbol A wyhash d)"
proof -
  obtain c where c: "c \<in> U" "decl_context d = Some c" using clang_ok_context [OF ok d(1)] d(2) by auto
  note up = context_symbol_ok [OF ok c(1), of "decl_location d", folded c(2)]
  from namespace_symbol_ok [where up = "getContextSymbol A wyhash (decl_context d)", OF ok d up]
  show ?thesis unfolding getNamespaceSymbol_def getNamespaceSymbolPrefix_def by (auto intro: query_ok_weaken)
qed

text \<open>The context of an enumerator is the enumeration, or what is around it.\<close>

lemma enum_constant_query_ok:
  assumes ok: "clang_ok A wyhash fmm U" and d: "plain_queryable A U d" "decl_kind d = EnumConstantDecl"
  shows "query_ok A wyhash fmm U UNIV (decl_suffix A wyhash fmm d) (known_context A fmm (symbol_context A d) (decl_location d))
    (getEnumConstantSymbol A wyhash d)"
proof -
  obtain parent where parent: "decl_context d = Some parent" "decl_kind parent = EnumDecl" using d by (auto simp: plain_queryable_def)
  have U: "d \<in> U" "parent \<in> U" using d parent(1) clang_ok_context [OF ok, of d] by (auto simp: plain_queryable_def)
  obtain c where c: "c \<in> U" "decl_context parent = Some c" using clang_ok_context [OF ok U(2)] parent(2) by auto
  let ?ctx = "symbol_context A d" and ?l = "decl_location d"
  define q where "q = (\<lambda>F. if isScoped A (decl_ptr parent) then getEnumSymbol A wyhash parent F
                   else getContextSymbol A wyhash (decl_context parent) ?l F)"
  have keys: "chain_keys A (decl_context parent) \<subseteq> chain_keys A (decl_context d)" using parent(1) chain_keys_Some [of A parent] by auto
  have enum: "known_context A fmm (Some parent) ?l = (decl_name parent \<noteq> [] \<and> known_context A fmm (decl_context parent) (decl_location parent))"
    "decl_suffix A wyhash fmm parent = context_suffix A wyhash fmm (Some parent)"
    using parent(2) by (cases parent; simp add: decl_suffix_def)+
  have "query_ok A wyhash fmm U (chain_keys A (decl_context d)) (context_suffix A wyhash fmm ?ctx) (known_context A fmm ?ctx ?l) q"
  proof (cases "isScoped A (decl_ptr parent)")
    case True
    note up = query_ok_weaken [OF context_symbol_ok [OF ok c(1), of "decl_location parent", folded c(2)] subset_refl]
    have "query_ok A wyhash fmm U (chain_keys A (Some parent)) (decl_suffix A wyhash fmm parent)
      (decl_name parent \<noteq> [] \<and> known_context A fmm (decl_context parent) (decl_location parent)) (getTagSymbol A wyhash parent)"
      unfolding getTagSymbol_def using parent(2)
      by (intro tag_symbol_ok [where up = "getContextSymbol A wyhash (decl_context parent)", OF ok U(2)]) (auto simp: isa_TagDecl_def intro: up)
    then show ?thesis using True parent(1) enum by (simp add: q_def symbol_context_def d(2) getEnumSymbol_def [abs_def])
  next
    case False
    from query_ok_weaken [OF context_symbol_ok [OF ok c(1), of ?l, folded c(2)] keys, of "known_context A fmm ?ctx ?l" "context_suffix A wyhash fmm ?ctx"]
    show ?thesis using False parent(1) by (simp add: q_def symbol_context_def d(2))
  qed
  from query_ok_member [OF this, of TermSuffix "decl_suffix A wyhash fmm d" "decl_name d" "[]"]
  have "query_ok A wyhash fmm U (chain_keys A (decl_context d)) (decl_suffix A wyhash fmm d) (known_context A fmm ?ctx ?l)
      (\<lambda>F. rbind (q F) (\<lambda>(opt, F1). formatNamed opt \<lparr>descr_name = decl_name d, disambiguator = [], suffix = TermSuffix\<rparr> F1))"
    using d(2) parent(1) by (simp add: decl_suffix_def member_suffix_def symbol_context_def)
  from query_ok_cached [OF ok U(1) clang_ok_fresh [OF ok U(1)] nonlocal_kind this] parent d(2)
  show ?thesis unfolding getEnumConstantSymbol_def q_def by (auto intro: query_ok_weaken)
qed

lemma shadowSuffix_kind: "shadowSuffix A wyhash d = Some (dis, sfx) \<Longrightarrow> sfx \<noteq> UnspecifiedSuffix \<and> sfx \<noteq> LocalSuffix"
  unfolding shadowSuffix_def shadowRound_def by (auto split: if_splits DeclKind.splits)

lemma shadow_query_ok:
  assumes ok: "clang_ok A wyhash fmm U" and d: "d \<in> U" "decl_kind d = UsingShadowDecl"
  shows "query_ok A wyhash fmm U UNIV (decl_suffix A wyhash fmm d)
    (decl_name d \<noteq> [] \<and> decl_suffix A wyhash fmm d \<noteq> None \<and> known_context A fmm (decl_context d) (decl_location d)) (getUsingShadowSymbol A wyhash d)"
proof (cases "decl_name d = [] \<or> getUnderlyingDecl A (decl_ptr d) = None")
  case True
  then have "getUsingShadowSymbol A wyhash d = (\<lambda>F. Inr (None, F))" by (auto simp: getUsingShadowSymbol_def fun_eq_iff)
  moreover have "\<not> (decl_name d \<noteq> [] \<and> decl_suffix A wyhash fmm d \<noteq> None)" using True d(2) by (auto simp: decl_suffix_def)
  ultimately show ?thesis by (auto simp: query_ok_none)
next
  case False
  then obtain u where u: "decl_name d \<noteq> []" "getUnderlyingDecl A (decl_ptr d) = Some u" by auto
  let ?known = "decl_suffix A wyhash fmm d \<noteq> None \<and> known_context A fmm (decl_context d) (decl_location d)"
  obtain c where c: "c \<in> U" "decl_context d = Some c" using clang_ok_context [OF ok d(1)] d(2) by auto
  note up = query_ok_weaken [OF context_symbol_ok [OF ok c(1), of "decl_location d", folded c(2)] subset_refl, of ?known]
  define q where "q = (\<lambda>F0. rbind (getContextSymbol A wyhash (decl_context d) (decl_location d) F0) (\<lambda>(optContextSymbol, F1).
     case optContextSymbol of
       None \<Rightarrow> Inr (None, F1)
     | Some c \<Rightarrow> (case shadowSuffix A wyhash u of None \<Rightarrow> Inr (None, F1)
         | Some (dis, sfx) \<Rightarrow> formatNamed (Some c) \<lparr>descr_name = decl_name d, disambiguator = dis, suffix = sfx\<rparr> F1)))"
  have "query_ok A wyhash fmm U (chain_keys A (decl_context d)) (decl_suffix A wyhash fmm d) ?known q"
    unfolding q_def
  proof (rule query_ok_extend)
    show "query_ok A wyhash fmm U (chain_keys A (decl_context d)) (context_suffix A wyhash fmm (decl_context d)) ?known
      (getContextSymbol A wyhash (decl_context d) (decl_location d))" by (rule up) simp_all
  next
    fix c' F assume F: "symbols_ok A wyhash fmm U F"
    show "\<exists>r F'. (case shadowSuffix A wyhash u of None \<Rightarrow> Inr (None, F)
         | Some (dis, sfx) \<Rightarrow> formatNamed (Some c') \<lparr>descr_name = decl_name d, disambiguator = dis, suffix = sfx\<rparr> F) = Inr (r, F') \<and>
      symbols_ok A wyhash fmm U F' \<and> adds (chain_keys A (decl_context d)) F F' \<and>
      extends (context_suffix A wyhash fmm (decl_context d)) c' (decl_suffix A wyhash fmm d) ?known r"
    proof (cases "shadowSuffix A wyhash u")
      case None
      with u(2) d(2) F adds_refl show ?thesis by (auto simp: extends_def decl_suffix_def)
    next
      case (Some ds)
      obtain dis sfx where ds: "ds = (dis, sfx)" by (cases ds)
      have "\<exists>r. formatNamed (Some c') \<lparr>descr_name = decl_name d, disambiguator = dis, suffix = sfx\<rparr> F = Inr (r, F) \<and>
          extends (context_suffix A wyhash fmm (decl_context d)) c' (decl_suffix A wyhash fmm d) ?known r"
        using shadowSuffix_kind [of A wyhash u dis sfx] Some ds u(2) d(2)
        by (intro formatNamed_extends) (auto simp: decl_suffix_def member_suffix_def)
      with Some ds F adds_refl show ?thesis by auto
    qed
  qed
  from query_ok_cached [OF ok d(1) clang_ok_fresh [OF ok d(1)] nonlocal_kind this] d(2)
  have "query_ok A wyhash fmm U UNIV (decl_suffix A wyhash fmm d) (decl_name d \<noteq> [] \<and> ?known) (getSymbolCached A d q)"
    by (auto intro: query_ok_weaken)
  then show ?thesis using u unfolding getUsingShadowSymbol_def [abs_def] q_def by simp
qed

lemma var_query_ok:
  assumes ok: "clang_ok A wyhash fmm U" and d: "plain_queryable A U d" "decl_kind d = VarDecl v"
  shows "query_ok A wyhash fmm U UNIV (decl_suffix A wyhash fmm d)
    (decl_name d \<noteq> [] \<and> (is_local A d \<or> decl_suffix A wyhash fmm d \<noteq> None \<and> known_context A fmm (decl_context d) (decl_location d)))
    (getVarSymbol A wyhash d)"
proof -
  have U: "d \<in> U" using d(1) by (simp add: plain_queryable_def)
  consider "is_local A d" | "\<not> is_local A d" "decl_name d = []"
    | "\<not> is_local A d" "decl_name d \<noteq> []" "v \<in> {VarTemplatePartialSpecialization, VarTemplateSpecialization, PlainVar}"
    | "\<not> is_local A d" "decl_name d \<noteq> []" "v \<in> {OMPCapturedExpr, OtherVar}"
    using d by (cases v) (auto simp: plain_queryable_def)
  then show ?thesis
  proof cases
    case 1
    then have "getVarSymbol A wyhash d = getNextLocalSymbol A d"
      by (simp add: getVarSymbol_def getLocalVarOrParmSymbol_def is_local_def fun_eq_iff)
    moreover have "decl_suffix A wyhash fmm d = None" using 1 d(2) by (simp add: decl_suffix_def)
    ultimately show ?thesis using local_symbol_ok [OF ok U] 1 d(2) by (simp add: local_decl_def)
  next
    case 2
    then have "getVarSymbol A wyhash d = (\<lambda>F. Inr (None, F))" by (auto simp: getVarSymbol_def is_local_def fun_eq_iff)
    then show ?thesis using 2 by (simp add: query_ok_none)
  next
    case 3
    then have nl: "\<not> local_decl A d" using d(2) by (simp add: local_decl_def)
    from 3 have "getVarSymbol A wyhash d = getSymbolCached A d (memberSymbol A wyhash TermSuffix d)"
      using d(2) unfolding getVarSymbol_def is_local_def fun_eq_iff by (auto cong del: DeclKind.case_cong_weak)
    moreover have "decl_suffix A wyhash fmm d = member_suffix A wyhash fmm (decl_context d) (descr (decl_name d) [] TermSuffix)"
      using 3 d(2) by (simp add: decl_suffix_def)
    ultimately show ?thesis using member_symbol_ok [OF ok U, of TermSuffix] d(2) 3 nl by (auto intro: query_ok_weaken)
  next
    case 4
    then have "getVarSymbol A wyhash d = getSymbolCached A d (\<lambda>F. Inr (None, F))"
      using d(2) unfolding getVarSymbol_def is_local_def fun_eq_iff by auto
    moreover have "query_ok A wyhash fmm U {} (decl_suffix A wyhash fmm d) False (\<lambda>F. Inr (None, F))" by (simp add: query_ok_none)
    moreover have "decl_suffix A wyhash fmm d = None" using 4 d(2) by (auto simp: decl_suffix_def)
    moreover have "\<not> local_decl A d" using 4(1) d(2) by (simp add: local_decl_def)
    ultimately show ?thesis using query_ok_cached [OF ok U, of "{}" False] 4(1) by (auto intro: query_ok_weaken)
  qed
qed

lemma named_decl_query_ok:
  assumes ok: "clang_ok A wyhash fmm U" and d: "plain_queryable A U d"
  shows "query_ok A wyhash fmm U UNIV (decl_suffix A wyhash fmm d) (known_decl A wyhash fmm d) (getNamedDeclSymbol A wyhash d)"
proof -
  let ?X = "decl_suffix A wyhash fmm d" and ?c = "known_context A fmm (decl_context d) (decl_location d)"
  have U: "d \<in> U" using d by (simp add: plain_queryable_def)
  have weaken: "query_ok A wyhash fmm U UNIV ?X (known_decl A wyhash fmm d) q"
    if "query_ok A wyhash fmm U UNIV ?X known q" "known_decl A wyhash fmm d \<longrightarrow> known" for q known
    using that by (auto intro: query_ok_weaken)
  have loc: "query_ok A wyhash fmm U UNIV ?X (known_decl A wyhash fmm d) (getNextLocalSymbol A d)" if "?X = None" "decl_kind d \<noteq> NamespaceDecl" "local_decl A d"
    using local_symbol_ok [OF ok U that(1,3)] that by (intro weaken) (auto simp: known_decl_def)
  have other: "query_ok A wyhash fmm U UNIV ?X (known_decl A wyhash fmm d) (\<lambda>F. Inr (None, F))" if "?X = None" "\<not> local_decl A d"
    using that by (simp add: query_ok_none known_decl_def)
  have tag: "query_ok A wyhash fmm U UNIV ?X (known_decl A wyhash fmm d) (getTagSymbol A wyhash d)" if "isa_TagDecl d"
    using that by (intro weaken [OF tag_query_ok [OF ok U that]]) (auto simp: known_decl_def local_decl_def isa_TagDecl_def symbol_context_def)
  show ?thesis
  proof (cases "decl_kind d")
    case FunctionDecl
    then show ?thesis using weaken [OF function_query_ok [OF ok U FunctionDecl]]
      by (simp add: getNamedDeclSymbol_def known_decl_def local_decl_def symbol_context_def)
  next
    case NamespaceDecl
    then show ?thesis using weaken [OF namespace_query_ok [OF ok U NamespaceDecl]]
      by (simp add: getNamedDeclSymbol_def known_decl_def local_decl_def symbol_context_def)
  next
    case EnumConstantDecl
    then show ?thesis using weaken [OF enum_constant_query_ok [OF ok d EnumConstantDecl]]
      by (simp add: getNamedDeclSymbol_def known_decl_def local_decl_def)
  next
    case UsingShadowDecl
    then show ?thesis using weaken [OF shadow_query_ok [OF ok U UsingShadowDecl]]
      by (simp add: getNamedDeclSymbol_def known_decl_def local_decl_def symbol_context_def)
  next
    case (VarDecl v)
    then show ?thesis using weaken [OF var_query_ok [OF ok d VarDecl]]
      by (simp add: getNamedDeclSymbol_def known_decl_def local_decl_def symbol_context_def)
  next
    case TypedefNameDecl
    then have "?X = member_suffix A wyhash fmm (decl_context d) (descr (decl_name d) [] TypeSuffix)" by (simp add: decl_suffix_def)
    from weaken [OF member_symbol_ok [OF ok U _ _ _ _ this]] TypedefNameDecl show ?thesis
      by (simp add: getNamedDeclSymbol_def getTypedefNameSymbol_def known_decl_def local_decl_def symbol_context_def)
  next
    case FieldDecl
    then have X: "?X = member_suffix A wyhash fmm (decl_context d) (descr (decl_name d) [] TermSuffix)" by (simp add: decl_suffix_def)
    show ?thesis
    proof (cases "decl_name d = []")
      case True
      then have "getNamedDeclSymbol A wyhash d = (\<lambda>F. Inr (None, F))" using FieldDecl by (simp add: getNamedDeclSymbol_def getFieldSymbol_def fun_eq_iff)
      then show ?thesis using True FieldDecl by (simp add: query_ok_none known_decl_def)
    next
      case False
      with weaken [OF member_symbol_ok [OF ok U _ _ _ _ X]] FieldDecl show ?thesis
        by (simp add: getNamedDeclSymbol_def getFieldSymbol_def [abs_def] known_decl_def local_decl_def symbol_context_def)
    qed
  qed (use loc other tag d in \<open>simp_all add: getNamedDeclSymbol_def decl_suffix_def getBindingSymbol_def getTemplateParmSymbol_def
      getRecordSymbol_def getEnumSymbol_def isa_TagDecl_def local_decl_def plain_queryable_def is_template_def\<close>)
qed

lemma symbols_ok_fresh: "symbols_ok A wyhash fmm U (mkSymbolFormatter fmm)"
  by (simp add: symbols_ok_def decls_ok_def prefixes_ok_def locals_ok_def local_entries_def counter_of_def mkSymbolFormatter_def)

lemma queries_ok:
  assumes ok: "clang_ok A wyhash fmm U"
  shows "symbols_ok A wyhash fmm U F \<Longrightarrow> \<forall>d \<in> set ds. queryable A U d \<Longrightarrow>
    \<exists>rs F'. lookup_all (getNamedDeclSymbol A wyhash) ds F = Inr (rs, F') \<and> symbols_ok A wyhash fmm U F' \<and>
      list_all2 (\<lambda>d. tells (decl_suffix A wyhash fmm (templated A d)) (known_decl A wyhash fmm (templated A d))) ds rs"
proof (induction ds arbitrary: F)
  case (Cons d ds)
  then have d: "queryable A U d" by simp
  then have "plain_queryable A U (templated A d)" by (simp add: queryable_def)
  from named_decl_query_ok [OF ok this] Cons.prems(1) obtain r F1 where
    r: "getNamedDeclSymbol A wyhash d F = Inr (r, F1)" "symbols_ok A wyhash fmm U F1"
      "tells (decl_suffix A wyhash fmm (templated A d)) (known_decl A wyhash fmm (templated A d)) r"
    unfolding query_ok_def getNamedDeclSymbol_templated [OF d, symmetric] by blast
  from Cons.IH [OF r(2)] Cons.prems(2) obtain rs F' where
    "lookup_all (getNamedDeclSymbol A wyhash) ds F1 = Inr (rs, F')" "symbols_ok A wyhash fmm U F'"
    "list_all2 (\<lambda>d. tells (decl_suffix A wyhash fmm (templated A d)) (known_decl A wyhash fmm (templated A d))) ds rs" by auto
  with r show ?case by auto
qed simp

text \<open>
  C24: The formatter answers a sequence of queries for declarations of a translation unit without a
  failed check. Every declaration that is known to have a symbol gets one, and for a declaration
  whose chain of contexts has names, the part of its symbol that does not depend on the package
  is determined by these names and the type of functions alone: whichever redeclaration was
  asked for first, and whatever is in the caches. This is what the resolution of forward
  declarations across translation units relies on.
\<close>

theorem symbols_tell_names:
  assumes "clang_ok A wyhash fmm U" "\<forall>d \<in> set ds. queryable A U d"
  shows "\<exists>rs F'. lookup_all (getNamedDeclSymbol A wyhash) ds (mkSymbolFormatter fmm) = Inr (rs, F') \<and>
    list_all2 (\<lambda>d r. (known_decl A wyhash fmm (templated A d) \<longrightarrow> r \<noteq> None) \<and>
      (\<forall>s x. r = Some s \<longrightarrow> decl_suffix A wyhash fmm (templated A d) = Some x \<longrightarrow> getPackageAgnosticSuffix s = Some x)) ds rs"
proof -
  obtain rs F' where run: "lookup_all (getNamedDeclSymbol A wyhash) ds (mkSymbolFormatter fmm) = Inr (rs, F')"
      "list_all2 (\<lambda>d. tells (decl_suffix A wyhash fmm (templated A d)) (known_decl A wyhash fmm (templated A d))) ds rs"
    using queries_ok [OF assms(1) symbols_ok_fresh assms(2)] by blast
  from run(2) have "list_all2 (\<lambda>d r. (known_decl A wyhash fmm (templated A d) \<longrightarrow> r \<noteq> None) \<and>
      (\<forall>s x. r = Some s \<longrightarrow> decl_suffix A wyhash fmm (templated A d) = Some x \<longrightarrow> getPackageAgnosticSuffix s = Some x)) ds rs"
    by (rule list.rel_mono_strong) (auto simp: tells_def)
  with run(1) show ?thesis by blast
qed

definition sample_tu :: Decl where
  "sample_tu = Decl 0 TranslationUnitDecl [] 0 None"

text \<open>Two declarations of one class in files of different packages.\<close>

definition sample_class :: "nat \<Rightarrow> SourceLocation \<Rightarrow> Decl" where
  "sample_class p l = Decl p RecordDecl ''C'' l (Some (Decl 1 NamespaceDecl ''n'' 10 (Some sample_tu)))"

definition sample_metadata :: "string \<Rightarrow> FileMetadata" where
  "sample_metadata n = \<lparr>stableFileId = \<lparr>sf_path = \<lparr>rel_value = n @ ''.h'', rel_kind = External\<rparr>, isInProject = False, isSynthetic = False\<rparr>,
     originalPath = ''/'' @ n @ ''/'' @ n @ ''.h'', packageInfo = Some (sample_package n (''/'' @ n) False)\<rparr>"

definition sample_files :: FileMetadataMap where
  "sample_files = \<lparr>fm_storage = [], fm_map = [(FileID 1, sample_metadata ''a''), (FileID 2, sample_metadata ''b'')],
     fm_projectRootPath = \<lparr>root_value = ''/p'', root_kind = Project\<rparr>, fm_buildRootPath = \<lparr>root_value = ''/q'', root_kind = Build\<rparr>,
     fm_packageMap = sample_packages\<rparr>"

definition sample_clang :: clang_api where
  "sample_clang = \<lparr>getFileID = (\<lambda>l. if l = 0 then InvalidFileID else if l < 100 then FileID 1 else FileID 2),
     getExpansionLoc = (\<lambda>l. l), getPresumedLoc = (\<lambda>l b. None), getMainFileID = FileID 1,
     getSpellingLoc = (\<lambda>l. l), isFileID = (\<lambda>l. True), tryGetRealPathName = (\<lambda>f. None), describeSLocEntry = (\<lambda>f. []), getDefinitionLoc = (\<lambda>p. 0), isBuiltinMacro = (\<lambda>p. False),
     getCanonicalDecl = (\<lambda>p. if p = 3 then 2 else p), getDefinition = (\<lambda>p. None), getTemplatedDecl = (\<lambda>p. sample_tu),
     getUnderlyingDecl = (\<lambda>p. None), isScoped = (\<lambda>p. False), isLocalVarDeclOrParm = (\<lambda>p. False), isLocalExternDecl = (\<lambda>p. False),
     isTemplateInstantiation = (\<lambda>p. False), getInstantiatedFromMemberFunction = (\<lambda>p. None), getSpecializedTemplate = (\<lambda>p. None),
     getInstantiatedFromMemberTemplate = (\<lambda>p. None), getTemplatedFunction = (\<lambda>p. 0), getTypeString = (\<lambda>p. [])\<rparr>"

definition sample_decls :: "Decl set" where
  "sample_decls = {sample_tu, Decl 1 NamespaceDecl ''n'' 10 (Some sample_tu), sample_class 2 20, sample_class 3 120}"

lemma sample_clang_ok: "clang_ok sample_clang w sample_files sample_decls"
proof -
  have "checkValid ''a''" "checkValid ''b''" "checkValid ''v1''" by (simp_all add: less_eq_char_def)
  then have "metadata_known sample_clang sample_files"
    by (auto simp: metadata_known_def sample_clang_def sample_files_def fid_isValid_def getStableFileId_def getFileMetadata_def
        packageId_def sample_metadata_def sample_package_def package_ok_def)
  then show ?thesis
    by (auto simp: clang_ok_def contexts_closed_def sample_decls_def sample_tu_def sample_class_def decl_suffix_def local_decl_def)
      (auto simp: sample_clang_def)
qed

theorem symbols_tell_names_witness:
  "\<exists>r1 r2 F. lookup_all (getNamedDeclSymbol sample_clang (\<lambda>t s. 7)) [sample_class 3 120, sample_class 2 20] (mkSymbolFormatter sample_files) =
     Inr ([Some r1, Some r2], F) \<and> getPackageAgnosticSuffix r1 = Some ''n/C#'' \<and> getPackageAgnosticSuffix r2 = Some ''n/C#''"
proof -
  let ?w = "\<lambda>t s. 7" and ?ds = "[sample_class 3 120, sample_class 2 20]"
  have q: "\<forall>d \<in> set ?ds. queryable sample_clang sample_decls d"
    by (simp add: queryable_def templated_def is_template_def plain_queryable_def sample_decls_def) (simp add: sample_class_def)
  have t: "templated A (sample_class p l) = sample_class p l" for A p l by (simp add: templated_def is_template_def sample_class_def)
  have sfx: "decl_suffix sample_clang ?w sample_files (sample_class p l) = Some ''n/C#''" for p l
    by (simp add: decl_suffix_def sample_class_def sample_tu_def namespaceName_def descr_text_def descr_def Escaped_eq simple_char_def less_eq_char_def)
  have known: "known_decl sample_clang ?w sample_files (sample_class p l)" if "l \<noteq> 0" for p l
    using sfx [of p l] that by (simp add: known_decl_def symbol_context_def)
      (simp add: sample_class_def sample_tu_def known_loc_def loc_isInvalid_def sample_clang_def sample_files_def getFileMetadata_def)
  obtain rs F where run: "lookup_all (getNamedDeclSymbol sample_clang ?w) ?ds (mkSymbolFormatter sample_files) = Inr (rs, F)"
    and rs: "list_all2 (\<lambda>d r. (known_decl sample_clang ?w sample_files (templated sample_clang d) \<longrightarrow> r \<noteq> None) \<and>
      (\<forall>s x. r = Some s \<longrightarrow> decl_suffix sample_clang ?w sample_files (templated sample_clang d) = Some x \<longrightarrow> getPackageAgnosticSuffix s = Some x)) ?ds rs"
    using symbols_tell_names [OF sample_clang_ok q] by blast
  from rs obtain r1 r2 where "rs = [Some r1, Some r2]" "getPackageAgnosticSuffix r1 = Some ''n/C#''" "getPackageAgnosticSuffix r2 = Some ''n/C#''"
    using known [of 120 3] known [of 20 2] sfx unfolding t list_all2_Cons1 by (auto simp: t)
  with run show ?thesis by blast
qed

lemma sample_symbol_texts:
  "formatDescriptor (descr ''n'' [] NamespaceSuffix) = Inr ''n/''"
  "formatDescriptor (descr ''C'' [] TypeSuffix) = Inr ''C#''"
  by (simp_all add: descr_def Escaped_eq simple_char_def less_eq_char_def)


subsection \<open>One symbol per entity\<close>

lemma getSymbolCached_stores:
  assumes "getSymbolCached A d q F = Inr (Some s, F')"
  shows "map_of (declBasedCache F') (getCanonicalDecl A (decl_ptr d)) = Some s"
proof (cases "map_of (declBasedCache F) (getCanonicalDecl A (decl_ptr d))")
  case (Some t)
  with assms show ?thesis by (simp add: getSymbolCached_def)
next
  case None
  then obtain r F1 where "q F = Inr (r, F1)" using assms by (cases "q F") (auto simp: getSymbolCached_def)
  with None assms show ?thesis by (cases r) (auto simp: getSymbolCached_def Let_def enforcing_def split: if_splits)
qed

lemma answer_cached:
  assumes "plain_queryable A U d" "decl_kind d \<noteq> NamespaceDecl" "getNamedDeclSymbol A wyhash d F = Inr (Some s, F')"
  shows "map_of (declBasedCache F') (getCanonicalDecl A (decl_ptr d)) = Some s"
proof -
  let ?stored = "map_of (declBasedCache F') (getCanonicalDecl A (decl_ptr d)) = Some s"
  note stores = getSymbolCached_stores [of A d _ F s F']
  have loc: ?stored if "getNextLocalSymbol A d F = Inr (Some s, F')"
    using that stores unfolding getNextLocalSymbol_def by (auto split: if_splits)
  have var: ?stored if "getVarSymbol A wyhash d F = Inr (Some s, F')"
    using that loc stores unfolding getVarSymbol_def getLocalVarOrParmSymbol_def enforcing_eq_Inr by (auto simp: enforcing_eq_Inr split: if_splits)
  have field: ?stored if "getFieldSymbol A wyhash d F = Inr (Some s, F')"
    using that stores unfolding getFieldSymbol_def by (auto split: if_splits)
  have shadow: ?stored if "getUsingShadowSymbol A wyhash d F = Inr (Some s, F')"
    using that stores unfolding getUsingShadowSymbol_def by (auto split: if_splits option.splits)
  have kinds: "\<not> is_template d" "decl_kind d \<noteq> UsingDecl" using assms(1) by (auto simp: plain_queryable_def)
  show ?thesis
    by (cases "decl_kind d"; insert assms(2,3) kinds)
      (simp_all add: getNamedDeclSymbol_def getBindingSymbol_def getEnumConstantSymbol_def getEnumSymbol_def
        getFunctionSymbol_def functionSymbolIn_def getTemplateParmSymbol_def getRecordSymbol_def getTagSymbol_def tagSymbolIn_def
        getTypedefNameSymbol_def is_template_def loc var field shadow stores)
qed

lemma queries_cached:
  assumes ok: "clang_ok A wyhash fmm U"
  shows "symbols_ok A wyhash fmm U F \<Longrightarrow> \<forall>d \<in> set ds. queryable A U d \<Longrightarrow> lookup_all (getNamedDeclSymbol A wyhash) ds F = Inr (rs, F') \<Longrightarrow>
    symbols_ok A wyhash fmm U F' \<and> adds UNIV F F' \<and>
    list_all2 (\<lambda>d r. r \<noteq> None \<and> decl_kind (templated A d) \<noteq> NamespaceDecl \<longrightarrow>
      map_of (declBasedCache F') (getCanonicalDecl A (decl_ptr (templated A d))) = r) ds rs"
proof (induction ds arbitrary: F rs)
  case Nil
  then show ?case by (simp add: adds_refl)
next
  case (Cons d ds)
  then have d: "queryable A U d" by simp
  then have plain: "plain_queryable A U (templated A d)" by (simp add: queryable_def)
  from named_decl_query_ok [OF ok this] Cons.prems(1) obtain r F1 where
    r: "getNamedDeclSymbol A wyhash d F = Inr (r, F1)" "symbols_ok A wyhash fmm U F1" "adds UNIV F F1"
    unfolding query_ok_def getNamedDeclSymbol_templated [OF d, symmetric] by blast
  then obtain rs' where rs: "rs = r # rs'" "lookup_all (getNamedDeclSymbol A wyhash) ds F1 = Inr (rs', F')"
    using Cons.prems(3) by (auto simp: result_simps)
  have IH: "symbols_ok A wyhash fmm U F'" "adds UNIV F1 F'" "list_all2 (\<lambda>d r. r \<noteq> None \<and> decl_kind (templated A d) \<noteq> NamespaceDecl \<longrightarrow>
      map_of (declBasedCache F') (getCanonicalDecl A (decl_ptr (templated A d))) = r) ds rs'"
    using Cons.IH [OF r(2) _ rs(2)] Cons.prems(2) by auto
  have "map_of (declBasedCache F') (getCanonicalDecl A (decl_ptr (templated A d))) = Some s"
    if "r = Some s" "decl_kind (templated A d) \<noteq> NamespaceDecl" for s
    using answer_cached [OF plain that(2), of wyhash F s F1] r(1) that(1) IH(2)
    unfolding getNamedDeclSymbol_templated [OF d] by (simp add: adds_def)
  with IH adds_trans [OF r(3) IH(2)] rs(1) show ?case by auto
qed

lemma formatLocal_inj: "formatLocal a = formatLocal b \<Longrightarrow> a = b"
  by (simp add: formatLocal_def word_unat_eq_iff)

lemma local_entries_distinct:
  assumes F: "locals_ok A U F" and U: "finite U" "card (local_keys A U f) \<le> 2 ^ 32"
    and k: "k \<in> local_keys A U f" "k' \<in> local_keys A U f" "k \<noteq> k'"
    and s: "map_of (declBasedCache F) k = Some s" "map_of (declBasedCache F) k' = Some s'"
  shows "s \<noteq> s'"
proof
  assume eq: "s = s'"
  let ?es = "local_entries A U f F"
  have es: "map snd ?es = map (\<lambda>i. formatLocal (of_nat i)) [0..<length ?es]" and d: "distinct (map fst (declBasedCache F))"
    using F by (auto simp: locals_ok_def)
  have keys: "distinct (map fst ?es)" "set (map fst ?es) \<subseteq> local_keys A U f"
    using d unfolding local_entries_def by (auto simp: distinct_map_filter)
  have "finite (local_keys A U f)" using U(1) by (simp add: local_keys_def)
  then have "length ?es \<le> 2 ^ 32" using card_mono [OF _ keys(2)] distinct_card [OF keys(1)] U(2) by simp
  have "(k, s) \<in> set ?es" "(k', s') \<in> set ?es" using s k by (auto simp: local_entries_def dest: map_of_SomeD)
  then obtain a b where ab: "a < length ?es" "?es ! a = (k, s)" "b < length ?es" "?es ! b = (k', s')" by (auto simp: in_set_conv_nth)
  then have "formatLocal (of_nat a) = formatLocal (of_nat b)" using eq es
    by (metis (no_types, lifting) add_0 length_map length_upt minus_nat.diff_0 nth_map nth_upt snd_conv)
  then have "(of_nat a :: 32 word) = of_nat b" by (rule formatLocal_inj)
  moreover have "a < 2 ^ 32" "b < 2 ^ 32" using ab \<open>length ?es \<le> 2 ^ 32\<close> by auto
  ultimately have "a = b" by (simp add: word_of_nat_eq_iff take_bit_nat_eq_self)
  with ab k(3) show False by simp
qed

text \<open>
  C23: A symbol stands for one entity. In any sequence of queries all declarations of an entity,
  namespaces apart, get the same symbol, and two different local entities of a file, such as
  variables, parameters and template parameters, get different symbols as long as the file has
  at most \<^verbatim>\<open>2^32\<close> of them, the number of values of the counter.
\<close>

theorem symbols_identify_entities:
  assumes "clang_ok A wyhash fmm U" "finite U" "\<forall>d \<in> set ds. queryable A U d"
    and "lookup_all (getNamedDeclSymbol A wyhash) ds (mkSymbolFormatter fmm) = Inr (rs, F)"
    and "i < length ds" "j < length ds" "d = templated A (ds ! i)" "d' = templated A (ds ! j)" "rs ! i = Some s" "rs ! j = Some s'"
    and "decl_kind d \<noteq> NamespaceDecl" "decl_kind d' \<noteq> NamespaceDecl"
  shows "(getCanonicalDecl A (decl_ptr d) = getCanonicalDecl A (decl_ptr d') \<longrightarrow> s = s') \<and>
    (getCanonicalDecl A (decl_ptr d) \<noteq> getCanonicalDecl A (decl_ptr d') \<and> local_decl A d \<and> local_decl A d' \<and>
       decl_file A d = decl_file A d' \<and> card (local_keys A U (decl_file A d)) \<le> 2 ^ 32 \<longrightarrow> s \<noteq> s')"
proof -
  have F: "symbols_ok A wyhash fmm U F" and rs: "list_all2 (\<lambda>d r. r \<noteq> None \<and> decl_kind (templated A d) \<noteq> NamespaceDecl \<longrightarrow>
      map_of (declBasedCache F) (getCanonicalDecl A (decl_ptr (templated A d))) = r) ds rs"
    using queries_cached [OF assms(1) symbols_ok_fresh assms(3,4)] by blast+
  note stored = list_all2_nthD [OF rs]
  have s: "map_of (declBasedCache F) (getCanonicalDecl A (decl_ptr d)) = Some s" "map_of (declBasedCache F) (getCanonicalDecl A (decl_ptr d')) = Some s'"
    using stored [OF assms(5)] stored [OF assms(6)] assms(7-12) by auto
  have U: "d \<in> U" "d' \<in> U" using assms(3,5-8) nth_mem by (auto simp: queryable_def plain_queryable_def)
  have "locals_ok A U F" using F by (simp add: symbols_ok_def)
  note distinct = local_entries_distinct [OF this assms(2), of "decl_file A d", OF _ _ _ _ s]
  have "s \<noteq> s'" if l: "getCanonicalDecl A (decl_ptr d) \<noteq> getCanonicalDecl A (decl_ptr d')" "local_decl A d" "local_decl A d'"
      "decl_file A d = decl_file A d'" "card (local_keys A U (decl_file A d)) \<le> 2 ^ 32"
    using l(2-4) by (intro distinct [OF l(5) _ _ l(1)]) (simp_all only: clang_ok_local [OF assms(1) U(1)] clang_ok_local [OF assms(1) U(2)])
  with s show ?thesis by fastforce
qed

definition sample_param :: "nat \<Rightarrow> string \<Rightarrow> Decl" where
  "sample_param p n = Decl p TemplateTypeParmDecl n 30 (Some sample_tu)"

lemma sample_params_ok: "clang_ok sample_clang w sample_files {sample_tu, sample_param 5 ''T'', sample_param 6 ''V''}"
  using sample_clang_ok [of w]
  by (auto simp: clang_ok_def contexts_closed_def sample_tu_def sample_param_def decl_suffix_def local_decl_def)
    (auto simp: sample_clang_def)

theorem symbols_identify_entities_witness:
  "\<exists>rs F. lookup_all (getNamedDeclSymbol sample_clang (\<lambda>t s. 7)) [sample_param 5 ''T'', sample_param 6 ''V'', sample_param 5 ''T'']
      (mkSymbolFormatter sample_files) = Inr (rs, F) \<and> rs ! 0 = rs ! 2 \<and> rs ! 0 \<noteq> rs ! 1"
proof -
  let ?w = "\<lambda>t s. 7" and ?ds = "[sample_param 5 ''T'', sample_param 6 ''V'', sample_param 5 ''T'']"
  let ?U = "{sample_tu, sample_param 5 ''T'', sample_param 6 ''V''}"
  have q: "\<forall>d \<in> set ?ds. queryable sample_clang ?U d"
    by (simp add: queryable_def templated_def is_template_def plain_queryable_def sample_param_def)
  have t: "templated sample_clang (sample_param p n) = sample_param p n" for p n by (simp add: templated_def is_template_def sample_param_def)
  have k: "decl_kind (sample_param p n) \<noteq> NamespaceDecl" "local_decl sample_clang (sample_param p n)"
      "decl_file sample_clang (sample_param p n) = FileID 1" for p n
    by (simp_all add: sample_param_def local_decl_def decl_file_def sample_clang_def)
  have c: "getCanonicalDecl sample_clang (decl_ptr (sample_param 5 n)) = 5" "getCanonicalDecl sample_clang (decl_ptr (sample_param 6 n)) = 6" for n
    by (simp_all add: sample_param_def sample_clang_def)
  have "local_keys sample_clang ?U (FileID 1) \<subseteq> {0, 5, 6}"
    by (auto simp: local_keys_def sample_param_def sample_tu_def sample_clang_def)
  then have "card (local_keys sample_clang ?U (FileID 1)) \<le> card {0, 5, 6 :: nat}" by (rule card_mono [rotated]) simp
  then have card: "card (local_keys sample_clang ?U (FileID 1)) \<le> 2 ^ 32" by simp
  have digits: "digit_char 0 = CHR ''0''" "digit_char (Suc 0) = CHR ''1''" by code_simp+
  obtain F where run: "lookup_all (getNamedDeclSymbol sample_clang ?w) ?ds (mkSymbolFormatter sample_files) =
      Inr ([Some ''local 0'', Some ''local 1'', Some ''local 0''], F)"
    by (simp add: sample_param_def sample_clang_def mkSymbolFormatter_def getNamedDeclSymbol_def getTemplateParmSymbol_def getNextLocalSymbol_def
        getSymbolCached_def counter_of_def counter_next_def formatLocal_def hmap_emplace_def Let_def fmt_nat.simps digits)
  note entities = symbols_identify_entities [OF sample_params_ok _ q run]
  have "''local 0'' = ''local 0''"
    by (rule entities [of 0 2 "sample_param 5 ''T''" "sample_param 5 ''T''", THEN conjunct1, rule_format]) (simp_all add: t k)
  moreover have "''local 0'' \<noteq> ''local 1''"
    by (rule entities [of 0 1 "sample_param 5 ''T''" "sample_param 6 ''V''", THEN conjunct2, rule_format])
      (use card in \<open>simp_all only: t k c\<close>, simp_all add: t)
  ultimately show ?thesis using run by simp
qed

end
