(* ===== verification/Macro_Indexer.thy ===== *)
theory Macro_Indexer
  imports Symbol_Suffixes Scip_Builders
begin

text \<open>
  Occurrences of macros and the ranges of includes, which the preprocessor reports while a
  translation unit is read: \<^verbatim>\<open>FileLocalSourceRange\<close>, \<^verbatim>\<open>FileLocalMacroOccurrence\<close>,
  \<^verbatim>\<open>NonFileBasedMacro\<close> and \<^verbatim>\<open>MacroIndexer\<close> of indexer/Indexer.h and indexer/Indexer.cc.

  A \<^verbatim>\<open>clang::MacroInfo\<close> is its address. The codes of the enumerations of the SCIP protocol are
  fields of \<open>scip_codes\<close>.
\<close>

subsection \<open>Source ranges\<close>

record FileLocalSourceRange =
  startLine :: "32 word"
  startColumn :: "32 word"
  endLine :: "32 word"
  endColumn :: "32 word"

definition compareSourceRange :: "FileLocalSourceRange \<Rightarrow> FileLocalSourceRange \<Rightarrow> strong_ordering" where
  "compareSourceRange r1 r2 =
     CMP_EXPR (startLine r1) (startLine r2)
     (CMP_EXPR (startColumn r1) (startColumn r2)
     (CMP_EXPR (endLine r1) (endLine r2)
     (CMP_EXPR (endColumn r1) (endColumn r2) SO_equal)))"

text \<open>\<^verbatim>\<open>getPresumedLoc\<close> with a result that the code reads without asking whether it is valid.\<close>

definition presumed :: "clang_api \<Rightarrow> SourceLocation \<Rightarrow> PresumedLoc result" where
  "presumed A loc = opt_value (getPresumedLoc A loc True)"

definition fromNonEmpty :: "clang_api \<Rightarrow> SourceLocation \<times> SourceLocation \<Rightarrow> (FileLocalSourceRange \<times> FileID) result" where
  "fromNonEmpty A inclusiveRange =
     (let (start, end') = inclusiveRange
      in enforcing (\<not> loc_isInvalid start) ''start.isValid()''
         (enforcing (\<not> loc_isInvalid end') ''end.isValid()''
         (enforcing (start \<le> end') ''called fromNonEmpty with empty range''
         (let fileId = getFileID A start
          in enforcing (getFileID A end' = fileId) ''range should not be split across files''
             (rbind (presumed A start) (\<lambda>startPLoc.
              rbind (presumed A end') (\<lambda>endPLoc.
                Inr (\<lparr>startLine = pl_line startPLoc, startColumn = pl_column startPLoc,
                      endLine = pl_line endPLoc, endColumn = pl_column endPLoc\<rparr>, fileId))))))))"

definition makeEmpty :: "clang_api \<Rightarrow> SourceLocation \<Rightarrow> FileLocalSourceRange result" where
  "makeEmpty A loc = rbind (presumed A loc) (\<lambda>pl.
     Inr \<lparr>startLine = pl_line pl, startColumn = pl_column pl, endLine = pl_line pl, endColumn = pl_column pl\<rparr>)"

text \<open>The range as the protocol has it; an unsigned number becomes a signed one.\<close>

definition range_addTo :: "FileLocalSourceRange \<Rightarrow> int list" where
  "range_addTo r = [sint (startLine r - 1), sint (startColumn r - 1)] @
     (if startLine r \<noteq> endLine r then [sint (endLine r - 1)] else []) @ [sint (endColumn r - 1)]"

subsection \<open>Occurrences of macros\<close>

datatype Role = DefinitionRole | ReferenceRole

record Token =
  tok_location :: SourceLocation
  tok_length :: "32 word"

record MacroDefinition =
  isAmbiguous :: bool
  md_macroInfo :: "nat option"

record FileLocalMacroOccurrence =
  mo_range :: FileLocalSourceRange
  mo_defInfo :: nat
  mo_role :: Role

record scip_codes =
  role_Definition :: int
  kind_IdentifierMacro :: int
  kind_IdentifierMacroDefinition :: int

definition compareMacroOccurrences :: "FileLocalMacroOccurrence \<Rightarrow> FileLocalMacroOccurrence \<Rightarrow> strong_ordering" where
  "compareMacroOccurrences m1 m2 = compareSourceRange (mo_range m1) (mo_range m2)"

definition mkFileLocalMacroOccurrence :: "clang_api \<Rightarrow> Token \<Rightarrow> nat \<Rightarrow> Role \<Rightarrow> FileLocalMacroOccurrence result" where
  "mkFileLocalMacroOccurrence A macroToken defInfo role =
     (let startLoc = getSpellingLoc A (tok_location macroToken); endLoc = startLoc + tok_length macroToken
      in rbind (fromNonEmpty A (startLoc, endLoc)) (\<lambda>(r, _).
           Inr \<lparr>mo_range = r, mo_defInfo = defInfo, mo_role = role\<rparr>))"

definition emitOccurrence ::
  "clang_api \<Rightarrow> scip_codes \<Rightarrow> FileLocalMacroOccurrence \<Rightarrow> SymbolFormatter \<Rightarrow> (Occurrence \<times> SymbolFormatter) result" where
  "emitOccurrence A codes m F =
     rbind (getMacroSymbol A (getDefinitionLoc A (mo_defInfo m)) F) (\<lambda>(name, F1).
       Inr (\<lparr>range = range_addTo (mo_range m), symbol = name,
             symbol_roles = (case mo_role m of DefinitionRole \<Rightarrow> role_Definition codes | ReferenceRole \<Rightarrow> 0),
             override_documentation = [],
             syntax_kind = (case mo_role m of DefinitionRole \<Rightarrow> kind_IdentifierMacroDefinition codes
                                            | ReferenceRole \<Rightarrow> kind_IdentifierMacro codes),
             diagnostics = []\<rparr>, F1))"

definition compareNonFileBasedMacros :: "clang_api \<Rightarrow> nat \<Rightarrow> nat \<Rightarrow> strong_ordering" where
  "compareNonFileBasedMacros A m1 m2 = spaceship (getDefinitionLoc A m1) (getDefinitionLoc A m2)"

subsection \<open>The macro indexer\<close>

record MacroIndexer =
  mx_table :: "(FileID \<times> FileLocalMacroOccurrence list) list"
  nonFileBasedMacros :: "nat list"
  includeRanges :: "(FileID \<times> ((SourceLocation \<times> SourceLocation) \<times> AbsolutePath) list) list"

definition mkMacroIndexer :: MacroIndexer where
  "mkMacroIndexer = \<lparr>mx_table = [], nonFileBasedMacros = [], includeRanges = []\<rparr>"

text \<open>A set of occurrences compares them by their ranges.\<close>

definition macro_set_insert :: "FileLocalMacroOccurrence \<Rightarrow> FileLocalMacroOccurrence list \<Rightarrow> FileLocalMacroOccurrence list" where
  "macro_set_insert m ms = (if mo_range m \<in> mo_range ` set ms then ms else ms @ [m])"

definition hmap_at :: "('k \<times> 'v list) list \<Rightarrow> 'k \<Rightarrow> 'v list" where
  "hmap_at m k = (case map_of m k of None \<Rightarrow> [] | Some v \<Rightarrow> v)"

definition mx_saveOccurrence :: "clang_api \<Rightarrow> FileID \<Rightarrow> Token \<Rightarrow> nat \<Rightarrow> Role \<Rightarrow> MacroIndexer \<Rightarrow> MacroIndexer result" where
  "mx_saveOccurrence A occFileId macroToken macroInfo role mx =
     enforcing (fid_isValid occFileId) ''trying to record occurrence outside an actual file''
       (rbind (mkFileLocalMacroOccurrence A macroToken macroInfo role) (\<lambda>m.
          Inr (mx\<lparr>mx_table := hmap_update occFileId (macro_set_insert m (hmap_at (mx_table mx) occFileId)) (mx_table mx)\<rparr>)))"

definition saveNonFileBasedMacro :: "nat \<Rightarrow> MacroIndexer \<Rightarrow> MacroIndexer" where
  "saveNonFileBasedMacro macroInfo mx = mx\<lparr>nonFileBasedMacros := hset_insert macroInfo (nonFileBasedMacros mx)\<rparr>"

definition mx_saveDefinition :: "clang_api \<Rightarrow> Token \<Rightarrow> nat option \<Rightarrow> MacroIndexer \<Rightarrow> MacroIndexer result" where
  "mx_saveDefinition A macroNameToken optMacroInfo mx =
     (case optMacroInfo of
        None \<Rightarrow> Inl (EnforceFailed ''macroInfo'')
      | Some macroInfo \<Rightarrow>
          let fileId = getFileID A (getDefinitionLoc A macroInfo)
          in if \<not> fid_isValid fileId then Inr (saveNonFileBasedMacro macroInfo mx)
             else mx_saveOccurrence A fileId macroNameToken macroInfo DefinitionRole mx)"

definition mx_saveReference :: "clang_api \<Rightarrow> Token \<Rightarrow> MacroDefinition \<Rightarrow> MacroIndexer \<Rightarrow> MacroIndexer result" where
  "mx_saveReference A macroNameToken macroDefinition mx =
     (if isAmbiguous macroDefinition then Inr mx
      else case md_macroInfo macroDefinition of
        None \<Rightarrow> Inr mx
      | Some defMacroInfo \<Rightarrow>
          if isBuiltinMacro A defMacroInfo then Inr mx
          else enforcing (\<not> loc_isInvalid (getDefinitionLoc A defMacroInfo)) ''invalid definition loc for reference''
                 (let refFileId = getFileID A (getSpellingLoc A (tok_location macroNameToken))
                  in if \<not> fid_isValid refFileId then Inr mx
                     else mx_saveOccurrence A refFileId macroNameToken defMacroInfo ReferenceRole mx))"

definition mx_saveInclude :: "FileID \<Rightarrow> SourceLocation \<times> SourceLocation \<Rightarrow> AbsolutePath \<Rightarrow> MacroIndexer \<Rightarrow> MacroIndexer" where
  "mx_saveInclude containingFileId pathRange includedFilePath mx =
     (case map_of (includeRanges mx) containingFileId of
        Some v \<Rightarrow> mx\<lparr>includeRanges := hmap_update containingFileId (v @ [(pathRange, includedFilePath)]) (includeRanges mx)\<rparr>
      | None \<Rightarrow> mx\<lparr>includeRanges := includeRanges mx @ [(containingFileId, [(pathRange, includedFilePath)])]\<rparr>)"

definition forEachIncludeInFile ::
  "MacroIndexer \<Rightarrow> FileID \<Rightarrow> (SourceLocation \<times> SourceLocation \<Rightarrow> AbsolutePath \<Rightarrow> 's \<Rightarrow> 's result) \<Rightarrow> 's \<Rightarrow> 's result" where
  "forEachIncludeInFile mx fileId callback =
     (case map_of (includeRanges mx) fileId of
        None \<Rightarrow> Inr
      | Some v \<Rightarrow> rfold (\<lambda>(range, path). callback range path) v)"

text \<open>
  The callback of \<^verbatim>\<open>emitDocumentOccurrencesAndSymbols\<close>; \<open>lift_step\<close> makes a checked step one over
  results, as the callback of \<open>extractTransformSet\<close>.
\<close>

definition lift_step :: "('a \<Rightarrow> 's \<Rightarrow> 's result) \<Rightarrow> 'a \<Rightarrow> 's result \<Rightarrow> 's result" where
  "lift_step f x r = rbind r (f x)"

definition emitMacro ::
  "clang_api \<Rightarrow> scip_codes \<Rightarrow> FileLocalMacroOccurrence \<Rightarrow> Document \<times> SymbolFormatter \<Rightarrow> (Document \<times> SymbolFormatter) result" where
  "emitMacro A codes m st =
     (let (document, F) = st
      in rbind (emitOccurrence A codes m F) (\<lambda>(occ, F1).
           case mo_role m of
             DefinitionRole \<Rightarrow>
               enforcing (symbol occ \<noteq> []) ''!occ.symbol().empty()''
                 (Inr (document\<lparr>symbols := symbols document @ [\<lparr>si_symbol = symbol occ,
                          si_documentation = [missingDocumentationPlaceholder], si_relationships = []\<rparr>],
                        occurrences := occurrences document @ [occ]\<rparr>, F1))
           | ReferenceRole \<Rightarrow> Inr (document\<lparr>occurrences := occurrences document @ [occ]\<rparr>, F1)))"

definition emitDocumentOccurrencesAndSymbols ::
  "(FileLocalMacroOccurrence list \<Rightarrow> FileLocalMacroOccurrence list) \<Rightarrow> clang_api \<Rightarrow> scip_codes \<Rightarrow> bool \<Rightarrow> FileID \<Rightarrow>
   MacroIndexer \<times> Document \<times> SymbolFormatter \<Rightarrow> (MacroIndexer \<times> Document \<times> SymbolFormatter) result" where
  "emitDocumentOccurrencesAndSymbols iter A codes deterministic fileId st =
     (let (mx, document, F) = st
      in case map_of (mx_table mx) fileId of
           None \<Rightarrow> Inr st
         | Some ms \<Rightarrow>
             rbind (extractTransformSet iter compareMacroOccurrences ms deterministic (lift_step (emitMacro A codes)) (Inr (document, F)))
               (\<lambda>(document1, F1). Inr (mx\<lparr>mx_table := hmap_update fileId [] (mx_table mx)\<rparr>, document1, F1)))"

text \<open>\<^verbatim>\<open>debug::tryGetPath\<close> of indexer/DebugHelpers.cc.\<close>

definition tryGetPath :: "clang_api \<Rightarrow> FileID \<Rightarrow> string" where
  "tryGetPath A fileId =
     (if fid_isValid fileId then
        case tryGetRealPathName A fileId of
          Some p \<Rightarrow> if p \<noteq> [] then p else ''<empty-path>''
        | None \<Rightarrow> describeSLocEntry A fileId
      else ''<invalid-FileID>'')"

definition emitNonFileBasedMacro :: "clang_api \<Rightarrow> nat \<Rightarrow> Index \<times> SymbolFormatter \<Rightarrow> (Index \<times> SymbolFormatter) result" where
  "emitNonFileBasedMacro A m st =
     (let (index, F) = st
      in rbind (getMacroSymbol A (getDefinitionLoc A m) F) (\<lambda>(name, F1).
           Inr (index\<lparr>external_symbols := external_symbols index @ [\<lparr>si_symbol = name, si_documentation = [], si_relationships = []\<rparr>]\<rparr>, F1)))"

definition mx_emitExternalSymbols ::
  "(nat list \<Rightarrow> nat list) \<Rightarrow> clang_api \<Rightarrow> bool \<Rightarrow> MacroIndexer \<times> Index \<times> SymbolFormatter \<Rightarrow>
   (MacroIndexer \<times> Index \<times> SymbolFormatter) result" where
  "mx_emitExternalSymbols iter A deterministic st =
     (let (mx, index, F) = st;
          paths = remdups (map (\<lambda>m. tryGetPath A (getFileID A (getDefinitionLoc A m))) (nonFileBasedMacros mx))
      in enforcing (length paths \<le> 1) ''non-file based macros found in''
           (rbind (extractTransformSet iter (compareNonFileBasedMacros A) (nonFileBasedMacros mx) deterministic
              (lift_step (emitNonFileBasedMacro A)) (Inr (index, F))) (\<lambda>(index1, F1).
                Inr (mx\<lparr>nonFileBasedMacros := []\<rparr>, index1, F1))))"

subsection \<open>Symbols of macros\<close>

definition macro_symbol :: "clang_api \<Rightarrow> FileMetadataMap \<Rightarrow> SourceLocation \<Rightarrow> SymbolNameRef" where
  "macro_symbol A fmm loc =
     (case getPresumedLoc A loc False of
        None \<Rightarrow> []
      | Some pl \<Rightarrow>
          let (filepath, pkg) = (case getFileMetadata fmm (pl_fileID pl) of
                Some md \<Rightarrow> (rel_value (sf_path (stableFileId md)), packageId md)
              | None \<Rightarrow> (pl_filename pl, \<lparr>pkg_name = [], pkg_version = []\<rparr>))
          in formatPackage pkg @ Escaped (filepath @ '':'' @ fmt_nat (unat (pl_line pl)) @ '':'' @ fmt_nat (unat (pl_column pl))) @ ''!'')"

definition macro_cache_ok :: "clang_api \<Rightarrow> FileMetadataMap \<Rightarrow> SymbolFormatter \<Rightarrow> bool" where
  "macro_cache_ok A fmm F \<longleftrightarrow> sfm_fileMetadataMap F = fmm \<and>
     (\<forall>l s. map_of (locationBasedCache F) l = Some s \<longrightarrow> s = macro_symbol A fmm l)"

definition macro_loc_ok :: "clang_api \<Rightarrow> SourceLocation \<Rightarrow> bool" where
  "macro_loc_ok A l \<longleftrightarrow> getPresumedLoc A l False \<noteq> None"

interpretation macro_cache: cached_lookup "getMacroSymbol A" "macro_symbol A fmm" "macro_cache_ok A fmm" "macro_loc_ok A" for A fmm
proof
  fix F l assume F: "macro_cache_ok A fmm F" and l: "macro_loc_ok A l"
  show "\<exists>F'. getMacroSymbol A l F = Inr (macro_symbol A fmm l, F') \<and> macro_cache_ok A fmm F'"
  proof (cases "map_of (locationBasedCache F) l")
    case (Some s)
    with F show ?thesis by (auto simp: getMacroSymbol_def macro_cache_ok_def)
  next
    case None
    obtain pl where pl: "getPresumedLoc A l False = Some pl" using l by (auto simp: macro_loc_ok_def)
    define F' where "F' = F\<lparr>locationBasedCache := hmap_emplace l (macro_symbol A fmm l) (locationBasedCache F)\<rparr>"
    have "getMacroSymbol A l F = Inr (macro_symbol A fmm l, F')" using None pl F
      by (auto simp: getMacroSymbol_def macro_symbol_def F'_def formatSymbol_def macro_cache_ok_def Let_def split: option.split)
    moreover have "macro_cache_ok A fmm F'" using F None by (auto simp: macro_cache_ok_def F'_def)
    ultimately show ?thesis by blast
  qed
qed

lemma macro_symbol_nonempty: "macro_loc_ok A l \<Longrightarrow> macro_symbol A fmm l \<noteq> []"
  by (auto simp: macro_symbol_def macro_loc_ok_def Let_def split: option.split prod.split)

definition macro_occurrence :: "clang_api \<Rightarrow> scip_codes \<Rightarrow> FileMetadataMap \<Rightarrow> FileLocalMacroOccurrence \<Rightarrow> Occurrence" where
  "macro_occurrence A codes fmm m =
     \<lparr>range = range_addTo (mo_range m), symbol = macro_symbol A fmm (getDefinitionLoc A (mo_defInfo m)),
      symbol_roles = (if mo_role m = DefinitionRole then role_Definition codes else 0), override_documentation = [],
      syntax_kind = (if mo_role m = DefinitionRole then kind_IdentifierMacroDefinition codes else kind_IdentifierMacro codes),
      diagnostics = []\<rparr>"

definition macro_information :: "clang_api \<Rightarrow> FileMetadataMap \<Rightarrow> FileLocalMacroOccurrence \<Rightarrow> SymbolInformation" where
  "macro_information A fmm m = \<lparr>si_symbol = macro_symbol A fmm (getDefinitionLoc A (mo_defInfo m)),
     si_documentation = [missingDocumentationPlaceholder], si_relationships = []\<rparr>"

definition macro_ok :: "clang_api \<Rightarrow> FileLocalMacroOccurrence \<Rightarrow> bool" where
  "macro_ok A m \<longleftrightarrow> macro_loc_ok A (getDefinitionLoc A (mo_defInfo m))"

lemma emitMacro_spec:
  assumes "macro_cache_ok A fmm F" "macro_ok A m"
  shows "\<exists>F'. emitMacro A codes m (doc, F) =
      Inr (doc\<lparr>occurrences := occurrences doc @ [macro_occurrence A codes fmm m],
               symbols := symbols doc @ (if mo_role m = DefinitionRole then [macro_information A fmm m] else [])\<rparr>, F') \<and>
    macro_cache_ok A fmm F'"
proof -
  obtain F' where "getMacroSymbol A (getDefinitionLoc A (mo_defInfo m)) F = Inr (macro_symbol A fmm (getDefinitionLoc A (mo_defInfo m)), F')"
      "macro_cache_ok A fmm F'"
    using macro_cache.look_valid [OF assms(1), of "getDefinitionLoc A (mo_defInfo m)"] assms(2) by (auto simp: macro_ok_def)
  moreover have "macro_symbol A fmm (getDefinitionLoc A (mo_defInfo m)) \<noteq> []"
    using assms(2) macro_symbol_nonempty by (simp add: macro_ok_def)
  ultimately show ?thesis
    by (cases "mo_role m") (simp_all add: emitMacro_def emitOccurrence_def macro_occurrence_def macro_information_def)
qed

lemma fold_lift_step: "fold (lift_step f) xs (Inr s) = rfold f xs s"
proof -
  have err: "fold (lift_step f) xs (Inl e) = Inl e" for xs e by (induction xs) (simp_all add: lift_step_def)
  show ?thesis
  proof (induction xs arbitrary: s)
    case (Cons x xs)
    have "lift_step f x (Inr s) = f x s" by (simp add: lift_step_def)
    with Cons show ?case by (cases "f x s") (simp_all add: err)
  qed simp
qed

lemma emitMacros_spec:
  assumes "macro_cache_ok A fmm F" "\<forall>m \<in> set ms. macro_ok A m"
  shows "\<exists>F'. rfold (emitMacro A codes) ms (doc, F) =
      Inr (doc\<lparr>occurrences := occurrences doc @ map (macro_occurrence A codes fmm) ms,
               symbols := symbols doc @ map (macro_information A fmm) (filter (\<lambda>m. mo_role m = DefinitionRole) ms)\<rparr>, F') \<and>
    macro_cache_ok A fmm F'"
  using assms
proof (induction ms arbitrary: doc F)
  case (Cons m ms)
  then obtain F1 where F1: "emitMacro A codes m (doc, F) =
      Inr (doc\<lparr>occurrences := occurrences doc @ [macro_occurrence A codes fmm m],
               symbols := symbols doc @ (if mo_role m = DefinitionRole then [macro_information A fmm m] else [])\<rparr>, F1)"
      "macro_cache_ok A fmm F1"
    using emitMacro_spec [of A fmm F m codes doc] by auto
  define doc1 where "doc1 = doc\<lparr>occurrences := occurrences doc @ [macro_occurrence A codes fmm m],
               symbols := symbols doc @ (if mo_role m = DefinitionRole then [macro_information A fmm m] else [])\<rparr>"
  obtain F' where "rfold (emitMacro A codes) ms (doc1, F1) =
      Inr (doc1\<lparr>occurrences := occurrences doc1 @ map (macro_occurrence A codes fmm) ms,
               symbols := symbols doc1 @ map (macro_information A fmm) (filter (\<lambda>m. mo_role m = DefinitionRole) ms)\<rparr>, F')"
      "macro_cache_ok A fmm F'"
    using Cons.IH [OF F1(2), of doc1] Cons.prems(2) by auto
  then show ?case using F1(1) by (simp add: doc1_def)
qed simp

subsection \<open>What is emitted for a file\<close>

definition macro_table_ok :: "MacroIndexer \<Rightarrow> bool" where
  "macro_table_ok mx \<longleftrightarrow> (\<forall>f ms. map_of (mx_table mx) f = Some ms \<longrightarrow> fid_isValid f \<and> distinct (map mo_range ms)) \<and>
     distinct (nonFileBasedMacros mx)"

datatype MacroEvent =
    MacroDefinedEvent Token "nat option"
  | MacroUsedEvent Token MacroDefinition
  | IncludeEvent FileID "SourceLocation \<times> SourceLocation" AbsolutePath

fun macro_event :: "clang_api \<Rightarrow> MacroEvent \<Rightarrow> MacroIndexer \<Rightarrow> MacroIndexer result" where
  "macro_event A (MacroDefinedEvent t m) mx = mx_saveDefinition A t m mx"
| "macro_event A (MacroUsedEvent t d) mx = mx_saveReference A t d mx"
| "macro_event A (IncludeEvent f r p) mx = Inr (mx_saveInclude f r p mx)"

lemma saveOccurrence_ok: "mx_saveOccurrence A f t m r mx = Inr mx' \<Longrightarrow> macro_table_ok mx \<Longrightarrow> macro_table_ok mx'"
proof -
  have insert: "distinct (map mo_range ms) \<Longrightarrow> distinct (map mo_range (macro_set_insert m ms))" for m ms
    by (simp add: macro_set_insert_def)
  show "mx_saveOccurrence A f t m r mx = Inr mx' \<Longrightarrow> macro_table_ok mx \<Longrightarrow> macro_table_ok mx'"
    by (auto simp: mx_saveOccurrence_def result_simps macro_table_ok_def hmap_at_def intro!: insert split: option.splits if_splits)
qed

lemma macro_event_ok: "macro_event A e mx = Inr mx' \<Longrightarrow> macro_table_ok mx \<Longrightarrow> macro_table_ok mx'"
proof (cases e)
  case (MacroDefinedEvent t m)
  moreover have "macro_table_ok mx \<Longrightarrow> macro_table_ok (saveNonFileBasedMacro i mx)" for i
    by (simp add: macro_table_ok_def saveNonFileBasedMacro_def)
  ultimately show "macro_event A e mx = Inr mx' \<Longrightarrow> macro_table_ok mx \<Longrightarrow> macro_table_ok mx'"
    by (auto simp: mx_saveDefinition_def Let_def dest: saveOccurrence_ok split: option.splits if_splits)
next
  case (MacroUsedEvent t d)
  then show "macro_event A e mx = Inr mx' \<Longrightarrow> macro_table_ok mx \<Longrightarrow> macro_table_ok mx'"
    by (auto simp: mx_saveReference_def Let_def result_simps dest: saveOccurrence_ok split: option.splits if_splits)
next
  case (IncludeEvent f r p)
  then show "macro_event A e mx = Inr mx' \<Longrightarrow> macro_table_ok mx \<Longrightarrow> macro_table_ok mx'"
    by (auto simp: mx_saveInclude_def macro_table_ok_def split: option.splits)
qed

lemma macro_events_ok: "rfold (macro_event A) es mx = Inr mx' \<Longrightarrow> macro_table_ok mx \<Longrightarrow> macro_table_ok mx'"
proof (induction es arbitrary: mx)
  case (Cons e es)
  then obtain mx1 where "macro_event A e mx = Inr mx1" "rfold (macro_event A) es mx1 = Inr mx'" by (auto simp: result_simps)
  with Cons macro_event_ok show ?case by blast
qed simp

text \<open>Ranges are compared by their four numbers, occurrences of a set by their ranges.\<close>

definition range_keys :: "FileLocalSourceRange \<Rightarrow> 32 word \<times> 32 word \<times> 32 word \<times> 32 word" where
  "range_keys r = (startLine r, startColumn r, endLine r, endColumn r)"

lemma macro_set_order:
  assumes "distinct (map mo_range ms)"
  shows "three_way compareMacroOccurrences (\<lambda>m. m \<in> set ms)"
proof (rule three_way_vimage_on [where p = "range_keys \<circ> mo_range"])
  show "three_way (cmp_then spaceship (cmp_then spaceship (cmp_then spaceship spaceship))) (\<lambda>k. True)"
    by (rule three_way_mono [OF three_way_then [OF three_way_spaceship three_way_then [OF three_way_spaceship
        three_way_then [OF three_way_spaceship three_way_spaceship]]]]) simp
  have "r = r'" if "range_keys r = range_keys r'" for r r' using that by (simp add: range_keys_def)
  with assms show "inj_on (range_keys \<circ> mo_range) {m. m \<in> set ms}" by (auto simp: distinct_map inj_on_def)
qed (simp_all add: compareMacroOccurrences_def compareSourceRange_def cmp_then_def range_keys_def CMP_EXPR_def)

lemma macro_order_canonical:
  assumes "distinct (map mo_range ms)" "permutes_lists iter"
  shows "c_sort (cmp_lt compareMacroOccurrences) (iter ms) = c_sort (cmp_lt compareMacroOccurrences) ms"
proof -
  have "distinct ms" using assms(1) by (simp add: distinct_map)
  moreover have "mset ms = mset (iter ms)" using assms(2) by (simp add: permutes_lists_def)
  ultimately show ?thesis using three_way.c_sort_canonical [OF macro_set_order [OF assms(1)], of ms "iter ms"] by simp
qed

definition lookup_ok :: "clang_api \<Rightarrow> MacroIndexer \<Rightarrow> FileID \<Rightarrow> bool" where
  "lookup_ok A mx f \<longleftrightarrow> list_all (macro_ok A) (hmap_at (mx_table mx) f)"

text \<open>
  What the macro indexer emits for a file. In deterministic mode the document gets one occurrence for
  every recorded range, in the order of the ranges, with the symbol of the definition, and
  one symbol for every definition in the same order, however the hash set enumerates its
  elements; and no check fails as long as the definitions of the macros have a location.
\<close>

lemma macro_occurrences_emitted:
  assumes "macro_table_ok mx" "permutes_lists iter" "macro_cache_ok A fmm F" "lookup_ok A mx f"
    and "ms = c_sort (cmp_lt compareMacroOccurrences) (hmap_at (mx_table mx) f)"
  shows "\<exists>mx' F'. emitDocumentOccurrencesAndSymbols iter A codes True f (mx, doc, F) =
      Inr (mx', doc\<lparr>occurrences := occurrences doc @ map (macro_occurrence A codes fmm) ms,
        symbols := symbols doc @ map (macro_information A fmm) (filter (\<lambda>m. mo_role m = DefinitionRole) ms)\<rparr>, F') \<and>
    hmap_at (mx_table mx') = (hmap_at (mx_table mx))(f := []) \<and> nonFileBasedMacros mx' = nonFileBasedMacros mx \<and> macro_table_ok mx' \<and>
    macro_cache_ok A fmm F' \<and> distinct (map mo_range ms) \<and>
    sorted_wrt (cmp_lt compareMacroOccurrences) ms"
proof (cases "map_of (mx_table mx) f")
  case None
  then show ?thesis using assms(1,3,5) by (auto simp: emitDocumentOccurrencesAndSymbols_def hmap_at_def fun_eq_iff)
next
  case (Some ms0)
  then have d: "distinct (map mo_range ms0)" using assms(1) by (simp add: macro_table_ok_def)
  have ms: "ms = c_sort (cmp_lt compareMacroOccurrences) ms0" using assms(5) Some by (simp add: hmap_at_def)
  then have perm: "mset ms = mset ms0" by simp
  then have "mset (map mo_range ms) = mset (map mo_range ms0)" by simp
  then have dm: "distinct (map mo_range ms)" using d by (metis mset_eq_imp_distinct_iff)
  have "\<forall>m \<in> set ms. macro_ok A m"
    using assms(4) Some mset_eq_setD [OF perm] by (simp add: lookup_ok_def hmap_at_def list_all_iff)
  then obtain F' where "rfold (emitMacro A codes) ms (doc, F) =
      Inr (doc\<lparr>occurrences := occurrences doc @ map (macro_occurrence A codes fmm) ms,
               symbols := symbols doc @ map (macro_information A fmm) (filter (\<lambda>m. mo_role m = DefinitionRole) ms)\<rparr>, F')"
      "macro_cache_ok A fmm F'"
    using emitMacros_spec [OF assms(3)] by blast
  moreover have "sorted_wrt (cmp_lt compareMacroOccurrences) ms"
    unfolding ms using d by (intro three_way.sorted_c_sort [OF macro_set_order [OF d]]) (auto simp: distinct_map)
  moreover have "macro_table_ok (mx\<lparr>mx_table := hmap_update f [] (mx_table mx)\<rparr>)" using assms(1) Some by (simp add: macro_table_ok_def)
  moreover have "hmap_at (hmap_update f [] (mx_table mx)) = (hmap_at (mx_table mx))(f := [])" by (auto simp: hmap_at_def fun_eq_iff)
  ultimately show ?thesis using Some dm macro_order_canonical [OF d assms(2)]
    by (simp add: emitDocumentOccurrencesAndSymbols_def extractTransformSet_def fold_lift_step ms [symmetric])
qed

definition sample_macros :: clang_api where
  "sample_macros = sample_clang\<lparr>getPresumedLoc := (\<lambda>l b. Some \<lparr>pl_fileID = FileID 1, pl_filename = ''a.h'', pl_line = 1, pl_column = l\<rparr>),
     getDefinitionLoc := (\<lambda>m. 20)\<rparr>"

end
