(* ===== verification/Bounded_Search.thy ===== *)
theory Bounded_Search
  imports Prelude
begin

text \<open>
  The loop that two parts of the indexer share (base classes in \<^verbatim>\<open>TuIndexer::saveTagDecl\<close> of
  indexer/Indexer.cc, types in \<^verbatim>\<open>ApproximateNameResolver::tryResolveMember\<close> of
  indexer/ApproximateNameResolver.cc): a search with a stack, a set of what was seen and a bound on the
  number of iterations. The top of the stack is the head of the list. \<open>visit\<close> is the body of the
  loop for an element that was not seen before: it gives the elements to push, in the order in
  which they are pushed, and the new state. When the bound is reached the loop ends where it is.

  The locale \<open>bounded_search\<close> is the contract of a body whose pushes depend on the element only:
  the search then acts once on each element that can be reached, provided the bound suffices.
\<close>

fun search :: "nat \<Rightarrow> ('a \<Rightarrow> 'k) \<Rightarrow> ('a \<Rightarrow> 's \<Rightarrow> ('a list \<times> 's) result) \<Rightarrow> 'a list \<Rightarrow> 'k list \<Rightarrow> 's \<Rightarrow> 's result" where
  "search n key visit [] seen s = Inr s"
| "search 0 key visit (x # stack) seen s = Inr s"
| "search (Suc n) key visit (x # stack) seen s =
     (if key x \<in> set seen then search n key visit stack seen s
      else rbind (visit x s) (\<lambda>(pushed, s1). search n key visit (rev pushed @ stack) (key x # seen) s1))"

fun visit_order :: "nat \<Rightarrow> ('a \<Rightarrow> 'k) \<Rightarrow> ('a \<Rightarrow> 'a list) \<Rightarrow> 'a list \<Rightarrow> 'k list \<Rightarrow> 'a list" where
  "visit_order n key succs [] seen = []"
| "visit_order 0 key succs (x # stack) seen = []"
| "visit_order (Suc n) key succs (x # stack) seen =
     (if key x \<in> set seen then visit_order n key succs stack seen
      else x # visit_order n key succs (rev (succs x) @ stack) (key x # seen))"

definition reached :: "('a \<Rightarrow> 'a list) \<Rightarrow> 'a \<Rightarrow> 'a set" where
  "reached succs x = {(x, y). y \<in> set (succs x)}\<^sup>* `` {x}"

lemma reached_self [simp]: "x \<in> reached succs x"
  by (simp add: reached_def)

lemma reached_step: "y \<in> reached succs x \<Longrightarrow> set (succs y) \<subseteq> reached succs x"
  by (auto simp: reached_def intro: rtrancl_into_rtrancl)

lemma reached_least:
  assumes "x \<in> W" "\<And>y. y \<in> W \<Longrightarrow> y \<in> reached succs x \<Longrightarrow> set (succs y) \<subseteq> W"
  shows "reached succs x \<subseteq> W"
proof
  fix y assume "y \<in> reached succs x"
  then have "(x, y) \<in> {(x, y). y \<in> set (succs x)}\<^sup>*" by (simp add: reached_def)
  then show "y \<in> W"
  proof (induction rule: rtrancl_induct)
    case (step y z)
    then show ?case using assms(2) [of y] by (auto simp: reached_def)
  qed (rule assms(1))
qed

locale bounded_search =
  fixes key :: "'a \<Rightarrow> 'k"
    and visit :: "'a \<Rightarrow> 's \<Rightarrow> ('a list \<times> 's) result"
    and succs :: "'a \<Rightarrow> 'a list"
    and act :: "'a \<Rightarrow> 's \<Rightarrow> 's result"
  assumes visit_act: "visit x s = rbind (act x s) (\<lambda>s1. Inr (succs x, s1))"
begin

lemma search_order: "search n key visit stack seen s = rfold act (visit_order n key succs stack seen) s"
proof (induction n arbitrary: stack seen s)
  case 0
  then show ?case by (cases stack) simp_all
next
  case (Suc n)
  then show ?case by (cases stack) (auto simp: visit_act rbind_def split: sum.split)
qed

lemma order_fresh:
  "distinct (map key (visit_order n key succs stack seen)) \<and> key ` set (visit_order n key succs stack seen) \<inter> set seen = {}"
  by (induction n key succs stack seen rule: visit_order.induct) auto

lemma order_within:
  assumes "\<And>x. x \<in> R \<Longrightarrow> set (succs x) \<subseteq> R"
  shows "set stack \<subseteq> R \<Longrightarrow> set (visit_order n key succs stack seen) \<subseteq> R"
proof (induction n arbitrary: stack seen)
  case 0
  then show ?case by (cases stack) simp_all
next
  case (Suc n)
  show ?case
  proof (cases stack)
    case (Cons x st)
    with Suc.prems have x: "x \<in> R" and st: "set st \<subseteq> R" by auto
    have "set (rev (succs x) @ st) \<subseteq> R" using assms [OF x] st by simp
    from Suc.IH [OF this] Suc.IH [OF st] Cons x show ?thesis by auto
  qed simp
qed

definition budget :: "'a set \<Rightarrow> 'a list \<Rightarrow> 'k list \<Rightarrow> nat" where
  "budget R stack seen = length stack + (\<Sum>x \<in> {x \<in> R. key x \<notin> set seen}. length (succs x))"

lemma order_complete:
  assumes R: "finite R" "inj_on key R" "\<And>x. x \<in> R \<Longrightarrow> set (succs x) \<subseteq> R"
  shows "set stack \<subseteq> R \<Longrightarrow> budget R stack seen \<le> n \<Longrightarrow>
    (\<forall>x \<in> R. key x \<in> set seen \<longrightarrow> set (succs x) \<subseteq> {y \<in> R. key y \<in> set seen} \<union> set stack) \<Longrightarrow>
    (let W = {y \<in> R. key y \<in> set seen} \<union> set (visit_order n key succs stack seen)
     in set stack \<subseteq> W \<and> (\<forall>x \<in> W. set (succs x) \<subseteq> W))"
proof (induction n arbitrary: stack seen)
  case 0
  then have "stack = []" by (simp add: budget_def)
  with 0(3) show ?case by auto
next
  case (Suc n)
  show ?case
  proof (cases stack)
    case Nil
    with Suc.prems(3) show ?thesis by auto
  next
    case (Cons x st)
    have x: "x \<in> R" and st: "set st \<subseteq> R" using Suc.prems(1) Cons by auto
    show ?thesis
    proof (cases "key x \<in> set seen")
      case True
      have "budget R st seen \<le> n" using Suc.prems(2) Cons by (simp add: budget_def)
      moreover have "\<forall>x \<in> R. key x \<in> set seen \<longrightarrow> set (succs x) \<subseteq> {y \<in> R. key y \<in> set seen} \<union> set st"
        using Suc.prems(3) Cons True x by auto
      ultimately show ?thesis using Suc.IH [OF st] True Cons x by (simp add: Let_def)
    next
      case False
      let ?st = "rev (succs x) @ st" and ?seen = "key x # seen"
      have sub: "set ?st \<subseteq> R" using R(3) [OF x] st by auto
      have split: "{y \<in> R. key y \<notin> set seen} = insert x {y \<in> R. key y \<notin> set ?seen}"
        using x False R(2) by (auto simp: inj_on_def)
      have "budget R stack seen = Suc (budget R ?st ?seen)"
        using R(1) Cons unfolding budget_def split by simp
      then have b: "budget R ?st ?seen \<le> n" using Suc.prems(2) by simp
      have seen: "{y \<in> R. key y \<in> set ?seen} = insert x {y \<in> R. key y \<in> set seen}" using x R(2) by (auto simp: inj_on_def)
      have "\<forall>y \<in> R. key y \<in> set ?seen \<longrightarrow> set (succs y) \<subseteq> {y \<in> R. key y \<in> set ?seen} \<union> set ?st"
      proof (intro ballI impI)
        fix y assume "y \<in> R" "key y \<in> set ?seen"
        then have "y = x \<or> y \<in> R \<and> key y \<in> set seen" using seen by blast
        then show "set (succs y) \<subseteq> {y \<in> R. key y \<in> set ?seen} \<union> set ?st"
          unfolding seen using Suc.prems(3) Cons by auto
      qed
      note IH = Suc.IH [OF sub b this]
      have "visit_order (Suc n) key succs stack seen = x # visit_order n key succs ?st ?seen" using Cons False by simp
      then have W: "{y \<in> R. key y \<in> set seen} \<union> set (visit_order (Suc n) key succs stack seen) =
          {y \<in> R. key y \<in> set ?seen} \<union> set (visit_order n key succs ?st ?seen)" unfolding seen by auto
      define V where "V = {y \<in> R. key y \<in> set ?seen} \<union> set (visit_order n key succs ?st ?seen)"
      have "x \<in> V" using x by (simp add: V_def)
      moreover have "set ?st \<subseteq> V \<and> (\<forall>y \<in> V. set (succs y) \<subseteq> V)" using IH unfolding Let_def V_def .
      moreover have "{y \<in> R. key y \<in> set seen} \<union> set (visit_order (Suc n) key succs stack seen) = V" unfolding V_def by (rule W)
      ultimately show ?thesis using Cons by (auto simp only: Let_def set_append set_rev list.set)
    qed
  qed
qed

text \<open>
  Enough iterations: one for the start and one for every element that is pushed. The search acts
  once on every element that is reached from the start.
\<close>

lemma search_complete:
  assumes "finite (reached succs x)" "inj_on key (reached succs x)" "1 + (\<Sum>y \<in> reached succs x. length (succs y)) \<le> n"
  shows "\<exists>xs. search n key visit [x] [] s = rfold act xs s \<and> set xs = reached succs x \<and> distinct (map key xs)"
proof -
  let ?R = "reached succs x" and ?o = "visit_order n key succs [x] []"
  have "budget ?R [x] [] \<le> n" using assms(3) by (simp add: budget_def)
  from order_complete [OF assms(1,2) reached_step _ this] have "x \<in> set ?o" "\<forall>y \<in> set ?o. set (succs y) \<subseteq> set ?o"
    by (auto simp: Let_def)
  then have "?R \<subseteq> set ?o" by (intro reached_least) auto
  moreover have "set ?o \<subseteq> ?R" by (rule order_within [OF reached_step]) simp_all
  ultimately show ?thesis using search_order [of n "[x]" "[]" s] order_fresh [of n "[x]" "[]"] by auto
qed

text \<open>Whatever the bound, the search acts at most once on an element, and on reached ones only.\<close>

lemma search_sound:
  "\<exists>xs. search n key visit [x] [] s = rfold act xs s \<and> set xs \<subseteq> reached succs x \<and> distinct (map key xs)"
proof -
  have "set (visit_order n key succs [x] []) \<subseteq> reached succs x" by (rule order_within [OF reached_step]) simp_all
  then show ?thesis using search_order [of n "[x]" "[]" s] order_fresh [of n "[x]" "[]"] by blast
qed

end

end
