(* ===== verification/Tu_Indexer.thy ===== *)
theory Tu_Indexer
  imports Macro_Indexer Bounded_Search
begin

unbundle bit_operations_syntax

text \<open>
  The indexer of a translation unit: \<^verbatim>\<open>TuIndexer\<close> with its helpers \<^verbatim>\<open>DocComment\<close>,
  \<^verbatim>\<open>RefersToForwardDecl\<close> and \<^verbatim>\<open>ForwardDeclMap\<close> (indexer/Indexer.h, indexer/Indexer.cc), and
  \<^verbatim>\<open>ApproximateNameResolver\<close> (indexer/ApproximateNameResolver.h, indexer/ApproximateNameResolver.cc).

  What the code asks of Clang beyond \<open>clang_api\<close>, and of the libraries for text, is the record
  \<open>tu_env\<close>; declarations and types are identified by their addresses. The nodes of the syntax tree that
  the visitor reports are records with what the code reads of them.
\<close>

subsection \<open>What the indexer asks of Clang\<close>

record RawComment =
  rc_beginLoc :: SourceLocation
  rc_formattedText :: string

text \<open>
  The types are addresses too. The result of a \<^verbatim>\<open>dyn_cast\<close> or \<^verbatim>\<open>getAs\<close> on a type is the declaration
  that the code reads next; the outer option says whether the cast succeeds, an inner one whether
  there is a declaration.
\<close>

record tu_env =
  clang :: clang_api
  te_wyhash :: wyhash
  codes :: scip_codes
  StripAsciiWhitespace :: "string \<Rightarrow> string"
  utf8_is_valid :: "string \<Rightarrow> bool"
  utf8_replace_invalid :: "string \<Rightarrow> string"
  MeasureTokenLength :: "SourceLocation \<Rightarrow> 32 word"
  findNextToken :: "SourceLocation \<Rightarrow> SourceLocation option"
  getLocForStartOfFile :: "FileID \<Rightarrow> SourceLocation"
  getBeginLoc :: "nat \<Rightarrow> SourceLocation"
  declAt :: "nat \<Rightarrow> Decl"
  isThisDeclarationADefinition :: "nat \<Rightarrow> bool"
  isPureVirtual :: "nat \<Rightarrow> bool"
  overridden_methods :: "nat \<Rightarrow> Decl list option"
  isInlineNamespace :: "nat \<Rightarrow> bool"
  isCXXRecord :: "nat \<Rightarrow> bool"
  hasDefinition :: "nat \<Rightarrow> bool"
  bases :: "nat \<Rightarrow> nat list"
  isExplicitSpecialization :: "nat \<Rightarrow> bool"
  isStaticDataMember :: "nat \<Rightarrow> bool"
  isFileVarDecl :: "nat \<Rightarrow> bool"
  hasIntroducer :: "nat \<Rightarrow> bool"
  getTargetDecl :: "nat \<Rightarrow> Decl option"
  shadows :: "nat \<Rightarrow> Decl list"
  enumerators :: "nat \<Rightarrow> Decl list"
  rawCommentForDecl :: "nat \<Rightarrow> RawComment option"
  rawCommentForAnyRedecl :: "nat \<Rightarrow> RawComment option"
  templatedDecl :: "nat \<Rightarrow> Decl option"
  getCanonicalType :: "nat \<Rightarrow> nat"
  getPointeeType :: "nat \<Rightarrow> nat option"
  isPointerOrReference :: "nat \<Rightarrow> bool"
  asTypedefType :: "nat \<Rightarrow> Decl option"
  getAsTagDecl :: "nat \<Rightarrow> Decl option"
  asTemplateSpecializationType :: "nat \<Rightarrow> Decl option option"
  getAsRecordType :: "nat \<Rightarrow> Decl option"
  getAsTemplateSpecializationType :: "nat \<Rightarrow> Decl option option"
  getAsInjectedClassNameType :: "nat \<Rightarrow> nat option option"
  getRecordDefinition :: "nat \<Rightarrow> nat"
  lookupDependentName :: "nat \<Rightarrow> nat \<Rightarrow> Decl list"
  asUnresolvedUsingValue :: "nat \<Rightarrow> nat option option"

subsection \<open>Documentation comments\<close>

type_synonym DocComment = string

definition mkDocComment :: DocComment where
  "mkDocComment = missingDocumentationPlaceholder"

definition replaceIfEmpty :: "DocComment \<Rightarrow> DocComment \<Rightarrow> DocComment" where
  "replaceIfEmpty contents other =
     (if other \<noteq> [] \<and> (contents = [] \<or> contents = missingDocumentationPlaceholder) then other else contents)"

text \<open>The comment is used up; its slot is returned.\<close>

definition doc_addTo :: "tu_env \<Rightarrow> DocComment \<Rightarrow> string \<Rightarrow> string" where
  "doc_addTo E contents slot =
     (let stripped = StripAsciiWhitespace E contents
      in if stripped = [] then slot
         else if \<not> utf8_is_valid E stripped then utf8_replace_invalid E stripped
         else if length stripped = length contents then contents
         else stripped)"

definition doc_addToInfo :: "tu_env \<Rightarrow> DocComment \<Rightarrow> SymbolInformation \<Rightarrow> SymbolInformation" where
  "doc_addToInfo E c symbolInfo = symbolInfo\<lparr>si_documentation := si_documentation symbolInfo @ [doc_addTo E c []]\<rparr>"

definition empty_info :: SymbolInformation where
  "empty_info = \<lparr>si_symbol = [], si_documentation = [], si_relationships = []\<rparr>"

text \<open>\<open>i\<close> is the number of enumerators that are left before the search is given up.\<close>

fun followsPrevious :: "tu_env \<Rightarrow> nat \<Rightarrow> RawComment \<Rightarrow> nat \<Rightarrow> Decl option \<Rightarrow> Decl list \<Rightarrow> bool" where
  "followsPrevious E p comment i previous [] = False"
| "followsPrevious E p comment 0 previous (current # rest) = False"
| "followsPrevious E p comment (Suc i) previous (current # rest) =
     (if decl_ptr current \<noteq> p then followsPrevious E p comment i (Some current) rest
      else case previous of None \<Rightarrow> False | Some d \<Rightarrow> rc_beginLoc comment < getBeginLoc E (decl_ptr d))"

definition checkIfCommentBelongsToPreviousEnumCase :: "tu_env \<Rightarrow> Decl \<Rightarrow> RawComment \<Rightarrow> bool" where
  "checkIfCommentBelongsToPreviousEnumCase E d comment =
     (decl_kind d = EnumConstantDecl \<and>
      (case decl_context d of
         None \<Rightarrow> False
       | Some parent \<Rightarrow> decl_kind parent = EnumDecl \<and>
           followsPrevious E (decl_ptr d) comment 64 None (enumerators E (decl_ptr parent))))"

definition fromRawComment :: "tu_env \<Rightarrow> Decl \<Rightarrow> RawComment \<Rightarrow> DocComment" where
  "fromRawComment E d rawComment =
     (if checkIfCommentBelongsToPreviousEnumCase E d rawComment then mkDocComment else rc_formattedText rawComment)"

definition getDocComment :: "tu_env \<Rightarrow> Decl \<Rightarrow> DocComment" where
  "getDocComment E d =
     (case rawCommentForDecl E (decl_ptr d) of
        Some c \<Rightarrow> fromRawComment E d c
      | None \<Rightarrow>
         (case rawCommentForAnyRedecl E (decl_ptr d) of
            Some c \<Rightarrow> fromRawComment E d c
          | None \<Rightarrow> mkDocComment))"

subsection \<open>Forward declarations\<close>

definition refersToForwardDecl :: "tu_env \<Rightarrow> Decl \<Rightarrow> bool" where
  "refersToForwardDecl E d =
     (let p = getCanonicalDecl (clang E) (decl_ptr d)
      in case decl_kind (declAt E p) of
           VarDecl _ \<Rightarrow> \<not> isThisDeclarationADefinition E p
         | RecordDecl \<Rightarrow> \<not> isThisDeclarationADefinition E p
         | EnumDecl \<Rightarrow> \<not> isThisDeclarationADefinition E p
         | FunctionDecl \<Rightarrow> \<not> isThisDeclarationADefinition E p
         | FunctionTemplateDecl \<Rightarrow> \<not> isThisDeclarationADefinition E p
         | _ \<Rightarrow> False)"

record ForwardDeclValue =
  fwd_docComment :: DocComment
  fwd_ranges :: "(RootRelativePathRef \<times> FileLocalSourceRange) list"

type_synonym ForwardDeclMap = "(SymbolNameRef \<times> ForwardDeclValue) list"

definition fwd_insert :: "SymbolNameRef \<Rightarrow> DocComment \<Rightarrow> RootRelativePathRef \<Rightarrow> FileLocalSourceRange \<Rightarrow> ForwardDeclMap \<Rightarrow> ForwardDeclMap" where
  "fwd_insert sname docComment projectFilePath occRange m =
     (let entry = (case map_of m sname of None \<Rightarrow> \<lparr>fwd_docComment = mkDocComment, fwd_ranges = []\<rparr> | Some v \<Rightarrow> v)
      in hmap_update sname (entry\<lparr>fwd_docComment := replaceIfEmpty (fwd_docComment entry) docComment,
                                fwd_ranges := fwd_ranges entry @ [(projectFilePath, occRange)]\<rparr>) m)"

definition emitForwardDecl :: "tu_env \<Rightarrow> SymbolNameRef \<Rightarrow> ForwardDeclValue \<Rightarrow> ForwardDecl list \<Rightarrow> ForwardDecl list result" where
  "emitForwardDecl E sname v out =
     (case getPackageAgnosticSuffix sname of
        None \<Rightarrow> Inl (EnforceFailed ''missing $ in symbol name'')
      | Some sfx \<Rightarrow>
          Inr (out @ [\<lparr>fd_suffix = sfx, fd_documentation = doc_addTo E (fwd_docComment v) [],
                       fd_references = map (\<lambda>(path, r). \<lparr>ref_relative_path = rel_value path, ref_range = range_addTo r\<rparr>) (fwd_ranges v)\<rparr>]))"

definition fwd_emit :: "(ForwardDeclMap \<Rightarrow> ForwardDeclMap) \<Rightarrow> tu_env \<Rightarrow> bool \<Rightarrow> ForwardDeclMap \<Rightarrow> ForwardDecl list \<Rightarrow> ForwardDecl list result" where
  "fwd_emit iter E deterministic m out =
     extractTransformMap iter cmpStr m deterministic (\<lambda>sname v. lift_step (emitForwardDecl E sname) v) (Inr out)"

subsection \<open>The resolver of dependent names\<close>

record ApproximateNameResolver =
  dependentNameLookupCache :: "((nat \<times> nat) \<times> Decl list) list"

definition mkApproximateNameResolver :: ApproximateNameResolver where
  "mkApproximateNameResolver = \<lparr>dependentNameLookupCache = []\<rparr>"

definition tryFindDeclForType :: "tu_env \<Rightarrow> nat \<Rightarrow> Decl option" where
  "tryFindDeclForType E type =
     (case getAsRecordType E type of
        Some d \<Rightarrow> if isCXXRecord E (decl_ptr d) then Some d else None
      | None \<Rightarrow>
         (case (case getAsInjectedClassNameType E type of Some t \<Rightarrow> t | None \<Rightarrow> Some type) of
            None \<Rightarrow> None
          | Some type1 \<Rightarrow>
             (case getAsTemplateSpecializationType E type1 of
                Some (Some templateDecl) \<Rightarrow>
                  if decl_kind templateDecl = ClassTemplateDecl then templatedDecl E (decl_ptr templateDecl) else None
              | _ \<Rightarrow> None)))"

text \<open>
  The body of the loop: the declarations of the name in the type are results, except for those
  that a using declaration brings in from a type that is not known yet; that type is looked at later.
\<close>

definition dependentLookup :: "tu_env \<Rightarrow> nat \<Rightarrow> nat \<Rightarrow> Decl list" where
  "dependentLookup E name type =
     (case tryFindDeclForType E type of
        None \<Rightarrow> []
      | Some d \<Rightarrow> if hasDefinition E (decl_ptr d)
                   then filter (\<lambda>r. decl_kind r \<noteq> UsingDecl) (lookupDependentName E (getRecordDefinition E (decl_ptr d)) name)
                   else [])"

definition resolveInType :: "tu_env \<Rightarrow> nat \<Rightarrow> nat \<Rightarrow> Decl list \<Rightarrow> (nat list \<times> Decl list) result" where
  "resolveInType E name type results =
     (let found = dependentLookup E name type
      in Inr (concat (map (\<lambda>d. case asUnresolvedUsingValue E (decl_ptr d) of Some (Some t) \<Rightarrow> [t] | _ \<Rightarrow> []) found),
              results @ filter (\<lambda>d. asUnresolvedUsingValue E (decl_ptr d) = None) found))"

definition tryResolveMember ::
  "tu_env \<Rightarrow> nat option \<Rightarrow> nat \<Rightarrow> ApproximateNameResolver \<Rightarrow> (Decl list \<times> ApproximateNameResolver) result" where
  "tryResolveMember E optType name R =
     (case optType of
        None \<Rightarrow> Inr ([], R)
      | Some type \<Rightarrow>
          let lookupKey = (getCanonicalType E type, name)
          in case map_of (dependentNameLookupCache R) lookupKey of
               Some results \<Rightarrow> Inr (results, R)
             | None \<Rightarrow>
                 rbind (search 10000 id (resolveInType E name) [type] [] []) (\<lambda>results.
                   Inr (results, R\<lparr>dependentNameLookupCache := hmap_emplace lookupKey results (dependentNameLookupCache R)\<rparr>)))"

subsection \<open>State\<close>

record PartialDocument =
  pd_occurrences :: "Occurrence list"
  pd_symbolInfos :: "(SymbolNameRef \<times> SymbolInformation) list"

record TuIndexer =
  fileIdsToBeIndexed :: "FileID list"
  tu_fileMetadataMap :: FileMetadataMap
  tu_symbolFormatter :: SymbolFormatter
  approximateNameResolver :: ApproximateNameResolver
  documentMap :: "(FileID \<times> PartialDocument) list"
  tu_externalSymbols :: "(SymbolNameRef \<times> SymbolInformation) list"
  forwardDeclarations :: ForwardDeclMap

type_synonym save = "TuIndexer \<Rightarrow> TuIndexer result"

definition mkTuIndexer :: "FileID list \<Rightarrow> SymbolFormatter \<Rightarrow> FileMetadataMap \<Rightarrow> TuIndexer" where
  "mkTuIndexer toBeIndexed F fmm = \<lparr>fileIdsToBeIndexed = toBeIndexed, tu_fileMetadataMap = fmm, tu_symbolFormatter = F,
     approximateNameResolver = mkApproximateNameResolver, documentMap = [], tu_externalSymbols = [], forwardDeclarations = []\<rparr>"

definition empty_document :: PartialDocument where
  "empty_document = \<lparr>pd_occurrences = [], pd_symbolInfos = []\<rparr>"

definition document_at :: "FileID \<Rightarrow> TuIndexer \<Rightarrow> PartialDocument" where
  "document_at fileId tu = (case map_of (documentMap tu) fileId of None \<Rightarrow> empty_document | Some doc \<Rightarrow> doc)"

text \<open>Asking the symbol formatter, which keeps its caches.\<close>

definition with_symbol :: "symbol_query \<Rightarrow> (SymbolNameRef \<Rightarrow> save) \<Rightarrow> save" where
  "with_symbol q k tu =
     rbind (q (tu_symbolFormatter tu)) (\<lambda>(optSymbol, F).
       case optSymbol of
         None \<Rightarrow> Inr (tu\<lparr>tu_symbolFormatter := F\<rparr>)
       | Some sname \<Rightarrow> k sname (tu\<lparr>tu_symbolFormatter := F\<rparr>))"

subsection \<open>Saving occurrences\<close>

definition getTokenExpansionRange :: "tu_env \<Rightarrow> SourceLocation \<Rightarrow> (FileLocalSourceRange \<times> FileID) result" where
  "getTokenExpansionRange E startExpansionLoc =
     (let tokenLength = MeasureTokenLength E startExpansionLoc
      in enforcing (0 < tokenLength) ''tokenLength > 0''
           (fromNonEmpty (clang E) (startExpansionLoc, startExpansionLoc + tokenLength)))"

definition saveOccurrenceImpl :: "SymbolNameRef \<Rightarrow> FileLocalSourceRange \<Rightarrow> FileID \<Rightarrow> int \<Rightarrow> TuIndexer \<Rightarrow> TuIndexer" where
  "saveOccurrenceImpl sname r fileId allRoles tu =
     (let occ = \<lparr>range = range_addTo r, symbol = sname, symbol_roles = allRoles, override_documentation = [], syntax_kind = 0, diagnostics = []\<rparr>;
          doc = document_at fileId tu
      in tu\<lparr>documentMap := hmap_update fileId (doc\<lparr>pd_occurrences := pd_occurrences doc @ [occ]\<rparr>) (documentMap tu)\<rparr>)"

definition tu_saveOccurrence :: "tu_env \<Rightarrow> SymbolNameRef \<Rightarrow> SourceLocation \<Rightarrow> int \<Rightarrow> TuIndexer \<Rightarrow> (TuIndexer \<times> FileID) result" where
  "tu_saveOccurrence E sname expansionLoc allRoles tu =
     rbind (getTokenExpansionRange E expansionLoc) (\<lambda>(r, fileId). Inr (saveOccurrenceImpl sname r fileId allRoles tu, fileId))"

definition saveForwardDeclaration :: "tu_env \<Rightarrow> SymbolNameRef \<Rightarrow> SourceLocation \<Rightarrow> DocComment \<Rightarrow> save" where
  "saveForwardDeclaration E sname loc docComment tu =
     rbind (getTokenExpansionRange E (getExpansionLoc (clang E) loc)) (\<lambda>(r, fileId).
       if fileId \<notin> set (fileIdsToBeIndexed tu) then Inr tu
       else case getStableFileId (tu_fileMetadataMap tu) fileId of
              None \<Rightarrow> Inr tu
            | Some sf \<Rightarrow>
                if \<not> isInProject sf then Inr tu
                else Inr (tu\<lparr>forwardDeclarations := fwd_insert sname docComment (sf_path sf) r (forwardDeclarations tu)\<rparr>))"

definition saveReference :: "tu_env \<Rightarrow> SymbolNameRef \<Rightarrow> SourceLocation \<Rightarrow> Decl option \<Rightarrow> int \<Rightarrow> save" where
  "saveReference E sname loc maybeFwdDecl extraRoles tu =
     (let expansionLoc = getExpansionLoc (clang E) loc; fileId = getFileID (clang E) expansionLoc
      in if fileId \<notin> set (fileIdsToBeIndexed tu) then Inr tu
         else case getStableFileId (tu_fileMetadataMap tu) fileId of
                None \<Rightarrow> Inr tu
              | Some sf \<Rightarrow>
                  if \<not> isInProject sf then Inr tu
                  else enforcing (extraRoles AND role_Definition (codes E) = 0) ''use saveDefinition instead''
                    (case maybeFwdDecl of
                       Some d \<Rightarrow>
                         if refersToForwardDecl E d
                         then rbind (getTokenExpansionRange E expansionLoc) (\<lambda>(r, _).
                                Inr (tu\<lparr>forwardDeclarations := fwd_insert sname (getDocComment E d) (sf_path sf) r (forwardDeclarations tu)\<rparr>))
                         else rbind (tu_saveOccurrence E sname expansionLoc extraRoles tu) (\<lambda>(tu1, _). Inr tu1)
                     | None \<Rightarrow> rbind (tu_saveOccurrence E sname expansionLoc extraRoles tu) (\<lambda>(tu1, _). Inr tu1)))"

definition saveExternalSymbol :: "SymbolNameRef \<Rightarrow> SymbolInformation \<Rightarrow> TuIndexer \<Rightarrow> TuIndexer" where
  "saveExternalSymbol sname symbolInfo tu =
     (case map_of (tu_externalSymbols tu) sname of
        None \<Rightarrow> tu\<lparr>tu_externalSymbols := tu_externalSymbols tu @ [(sname, symbolInfo)]\<rparr>
      | Some old \<Rightarrow>
          if si_documentation old = [] \<and> si_documentation symbolInfo \<noteq> []
          then tu\<lparr>tu_externalSymbols := hmap_update sname (old\<lparr>si_documentation := si_documentation symbolInfo\<rparr>) (tu_externalSymbols tu)\<rparr>
          else tu)"

definition documented :: "SymbolInformation \<Rightarrow> SymbolInformation" where
  "documented symbolInfo = (if si_documentation symbolInfo = [] then symbolInfo\<lparr>si_documentation := [missingDocumentationPlaceholder]\<rparr> else symbolInfo)"

definition addSymbolInfo :: "FileID \<Rightarrow> SymbolNameRef \<Rightarrow> SymbolInformation \<Rightarrow> TuIndexer \<Rightarrow> TuIndexer" where
  "addSymbolInfo fileId sname symbolInfo tu =
     (let doc = document_at fileId tu
      in tu\<lparr>documentMap := hmap_update fileId (doc\<lparr>pd_symbolInfos := hmap_emplace sname symbolInfo (pd_symbolInfos doc)\<rparr>) (documentMap tu)\<rparr>)"

definition saveDefinition :: "tu_env \<Rightarrow> SymbolNameRef \<Rightarrow> SourceLocation \<Rightarrow> SymbolInformation option \<Rightarrow> int \<Rightarrow> save" where
  "saveDefinition E sname loc optSymbolInfo extraRoles tu =
     (let expansionLoc = getExpansionLoc (clang E) loc; fileId = getFileID (clang E) expansionLoc
      in if fileId \<notin> set (fileIdsToBeIndexed tu) then Inr tu
         else case getStableFileId (tu_fileMetadataMap tu) fileId of
                None \<Rightarrow> Inr tu
              | Some sf \<Rightarrow>
                 let optInfo = map_option documented optSymbolInfo
                 in if isInProject sf
                    then rbind (tu_saveOccurrence E sname expansionLoc (extraRoles OR role_Definition (codes E)) tu) (\<lambda>(tu1, docFileId).
                           case optInfo of
                             None \<Rightarrow> Inr tu1
                           | Some symbolInfo \<Rightarrow> Inr (addSymbolInfo docFileId sname symbolInfo tu1))
                    else case optInfo of
                           None \<Rightarrow> Inr tu
                         | Some symbolInfo \<Rightarrow> Inr (saveExternalSymbol sname symbolInfo tu))"

subsection \<open>Files\<close>

definition saveSyntheticFileDefinition :: "tu_env \<Rightarrow> FileID \<Rightarrow> FileMetadata \<Rightarrow> save" where
  "saveSyntheticFileDefinition E fileId md tu =
     (let sf = stableFileId md
      in if isSynthetic sf \<or> \<not> isInProject sf then Inr tu
         else let fileStartLoc = getLocForStartOfFile E fileId
              in rbind (getFileSymbol md (tu_symbolFormatter tu)) (\<lambda>(sname, F).
                   let tu1 = tu\<lparr>tu_symbolFormatter := F\<rparr>
                   in if 0 < MeasureTokenLength E fileStartLoc
                      then saveDefinition E sname fileStartLoc
                             (Some (empty_info\<lparr>si_documentation := [''File: '' @ rel_value (sf_path sf)]\<rparr>)) 0 tu1
                      else rbind (makeEmpty (clang E) fileStartLoc) (\<lambda>r.
                             Inr (saveOccurrenceImpl sname r fileId (role_Definition (codes E)) tu1))))"

definition saveInclude :: "tu_env \<Rightarrow> SourceLocation \<times> SourceLocation \<Rightarrow> FileMetadata \<Rightarrow> save" where
  "saveInclude E sourceRange md tu =
     (if isSynthetic (stableFileId md) then Inr tu
      else rbind (getFileSymbol md (tu_symbolFormatter tu)) (\<lambda>(sname, F).
             let tu1 = tu\<lparr>tu_symbolFormatter := F\<rparr>
             in rbind (fromNonEmpty (clang E) sourceRange) (\<lambda>(r, fileId).
                  if fileId \<notin> set (fileIdsToBeIndexed tu1) then Inr tu1
                  else Inr (saveOccurrenceImpl sname r fileId 0 tu1))))"

subsection \<open>Declarations\<close>

definition saveBindingDecl :: "tu_env \<Rightarrow> Decl \<Rightarrow> save" where
  "saveBindingDecl E d = with_symbol (getBindingSymbol (clang E) d) (\<lambda>sname. saveDefinition E sname (decl_location d) None 0)"

definition infoFor :: "tu_env \<Rightarrow> Decl \<Rightarrow> SymbolInformation" where
  "infoFor E d = doc_addToInfo E (getDocComment E d) empty_info"

definition saveEnumConstantDecl :: "tu_env \<Rightarrow> Decl \<Rightarrow> save" where
  "saveEnumConstantDecl E d = with_symbol (getEnumConstantSymbol (clang E) (te_wyhash E) d) (\<lambda>sname tu.
     enforcing (getBeginLoc E (decl_ptr d) = decl_location d) ''enumConstantDecl.getBeginLoc() == enumConstantDecl.getLocation()''
       (saveDefinition E sname (decl_location d) (Some (infoFor E d)) 0 tu))"

definition saveFieldDecl :: "tu_env \<Rightarrow> Decl \<Rightarrow> save" where
  "saveFieldDecl E d = with_symbol (getFieldSymbol (clang E) (te_wyhash E) d) (\<lambda>sname.
     saveDefinition E sname (decl_location d) (Some (infoFor E d)) 0)"

definition saveFieldReference :: "tu_env \<Rightarrow> Decl \<Rightarrow> SourceLocation \<Rightarrow> save" where
  "saveFieldReference E d loc = with_symbol (getFieldSymbol (clang E) (te_wyhash E) d) (\<lambda>sname. saveReference E sname loc None 0)"

text \<open>One relationship for each declaration with a symbol, added to the description of a definition.\<close>

definition addRelationship :: "tu_env \<Rightarrow> bool \<Rightarrow> symbol_query \<Rightarrow> SymbolInformation \<times> SymbolFormatter \<Rightarrow> (SymbolInformation \<times> SymbolFormatter) result" where
  "addRelationship E isReference q st =
     (let (symbolInfo, F) = st
      in rbind (q F) (\<lambda>(optSymbol, F1).
           case optSymbol of
             None \<Rightarrow> Inr (symbolInfo, F1)
           | Some sname \<Rightarrow>
               Inr (symbolInfo\<lparr>si_relationships := si_relationships symbolInfo @
                      [\<lparr>rel_symbol = sname, is_reference = isReference, is_implementation = True,
                        is_type_definition = False, is_definition = False\<rparr>]\<rparr>, F1)))"

definition defineFunction :: "tu_env \<Rightarrow> Decl \<Rightarrow> SymbolNameRef \<Rightarrow> save" where
  "defineFunction E d sname tu =
     rbind (rfold (\<lambda>m. addRelationship E True (getFunctionSymbol (clang E) (te_wyhash E) m))
              (case overridden_methods E (decl_ptr d) of None \<Rightarrow> [] | Some ms \<Rightarrow> ms) (infoFor E d, tu_symbolFormatter tu))
       (\<lambda>(symbolInfo, F). saveDefinition E sname (decl_location d) (Some symbolInfo) 0 (tu\<lparr>tu_symbolFormatter := F\<rparr>))"

definition saveFunctionDecl :: "tu_env \<Rightarrow> Decl \<Rightarrow> save" where
  "saveFunctionDecl E d = with_symbol (getFunctionSymbol (clang E) (te_wyhash E) d) (\<lambda>sname.
     if isPureVirtual E (decl_ptr d) \<or> isThisDeclarationADefinition E (decl_ptr d) then defineFunction E d sname
     else saveForwardDeclaration E sname (decl_location d) (getDocComment E d))"

definition namespaceStartLoc :: "tu_env \<Rightarrow> Decl \<Rightarrow> SourceLocation result" where
  "namespaceStartLoc E d =
     (if decl_name d = [] then
        if isInlineNamespace E (decl_ptr d)
        then case findNextToken E (getBeginLoc E (decl_ptr d)) of
               None \<Rightarrow> Inl (EnforceFailed ''namespaceToken.has_value()'')
             | Some l \<Rightarrow> Inr l
        else Inr (getBeginLoc E (decl_ptr d))
      else Inr (decl_location d))"

definition saveNamespaceDecl :: "tu_env \<Rightarrow> Decl \<Rightarrow> save" where
  "saveNamespaceDecl E d = with_symbol (getNamespaceSymbol (clang E) (te_wyhash E) d) (\<lambda>sname tu.
     rbind (namespaceStartLoc E d) (\<lambda>startLoc.
       saveDefinition E sname startLoc (Some (empty_info\<lparr>si_documentation :=
         [if decl_name d = [] then ''anonymous namespace''
          else (if isInlineNamespace E (decl_ptr d) then ''inline '' else []) @ ''namespace '' @ decl_name d]\<rparr>)) 0 tu))"

text \<open>The base classes of a class, in the order in which they are pushed on the stack.\<close>

definition baseDecl :: "tu_env \<Rightarrow> nat \<Rightarrow> Decl option" where
  "baseDecl E type =
     (let cxxRecord = (\<lambda>d. if isCXXRecord E (decl_ptr d) then Some d else None); baseType = getCanonicalType E type
      in case getAsRecordType E baseType of
           Some d \<Rightarrow> cxxRecord d
         | None \<Rightarrow>
            (case getAsTemplateSpecializationType E baseType of
               Some (Some templateDecl) \<Rightarrow> Option.bind (templatedDecl E (decl_ptr templateDecl)) cxxRecord
             | _ \<Rightarrow> None))"

definition baseDecls :: "tu_env \<Rightarrow> Decl \<Rightarrow> Decl list" where
  "baseDecls E d = (if hasDefinition E (decl_ptr d) then List.map_filter (baseDecl E) (bases E (decl_ptr d)) else [])"

definition relateBase :: "tu_env \<Rightarrow> Decl \<Rightarrow> Decl \<Rightarrow> SymbolInformation \<times> SymbolFormatter \<Rightarrow> (SymbolInformation \<times> SymbolFormatter) result" where
  "relateBase E startDecl d st =
     (if decl_ptr d \<noteq> decl_ptr startDecl then addRelationship E False (getNamedDeclSymbol (clang E) (te_wyhash E) d) st else Inr st)"

definition visitBase :: "tu_env \<Rightarrow> Decl \<Rightarrow> Decl \<Rightarrow> SymbolInformation \<times> SymbolFormatter \<Rightarrow> (Decl list \<times> SymbolInformation \<times> SymbolFormatter) result" where
  "visitBase E startDecl d st = rbind (relateBase E startDecl d st) (\<lambda>st1. Inr (baseDecls E d, st1))"

definition defineTag :: "tu_env \<Rightarrow> Decl \<Rightarrow> SymbolNameRef \<Rightarrow> save" where
  "defineTag E d sname tu =
     rbind (search 10000 decl_ptr (visitBase E d) (if isCXXRecord E (decl_ptr d) then [d] else []) []
              (infoFor E d, tu_symbolFormatter tu)) (\<lambda>(symbolInfo, F).
       let tu1 = tu\<lparr>tu_symbolFormatter := F\<rparr>
       in rbind (if isExplicitSpecialization E (decl_ptr d) then saveReference E sname (decl_location d) None 0 tu1 else Inr tu1)
            (saveDefinition E sname (decl_location d) (Some symbolInfo) 0))"

definition saveTagDecl :: "tu_env \<Rightarrow> Decl \<Rightarrow> save" where
  "saveTagDecl E d = with_symbol (getTagSymbol (clang E) (te_wyhash E) d) (\<lambda>sname.
     if \<not> isThisDeclarationADefinition E (decl_ptr d)
     then saveForwardDeclaration E sname (decl_location d) (getDocComment E d)
     else defineTag E d sname)"

definition saveEnumDecl :: "tu_env \<Rightarrow> Decl \<Rightarrow> save" where
  "saveEnumDecl E d = saveTagDecl E d"

definition saveRecordDecl :: "tu_env \<Rightarrow> Decl \<Rightarrow> save" where
  "saveRecordDecl E d = saveTagDecl E d"

definition saveTemplateParmDecl :: "tu_env \<Rightarrow> Decl \<Rightarrow> save" where
  "saveTemplateParmDecl E d = with_symbol (getTemplateParmSymbol (clang E) d) (\<lambda>sname. saveDefinition E sname (decl_location d) None 0)"

definition saveTypedefNameDecl :: "tu_env \<Rightarrow> Decl \<Rightarrow> save" where
  "saveTypedefNameDecl E d = with_symbol (getNamedDeclSymbol (clang E) (te_wyhash E) d) (\<lambda>sname.
     saveDefinition E sname (decl_location d) (Some (infoFor E d)) 0)"

definition saveUsingShadowDecl :: "tu_env \<Rightarrow> Decl \<Rightarrow> save" where
  "saveUsingShadowDecl E d = with_symbol (getUsingShadowSymbol (clang E) (te_wyhash E) d) (\<lambda>sname tu.
     rbind (if hasIntroducer E (decl_ptr d) then saveDefinition E sname (decl_location d) (Some (infoFor E d)) 0 tu else Inr tu) (\<lambda>tu1.
       case getTargetDecl E (decl_ptr d) of
         None \<Rightarrow> Inr tu1
       | Some namedDecl \<Rightarrow> with_symbol (getNamedDeclSymbol (clang E) (te_wyhash E) namedDecl) (\<lambda>target.
           saveReference E target (decl_location d) None 0) tu1))"

definition saveUsingDecl :: "tu_env \<Rightarrow> Decl \<Rightarrow> save" where
  "saveUsingDecl E d = rfold (saveUsingShadowDecl E) (shadows E (decl_ptr d))"

definition saveVarDecl :: "tu_env \<Rightarrow> Decl \<Rightarrow> save" where
  "saveVarDecl E d tu =
     (let p = decl_ptr d; loc = decl_location d; query = getVarSymbol (clang E) (te_wyhash E) d;
          member = (\<lambda>tu. if isStaticDataMember E p \<or> isFileVarDecl E p
                          then with_symbol query (\<lambda>sname. saveDefinition E sname loc (Some (infoFor E d)) 0) tu else Inr tu)
      in if decl_kind d = VarDecl Decomposition then Inr tu
         else if isLocalExternDecl (clang E) p then with_symbol query (\<lambda>sname. saveReference E sname loc (Some d) 0) tu
         else if isLocalVarDeclOrParm (clang E) p
              then with_symbol query (\<lambda>sname tu. rbind (saveDefinition E sname loc None 0 tu) member) tu
              else member tu)"

text \<open>The kinds of declarations for which the code does nothing are left to other nodes of the tree.\<close>

definition saveDecl :: "tu_env \<Rightarrow> Decl \<Rightarrow> save" where
  "saveDecl E d =
     (case decl_kind d of
        BindingDecl \<Rightarrow> saveBindingDecl E d
      | EnumConstantDecl \<Rightarrow> saveEnumConstantDecl E d
      | EnumDecl \<Rightarrow> saveEnumDecl E d
      | FieldDecl \<Rightarrow> saveFieldDecl E d
      | FunctionDecl \<Rightarrow> saveFunctionDecl E d
      | NamespaceDecl \<Rightarrow> saveNamespaceDecl E d
      | NonTypeTemplateParmDecl \<Rightarrow> saveTemplateParmDecl E d
      | RecordDecl \<Rightarrow> saveRecordDecl E d
      | TemplateTemplateParmDecl \<Rightarrow> saveTemplateParmDecl E d
      | TemplateTypeParmDecl \<Rightarrow> saveTemplateParmDecl E d
      | TypedefNameDecl \<Rightarrow> saveTypedefNameDecl E d
      | UsingShadowDecl \<Rightarrow> saveUsingShadowDecl E d
      | UsingDecl \<Rightarrow> saveUsingDecl E d
      | VarDecl _ \<Rightarrow> saveVarDecl E d
      | _ \<Rightarrow> Inr)"

subsection \<open>Types\<close>

text \<open>A node that names a declaration: a type or an expression that refers to one.\<close>

record DeclLoc =
  dl_decl :: "Decl option"
  dl_loc :: SourceLocation

record TagTypeLoc =
  ttl_isDefinition :: bool
  ttl_decl :: Decl
  ttl_nameLoc :: SourceLocation

datatype TemplateName = TN_Template Decl | TN_Overloaded | TN_Assumed | TN_Qualified TemplateName | TN_Deduced TemplateName |
  TN_Dependent | TN_SubstParm | TN_SubstParmPack | TN_Using Decl

record TemplateSpecializationTypeLoc =
  tst_templateName :: TemplateName
  tst_nameLoc :: SourceLocation

datatype NestedNameSpecifier = NNS_Namespace Decl | NNS_TypeSpec "nat option" | NNS_Identifier | NNS_NamespaceAlias | NNS_Global | NNS_Super

definition saveTypedefTypeLoc :: "tu_env \<Rightarrow> DeclLoc \<Rightarrow> save" where
  "saveTypedefTypeLoc E l =
     (case dl_decl l of
        None \<Rightarrow> Inr
      | Some d \<Rightarrow> with_symbol (getTypedefNameSymbol (clang E) (te_wyhash E) d) (\<lambda>sname. saveReference E sname (dl_loc l) None 0))"

definition saveUsingTypeLoc :: "tu_env \<Rightarrow> DeclLoc \<Rightarrow> save" where
  "saveUsingTypeLoc E l =
     (case dl_decl l of
        None \<Rightarrow> Inr
      | Some d \<Rightarrow> with_symbol (getUsingShadowSymbol (clang E) (te_wyhash E) d) (\<lambda>sname. saveReference E sname (dl_loc l) None 0))"

definition saveTagTypeLoc :: "tu_env \<Rightarrow> TagTypeLoc \<Rightarrow> save" where
  "saveTagTypeLoc E l =
     (if ttl_isDefinition l then Inr
      else with_symbol (getTagSymbol (clang E) (te_wyhash E) (ttl_decl l)) (\<lambda>sname.
             saveReference E sname (ttl_nameLoc l) (Some (ttl_decl l)) 0))"

definition saveTemplateTypeParmTypeLoc :: "tu_env \<Rightarrow> DeclLoc \<Rightarrow> save" where
  "saveTemplateTypeParmTypeLoc E l =
     (case dl_decl l of
        None \<Rightarrow> (\<lambda>_. Inl NullDereference)
      | Some d \<Rightarrow> with_symbol (getTemplateParmSymbol (clang E) d) (\<lambda>sname. saveReference E sname (dl_loc l) None 0))"

definition unwrapTemplateName :: "TemplateName \<Rightarrow> TemplateName" where
  "unwrapTemplateName n0 =
     (let n1 = (case n0 of TN_Qualified n \<Rightarrow> n | _ \<Rightarrow> n0)
      in case n1 of TN_Deduced n \<Rightarrow> n | _ \<Rightarrow> n1)"

definition templateSymbol :: "tu_env \<Rightarrow> Decl \<Rightarrow> symbol_query" where
  "templateSymbol E d =
     (case decl_kind d of
        ClassTemplateDecl \<Rightarrow> getRecordSymbol (clang E) (te_wyhash E) (getTemplatedDecl (clang E) (decl_ptr d))
      | TypeAliasTemplateDecl \<Rightarrow> getTypedefNameSymbol (clang E) (te_wyhash E) (getTemplatedDecl (clang E) (decl_ptr d))
      | TemplateTemplateParmDecl \<Rightarrow> getTemplateParmSymbol (clang E) d
      | _ \<Rightarrow> (\<lambda>F. Inr (None, F)))"

definition saveTemplateSpecializationTypeLoc :: "tu_env \<Rightarrow> TemplateSpecializationTypeLoc \<Rightarrow> save" where
  "saveTemplateSpecializationTypeLoc E l =
     (let reference = (\<lambda>sname. saveReference E sname (tst_nameLoc l) None 0)
      in case unwrapTemplateName (tst_templateName l) of
           TN_Template d \<Rightarrow> with_symbol (templateSymbol E d) reference
         | TN_Using d \<Rightarrow> with_symbol (getUsingShadowSymbol (clang E) (te_wyhash E) d) reference
         | _ \<Rightarrow> Inr)"

definition declOfType :: "tu_env \<Rightarrow> nat \<Rightarrow> Decl option" where
  "declOfType E type =
     (case asTypedefType E type of
        Some d \<Rightarrow> Some d
      | None \<Rightarrow>
         (case getAsTagDecl E type of
            Some d \<Rightarrow> Some d
          | None \<Rightarrow>
             (case asTemplateSpecializationType E type of
                Some (Some templateDecl) \<Rightarrow> templatedDecl E (decl_ptr templateDecl)
              | _ \<Rightarrow> None)))"

definition trySaveTypeReference :: "tu_env \<Rightarrow> nat option \<Rightarrow> SourceLocation \<Rightarrow> save" where
  "trySaveTypeReference E optType loc =
     (case Option.bind optType (declOfType E) of
        None \<Rightarrow> Inr
      | Some namedDecl \<Rightarrow> with_symbol (getNamedDeclSymbol (clang E) (te_wyhash E) namedDecl) (\<lambda>sname.
          saveReference E sname loc (Some namedDecl) 0))"

text \<open>The parts of a qualified name from the inside out, each with the location where it begins.\<close>

fun saveNestedNameSpecifierLoc :: "tu_env \<Rightarrow> (NestedNameSpecifier \<times> SourceLocation) list \<Rightarrow> save" where
  "saveNestedNameSpecifierLoc E [] tu = Inr tu"
| "saveNestedNameSpecifierLoc E ((nameSpec, loc) # outer) tu =
     rbind (case nameSpec of
              NNS_Namespace d \<Rightarrow> with_symbol (getNamedDeclSymbol (clang E) (te_wyhash E) d) (\<lambda>sname. saveReference E sname loc None 0) tu
            | NNS_TypeSpec type \<Rightarrow> trySaveTypeReference E type loc tu
            | _ \<Rightarrow> Inr tu)
       (saveNestedNameSpecifierLoc E outer)"

subsection \<open>Expressions\<close>

record MemberName =
  mn_name :: nat
  mn_loc :: SourceLocation

record CXXConstructExpr =
  ce_constructor :: "Decl option"
  ce_isImplicit :: bool
  ce_beginLoc :: SourceLocation

record MemberExpr =
  me_memberDecl :: "Decl option"
  me_isIdentifier :: bool
  me_memberLoc :: SourceLocation

definition saveCUDAKernelCallExpr :: "tu_env \<Rightarrow> (Decl option \<times> SourceLocation) option \<Rightarrow> save" where
  "saveCUDAKernelCallExpr E config =
     (case config of
        Some (Some namedDecl, exprLoc) \<Rightarrow> with_symbol (getNamedDeclSymbol (clang E) (te_wyhash E) namedDecl) (\<lambda>sname. saveReference E sname exprLoc None 0)
      | _ \<Rightarrow> Inr)"

definition saveCXXConstructExpr :: "tu_env \<Rightarrow> CXXConstructExpr \<Rightarrow> save" where
  "saveCXXConstructExpr E e =
     (case ce_constructor e of
        None \<Rightarrow> Inr
      | Some d \<Rightarrow> if ce_isImplicit e then Inr
                   else with_symbol (getFunctionSymbol (clang E) (te_wyhash E) d) (\<lambda>sname. saveReference E sname (ce_beginLoc e) None 0))"

definition saveDeclRefExpr :: "tu_env \<Rightarrow> DeclLoc \<Rightarrow> save" where
  "saveDeclRefExpr E e =
     (case dl_decl e of
        None \<Rightarrow> Inr
      | Some foundDecl \<Rightarrow> with_symbol (getNamedDeclSymbol (clang E) (te_wyhash E) foundDecl) (\<lambda>sname.
          saveReference E sname (dl_loc e) (Some foundDecl) 0))"

definition saveMemberExpr :: "tu_env \<Rightarrow> MemberExpr \<Rightarrow> save" where
  "saveMemberExpr E e =
     (case me_memberDecl e of
        None \<Rightarrow> Inr
      | Some namedDecl \<Rightarrow> with_symbol (getNamedDeclSymbol (clang E) (te_wyhash E) namedDecl) (\<lambda>sname.
          if me_isIdentifier e then saveReference E sname (me_memberLoc e) (Some namedDecl) 0 else Inr))"

definition MAX_UNRESOLVED_DECL_LIMIT :: nat where
  "MAX_UNRESOLVED_DECL_LIMIT = 16"

fun saveUnresolvedDecls :: "tu_env \<Rightarrow> SourceLocation \<Rightarrow> Decl option list \<Rightarrow> nat \<Rightarrow> save" where
  "saveUnresolvedDecls E nameLoc [] n tu = Inr tu"
| "saveUnresolvedDecls E nameLoc (None # decls) n tu = saveUnresolvedDecls E nameLoc decls n tu"
| "saveUnresolvedDecls E nameLoc (Some namedDecl # decls) n tu =
     rbind (getNamedDeclSymbol (clang E) (te_wyhash E) namedDecl (tu_symbolFormatter tu)) (\<lambda>(optSymbol, F).
       let tu1 = tu\<lparr>tu_symbolFormatter := F\<rparr>
       in case optSymbol of
            None \<Rightarrow> saveUnresolvedDecls E nameLoc decls n tu1
          | Some sname \<Rightarrow> rbind (saveReference E sname nameLoc None 0 tu1) (\<lambda>tu2.
              if n + 1 = MAX_UNRESOLVED_DECL_LIMIT then Inr tu2 else saveUnresolvedDecls E nameLoc decls (n + 1) tu2))"

definition saveUnresolvedLookupExpr :: "tu_env \<Rightarrow> Decl option list \<Rightarrow> SourceLocation \<Rightarrow> save" where
  "saveUnresolvedLookupExpr E decls nameLoc = saveUnresolvedDecls E nameLoc decls 0"

definition derefBaseType :: "tu_env \<Rightarrow> nat \<Rightarrow> nat option" where
  "derefBaseType E baseType = (if isPointerOrReference E baseType then getPointeeType E baseType else Some (getCanonicalType E baseType))"

definition trySaveMemberReferenceViaLookup :: "tu_env \<Rightarrow> nat option \<Rightarrow> MemberName \<Rightarrow> save" where
  "trySaveMemberReferenceViaLookup E optBaseType member tu =
     (case optBaseType of
        None \<Rightarrow> Inr tu
      | Some baseType \<Rightarrow>
          rbind (tryResolveMember E (derefBaseType E baseType) (mn_name member) (approximateNameResolver tu)) (\<lambda>(namedDecls, R).
            rfold (\<lambda>d. with_symbol (getNamedDeclSymbol (clang E) (te_wyhash E) d) (\<lambda>sname. saveReference E sname (mn_loc member) (Some d) 0))
              namedDecls (tu\<lparr>approximateNameResolver := R\<rparr>)))"

definition saveCXXDependentScopeMemberExpr :: "tu_env \<Rightarrow> nat option \<Rightarrow> MemberName \<Rightarrow> save" where
  "saveCXXDependentScopeMemberExpr E baseType member = trySaveMemberReferenceViaLookup E baseType member"

definition saveUnresolvedMemberExpr :: "tu_env \<Rightarrow> nat option \<Rightarrow> MemberName \<Rightarrow> save" where
  "saveUnresolvedMemberExpr E baseType member = trySaveMemberReferenceViaLookup E baseType member"

subsection \<open>Emitting\<close>

text \<open>Emitting moves the content out of the indexer, which is not used afterwards.\<close>

definition tu_emitSymbol :: "SymbolNameRef \<Rightarrow> SymbolInformation \<Rightarrow> SymbolInformation list \<Rightarrow> SymbolInformation list" where
  "tu_emitSymbol sname symbolInfo out = out @ [symbolInfo\<lparr>si_symbol := sname\<rparr>]"

definition tu_emitDocumentOccurrencesAndSymbols ::
  "((SymbolNameRef \<times> SymbolInformation) list \<Rightarrow> (SymbolNameRef \<times> SymbolInformation) list) \<Rightarrow> bool \<Rightarrow> FileID \<Rightarrow> TuIndexer \<Rightarrow> Document \<Rightarrow> Document" where
  "tu_emitDocumentOccurrencesAndSymbols iter deterministic fileId tu scipDocument =
     (case map_of (documentMap tu) fileId of
        None \<Rightarrow> scipDocument
      | Some doc \<Rightarrow>
          scipDocument\<lparr>occurrences := occurrences scipDocument @ pd_occurrences doc,
            symbols := extractTransformMap iter cmpStr (pd_symbolInfos doc) deterministic tu_emitSymbol (symbols scipDocument)\<rparr>)"

definition tu_emitExternalSymbols ::
  "((SymbolNameRef \<times> SymbolInformation) list \<Rightarrow> (SymbolNameRef \<times> SymbolInformation) list) \<Rightarrow> bool \<Rightarrow> TuIndexer \<Rightarrow> Index \<Rightarrow> Index" where
  "tu_emitExternalSymbols iter deterministic tu indexShard =
     indexShard\<lparr>external_symbols := extractTransformMap iter cmpStr (tu_externalSymbols tu) deterministic tu_emitSymbol (external_symbols indexShard)\<rparr>"

definition emitForwardDeclarations ::
  "(ForwardDeclMap \<Rightarrow> ForwardDeclMap) \<Rightarrow> tu_env \<Rightarrow> bool \<Rightarrow> TuIndexer \<Rightarrow> ForwardDecl list \<Rightarrow> ForwardDecl list result" where
  "emitForwardDeclarations iter E deterministic tu out = fwd_emit iter E deterministic (forwardDeclarations tu) out"

subsection \<open>The visitor\<close>

text \<open>
  \<^verbatim>\<open>IndexerAstVisitor\<close> of indexer/AstConsumer.cc. Walking the syntax tree is Clang's; the nodes that it
  reports, in order, are the argument of \<open>traverseAST\<close>. A constructor initializer is the node for the
  member that it initializes, since Clang reports the nodes inside of it separately.
\<close>

definition saveEnumTypeLoc :: "tu_env \<Rightarrow> TagTypeLoc \<Rightarrow> save" where
  "saveEnumTypeLoc E l = saveTagTypeLoc E l"

definition saveRecordTypeLoc :: "tu_env \<Rightarrow> TagTypeLoc \<Rightarrow> save" where
  "saveRecordTypeLoc E l = saveTagTypeLoc E l"

datatype AstNode = DeclNode Decl | EnumLoc TagTypeLoc | RecordLoc TagTypeLoc | TemplateSpecializationLoc TemplateSpecializationTypeLoc |
  TemplateTypeParmLoc DeclLoc | TypedefLoc DeclLoc | UsingLoc DeclLoc |
  CUDAKernelCall "(Decl option \<times> SourceLocation) option" | CXXConstruct CXXConstructExpr | CXXDependentScopeMember "nat option" MemberName |
  DeclRef DeclLoc | Member MemberExpr | UnresolvedLookup "Decl option list" SourceLocation | UnresolvedMember "nat option" MemberName |
  NestedName "(NestedNameSpecifier \<times> SourceLocation) list" | CtorInitializer DeclLoc

fun visitNode :: "tu_env \<Rightarrow> AstNode \<Rightarrow> save" where
  "visitNode E (DeclNode d) = saveDecl E d"
| "visitNode E (EnumLoc l) = saveEnumTypeLoc E l"
| "visitNode E (RecordLoc l) = saveRecordTypeLoc E l"
| "visitNode E (TemplateSpecializationLoc l) = saveTemplateSpecializationTypeLoc E l"
| "visitNode E (TemplateTypeParmLoc l) = saveTemplateTypeParmTypeLoc E l"
| "visitNode E (TypedefLoc l) = saveTypedefTypeLoc E l"
| "visitNode E (UsingLoc l) = saveUsingTypeLoc E l"
| "visitNode E (CUDAKernelCall config) = saveCUDAKernelCallExpr E config"
| "visitNode E (CXXConstruct e) = saveCXXConstructExpr E e"
| "visitNode E (CXXDependentScopeMember baseType member) = saveCXXDependentScopeMemberExpr E baseType member"
| "visitNode E (DeclRef e) = saveDeclRefExpr E e"
| "visitNode E (Member e) = saveMemberExpr E e"
| "visitNode E (UnresolvedLookup decls nameLoc) = saveUnresolvedLookupExpr E decls nameLoc"
| "visitNode E (UnresolvedMember baseType member) = saveUnresolvedMemberExpr E baseType member"
| "visitNode E (NestedName parts) = saveNestedNameSpecifierLoc E parts"
| "visitNode E (CtorInitializer l) = (case dl_decl l of None \<Rightarrow> Inr | Some d \<Rightarrow> saveFieldReference E d (dl_loc l))"

definition traverseAST :: "tu_env \<Rightarrow> AstNode list \<Rightarrow> save" where
  "traverseAST E nodes = rfold (visitNode E) nodes"

end
