(* ===== verification/Tu_Correct.thy ===== *)
theory Tu_Correct
  imports Tu_Indexer Symbol_Suffixes
begin

text \<open>
  What the indexer of a translation unit saves: its invariant, that no visit of a node fails a
  check, that definitions and references of one entity are linked by one symbol, and that a class
  is related to all of its base classes.
\<close>

subsection \<open>The invariant\<close>

abbreviation suffix_of :: "tu_env \<Rightarrow> FileMetadataMap \<Rightarrow> Decl \<Rightarrow> SymbolSuffix option" where
  "suffix_of E fmm \<equiv> decl_suffix (clang E) (te_wyhash E) fmm"

definition is_definition_of :: "tu_env \<Rightarrow> SymbolNameRef \<Rightarrow> Occurrence \<Rightarrow> bool" where
  "is_definition_of E s occ \<longleftrightarrow> symbol occ = s \<and> symbol_roles occ = role_Definition (codes E)"

text \<open>Every description of a symbol has documentation and comes with an occurrence that defines the symbol.\<close>

definition tu_document_ok :: "tu_env \<Rightarrow> PartialDocument \<Rightarrow> bool" where
  "tu_document_ok E doc \<longleftrightarrow> distinct (map fst (pd_symbolInfos doc)) \<and>
     (\<forall>(s, info) \<in> set (pd_symbolInfos doc). si_documentation info \<noteq> [] \<and> (\<exists>occ \<in> set (pd_occurrences doc). is_definition_of E s occ))"

definition documents_ok :: "tu_env \<Rightarrow> FileID list \<Rightarrow> (FileID \<times> PartialDocument) list \<Rightarrow> bool" where
  "documents_ok E toBe m \<longleftrightarrow> distinct (map fst m) \<and> (\<forall>(f, doc) \<in> set m. f \<in> set toBe \<and> tu_document_ok E doc)"

definition tu_externals_ok :: "(SymbolNameRef \<times> SymbolInformation) list \<Rightarrow> bool" where
  "tu_externals_ok m \<longleftrightarrow> distinct (map fst m) \<and> (\<forall>(s, info) \<in> set m. si_documentation info \<noteq> [])"

text \<open>The files of the project that are to be indexed.\<close>

definition indexed_in_project :: "FileMetadataMap \<Rightarrow> FileID list \<Rightarrow> FileID \<Rightarrow> StableFileId \<Rightarrow> bool" where
  "indexed_in_project fmm toBe f sf \<longleftrightarrow> f \<in> set toBe \<and> getStableFileId fmm f = Some sf \<and> isInProject sf"

definition forwards_ok :: "FileMetadataMap \<Rightarrow> FileID list \<Rightarrow> ForwardDeclMap \<Rightarrow> bool" where
  "forwards_ok fmm toBe m \<longleftrightarrow> distinct (map fst m) \<and>
     (\<forall>(s, v) \<in> set m. getPackageAgnosticSuffix s \<noteq> None \<and>
        (\<forall>(path, r) \<in> set (fwd_ranges v). \<exists>f sf. indexed_in_project fmm toBe f sf \<and> path = sf_path sf))"

text \<open>
  A declaration that may be referred to: one of the translation unit that has a symbol of its own, and
  if there is no definition of it, one with a name in all its contexts.
\<close>

definition target_ok :: "tu_env \<Rightarrow> Decl set \<Rightarrow> FileMetadataMap \<Rightarrow> Decl \<Rightarrow> bool" where
  "target_ok E U fmm d \<longleftrightarrow> queryable (clang E) U d \<and> (refersToForwardDecl E d \<longrightarrow> suffix_of E fmm (templated (clang E) d) \<noteq> None)"

definition lookups_ok :: "tu_env \<Rightarrow> Decl set \<Rightarrow> FileMetadataMap \<Rightarrow> ApproximateNameResolver \<Rightarrow> bool" where
  "lookups_ok E U fmm R \<longleftrightarrow> (\<forall>(k, ds) \<in> set (dependentNameLookupCache R). \<forall>d \<in> set ds. target_ok E U fmm d)"

definition tu_ok :: "tu_env \<Rightarrow> Decl set \<Rightarrow> FileMetadataMap \<Rightarrow> FileID list \<Rightarrow> TuIndexer \<Rightarrow> bool" where
  "tu_ok E U fmm toBe tu \<longleftrightarrow> fileIdsToBeIndexed tu = toBe \<and> tu_fileMetadataMap tu = fmm \<and>
     symbols_ok (clang E) (te_wyhash E) fmm U (tu_symbolFormatter tu) \<and> lookups_ok E U fmm (approximateNameResolver tu) \<and>
     documents_ok E toBe (documentMap tu) \<and> tu_externals_ok (tu_externalSymbols tu) \<and> forwards_ok fmm toBe (forwardDeclarations tu)"

text \<open>Nothing that was saved is lost.\<close>

definition documents_grow :: "(FileID \<times> PartialDocument) list \<Rightarrow> (FileID \<times> PartialDocument) list \<Rightarrow> bool" where
  "documents_grow m m' \<longleftrightarrow> (\<forall>f doc. map_of m f = Some doc \<longrightarrow> (\<exists>doc'. map_of m' f = Some doc' \<and>
     set (pd_occurrences doc) \<subseteq> set (pd_occurrences doc') \<and> map_of (pd_symbolInfos doc) \<subseteq>\<^sub>m map_of (pd_symbolInfos doc')))"

definition forwards_grow :: "ForwardDeclMap \<Rightarrow> ForwardDeclMap \<Rightarrow> bool" where
  "forwards_grow m m' \<longleftrightarrow> (\<forall>s v. map_of m s = Some v \<longrightarrow> (\<exists>v'. map_of m' s = Some v' \<and> set (fwd_ranges v) \<subseteq> set (fwd_ranges v')))"

definition tu_grows :: "TuIndexer \<Rightarrow> TuIndexer \<Rightarrow> bool" where
  "tu_grows tu tu' \<longleftrightarrow> adds UNIV (tu_symbolFormatter tu) (tu_symbolFormatter tu') \<and> documents_grow (documentMap tu) (documentMap tu') \<and>
     forwards_grow (forwardDeclarations tu) (forwardDeclarations tu') \<and> dom (map_of (tu_externalSymbols tu)) \<subseteq> dom (map_of (tu_externalSymbols tu'))"

definition save_ok :: "tu_env \<Rightarrow> Decl set \<Rightarrow> FileMetadataMap \<Rightarrow> FileID list \<Rightarrow> save \<Rightarrow> bool" where
  "save_ok E U fmm toBe op \<longleftrightarrow>
     (\<forall>tu. tu_ok E U fmm toBe tu \<longrightarrow> (\<exists>tu'. op tu = Inr tu' \<and> tu_ok E U fmm toBe tu' \<and> tu_grows tu tu'))"

lemma save_okD:
  "save_ok E U fmm toBe op \<Longrightarrow> tu_ok E U fmm toBe tu \<Longrightarrow> \<exists>tu'. op tu = Inr tu' \<and> tu_ok E U fmm toBe tu' \<and> tu_grows tu tu'"
  by (simp add: save_ok_def)

lemma documents_grow_refl: "documents_grow m m"
  by (simp add: documents_grow_def)

lemma documents_grow_trans: "documents_grow m m1 \<Longrightarrow> documents_grow m1 m2 \<Longrightarrow> documents_grow m m2"
  unfolding documents_grow_def by (meson map_le_trans subset_trans)

lemma forwards_grow_refl: "forwards_grow m m"
  by (simp add: forwards_grow_def)

lemma forwards_grow_trans: "forwards_grow m m1 \<Longrightarrow> forwards_grow m1 m2 \<Longrightarrow> forwards_grow m m2"
  unfolding forwards_grow_def by (meson subset_trans)

lemma tu_grows_refl: "tu_grows tu tu"
  by (simp add: tu_grows_def adds_refl documents_grow_refl forwards_grow_refl)

lemma tu_grows_trans: "tu_grows tu tu1 \<Longrightarrow> tu_grows tu1 tu2 \<Longrightarrow> tu_grows tu tu2"
  unfolding tu_grows_def using adds_trans documents_grow_trans forwards_grow_trans by blast

lemma save_ok_skip [scip_intros]: "save_ok E U fmm toBe Inr"
  by (simp add: save_ok_def tu_grows_refl)

lemma save_ok_skip' [scip_intros]: "save_ok E U fmm toBe (\<lambda>tu. Inr tu)"
  by (simp add: save_ok_def tu_grows_refl)

lemma save_ok_bind [scip_intros]:
  assumes "save_ok E U fmm toBe op1" "save_ok E U fmm toBe op2"
  shows "save_ok E U fmm toBe (\<lambda>tu. rbind (op1 tu) op2)"
  unfolding save_ok_def
proof (intro allI impI)
  fix tu assume "tu_ok E U fmm toBe tu"
  from save_okD [OF assms(1) this] obtain tu1 where tu1: "op1 tu = Inr tu1" "tu_ok E U fmm toBe tu1" "tu_grows tu tu1" by blast
  from save_okD [OF assms(2) tu1(2)] obtain tu2 where "op2 tu1 = Inr tu2" "tu_ok E U fmm toBe tu2" "tu_grows tu1 tu2" by blast
  with tu1 tu_grows_trans show "\<exists>tu'. rbind (op1 tu) op2 = Inr tu' \<and> tu_ok E U fmm toBe tu' \<and> tu_grows tu tu'" by fastforce
qed

lemma save_ok_fold [scip_intros]:
  assumes "\<And>x. x \<in> set xs \<Longrightarrow> save_ok E U fmm toBe (f x)"
  shows "save_ok E U fmm toBe (rfold f xs)"
  using assms
proof (induction xs)
  case Nil
  then show ?case by (simp add: save_ok_def tu_grows_refl)
next
  case (Cons x xs)
  then have "save_ok E U fmm toBe (\<lambda>tu. rbind (f x tu) (rfold f xs))" by (intro save_ok_bind) auto
  then show ?case by (simp add: save_ok_def)
qed

text \<open>The symbol formatter moves on.\<close>

lemma tu_formatter:
  assumes "tu_ok E U fmm toBe tu" "symbols_ok (clang E) (te_wyhash E) fmm U F" "adds UNIV (tu_symbolFormatter tu) F"
  shows "tu_ok E U fmm toBe (tu\<lparr>tu_symbolFormatter := F\<rparr>)" "tu_grows tu (tu\<lparr>tu_symbolFormatter := F\<rparr>)"
  using assms by (simp_all add: tu_ok_def tu_grows_def documents_grow_refl forwards_grow_refl)

lemma with_symbol_returns:
  assumes q: "query_ok (clang E) (te_wyhash E) fmm U UNIV X known q" and tu: "tu_ok E U fmm toBe tu"
  shows "\<exists>r F. q (tu_symbolFormatter tu) = Inr (r, F) \<and> tells X known r \<and> tu_ok E U fmm toBe (tu\<lparr>tu_symbolFormatter := F\<rparr>) \<and>
    tu_grows tu (tu\<lparr>tu_symbolFormatter := F\<rparr>) \<and>
    with_symbol q k tu = (case r of None \<Rightarrow> Inr (tu\<lparr>tu_symbolFormatter := F\<rparr>) | Some s \<Rightarrow> k s (tu\<lparr>tu_symbolFormatter := F\<rparr>))"
proof -
  have "symbols_ok (clang E) (te_wyhash E) fmm U (tu_symbolFormatter tu)" using tu by (simp add: tu_ok_def)
  with q obtain r F where r: "q (tu_symbolFormatter tu) = Inr (r, F)" "symbols_ok (clang E) (te_wyhash E) fmm U F"
      "adds UNIV (tu_symbolFormatter tu) F" "tells X known r" unfolding query_ok_def by blast
  then show ?thesis using tu_formatter [OF tu r(2,3)] by (auto simp: with_symbol_def)
qed

lemma save_ok_with_symbol:
  assumes "query_ok (clang E) (te_wyhash E) fmm U UNIV X known q" "\<And>s. tells X True (Some s) \<Longrightarrow> save_ok E U fmm toBe (k s)"
  shows "save_ok E U fmm toBe (with_symbol q k)"
  unfolding save_ok_def
proof (intro allI impI)
  fix tu assume tu: "tu_ok E U fmm toBe tu"
  obtain r F where r: "tells X known r" "tu_ok E U fmm toBe (tu\<lparr>tu_symbolFormatter := F\<rparr>)" "tu_grows tu (tu\<lparr>tu_symbolFormatter := F\<rparr>)"
    "with_symbol q k tu = (case r of None \<Rightarrow> Inr (tu\<lparr>tu_symbolFormatter := F\<rparr>) | Some s \<Rightarrow> k s (tu\<lparr>tu_symbolFormatter := F\<rparr>))"
    using with_symbol_returns [OF assms(1) tu, of k] by blast
  show "\<exists>tu'. with_symbol q k tu = Inr tu' \<and> tu_ok E U fmm toBe tu' \<and> tu_grows tu tu'"
  proof (cases r)
    case None
    with r show ?thesis by auto
  next
    case (Some s)
    then have "tells X True (Some s)" using r(1) by (simp add: tells_def)
    from save_okD [OF assms(2) [OF this] r(2)] r Some tu_grows_trans show ?thesis by fastforce
  qed
qed

subsection \<open>Saving one occurrence\<close>

definition occurrence_of :: "SymbolNameRef \<Rightarrow> FileLocalSourceRange \<Rightarrow> int \<Rightarrow> Occurrence" where
  "occurrence_of s r roles = \<lparr>range = range_addTo r, symbol = s, symbol_roles = roles, override_documentation = [], syntax_kind = 0, diagnostics = []\<rparr>"

definition has_occurrence :: "FileID \<Rightarrow> Occurrence \<Rightarrow> TuIndexer \<Rightarrow> bool" where
  "has_occurrence f occ tu \<longleftrightarrow> (\<exists>doc. map_of (documentMap tu) f = Some doc \<and> occ \<in> set (pd_occurrences doc))"

lemma has_occurrence_grows: "has_occurrence f occ tu \<Longrightarrow> tu_grows tu tu' \<Longrightarrow> has_occurrence f occ tu'"
  unfolding has_occurrence_def tu_grows_def documents_grow_def by blast

definition range_ok :: "clang_api \<Rightarrow> SourceLocation \<times> SourceLocation \<Rightarrow> bool" where
  "range_ok A r \<longleftrightarrow> (case r of (start, end') \<Rightarrow> \<not> loc_isInvalid start \<and> \<not> loc_isInvalid end' \<and> start \<le> end' \<and>
     getFileID A end' = getFileID A start \<and> getPresumedLoc A start True \<noteq> None \<and> getPresumedLoc A end' True \<noteq> None)"

definition token_range :: "tu_env \<Rightarrow> SourceLocation \<Rightarrow> SourceLocation \<times> SourceLocation" where
  "token_range E l = (getExpansionLoc (clang E) l, getExpansionLoc (clang E) l + MeasureTokenLength E (getExpansionLoc (clang E) l))"

text \<open>What is used of Clang's lexer: there is a token where the location is expanded, inside one file.\<close>

definition token_ok :: "tu_env \<Rightarrow> SourceLocation \<Rightarrow> bool" where
  "token_ok E l \<longleftrightarrow> 0 < MeasureTokenLength E (getExpansionLoc (clang E) l) \<and> range_ok (clang E) (token_range E l)"

definition loc_file :: "tu_env \<Rightarrow> SourceLocation \<Rightarrow> FileID" where
  "loc_file E l = getFileID (clang E) (getExpansionLoc (clang E) l)"

definition loc_ok :: "tu_env \<Rightarrow> FileID list \<Rightarrow> SourceLocation \<Rightarrow> bool" where
  "loc_ok E toBe l \<longleftrightarrow> loc_file E l \<in> set toBe \<longrightarrow> token_ok E l"

definition the_range :: "clang_api \<Rightarrow> SourceLocation \<times> SourceLocation \<Rightarrow> FileLocalSourceRange" where
  "the_range A r = (case fromNonEmpty A r of Inr (x, _) \<Rightarrow> x | Inl _ \<Rightarrow> \<lparr>startLine = 0, startColumn = 0, endLine = 0, endColumn = 0\<rparr>)"

lemma fromNonEmpty_ok: "range_ok A r \<Longrightarrow> fromNonEmpty A r = Inr (the_range A r, getFileID A (fst r))"
  by (cases r) (auto simp: range_ok_def the_range_def fromNonEmpty_def presumed_def Let_def)

lemma token_range_ok:
  assumes "token_ok E l"
  shows "getTokenExpansionRange E (getExpansionLoc (clang E) l) = Inr (the_range (clang E) (token_range E l), loc_file E l)"
proof -
  have "range_ok (clang E) (token_range E l)" using assms by (simp add: token_ok_def)
  from fromNonEmpty_ok [OF this] assms show ?thesis
    by (simp add: getTokenExpansionRange_def Let_def token_ok_def token_range_def loc_file_def)
qed

lemma document_at_ok: "documents_ok E toBe (documentMap tu) \<Longrightarrow> tu_document_ok E (document_at f tu)"
  unfolding documents_ok_def document_at_def
  by (auto simp: tu_document_ok_def empty_document_def dest!: map_of_SomeD split: option.split)

text \<open>A document is replaced by one with more in it.\<close>

lemma in_hmap_update: "(t, w) \<in> set (hmap_update k v m) \<Longrightarrow> (t, w) = (k, v) \<or> (t, w) \<in> set m"
  by (induction k v m rule: hmap_update.induct) (auto split: if_splits)

lemma documents_update:
  assumes "documents_ok E toBe m" "f \<in> set toBe" "tu_document_ok E doc"
  shows "documents_ok E toBe (hmap_update f doc m)"
  using assms in_hmap_update [of _ _ f doc m] unfolding documents_ok_def by fastforce

lemma documents_grow_update:
  assumes "set (pd_occurrences (document_at f tu)) \<subseteq> set (pd_occurrences doc)" "map_of (pd_symbolInfos (document_at f tu)) \<subseteq>\<^sub>m map_of (pd_symbolInfos doc)"
  shows "documents_grow (documentMap tu) (hmap_update f doc (documentMap tu))"
  using assms unfolding documents_grow_def by (auto simp: document_at_def split: option.splits)

lemma saveOccurrenceImpl_ok:
  fixes s :: SymbolNameRef and r :: FileLocalSourceRange and roles :: int
  assumes tu: "tu_ok E U fmm toBe tu" and f: "f \<in> set toBe"
  defines "tu' \<equiv> saveOccurrenceImpl s r f roles tu"
  shows "tu_ok E U fmm toBe tu'" "tu_grows tu tu'" "has_occurrence f (occurrence_of s r roles) tu'"
proof -
  define doc where "doc = (document_at f tu)\<lparr>pd_occurrences := pd_occurrences (document_at f tu) @ [occurrence_of s r roles]\<rparr>"
  have eq: "tu' = tu\<lparr>documentMap := hmap_update f doc (documentMap tu)\<rparr>"
    by (simp add: tu'_def saveOccurrenceImpl_def Let_def doc_def occurrence_of_def)
  have docs: "documents_ok E toBe (documentMap tu)" using tu by (simp add: tu_ok_def)
  have "tu_document_ok E doc" using document_at_ok [OF docs, of f] by (fastforce simp: tu_document_ok_def doc_def)
  from documents_update [OF docs f this] tu show "tu_ok E U fmm toBe tu'" by (simp add: eq tu_ok_def)
  have "documents_grow (documentMap tu) (hmap_update f doc (documentMap tu))" by (rule documents_grow_update) (auto simp: doc_def)
  then show "tu_grows tu tu'" by (simp add: eq tu_grows_def adds_refl forwards_grow_refl)
  show "has_occurrence f (occurrence_of s r roles) tu'" by (simp add: has_occurrence_def eq doc_def)
qed

lemma addSymbolInfo_ok:
  assumes tu: "tu_ok E U fmm toBe tu" and occ: "has_occurrence f occ tu" "is_definition_of E s occ" and info: "si_documentation info \<noteq> []"
  shows "tu_ok E U fmm toBe (addSymbolInfo f s info tu)" "tu_grows tu (addSymbolInfo f s info tu)"
proof -
  obtain old where old: "map_of (documentMap tu) f = Some old" "occ \<in> set (pd_occurrences old)" using occ(1) by (auto simp: has_occurrence_def)
  define doc where "doc = old\<lparr>pd_symbolInfos := hmap_emplace s info (pd_symbolInfos old)\<rparr>"
  have at: "document_at f tu = old" using old(1) by (simp add: document_at_def)
  have eq: "addSymbolInfo f s info tu = tu\<lparr>documentMap := hmap_update f doc (documentMap tu)\<rparr>"
    by (simp add: addSymbolInfo_def at doc_def)
  have docs: "documents_ok E toBe (documentMap tu)" using tu by (simp add: tu_ok_def)
  then have f: "f \<in> set toBe" using old(1) by (auto simp: documents_ok_def dest!: map_of_SomeD)
  have "tu_document_ok E old" using document_at_ok [OF docs, of f] at by simp
  then have "tu_document_ok E doc" using old(2) occ(2) info unfolding tu_document_ok_def doc_def by (auto simp: hmap_emplace_def)
  from documents_update [OF docs f this] tu show "tu_ok E U fmm toBe (addSymbolInfo f s info tu)" by (simp add: eq tu_ok_def)
  have "map_of (pd_symbolInfos old) \<subseteq>\<^sub>m map_of (pd_symbolInfos doc)" by (auto simp: doc_def map_le_def)
  then have "documents_grow (documentMap tu) (hmap_update f doc (documentMap tu))"
    by (intro documents_grow_update) (auto simp: at doc_def)
  then show "tu_grows tu (addSymbolInfo f s info tu)" by (simp add: eq tu_grows_def adds_refl forwards_grow_refl)
qed

lemma saveExternalSymbol_ok:
  assumes tu: "tu_ok E U fmm toBe tu" and info: "si_documentation info \<noteq> []"
  shows "tu_ok E U fmm toBe (saveExternalSymbol s info tu)" "tu_grows tu (saveExternalSymbol s info tu)"
proof -
  have ext: "tu_externals_ok (tu_externalSymbols tu)" using tu by (simp add: tu_ok_def)
  have "tu_ok E U fmm toBe (saveExternalSymbol s info tu) \<and> tu_grows tu (saveExternalSymbol s info tu)"
  proof (cases "map_of (tu_externalSymbols tu) s")
    case None
    then have eq: "saveExternalSymbol s info tu = tu\<lparr>tu_externalSymbols := tu_externalSymbols tu @ [(s, info)]\<rparr>" by (simp add: saveExternalSymbol_def)
    have "tu_externals_ok (tu_externalSymbols tu @ [(s, info)])" using ext info None by (auto simp: tu_externals_ok_def map_of_eq_None_iff)
    then show ?thesis unfolding eq using tu by (auto simp: tu_ok_def tu_grows_def adds_refl documents_grow_refl forwards_grow_refl)
  next
    case (Some old)
    then have "si_documentation old \<noteq> []" using ext by (auto simp: tu_externals_ok_def dest!: map_of_SomeD)
    with Some tu show ?thesis by (simp add: saveExternalSymbol_def tu_grows_refl)
  qed
  then show "tu_ok E U fmm toBe (saveExternalSymbol s info tu)" "tu_grows tu (saveExternalSymbol s info tu)" by blast+
qed

lemma fwd_insert_ok:
  fixes c :: DocComment and r :: FileLocalSourceRange
  assumes tu: "tu_ok E U fmm toBe tu" and s: "getPackageAgnosticSuffix s \<noteq> None" and f: "indexed_in_project fmm toBe f sf"
  defines "tu' \<equiv> tu\<lparr>forwardDeclarations := fwd_insert s c (sf_path sf) r (forwardDeclarations tu)\<rparr>"
  shows "tu_ok E U fmm toBe tu'" "tu_grows tu tu'"
    "\<exists>v. map_of (forwardDeclarations tu') s = Some v \<and> (sf_path sf, r) \<in> set (fwd_ranges v)"
proof -
  define old where "old = (case map_of (forwardDeclarations tu) s of None \<Rightarrow> \<lparr>fwd_docComment = mkDocComment, fwd_ranges = []\<rparr> | Some v \<Rightarrow> v)"
  define v where "v = old\<lparr>fwd_docComment := replaceIfEmpty (fwd_docComment old) c, fwd_ranges := fwd_ranges old @ [(sf_path sf, r)]\<rparr>"
  have eq: "fwd_insert s c (sf_path sf) r (forwardDeclarations tu) = hmap_update s v (forwardDeclarations tu)"
    by (simp add: fwd_insert_def Let_def v_def old_def)
  have fwds: "forwards_ok fmm toBe (forwardDeclarations tu)" using tu by (simp add: tu_ok_def)
  have old: "\<forall>(path, r) \<in> set (fwd_ranges old). \<exists>f sf. indexed_in_project fmm toBe f sf \<and> path = sf_path sf"
  proof (cases "map_of (forwardDeclarations tu) s")
    case (Some v0)
    from map_of_SomeD [OF Some] fwds have "\<forall>(path, r) \<in> set (fwd_ranges v0). \<exists>f sf. indexed_in_project fmm toBe f sf \<and> path = sf_path sf"
      unfolding forwards_ok_def by blast
    with Some show ?thesis by (simp add: old_def)
  qed (simp add: old_def)
  have "(t, w) \<in> set (hmap_update s v (forwardDeclarations tu)) \<Longrightarrow> (t, w) = (s, v) \<or> (t, w) \<in> set (forwardDeclarations tu)" for t w
    by (rule in_hmap_update)
  moreover have "\<forall>(path, r) \<in> set (fwd_ranges v). \<exists>f sf. indexed_in_project fmm toBe f sf \<and> path = sf_path sf"
    using old f by (auto simp: v_def)
  ultimately have "forwards_ok fmm toBe (hmap_update s v (forwardDeclarations tu))"
    using fwds s unfolding forwards_ok_def by fastforce
  then show "tu_ok E U fmm toBe tu'" using tu by (simp add: tu'_def eq tu_ok_def)
  have "forwards_grow (forwardDeclarations tu) (hmap_update s v (forwardDeclarations tu))"
    by (auto simp: forwards_grow_def v_def old_def)
  then show "tu_grows tu tu'" by (simp add: tu'_def eq tu_grows_def adds_refl documents_grow_refl)
  show "\<exists>v. map_of (forwardDeclarations tu') s = Some v \<and> (sf_path sf, r) \<in> set (fwd_ranges v)" by (simp add: tu'_def eq v_def)
qed

subsection \<open>Definitions, references and forward declarations\<close>

abbreviation token_occurrence :: "tu_env \<Rightarrow> SymbolNameRef \<Rightarrow> SourceLocation \<Rightarrow> int \<Rightarrow> Occurrence" where
  "token_occurrence E s l roles \<equiv> occurrence_of s (the_range (clang E) (token_range E l)) roles"

lemma tu_saveOccurrence_token:
  "token_ok E l \<Longrightarrow> tu_saveOccurrence E s (getExpansionLoc (clang E) l) roles tu =
    Inr (saveOccurrenceImpl s (the_range (clang E) (token_range E l)) (loc_file E l) roles tu, loc_file E l)"
  by (simp add: tu_saveOccurrence_def token_range_ok)

text \<open>A definition in a file of the project is an occurrence of its own, with a description of the symbol if there is one.\<close>

lemma saveDefinition_in_project:
  assumes tu: "tu_ok E U fmm toBe tu" and l: "token_ok E l" and f: "indexed_in_project fmm toBe (loc_file E l) sf"
  shows "\<exists>tu'. saveDefinition E s l info 0 tu = Inr tu' \<and> tu_ok E U fmm toBe tu' \<and> tu_grows tu tu' \<and>
    has_occurrence (loc_file E l) (token_occurrence E s l (role_Definition (codes E))) tu'"
proof -
  let ?occ = "token_occurrence E s l (role_Definition (codes E))"
  define tu1 where "tu1 = saveOccurrenceImpl s (the_range (clang E) (token_range E l)) (loc_file E l) (role_Definition (codes E)) tu"
  have f': "loc_file E l \<in> set toBe" "getStableFileId fmm (loc_file E l) = Some sf" "isInProject sf" using f by (simp_all add: indexed_in_project_def)
  have tu1: "tu_ok E U fmm toBe tu1" "tu_grows tu tu1" "has_occurrence (loc_file E l) ?occ tu1"
    unfolding tu1_def by (rule saveOccurrenceImpl_ok [OF tu f'(1)])+
  have run: "saveDefinition E s l info 0 tu =
      (case map_option documented info of None \<Rightarrow> Inr tu1 | Some i \<Rightarrow> Inr (addSymbolInfo (loc_file E l) s i tu1))"
    using tu f' tu_saveOccurrence_token [OF l]
    by (cases info) (simp_all add: saveDefinition_def Let_def tu_ok_def loc_file_def tu1_def)
  show ?thesis
  proof (cases info)
    case None
    with run tu1 show ?thesis by simp
  next
    case (Some i)
    have d: "si_documentation (documented i) \<noteq> []" by (simp add: documented_def)
    have "is_definition_of E s ?occ" by (simp add: is_definition_of_def occurrence_of_def)
    note add = addSymbolInfo_ok [OF tu1(1,3) this d]
    with run Some tu_grows_trans [OF tu1(2) add(2)] has_occurrence_grows [OF tu1(3) add(2)] show ?thesis by simp
  qed
qed

lemma save_ok_definition [scip_intros]:
  assumes "loc_ok E toBe l"
  shows "save_ok E U fmm toBe (saveDefinition E s l info 0)"
  unfolding save_ok_def
proof (intro allI impI)
  fix tu assume tu: "tu_ok E U fmm toBe tu"
  then have frame: "fileIdsToBeIndexed tu = toBe" "tu_fileMetadataMap tu = fmm" by (simp_all add: tu_ok_def)
  show "\<exists>tu'. saveDefinition E s l info 0 tu = Inr tu' \<and> tu_ok E U fmm toBe tu' \<and> tu_grows tu tu'"
  proof (cases "\<exists>sf. indexed_in_project fmm toBe (loc_file E l) sf")
    case True
    then obtain sf where f: "indexed_in_project fmm toBe (loc_file E l) sf" by blast
    with assms have "token_ok E l" by (simp add: loc_ok_def indexed_in_project_def)
    from saveDefinition_in_project [OF tu this f] show ?thesis by blast
  next
    case False
    then have "saveDefinition E s l info 0 tu = Inr tu \<or> (\<exists>i. saveDefinition E s l info 0 tu = Inr (saveExternalSymbol s (documented i) tu))"
      using frame unfolding saveDefinition_def indexed_in_project_def loc_file_def
      by (cases "getStableFileId fmm (getFileID (clang E) (getExpansionLoc (clang E) l))"; cases info) (auto simp: Let_def)
    then show ?thesis
    proof (elim disjE exE)
      assume "saveDefinition E s l info 0 tu = Inr tu"
      with tu tu_grows_refl show ?thesis by blast
    next
      fix i assume 2: "saveDefinition E s l info 0 tu = Inr (saveExternalSymbol s (documented i) tu)"
      have "si_documentation (documented i) \<noteq> []" by (simp add: documented_def)
      from saveExternalSymbol_ok [OF tu this] 2 show ?thesis by blast
    qed
  qed
qed

text \<open>A reference is an occurrence, or a reference to a forward declaration.\<close>

definition forward_ref :: "tu_env \<Rightarrow> Decl option \<Rightarrow> bool" where
  "forward_ref E fwd \<longleftrightarrow> (case fwd of None \<Rightarrow> False | Some d \<Rightarrow> refersToForwardDecl E d)"

lemma saveReference_in_project:
  assumes tu: "tu_ok E U fmm toBe tu" and l: "token_ok E l" and f: "indexed_in_project fmm toBe (loc_file E l) sf"
    and fwd: "forward_ref E fwd \<Longrightarrow> getPackageAgnosticSuffix s \<noteq> None"
  shows "\<exists>tu'. saveReference E s l fwd 0 tu = Inr tu' \<and> tu_ok E U fmm toBe tu' \<and> tu_grows tu tu' \<and>
    (if forward_ref E fwd then \<exists>v. map_of (forwardDeclarations tu') s = Some v \<and> (sf_path sf, the_range (clang E) (token_range E l)) \<in> set (fwd_ranges v)
     else has_occurrence (loc_file E l) (token_occurrence E s l 0) tu')"
proof -
  have f': "loc_file E l \<in> set toBe" "getStableFileId fmm (loc_file E l) = Some sf" "isInProject sf" using f by (simp_all add: indexed_in_project_def)
  have frame: "fileIdsToBeIndexed tu = toBe" "tu_fileMetadataMap tu = fmm" using tu by (simp_all add: tu_ok_def)
  let ?r = "the_range (clang E) (token_range E l)"
  show ?thesis
  proof (cases "forward_ref E fwd")
    case True
    then obtain d where d: "fwd = Some d" "refersToForwardDecl E d" by (auto simp: forward_ref_def split: option.splits)
    have "saveReference E s l fwd 0 tu = Inr (tu\<lparr>forwardDeclarations := fwd_insert s (getDocComment E d) (sf_path sf) ?r (forwardDeclarations tu)\<rparr>)"
      using frame f' d token_range_ok [OF l] by (simp add: saveReference_def Let_def loc_file_def)
    then show ?thesis using fwd_insert_ok [OF tu fwd [OF True] f, of "getDocComment E d" ?r] True by simp
  next
    case False
    then have "saveReference E s l fwd 0 tu = Inr (saveOccurrenceImpl s ?r (loc_file E l) 0 tu)"
      using frame f' tu_saveOccurrence_token [OF l]
      by (cases fwd) (simp_all add: saveReference_def Let_def loc_file_def forward_ref_def)
    then show ?thesis using saveOccurrenceImpl_ok [OF tu f'(1), of s ?r 0] False by simp
  qed
qed

lemma save_ok_reference [scip_intros]:
  assumes "loc_ok E toBe l" "forward_ref E fwd \<Longrightarrow> getPackageAgnosticSuffix s \<noteq> None"
  shows "save_ok E U fmm toBe (saveReference E s l fwd 0)"
  unfolding save_ok_def
proof (intro allI impI)
  fix tu assume tu: "tu_ok E U fmm toBe tu"
  then have frame: "fileIdsToBeIndexed tu = toBe" "tu_fileMetadataMap tu = fmm" by (simp_all add: tu_ok_def)
  show "\<exists>tu'. saveReference E s l fwd 0 tu = Inr tu' \<and> tu_ok E U fmm toBe tu' \<and> tu_grows tu tu'"
  proof (cases "\<exists>sf. indexed_in_project fmm toBe (loc_file E l) sf")
    case True
    then obtain sf where f: "indexed_in_project fmm toBe (loc_file E l) sf" by blast
    with assms(1) have "token_ok E l" by (simp add: loc_ok_def indexed_in_project_def)
    from saveReference_in_project [OF tu this f assms(2)] show ?thesis by blast
  next
    case False
    then have "saveReference E s l fwd 0 tu = Inr tu"
      using frame unfolding saveReference_def indexed_in_project_def loc_file_def by (auto simp: Let_def split: option.split)
    with tu tu_grows_refl show ?thesis by blast
  qed
qed

lemma save_ok_forward [scip_intros]:
  assumes "token_ok E l" "getPackageAgnosticSuffix s \<noteq> None"
  shows "save_ok E U fmm toBe (saveForwardDeclaration E s l c)"
  unfolding save_ok_def
proof (intro allI impI)
  fix tu assume tu: "tu_ok E U fmm toBe tu"
  then have frame: "fileIdsToBeIndexed tu = toBe" "tu_fileMetadataMap tu = fmm" by (simp_all add: tu_ok_def)
  show "\<exists>tu'. saveForwardDeclaration E s l c tu = Inr tu' \<and> tu_ok E U fmm toBe tu' \<and> tu_grows tu tu'"
  proof (cases "\<exists>sf. indexed_in_project fmm toBe (loc_file E l) sf")
    case True
    then obtain sf where f: "indexed_in_project fmm toBe (loc_file E l) sf" by blast
    then have "saveForwardDeclaration E s l c tu = Inr (tu\<lparr>forwardDeclarations :=
        fwd_insert s c (sf_path sf) (the_range (clang E) (token_range E l)) (forwardDeclarations tu)\<rparr>)"
      using frame token_range_ok [OF assms(1)] by (simp add: saveForwardDeclaration_def indexed_in_project_def)
    with fwd_insert_ok [OF tu assms(2) f] show ?thesis by blast
  next
    case False
    then have "saveForwardDeclaration E s l c tu = Inr tu"
      using frame token_range_ok [OF assms(1)] by (auto simp: saveForwardDeclaration_def indexed_in_project_def split: option.split)
    with tu tu_grows_refl show ?thesis by blast
  qed
qed

subsection \<open>Nodes of the syntax tree\<close>

text \<open>
  What is used of Clang for a node: the declarations that it refers to are those of the
  translation unit, there is a token at its location if the file is to be indexed, and a
  declaration that is not a definition is not inside a type without a name.
\<close>

definition reference_ok :: "tu_env \<Rightarrow> Decl set \<Rightarrow> FileMetadataMap \<Rightarrow> FileID list \<Rightarrow> Decl \<Rightarrow> SourceLocation \<Rightarrow> bool" where
  "reference_ok E U fmm toBe d l \<longleftrightarrow> target_ok E U fmm d \<and> loc_ok E toBe l"

definition forward_ok :: "tu_env \<Rightarrow> FileMetadataMap \<Rightarrow> Decl \<Rightarrow> bool" where
  "forward_ok E fmm d \<longleftrightarrow> token_ok E (decl_location d) \<and> suffix_of E fmm d \<noteq> None"

definition function_ok :: "tu_env \<Rightarrow> Decl set \<Rightarrow> FileMetadataMap \<Rightarrow> Decl \<Rightarrow> bool" where
  "function_ok E U fmm d \<longleftrightarrow>
     (if isPureVirtual E (decl_ptr d) \<or> isThisDeclarationADefinition E (decl_ptr d)
      then \<forall>ms. overridden_methods E (decl_ptr d) = Some ms \<longrightarrow> (\<forall>m \<in> set ms. plain_queryable (clang E) U m \<and> decl_kind m = FunctionDecl)
      else forward_ok E fmm d)"

definition tag_ok :: "tu_env \<Rightarrow> Decl set \<Rightarrow> FileMetadataMap \<Rightarrow> Decl \<Rightarrow> bool" where
  "tag_ok E U fmm d \<longleftrightarrow>
     (if isThisDeclarationADefinition E (decl_ptr d)
      then isCXXRecord E (decl_ptr d) \<longrightarrow> (\<forall>b \<in> reached (baseDecls E) d. plain_queryable (clang E) U b)
      else forward_ok E fmm d)"

definition shadow_ok :: "tu_env \<Rightarrow> Decl set \<Rightarrow> FileID list \<Rightarrow> Decl \<Rightarrow> bool" where
  "shadow_ok E U toBe d \<longleftrightarrow> plain_queryable (clang E) U d \<and> decl_kind d = UsingShadowDecl \<and> loc_ok E toBe (decl_location d) \<and>
     (\<forall>t. getTargetDecl E (decl_ptr d) = Some t \<longrightarrow> queryable (clang E) U t)"

definition decl_ok :: "tu_env \<Rightarrow> Decl set \<Rightarrow> FileMetadataMap \<Rightarrow> FileID list \<Rightarrow> Decl \<Rightarrow> bool" where
  "decl_ok E U fmm toBe d \<longleftrightarrow>
     (if decl_kind d = UsingDecl then \<forall>sh \<in> set (shadows E (decl_ptr d)). shadow_ok E U toBe sh
      else if is_template d \<or> decl_kind d = VarDecl Decomposition then True
      else plain_queryable (clang E) U d \<and> loc_ok E toBe (decl_location d) \<and>
       (case decl_kind d of
          EnumConstantDecl \<Rightarrow> getBeginLoc E (decl_ptr d) = decl_location d
        | FunctionDecl \<Rightarrow> function_ok E U fmm d
        | NamespaceDecl \<Rightarrow> (\<exists>l. namespaceStartLoc E d = Inr l \<and> loc_ok E toBe l)
        | RecordDecl \<Rightarrow> tag_ok E U fmm d
        | EnumDecl \<Rightarrow> tag_ok E U fmm d
        | UsingShadowDecl \<Rightarrow> shadow_ok E U toBe d
        | VarDecl _ \<Rightarrow> reference_ok E U fmm toBe d (decl_location d)
        | _ \<Rightarrow> True))"

lemma tells_suffix: "tells X k (Some s) \<Longrightarrow> X \<noteq> None \<Longrightarrow> getPackageAgnosticSuffix s \<noteq> None"
  by (auto simp: tells_def)

lemma queryable_query:
  assumes "clang_ok (clang E) (te_wyhash E) fmm U" "queryable (clang E) U d"
  shows "query_ok (clang E) (te_wyhash E) fmm U UNIV (suffix_of E fmm (templated (clang E) d)) (known_decl (clang E) (te_wyhash E) fmm (templated (clang E) d))
    (getNamedDeclSymbol (clang E) (te_wyhash E) d)"
  using named_decl_query_ok [OF assms(1)] assms(2) getNamedDeclSymbol_templated [OF assms(2)] by (simp add: queryable_def)

lemma save_ok_named:
  assumes "clang_ok (clang E) (te_wyhash E) fmm U" "queryable (clang E) U d"
    and "\<And>s. tells (suffix_of E fmm (templated (clang E) d)) True (Some s) \<Longrightarrow> save_ok E U fmm toBe (k s)"
  shows "save_ok E U fmm toBe (with_symbol (getNamedDeclSymbol (clang E) (te_wyhash E) d) k)"
  by (rule save_ok_with_symbol [OF queryable_query [OF assms(1,2)] assms(3)])

lemma plain_is_queryable: "plain_queryable A U d \<Longrightarrow> queryable A U d \<and> templated A d = d"
  by (auto simp: queryable_def templated_def plain_queryable_def is_template_def)

lemma save_ok_plain:
  assumes "clang_ok (clang E) (te_wyhash E) fmm U" "plain_queryable (clang E) U d"
    and "\<And>s. tells (suffix_of E fmm d) True (Some s) \<Longrightarrow> save_ok E U fmm toBe (k s)"
  shows "save_ok E U fmm toBe (with_symbol (getNamedDeclSymbol (clang E) (te_wyhash E) d) k)"
  by (rule save_ok_named [OF assms(1)]) (use plain_is_queryable [OF assms(2)] assms(3) in simp_all)

text \<open>The functions for one kind of declaration are the ones that \<^verbatim>\<open>getNamedDeclSymbol\<close> calls.\<close>

lemma named_symbols:
  "decl_kind d = BindingDecl \<Longrightarrow> getBindingSymbol A d = getNamedDeclSymbol A w d"
  "decl_kind d = EnumConstantDecl \<Longrightarrow> getEnumConstantSymbol A w d = getNamedDeclSymbol A w d"
  "decl_kind d = FieldDecl \<Longrightarrow> getFieldSymbol A w d = getNamedDeclSymbol A w d"
  "decl_kind d = FunctionDecl \<Longrightarrow> getFunctionSymbol A w d = getNamedDeclSymbol A w d"
  "decl_kind d = NamespaceDecl \<Longrightarrow> getNamespaceSymbol A w d = getNamedDeclSymbol A w d"
  "decl_kind d = TypedefNameDecl \<Longrightarrow> getTypedefNameSymbol A w d = getNamedDeclSymbol A w d"
  "decl_kind d = UsingShadowDecl \<Longrightarrow> getUsingShadowSymbol A w d = getNamedDeclSymbol A w d"
  "decl_kind d = VarDecl v \<Longrightarrow> getVarSymbol A w d = getNamedDeclSymbol A w d"
  "decl_kind d = RecordDecl \<or> decl_kind d = EnumDecl \<Longrightarrow> getTagSymbol A w d = getNamedDeclSymbol A w d"
  "decl_kind d \<in> {NonTypeTemplateParmDecl, TemplateTemplateParmDecl, TemplateTypeParmDecl} \<Longrightarrow> getTemplateParmSymbol A d = getNamedDeclSymbol A w d"
  by (auto simp: getNamedDeclSymbol_def getBindingSymbol_def getTemplateParmSymbol_def getRecordSymbol_def getEnumSymbol_def)

lemma save_ok_reference_to:
  assumes "clang_ok (clang E) (te_wyhash E) fmm U" "reference_ok E U fmm toBe d l"
  shows "save_ok E U fmm toBe (with_symbol (getNamedDeclSymbol (clang E) (te_wyhash E) d) (\<lambda>s. saveReference E s l (Some d) 0))"
    "save_ok E U fmm toBe (with_symbol (getNamedDeclSymbol (clang E) (te_wyhash E) d) (\<lambda>s. saveReference E s l None 0))"
  using assms(2)
  by (auto intro!: save_ok_named [OF assms(1)] save_ok_reference dest: tells_suffix simp: reference_ok_def target_ok_def forward_ref_def)

text \<open>A description that takes symbols of other declarations.\<close>

definition formatter_step :: "tu_env \<Rightarrow> Decl set \<Rightarrow> FileMetadataMap \<Rightarrow> SymbolInformation \<times> SymbolFormatter \<Rightarrow> SymbolInformation \<times> SymbolFormatter \<Rightarrow> bool" where
  "formatter_step E U fmm st st' \<longleftrightarrow> symbols_ok (clang E) (te_wyhash E) fmm U (snd st') \<and> adds UNIV (snd st) (snd st')"

lemma addRelationship_ok:
  assumes "query_ok (clang E) (te_wyhash E) fmm U UNIV X known q" "formatter_step E U fmm st0 st"
  shows "\<exists>st'. addRelationship E b q st = Inr st' \<and> formatter_step E U fmm st0 st'"
proof -
  obtain info F where st: "st = (info, F)" by (cases st)
  then obtain r F1 where "q F = Inr (r, F1)" "symbols_ok (clang E) (te_wyhash E) fmm U F1" "adds UNIV F F1"
    using assms unfolding query_ok_def formatter_step_def by force
  with assms(2) st show ?thesis
    by (cases r) (auto simp: addRelationship_def formatter_step_def intro: adds_trans)
qed

text \<open>What a save brings about.\<close>

definition save_post :: "tu_env \<Rightarrow> Decl set \<Rightarrow> FileMetadataMap \<Rightarrow> FileID list \<Rightarrow> (TuIndexer \<Rightarrow> bool) \<Rightarrow> save \<Rightarrow> bool" where
  "save_post E U fmm toBe Q op \<longleftrightarrow>
     (\<forall>tu. tu_ok E U fmm toBe tu \<longrightarrow> (\<exists>tu'. op tu = Inr tu' \<and> tu_ok E U fmm toBe tu' \<and> tu_grows tu tu' \<and> Q tu'))"

lemma save_ok_iff_post: "save_ok E U fmm toBe op \<longleftrightarrow> save_post E U fmm toBe (\<lambda>_. True) op"
  by (simp add: save_ok_def save_post_def)

lemma save_postD:
  "save_post E U fmm toBe Q op \<Longrightarrow> tu_ok E U fmm toBe tu \<Longrightarrow> \<exists>tu'. op tu = Inr tu' \<and> tu_ok E U fmm toBe tu' \<and> tu_grows tu tu' \<and> Q tu'"
  by (simp add: save_post_def)

lemma save_post_bind:
  assumes "save_ok E U fmm toBe op1" "save_post E U fmm toBe Q op2"
  shows "save_post E U fmm toBe Q (\<lambda>tu. rbind (op1 tu) op2)"
  unfolding save_post_def
proof (intro allI impI)
  fix tu assume "tu_ok E U fmm toBe tu"
  from save_okD [OF assms(1) this] obtain tu1 where tu1: "op1 tu = Inr tu1" "tu_ok E U fmm toBe tu1" "tu_grows tu tu1" by blast
  from save_postD [OF assms(2) tu1(2)] obtain tu2 where "op2 tu1 = Inr tu2" "tu_ok E U fmm toBe tu2" "tu_grows tu1 tu2" "Q tu2" by blast
  with tu1 tu_grows_trans show "\<exists>tu'. rbind (op1 tu) op2 = Inr tu' \<and> tu_ok E U fmm toBe tu' \<and> tu_grows tu tu' \<and> Q tu'" by fastforce
qed

lemma save_post_described:
  assumes g: "\<And>st. symbols_ok (clang E) (te_wyhash E) fmm U (snd st) \<Longrightarrow> \<exists>st'. g st = Inr st' \<and> formatter_step E U fmm st st'"
    and k: "\<And>info. save_post E U fmm toBe Q (k info)"
  shows "save_post E U fmm toBe Q (\<lambda>tu. rbind (g (info0, tu_symbolFormatter tu)) (\<lambda>(info, F). k info (tu\<lparr>tu_symbolFormatter := F\<rparr>)))"
  unfolding save_post_def
proof (intro allI impI)
  fix tu assume tu: "tu_ok E U fmm toBe tu"
  then have "symbols_ok (clang E) (te_wyhash E) fmm U (tu_symbolFormatter tu)" by (simp add: tu_ok_def)
  with g [of "(info0, tu_symbolFormatter tu)"] obtain info F where run: "g (info0, tu_symbolFormatter tu) = Inr (info, F)"
      and F: "symbols_ok (clang E) (te_wyhash E) fmm U F" "adds UNIV (tu_symbolFormatter tu) F"
    by (auto simp: formatter_step_def)
  note tu1 = tu_formatter [OF tu F]
  from save_postD [OF k tu1(1)] obtain tu2 where "k info (tu\<lparr>tu_symbolFormatter := F\<rparr>) = Inr tu2" "tu_ok E U fmm toBe tu2"
    "tu_grows (tu\<lparr>tu_symbolFormatter := F\<rparr>) tu2" "Q tu2" by blast
  with run tu1(2) tu_grows_trans show "\<exists>tu'. rbind (g (info0, tu_symbolFormatter tu)) (\<lambda>(info, F). k info (tu\<lparr>tu_symbolFormatter := F\<rparr>)) = Inr tu' \<and>
      tu_ok E U fmm toBe tu' \<and> tu_grows tu tu' \<and> Q tu'" by fastforce
qed

subsection \<open>Base classes\<close>

interpretation base_search: bounded_search decl_ptr "visitBase E d" "baseDecls E" "relateBase E d" for E d
  by unfold_locales (simp add: visitBase_def)

lemma relateBases_ok:
  assumes ok: "clang_ok (clang E) (te_wyhash E) fmm U" and bs: "\<And>b. b \<in> set bs \<Longrightarrow> plain_queryable (clang E) U b"
    and st: "symbols_ok (clang E) (te_wyhash E) fmm U (snd st)"
  shows "\<exists>st'. rfold (relateBase E d) bs st = Inr st' \<and> formatter_step E U fmm st st'"
proof (rule rfold_invariant)
  show "formatter_step E U fmm st st" using st by (simp add: formatter_step_def adds_refl)
next
  fix b st1 assume b: "b \<in> set bs" and st1: "formatter_step E U fmm st st1"
  from addRelationship_ok [OF named_decl_query_ok [OF ok bs [OF b]] st1] st1
  show "\<exists>st'. relateBase E d b st1 = Inr st' \<and> formatter_step E U fmm st st'" by (cases "decl_ptr b = decl_ptr d") (auto simp: relateBase_def)
qed

lemma base_search_ok:
  assumes ok: "clang_ok (clang E) (te_wyhash E) fmm U" and d: "\<And>b. b \<in> reached (baseDecls E) d \<Longrightarrow> plain_queryable (clang E) U b"
    and st: "symbols_ok (clang E) (te_wyhash E) fmm U (snd st)"
  shows "\<exists>st'. search 10000 decl_ptr (visitBase E d) [d] [] st = Inr st' \<and> formatter_step E U fmm st st'"
proof -
  obtain bs where "search 10000 decl_ptr (visitBase E d) [d] [] st = rfold (relateBase E d) bs st" "set bs \<subseteq> reached (baseDecls E) d"
    using base_search.search_sound by blast
  then show ?thesis using relateBases_ok [OF ok _ st, of bs d] d by auto
qed

subsection \<open>Declarations\<close>

text \<open>The end of a definition is that it is saved; everything before it leaves what was saved as it is.\<close>

lemma defineFunction_post:
  assumes ok: "clang_ok (clang E) (te_wyhash E) fmm U" and d: "function_ok E U fmm d"
    "isPureVirtual E (decl_ptr d) \<or> isThisDeclarationADefinition E (decl_ptr d)"
    and post: "\<And>info. save_post E U fmm toBe Q (saveDefinition E s (decl_location d) (Some info) 0)"
  shows "save_post E U fmm toBe Q (defineFunction E d s)"
proof -
  define ms where "ms = (case overridden_methods E (decl_ptr d) of None \<Rightarrow> [] | Some ms \<Rightarrow> ms)"
  have ms: "plain_queryable (clang E) U m \<and> decl_kind m = FunctionDecl" if "m \<in> set ms" for m
    using d that by (cases "overridden_methods E (decl_ptr d)") (auto simp: function_ok_def ms_def)
  have "\<exists>st'. rfold (\<lambda>m. addRelationship E True (getFunctionSymbol (clang E) (te_wyhash E) m)) ms st = Inr st' \<and> formatter_step E U fmm st st'"
    if st: "symbols_ok (clang E) (te_wyhash E) fmm U (snd st)" for st
  proof (rule rfold_invariant)
    show "formatter_step E U fmm st st" using st by (simp add: formatter_step_def adds_refl)
  next
    fix m st1 assume "m \<in> set ms" and st1: "formatter_step E U fmm st st1"
    then have m: "m \<in> U" "decl_kind m = FunctionDecl" using ms by (auto simp: plain_queryable_def)
    show "\<exists>st'. addRelationship E True (getFunctionSymbol (clang E) (te_wyhash E) m) st1 = Inr st' \<and> formatter_step E U fmm st st'"
      by (rule addRelationship_ok [OF function_query_ok [OF ok m] st1])
  qed
  from save_post_described [OF this post] show ?thesis by (simp add: ms_def save_post_def defineFunction_def)
qed

lemma defineTag_post:
  assumes ok: "clang_ok (clang E) (te_wyhash E) fmm U" and d: "tag_ok E U fmm d" "isThisDeclarationADefinition E (decl_ptr d)"
    and l: "loc_ok E toBe (decl_location d)"
    and post: "\<And>info. save_post E U fmm toBe Q (saveDefinition E s (decl_location d) (Some info) 0)"
  shows "save_post E U fmm toBe Q (defineTag E d s)"
proof -
  define saved where "saved = (\<lambda>info tu. rbind (if isExplicitSpecialization E (decl_ptr d) then saveReference E s (decl_location d) None 0 tu else Inr tu)
               (saveDefinition E s (decl_location d) (Some info) 0))"
  have "save_ok E U fmm toBe (\<lambda>tu. if isExplicitSpecialization E (decl_ptr d) then saveReference E s (decl_location d) None 0 tu else Inr tu)"
    using save_ok_reference [OF l, of None s] save_ok_skip by (cases "isExplicitSpecialization E (decl_ptr d)") (simp_all add: forward_ref_def)
  then have saved: "save_post E U fmm toBe Q (saved info)" for info
    unfolding saved_def by (rule save_post_bind) (rule post)
  have "\<exists>st'. search 10000 decl_ptr (visitBase E d) (if isCXXRecord E (decl_ptr d) then [d] else []) [] st = Inr st' \<and> formatter_step E U fmm st st'"
    if "symbols_ok (clang E) (te_wyhash E) fmm U (snd st)" for st
    using d base_search_ok [OF ok _ that, of d] that
    by (cases "isCXXRecord E (decl_ptr d)") (simp_all add: tag_ok_def formatter_step_def adds_refl)
  from save_post_described [OF this saved] show ?thesis by (simp add: save_post_def defineTag_def saved_def Let_def)
qed

lemma save_ok_function:
  assumes ok: "clang_ok (clang E) (te_wyhash E) fmm U" and d: "decl_ok E U fmm toBe d" "decl_kind d = FunctionDecl"
  shows "save_ok E U fmm toBe (saveFunctionDecl E d)"
proof -
  have q: "plain_queryable (clang E) U d" "loc_ok E toBe (decl_location d)" "function_ok E U fmm d"
    using d by (simp_all add: decl_ok_def is_template_def)
  show ?thesis unfolding saveFunctionDecl_def named_symbols(4) [OF d(2)]
  proof (rule save_ok_plain [OF ok q(1)])
    fix s assume s: "tells (suffix_of E fmm d) True (Some s)"
    have "save_ok E U fmm toBe (defineFunction E d s)" if "isPureVirtual E (decl_ptr d) \<or> isThisDeclarationADefinition E (decl_ptr d)"
      unfolding save_ok_iff_post
      by (rule defineFunction_post [OF ok q(3) that]) (rule save_ok_definition [OF q(2), unfolded save_ok_iff_post])
    moreover have "save_ok E U fmm toBe (saveForwardDeclaration E s (decl_location d) (getDocComment E d))"
      if "\<not> (isPureVirtual E (decl_ptr d) \<or> isThisDeclarationADefinition E (decl_ptr d))"
      using q(3) that tells_suffix [OF s] by (auto simp: function_ok_def forward_ok_def intro: save_ok_forward)
    ultimately show "save_ok E U fmm toBe (if isPureVirtual E (decl_ptr d) \<or> isThisDeclarationADefinition E (decl_ptr d) then defineFunction E d s
        else saveForwardDeclaration E s (decl_location d) (getDocComment E d))" by simp
  qed
qed

lemma save_ok_tag:
  assumes ok: "clang_ok (clang E) (te_wyhash E) fmm U" and d: "decl_ok E U fmm toBe d" "decl_kind d = RecordDecl \<or> decl_kind d = EnumDecl"
  shows "save_ok E U fmm toBe (saveTagDecl E d)"
proof -
  have q: "plain_queryable (clang E) U d" "loc_ok E toBe (decl_location d)" "tag_ok E U fmm d"
    using d by (auto simp: decl_ok_def is_template_def)
  show ?thesis unfolding saveTagDecl_def named_symbols(9) [OF d(2)]
  proof (rule save_ok_plain [OF ok q(1)])
    fix s assume s: "tells (suffix_of E fmm d) True (Some s)"
    have "save_ok E U fmm toBe (defineTag E d s)" if "isThisDeclarationADefinition E (decl_ptr d)"
      unfolding save_ok_iff_post
      by (rule defineTag_post [OF ok q(3) that q(2)]) (rule save_ok_definition [OF q(2), unfolded save_ok_iff_post])
    moreover have "save_ok E U fmm toBe (saveForwardDeclaration E s (decl_location d) (getDocComment E d))"
      if "\<not> isThisDeclarationADefinition E (decl_ptr d)"
      using q(3) that tells_suffix [OF s] by (auto simp: tag_ok_def forward_ok_def intro: save_ok_forward)
    ultimately show "save_ok E U fmm toBe (if \<not> isThisDeclarationADefinition E (decl_ptr d)
      then saveForwardDeclaration E s (decl_location d) (getDocComment E d) else defineTag E d s)" by simp
  qed
qed

lemma save_ok_shadow:
  assumes ok: "clang_ok (clang E) (te_wyhash E) fmm U" and d: "shadow_ok E U toBe d"
  shows "save_ok E U fmm toBe (saveUsingShadowDecl E d)"
proof -
  have q: "plain_queryable (clang E) U d" "decl_kind d = UsingShadowDecl" "loc_ok E toBe (decl_location d)"
    using d by (simp_all add: shadow_ok_def)
  show ?thesis unfolding saveUsingShadowDecl_def named_symbols(7) [OF q(2)]
  proof (rule save_ok_plain [OF ok q(1)], rule save_ok_bind)
    show "save_ok E U fmm toBe (\<lambda>tu. if hasIntroducer E (decl_ptr d) then saveDefinition E s (decl_location d) (Some (infoFor E d)) 0 tu else Inr tu)" for s
      using save_ok_definition [OF q(3)] save_ok_skip by (cases "hasIntroducer E (decl_ptr d)") simp_all
  next
    show "save_ok E U fmm toBe (\<lambda>tu1. case getTargetDecl E (decl_ptr d) of
         None \<Rightarrow> Inr tu1
       | Some namedDecl \<Rightarrow> with_symbol (getNamedDeclSymbol (clang E) (te_wyhash E) namedDecl) (\<lambda>target. saveReference E target (decl_location d) None 0) tu1)"
    proof (cases "getTargetDecl E (decl_ptr d)")
      case (Some t)
      then have "queryable (clang E) U t" using d by (simp add: shadow_ok_def)
      then have "save_ok E U fmm toBe (with_symbol (getNamedDeclSymbol (clang E) (te_wyhash E) t) (\<lambda>target. saveReference E target (decl_location d) None 0))"
        by (rule save_ok_named [OF ok]) (rule save_ok_reference [OF q(3)], simp add: forward_ref_def)
      with Some show ?thesis by simp
    qed (simp add: save_ok_skip')
  qed
qed

lemma save_ok_var:
  assumes ok: "clang_ok (clang E) (te_wyhash E) fmm U" and d: "decl_ok E U fmm toBe d" "decl_kind d = VarDecl v"
  shows "save_ok E U fmm toBe (saveVarDecl E d)"
proof (cases "v = Decomposition")
  case True
  then have "saveVarDecl E d = Inr" using d(2) by (simp add: saveVarDecl_def fun_eq_iff)
  then show ?thesis by (simp add: save_ok_skip)
next
  case False
  have q: "plain_queryable (clang E) U d" "loc_ok E toBe (decl_location d)" "reference_ok E U fmm toBe d (decl_location d)"
    using d False by (auto simp: decl_ok_def is_template_def)
  let ?query = "getNamedDeclSymbol (clang E) (te_wyhash E) d"
  define member where "member = (\<lambda>tu. if isStaticDataMember E (decl_ptr d) \<or> isFileVarDecl E (decl_ptr d)
     then with_symbol ?query (\<lambda>s. saveDefinition E s (decl_location d) (Some (infoFor E d)) 0) tu else Inr tu)"
  have "save_ok E U fmm toBe (with_symbol ?query (\<lambda>s. saveDefinition E s (decl_location d) (Some (infoFor E d)) 0))"
    by (rule save_ok_plain [OF ok q(1)]) (rule save_ok_definition [OF q(2)])
  then have member: "save_ok E U fmm toBe member"
    unfolding member_def using save_ok_skip by (cases "isStaticDataMember E (decl_ptr d) \<or> isFileVarDecl E (decl_ptr d)") simp_all
  have "save_ok E U fmm toBe (\<lambda>tu. rbind (saveDefinition E s (decl_location d) None 0 tu) member)" for s
    by (rule save_ok_bind [OF save_ok_definition [OF q(2)] member])
  then have loc: "save_ok E U fmm toBe (with_symbol ?query (\<lambda>s tu. rbind (saveDefinition E s (decl_location d) None 0 tu) member))"
    by (rule save_ok_plain [OF ok q(1)])
  have "saveVarDecl E d = (if isLocalExternDecl (clang E) (decl_ptr d) then with_symbol ?query (\<lambda>s. saveReference E s (decl_location d) (Some d) 0)
      else if isLocalVarDeclOrParm (clang E) (decl_ptr d) then with_symbol ?query (\<lambda>s tu. rbind (saveDefinition E s (decl_location d) None 0 tu) member)
      else member)"
    using d(2) False by (auto simp: saveVarDecl_def Let_def named_symbols(8) member_def fun_eq_iff)
  then show ?thesis using save_ok_reference_to(1) [OF ok q(3)] loc member by simp
qed

lemma save_ok_decl:
  assumes ok: "clang_ok (clang E) (te_wyhash E) fmm U" and d: "decl_ok E U fmm toBe d"
  shows "save_ok E U fmm toBe (saveDecl E d)"
proof -
  have defn: "save_ok E U fmm toBe (with_symbol (getNamedDeclSymbol (clang E) (te_wyhash E) d) (\<lambda>s. saveDefinition E s (decl_location d) info 0))"
    if "plain_queryable (clang E) U d" "loc_ok E toBe (decl_location d)" for info
    by (rule save_ok_plain [OF ok that(1)]) (rule save_ok_definition [OF that(2)])
  have plain: "plain_queryable (clang E) U d \<and> loc_ok E toBe (decl_location d)"
    if "\<not> is_template d" "decl_kind d \<noteq> UsingDecl" "decl_kind d \<noteq> VarDecl Decomposition"
    using d that by (simp add: decl_ok_def)
  show ?thesis
  proof (cases "decl_kind d")
    case EnumConstantDecl
    with d have b: "getBeginLoc E (decl_ptr d) = decl_location d" by (simp add: decl_ok_def is_template_def)
    show ?thesis using defn plain EnumConstantDecl
      by (simp add: saveDecl_def saveEnumConstantDecl_def named_symbols(2) b is_template_def)
  next
    case NamespaceDecl
    with d obtain l where l: "namespaceStartLoc E d = Inr l" "loc_ok E toBe l" by (auto simp: decl_ok_def is_template_def)
    have "save_ok E U fmm toBe (with_symbol (getNamedDeclSymbol (clang E) (te_wyhash E) d) (\<lambda>s. saveDefinition E s l info 0))" for info
      by (rule save_ok_plain [OF ok]) (use plain NamespaceDecl save_ok_definition [OF l(2)] in \<open>simp_all add: is_template_def\<close>)
    then show ?thesis using NamespaceDecl by (simp add: saveDecl_def saveNamespaceDecl_def named_symbols(5) l(1))
  next
    case UsingDecl
    with d have "\<forall>sh \<in> set (shadows E (decl_ptr d)). shadow_ok E U toBe sh" by (simp add: decl_ok_def)
    then have "save_ok E U fmm toBe (saveUsingDecl E d)" unfolding saveUsingDecl_def by (intro save_ok_fold save_ok_shadow [OF ok]) blast
    with UsingDecl show ?thesis by (simp add: saveDecl_def)
  next
    case UsingShadowDecl
    with d save_ok_shadow [OF ok] show ?thesis by (simp add: saveDecl_def decl_ok_def is_template_def)
  next
    case (VarDecl v)
    with save_ok_var [OF ok d] show ?thesis by (simp add: saveDecl_def)
  next
    case FunctionDecl
    with save_ok_function [OF ok d] show ?thesis by (simp add: saveDecl_def)
  next
    case RecordDecl
    with save_ok_tag [OF ok d] show ?thesis by (simp add: saveDecl_def saveRecordDecl_def)
  next
    case EnumDecl
    with save_ok_tag [OF ok d] show ?thesis by (simp add: saveDecl_def saveEnumDecl_def)
  next
    case BindingDecl
    with defn plain show ?thesis by (simp add: saveDecl_def saveBindingDecl_def named_symbols(1) [of d _ "te_wyhash E"] is_template_def)
  next
    case FieldDecl
    with defn plain show ?thesis by (simp add: saveDecl_def saveFieldDecl_def named_symbols(3) is_template_def)
  next
    case TypedefNameDecl
    with defn plain show ?thesis by (simp add: saveDecl_def saveTypedefNameDecl_def is_template_def)
  qed (use defn plain in \<open>simp_all add: saveDecl_def save_ok_skip saveTemplateParmDecl_def named_symbols(10) [of d _ "te_wyhash E"] is_template_def\<close>)
qed

subsection \<open>Types and expressions\<close>

text \<open>A reference to a declaration of a certain kind, if there is one.\<close>

definition kind_reference_ok :: "tu_env \<Rightarrow> Decl set \<Rightarrow> FileMetadataMap \<Rightarrow> FileID list \<Rightarrow> DeclKind set \<Rightarrow> Decl option \<Rightarrow> SourceLocation \<Rightarrow> bool" where
  "kind_reference_ok E U fmm toBe kinds opt l \<longleftrightarrow> (\<forall>d. opt = Some d \<longrightarrow> decl_kind d \<in> kinds \<and> reference_ok E U fmm toBe d l)"

definition template_name_ok :: "tu_env \<Rightarrow> Decl set \<Rightarrow> FileMetadataMap \<Rightarrow> FileID list \<Rightarrow> TemplateSpecializationTypeLoc \<Rightarrow> bool" where
  "template_name_ok E U fmm toBe l \<longleftrightarrow>
     (case unwrapTemplateName (tst_templateName l) of
        TN_Template d \<Rightarrow> decl_kind d \<in> {ClassTemplateDecl, TypeAliasTemplateDecl, TemplateTemplateParmDecl} \<longrightarrow> reference_ok E U fmm toBe d (tst_nameLoc l)
      | TN_Using d \<Rightarrow> decl_kind d = UsingShadowDecl \<and> reference_ok E U fmm toBe d (tst_nameLoc l)
      | _ \<Rightarrow> True)"

fun name_part_ok :: "tu_env \<Rightarrow> Decl set \<Rightarrow> FileMetadataMap \<Rightarrow> FileID list \<Rightarrow> NestedNameSpecifier \<times> SourceLocation \<Rightarrow> bool" where
  "name_part_ok E U fmm toBe (NNS_Namespace d, l) \<longleftrightarrow> reference_ok E U fmm toBe d l"
| "name_part_ok E U fmm toBe (NNS_TypeSpec t, l) \<longleftrightarrow> kind_reference_ok E U fmm toBe UNIV (Option.bind t (declOfType E)) l"
| "name_part_ok E U fmm toBe (_, l) \<longleftrightarrow> True"

fun node_ok :: "tu_env \<Rightarrow> Decl set \<Rightarrow> FileMetadataMap \<Rightarrow> FileID list \<Rightarrow> AstNode \<Rightarrow> bool" where
  "node_ok E U fmm toBe (DeclNode d) \<longleftrightarrow> decl_ok E U fmm toBe d"
| "node_ok E U fmm toBe (EnumLoc l) \<longleftrightarrow> kind_reference_ok E U fmm toBe {EnumDecl} (Some (ttl_decl l)) (ttl_nameLoc l)"
| "node_ok E U fmm toBe (RecordLoc l) \<longleftrightarrow> kind_reference_ok E U fmm toBe {RecordDecl} (Some (ttl_decl l)) (ttl_nameLoc l)"
| "node_ok E U fmm toBe (TemplateSpecializationLoc l) \<longleftrightarrow> template_name_ok E U fmm toBe l"
| "node_ok E U fmm toBe (TemplateTypeParmLoc l) \<longleftrightarrow> dl_decl l \<noteq> None \<and> kind_reference_ok E U fmm toBe {TemplateTypeParmDecl} (dl_decl l) (dl_loc l)"
| "node_ok E U fmm toBe (TypedefLoc l) \<longleftrightarrow> kind_reference_ok E U fmm toBe {TypedefNameDecl} (dl_decl l) (dl_loc l)"
| "node_ok E U fmm toBe (UsingLoc l) \<longleftrightarrow> kind_reference_ok E U fmm toBe {UsingShadowDecl} (dl_decl l) (dl_loc l)"
| "node_ok E U fmm toBe (CUDAKernelCall c) \<longleftrightarrow> (\<forall>d l. c = Some (Some d, l) \<longrightarrow> reference_ok E U fmm toBe d l)"
| "node_ok E U fmm toBe (CXXConstruct e) \<longleftrightarrow> kind_reference_ok E U fmm toBe {FunctionDecl} (ce_constructor e) (ce_beginLoc e)"
| "node_ok E U fmm toBe (CXXDependentScopeMember t m) \<longleftrightarrow> loc_ok E toBe (mn_loc m)"
| "node_ok E U fmm toBe (DeclRef l) \<longleftrightarrow> kind_reference_ok E U fmm toBe UNIV (dl_decl l) (dl_loc l)"
| "node_ok E U fmm toBe (Member e) \<longleftrightarrow> kind_reference_ok E U fmm toBe UNIV (me_memberDecl e) (me_memberLoc e)"
| "node_ok E U fmm toBe (UnresolvedLookup ds l) \<longleftrightarrow> (\<forall>d. Some d \<in> set ds \<longrightarrow> reference_ok E U fmm toBe d l)"
| "node_ok E U fmm toBe (UnresolvedMember t m) \<longleftrightarrow> loc_ok E toBe (mn_loc m)"
| "node_ok E U fmm toBe (NestedName parts) \<longleftrightarrow> (\<forall>p \<in> set parts. name_part_ok E U fmm toBe p)"
| "node_ok E U fmm toBe (CtorInitializer l) \<longleftrightarrow> kind_reference_ok E U fmm toBe {FieldDecl} (dl_decl l) (dl_loc l)"

text \<open>What is used of Clang for a translation unit: the declarations, and what its lookup of dependent names finds.\<close>

definition tree_laws :: "tu_env \<Rightarrow> Decl set \<Rightarrow> FileMetadataMap \<Rightarrow> bool" where
  "tree_laws E U fmm \<longleftrightarrow> clang_ok (clang E) (te_wyhash E) fmm U \<and>
     (\<forall>p n. \<forall>d \<in> set (lookupDependentName E p n). decl_kind d \<noteq> UsingDecl \<and> asUnresolvedUsingValue E (decl_ptr d) = None \<longrightarrow> target_ok E U fmm d)"

interpretation type_search: bounded_search id "resolveInType E n"
    "\<lambda>t. concat (map (\<lambda>d. case asUnresolvedUsingValue E (decl_ptr d) of Some (Some t) \<Rightarrow> [t] | _ \<Rightarrow> []) (dependentLookup E n t))"
    "\<lambda>t results. Inr (results @ filter (\<lambda>d. asUnresolvedUsingValue E (decl_ptr d) = None) (dependentLookup E n t))" for E n
  by unfold_locales (simp add: resolveInType_def Let_def)

lemma tryResolveMember_ok:
  assumes ok: "tree_laws E U fmm" and R: "lookups_ok E U fmm R"
  shows "\<exists>ds R'. tryResolveMember E t n R = Inr (ds, R') \<and> lookups_ok E U fmm R' \<and> (\<forall>d \<in> set ds. target_ok E U fmm d)"
proof (cases t)
  case (Some type)
  let ?key = "(getCanonicalType E type, n)"
  show ?thesis
  proof (cases "map_of (dependentNameLookupCache R) ?key")
    case None
    have found: "target_ok E U fmm d" if "d \<in> set (dependentLookup E n ty)" "asUnresolvedUsingValue E (decl_ptr d) = None" for d ty
      using ok that by (auto simp: tree_laws_def dependentLookup_def split: option.splits if_splits)
    have "\<exists>ds. search 10000 id (resolveInType E n) [type] [] [] = Inr ds \<and> (\<forall>d \<in> set ds. target_ok E U fmm d)"
      unfolding type_search.search_order by (rule rfold_invariant) (use found in auto)
    then obtain ds where "search 10000 id (resolveInType E n) [type] [] [] = Inr ds" "\<forall>d \<in> set ds. target_ok E U fmm d" by blast
    with R None Some show ?thesis
      by (auto simp: tryResolveMember_def Let_def lookups_ok_def hmap_emplace_def)
  next
    case (Some ds)
    with R \<open>t = Some type\<close> map_of_SomeD [OF Some] show ?thesis by (fastforce simp: tryResolveMember_def lookups_ok_def)
  qed
qed (simp add: tryResolveMember_def R)

lemma kind_reference:
  assumes ok: "clang_ok (clang E) (te_wyhash E) fmm U" and k: "kind_reference_ok E U fmm toBe kinds (Some d) l"
    and q: "\<And>d. decl_kind d \<in> kinds \<Longrightarrow> q d = getNamedDeclSymbol (clang E) (te_wyhash E) d"
  shows "save_ok E U fmm toBe (with_symbol (q d) (\<lambda>s. saveReference E s l (Some d) 0))"
    "save_ok E U fmm toBe (with_symbol (q d) (\<lambda>s. saveReference E s l None 0))"
  using k save_ok_reference_to [OF ok, of toBe d l] q [of d] by (auto simp: kind_reference_ok_def)

lemma save_ok_unresolved:
  assumes ok: "clang_ok (clang E) (te_wyhash E) fmm U"
  shows "\<forall>d. Some d \<in> set ds \<longrightarrow> reference_ok E U fmm toBe d l \<Longrightarrow> save_ok E U fmm toBe (saveUnresolvedDecls E l ds n)"
proof (induction ds arbitrary: n)
  case Nil
  then show ?case by (simp add: save_ok_def tu_grows_refl)
next
  case (Cons od ds)
  then have IH: "save_ok E U fmm toBe (saveUnresolvedDecls E l ds n)" for n by auto
  show ?case
  proof (cases od)
    case None
    with IH [of n] show ?thesis by (simp add: save_ok_def)
  next
    case (Some d)
    then have d: "reference_ok E U fmm toBe d l" using Cons.prems by simp
    have ref: "save_ok E U fmm toBe (saveReference E s l None 0)" for s
      using d by (intro save_ok_reference) (auto simp: reference_ok_def forward_ref_def)
    have tail: "save_ok E U fmm toBe (\<lambda>tu. if n + 1 = MAX_UNRESOLVED_DECL_LIMIT then Inr tu else saveUnresolvedDecls E l ds (n + 1) tu)"
      using IH [of "n + 1"] save_ok_skip by (cases "n + 1 = MAX_UNRESOLVED_DECL_LIMIT") simp_all
    note rest = save_ok_bind [OF ref tail]
    show ?thesis unfolding save_ok_def
    proof (intro allI impI)
      fix tu assume tu: "tu_ok E U fmm toBe tu"
      have q: "queryable (clang E) U d" using d by (simp add: reference_ok_def target_ok_def)
      obtain r F where r: "getNamedDeclSymbol (clang E) (te_wyhash E) d (tu_symbolFormatter tu) = Inr (r, F)"
          and tu1: "tu_ok E U fmm toBe (tu\<lparr>tu_symbolFormatter := F\<rparr>)" "tu_grows tu (tu\<lparr>tu_symbolFormatter := F\<rparr>)"
        using with_symbol_returns [OF queryable_query [OF ok q] tu] by blast
      have "\<exists>tu'. saveUnresolvedDecls E l (Some d # ds) n tu = Inr tu' \<and> tu_ok E U fmm toBe tu' \<and> tu_grows (tu\<lparr>tu_symbolFormatter := F\<rparr>) tu'"
      proof (cases r)
        case None
        with r save_okD [OF IH tu1(1)] show ?thesis by simp
      next
        case (Some s)
        with r save_okD [OF rest tu1(1), of s] show ?thesis by simp
      qed
      with tu_grows_trans [OF tu1(2)] \<open>od = Some d\<close>
      show "\<exists>tu'. saveUnresolvedDecls E l (od # ds) n tu = Inr tu' \<and> tu_ok E U fmm toBe tu' \<and> tu_grows tu tu'" by blast
    qed
  qed
qed

lemma save_ok_member:
  assumes ok: "tree_laws E U fmm" and l: "loc_ok E toBe (mn_loc m)"
  shows "save_ok E U fmm toBe (trySaveMemberReferenceViaLookup E t m)"
  unfolding save_ok_def
proof (intro allI impI)
  fix tu assume tu: "tu_ok E U fmm toBe tu"
  have clang: "clang_ok (clang E) (te_wyhash E) fmm U" using ok by (simp add: tree_laws_def)
  show "\<exists>tu'. trySaveMemberReferenceViaLookup E t m tu = Inr tu' \<and> tu_ok E U fmm toBe tu' \<and> tu_grows tu tu'"
  proof (cases t)
    case None
    with tu tu_grows_refl show ?thesis by (auto simp: trySaveMemberReferenceViaLookup_def)
  next
    case (Some type)
    have "lookups_ok E U fmm (approximateNameResolver tu)" using tu by (simp add: tu_ok_def)
    from tryResolveMember_ok [OF ok this] obtain ds R where
      ds: "tryResolveMember E (derefBaseType E type) (mn_name m) (approximateNameResolver tu) = Inr (ds, R)"
        "lookups_ok E U fmm R" "\<forall>d \<in> set ds. target_ok E U fmm d" by blast
    define tu1 where "tu1 = tu\<lparr>approximateNameResolver := R\<rparr>"
    have tu1: "tu_ok E U fmm toBe tu1" "tu_grows tu tu1" using tu ds(2)
      by (simp_all add: tu1_def tu_ok_def tu_grows_def adds_refl documents_grow_refl forwards_grow_refl)
    have "save_ok E U fmm toBe (rfold (\<lambda>d. with_symbol (getNamedDeclSymbol (clang E) (te_wyhash E) d) (\<lambda>s. saveReference E s (mn_loc m) (Some d) 0)) ds)"
      using ds(3) l by (intro save_ok_fold save_ok_reference_to(1) [OF clang]) (simp add: reference_ok_def)
    from save_okD [OF this tu1(1)] Some ds(1) tu1(2) tu_grows_trans show ?thesis
      unfolding trySaveMemberReferenceViaLookup_def tu1_def by fastforce
  qed
qed

lemma save_ok_name_parts:
  assumes ok: "clang_ok (clang E) (te_wyhash E) fmm U"
  shows "\<forall>p \<in> set parts. name_part_ok E U fmm toBe p \<Longrightarrow> save_ok E U fmm toBe (saveNestedNameSpecifierLoc E parts)"
proof (induction parts)
  case Nil
  then show ?case by (simp add: save_ok_def tu_grows_refl)
next
  case (Cons p parts)
  obtain ns l where p: "p = (ns, l)" by (cases p)
  have IH: "save_ok E U fmm toBe (saveNestedNameSpecifierLoc E parts)" and part: "name_part_ok E U fmm toBe (ns, l)" using Cons p by auto
  let ?first = "\<lambda>tu. case ns of
              NNS_Namespace d \<Rightarrow> with_symbol (getNamedDeclSymbol (clang E) (te_wyhash E) d) (\<lambda>sname. saveReference E sname l None 0) tu
            | NNS_TypeSpec type \<Rightarrow> trySaveTypeReference E type l tu
            | _ \<Rightarrow> Inr tu"
  have type: "save_ok E U fmm toBe (trySaveTypeReference E t l)" if "ns = NNS_TypeSpec t" for t
    using part that kind_reference(1) [OF ok, of toBe UNIV _ l] save_ok_skip
    by (cases "Option.bind t (declOfType E)") (simp_all add: trySaveTypeReference_def)
  have "save_ok E U fmm toBe ?first"
    using part type save_ok_reference_to(2) [OF ok] save_ok_skip by (cases ns) simp_all
  from save_ok_bind [OF this IH] show ?case by (simp add: p save_ok_def)
qed

lemma save_ok_template_name:
  assumes ok: "clang_ok (clang E) (te_wyhash E) fmm U" and l: "template_name_ok E U fmm toBe l"
  shows "save_ok E U fmm toBe (saveTemplateSpecializationTypeLoc E l)"
proof -
  have none: "save_ok E U fmm toBe (with_symbol (\<lambda>F. Inr (None, F)) k)" for k
    by (simp add: save_ok_def with_symbol_def tu_grows_refl)
  have sym: "templateSymbol E d = (if decl_kind d \<in> {ClassTemplateDecl, TypeAliasTemplateDecl, TemplateTemplateParmDecl}
      then getNamedDeclSymbol (clang E) (te_wyhash E) d else (\<lambda>F. Inr (None, F)))" for d
    by (cases "decl_kind d") (simp_all add: templateSymbol_def getNamedDeclSymbol_def getClassTemplateSymbol_def getTypeAliasTemplateSymbol_def)
  show ?thesis
  proof (cases "unwrapTemplateName (tst_templateName l)")
    case (TN_Template d)
    then show ?thesis using l none save_ok_reference_to(2) [OF ok]
      by (cases "decl_kind d \<in> {ClassTemplateDecl, TypeAliasTemplateDecl, TemplateTemplateParmDecl}")
        (auto simp: saveTemplateSpecializationTypeLoc_def Let_def sym template_name_ok_def)
  next
    case (TN_Using d)
    then show ?thesis using l save_ok_reference_to(2) [OF ok]
      by (simp add: saveTemplateSpecializationTypeLoc_def Let_def template_name_ok_def named_symbols(7))
  qed (simp_all add: saveTemplateSpecializationTypeLoc_def save_ok_skip)
qed

lemma visit_ok:
  assumes ok: "tree_laws E U fmm" and n: "node_ok E U fmm toBe n"
  shows "save_ok E U fmm toBe (visitNode E n)"
proof -
  have clang: "clang_ok (clang E) (te_wyhash E) fmm U" using ok by (simp add: tree_laws_def)
  note ref = kind_reference [OF clang]
  have tag: "save_ok E U fmm toBe (saveTagTypeLoc E l)" if "kind_reference_ok E U fmm toBe {RecordDecl, EnumDecl} (Some (ttl_decl l)) (ttl_nameLoc l)" for l
    using ref(1) [OF that, of "getTagSymbol (clang E) (te_wyhash E)"] save_ok_skip by (auto simp: saveTagTypeLoc_def named_symbols(9))
  have optional: "save_ok E U fmm toBe (case opt of None \<Rightarrow> Inr | Some d \<Rightarrow> f d)" if "\<And>d. opt = Some d \<Longrightarrow> save_ok E U fmm toBe (f d)"
    for opt and f :: "Decl \<Rightarrow> save"
    using that save_ok_skip by (cases opt) auto
  show ?thesis
  proof (cases n)
    case (DeclNode d)
    with n save_ok_decl [OF clang] show ?thesis by simp
  next
    case (EnumLoc l)
    with n tag [of l] show ?thesis by (simp add: saveEnumTypeLoc_def kind_reference_ok_def)
  next
    case (RecordLoc l)
    with n tag [of l] show ?thesis by (simp add: saveRecordTypeLoc_def kind_reference_ok_def)
  next
    case (TemplateSpecializationLoc l)
    with n save_ok_template_name [OF clang] show ?thesis by simp
  next
    case (TemplateTypeParmLoc l)
    with n obtain d where d: "dl_decl l = Some d" "kind_reference_ok E U fmm toBe {TemplateTypeParmDecl} (Some d) (dl_loc l)" by auto
    from ref(2) [OF d(2), of "getTemplateParmSymbol (clang E)"] d(1) TemplateTypeParmLoc show ?thesis
      by (simp add: saveTemplateTypeParmTypeLoc_def named_symbols(10))
  next
    case (TypedefLoc l)
    with n ref(2) [of toBe "{TypedefNameDecl}" _ "dl_loc l" "getTypedefNameSymbol (clang E) (te_wyhash E)"] show ?thesis
      by (auto simp: saveTypedefTypeLoc_def named_symbols(6) intro!: optional)
  next
    case (UsingLoc l)
    with n ref(2) [of toBe "{UsingShadowDecl}" _ "dl_loc l" "getUsingShadowSymbol (clang E) (te_wyhash E)"] show ?thesis
      by (auto simp: saveUsingTypeLoc_def named_symbols(7) intro!: optional)
  next
    case (CUDAKernelCall c)
    with n save_ok_reference_to(2) [OF clang] save_ok_skip show ?thesis
      by (auto simp: saveCUDAKernelCallExpr_def split: option.split)
  next
    case (CXXConstruct e)
    with n ref(2) [of toBe "{FunctionDecl}" _ "ce_beginLoc e" "getFunctionSymbol (clang E) (te_wyhash E)"] save_ok_skip show ?thesis
      by (auto simp: saveCXXConstructExpr_def named_symbols(4) intro!: optional)
  next
    case (DeclRef l)
    with n ref(1) [of toBe UNIV _ "dl_loc l"] show ?thesis by (auto simp: saveDeclRefExpr_def intro!: optional)
  next
    case (Member e)
    have "save_ok E U fmm toBe (with_symbol (getNamedDeclSymbol (clang E) (te_wyhash E) d) (\<lambda>s.
        if me_isIdentifier e then saveReference E s (me_memberLoc e) (Some d) 0 else Inr))" if "me_memberDecl e = Some d" for d
    proof (cases "me_isIdentifier e")
      case True
      with n Member that ref(1) [of toBe UNIV d "me_memberLoc e"] show ?thesis by simp
    next
      case False
      with n Member that save_ok_named [OF clang, of d toBe "\<lambda>_. Inr"] save_ok_skip show ?thesis
        by (simp add: kind_reference_ok_def reference_ok_def target_ok_def)
    qed
    with Member show ?thesis by (auto simp: saveMemberExpr_def intro!: optional)
  next
    case (UnresolvedLookup ds l)
    with n save_ok_unresolved [OF clang, of ds toBe l 0] show ?thesis by (simp add: saveUnresolvedLookupExpr_def)
  next
    case (NestedName parts)
    with n save_ok_name_parts [OF clang, of parts] show ?thesis by (simp add: save_ok_def)
  next
    case (CtorInitializer l)
    with n ref(2) [of toBe "{FieldDecl}" _ "dl_loc l" "getFieldSymbol (clang E) (te_wyhash E)"] show ?thesis
      by (auto simp: saveFieldReference_def named_symbols(3) intro!: optional)
  qed (use n save_ok_member [OF ok] in \<open>simp_all add: saveCXXDependentScopeMemberExpr_def saveUnresolvedMemberExpr_def\<close>)
qed

subsection \<open>Definitions and references of an entity\<close>

text \<open>The nodes that define an entity, rather than declare it, open a namespace or bring a name into scope.\<close>

definition defines_entity :: "tu_env \<Rightarrow> Decl \<Rightarrow> bool" where
  "defines_entity E d \<longleftrightarrow>
     (case decl_kind d of
        RecordDecl \<Rightarrow> isThisDeclarationADefinition E (decl_ptr d)
      | EnumDecl \<Rightarrow> isThisDeclarationADefinition E (decl_ptr d)
      | FunctionDecl \<Rightarrow> isThisDeclarationADefinition E (decl_ptr d)
      | VarDecl v \<Rightarrow> v \<noteq> Decomposition \<and> \<not> isLocalExternDecl (clang E) (decl_ptr d) \<and>
          (isLocalVarDeclOrParm (clang E) (decl_ptr d) \<or> isStaticDataMember E (decl_ptr d) \<or> isFileVarDecl E (decl_ptr d))
      | k \<Rightarrow> k \<in> {BindingDecl, FieldDecl, EnumConstantDecl, TypedefNameDecl, NonTypeTemplateParmDecl, TemplateTemplateParmDecl, TemplateTypeParmDecl})"

definition entity_has :: "tu_env \<Rightarrow> Decl \<Rightarrow> (SymbolNameRef \<Rightarrow> TuIndexer \<Rightarrow> bool) \<Rightarrow> TuIndexer \<Rightarrow> bool" where
  "entity_has E d P tu \<longleftrightarrow> (\<exists>s. map_of (declBasedCache (tu_symbolFormatter tu)) (getCanonicalDecl (clang E) (decl_ptr d)) = Some s \<and> P s tu)"

definition stable :: "(TuIndexer \<Rightarrow> bool) \<Rightarrow> bool" where
  "stable Q \<longleftrightarrow> (\<forall>tu tu'. Q tu \<longrightarrow> tu_grows tu tu' \<longrightarrow> Q tu')"

lemma stable_has_occurrence: "stable (has_occurrence f occ)"
  unfolding stable_def using has_occurrence_grows by blast

lemma stable_forward:
  "stable (\<lambda>tu. \<exists>v. map_of (forwardDeclarations tu) s = Some v \<and> r \<in> set (fwd_ranges v))"
  unfolding stable_def tu_grows_def forwards_grow_def by blast

lemma cache_grows:
  "tu_grows tu tu' \<Longrightarrow> map_of (declBasedCache (tu_symbolFormatter tu)) k = Some s \<Longrightarrow> map_of (declBasedCache (tu_symbolFormatter tu')) k = Some s"
  by (simp add: tu_grows_def adds_def)

lemma stable_entity_has: "(\<And>s. stable (P s)) \<Longrightarrow> stable (entity_has E d P)"
  unfolding stable_def entity_has_def using cache_grows by metis

lemma save_post_first:
  assumes "save_post E U fmm toBe Q op1" "save_ok E U fmm toBe op2" "stable Q"
  shows "save_post E U fmm toBe Q (\<lambda>tu. rbind (op1 tu) op2)"
  unfolding save_post_def
proof (intro allI impI)
  fix tu assume "tu_ok E U fmm toBe tu"
  from save_postD [OF assms(1) this] obtain tu1 where tu1: "op1 tu = Inr tu1" "tu_ok E U fmm toBe tu1" "tu_grows tu tu1" "Q tu1" by blast
  from save_okD [OF assms(2) tu1(2)] obtain tu2 where "op2 tu1 = Inr tu2" "tu_ok E U fmm toBe tu2" "tu_grows tu1 tu2" by blast
  with tu1 tu_grows_trans assms(3) show "\<exists>tu'. rbind (op1 tu) op2 = Inr tu' \<and> tu_ok E U fmm toBe tu' \<and> tu_grows tu tu' \<and> Q tu'"
    unfolding stable_def by fastforce
qed

lemma traversal_post:
  assumes ok: "tree_laws E U fmm" and ns: "\<forall>n \<in> set nodes. node_ok E U fmm toBe n"
    and n: "n \<in> set nodes" "save_post E U fmm toBe Q (visitNode E n)" and Q: "stable Q"
  shows "save_post E U fmm toBe Q (traverseAST E nodes)"
proof -
  obtain before after where split: "nodes = before @ n # after" using split_list [OF n(1)] by blast
  have "save_ok E U fmm toBe (rfold (visitNode E) before)" "save_ok E U fmm toBe (rfold (visitNode E) after)"
    using ns split by (auto intro!: save_ok_fold visit_ok [OF ok])
  note run = save_post_bind [OF this(1) save_post_first [OF n(2) this(2) Q]]
  have "(\<lambda>tu. rbind (visitNode E n tu) (rfold (visitNode E) after)) = rfold (visitNode E) (n # after)" by (simp add: fun_eq_iff)
  with run show ?thesis by (simp only: traverseAST_def split rfold_append save_post_def)
qed

text \<open>The symbol of a declaration that is known to have one stays in the cache.\<close>

lemma save_post_named:
  assumes ok: "clang_ok (clang E) (te_wyhash E) fmm U" and q: "queryable (clang E) U d"
    and d: "d' = templated (clang E) d" "decl_kind d' \<noteq> NamespaceDecl" "known_decl (clang E) (te_wyhash E) fmm d'"
    and k: "\<And>s. tells (suffix_of E fmm d') True (Some s) \<Longrightarrow> save_post E U fmm toBe (P s) (k s)"
  shows "save_post E U fmm toBe (entity_has E d' P) (with_symbol (getNamedDeclSymbol (clang E) (te_wyhash E) d) k)"
  unfolding save_post_def
proof (intro allI impI)
  fix tu assume tu: "tu_ok E U fmm toBe tu"
  let ?q = "getNamedDeclSymbol (clang E) (te_wyhash E) d"
  obtain r F where r: "?q (tu_symbolFormatter tu) = Inr (r, F)" "tells (suffix_of E fmm d') (known_decl (clang E) (te_wyhash E) fmm d') r"
    "tu_ok E U fmm toBe (tu\<lparr>tu_symbolFormatter := F\<rparr>)" "tu_grows tu (tu\<lparr>tu_symbolFormatter := F\<rparr>)"
    "with_symbol ?q k tu = (case r of None \<Rightarrow> Inr (tu\<lparr>tu_symbolFormatter := F\<rparr>) | Some s \<Rightarrow> k s (tu\<lparr>tu_symbolFormatter := F\<rparr>))"
    using with_symbol_returns [OF queryable_query [OF ok q] tu, of k] unfolding d(1) by blast
  then obtain s where s: "r = Some s" "tells (suffix_of E fmm d') True (Some s)" using d(3) by (auto simp: tells_def)
  have "map_of (declBasedCache F) (getCanonicalDecl (clang E) (decl_ptr d')) = Some s"
  proof (rule answer_cached [OF _ d(2)])
    show "plain_queryable (clang E) U d'" using q d(1) by (simp add: queryable_def)
    show "getNamedDeclSymbol (clang E) (te_wyhash E) d' (tu_symbolFormatter tu) = Inr (Some s, F)"
      using r(1) s(1) getNamedDeclSymbol_templated [OF q] d(1) by simp
  qed
  moreover obtain tu' where tu': "k s (tu\<lparr>tu_symbolFormatter := F\<rparr>) = Inr tu'" "tu_ok E U fmm toBe tu'"
      "tu_grows (tu\<lparr>tu_symbolFormatter := F\<rparr>) tu'" "P s tu'" using save_postD [OF k [OF s(2)] r(3)] by blast
  ultimately have "entity_has E d' P tu'" unfolding entity_has_def tu_grows_def adds_def by auto
  with r(5) s(1) tu' tu_grows_trans [OF r(4) tu'(3)]
  show "\<exists>tu'. with_symbol ?q k tu = Inr tu' \<and> tu_ok E U fmm toBe tu' \<and> tu_grows tu tu' \<and> entity_has E d' P tu'" by auto
qed

abbreviation defined_at :: "tu_env \<Rightarrow> SourceLocation \<Rightarrow> SymbolNameRef \<Rightarrow> TuIndexer \<Rightarrow> bool" where
  "defined_at E l s \<equiv> has_occurrence (loc_file E l) (token_occurrence E s l (role_Definition (codes E)))"

definition referenced_at :: "tu_env \<Rightarrow> RootRelativePathRef \<Rightarrow> Decl \<Rightarrow> SourceLocation \<Rightarrow> SymbolNameRef \<Rightarrow> TuIndexer \<Rightarrow> bool" where
  "referenced_at E path d l s tu \<longleftrightarrow>
     (if refersToForwardDecl E d
      then \<exists>v. map_of (forwardDeclarations tu) s = Some v \<and> (path, the_range (clang E) (token_range E l)) \<in> set (fwd_ranges v)
      else has_occurrence (loc_file E l) (token_occurrence E s l 0) tu)"

lemma save_post_definition:
  assumes "loc_ok E toBe l" "indexed_in_project fmm toBe (loc_file E l) sf"
  shows "save_post E U fmm toBe (defined_at E l s) (saveDefinition E s l info 0)"
proof -
  have "token_ok E l" using assms by (simp add: loc_ok_def indexed_in_project_def)
  with saveDefinition_in_project [OF _ this assms(2)] show ?thesis by (simp add: save_post_def)
qed

lemma save_post_reference:
  assumes ok: "clang_ok (clang E) (te_wyhash E) fmm U" and d: "reference_ok E U fmm toBe d l" "known_decl (clang E) (te_wyhash E) fmm (templated (clang E) d)"
    "decl_kind (templated (clang E) d) \<noteq> NamespaceDecl" and f: "indexed_in_project fmm toBe (loc_file E l) sf"
  shows "save_post E U fmm toBe (entity_has E (templated (clang E) d) (referenced_at E (sf_path sf) d l))
    (with_symbol (getNamedDeclSymbol (clang E) (te_wyhash E) d) (\<lambda>s. saveReference E s l (Some d) 0))"
proof (rule save_post_named [OF ok _ refl d(3,2)])
  show "queryable (clang E) U d" using d(1) by (simp add: reference_ok_def target_ok_def)
next
  fix s assume s: "tells (suffix_of E fmm (templated (clang E) d)) True (Some s)"
  have "token_ok E l" using d(1) f by (simp add: reference_ok_def loc_ok_def indexed_in_project_def)
  moreover have "getPackageAgnosticSuffix s \<noteq> None" if "forward_ref E (Some d)"
    using d(1) that tells_suffix [OF s] by (simp add: reference_ok_def target_ok_def forward_ref_def)
  ultimately show "save_post E U fmm toBe (referenced_at E (sf_path sf) d l s) (saveReference E s l (Some d) 0)"
    using saveReference_in_project [where fwd = "Some d" and s = s, OF _ _ f] unfolding save_post_def referenced_at_def forward_ref_def option.case by blast
qed

lemma define_post:
  assumes ok: "clang_ok (clang E) (te_wyhash E) fmm U" and d: "decl_ok E U fmm toBe d" "defines_entity E d" "known_decl (clang E) (te_wyhash E) fmm d"
    and f: "indexed_in_project fmm toBe (loc_file E (decl_location d)) sf"
  shows "save_post E U fmm toBe (entity_has E d (defined_at E (decl_location d))) (saveDecl E d)"
proof -
  have kind: "\<not> is_template d" "decl_kind d \<noteq> UsingDecl" "decl_kind d \<noteq> VarDecl Decomposition" "decl_kind d \<noteq> NamespaceDecl"
    using d(2) by (auto simp: defines_entity_def is_template_def)
  have q: "plain_queryable (clang E) U d" "loc_ok E toBe (decl_location d)" using d(1) kind by (simp_all add: decl_ok_def)
  note l = save_post_definition [OF q(2) f]
  have named: "save_post E U fmm toBe (entity_has E d (defined_at E (decl_location d))) (with_symbol (getNamedDeclSymbol (clang E) (te_wyhash E) d) k)"
    if "\<And>s. save_post E U fmm toBe (defined_at E (decl_location d) s) (k s)" for k
    using plain_is_queryable [OF q(1)] kind(4) d(3) that by (intro save_post_named [OF ok]) auto
  note plain = named [OF l]
  show ?thesis
  proof (cases "decl_kind d")
    case FunctionDecl
    then have def: "isThisDeclarationADefinition E (decl_ptr d)" using d(2) by (simp add: defines_entity_def)
    have "function_ok E U fmm d" using d(1) FunctionDecl by (simp add: decl_ok_def is_template_def)
    from named [OF defineFunction_post [OF ok this _ l]] def FunctionDecl show ?thesis
      by (simp add: saveDecl_def saveFunctionDecl_def named_symbols(4))
  next
    case (VarDecl v)
    let ?static = "isStaticDataMember E (decl_ptr d) \<or> isFileVarDecl E (decl_ptr d)"
    define member where "member = (\<lambda>tu. if ?static
       then with_symbol (getNamedDeclSymbol (clang E) (te_wyhash E) d) (\<lambda>s. saveDefinition E s (decl_location d) (Some (infoFor E d)) 0) tu else Inr tu)"
    have "save_ok E U fmm toBe (with_symbol (getNamedDeclSymbol (clang E) (te_wyhash E) d) (\<lambda>s. saveDefinition E s (decl_location d) (Some (infoFor E d)) 0))"
      by (rule save_ok_plain [OF ok q(1)]) (rule save_ok_definition [OF q(2)])
    then have member: "save_ok E U fmm toBe member" unfolding member_def using save_ok_skip by (cases ?static) simp_all
    note loc = named [OF save_post_first [OF l member stable_has_occurrence]]
    have run: "saveDecl E d = (if isLocalVarDeclOrParm (clang E) (decl_ptr d)
        then with_symbol (getNamedDeclSymbol (clang E) (te_wyhash E) d) (\<lambda>s tu. rbind (saveDefinition E s (decl_location d) None 0 tu) member) else member)"
      using VarDecl d(2) by (auto simp: saveDecl_def saveVarDecl_def Let_def named_symbols(8) member_def fun_eq_iff defines_entity_def)
    show ?thesis
    proof (cases "isLocalVarDeclOrParm (clang E) (decl_ptr d)")
      case True
      with run loc show ?thesis by simp
    next
      case False
      then have ?static using VarDecl d(2) by (simp add: defines_entity_def)
      with False run plain show ?thesis by (simp add: member_def)
    qed
  next
    case RecordDecl
    then have def: "isThisDeclarationADefinition E (decl_ptr d)" using d(2) by (simp add: defines_entity_def)
    have "tag_ok E U fmm d" using d(1) RecordDecl by (simp add: decl_ok_def is_template_def)
    from named [OF defineTag_post [OF ok this def q(2) l]] def RecordDecl show ?thesis
      by (simp add: saveDecl_def saveRecordDecl_def saveTagDecl_def named_symbols(9))
  next
    case EnumDecl
    then have def: "isThisDeclarationADefinition E (decl_ptr d)" using d(2) by (simp add: defines_entity_def)
    have "tag_ok E U fmm d" using d(1) EnumDecl by (simp add: decl_ok_def is_template_def)
    from named [OF defineTag_post [OF ok this def q(2) l]] def EnumDecl show ?thesis
      by (simp add: saveDecl_def saveEnumDecl_def saveTagDecl_def named_symbols(9))
  next
    case EnumConstantDecl
    with d(1) have "getBeginLoc E (decl_ptr d) = decl_location d" by (simp add: decl_ok_def is_template_def)
    with EnumConstantDecl plain show ?thesis by (simp add: saveDecl_def saveEnumConstantDecl_def named_symbols(2))
  next
    case BindingDecl
    with plain show ?thesis by (simp add: saveDecl_def saveBindingDecl_def named_symbols(1) [of d _ "te_wyhash E"])
  next
    case FieldDecl
    with plain show ?thesis by (simp add: saveDecl_def saveFieldDecl_def named_symbols(3))
  next
    case TypedefNameDecl
    with plain show ?thesis by (simp add: saveDecl_def saveTypedefNameDecl_def)
  qed (use plain d(2) in \<open>simp_all add: saveDecl_def defines_entity_def saveTemplateParmDecl_def named_symbols(10) [of d _ "te_wyhash E"]\<close>)
qed

lemma tu_ok_fresh: "tu_ok E U fmm toBe (mkTuIndexer toBe (mkSymbolFormatter fmm) fmm)"
  by (simp add: tu_ok_def mkTuIndexer_def symbols_ok_fresh lookups_ok_def mkApproximateNameResolver_def documents_ok_def tu_externals_ok_def forwards_ok_def)

text \<open>
  C19: Go to definition. In a traversal that reports a definition of an entity and a name that refers to the
  entity, both in files of the project that are to be indexed, no check fails, and one symbol links the two:
  the document of the first file has an occurrence that defines the symbol at the name of the entity, and
  the reference has the same symbol, in the document of its file, or among the references to forward
  declarations when the first declaration of the entity is not a definition.
\<close>

theorem definition_linked_to_reference:
  assumes "tree_laws E U fmm" "\<forall>n \<in> set nodes. node_ok E U fmm toBe n"
    and "DeclNode d \<in> set nodes" "defines_entity E d" "known_decl (clang E) (te_wyhash E) fmm d"
      "indexed_in_project fmm toBe (loc_file E (decl_location d)) sf"
    and "DeclRef \<lparr>dl_decl = Some d', dl_loc = l\<rparr> \<in> set nodes" "known_decl (clang E) (te_wyhash E) fmm (templated (clang E) d')"
      "decl_kind (templated (clang E) d') \<noteq> NamespaceDecl" "indexed_in_project fmm toBe (loc_file E l) sf'"
    and "getCanonicalDecl (clang E) (decl_ptr (templated (clang E) d')) = getCanonicalDecl (clang E) (decl_ptr d)"
  shows "\<exists>tu s. traverseAST E nodes (mkTuIndexer toBe (mkSymbolFormatter fmm) fmm) = Inr tu \<and>
    has_occurrence (loc_file E (decl_location d)) (token_occurrence E s (decl_location d) (role_Definition (codes E))) tu \<and>
    referenced_at E (sf_path sf') d' l s tu"
proof -
  let ?tu = "mkTuIndexer toBe (mkSymbolFormatter fmm) fmm" and ?d' = "templated (clang E) d'"
  have clang: "clang_ok (clang E) (te_wyhash E) fmm U" using assms(1) by (simp add: tree_laws_def)
  have "decl_ok E U fmm toBe d" using assms(2,3) by force
  note def = define_post [OF clang this assms(4-6)]
  have st: "stable (referenced_at E (sf_path sf') d' l s)" for s
    unfolding referenced_at_def using stable_forward stable_has_occurrence by (cases "refersToForwardDecl E d'") simp_all
  obtain tu1 where tu1: "traverseAST E nodes ?tu = Inr tu1" "entity_has E d (defined_at E (decl_location d)) tu1"
    using save_postD [OF traversal_post [OF assms(1-3) _ stable_entity_has [OF stable_has_occurrence]] tu_ok_fresh] def by fastforce
  have "kind_reference_ok E U fmm toBe UNIV (Some d') l" using assms(2,7) by force
  then have "reference_ok E U fmm toBe d' l" by (simp add: kind_reference_ok_def)
  from save_post_reference [OF clang this assms(8-10)]
  have "save_post E U fmm toBe (entity_has E ?d' (referenced_at E (sf_path sf') d' l)) (visitNode E (DeclRef \<lparr>dl_decl = Some d', dl_loc = l\<rparr>))"
    by (simp add: saveDeclRefExpr_def)
  from save_postD [OF traversal_post [OF assms(1,2,7) this stable_entity_has [OF st]] tu_ok_fresh] tu1(1)
  have "entity_has E ?d' (referenced_at E (sf_path sf') d' l) tu1" by auto
  with tu1(2) assms(11) have "\<exists>s. defined_at E (decl_location d) s tu1 \<and> referenced_at E (sf_path sf') d' l s tu1"
    by (auto simp: entity_has_def)
  with tu1(1) show ?thesis by blast
qed

subsection \<open>Relationships of classes\<close>

text \<open>One relationship per class, with the symbol that the class has.\<close>

definition relates :: "tu_env \<Rightarrow> SymbolFormatter \<Rightarrow> Decl \<Rightarrow> Relationship \<Rightarrow> bool" where
  "relates E F b rel \<longleftrightarrow> map_of (declBasedCache F) (getCanonicalDecl (clang E) (decl_ptr b)) = Some (rel_symbol rel) \<and> is_implementation rel"

lemma relateBases_list:
  assumes ok: "clang_ok (clang E) (te_wyhash E) fmm U"
  shows "\<forall>b \<in> set bs. plain_queryable (clang E) U b \<and> decl_kind b = RecordDecl \<and> known_decl (clang E) (te_wyhash E) fmm b \<Longrightarrow>
    symbols_ok (clang E) (te_wyhash E) fmm U F \<Longrightarrow>
    \<exists>rels F'. rfold (relateBase E d) bs (info, F) = Inr (info\<lparr>si_relationships := si_relationships info @ rels\<rparr>, F') \<and>
      symbols_ok (clang E) (te_wyhash E) fmm U F' \<and> adds UNIV F F' \<and> list_all2 (relates E F') (filter (\<lambda>b. decl_ptr b \<noteq> decl_ptr d) bs) rels"
proof (induction bs arbitrary: info F)
  case Nil
  then show ?case by (intro exI [of _ "[]"] exI [of _ F]) (simp add: adds_refl)
next
  case (Cons b bs)
  show ?case
  proof (cases "decl_ptr b = decl_ptr d")
    case True
    with Cons show ?thesis by (simp add: relateBase_def)
  next
    case False
    have b: "plain_queryable (clang E) U b" "decl_kind b = RecordDecl" "known_decl (clang E) (te_wyhash E) fmm b" using Cons.prems(1) by auto
    obtain r F1 where r: "getNamedDeclSymbol (clang E) (te_wyhash E) b F = Inr (r, F1)" "symbols_ok (clang E) (te_wyhash E) fmm U F1" "adds UNIV F F1"
        "tells (suffix_of E fmm b) (known_decl (clang E) (te_wyhash E) fmm b) r"
      using named_decl_query_ok [OF ok b(1)] Cons.prems(2) unfolding query_ok_def by blast
    then obtain s where s: "r = Some s" using b(3) by (auto simp: tells_def)
    define rel where "rel = \<lparr>rel_symbol = s, is_reference = False, is_implementation = True, is_type_definition = False, is_definition = False\<rparr>"
    have first: "relateBase E d b (info, F) = Inr (info\<lparr>si_relationships := si_relationships info @ [rel]\<rparr>, F1)"
      using False r(1) s by (simp add: relateBase_def addRelationship_def rel_def)
    obtain rels F' where rest: "rfold (relateBase E d) bs (info\<lparr>si_relationships := si_relationships info @ [rel]\<rparr>, F1) =
          Inr (info\<lparr>si_relationships := (si_relationships info @ [rel]) @ rels\<rparr>, F')"
        "symbols_ok (clang E) (te_wyhash E) fmm U F'" "adds UNIV F1 F'" "list_all2 (relates E F') (filter (\<lambda>b. decl_ptr b \<noteq> decl_ptr d) bs) rels"
      using Cons.IH [OF _ r(2), of "info\<lparr>si_relationships := si_relationships info @ [rel]\<rparr>"] Cons.prems(1) by auto
    have "map_of (declBasedCache F1) (getCanonicalDecl (clang E) (decl_ptr b)) = Some s"
      using answer_cached [OF b(1)] b(2) r(1) s by auto
    then have "relates E F' b rel" using rest(3) by (simp add: relates_def rel_def adds_def)
    with first rest False adds_trans [OF r(3) rest(3)] show ?thesis by (intro exI [of _ "rel # rels"] exI [of _ F']) simp
  qed
qed

lemma document_at_occurrence: "pd_symbolInfos (document_at f (saveOccurrenceImpl s r f roles tu)) = pd_symbolInfos (document_at f tu)"
  by (simp add: saveOccurrenceImpl_def Let_def document_at_def)

lemma saveDefinition_describes:
  assumes tu: "fileIdsToBeIndexed tu = toBe" "tu_fileMetadataMap tu = fmm" and l: "token_ok E l" and f: "indexed_in_project fmm toBe (loc_file E l) sf"
    and new: "map_of (pd_symbolInfos (document_at (loc_file E l) tu)) s = None" and info: "si_documentation info \<noteq> []"
  shows "\<exists>tu'. saveDefinition E s l (Some info) 0 tu = Inr tu' \<and> map_of (pd_symbolInfos (document_at (loc_file E l) tu')) s = Some info \<and>
    tu_symbolFormatter tu' = tu_symbolFormatter tu"
proof -
  define tu1 where "tu1 = saveOccurrenceImpl s (the_range (clang E) (token_range E l)) (loc_file E l) (role_Definition (codes E)) tu"
  have "saveDefinition E s l (Some info) 0 tu = Inr (addSymbolInfo (loc_file E l) s info tu1)"
    using tu f info tu_saveOccurrence_token [OF l]
    by (simp add: saveDefinition_def Let_def indexed_in_project_def loc_file_def tu1_def documented_def)
  moreover have "map_of (pd_symbolInfos (document_at (loc_file E l) tu1)) s = None" using new by (simp add: tu1_def document_at_occurrence)
  moreover have "tu_symbolFormatter tu1 = tu_symbolFormatter tu" by (simp add: tu1_def saveOccurrenceImpl_def Let_def)
  ultimately show ?thesis by (simp add: addSymbolInfo_def Let_def document_at_def)
qed

lemma saveReference_occurrence:
  assumes "fileIdsToBeIndexed tu = toBe" "tu_fileMetadataMap tu = fmm" "token_ok E l" "indexed_in_project fmm toBe (loc_file E l) sf"
  shows "saveReference E s l None 0 tu = Inr (saveOccurrenceImpl s (the_range (clang E) (token_range E l)) (loc_file E l) 0 tu)"
  using assms tu_saveOccurrence_token [OF assms(3), of s 0 tu]
  by (simp add: saveReference_def Let_def indexed_in_project_def loc_file_def)

text \<open>
  C20: Go to implementations. The description of a class has one implementation relationship for each of its
  direct and indirect base classes, with the symbol of that class, also when a class is reached on
  several ways: the search over the hierarchy neither misses nor repeats one, as long as there are fewer than ten
  thousand base specifiers.
\<close>

theorem base_classes_related:
  assumes ok: "clang_ok (clang E) (te_wyhash E) fmm U" and tu: "tu_ok E U fmm toBe tu"
    and classes: "\<forall>b \<in> reached (baseDecls E) d. plain_queryable (clang E) U b \<and> decl_kind b = RecordDecl \<and> known_decl (clang E) (te_wyhash E) fmm b"
      "finite (reached (baseDecls E) d)" "inj_on decl_ptr (reached (baseDecls E) d)" "1 + (\<Sum>b \<in> reached (baseDecls E) d. length (baseDecls E b)) \<le> 10000"
    and d: "isCXXRecord E (decl_ptr d)" "isThisDeclarationADefinition E (decl_ptr d)"
    and l: "token_ok E (decl_location d)" "indexed_in_project fmm toBe (loc_file E (decl_location d)) sf"
    and s: "getNamedDeclSymbol (clang E) (te_wyhash E) d (tu_symbolFormatter tu) = Inr (Some s, F)"
      "map_of (pd_symbolInfos (document_at (loc_file E (decl_location d)) tu)) s = None"
  shows "\<exists>tu' info bs. saveTagDecl E d tu = Inr tu' \<and> map_of (pd_symbolInfos (document_at (loc_file E (decl_location d)) tu')) s = Some info \<and>
    set bs = reached (baseDecls E) d - {d} \<and> distinct bs \<and> list_all2 (relates E (tu_symbolFormatter tu')) bs (si_relationships info)"
proof -
  let ?R = "reached (baseDecls E) d" and ?f = "loc_file E (decl_location d)" and ?other = "\<lambda>b. decl_ptr b \<noteq> decl_ptr d"
  have dR: "decl_kind d = RecordDecl" "plain_queryable (clang E) U d" using classes(1) by auto
  have "symbols_ok (clang E) (te_wyhash E) fmm U (tu_symbolFormatter tu)" using tu by (simp add: tu_ok_def)
  with named_decl_query_ok [OF ok dR(2)] s(1) have F: "symbols_ok (clang E) (te_wyhash E) fmm U F" unfolding query_ok_def by fastforce
  obtain bs where bs: "search 10000 decl_ptr (visitBase E d) [d] [] (infoFor E d, F) = rfold (relateBase E d) bs (infoFor E d, F)"
      "set bs = ?R" "distinct (map decl_ptr bs)" using base_search.search_complete [OF classes(2-4)] by blast
  obtain rels F' where rels: "rfold (relateBase E d) bs (infoFor E d, F) = Inr ((infoFor E d)\<lparr>si_relationships := si_relationships (infoFor E d) @ rels\<rparr>, F')"
      "list_all2 (relates E F') (filter ?other bs) rels" using relateBases_list [OF ok _ F, of bs d "infoFor E d"] classes(1) bs(2) by auto
  define info where "info = (infoFor E d)\<lparr>si_relationships := si_relationships (infoFor E d) @ rels\<rparr>"
  have info: "si_documentation info \<noteq> []" "si_relationships info = rels"
    by (simp_all add: info_def infoFor_def doc_addToInfo_def empty_info_def)
  define tu1 where "tu1 = tu\<lparr>tu_symbolFormatter := F'\<rparr>"
  define tu2 where "tu2 = (if isExplicitSpecialization E (decl_ptr d)
      then saveOccurrenceImpl s (the_range (clang E) (token_range E (decl_location d))) ?f 0 tu1 else tu1)"
  have frame: "fileIdsToBeIndexed tu1 = toBe" "tu_fileMetadataMap tu1 = fmm" using tu by (simp_all add: tu_ok_def tu1_def)
  have tu2: "fileIdsToBeIndexed tu2 = toBe" "tu_fileMetadataMap tu2 = fmm" "tu_symbolFormatter tu2 = F'"
    using frame by (simp_all add: tu2_def tu1_def saveOccurrenceImpl_def Let_def)
  have "map_of (pd_symbolInfos (document_at ?f tu2)) s = None"
    using s(2) by (auto simp: tu2_def document_at_occurrence) (simp_all add: tu1_def document_at_def)
  from saveDefinition_describes [OF tu2(1,2) l this info(1)] tu2(3)
  obtain tu' where tu': "saveDefinition E s (decl_location d) (Some info) 0 tu2 = Inr tu'" "map_of (pd_symbolInfos (document_at ?f tu')) s = Some info"
      "tu_symbolFormatter tu' = F'" by auto
  have saved: "rbind (if isExplicitSpecialization E (decl_ptr d) then saveReference E s (decl_location d) None 0 tu1 else Inr tu1)
      (saveDefinition E s (decl_location d) (Some info) 0) = Inr tu'"
    using saveReference_occurrence [OF frame l] tu'(1) by (auto simp: tu2_def)
  have "saveTagDecl E d tu = Inr tu'"
    using s(1) d bs(1) rels(1) dR(1) saved [unfolded tu1_def info_def]
    by (cases "isExplicitSpecialization E (decl_ptr d)") (simp_all add: saveTagDecl_def named_symbols(9) with_symbol_def defineTag_def Let_def)
  moreover have "set (filter ?other bs) = ?R - {d}" using classes(3) bs(2) by (auto simp: inj_on_def)
  moreover have "distinct (filter ?other bs)" using bs(3) by (simp add: distinct_map)
  ultimately show ?thesis using tu'(2,3) rels(2) info(2) by blast
qed

subsection \<open>The whole traversal\<close>

text \<open>
  C18: No node of a syntax tree makes the indexer fail a check. After the traversal there are documents for files
  that are to be indexed only, every description of a symbol is unique in its document, has documentation and
  comes with an occurrence in the same document that defines the symbol, symbols of other projects have
  documentation, and every forward declaration has a symbol from which its package can be removed and
  refers to files of the project.
\<close>

theorem traversal_keeps_invariant:
  assumes "tree_laws E U fmm" "\<forall>n \<in> set nodes. node_ok E U fmm toBe n"
  shows "\<exists>tu. traverseAST E nodes (mkTuIndexer toBe (mkSymbolFormatter fmm) fmm) = Inr tu \<and>
    documents_ok E toBe (documentMap tu) \<and> tu_externals_ok (tu_externalSymbols tu) \<and> forwards_ok fmm toBe (forwardDeclarations tu)"
proof -
  have "save_ok E U fmm toBe (traverseAST E nodes)"
    unfolding traverseAST_def using assms(2) by (intro save_ok_fold visit_ok [OF assms(1)]) blast
  from save_okD [OF this tu_ok_fresh] show ?thesis by (auto simp: tu_ok_def)
qed

subsection \<open>A small translation unit\<close>

text \<open>Four classes with a diamond of base classes, and a variable that is named after its definition, in one file of the project.\<close>

definition sample_record :: "nat \<Rightarrow> string \<Rightarrow> Decl" where
  "sample_record p n = Decl p RecordDecl n (of_nat p) (Some sample_tu)"

definition sample_var :: Decl where
  "sample_var = Decl 14 (VarDecl PlainVar) ''v'' 14 (Some sample_tu)"

definition sample_unit :: "Decl set" where
  "sample_unit = {sample_tu, sample_record 10 ''A'', sample_record 11 ''B'', sample_record 12 ''C'', sample_record 13 ''D'', sample_var}"

definition no_packages :: PackageMap where
  "no_packages = \<lparr>pkg_map = [], warnedBadPaths = [], pkg_projectRootPath = sample_root, pkg_isTesting = False\<rparr>"

definition sample_project :: FileMetadataMap where
  "sample_project = \<lparr>fm_storage = [], fm_map = [(FileID 1,
     \<lparr>stableFileId = \<lparr>sf_path = \<lparr>rel_value = ''a.cc'', rel_kind = Project\<rparr>, isInProject = True, isSynthetic = False\<rparr>,
      originalPath = ''/p/a.cc'', packageInfo = None\<rparr>)],
     fm_projectRootPath = sample_root, fm_buildRootPath = sample_build, fm_packageMap = no_packages\<rparr>"

definition sample_source :: clang_api where
  "sample_source = sample_macros\<lparr>tryGetRealPathName := (\<lambda>f. if f = FileID 1 then Some ''/p/a.cc'' else None)\<rparr>"

definition sample_env :: tu_env where
  "sample_env = \<lparr>clang = sample_source, te_wyhash = (\<lambda>t s. 7), codes = \<lparr>role_Definition = 1, kind_IdentifierMacro = 17, kind_IdentifierMacroDefinition = 18\<rparr>,
     StripAsciiWhitespace = (\<lambda>s. s), utf8_is_valid = (\<lambda>s. True), utf8_replace_invalid = (\<lambda>s. s),
     MeasureTokenLength = (\<lambda>l. 1), findNextToken = (\<lambda>l. None), getLocForStartOfFile = (\<lambda>f. 1), getBeginLoc = (\<lambda>p. 0),
     declAt = (\<lambda>p. if p = 14 then sample_var else sample_record p ''A''), isThisDeclarationADefinition = (\<lambda>p. True),
     isPureVirtual = (\<lambda>p. False), overridden_methods = (\<lambda>p. None), isInlineNamespace = (\<lambda>p. False), isCXXRecord = (\<lambda>p. True), hasDefinition = (\<lambda>p. True),
     bases = (\<lambda>p. if p = 11 \<or> p = 12 then [10] else if p = 13 then [11, 12] else []), isExplicitSpecialization = (\<lambda>p. False),
     isStaticDataMember = (\<lambda>p. False), isFileVarDecl = (\<lambda>p. True), hasIntroducer = (\<lambda>p. False), getTargetDecl = (\<lambda>p. None),
     shadows = (\<lambda>p. []), enumerators = (\<lambda>p. []), rawCommentForDecl = (\<lambda>p. None), rawCommentForAnyRedecl = (\<lambda>p. None),
     templatedDecl = (\<lambda>p. None), getCanonicalType = (\<lambda>t. t), getPointeeType = (\<lambda>t. None), isPointerOrReference = (\<lambda>t. False),
     asTypedefType = (\<lambda>t. None), getAsTagDecl = (\<lambda>t. None), asTemplateSpecializationType = (\<lambda>t. None),
     getAsRecordType = (\<lambda>t. if t = 10 then Some (sample_record 10 ''A'') else if t = 11 then Some (sample_record 11 ''B'')
       else if t = 12 then Some (sample_record 12 ''C'') else None),
     getAsTemplateSpecializationType = (\<lambda>t. None), getAsInjectedClassNameType = (\<lambda>t. None), getRecordDefinition = (\<lambda>p. p),
     lookupDependentName = (\<lambda>p n. []), asUnresolvedUsingValue = (\<lambda>p. None)\<rparr>"

definition sample_nodes :: "AstNode list" where
  "sample_nodes = [DeclNode (sample_record 10 ''A''), DeclNode sample_var, DeclRef \<lparr>dl_decl = Some sample_var, dl_loc = 20\<rparr>]"

lemma sample_env_simps [simp]:
  "clang sample_env = sample_source" "te_wyhash sample_env = (\<lambda>t s. 7)" "getFileID sample_source l = (if l = 0 then InvalidFileID else if l < 100 then FileID 1 else FileID 2)"
  "getExpansionLoc sample_source l = l" "getCanonicalDecl sample_source p = (if p = 3 then 2 else p)" "MeasureTokenLength sample_env l = 1"
  "isThisDeclarationADefinition sample_env p" "isCXXRecord sample_env p"
  "isLocalVarDeclOrParm sample_source p = False" "isLocalExternDecl sample_source p = False" "isStaticDataMember sample_env p = False" "isFileVarDecl sample_env p"
  by (simp_all add: sample_env_def sample_source_def sample_macros_def sample_clang_def)

lemma sample_tree_laws: "tree_laws sample_env sample_unit sample_project"
proof -
  have "metadata_known sample_source sample_project"
    by (auto simp: metadata_known_def sample_source_def sample_macros_def sample_clang_def sample_project_def fid_isValid_def getStableFileId_def getFileMetadata_def
        packageId_def package_ok_def)
  then have "clang_ok sample_source (\<lambda>t s. 7) sample_project sample_unit"
    by (auto simp: clang_ok_def contexts_closed_def sample_unit_def sample_tu_def sample_record_def sample_var_def)
      (auto simp: sample_source_def sample_macros_def sample_clang_def)
  then show ?thesis by (simp add: tree_laws_def) (simp add: sample_env_def)
qed

lemma sample_names: "n \<in> {''A'', ''B'', ''C'', ''D''} \<Longrightarrow> suffix_of sample_env sample_project (sample_record p n) = Some (n @ ''#'')"
  "suffix_of sample_env sample_project sample_var = Some ''v.''"
  by (auto simp: decl_suffix_def sample_record_def sample_var_def is_local_def sample_tu_def member_suffix_def descr_text_def descr_def Escaped_eq simple_char_def less_eq_char_def)

lemma sample_file: "indexed_in_project sample_project [FileID 1] (FileID 1)
    \<lparr>sf_path = \<lparr>rel_value = ''a.cc'', rel_kind = Project\<rparr>, isInProject = True, isSynthetic = False\<rparr>"
  by (simp add: indexed_in_project_def getStableFileId_def getFileMetadata_def sample_project_def)

lemma sample_tokens:
  assumes "0 < l" "l < 50"
  shows "token_ok sample_env l \<and> loc_file sample_env l = FileID 1"
proof -
  have l: "unat l < 50" using assms(2) by (simp add: word_less_nat_alt)
  then have u: "unat (l + 1) = unat l + 1" by (simp add: unat_word_ariths)
  then have "l + 1 \<noteq> 0" by (metis add_is_0 one_neq_zero unat_0)
  moreover have "l < 100" "l + 1 < 100" "l \<le> l + 1" "l \<noteq> 0" using assms(1) l u by (auto simp: word_less_nat_alt word_le_nat_alt)
  ultimately have "l < 100" "l + 1 < 100" "l \<le> l + 1" "l \<noteq> 0" "l + 1 \<noteq> 0" by blast+
  then show ?thesis by (simp add: token_ok_def range_ok_def token_range_def loc_isInvalid_def loc_file_def) (simp add: sample_source_def sample_macros_def)
qed

lemma sample_known:
  "n \<in> {''A'', ''B'', ''C'', ''D''} \<Longrightarrow> p \<in> {10, 11, 12, 13} \<Longrightarrow> known_decl sample_source (\<lambda>t s. 7) sample_project (sample_record p n)"
  "known_decl sample_source (\<lambda>t s. 7) sample_project sample_var"
  using sample_names(1) [of n p] sample_names(2) by (auto simp: known_decl_def symbol_context_def)
    (auto simp: sample_record_def sample_var_def sample_tu_def known_loc_def loc_isInvalid_def sample_project_def getFileMetadata_def symbol_context_def)

lemma sample_bases:
  "baseDecls sample_env (sample_record 10 n) = []" "baseDecls sample_env (sample_record 11 n) = [sample_record 10 ''A'']"
  "baseDecls sample_env (sample_record 12 n) = [sample_record 10 ''A'']" "baseDecls sample_env (sample_record 13 n) = [sample_record 11 ''B'', sample_record 12 ''C'']"
  by (simp_all add: baseDecls_def baseDecl_def sample_env_def sample_record_def List.map_filter_simps Let_def)

lemma sample_queryable:
  "plain_queryable sample_source sample_unit (sample_record 10 ''A'')" "plain_queryable sample_source sample_unit (sample_record 11 ''B'')"
  "plain_queryable sample_source sample_unit (sample_record 12 ''C'')" "plain_queryable sample_source sample_unit (sample_record 13 ''D'')"
  "plain_queryable sample_source sample_unit sample_var"
  by (simp_all add: plain_queryable_def sample_unit_def is_template_def) (simp_all add: sample_record_def sample_var_def)

lemma sample_reached_leaf: "reached (baseDecls sample_env) (sample_record 10 ''A'') = {sample_record 10 ''A''}"
  using reached_least [of "sample_record 10 ''A''" "{sample_record 10 ''A''}" "baseDecls sample_env"] by (auto simp: sample_bases)

lemma sample_nodes_ok: "\<forall>n \<in> set sample_nodes. node_ok sample_env sample_unit sample_project [FileID 1] n"
proof -
  have "tag_ok sample_env sample_unit sample_project (sample_record 10 ''A'')" by (simp add: tag_ok_def sample_reached_leaf sample_queryable)
  moreover have target: "target_ok sample_env sample_unit sample_project sample_var"
    using plain_is_queryable [OF sample_queryable(5)] by (simp add: target_ok_def refersToForwardDecl_def Let_def split: DeclKind.split)
  moreover have "loc_ok sample_env [FileID 1] l" if "0 < l" "l < 50" for l using sample_tokens [OF that] by (simp add: loc_ok_def)
  moreover from this target have "reference_ok sample_env sample_unit sample_project [FileID 1] sample_var l" if "0 < l" "l < 50" for l
    using that by (simp add: reference_ok_def)
  moreover have "decl_kind sample_var = VarDecl PlainVar" "decl_kind (sample_record 10 ''A'') = RecordDecl" "decl_location sample_var = 14"
    "decl_location (sample_record 10 ''A'') = 10" by (simp_all add: sample_var_def sample_record_def)
  ultimately show ?thesis using sample_queryable by (simp add: sample_nodes_def kind_reference_ok_def decl_ok_def is_template_def)
qed

theorem traversal_keeps_invariant_witness:
  "\<exists>tu. traverseAST sample_env sample_nodes (mkTuIndexer [FileID 1] (mkSymbolFormatter sample_project) sample_project) = Inr tu \<and>
    documents_ok sample_env [FileID 1] (documentMap tu)"
  using traversal_keeps_invariant [OF sample_tree_laws sample_nodes_ok] by blast

theorem definition_linked_to_reference_witness:
  "\<exists>tu s. traverseAST sample_env sample_nodes (mkTuIndexer [FileID 1] (mkSymbolFormatter sample_project) sample_project) = Inr tu \<and>
    has_occurrence (FileID 1) (token_occurrence sample_env s 14 1) tu \<and> has_occurrence (FileID 1) (token_occurrence sample_env s 20 0) tu"
proof -
  let ?sf = "\<lparr>sf_path = \<lparr>rel_value = ''a.cc'', rel_kind = Project\<rparr>, isInProject = True, isSynthetic = False\<rparr>"
  have t: "templated sample_source sample_var = sample_var" by (simp add: templated_def is_template_def sample_var_def)
  have l: "loc_file sample_env (decl_location sample_var) = FileID 1" "loc_file sample_env 20 = FileID 1" "loc_file sample_env 14 = FileID 1" "decl_location sample_var = 14"
    using sample_tokens [of 14] sample_tokens [of 20] by (simp_all add: sample_var_def)
  have d: "defines_entity sample_env sample_var" "decl_kind sample_var \<noteq> NamespaceDecl" by (simp_all add: defines_entity_def sample_var_def)
  have f: "\<not> refersToForwardDecl sample_env sample_var" by (simp add: refersToForwardDecl_def Let_def split: DeclKind.split)
  have r: "role_Definition (codes sample_env) = 1" by (simp add: sample_env_def)
  have "\<exists>tu s. traverseAST sample_env sample_nodes (mkTuIndexer [FileID 1] (mkSymbolFormatter sample_project) sample_project) = Inr tu \<and>
      defined_at sample_env (decl_location sample_var) s tu \<and> referenced_at sample_env (sf_path ?sf) sample_var 20 s tu"
    by (rule definition_linked_to_reference [where sf = ?sf and sf' = ?sf, OF sample_tree_laws sample_nodes_ok _ d(1)])
      (use sample_known(2) sample_file d(2) in \<open>simp_all add: t l sample_nodes_def\<close>)
  then show ?thesis using f by (simp add: referenced_at_def l r)
qed

theorem base_classes_related_witness:
  "\<exists>s tu info. saveTagDecl sample_env (sample_record 13 ''D'') (mkTuIndexer [FileID 1] (mkSymbolFormatter sample_project) sample_project) = Inr tu \<and>
     map_of (pd_symbolInfos (document_at (FileID 1) tu)) s = Some info \<and> length (si_relationships info) = 3"
proof -
  let ?d = "sample_record 13 ''D''" and ?R = "{sample_record 10 ''A'', sample_record 11 ''B'', sample_record 12 ''C'', sample_record 13 ''D''}"
    and ?tu = "mkTuIndexer [FileID 1] (mkSymbolFormatter sample_project) sample_project"
  have b: "sample_record 11 ''B'' \<in> reached (baseDecls sample_env) ?d" "sample_record 12 ''C'' \<in> reached (baseDecls sample_env) ?d"
    using reached_step [OF reached_self, of "baseDecls sample_env" ?d] by (simp_all add: sample_bases)
  have "reached (baseDecls sample_env) ?d \<subseteq> ?R" by (rule reached_least) (auto simp: sample_bases)
  moreover have "?R \<subseteq> reached (baseDecls sample_env) ?d" using b reached_step [OF b(1)] by (simp add: sample_bases)
  ultimately have R: "reached (baseDecls sample_env) ?d = ?R" by blast
  have diff: "sample_record p n = sample_record q m \<longleftrightarrow> p = q \<and> n = m" for p q n m by (auto simp: sample_record_def)
  have classes: "finite ?R" "inj_on decl_ptr ?R" by (auto simp: inj_on_def sample_record_def)
  have sum: "(\<Sum>b \<in> ?R. length (baseDecls sample_env b)) = 4" by (simp add: diff sample_bases)
  have all: "\<forall>b \<in> ?R. plain_queryable sample_source sample_unit b \<and> decl_kind b = RecordDecl \<and> known_decl sample_source (\<lambda>t s. 7) sample_project b"
    using sample_queryable by (simp add: sample_known(1)) (simp add: sample_record_def)
  have clang: "clang_ok (clang sample_env) (te_wyhash sample_env) sample_project sample_unit" using sample_tree_laws by (simp add: tree_laws_def)
  have "query_ok sample_source (\<lambda>t s. 7) sample_project sample_unit UNIV (suffix_of sample_env sample_project ?d) True (getNamedDeclSymbol sample_source (\<lambda>t s. 7) ?d)"
    using named_decl_query_ok [OF clang [unfolded sample_env_simps(1,2)] sample_queryable(4)] sample_known(1) [of "''D''" 13] by simp
  from this [unfolded query_ok_def, rule_format, OF symbols_ok_fresh]
  obtain r F where r: "getNamedDeclSymbol sample_source (\<lambda>t s. 7) ?d (mkSymbolFormatter sample_project) = Inr (r, F)"
      "tells (suffix_of sample_env sample_project ?d) True r" by blast
  then obtain s where s: "getNamedDeclSymbol sample_source (\<lambda>t s. 7) ?d (mkSymbolFormatter sample_project) = Inr (Some s, F)"
    by (cases r) (simp_all add: tells_def)
  have l: "loc_file sample_env (decl_location ?d) = FileID 1" "token_ok sample_env (decl_location ?d)" using sample_tokens [of 13] by (simp_all add: sample_record_def)
  have new: "map_of (pd_symbolInfos (document_at (FileID 1) ?tu)) s = None" "tu_symbolFormatter ?tu = mkSymbolFormatter sample_project"
    by (simp_all add: mkTuIndexer_def document_at_def empty_document_def)
  have sum': "1 + (\<Sum>b \<in> ?R. length (baseDecls sample_env b)) \<le> 10000" unfolding sum by simp
  have "\<exists>tu' info bs. saveTagDecl sample_env ?d ?tu = Inr tu' \<and> map_of (pd_symbolInfos (document_at (loc_file sample_env (decl_location ?d)) tu')) s = Some info \<and>
      set bs = reached (baseDecls sample_env) ?d - {?d} \<and> distinct bs \<and> list_all2 (relates sample_env (tu_symbolFormatter tu')) bs (si_relationships info)"
    by (rule base_classes_related [OF clang tu_ok_fresh, where F = F])
      (unfold R l(1) sample_env_simps(1,2) new(2), (rule all classes sum' s l(2) sample_file new(1) sample_env_simps)+)
  then obtain tu' info bs where "saveTagDecl sample_env ?d ?tu = Inr tu'"
      "map_of (pd_symbolInfos (document_at (FileID 1) tu')) s = Some info" "set bs = ?R - {?d}" "distinct bs"
      "list_all2 (relates sample_env (tu_symbolFormatter tu')) bs (si_relationships info)" unfolding R l(1) by blast
  moreover have "card (?R - {?d}) = 3" by (simp add: diff)
  ultimately have "length (si_relationships info) = 3" by (metis distinct_card list_all2_lengthD)
  with \<open>saveTagDecl sample_env ?d ?tu = Inr tu'\<close> \<open>map_of (pd_symbolInfos (document_at (FileID 1) tu')) s = Some info\<close> show ?thesis by blast
qed

end
