(* ===== verification/Preprocessor.thy ===== *)
theory Preprocessor
  imports Macro_Indexer Planner
begin

text \<open>
  The callbacks of the preprocessor: indexer/Preprocessing.h and indexer/Preprocessing.cc. While
  a translation unit is read, every included file gets a hash value from the files it includes;
  at the end the files are reported to the driver as pairs of path and hash value.

  The stack has its top at the head of the list. The YAML stream of recorded histories is the
  list of what has been written to it. Numbers are mixed into a hash value as their eight bytes
  in the order of a little-endian machine.
\<close>

subsection \<open>Hashes of files\<close>

record HistoryEntry =
  beforeHash :: "64 word"
  afterHash :: "64 word"
  mixedValue :: string
  mixContext :: string
  contextData :: string

record HashValueBuilder =
  runningHash :: HashValue
  history :: "HistoryEntry list option"

record HeaderInfoBuilder =
  hashValueBuilder :: HashValueBuilder
  hib_fileId :: FileID

definition mkHashValueBuilder :: "bool \<Rightarrow> HashValueBuilder" where
  "mkHashValueBuilder recordHistory = \<lparr>runningHash = 0, history = (if recordHistory then Some [] else None)\<rparr>"

definition word_bytes :: "64 word \<Rightarrow> string" where
  "word_bytes v = map (\<lambda>i. char_of (take_bit 8 (unat (drop_bit (8 * i) v)))) [0..<8]"

definition hvb_mix :: "wyhash \<Rightarrow> string \<Rightarrow> HashValueBuilder \<Rightarrow> HashValueBuilder" where
  "hvb_mix wyhash t b = b\<lparr>runningHash := hv_mix wyhash t (runningHash b)\<rparr>"

definition isRecordingHistory :: "HashValueBuilder \<Rightarrow> bool" where
  "isRecordingHistory b \<longleftrightarrow> history b \<noteq> None"

definition mixWithContext :: "wyhash \<Rightarrow> string \<Rightarrow> HistoryEntry \<Rightarrow> HashValueBuilder \<Rightarrow> HashValueBuilder result" where
  "mixWithContext wyhash t entry b =
     (case history b of
        None \<Rightarrow> Inl (EnforceFailed ''this->isRecordingHistory()'')
      | Some h \<Rightarrow>
          let b1 = hvb_mix wyhash t b
          in Inr (b1\<lparr>history := Some (h @ [entry\<lparr>beforeHash := runningHash b, afterHash := runningHash b1\<rparr>])\<rparr>))"

type_synonym IndexerPreprocessorStack = "HeaderInfoBuilder option list"

definition isTopValid :: "IndexerPreprocessorStack \<Rightarrow> bool result" where
  "isTopValid st = (case st of [] \<Rightarrow> Inl (EnforceFailed ''!this->empty()'') | x # xs \<Rightarrow> Inr (x \<noteq> None))"

definition popInvalid :: "IndexerPreprocessorStack \<Rightarrow> IndexerPreprocessorStack result" where
  "popInvalid st = rbind (isTopValid st) (\<lambda>valid. enforcing (\<not> valid) ''!this->isTopValid()'' (Inr (tl st)))"

definition tryPopValid :: "IndexerPreprocessorStack \<Rightarrow> (HeaderInfoBuilder option \<times> IndexerPreprocessorStack) result" where
  "tryPopValid st =
     (case st of
        [] \<Rightarrow> Inr (None, [])
      | x # xs \<Rightarrow> rbind (isTopValid st) (\<lambda>valid. enforcing valid ''this->isTopValid()'' (Inr (x, xs))))"

text \<open>
  \<^verbatim>\<open>MIX_INTO_HASH\<close>: \<open>t\<close> has the bytes to be mixed, \<open>shown\<close> the value as the history shows it. The
  expression for the path is evaluated only when a history is recorded.
\<close>

definition mixIntoHash :: "wyhash \<Rightarrow> string \<Rightarrow> string \<Rightarrow> string result \<Rightarrow> string \<Rightarrow> IndexerPreprocessorStack \<Rightarrow> IndexerPreprocessorStack result" where
  "mixIntoHash wyhash t shown path ctx st =
     rbind (isTopValid st) (\<lambda>valid.
       case st of
         Some info # rest \<Rightarrow>
           if isRecordingHistory (hashValueBuilder info) then
             rbind path (\<lambda>p.
             rbind (mixWithContext wyhash t \<lparr>beforeHash = 0, afterHash = 0, mixedValue = shown, mixContext = ctx, contextData = p\<rparr>
                      (hashValueBuilder info)) (\<lambda>b. Inr (Some (info\<lparr>hashValueBuilder := b\<rparr>) # rest)))
           else Inr (Some (info\<lparr>hashValueBuilder := hvb_mix wyhash t (hashValueBuilder info)\<rparr>) # rest)
       | _ \<Rightarrow> Inr st)"

subsection \<open>The callbacks\<close>

record PreprocessorHistoryRecorder =
  filter_matches :: "string \<Rightarrow> bool"
  normalizePath :: "string \<Rightarrow> string"

record IndexerPreprocessorOptions =
  opt_recorder :: "PreprocessorHistoryRecorder option"
  opt_deterministic :: bool

record IndexerPreprocessorWrapper =
  pp_stack :: IndexerPreprocessorStack
  finishedProcessing :: "(FileID \<times> HashValue) list"
  pp_macroIndexer :: MacroIndexer
  pp_yamlStream :: "(string \<times> HistoryEntry list \<times> HashValue) list"

datatype FileChangeReason = EnterFile | ExitFile | SystemHeaderPragma | RenameFile

definition mkPreprocessorWrapper :: IndexerPreprocessorWrapper where
  "mkPreprocessorWrapper = \<lparr>pp_stack = [], finishedProcessing = [], pp_macroIndexer = mkMacroIndexer, pp_yamlStream = []\<rparr>"

definition pathKeyForHistory :: "clang_api \<Rightarrow> IndexerPreprocessorOptions \<Rightarrow> FileID \<Rightarrow> string result" where
  "pathKeyForHistory A opts fileId =
     (case opt_recorder opts of
        None \<Rightarrow> Inl (EnforceFailed ''this->options.recorder'')
      | Some r \<Rightarrow> Inr (normalizePath r (tryGetPath A fileId)))"

definition enterFileImpl :: "bool \<Rightarrow> FileID \<Rightarrow> IndexerPreprocessorWrapper \<Rightarrow> IndexerPreprocessorWrapper" where
  "enterFileImpl recordHistory enteredFileId pp =
     pp\<lparr>pp_stack := Some \<lparr>hashValueBuilder = mkHashValueBuilder recordHistory, hib_fileId = enteredFileId\<rparr> # pp_stack pp\<rparr>"

text \<open>The path under which the history of an entered file is recorded, if it is.\<close>

definition recordedPath :: "clang_api \<Rightarrow> IndexerPreprocessorOptions \<Rightarrow> FileID \<Rightarrow> string option" where
  "recordedPath A opts f =
     (case opt_recorder opts of
        None \<Rightarrow> None
      | Some r \<Rightarrow>
         (case tryGetRealPathName A f of
            None \<Rightarrow> None
          | Some path \<Rightarrow> if path \<noteq> [] \<and> filter_matches r path then Some (normalizePath r path) else None))"

definition enterFile ::
  "clang_api \<Rightarrow> wyhash \<Rightarrow> IndexerPreprocessorOptions \<Rightarrow> SourceLocation \<Rightarrow> IndexerPreprocessorWrapper \<Rightarrow> IndexerPreprocessorWrapper result" where
  "enterFile A wyhash opts sourceLoc pp =
     (if loc_isInvalid sourceLoc then Inr (pp\<lparr>pp_stack := None # pp_stack pp\<rparr>)
      else enforcing (isFileID A sourceLoc) ''EnterFile called on a non-FileID''
        (let enteredFileId = getFileID A sourceLoc
         in if \<not> fid_isValid enteredFileId then Inr (pp\<lparr>pp_stack := None # pp_stack pp\<rparr>)
            else case recordedPath A opts enteredFileId of
                   Some path \<Rightarrow>
                     let pp1 = enterFileImpl True enteredFileId pp
                     in rbind (mixIntoHash wyhash path path (Inr []) ''self path'' (pp_stack pp1)) (\<lambda>st. Inr (pp1\<lparr>pp_stack := st\<rparr>))
                 | None \<Rightarrow> Inr (enterFileImpl False enteredFileId pp)))"

definition writeHistory ::
  "clang_api \<Rightarrow> IndexerPreprocessorOptions \<Rightarrow> HeaderInfoBuilder \<Rightarrow> IndexerPreprocessorWrapper \<Rightarrow> IndexerPreprocessorWrapper result" where
  "writeHistory A opts fileInfo pp =
     (case history (hashValueBuilder fileInfo) of
        None \<Rightarrow> Inr pp
      | Some h \<Rightarrow>
          enforcing (opt_recorder opts \<noteq> None) ''Recorded history even though output stream is missing''
            (rbind (pathKeyForHistory A opts (hib_fileId fileInfo)) (\<lambda>path.
               Inr (pp\<lparr>pp_yamlStream := pp_yamlStream pp @ [(path, h, runningHash (hashValueBuilder fileInfo))]\<rparr>))))"

definition exitFileImpl ::
  "clang_api \<Rightarrow> IndexerPreprocessorOptions \<Rightarrow> FileID \<Rightarrow> IndexerPreprocessorWrapper \<Rightarrow> (HashValue option \<times> IndexerPreprocessorWrapper) result" where
  "exitFileImpl A opts fileId pp =
     (if \<not> fid_isValid fileId then
        rbind (isTopValid (pp_stack pp)) (\<lambda>valid.
          if valid then rbind (tryPopValid (pp_stack pp)) (\<lambda>(popped, st).
                          enforcing (popped \<noteq> None) ''popped.has_value()'' (Inr (None, pp\<lparr>pp_stack := st\<rparr>)))
          else rbind (popInvalid (pp_stack pp)) (\<lambda>st. Inr (None, pp\<lparr>pp_stack := st\<rparr>)))
      else
        rbind (tryPopValid (pp_stack pp)) (\<lambda>(optHeaderInfo, st).
          case optHeaderInfo of
            None \<Rightarrow> Inl (EnforceFailed ''missing matching enterInclude for exit'')
          | Some fileInfo \<Rightarrow>
              enforcing (hib_fileId fileInfo = fileId) ''fileId mismatch''
                (let hashValue = runningHash (hashValueBuilder fileInfo);
                     pp1 = pp\<lparr>pp_stack := st\<rparr>;
                     pp2 = (if fid_isValid (hib_fileId fileInfo)
                            then pp1\<lparr>finishedProcessing := hmap_emplace (hib_fileId fileInfo) hashValue (finishedProcessing pp1)\<rparr> else pp1)
                 in rbind (writeHistory A opts fileInfo pp2) (\<lambda>pp3. Inr (Some hashValue, pp3)))))"

definition exitFile ::
  "clang_api \<Rightarrow> wyhash \<Rightarrow> IndexerPreprocessorOptions \<Rightarrow> FileID \<Rightarrow> IndexerPreprocessorWrapper \<Rightarrow> IndexerPreprocessorWrapper result" where
  "exitFile A wyhash opts previousFileId pp =
     rbind (exitFileImpl A opts previousFileId pp) (\<lambda>(optHash, pp1).
       case optHash of
         None \<Rightarrow> Inr pp1
       | Some h \<Rightarrow>
           if pp_stack pp1 = [] then Inr pp1
           else rbind (mixIntoHash wyhash (word_bytes h) (fmt_nat (unat h)) (pathKeyForHistory A opts previousFileId) ''hash for #include'' (pp_stack pp1))
                  (\<lambda>st. Inr (pp1\<lparr>pp_stack := st\<rparr>)))"

definition FileChanged ::
  "clang_api \<Rightarrow> wyhash \<Rightarrow> IndexerPreprocessorOptions \<Rightarrow> SourceLocation \<Rightarrow> FileChangeReason \<Rightarrow> FileID \<Rightarrow>
   IndexerPreprocessorWrapper \<Rightarrow> IndexerPreprocessorWrapper result" where
  "FileChanged A wyhash opts sourceLoc reason previousFileId pp =
     (case reason of
        SystemHeaderPragma \<Rightarrow> Inr pp
      | RenameFile \<Rightarrow> Inr pp
      | ExitFile \<Rightarrow> exitFile A wyhash opts previousFileId pp
      | EnterFile \<Rightarrow> enterFile A wyhash opts sourceLoc pp)"

text \<open>
  \<^verbatim>\<open>MacroUndefined\<close>, \<^verbatim>\<open>MacroExpands\<close>, \<^verbatim>\<open>Ifdef\<close>, \<^verbatim>\<open>Ifndef\<close>, \<^verbatim>\<open>Defined\<close>, \<^verbatim>\<open>Elifdef\<close> and \<^verbatim>\<open>Elifndef\<close> all
  save a reference.
\<close>

definition MacroUsed :: "clang_api \<Rightarrow> Token \<Rightarrow> MacroDefinition \<Rightarrow> IndexerPreprocessorWrapper \<Rightarrow> IndexerPreprocessorWrapper result" where
  "MacroUsed A macroNameToken macroDefinition pp =
     rbind (mx_saveReference A macroNameToken macroDefinition (pp_macroIndexer pp)) (\<lambda>mx. Inr (pp\<lparr>pp_macroIndexer := mx\<rparr>))"

definition MacroDefined :: "clang_api \<Rightarrow> Token \<Rightarrow> nat option option \<Rightarrow> IndexerPreprocessorWrapper \<Rightarrow> IndexerPreprocessorWrapper result" where
  "MacroDefined A macroNameToken macroDirective pp =
     (case macroDirective of
        None \<Rightarrow> Inl (EnforceFailed ''macroDirective != nullptr'')
      | Some macroInfo \<Rightarrow>
          rbind (mx_saveDefinition A macroNameToken macroInfo (pp_macroIndexer pp)) (\<lambda>mx. Inr (pp\<lparr>pp_macroIndexer := mx\<rparr>)))"

text \<open>The argument \<open>optFileEntry\<close> is the real path of the file entry, if there is one.\<close>

definition InclusionDirective ::
  "clang_api \<Rightarrow> llvm_path \<Rightarrow> SourceLocation \<times> SourceLocation \<Rightarrow> string option \<Rightarrow> IndexerPreprocessorWrapper \<Rightarrow> IndexerPreprocessorWrapper" where
  "InclusionDirective A L fileNameRange optFileEntry pp =
     (case optFileEntry of
        None \<Rightarrow> pp
      | Some realPath \<Rightarrow>
          if loc_isInvalid (fst fileNameRange) \<or> loc_isInvalid (snd fileNameRange) then pp
          else let fileId = getFileID A (fst fileNameRange)
               in if \<not> fid_isValid fileId then pp
                  else case tryFrom L realPath of
                         None \<Rightarrow> pp
                       | Some absPath \<Rightarrow> pp\<lparr>pp_macroIndexer := mx_saveInclude fileId fileNameRange absPath (pp_macroIndexer pp)\<rparr>)"

subsection \<open>Reporting the files\<close>

definition getAbsPath :: "clang_api \<Rightarrow> llvm_path \<Rightarrow> FileID \<Rightarrow> bool \<Rightarrow> (AbsolutePath option \<times> bool) result" where
  "getAbsPath A L fileId emittedEmptyPathWarning =
     enforcing (fid_isValid fileId) ''stored invalid FileID in map!''
       (case tryGetRealPathName A fileId of
          None \<Rightarrow> Inr (None, emittedEmptyPathWarning)
        | Some path \<Rightarrow>
            if path = [] \<and> \<not> emittedEmptyPathWarning then Inr (None, True)
            else Inr (tryFrom L path, emittedEmptyPathWarning))"

definition saveFinished :: "clang_api \<Rightarrow> llvm_path \<Rightarrow> FileID \<times> HashValue \<Rightarrow> ClangIdLookupMap \<times> bool \<Rightarrow> (ClangIdLookupMap \<times> bool) result" where
  "saveFinished A L fh st =
     rbind (getAbsPath A L (fst fh) (snd st)) (\<lambda>(optPath, emitted).
       Inr (case optPath of None \<Rightarrow> fst st | Some absPath \<Rightarrow> idmap_insert absPath (snd fh) (fst fh) (fst st), emitted))"

definition reportPath :: "(hash_to_id \<Rightarrow> hash_to_id) \<Rightarrow> AbsolutePath \<Rightarrow> hash_to_id \<Rightarrow> SemanticAnalysisJobResult \<Rightarrow> SemanticAnalysisJobResult result" where
  "reportPath ordH absPath hs r =
     (if length hs = 1
      then Inr (r\<lparr>wellBehavedFiles := wellBehavedFiles r @ map (\<lambda>(h, f). \<lparr>fi_path = absPath, fi_hashValue = h\<rparr>) (ordH hs)\<rparr>)
      else enforcing (1 < length hs) ''clangIdLookupMap stores non-empty maps''
             (Inr (r\<lparr>illBehavedFiles := illBehavedFiles r @ [\<lparr>fim_path = absPath, fim_hashValues = map fst (ordH hs)\<rparr>]\<rparr>)))"

definition sortResult :: "SemanticAnalysisJobResult \<Rightarrow> SemanticAnalysisJobResult" where
  "sortResult r = r\<lparr>wellBehavedFiles := c_sort (cmp_lt compareFileInfo) (wellBehavedFiles r),
     illBehavedFiles := c_sort (cmp_lt compareFileInfoMulti) (illBehavedFiles r)\<rparr>"

definition flushState ::
  "clang_api \<Rightarrow> llvm_path \<Rightarrow> wyhash \<Rightarrow> IndexerPreprocessorOptions \<Rightarrow> ((FileID \<times> HashValue) list \<Rightarrow> (FileID \<times> HashValue) list) \<Rightarrow>
   (ClangIdLookupMap \<Rightarrow> ClangIdLookupMap) \<Rightarrow> (hash_to_id \<Rightarrow> hash_to_id) \<Rightarrow> SemanticAnalysisJobResult \<Rightarrow> ClangIdLookupMap \<Rightarrow>
   IndexerPreprocessorWrapper \<Rightarrow> (SemanticAnalysisJobResult \<times> ClangIdLookupMap \<times> MacroIndexer) result" where
  "flushState A L wyhash opts ordF ordP ordH result0 clangIdLookupMap pp =
     rbind (exitFile A wyhash opts (getMainFileID A) pp) (\<lambda>pp1.
     rbind (rfold (saveFinished A L) (ordF (finishedProcessing pp1)) (clangIdLookupMap, False)) (\<lambda>(m, _).
     rbind (forEachPathAndHash ordP (reportPath ordH) m result0) (\<lambda>r.
       Inr (if opt_deterministic opts then sortResult r else r, m, pp_macroIndexer pp1))))"

subsection \<open>The tree of includes\<close>

text \<open>
  The files of a translation unit as the preprocessor goes through them: an included file with
  its location and the files it includes, or something that Clang has no location for.
\<close>

datatype include_tree = IncludedFile FileID SourceLocation "include_tree list" | Unlocated "include_tree list"

type_synonym file_event = "SourceLocation \<times> FileChangeReason \<times> FileID"

fun tree_events :: "include_tree \<Rightarrow> file_event list" where
  "tree_events (IncludedFile f l ts) = [(l, EnterFile, InvalidFileID)] @ concat (map tree_events ts) @ [(0, ExitFile, f)]"
| "tree_events (Unlocated ts) = [(0, EnterFile, InvalidFileID)] @ concat (map tree_events ts) @ [(0, ExitFile, InvalidFileID)]"

fun tree_ok :: "clang_api \<Rightarrow> include_tree \<Rightarrow> bool" where
  "tree_ok A (IncludedFile f l ts) \<longleftrightarrow> \<not> loc_isInvalid l \<and> isFileID A l \<and> getFileID A l = f \<and> fid_isValid f \<and> list_all (tree_ok A) ts"
| "tree_ok A (Unlocated ts) \<longleftrightarrow> list_all (tree_ok A) ts"

text \<open>The reference definition of the hash value of a file: it is made of the hash values of the files it includes.\<close>

fun tree_hash :: "wyhash \<Rightarrow> include_tree \<Rightarrow> HashValue option" where
  "tree_hash w (IncludedFile f l ts) =
     Some (fold (\<lambda>h acc. case h of None \<Rightarrow> acc | Some v \<Rightarrow> hv_mix w (word_bytes v) acc) (map (tree_hash w) ts) 0)"
| "tree_hash w (Unlocated ts) = None"

fun tree_files :: "wyhash \<Rightarrow> include_tree \<Rightarrow> (FileID \<times> HashValue) list" where
  "tree_files w (IncludedFile f l ts) =
     concat (map (tree_files w) ts) @ [(f, case tree_hash w (IncludedFile f l ts) of Some h \<Rightarrow> h | None \<Rightarrow> 0)]"
| "tree_files w (Unlocated ts) = concat (map (tree_files w) ts)"

definition file_events :: "clang_api \<Rightarrow> wyhash \<Rightarrow> IndexerPreprocessorOptions \<Rightarrow> file_event list \<Rightarrow> IndexerPreprocessorWrapper \<Rightarrow> IndexerPreprocessorWrapper result" where
  "file_events A w opts = rfold (\<lambda>(l, r, f). FileChanged A w opts l r f)"

definition mix_step :: "wyhash \<Rightarrow> HashValue option \<Rightarrow> HashValue \<Rightarrow> HashValue" where
  "mix_step w h acc = (case h of None \<Rightarrow> acc | Some v \<Rightarrow> hv_mix w (word_bytes v) acc)"

fun mix_top :: "(HashValue \<Rightarrow> HashValue) \<Rightarrow> IndexerPreprocessorStack \<Rightarrow> IndexerPreprocessorStack" where
  "mix_top g (Some info # rest) =
     Some (info\<lparr>hashValueBuilder := (hashValueBuilder info)\<lparr>runningHash := g (runningHash (hashValueBuilder info))\<rparr>\<rparr>) # rest"
| "mix_top g st = st"

definition record_all :: "(FileID \<times> HashValue) list \<Rightarrow> (FileID \<times> HashValue) list \<Rightarrow> (FileID \<times> HashValue) list" where
  "record_all fs m = fold (\<lambda>(f, h). hmap_emplace f h) fs m"

definition no_history :: "IndexerPreprocessorStack \<Rightarrow> bool" where
  "no_history st \<longleftrightarrow> (\<forall>info. Some info \<in> set st \<longrightarrow> history (hashValueBuilder info) = None)"

lemma mix_top_comp: "mix_top g (mix_top h st) = mix_top (g \<circ> h) st"
  by (cases "(h, st)" rule: mix_top.cases) simp_all

lemma mix_top_id: "mix_top (\<lambda>x. x) st = st"
  by (cases "(\<lambda>x :: HashValue. x, st)" rule: mix_top.cases) auto

lemma no_history_mix_top [simp]: "no_history (mix_top g st) = no_history st"
  by (cases "(g, st)" rule: mix_top.cases) (auto simp: no_history_def)

text \<open>The stack of an entered file, whatever it includes, can be left again.\<close>

lemma exit_entered:
  assumes "opt_recorder opts = None" "fid_isValid f" "no_history st"
    and "pp_stack pp = Some \<lparr>hashValueBuilder = \<lparr>runningHash = h, history = None\<rparr>, hib_fileId = f\<rparr> # st"
  shows "exitFile A w opts f pp = Inr (pp\<lparr>pp_stack := mix_top (mix_step w (Some h)) st,
    finishedProcessing := hmap_emplace f h (finishedProcessing pp)\<rparr>)"
proof -
  have "mixIntoHash w (word_bytes h) shown path ctx st = Inr (mix_top (mix_step w (Some h)) st)" if "st \<noteq> []" for shown path ctx
    using that assms(3) by (cases "(\<lambda>x :: HashValue. x, st)" rule: mix_top.cases)
      (auto simp: mixIntoHash_def isTopValid_def isRecordingHistory_def no_history_def hvb_mix_def mix_step_def)
  then show ?thesis using assms
    by (auto simp: exitFile_def exitFileImpl_def tryPopValid_def isTopValid_def writeHistory_def Let_def)
qed

definition traversed :: "wyhash \<Rightarrow> include_tree list \<Rightarrow> IndexerPreprocessorWrapper \<Rightarrow> IndexerPreprocessorWrapper" where
  "traversed w ts pp = pp\<lparr>pp_stack := mix_top (fold (mix_step w) (map (tree_hash w) ts)) (pp_stack pp),
     finishedProcessing := record_all (concat (map (tree_files w) ts)) (finishedProcessing pp)\<rparr>"

lemma tree_hash_fold: "tree_hash w (IncludedFile f l ts) = Some (fold (mix_step w) (map (tree_hash w) ts) 0)"
  by (simp add: mix_step_def [abs_def])

lemma file_events_append: "file_events A w opts (es @ es') pp = rbind (file_events A w opts es pp) (file_events A w opts es')"
  by (simp add: file_events_def rfold_append)

lemma traversed_Nil: "traversed w [] pp = pp"
  using mix_top_id by (simp add: traversed_def record_all_def id_def)

lemma traversed_append: "traversed w ts' (traversed w ts pp) = traversed w (ts @ ts') pp"
  by (simp add: traversed_def mix_top_comp record_all_def)

lemma forest_run:
  assumes "\<And>t pp. t \<in> set ts \<Longrightarrow> no_history (pp_stack pp) \<Longrightarrow> file_events A w opts (tree_events t) pp = Inr (traversed w [t] pp)"
  shows "no_history (pp_stack pp) \<Longrightarrow> file_events A w opts (concat (map tree_events ts)) pp = Inr (traversed w ts pp)"
  using assms
proof (induction ts arbitrary: pp)
  case Nil
  then show ?case using traversed_Nil by (simp add: file_events_def)
next
  case (Cons t ts)
  have "file_events A w opts (tree_events t) pp = Inr (traversed w [t] pp)" using Cons.prems by simp
  moreover have "no_history (pp_stack (traversed w [t] pp))" using Cons.prems(1) by (simp add: traversed_def)
  moreover from this have "file_events A w opts (concat (map tree_events ts)) (traversed w [t] pp) = Inr (traversed w ts (traversed w [t] pp))"
    using Cons.IH Cons.prems(2) by simp
  ultimately show ?case using traversed_append [of w ts "[t]" pp] by (simp add: file_events_append)
qed

lemma entered_file:
  assumes "opt_recorder opts = None" "tree_ok A (IncludedFile f l ts)"
  shows "enterFile A w opts l pp = Inr (pp\<lparr>pp_stack := Some \<lparr>hashValueBuilder = \<lparr>runningHash = 0, history = None\<rparr>, hib_fileId = f\<rparr> # pp_stack pp\<rparr>)"
  using assms by (auto simp: enterFile_def recordedPath_def enterFileImpl_def mkHashValueBuilder_def Let_def)

lemma tree_run:
  assumes rec: "opt_recorder opts = None"
  shows "tree_ok A t \<Longrightarrow> no_history (pp_stack pp) \<Longrightarrow> file_events A w opts (tree_events t) pp = Inr (traversed w [t] pp)"
proof (induction t arbitrary: pp)
  case (IncludedFile f l ts)
  define pp1 where "pp1 = pp\<lparr>pp_stack := Some \<lparr>hashValueBuilder = \<lparr>runningHash = 0, history = None\<rparr>, hib_fileId = f\<rparr> # pp_stack pp\<rparr>"
  have ts: "\<And>t. t \<in> set ts \<Longrightarrow> tree_ok A t" using IncludedFile.prems(1) by (simp add: list_all_iff)
  have enter: "FileChanged A w opts l EnterFile InvalidFileID pp = Inr pp1"
    using entered_file [OF rec IncludedFile.prems(1)] by (simp add: FileChanged_def pp1_def)
  have "no_history (pp_stack pp1)" using IncludedFile.prems(2) by (auto simp: no_history_def pp1_def)
  then have inner: "file_events A w opts (concat (map tree_events ts)) pp1 = Inr (traversed w ts pp1)"
    using IncludedFile.IH ts by (intro forest_run) auto
  let ?h = "fold (mix_step w) (map (tree_hash w) ts) 0"
  have "pp_stack (traversed w ts pp1) = Some \<lparr>hashValueBuilder = \<lparr>runningHash = ?h, history = None\<rparr>, hib_fileId = f\<rparr> # pp_stack pp"
    by (simp add: traversed_def pp1_def)
  from exit_entered [OF rec _ IncludedFile.prems(2) this] IncludedFile.prems(1)
  have "FileChanged A w opts 0 ExitFile f (traversed w ts pp1) = Inr ((traversed w ts pp1)\<lparr>pp_stack := mix_top (mix_step w (Some ?h)) (pp_stack pp),
      finishedProcessing := hmap_emplace f ?h (finishedProcessing (traversed w ts pp1))\<rparr>)" by (simp add: FileChanged_def)
  moreover have "(traversed w ts pp1)\<lparr>pp_stack := mix_top (mix_step w (Some ?h)) (pp_stack pp),
      finishedProcessing := hmap_emplace f ?h (finishedProcessing (traversed w ts pp1))\<rparr> = traversed w [IncludedFile f l ts] pp"
    unfolding traversed_def by (simp add: pp1_def record_all_def tree_hash_fold del: tree_hash.simps)
  ultimately show ?case using enter inner by (simp add: file_events_def rfold_append)
next
  case (Unlocated ts)
  define pp1 where "pp1 = pp\<lparr>pp_stack := None # pp_stack pp\<rparr>"
  have ts: "\<And>t. t \<in> set ts \<Longrightarrow> tree_ok A t" using Unlocated.prems(1) by (simp add: list_all_iff)
  have enter: "FileChanged A w opts 0 EnterFile InvalidFileID pp = Inr pp1" by (simp add: FileChanged_def enterFile_def loc_isInvalid_def pp1_def)
  have "no_history (pp_stack pp1)" using Unlocated.prems(2) by (auto simp: no_history_def pp1_def)
  then have inner: "file_events A w opts (concat (map tree_events ts)) pp1 = Inr (traversed w ts pp1)"
    using Unlocated.IH ts by (intro forest_run) auto
  have "FileChanged A w opts 0 ExitFile InvalidFileID (traversed w ts pp1) = Inr ((traversed w ts pp1)\<lparr>pp_stack := pp_stack pp\<rparr>)"
    by (simp add: FileChanged_def exitFile_def exitFileImpl_def fid_isValid_def isTopValid_def popInvalid_def traversed_def pp1_def)
  moreover have "(traversed w ts pp1)\<lparr>pp_stack := pp_stack pp\<rparr> = traversed w [Unlocated ts] pp"
    using mix_top_id by (simp add: traversed_def pp1_def mix_step_def [abs_def])
  ultimately show ?case using enter inner by (simp add: file_events_def rfold_append)
qed

subsection \<open>The report\<close>

definition abs_path :: "clang_api \<Rightarrow> llvm_path \<Rightarrow> FileID \<Rightarrow> AbsolutePath option" where
  "abs_path A L f = Option.bind (tryGetRealPathName A f) (tryFrom L)"

definition idmap_of :: "clang_api \<Rightarrow> llvm_path \<Rightarrow> (FileID \<times> HashValue) list \<Rightarrow> ClangIdLookupMap \<Rightarrow> ClangIdLookupMap" where
  "idmap_of A L fs m = fold (\<lambda>(f, h) m. case abs_path A L f of None \<Rightarrow> m | Some p \<Rightarrow> idmap_insert p h f m) fs m"

lemma saveFinished_all:
  assumes "posix_paths L"
  shows "\<forall>f \<in> fst ` set fs. fid_isValid f \<Longrightarrow> \<exists>e'. rfold (saveFinished A L) fs (m, e) = Inr (idmap_of A L fs m, e')"
proof (induction fs arbitrary: m e)
  case (Cons fh fs)
  obtain f h where fh: "fh = (f, h)" by (cases fh)
  have "\<not> is_absolute L []" using assms by (simp add: posix_paths_def starts_with_def)
  then have "\<exists>e1. getAbsPath A L f e = Inr (abs_path A L f, e1)"
    using Cons.prems fh by (auto simp: getAbsPath_def abs_path_def tryFrom_def split: option.split)
  then obtain e1 where "saveFinished A L fh (m, e) = Inr (case abs_path A L f of None \<Rightarrow> m | Some p \<Rightarrow> idmap_insert p h f m, e1)"
    using fh by (cases "abs_path A L f") (auto simp: saveFinished_def)
  with Cons.IH [of _ e1] Cons.prems fh show ?case by (auto simp: idmap_of_def)
qed (simp add: idmap_of_def)

definition idmap_from :: "clang_api \<Rightarrow> llvm_path \<Rightarrow> (FileID \<times> HashValue) list \<Rightarrow> ClangIdLookupMap \<Rightarrow> bool" where
  "idmap_from A L fs m \<longleftrightarrow> idmap_ok m \<and> set (ids_of m) \<subseteq> fst ` set fs \<and> (\<forall>p \<in> fst ` set m. is_absolute L p) \<and>
     (\<forall>p h f. idmap_lookup m p h = Some f \<longrightarrow> (f, h) \<in> set fs \<and> abs_path A L f = Some p) \<and>
     (\<forall>(f, h) \<in> set fs. \<forall>p. abs_path A L f = Some p \<longrightarrow> idmap_lookup m p h \<noteq> None)"

lemma idmap_insert_paths: "fst ` set (idmap_insert p h f m) \<subseteq> insert p (fst ` set m)"
proof -
  have "set (map fst (hmap_update p v m)) \<subseteq> insert p (set (map fst m))" for v by (auto simp: keys_hmap_update)
  then show ?thesis by (auto simp: idmap_insert_def split: option.split)
qed

lemma idmap_from_step:
  assumes "idmap_from A L fs m" "f \<notin> fst ` set fs" "abs_path A L f = Some p"
  shows "idmap_from A L (fs @ [(f, h)]) (idmap_insert p h f m)"
proof -
  have fresh: "f \<notin> set (ids_of m)" using assms(1,2) unfolding idmap_from_def by blast
  have "is_absolute L p" using assms(3) by (auto simp: abs_path_def tryFrom_def bind_eq_Some_conv split: if_splits)
  moreover have "\<forall>q \<in> fst ` set m. is_absolute L q" using assms(1) by (simp add: idmap_from_def)
  ultimately have "is_absolute L q" if "q \<in> fst ` set (idmap_insert p h f m)" for q
    using subsetD [OF idmap_insert_paths that] by blast
  moreover have "idmap_ok (idmap_insert p h f m) \<and> set (ids_of (idmap_insert p h f m)) \<subseteq> fst ` set (fs @ [(f, h)])"
    using idmap_insert_ok [OF _ fresh, of p h] assms(1) unfolding idmap_from_def by auto
  ultimately show ?thesis
    using assms unfolding idmap_from_def idmap_lookup_insert by (auto split: if_splits)
qed

lemma idmap_of_from:
  "idmap_from A L fs0 m \<Longrightarrow> distinct (map fst (fs0 @ fs)) \<Longrightarrow> idmap_from A L (fs0 @ fs) (idmap_of A L fs m)"
proof (induction fs arbitrary: fs0 m)
  case (Cons fh fs)
  obtain f h where fh: "fh = (f, h)" by (cases fh)
  have "idmap_from A L (fs0 @ [(f, h)]) (case abs_path A L f of None \<Rightarrow> m | Some p \<Rightarrow> idmap_insert p h f m)"
  proof (cases "abs_path A L f")
    case None
    then show ?thesis using Cons.prems by (auto simp: idmap_from_def)
  next
    case (Some p)
    with idmap_from_step [OF Cons.prems(1) _ Some, of h] Cons.prems(2) fh show ?thesis by auto
  qed
  from Cons.IH [OF this] Cons.prems(2) fh show ?case by (simp add: idmap_of_def)
qed (simp add: idmap_of_def)

definition path_pairs :: "ClangIdLookupMap \<Rightarrow> (AbsolutePath \<times> HashValue) set" where
  "path_pairs m = {(p, h). \<exists>hs. (p, hs) \<in> set m \<and> h \<in> fst ` set hs}"

lemma path_pairs_lookup: "idmap_ok m \<Longrightarrow> (p, h) \<in> path_pairs m \<longleftrightarrow> idmap_lookup m p h \<noteq> None"
proof -
  assume m: "idmap_ok m"
  then have "(p, hs) \<in> set m \<longleftrightarrow> map_of m p = Some hs" for hs by (simp add: idmap_ok_def)
  then have "(p, h) \<in> path_pairs m \<longleftrightarrow> (\<exists>hs. map_of m p = Some hs \<and> h \<in> fst ` set hs)" by (simp add: path_pairs_def)
  moreover have "h \<in> fst ` set hs \<longleftrightarrow> map_of hs h \<noteq> None" for hs :: hash_to_id by (simp only: map_of_eq_None_iff) simp
  ultimately show ?thesis by (cases "map_of m p") (simp_all add: idmap_lookup_def)
qed

lemma reportPath_reports:
  assumes "permutes_lists ordH" "hs \<noteq> []" "is_absolute L p" "sema_result_ok L r"
  shows "\<exists>r'. reportPath ordH p hs r = Inr r' \<and> sema_result_ok L r' \<and> set (reported r') = set (reported r) \<union> Pair p ` fst ` set hs"
proof -
  have s: "set (ordH hs) = set hs" "length (ordH hs) = length hs"
    using assms(1) by (metis mset_eq_setD permutes_lists_def, metis permutes_lists_def size_mset)
  show ?thesis
  proof (cases "length hs = 1")
    case True
    have "(\<lambda>f. (fi_path f, fi_hashValue f)) ` (\<lambda>(h, f). \<lparr>fi_path = p, fi_hashValue = h\<rparr>) ` set hs = Pair p ` fst ` set hs"
      by (auto simp: image_image case_prod_unfold)
    then show ?thesis using True assms(3,4) s
      by (auto simp: reportPath_def sema_result_ok_def reported_def info_pairs_def image_Un Un_assoc)
  next
    case False
    then have "1 < length hs" using assms(2) by (cases hs) auto
    then show ?thesis using False assms(3,4) s
      by (auto simp: reportPath_def sema_result_ok_def reported_def multi_pairs_def)
  qed
qed

lemma forEachPath_reports:
  assumes "permutes_lists ordH"
  shows "\<forall>(p, hs) \<in> set ms. hs \<noteq> [] \<and> is_absolute L p \<Longrightarrow> sema_result_ok L r \<Longrightarrow>
    \<exists>r'. rfold (\<lambda>(p, hs) s. enforcing (hs \<noteq> []) ''Shouldn't have stored empty maps'' (reportPath ordH p hs s)) ms r = Inr r' \<and>
      sema_result_ok L r' \<and> set (reported r') = set (reported r) \<union> path_pairs ms"
proof (induction ms arbitrary: r)
  case (Cons x ms)
  obtain p hs where x: "x = (p, hs)" by (cases x)
  obtain r1 where r1: "reportPath ordH p hs r = Inr r1" "sema_result_ok L r1" "set (reported r1) = set (reported r) \<union> Pair p ` fst ` set hs"
    using reportPath_reports [OF assms, of hs L p r] Cons.prems x by auto
  have "path_pairs (x # ms) = Pair p ` fst ` set hs \<union> path_pairs ms" by (auto simp: path_pairs_def x)
  with Cons.IH [OF _ r1(2)] Cons.prems(1) r1 x show ?case by (auto simp: Un_assoc)
qed (simp add: path_pairs_def)

lemma sortResult_same: "set (reported (sortResult r)) = set (reported r)" "sema_result_ok L (sortResult r) = sema_result_ok L r"
  by (simp_all add: sortResult_def reported_def info_pairs_def multi_pairs_def sema_result_ok_def)

lemma record_all_set:
  "distinct (map fst fs) \<Longrightarrow> record_all fs [] = fs"
proof -
  have "distinct (map fst (m @ fs)) \<Longrightarrow> record_all fs m = m @ fs" for m
  proof (induction fs arbitrary: m)
    case (Cons fh fs)
    obtain f h where fh: "fh = (f, h)" by (cases fh)
    have "map_of m f = None" using Cons.prems fh by (auto simp: map_of_eq_None_iff)
    then have "record_all (fh # fs) m = record_all fs (m @ [fh])" by (simp add: record_all_def fh hmap_emplace_def)
    with Cons show ?case by simp
  qed (simp add: record_all_def)
  then show "distinct (map fst fs) \<Longrightarrow> record_all fs [] = fs" by (metis append_Nil)
qed

lemma tree_files_valid: "tree_ok A t \<Longrightarrow> \<forall>f \<in> fst ` set (tree_files w t). fid_isValid f"
  by (induction t) (auto simp: list_all_iff)

text \<open>
  C25: What the preprocessor reports about a translation unit. The callbacks go through the tree of
  includes of the main file, and the state is flushed before the main file is left. Whatever the
  order of the hash tables, no check fails, and the report has exactly the pairs of path and hash
  value of the files that have an absolute path, where the hash value is that of the reference
  definition over the tree. The report is well-formed in the sense the driver relies on, and the
  identifier map leads from every pair that is reported to a file of the tree with that path and hash value.
\<close>

theorem preprocessor_report:
  assumes "posix_paths L" "opt_recorder opts = None" "tree_ok A (IncludedFile f l ts)" "getMainFileID A = f"
    and "distinct (map fst (tree_files w (IncludedFile f l ts)))"
    and "permutes_lists ordF" "permutes_lists ordP" "permutes_lists ordH"
  shows "\<exists>pp r m mx. file_events A w opts ((l, EnterFile, InvalidFileID) # concat (map tree_events ts)) mkPreprocessorWrapper = Inr pp \<and>
    flushState A L w opts ordF ordP ordH default_SemaResult [] pp = Inr (r, m, mx) \<and> sema_result_ok L r \<and> idmap_ok m \<and>
    set (reported r) = {(p, h). \<exists>g. (g, h) \<in> set (tree_files w (IncludedFile f l ts)) \<and> abs_path A L g = Some p} \<and>
    (\<forall>(p, h) \<in> set (reported r). \<exists>g. idmap_lookup m p h = Some g \<and> (g, h) \<in> set (tree_files w (IncludedFile f l ts)) \<and> abs_path A L g = Some p)"
proof -
  let ?t = "IncludedFile f l ts" and ?h = "fold (mix_step w) (map (tree_hash w) ts) 0"
  let ?fs = "tree_files w ?t"
  define pp1 where "pp1 = mkPreprocessorWrapper\<lparr>pp_stack := [Some \<lparr>hashValueBuilder = \<lparr>runningHash = 0, history = None\<rparr>, hib_fileId = f\<rparr>]\<rparr>"
  have "FileChanged A w opts l EnterFile InvalidFileID mkPreprocessorWrapper = Inr pp1"
    using entered_file [OF assms(2,3)] by (simp add: FileChanged_def pp1_def) (simp add: mkPreprocessorWrapper_def)
  moreover have "file_events A w opts (concat (map tree_events ts)) pp1 = Inr (traversed w ts pp1)"
    using assms(3) tree_run [OF assms(2)] by (intro forest_run) (auto simp: no_history_def pp1_def list_all_iff)
  ultimately have run: "file_events A w opts ((l, EnterFile, InvalidFileID) # concat (map tree_events ts)) mkPreprocessorWrapper = Inr (traversed w ts pp1)"
    by (simp add: file_events_def)
  have "pp_stack (traversed w ts pp1) = [Some \<lparr>hashValueBuilder = \<lparr>runningHash = ?h, history = None\<rparr>, hib_fileId = f\<rparr>]"
    by (simp add: traversed_def pp1_def)
  from exit_entered [OF assms(2) _ _ this, of A w] assms(3)
  obtain pp2 where exit: "exitFile A w opts f (traversed w ts pp1) = Inr pp2"
      "finishedProcessing pp2 = hmap_emplace f ?h (finishedProcessing (traversed w ts pp1))"
    by (auto simp: no_history_def)
  have "finishedProcessing pp2 = record_all ?fs []"
    unfolding exit(2) by (simp add: traversed_def pp1_def mkPreprocessorWrapper_def record_all_def tree_hash_fold del: tree_hash.simps)
  then have fs: "finishedProcessing pp2 = ?fs" using record_all_set [OF assms(5)] by simp
  have perm: "mset (ordF ?fs) = mset ?fs" using assms(6) by (simp add: permutes_lists_def)
  then have "mset (map fst (ordF ?fs)) = mset (map fst ?fs)" by simp
  then have d: "distinct (map fst (ordF ?fs))" using assms(5) by (metis mset_eq_imp_distinct_iff)
  define m where "m = idmap_of A L (ordF ?fs) []"
  have "idmap_from A L [] []" by (simp add: idmap_from_def idmap_ok_def ids_of_def idmap_lookup_def)
  from idmap_of_from [OF this, of "ordF ?fs"] d have m: "idmap_from A L (ordF ?fs) m" by (simp add: m_def)
  have "\<forall>g \<in> fst ` set (ordF ?fs). fid_isValid g" using tree_files_valid [OF assms(3), of w] mset_eq_setD [OF perm] by simp
  from saveFinished_all [OF assms(1) this, of A "[]" False] obtain e where
    saved: "rfold (saveFinished A L) (ordF ?fs) ([], False) = Inr (m, e)" by (auto simp: m_def)
  have m_ok: "idmap_ok m" and abs: "\<forall>p \<in> fst ` set m. is_absolute L p" using m by (simp_all add: idmap_from_def)
  have ordP: "set (ordP m) = set m" using assms(7) by (metis mset_eq_setD permutes_lists_def)
  have start: "sema_result_ok L default_SemaResult" "set (reported default_SemaResult) = {}"
    by (simp_all add: default_SemaResult_def sema_result_ok_def reported_def info_pairs_def multi_pairs_def)
  have "\<forall>(p, hs) \<in> set (ordP m). hs \<noteq> [] \<and> is_absolute L p" using m_ok abs unfolding ordP idmap_ok_def by fastforce
  from forEachPath_reports [OF assms(8) this start(1)] obtain r where
    r: "forEachPathAndHash ordP (reportPath ordH) m default_SemaResult = Inr r" "sema_result_ok L r" "set (reported r) = path_pairs (ordP m)"
    unfolding forEachPathAndHash_def start(2) by blast
  define r' where "r' = (if opt_deterministic opts then sortResult r else r)"
  have r': "sema_result_ok L r'" "set (reported r') = path_pairs m"
    using r(2,3) sortResult_same ordP by (simp_all add: r'_def path_pairs_def)
  have flush: "flushState A L w opts ordF ordP ordH default_SemaResult [] (traversed w ts pp1) = Inr (r', m, pp_macroIndexer pp2)"
    using exit(1) assms(4) fs saved r(1) by (simp add: flushState_def r'_def)
  have set_fs: "set (ordF ?fs) = set ?fs" using perm by (rule mset_eq_setD)
  have look: "(g, h) \<in> set ?fs \<and> abs_path A L g = Some p" if "idmap_lookup m p h = Some g" for p h g
    using m that unfolding idmap_from_def set_fs by blast
  have "\<forall>(g, h) \<in> set ?fs. \<forall>p. abs_path A L g = Some p \<longrightarrow> idmap_lookup m p h \<noteq> None"
    using m unfolding idmap_from_def set_fs by blast
  then have "(p, h) \<in> path_pairs m \<longleftrightarrow> (\<exists>g. (g, h) \<in> set ?fs \<and> abs_path A L g = Some p)" for p h
    unfolding path_pairs_lookup [OF m_ok] using look by blast
  then have pairs: "set (reported r') = {(p, h). \<exists>g. (g, h) \<in> set ?fs \<and> abs_path A L g = Some p}" using r'(2) by auto
  have "\<exists>g. idmap_lookup m p h = Some g \<and> (g, h) \<in> set ?fs \<and> abs_path A L g = Some p" if "(p, h) \<in> path_pairs m" for p h
    using that look unfolding path_pairs_lookup [OF m_ok] by blast
  then have "\<forall>(p, h) \<in> set (reported r'). \<exists>g. idmap_lookup m p h = Some g \<and> (g, h) \<in> set ?fs \<and> abs_path A L g = Some p"
    unfolding r'(2) by blast
  with run flush r'(1) m_ok pairs show ?thesis by blast
qed

definition sample_sources :: clang_api where
  "sample_sources = sample_clang\<lparr>tryGetRealPathName := (\<lambda>f. Some (if f = FileID 1 then ''/p/a.cc'' else ''/p/b.h''))\<rparr>"

theorem preprocessor_report_witness:
  "\<exists>pp r m mx. file_events sample_sources (\<lambda>t s. 7) \<lparr>opt_recorder = None, opt_deterministic = True\<rparr>
      [(20, EnterFile, InvalidFileID), (120, EnterFile, InvalidFileID), (0, ExitFile, FileID 2)] mkPreprocessorWrapper = Inr pp \<and>
    flushState sample_sources slash_paths (\<lambda>t s. 7) \<lparr>opt_recorder = None, opt_deterministic = True\<rparr> rev rev rev default_SemaResult [] pp = Inr (r, m, mx) \<and>
    set (reported r) = {(''/p/a.cc'', 7), (''/p/b.h'', 0)} \<and> idmap_lookup m ''/p/a.cc'' 7 = Some (FileID 1)"
proof -
  let ?w = "\<lambda>t s. 7 :: 64 word" and ?opts = "\<lparr>opt_recorder = None, opt_deterministic = True\<rparr>"
  let ?ts = "[IncludedFile (FileID 2) 120 []]"
  let ?t = "IncludedFile (FileID 1) 20 ?ts"
  have t: "tree_ok sample_sources ?t" by (simp add: loc_isInvalid_def fid_isValid_def) (simp add: sample_sources_def sample_clang_def)
  have files: "tree_files ?w ?t = [(FileID 2, 0), (FileID 1, 7)]" by (simp add: hv_mix_def)
  have main: "getMainFileID sample_sources = FileID 1" by (simp add: sample_sources_def sample_clang_def)
  have perm: "permutes_lists rev" by (simp add: permutes_lists_def)
  have rec: "opt_recorder ?opts = None" by simp
  have path: "abs_path sample_sources slash_paths f = Some (if f = FileID 1 then ''/p/a.cc'' else ''/p/b.h'')" for f
    by (simp add: abs_path_def sample_sources_def tryFrom_def slash_paths_def starts_with_def)
  have d: "distinct (map fst (tree_files ?w ?t))" unfolding files by simp
  have ev: "(20, EnterFile, InvalidFileID) # concat (map tree_events ?ts) =
      [(20, EnterFile, InvalidFileID), (120, EnterFile, InvalidFileID), (0, ExitFile, FileID 2)]" by simp
  obtain pp r m mx where run: "file_events sample_sources ?w ?opts ((20, EnterFile, InvalidFileID) # concat (map tree_events ?ts)) mkPreprocessorWrapper = Inr pp"
      "flushState sample_sources slash_paths ?w ?opts rev rev rev default_SemaResult [] pp = Inr (r, m, mx)"
      "set (reported r) = {(p, h). \<exists>g. (g, h) \<in> set (tree_files ?w ?t) \<and> abs_path sample_sources slash_paths g = Some p}"
      "\<forall>(p, h) \<in> set (reported r). \<exists>g. idmap_lookup m p h = Some g \<and> (g, h) \<in> set (tree_files ?w ?t) \<and> abs_path sample_sources slash_paths g = Some p"
    using preprocessor_report [OF posix_slash_paths rec t main d perm perm perm] by blast
  have "(\<exists>g. (g, h) \<in> set (tree_files ?w ?t) \<and> abs_path sample_sources slash_paths g = Some p) \<longleftrightarrow>
      p = ''/p/b.h'' \<and> h = 0 \<or> p = ''/p/a.cc'' \<and> h = 7" for p h
    unfolding files path by (simp add: ex_disj_distrib conj_disj_distribR) metis
  then have r: "set (reported r) = {(''/p/a.cc'', 7), (''/p/b.h'', 0)}" unfolding run(3) by blast
  moreover have "idmap_lookup m ''/p/a.cc'' 7 = Some (FileID 1)" using run(4) unfolding r files by auto
  ultimately show ?thesis using run(1,2) unfolding ev by blast
qed

end
