(* ===== verification/Ast_Consumer.thy ===== *)
theory Ast_Consumer
  imports Tu_Correct Preprocessor
begin

text \<open>
  What happens when Clang has parsed a translation unit (indexer/AstConsumer.h, indexer/AstConsumer.cc):
  the state of the preprocessor is flushed, a callback of the worker tells which files are to be
  indexed, the metadata of the files are filled in, includes and the nodes of the syntax tree are saved, and the
  shard is written.

  The callback is a parameter with a state of its own; the nodes that Clang reports are an argument. The orders in
  which the hash tables enumerate their elements are the fields of \<open>consumer_orders\<close>. The record
  \<open>file_system\<close> has what is asked of paths and of the file system.
\<close>

subsection \<open>State\<close>

record consumer_orders =
  ord_fileIds :: "FileID list \<Rightarrow> FileID list"
  ord_finished :: "(FileID \<times> HashValue) list \<Rightarrow> (FileID \<times> HashValue) list"
  ord_paths :: "ClangIdLookupMap \<Rightarrow> ClangIdLookupMap"
  ord_hashes :: "hash_to_id \<Rightarrow> hash_to_id"
  ord_macros :: "FileLocalMacroOccurrence list \<Rightarrow> FileLocalMacroOccurrence list"
  ord_otherMacros :: "nat list \<Rightarrow> nat list"
  ord_infos :: "(SymbolNameRef \<times> SymbolInformation) list \<Rightarrow> (SymbolNameRef \<times> SymbolInformation) list"
  ord_forwards :: "ForwardDeclMap \<Rightarrow> ForwardDeclMap"

record file_system =
  fs_paths :: llvm_path
  fs_realPath :: "string \<Rightarrow> string option"
  fs_hashText :: "string \<Rightarrow> 64 word"

record 'w IndexerAstConsumerOptions =
  aco_projectRootPath :: RootPath
  aco_buildRootPath :: RootPath
  getEmitIndexDetails :: "SemanticAnalysisJobResult \<Rightarrow> 'w \<Rightarrow> (bool \<times> PreprocessedFileInfo list \<times> 'w) result"
  aco_deterministic :: bool
  aco_packageMap :: PackageMap

record TuIndexingOutput =
  out_docsAndExternals :: Index
  out_forwardDecls :: "ForwardDecl list"

definition mkTuIndexingOutput :: TuIndexingOutput where
  "mkTuIndexingOutput = \<lparr>out_docsAndExternals = \<lparr>documents = [], external_symbols = []\<rparr>, out_forwardDecls = []\<rparr>"

subsection \<open>Files to be indexed\<close>

definition computeFileIdsToBeIndexed ::
  "file_system \<Rightarrow> consumer_orders \<Rightarrow> clang_api \<Rightarrow> PreprocessedFileInfo list \<Rightarrow> ClangIdLookupMap \<Rightarrow> FileMetadataMap \<times> FileID list \<Rightarrow>
   (FileMetadataMap \<times> FileID list) result" where
  "computeFileIdsToBeIndexed fs ord A filesToBeIndexed clangIdLookupMap st =
     (let (fmm, toBeIndexed) = st; mainFileId = getMainFileID A; L = fs_paths fs
      in rbind (populateMetadata L (fs_realPath fs) (fs_hashText fs) (ord_paths ord) (ord_hashes ord) clangIdLookupMap fmm) (\<lambda>fmm1.
         rbind (case Option.bind (tryGetRealPathName A mainFileId) (tryFrom L) of
                  None \<Rightarrow> Inr (fmm1, toBeIndexed)
                | Some mainFileAbsPath \<Rightarrow>
                    rbind (insertMetadata L (fs_realPath fs) (fs_hashText fs) mainFileId mainFileAbsPath fmm1) (\<lambda>(_, fmm2).
                      Inr (fmm2, hset_insert mainFileId toBeIndexed))) (\<lambda>(fmm3, toBeIndexed1).
           Inr (fmm3, fold (\<lambda>fileInfo ids.
             case idmap_lookup clangIdLookupMap (fi_path fileInfo) (fi_hashValue fileInfo) of
               None \<Rightarrow> ids
             | Some fileId \<Rightarrow> hset_insert fileId ids) filesToBeIndexed toBeIndexed1))))"

subsection \<open>Includes\<close>

definition saveIncludeReference :: "consumer_orders \<Rightarrow> tu_env \<Rightarrow> ClangIdLookupMap \<Rightarrow> FileMetadataMap \<Rightarrow> SourceLocation \<times> SourceLocation \<Rightarrow> AbsolutePath \<Rightarrow> save" where
  "saveIncludeReference ord E clangIdLookupMap fmm sourceRange importedFilePath tu =
     rbind (lookupAnyFileId (ord_hashes ord) clangIdLookupMap importedFilePath) (\<lambda>optRefFileId.
       case optRefFileId of
         None \<Rightarrow> Inr tu
       | Some refFileId \<Rightarrow>
          (case getFileMetadata fmm refFileId of
             None \<Rightarrow> Inl (EnforceFailed ''missing FileMetadata value for path'')
           | Some md \<Rightarrow> saveInclude E sourceRange md tu))"

definition saveIncludeReferences :: "consumer_orders \<Rightarrow> tu_env \<Rightarrow> FileID list \<Rightarrow> MacroIndexer \<Rightarrow> ClangIdLookupMap \<Rightarrow> FileMetadataMap \<Rightarrow> save" where
  "saveIncludeReferences ord E toBeIndexed macroIndexer clangIdLookupMap fmm =
     rfold (\<lambda>fileId tu.
       rbind (case getFileMetadata fmm fileId of
                None \<Rightarrow> Inr tu
              | Some md \<Rightarrow> saveSyntheticFileDefinition E fileId md tu)
         (forEachIncludeInFile macroIndexer fileId (saveIncludeReference ord E clangIdLookupMap fmm)))
       (ord_fileIds ord toBeIndexed)"

subsection \<open>Writing the shard\<close>

text \<open>
  \<^verbatim>\<open>absl::c_sort\<close> with a comparator that may stop the program. Any algorithm compares two elements that are
  neighbours in the result, so a check that fails on equal keys fails if and only if there are equal keys.
\<close>

fun checked_insort :: "('a \<Rightarrow> 'a \<Rightarrow> bool result) \<Rightarrow> 'a \<Rightarrow> 'a list \<Rightarrow> 'a list result" where
  "checked_insort lt x [] = Inr [x]"
| "checked_insort lt x (y # ys) =
     rbind (lt y x) (\<lambda>less. if less then rbind (checked_insort lt x ys) (\<lambda>zs. Inr (y # zs)) else Inr (x # y # ys))"

fun checked_sort :: "('a \<Rightarrow> 'a \<Rightarrow> bool result) \<Rightarrow> 'a list \<Rightarrow> 'a list result" where
  "checked_sort lt [] = Inr []"
| "checked_sort lt (x # xs) = rbind (checked_sort lt xs) (checked_insort lt x)"

definition comparePaths :: "RootRelativePathRef \<times> FileID \<Rightarrow> RootRelativePathRef \<times> FileID \<Rightarrow> bool result" where
  "comparePaths p1 p2 =
     (let cmp = compareRootRelativePathRef (fst p1) (fst p2)
      in enforcing (cmp \<noteq> SO_equal) (''document with path '' @ rel_value (fst p1) @ '' is present 2+ times in index'') (Inr (cmp = SO_less)))"

definition indexedProjectFiles :: "FileMetadataMap \<Rightarrow> FileID list \<Rightarrow> (RootRelativePathRef \<times> FileID) list" where
  "indexedProjectFiles fmm fileIds =
     List.map_filter (\<lambda>fileId.
       case getStableFileId fmm fileId of
         None \<Rightarrow> None
       | Some sf \<Rightarrow> if isInProject sf then Some (sf_path sf, fileId) else None) fileIds"

text \<open>The symbol formatter is shared between the two indexers.\<close>

definition writeFileDocument ::
  "consumer_orders \<Rightarrow> tu_env \<Rightarrow> bool \<Rightarrow> RootRelativePathRef \<times> FileID \<Rightarrow> MacroIndexer \<times> TuIndexer \<times> TuIndexingOutput \<Rightarrow>
   (MacroIndexer \<times> TuIndexer \<times> TuIndexingOutput) result" where
  "writeFileDocument ord E deterministic file st =
     (let (mx, tu, out) = st; (relPathRef, fileId) = file;
          document = \<lparr>language = ''CPP'', relative_path = rel_value relPathRef, occurrences = [], symbols = []\<rparr>
      in rbind (emitDocumentOccurrencesAndSymbols (ord_macros ord) (clang E) (codes E) deterministic fileId (mx, document, tu_symbolFormatter tu))
           (\<lambda>(mx1, document1, F).
             let tu1 = tu\<lparr>tu_symbolFormatter := F\<rparr>;
                 document2 = tu_emitDocumentOccurrencesAndSymbols (ord_infos ord) deterministic fileId tu1 document1
             in Inr (mx1, tu1, out\<lparr>out_docsAndExternals :=
                  (out_docsAndExternals out)\<lparr>documents := documents (out_docsAndExternals out) @ [document2]\<rparr>\<rparr>)))"

definition writeIndex ::
  "consumer_orders \<Rightarrow> tu_env \<Rightarrow> bool \<Rightarrow> FileMetadataMap \<Rightarrow> FileID list \<Rightarrow> MacroIndexer \<Rightarrow> TuIndexer \<Rightarrow> TuIndexingOutput \<Rightarrow> TuIndexingOutput result" where
  "writeIndex ord E deterministic fmm toBeIndexed macroIndex tuIndexer output =
     (let files = indexedProjectFiles fmm (ord_fileIds ord toBeIndexed)
      in rbind (if deterministic then checked_sort comparePaths files else Inr files) (\<lambda>files1.
         rbind (rfold (writeFileDocument ord E deterministic) files1 (macroIndex, tuIndexer, output)) (\<lambda>(mx, tu, out).
         let index = tu_emitExternalSymbols (ord_infos ord) deterministic tu (out_docsAndExternals out)
         in rbind (emitForwardDeclarations (ord_forwards ord) E deterministic tu (out_forwardDecls out)) (\<lambda>forwards.
            rbind (mx_emitExternalSymbols (ord_otherMacros ord) (clang E) deterministic (mx, index, tu_symbolFormatter tu)) (\<lambda>(_, index1, _).
              Inr \<lparr>out_docsAndExternals = index1, out_forwardDecls = forwards\<rparr>)))))"

subsection \<open>A translation unit\<close>

text \<open>
  The result is the state of the callback, the package map with what was cached in it, and the output. The main file is
  to be indexed in any case.
\<close>

definition indexTranslationUnit ::
  "file_system \<Rightarrow> consumer_orders \<Rightarrow> tu_env \<Rightarrow> 'w IndexerAstConsumerOptions \<Rightarrow> AstNode list \<Rightarrow> PreprocessedFileInfo list \<Rightarrow> ClangIdLookupMap \<Rightarrow>
   MacroIndexer \<Rightarrow> TuIndexingOutput \<Rightarrow> (PackageMap \<times> TuIndexingOutput) result" where
  "indexTranslationUnit fs ord E opts nodes filesToBeIndexed clangIdLookupMap macroIndexer output =
     (let fmm0 = mkFileMetadataMap (aco_projectRootPath opts) (aco_buildRootPath opts) (aco_packageMap opts)
      in rbind (computeFileIdsToBeIndexed fs ord (clang E) filesToBeIndexed clangIdLookupMap (fmm0, [])) (\<lambda>(fmm, toBeIndexed0).
         let toBeIndexed = hset_insert (getMainFileID (clang E)) toBeIndexed0
         in rbind (saveIncludeReferences ord E toBeIndexed macroIndexer clangIdLookupMap fmm
                     (mkTuIndexer toBeIndexed (mkSymbolFormatter fmm) fmm)) (\<lambda>tu1.
            rbind (traverseAST E nodes tu1) (\<lambda>tu2.
            rbind (writeIndex ord E (aco_deterministic opts) fmm toBeIndexed macroIndexer tu2 output) (\<lambda>out.
              Inr (fm_packageMap fmm, out))))))"

definition HandleTranslationUnit ::
  "file_system \<Rightarrow> consumer_orders \<Rightarrow> tu_env \<Rightarrow> IndexerPreprocessorOptions \<Rightarrow> 'w IndexerAstConsumerOptions \<Rightarrow> AstNode list \<Rightarrow>
   IndexerPreprocessorWrapper \<Rightarrow> 'w \<Rightarrow> TuIndexingOutput \<Rightarrow> ('w \<times> PackageMap \<times> TuIndexingOutput) result" where
  "HandleTranslationUnit fs ord E popts opts nodes pp w output =
     rbind (flushState (clang E) (fs_paths fs) (te_wyhash E) popts (ord_finished ord) (ord_paths ord) (ord_hashes ord) default_SemaResult [] pp)
       (\<lambda>(semaResult, clangIdLookupMap, macroIndexer).
         rbind (getEmitIndexDetails opts semaResult w) (\<lambda>(shouldEmitIndex, filesToBeIndexed, w1).
           if \<not> shouldEmitIndex then Inr (w1, aco_packageMap opts, output)
           else rbind (indexTranslationUnit fs ord E opts nodes filesToBeIndexed clangIdLookupMap macroIndexer output) (\<lambda>(pm, out).
                  Inr (w1, pm, out))))"

end
