(* ===== verification/Shard_Correct.thy ===== *)
theory Shard_Correct
  imports Ast_Consumer
begin

text \<open>
  The shard of a translation unit: which files are to be indexed, that nothing on the way to the shard fails a check, and
  that the shard has one document for each of the files, whatever the orders of the hash tables.
\<close>

subsection \<open>Sorting with a checked comparator\<close>

lemma three_way_paths: "three_way (compareRootRelativePathRef :: RootRelativePathRef \<Rightarrow> _) (\<lambda>_. True)"
proof (rule three_way_vimage_on [where p = "\<lambda>r. (rel_value r, root_kind_rank (rel_kind r))"])
  show "three_way (cmp_then cmpStr spaceship) (\<lambda>k :: string \<times> nat. True)"
    by (rule three_way_mono [OF three_way_then [OF str.three_way_axioms three_way_spaceship]]) simp
  have "k = k'" if "root_kind_rank k = root_kind_rank k'" for k k' using that by (cases k; cases k') simp_all
  then show "inj_on (\<lambda>r :: RootRelativePathRef. (rel_value r, root_kind_rank (rel_kind r))) {r. True}"
    by (intro inj_onI RootRelativePathRef.equality) simp_all
qed (simp_all add: compareRootRelativePathRef_def cmp_then_def CMP_EXPR_def CMP_STR_def)

interpretation rel_paths: three_way compareRootRelativePathRef "\<lambda>_. True"
  by (rule three_way_paths)

definition by_path :: "RootRelativePathRef \<times> FileID \<Rightarrow> RootRelativePathRef \<times> FileID \<Rightarrow> bool" where
  "by_path p q = cmp_lt compareRootRelativePathRef (fst p) (fst q)"

lemma checked_insort_ok:
  "fst x \<notin> fst ` set ys \<Longrightarrow> checked_insort comparePaths x ys = Inr (insort_lt by_path x ys)"
  by (induction ys) (auto simp: comparePaths_def Let_def by_path_def cmp_lt_def rel_paths.cmp_eq)

lemma checked_sort_ok: "distinct (map fst xs) \<Longrightarrow> checked_sort comparePaths xs = Inr (c_sort by_path xs)"
  by (induction xs) (simp_all add: checked_insort_ok)

lemma checked_insort_fails:
  assumes "fst x \<in> fst ` set ys" "sorted_wrt by_path ys"
  shows "\<exists>msg. checked_insort comparePaths x ys = Inl (EnforceFailed msg)"
  using assms
proof (induction ys)
  case (Cons y ys)
  show ?case
  proof (cases "fst y = fst x")
    case True
    then show ?thesis by (auto simp: comparePaths_def Let_def rel_paths.cmp_eq)
  next
    case False
    with Cons.prems obtain z where z: "z \<in> set ys" "fst z = fst x" by auto
    with Cons.prems have "by_path y z" by auto
    with z have "comparePaths y x = Inr True" by (simp add: comparePaths_def by_path_def cmp_lt_def)
    moreover have "fst x \<in> fst ` set ys" using imageI [OF z(1), of fst] z(2) by simp
    with Cons obtain msg where "checked_insort comparePaths x ys = Inl (EnforceFailed msg)" by auto
    ultimately show ?thesis by simp
  qed
qed simp

lemma by_path_lt: "by_path = cmp_lt (\<lambda>p q. compareRootRelativePathRef (fst p) (fst q))"
  by (simp add: by_path_def cmp_lt_def fun_eq_iff)

lemma sorted_by_path: "distinct (map fst xs) \<Longrightarrow> sorted_wrt by_path (c_sort by_path xs)"
  unfolding by_path_lt
  by (rule three_way.sorted_c_sort [OF three_way_map_key [OF three_way_paths]]) (auto simp: distinct_map)

lemma checked_sort_fails: "\<not> distinct (map fst xs) \<Longrightarrow> \<exists>msg. checked_sort comparePaths xs = Inl (EnforceFailed msg)"
proof (induction xs)
  case (Cons x xs)
  show ?case
  proof (cases "distinct (map fst xs)")
    case True
    with Cons.prems have "fst x \<in> fst ` set (c_sort by_path xs)" by auto
    from checked_insort_fails [OF this sorted_by_path [OF True]] checked_sort_ok [OF True] show ?thesis by simp
  next
    case False
    with Cons.IH show ?thesis by fastforce
  qed
qed simp

lemma by_path_canonical:
  assumes "distinct (map fst xs)" "mset ys = mset xs"
  shows "c_sort by_path ys = c_sort by_path xs"
  using c_sort_pairs_canonical [OF three_way_paths assms(1) _ assms(2) refl] by (simp add: by_path_def [abs_def])

lemma indexedProjectFiles_Cons:
  "indexedProjectFiles fmm [] = []"
  "indexedProjectFiles fmm (f # ids) = (case getStableFileId fmm f of
     None \<Rightarrow> [] | Some sf \<Rightarrow> if isInProject sf then [(sf_path sf, f)] else []) @ indexedProjectFiles fmm ids"
  by (simp_all add: indexedProjectFiles_def List.map_filter_simps split: option.split)

lemma indexedProjectFiles_set:
  "(path, f) \<in> set (indexedProjectFiles fmm ids) \<longleftrightarrow> f \<in> set ids \<and> (\<exists>sf. getStableFileId fmm f = Some sf \<and> isInProject sf \<and> sf_path sf = path)"
proof (induction ids)
  case (Cons g ids)
  then show ?case by (cases "getStableFileId fmm g") (auto simp: indexedProjectFiles_Cons)
qed (simp add: indexedProjectFiles_Cons)

lemma indexedProjectFiles_mset: "mset ids = mset ids' \<Longrightarrow> mset (indexedProjectFiles fmm ids) = mset (indexedProjectFiles fmm ids')"
  unfolding indexedProjectFiles_def List.map_filter_def by simp

lemma indexedProjectFiles_ids: "distinct ids \<Longrightarrow> distinct (map snd (indexedProjectFiles fmm ids))"
proof (induction ids)
  case (Cons f ids)
  have "f \<notin> snd ` set (indexedProjectFiles fmm ids)" using Cons.prems indexedProjectFiles_set [of _ f fmm ids] by auto
  with Cons show ?case by (simp add: indexedProjectFiles_Cons split: option.split)
qed (simp add: indexedProjectFiles_Cons)

text \<open>
  C39: In deterministic mode, writing the shard fails a check when two files to be indexed have the same path in the project. The
  driver does ask a worker for such files: when a header is included twice with different
  expansions, the two inclusions are two files with one path.
\<close>

theorem duplicate_document_fails:
  assumes "permutes_lists (ord_fileIds ord)" "f \<in> set toBeIndexed" "g \<in> set toBeIndexed" "f \<noteq> g"
    and "getStableFileId fmm f = Some sf" "getStableFileId fmm g = Some sg" "isInProject sf" "isInProject sg" "sf_path sf = sf_path sg"
  shows "\<exists>msg. writeIndex ord E True fmm toBeIndexed mx tu out = Inl (EnforceFailed msg)"
proof -
  let ?fs = "indexedProjectFiles fmm (ord_fileIds ord toBeIndexed)"
  have "set (ord_fileIds ord toBeIndexed) = set toBeIndexed" using assms(1) by (metis permutes_lists_def mset_eq_setD)
  then have "(sf_path sf, f) \<in> set ?fs" "(sf_path sf, g) \<in> set ?fs" using assms(2-9) by (auto simp: indexedProjectFiles_set)
  then have "\<not> inj_on fst (set ?fs)" using assms(4) inj_onD [of fst "set ?fs" "(sf_path sf, f)" "(sf_path sf, g)"] by auto
  then have "\<not> distinct (map fst ?fs)" by (auto simp: distinct_map)
  from checked_sort_fails [OF this] show ?thesis by (auto simp: writeIndex_def Let_def)
qed

subsection \<open>Emitting\<close>

text \<open>The entries of a map with strings as keys, in the order of the keys.\<close>

abbreviation by_key :: "(string \<times> 'v) list \<Rightarrow> (string \<times> 'v) list" where
  "by_key m \<equiv> c_sort (\<lambda>p q. cmp_lt cmpStr (fst p) (fst q)) m"

definition named_infos :: "(SymbolNameRef \<times> SymbolInformation) list \<Rightarrow> SymbolInformation list" where
  "named_infos m = map (\<lambda>(s, info). info\<lparr>si_symbol := s\<rparr>) (by_key m)"

lemma fold_emitSymbol: "fold (\<lambda>(k, v). tu_emitSymbol k v) xs out = out @ map (\<lambda>(s, info). info\<lparr>si_symbol := s\<rparr>) xs"
  by (induction xs arbitrary: out) (auto simp: tu_emitSymbol_def)

lemma by_key_canonical: "permutes_lists iter \<Longrightarrow> distinct (map fst m) \<Longrightarrow> by_key (iter m) = by_key m"
  by (rule c_sort_pairs_canonical [OF str.three_way_axioms]) (simp_all add: permutes_lists_def)

lemma emit_infos:
  "permutes_lists iter \<Longrightarrow> distinct (map fst m) \<Longrightarrow> extractTransformMap iter cmpStr m True tu_emitSymbol out = out @ named_infos m"
  by (simp add: extractTransformMap_def by_key_canonical fold_emitSymbol named_infos_def)

text \<open>The message for a forward declaration.\<close>

definition forward_message :: "tu_env \<Rightarrow> SymbolNameRef \<times> ForwardDeclValue \<Rightarrow> ForwardDecl" where
  "forward_message E sv = \<lparr>fd_suffix = the (getPackageAgnosticSuffix (fst sv)), fd_documentation = doc_addTo E (fwd_docComment (snd sv)) [],
     fd_references = map (\<lambda>(path, r). \<lparr>ref_relative_path = rel_value path, ref_range = range_addTo r\<rparr>) (fwd_ranges (snd sv))\<rparr>"

lemma emit_forwards_list:
  "\<forall>(s, v) \<in> set xs. getPackageAgnosticSuffix s \<noteq> None \<Longrightarrow> rfold (\<lambda>(s, v). emitForwardDecl E s v) xs out = Inr (out @ map (forward_message E) xs)"
proof (induction xs arbitrary: out)
  case (Cons x xs)
  obtain s v where x: "x = (s, v)" by (cases x)
  with Cons.prems obtain sfx where "getPackageAgnosticSuffix s = Some sfx" by auto
  with Cons x show ?case by (simp add: emitForwardDecl_def forward_message_def)
qed simp

lemma emit_forwards:
  assumes "permutes_lists iter" "forwards_ok fmm toBe (forwardDeclarations tu)"
  shows "emitForwardDeclarations iter E True tu out = Inr (out @ map (forward_message E) (by_key (forwardDeclarations tu)))"
proof -
  let ?m = "forwardDeclarations tu"
  have f: "(\<lambda>(s, v). lift_step (emitForwardDecl E s) v) = lift_step (\<lambda>(s, v). emitForwardDecl E s v)"
    by (simp add: fun_eq_iff lift_step_def case_prod_unfold)
  have "distinct (map fst ?m)" "\<forall>(s, v) \<in> set (by_key ?m). getPackageAgnosticSuffix s \<noteq> None"
    using assms(2) by (auto simp: forwards_ok_def)
  with by_key_canonical [OF assms(1)] emit_forwards_list [of "by_key ?m" E out] show ?thesis
    by (simp add: emitForwardDeclarations_def fwd_emit_def extractTransformMap_def f fold_lift_step)
qed

text \<open>Macros that are in no file.\<close>

definition other_macros_ok :: "clang_api \<Rightarrow> MacroIndexer \<Rightarrow> bool" where
  "other_macros_ok A mx \<longleftrightarrow> distinct (map (getDefinitionLoc A) (nonFileBasedMacros mx)) \<and>
     (\<forall>m \<in> set (nonFileBasedMacros mx). macro_loc_ok A (getDefinitionLoc A m)) \<and>
     (\<exists>path. \<forall>m \<in> set (nonFileBasedMacros mx). tryGetPath A (getFileID A (getDefinitionLoc A m)) = path)"

definition other_macro_info :: "clang_api \<Rightarrow> FileMetadataMap \<Rightarrow> nat \<Rightarrow> SymbolInformation" where
  "other_macro_info A fmm m = \<lparr>si_symbol = macro_symbol A fmm (getDefinitionLoc A m), si_documentation = [], si_relationships = []\<rparr>"

lemma emit_other_macros_list:
  "macro_cache_ok A fmm F \<Longrightarrow> \<forall>m \<in> set ms. macro_loc_ok A (getDefinitionLoc A m) \<Longrightarrow>
   \<exists>F'. rfold (emitNonFileBasedMacro A) ms (shard, F) = Inr (shard\<lparr>external_symbols := external_symbols shard @ map (other_macro_info A fmm) ms\<rparr>, F')"
proof (induction ms arbitrary: shard F)
  case (Cons m ms)
  then obtain F1 where "getMacroSymbol A (getDefinitionLoc A m) F = Inr (macro_symbol A fmm (getDefinitionLoc A m), F1)" "macro_cache_ok A fmm F1"
    using macro_cache.look_valid by fastforce
  with Cons.IH [of F1 "shard\<lparr>external_symbols := external_symbols shard @ [other_macro_info A fmm m]\<rparr>"] Cons.prems show ?case
    by (auto simp: emitNonFileBasedMacro_def other_macro_info_def)
qed simp

lemma three_way_other_macros:
  assumes "distinct (map (getDefinitionLoc A) ms)"
  shows "three_way (compareNonFileBasedMacros A) (\<lambda>m. m \<in> set ms)"
  by (rule three_way_vimage_on [where p = "getDefinitionLoc A", OF three_way_spaceship])
    (use assms in \<open>simp_all add: compareNonFileBasedMacros_def distinct_map\<close>)

lemma remdups_same:
  assumes "\<forall>x \<in> set xs. x = a"
  shows "length (remdups xs) \<le> 1"
proof -
  have "set xs \<subseteq> {a}" using assms by auto
  then have "card (set xs) \<le> card {a}" by (rule card_mono [rotated]) simp
  then show ?thesis by (simp add: length_remdups_card_conv)
qed

lemma emit_other_macros:
  assumes "permutes_lists iter" "other_macros_ok A mx" "macro_cache_ok A fmm F"
  shows "\<exists>mx' F'. mx_emitExternalSymbols iter A True (mx, shard, F) =
    Inr (mx', shard\<lparr>external_symbols := external_symbols shard @
      map (other_macro_info A fmm) (c_sort (cmp_lt (compareNonFileBasedMacros A)) (nonFileBasedMacros mx))\<rparr>, F')"
proof -
  let ?ms = "nonFileBasedMacros mx"
  have d: "distinct (map (getDefinitionLoc A) ?ms)" using assms(2) by (simp add: other_macros_ok_def)
  then have "distinct ?ms" by (simp add: distinct_map)
  moreover have "mset (iter ?ms) = mset ?ms" using assms(1) by (simp add: permutes_lists_def)
  ultimately have sort: "c_sort (cmp_lt (compareNonFileBasedMacros A)) (iter ?ms) = c_sort (cmp_lt (compareNonFileBasedMacros A)) ?ms"
    using three_way.c_sort_canonical [OF three_way_other_macros [OF d], of ?ms "iter ?ms"] by simp
  obtain path where "\<forall>m \<in> set ?ms. tryGetPath A (getFileID A (getDefinitionLoc A m)) = path" using assms(2) unfolding other_macros_ok_def by blast
  then have "length (remdups (map (\<lambda>m. tryGetPath A (getFileID A (getDefinitionLoc A m))) ?ms)) \<le> 1"
    by (intro remdups_same [of _ path]) simp
  moreover have "\<forall>m \<in> set (c_sort (cmp_lt (compareNonFileBasedMacros A)) ?ms). macro_loc_ok A (getDefinitionLoc A m)"
    using assms(2) by (simp add: other_macros_ok_def)
  note emit_other_macros_list [OF assms(3) this, of shard]
  ultimately show ?thesis by (auto simp: mx_emitExternalSymbols_def Let_def extractTransformSet_def sort fold_lift_step)
qed

subsection \<open>The content of a shard\<close>

definition consumer_orders_ok :: "consumer_orders \<Rightarrow> bool" where
  "consumer_orders_ok ord \<longleftrightarrow> permutes_lists (ord_fileIds ord) \<and> permutes_lists (ord_finished ord) \<and> permutes_lists (ord_paths ord) \<and>
     permutes_lists (ord_hashes ord) \<and> permutes_lists (ord_macros ord) \<and> permutes_lists (ord_otherMacros ord) \<and>
     permutes_lists (ord_infos ord) \<and> permutes_lists (ord_forwards ord)"

definition file_macros :: "MacroIndexer \<Rightarrow> FileID \<Rightarrow> FileLocalMacroOccurrence list" where
  "file_macros mx f = c_sort (cmp_lt compareMacroOccurrences) (hmap_at (mx_table mx) f)"

text \<open>The document of a file: the occurrences of macros first, then those of the syntax tree.\<close>

definition file_document :: "tu_env \<Rightarrow> FileMetadataMap \<Rightarrow> MacroIndexer \<Rightarrow> TuIndexer \<Rightarrow> RootRelativePathRef \<times> FileID \<Rightarrow> Document" where
  "file_document E fmm mx tu file = (case file of (path, f) \<Rightarrow>
     \<lparr>language = ''CPP'', relative_path = rel_value path,
      occurrences = map (macro_occurrence (clang E) (codes E) fmm) (file_macros mx f) @ pd_occurrences (document_at f tu),
      symbols = map (macro_information (clang E) fmm) (filter (\<lambda>m. mo_role m = DefinitionRole) (file_macros mx f)) @
        named_infos (pd_symbolInfos (document_at f tu))\<rparr>)"

definition shard_of :: "tu_env \<Rightarrow> FileMetadataMap \<Rightarrow> FileID list \<Rightarrow> MacroIndexer \<Rightarrow> TuIndexer \<Rightarrow> TuIndexingOutput" where
  "shard_of E fmm toBe mx tu =
     \<lparr>out_docsAndExternals = \<lparr>documents = map (file_document E fmm mx tu) (c_sort by_path (indexedProjectFiles fmm toBe)),
        external_symbols = named_infos (tu_externalSymbols tu) @
          map (other_macro_info (clang E) fmm) (c_sort (cmp_lt (compareNonFileBasedMacros (clang E))) (nonFileBasedMacros mx))\<rparr>,
      out_forwardDecls = map (forward_message E) (by_key (forwardDeclarations tu))\<rparr>"

definition add_documents :: "Document list \<Rightarrow> TuIndexingOutput \<Rightarrow> TuIndexingOutput" where
  "add_documents ds out = out\<lparr>out_docsAndExternals := (out_docsAndExternals out)\<lparr>documents := documents (out_docsAndExternals out) @ ds\<rparr>\<rparr>"

text \<open>What writing a document needs of the indexers and keeps of them.\<close>

definition macros_ok :: "tu_env \<Rightarrow> FileMetadataMap \<Rightarrow> FileID set \<Rightarrow> MacroIndexer \<Rightarrow> SymbolFormatter \<Rightarrow> bool" where
  "macros_ok E fmm fs mx F \<longleftrightarrow> macro_table_ok mx \<and> macro_cache_ok (clang E) fmm F \<and> (\<forall>f \<in> fs. lookup_ok (clang E) mx f)"

lemma emit_document:
  assumes "permutes_lists iter" "documents_ok E toBe (documentMap tu)"
  shows "tu_emitDocumentOccurrencesAndSymbols iter True f tu doc =
    doc\<lparr>occurrences := occurrences doc @ pd_occurrences (document_at f tu), symbols := symbols doc @ named_infos (pd_symbolInfos (document_at f tu))\<rparr>"
proof (cases "map_of (documentMap tu) f")
  case None
  then show ?thesis by (simp add: tu_emitDocumentOccurrencesAndSymbols_def document_at_def empty_document_def named_infos_def)
next
  case (Some pd)
  then have "document_at f tu = pd" by (simp add: document_at_def)
  with document_at_ok [OF assms(2), of f] have "distinct (map fst (pd_symbolInfos pd))" by (simp add: tu_document_ok_def)
  with emit_infos [OF assms(1)] Some show ?thesis by (simp add: tu_emitDocumentOccurrencesAndSymbols_def document_at_def)
qed

lemma writeDocument_spec:
  assumes ord: "consumer_orders_ok ord" and m: "macros_ok E fmm fs mx (tu_symbolFormatter tu)" "f \<in> fs" and docs: "documents_ok E toBe (documentMap tu)"
  shows "\<exists>mx' F'. writeFileDocument ord E True (path, f) (mx, tu, out) =
      Inr (mx', tu\<lparr>tu_symbolFormatter := F'\<rparr>, add_documents [file_document E fmm mx tu (path, f)] out) \<and>
    hmap_at (mx_table mx') = (hmap_at (mx_table mx))(f := []) \<and> nonFileBasedMacros mx' = nonFileBasedMacros mx \<and> macros_ok E fmm fs mx' F'"
proof -
  let ?doc = "\<lparr>language = ''CPP'', relative_path = rel_value path, occurrences = [], symbols = []\<rparr>"
  have o: "permutes_lists (ord_macros ord)" "permutes_lists (ord_infos ord)" using ord by (simp_all add: consumer_orders_ok_def)
  have mx: "macro_table_ok mx" "macro_cache_ok (clang E) fmm (tu_symbolFormatter tu)" "lookup_ok (clang E) mx f" using m by (simp_all add: macros_ok_def)
  from macro_occurrences_emitted [where codes = "codes E" and doc = ?doc, OF mx(1) o(1) mx(2,3) refl] obtain mx' F' where
    emit: "emitDocumentOccurrencesAndSymbols (ord_macros ord) (clang E) (codes E) True f (mx, ?doc, tu_symbolFormatter tu) =
      Inr (mx', ?doc\<lparr>occurrences := map (macro_occurrence (clang E) (codes E) fmm) (file_macros mx f),
        symbols := map (macro_information (clang E) fmm) (filter (\<lambda>m. mo_role m = DefinitionRole) (file_macros mx f))\<rparr>, F')"
    and mx': "hmap_at (mx_table mx') = (hmap_at (mx_table mx))(f := [])" "nonFileBasedMacros mx' = nonFileBasedMacros mx" "macro_table_ok mx'"
      "macro_cache_ok (clang E) fmm F'" by (auto simp: file_macros_def)
  have "documents_ok E toBe (documentMap (tu\<lparr>tu_symbolFormatter := F'\<rparr>))" using docs by simp
  note emit_document [OF o(2) this]
  moreover have "document_at f (tu\<lparr>tu_symbolFormatter := F'\<rparr>) = document_at f tu" by (simp add: document_at_def)
  ultimately have "writeFileDocument ord E True (path, f) (mx, tu, out) =
      Inr (mx', tu\<lparr>tu_symbolFormatter := F'\<rparr>, add_documents [file_document E fmm mx tu (path, f)] out)"
    using emit by (simp add: writeFileDocument_def Let_def add_documents_def file_document_def)
  moreover have "macros_ok E fmm fs mx' F'" using m(1) mx' by (simp add: macros_ok_def lookup_ok_def)
  ultimately show ?thesis using mx'(1,2) by blast
qed

lemma file_document_cong:
  "hmap_at (mx_table mx) f = hmap_at (mx_table mx') f \<Longrightarrow> documentMap tu = documentMap tu' \<Longrightarrow> file_document E fmm mx tu (path, f) = file_document E fmm mx' tu' (path, f)"
  by (simp add: file_document_def file_macros_def document_at_def)

lemma add_documents_simps: "add_documents [] out = out" "add_documents ds' (add_documents ds out) = add_documents (ds @ ds') out"
  by (simp_all add: add_documents_def)

lemma writeDocuments_spec:
  assumes ord: "consumer_orders_ok ord"
  shows "distinct (map snd files) \<Longrightarrow> snd ` set files \<subseteq> fs \<Longrightarrow> macros_ok E fmm fs mx (tu_symbolFormatter tu) \<Longrightarrow> documents_ok E toBe (documentMap tu) \<Longrightarrow>
    \<exists>mx' F'. rfold (writeFileDocument ord E True) files (mx, tu, out) =
      Inr (mx', tu\<lparr>tu_symbolFormatter := F'\<rparr>, add_documents (map (file_document E fmm mx tu) files) out) \<and>
    nonFileBasedMacros mx' = nonFileBasedMacros mx \<and> macro_cache_ok (clang E) fmm F'"
proof (induction files arbitrary: mx tu out)
  case Nil
  then show ?case by (intro exI [of _ mx] exI [of _ "tu_symbolFormatter tu"]) (simp add: add_documents_simps macros_ok_def)
next
  case (Cons pf files)
  obtain path f where pf: "pf = (path, f)" by (cases pf)
  with Cons.prems have f: "f \<in> fs" "f \<notin> snd ` set files" by auto
  from writeDocument_spec [OF ord Cons.prems(3) f(1) Cons.prems(4), of path out] obtain mx1 F1 where
    first: "writeFileDocument ord E True (path, f) (mx, tu, out) = Inr (mx1, tu\<lparr>tu_symbolFormatter := F1\<rparr>, add_documents [file_document E fmm mx tu (path, f)] out)"
      "hmap_at (mx_table mx1) = (hmap_at (mx_table mx))(f := [])" "nonFileBasedMacros mx1 = nonFileBasedMacros mx" "macros_ok E fmm fs mx1 F1" by blast
  define tu1 where "tu1 = tu\<lparr>tu_symbolFormatter := F1\<rparr>"
  have tu1: "macros_ok E fmm fs mx1 (tu_symbolFormatter tu1)" "documents_ok E toBe (documentMap tu1)" "documentMap tu1 = documentMap tu"
    using first(4) Cons.prems(4) by (simp_all add: tu1_def)
  have rest_same: "map (file_document E fmm mx1 tu1) files = map (file_document E fmm mx tu) files"
  proof (rule map_cong [OF refl])
    fix x assume x: "x \<in> set files"
    obtain p g where pg: "x = (p, g)" by (cases x)
    with x f(2) have "g \<noteq> f" by force
    with first(2) have "hmap_at (mx_table mx1) g = hmap_at (mx_table mx) g" by simp
    from file_document_cong [OF this tu1(3)] pg show "file_document E fmm mx1 tu1 x = file_document E fmm mx tu x" by simp
  qed
  have "distinct (map snd files)" "snd ` set files \<subseteq> fs" using Cons.prems(1,2) by auto
  from Cons.IH [OF this tu1(1,2), of "add_documents [file_document E fmm mx tu (path, f)] out"] obtain mx' F' where
    "rfold (writeFileDocument ord E True) files (mx1, tu1, add_documents [file_document E fmm mx tu (path, f)] out) =
       Inr (mx', tu1\<lparr>tu_symbolFormatter := F'\<rparr>, add_documents (file_document E fmm mx tu (path, f) # map (file_document E fmm mx tu) files) out)"
    "nonFileBasedMacros mx' = nonFileBasedMacros mx1" "macro_cache_ok (clang E) fmm F'" unfolding rest_same add_documents_simps by auto
  with first(1,3) show ?case by (auto simp: pf tu1_def)
qed

text \<open>Writing the index of a translation unit gives the shard, whatever the orders of the hash tables.\<close>

lemma writeIndex_shard:
  assumes ord: "consumer_orders_ok ord" and tu: "tu_ok E U fmm toBe tu" and ids: "distinct toBe" "distinct (map fst (indexedProjectFiles fmm toBe))"
    and m: "macros_ok E fmm (set toBe) mx (tu_symbolFormatter tu)" "other_macros_ok (clang E) mx"
  shows "writeIndex ord E True fmm toBe mx tu mkTuIndexingOutput = Inr (shard_of E fmm toBe mx tu)"
proof -
  let ?files = "indexedProjectFiles fmm (ord_fileIds ord toBe)" and ?sorted = "c_sort by_path (indexedProjectFiles fmm toBe)"
  have o: "permutes_lists (ord_fileIds ord)" "permutes_lists (ord_infos ord)" "permutes_lists (ord_forwards ord)" "permutes_lists (ord_otherMacros ord)"
    using ord by (simp_all add: consumer_orders_ok_def)
  have docs: "documents_ok E toBe (documentMap tu)" "distinct (map fst (tu_externalSymbols tu))" "forwards_ok fmm toBe (forwardDeclarations tu)"
    using tu by (simp_all add: tu_ok_def tu_externals_ok_def)
  have perm: "mset ?files = mset (indexedProjectFiles fmm toBe)" using o(1) by (intro indexedProjectFiles_mset) (simp add: permutes_lists_def)
  then have "mset (map fst ?files) = mset (map fst (indexedProjectFiles fmm toBe))" by simp
  then have "distinct (map fst ?files)" using ids(2) by (metis mset_eq_imp_distinct_iff)
  from checked_sort_ok [OF this] have sorted: "checked_sort comparePaths ?files = Inr ?sorted"
    unfolding by_path_canonical [OF ids(2) perm] .
  have "mset (map snd ?sorted) = mset (map snd (indexedProjectFiles fmm toBe))" by simp
  then have "distinct (map snd ?sorted)" using indexedProjectFiles_ids [OF ids(1)] by (metis mset_eq_imp_distinct_iff)
  moreover have "snd ` set ?sorted \<subseteq> set toBe" by (auto simp: indexedProjectFiles_set)
  ultimately obtain mx' F' where
    written: "rfold (writeFileDocument ord E True) ?sorted (mx, tu, mkTuIndexingOutput) =
        Inr (mx', tu\<lparr>tu_symbolFormatter := F'\<rparr>, add_documents (map (file_document E fmm mx tu) ?sorted) mkTuIndexingOutput)"
      "nonFileBasedMacros mx' = nonFileBasedMacros mx" "macro_cache_ok (clang E) fmm F'"
    using writeDocuments_spec [OF ord _ _ m(1) docs(1), of ?sorted mkTuIndexingOutput] by blast
  define tu1 where "tu1 = tu\<lparr>tu_symbolFormatter := F'\<rparr>"
  define shard where "shard = \<lparr>documents = map (file_document E fmm mx tu) ?sorted, external_symbols = named_infos (tu_externalSymbols tu)\<rparr>"
  have "other_macros_ok (clang E) mx'" using m(2) written(2) by (simp add: other_macros_ok_def)
  from emit_other_macros [OF o(4) this written(3), of shard] obtain mx'' F'' where
    "mx_emitExternalSymbols (ord_otherMacros ord) (clang E) True (mx', shard, F') = Inr (mx'', shard\<lparr>external_symbols := external_symbols shard @
      map (other_macro_info (clang E) fmm) (c_sort (cmp_lt (compareNonFileBasedMacros (clang E))) (nonFileBasedMacros mx))\<rparr>, F'')"
    unfolding written(2) by blast
  moreover have "tu_emitExternalSymbols (ord_infos ord) True tu1 (out_docsAndExternals (add_documents (map (file_document E fmm mx tu) ?sorted) mkTuIndexingOutput)) = shard"
    using emit_infos [OF o(2) docs(2)] by (simp add: tu_emitExternalSymbols_def tu1_def add_documents_def mkTuIndexingOutput_def shard_def)
  moreover have "emitForwardDeclarations (ord_forwards ord) E True tu1 [] = Inr (map (forward_message E) (by_key (forwardDeclarations tu)))"
    using emit_forwards [OF o(3), of fmm toBe tu1 E "[]"] docs(3) by (simp add: tu1_def)
  moreover have "out_forwardDecls (add_documents ds mkTuIndexingOutput) = []" "tu_symbolFormatter tu1 = F'" for ds
    by (simp_all add: add_documents_def mkTuIndexingOutput_def tu1_def)
  ultimately show ?thesis using sorted written(1)
    by (simp add: writeIndex_def Let_def tu1_def [symmetric] shard_of_def) (simp add: shard_def)
qed

subsection \<open>Includes\<close>

lemma getFileSymbol_returns: "\<exists>s F'. getFileSymbol md F = Inr (s, F') \<and> F' = F\<lparr>fileSymbolCache := fileSymbolCache F'\<rparr>"
  by (cases "map_of (fileSymbolCache F) (stableFileId md)") (simp_all add: getFileSymbol_def formatSymbol_def)

lemma file_symbol_ok:
  assumes "tu_ok E U fmm toBe tu" "getFileSymbol md (tu_symbolFormatter tu) = Inr (s, F)"
  shows "tu_ok E U fmm toBe (tu\<lparr>tu_symbolFormatter := F\<rparr>) \<and> tu_grows tu (tu\<lparr>tu_symbolFormatter := F\<rparr>)"
proof -
  have F: "F = (tu_symbolFormatter tu)\<lparr>fileSymbolCache := fileSymbolCache F\<rparr>"
    using getFileSymbol_returns [of md "tu_symbolFormatter tu"] assms(2) by auto
  have same: "symbols_ok A w fmm U (G\<lparr>fileSymbolCache := c\<rparr>) = symbols_ok A w fmm U G" "adds UNIV G (G\<lparr>fileSymbolCache := c\<rparr>)" for A w G c
    by (simp_all add: symbols_ok_def adds_def locals_ok_def local_entries_def)
  have "symbols_ok (clang E) (te_wyhash E) fmm U F" using assms(1) same(1) F by (metis tu_ok_def)
  moreover have "adds UNIV (tu_symbolFormatter tu) F" using same(2) F by metis
  ultimately show ?thesis using tu_formatter [OF assms(1)] by blast
qed

text \<open>What is used of Clang about a file: where it starts, and the places of its includes.\<close>

definition file_start_ok :: "tu_env \<Rightarrow> FileID list \<Rightarrow> FileID \<Rightarrow> bool" where
  "file_start_ok E toBe f \<longleftrightarrow>
     (if 0 < MeasureTokenLength E (getLocForStartOfFile E f) then loc_ok E toBe (getLocForStartOfFile E f)
      else getPresumedLoc (clang E) (getLocForStartOfFile E f) True \<noteq> None)"

definition includes_ok :: "clang_api \<Rightarrow> MacroIndexer \<Rightarrow> FileID \<Rightarrow> bool" where
  "includes_ok A mx f \<longleftrightarrow> (\<forall>(r, p) \<in> set (hmap_at (includeRanges mx) f). range_ok A r)"

lemma save_ok_file:
  assumes "file_start_ok E toBe f" "f \<in> set toBe"
  shows "save_ok E U fmm toBe (saveSyntheticFileDefinition E f md)"
  unfolding save_ok_def
proof (intro allI impI)
  fix tu assume tu: "tu_ok E U fmm toBe tu"
  let ?l = "getLocForStartOfFile E f"
  obtain s F where s: "getFileSymbol md (tu_symbolFormatter tu) = Inr (s, F)" using getFileSymbol_returns by blast
  define tu1 where "tu1 = tu\<lparr>tu_symbolFormatter := F\<rparr>"
  have tu1: "tu_ok E U fmm toBe tu1" "tu_grows tu tu1" using file_symbol_ok [OF tu s] by (simp_all add: tu1_def)
  define info where "info = Some (empty_info\<lparr>si_documentation := [''File: '' @ rel_value (sf_path (stableFileId md))]\<rparr>)"
  show "\<exists>tu'. saveSyntheticFileDefinition E f md tu = Inr tu' \<and> tu_ok E U fmm toBe tu' \<and> tu_grows tu tu'"
  proof (cases "isSynthetic (stableFileId md) \<or> \<not> isInProject (stableFileId md)")
    case True
    with tu tu_grows_refl show ?thesis by (auto simp: saveSyntheticFileDefinition_def Let_def)
  next
    case False
    show ?thesis
    proof (cases "0 < MeasureTokenLength E ?l")
      case True
      then have run: "saveSyntheticFileDefinition E f md tu = saveDefinition E s ?l info 0 tu1"
        using False s by (simp add: saveSyntheticFileDefinition_def Let_def tu1_def info_def)
      have "loc_ok E toBe ?l" using assms(1) True by (simp add: file_start_ok_def)
      from save_okD [OF save_ok_definition [OF this] tu1(1)] obtain tu' where
        "saveDefinition E s ?l info 0 tu1 = Inr tu'" "tu_ok E U fmm toBe tu'" "tu_grows tu1 tu'" by blast
      with run tu_grows_trans [OF tu1(2)] show ?thesis by auto
    next
      case no_token: False
      then obtain pl where "getPresumedLoc (clang E) ?l True = Some pl" using assms(1) by (auto simp: file_start_ok_def)
      then obtain r where "makeEmpty (clang E) ?l = Inr r" by (simp add: makeEmpty_def presumed_def)
      with False no_token s have "saveSyntheticFileDefinition E f md tu = Inr (saveOccurrenceImpl s r f (role_Definition (codes E)) tu1)"
        by (simp add: saveSyntheticFileDefinition_def Let_def tu1_def)
      with saveOccurrenceImpl_ok [OF tu1(1) assms(2)] tu_grows_trans [OF tu1(2)] show ?thesis by blast
    qed
  qed
qed

lemma save_ok_include:
  assumes "range_ok (clang E) r"
  shows "save_ok E U fmm toBe (saveInclude E r md)"
  unfolding save_ok_def
proof (intro allI impI)
  fix tu assume tu: "tu_ok E U fmm toBe tu"
  let ?f = "getFileID (clang E) (fst r)"
  obtain s F where s: "getFileSymbol md (tu_symbolFormatter tu) = Inr (s, F)" using getFileSymbol_returns by blast
  define tu1 where "tu1 = tu\<lparr>tu_symbolFormatter := F\<rparr>"
  have tu1: "tu_ok E U fmm toBe tu1" "tu_grows tu tu1" "fileIdsToBeIndexed tu1 = toBe"
    using file_symbol_ok [OF tu s] tu by (simp_all add: tu1_def tu_ok_def)
  have run: "saveInclude E r md tu = (if isSynthetic (stableFileId md) then Inr tu
      else if ?f \<in> set toBe then Inr (saveOccurrenceImpl s (the_range (clang E) r) ?f 0 tu1) else Inr tu1)"
    using s tu1(3) fromNonEmpty_ok [OF assms] by (simp add: saveInclude_def Let_def tu1_def)
  show "\<exists>tu'. saveInclude E r md tu = Inr tu' \<and> tu_ok E U fmm toBe tu' \<and> tu_grows tu tu'"
  proof (cases "isSynthetic (stableFileId md)")
    case True
    with run tu tu_grows_refl show ?thesis by auto
  next
    case False
    show ?thesis
    proof (cases "?f \<in> set toBe")
      case True
      with False run have "saveInclude E r md tu = Inr (saveOccurrenceImpl s (the_range (clang E) r) ?f 0 tu1)" by simp
      with saveOccurrenceImpl_ok [OF tu1(1) True] tu_grows_trans [OF tu1(2)] show ?thesis by blast
    next
      case other: False
      with False run have "saveInclude E r md tu = Inr tu1" by simp
      with tu1 show ?thesis by blast
    qed
  qed
qed

text \<open>Every file of the identifier map has metadata.\<close>

definition metadata_for :: "ClangIdLookupMap \<Rightarrow> FileMetadataMap \<Rightarrow> bool" where
  "metadata_for m fmm \<longleftrightarrow> (\<forall>f \<in> set (ids_of m). getFileMetadata fmm f \<noteq> None)"

lemma lookupAny_ok:
  assumes "permutes_lists ord" "idmap_ok m" "metadata_for m fmm"
  shows "\<exists>opt. lookupAnyFileId ord m p = Inr opt \<and> (\<forall>f. opt = Some f \<longrightarrow> getFileMetadata fmm f \<noteq> None)"
proof (cases "map_of m p")
  case (Some hs)
  then have hs: "(p, hs) \<in> set m" by (rule map_of_SomeD)
  with assms(2) have "hs \<noteq> []" by (auto simp: idmap_ok_def)
  moreover have perm: "mset (ord hs) = mset hs" using assms(1) by (simp add: permutes_lists_def)
  ultimately obtain h f rest where o: "ord hs = (h, f) # rest" by (cases "ord hs") auto
  then have "(h, f) \<in> set hs" using mset_eq_setD [OF perm] by auto
  with hs have "f \<in> set (ids_of m)" by (force simp: ids_of_def)
  with assms(3) Some o show ?thesis by (simp add: lookupAnyFileId_def metadata_for_def)
qed (simp add: lookupAnyFileId_def)

lemma save_ok_includes:
  assumes "consumer_orders_ok ord" "idmap_ok m" "metadata_for m fmm"
    and files: "\<forall>f \<in> set toBe. file_start_ok E toBe f \<and> includes_ok (clang E) mx f"
  shows "save_ok E U fmm toBe (saveIncludeReferences ord E toBe mx m fmm)"
  unfolding saveIncludeReferences_def
proof (rule save_ok_fold, rule save_ok_bind)
  have perm: "permutes_lists (ord_fileIds ord)" "permutes_lists (ord_hashes ord)" using assms(1) by (simp_all add: consumer_orders_ok_def)
  fix f assume "f \<in> set (ord_fileIds ord toBe)"
  then have f: "f \<in> set toBe" using perm(1) by (metis permutes_lists_def mset_eq_setD)
  show "save_ok E U fmm toBe (\<lambda>tu. case getFileMetadata fmm f of None \<Rightarrow> Inr tu | Some md \<Rightarrow> saveSyntheticFileDefinition E f md tu)"
    using f files save_ok_file save_ok_skip' by (cases "getFileMetadata fmm f") auto
  have one: "save_ok E U fmm toBe (saveIncludeReference ord E m fmm r p)" if "range_ok (clang E) r" for r p
  proof -
    obtain opt where "lookupAnyFileId (ord_hashes ord) m p = Inr opt" "\<forall>f. opt = Some f \<longrightarrow> getFileMetadata fmm f \<noteq> None"
      using lookupAny_ok [OF perm(2) assms(2,3)] by blast
    then show ?thesis using save_ok_include [OF that] save_ok_skip'
      by (cases opt) (auto simp: saveIncludeReference_def [abs_def] split: option.split)
  qed
  have "\<forall>(r, p) \<in> set (hmap_at (includeRanges mx) f). range_ok (clang E) r" using f files by (simp add: includes_ok_def)
  then show "save_ok E U fmm toBe (forEachIncludeInFile mx f (saveIncludeReference ord E m fmm))"
    using one save_ok_skip by (cases "map_of (includeRanges mx) f") (auto simp: forEachIncludeInFile_def hmap_at_def intro!: save_ok_fold)
qed

subsection \<open>The whole translation unit\<close>

text \<open>
  C21: Which files of a translation unit are indexed. Whatever the orders of the hash tables, no check fails; the
  files are the main file, if it has an absolute path, and those with a path and hash value for which the
  driver has asked; and every file of the identifier map has metadata with its own path, its nearest package and
  a stable path that is relative, not empty, and synthetic only below \<^verbatim>\<open><external>\<close>.
\<close>

theorem files_to_be_indexed:
  assumes L: "posix_paths (fs_paths fs)" "canonical_paths (fs_paths fs)" "fresh_map (fs_paths fs) pm" "is_absolute (fs_paths fs) (root_value projectRoot)"
    and ord: "consumer_orders_ok ord" and m: "idmap_ok m" "idmap_files_ok (fs_paths fs) pm projectRoot buildRoot m"
    and main: "fid_isValid (getMainFileID A)" "\<forall>p. abs_path A (fs_paths fs) (getMainFileID A) = Some p \<longrightarrow> file_path_ok (fs_paths fs) pm projectRoot buildRoot p"
  shows "\<exists>fmm ids. computeFileIdsToBeIndexed fs ord A files m (mkFileMetadataMap projectRoot buildRoot pm, []) = Inr (fmm, ids) \<and> distinct ids \<and>
    set ids = {f. f = getMainFileID A \<and> abs_path A (fs_paths fs) f \<noteq> None} \<union> {f. \<exists>info \<in> set files. idmap_lookup m (fi_path info) (fi_hashValue info) = Some f} \<and>
    (\<forall>p h f. idmap_lookup m p h = Some f \<longrightarrow>
       (\<exists>md. getFileMetadata fmm f = Some md \<and> originalPath md = p \<and> packageInfo md = package_spec (fs_paths fs) pm p \<and> metadata_ok (fs_paths fs) md)) \<and>
    (abs_path A (fs_paths fs) (getMainFileID A) \<noteq> None \<longrightarrow> getFileMetadata fmm (getMainFileID A) \<noteq> None)"
proof -
  let ?L = "fs_paths fs" and ?main = "getMainFileID A"
  define wanted where "wanted = (\<lambda>ids. fold (\<lambda>info ids. case idmap_lookup m (fi_path info) (fi_hashValue info) of
      None \<Rightarrow> ids | Some f \<Rightarrow> hset_insert f ids) files ids)"
  have wanted: "set (wanted ids) = set ids \<union> {f. \<exists>info \<in> set files. idmap_lookup m (fi_path info) (fi_hashValue info) = Some f}"
    "distinct (wanted ids) = distinct ids" for ids
    unfolding wanted_def by (induction files arbitrary: ids) (auto split: option.splits)
  from file_metadata_complete [OF L(1-4) _ _ m, of "ord_paths ord" "ord_hashes ord" "fs_realPath fs" "fs_hashText fs"] ord
  obtain fmm where fmm: "populateMetadata ?L (fs_realPath fs) (fs_hashText fs) (ord_paths ord) (ord_hashes ord) m (mkFileMetadataMap projectRoot buildRoot pm) = Inr fmm"
    "metadata_map_ok ?L pm fmm" "fm_projectRootPath fmm = projectRoot" "fm_buildRootPath fmm = buildRoot"
    "\<forall>p h f. idmap_lookup m p h = Some f \<longrightarrow> (\<exists>md. getFileMetadata fmm f = Some md \<and> getStableFileId fmm f = Some (stableFileId md) \<and>
       originalPath md = p \<and> packageInfo md = package_spec ?L pm p \<and> metadata_ok ?L md)" unfolding consumer_orders_ok_def by blast
  have metadata: "\<forall>p h f. idmap_lookup m p h = Some f \<longrightarrow>
      (\<exists>md. getFileMetadata fmm f = Some md \<and> originalPath md = p \<and> packageInfo md = package_spec ?L pm p \<and> metadata_ok ?L md)"
    using fmm(5) by blast
  show ?thesis
  proof (cases "abs_path A ?L ?main")
    case None
    then have "computeFileIdsToBeIndexed fs ord A files m (mkFileMetadataMap projectRoot buildRoot pm, []) = Inr (fmm, wanted [])"
      using fmm(1) by (simp add: computeFileIdsToBeIndexed_def Let_def abs_path_def wanted_def)
    moreover have "set (wanted []) = {f. f = ?main \<and> abs_path A ?L f \<noteq> None} \<union> {f. \<exists>info \<in> set files. idmap_lookup m (fi_path info) (fi_hashValue info) = Some f}"
      using None wanted(1) by auto
    moreover have "distinct (wanted [])" using wanted(2) by simp
    ultimately show ?thesis using None metadata by blast
  next
    case (Some p)
    then have "file_path_ok ?L pm (fm_projectRootPath fmm) (fm_buildRootPath fmm) p" using main(2) fmm(3,4) by simp
    from insertMetadata_stores [OF fmm(2) this main(1), of "fs_realPath fs" "fs_hashText fs"] obtain r md where
      r: "insertMetadata ?L (fs_realPath fs) (fs_hashText fs) ?main p fmm = Inr r" "fm_map (snd r) = hmap_emplace ?main md (fm_map fmm)"
      by (auto simp: stores_def)
    have kept: "getFileMetadata (snd r) f = Some md'" if "getFileMetadata fmm f = Some md'" for f md' using that r(2) by (auto simp: getFileMetadata_def)
    have "computeFileIdsToBeIndexed fs ord A files m (mkFileMetadataMap projectRoot buildRoot pm, []) = Inr (snd r, wanted [?main])"
      using Some r(1) fmm(1) by (cases r) (simp add: computeFileIdsToBeIndexed_def Let_def abs_path_def wanted_def hset_insert_def)
    moreover have "getFileMetadata (snd r) ?main \<noteq> None" by (simp add: getFileMetadata_def r(2))
    moreover have "set (wanted [?main]) = {f. f = ?main \<and> abs_path A ?L f \<noteq> None} \<union> {f. \<exists>info \<in> set files. idmap_lookup m (fi_path info) (fi_hashValue info) = Some f}"
      using Some wanted(1) by auto
    moreover have "distinct (wanted [?main])" using wanted(2) by simp
    moreover have "\<forall>p h f. idmap_lookup m p h = Some f \<longrightarrow>
        (\<exists>md. getFileMetadata (snd r) f = Some md \<and> originalPath md = p \<and> packageInfo md = package_spec ?L pm p \<and> metadata_ok ?L md)"
      using metadata kept by meson
    ultimately show ?thesis by blast
  qed
qed

lemma computed_ids_distinct:
  assumes "computeFileIdsToBeIndexed fs ord A files m (fmm0, []) = Inr (fmm, ids)"
  shows "distinct ids"
proof -
  have "distinct (fold (\<lambda>info ids. case idmap_lookup m (fi_path info) (fi_hashValue info) of
      None \<Rightarrow> ids | Some f \<Rightarrow> hset_insert f ids) files ids) = distinct ids" for ids
    by (induction files arbitrary: ids) (auto split: option.splits)
  with assms show ?thesis by (auto simp: computeFileIdsToBeIndexed_def rbind_eq_Inr Let_def split: option.splits)
qed

lemma shard_indexed:
  assumes ord: "consumer_orders_ok ord" and det: "aco_deterministic opts"
    and ids: "computeFileIdsToBeIndexed fs ord (clang E) files m (mkFileMetadataMap (aco_projectRootPath opts) (aco_buildRootPath opts) (aco_packageMap opts), []) = Inr (fmm, ids)"
      "toBe = hset_insert (getMainFileID (clang E)) ids" "distinct (map fst (indexedProjectFiles fmm toBe))"
    and m: "idmap_ok m" "metadata_for m fmm"
    and mx: "macro_table_ok mx" "other_macros_ok (clang E) mx"
    and files: "\<forall>f \<in> set toBe. file_start_ok E toBe f \<and> includes_ok (clang E) mx f \<and> lookup_ok (clang E) mx f"
    and tree: "tree_laws E U fmm" "\<forall>n \<in> set nodes. node_ok E U fmm toBe n"
  shows "\<exists>tu. rbind (saveIncludeReferences ord E toBe mx m fmm (mkTuIndexer toBe (mkSymbolFormatter fmm) fmm)) (traverseAST E nodes) = Inr tu \<and>
    indexTranslationUnit fs ord E opts nodes files m mx mkTuIndexingOutput = Inr (fm_packageMap fmm, shard_of E fmm toBe mx tu)"
proof -
  let ?tu0 = "mkTuIndexer toBe (mkSymbolFormatter fmm) fmm"
  have "save_ok E U fmm toBe (saveIncludeReferences ord E toBe mx m fmm)" using save_ok_includes [OF ord m] files by blast
  from save_okD [OF this tu_ok_fresh] obtain tu1 where tu1: "saveIncludeReferences ord E toBe mx m fmm ?tu0 = Inr tu1" "tu_ok E U fmm toBe tu1" "tu_grows ?tu0 tu1" by blast
  have "save_ok E U fmm toBe (traverseAST E nodes)"
    unfolding traverseAST_def using tree(2) by (intro save_ok_fold visit_ok [OF tree(1)]) blast
  from save_okD [OF this tu1(2)] obtain tu where tu: "traverseAST E nodes tu1 = Inr tu" "tu_ok E U fmm toBe tu" "tu_grows tu1 tu" by blast
  have "locationBasedCache (tu_symbolFormatter tu) = []"
    using tu_grows_trans [OF tu1(3) tu(3)] by (simp add: tu_grows_def adds_def mkTuIndexer_def mkSymbolFormatter_def)
  moreover have "sfm_fileMetadataMap (tu_symbolFormatter tu) = fmm" using tu(2) by (simp add: tu_ok_def symbols_ok_def)
  ultimately have "macros_ok E fmm (set toBe) mx (tu_symbolFormatter tu)" using mx(1) files by (simp add: macros_ok_def macro_cache_ok_def)
  moreover have "distinct toBe" using computed_ids_distinct [OF ids(1)] ids(2) by simp
  ultimately have "writeIndex ord E True fmm toBe mx tu mkTuIndexingOutput = Inr (shard_of E fmm toBe mx tu)"
    using writeIndex_shard [OF ord tu(2) _ ids(3) _ mx(2)] by blast
  then have "indexTranslationUnit fs ord E opts nodes files m mx mkTuIndexingOutput = Inr (fm_packageMap fmm, shard_of E fmm toBe mx tu)"
    using ids(1) det tu1(1) tu(1) by (simp add: indexTranslationUnit_def Let_def ids(2) [symmetric])
  with tu1(1) tu(1) show ?thesis by auto
qed


subsection \<open>Examples\<close>

definition sample_fs :: file_system where
  "sample_fs = \<lparr>fs_paths = slash_paths, fs_realPath = (\<lambda>p. None), fs_hashText = (\<lambda>p. 5)\<rparr>"

definition sample_consumer_orders :: consumer_orders where
  "sample_consumer_orders = \<lparr>ord_fileIds = rev, ord_finished = rev, ord_paths = rev, ord_hashes = rev, ord_macros = rev, ord_otherMacros = rev,
     ord_infos = rev, ord_forwards = rev\<rparr>"

lemma sample_consumer_orders_ok: "consumer_orders_ok sample_consumer_orders"
  by (simp add: consumer_orders_ok_def sample_consumer_orders_def permutes_lists_def)

definition sample_twice :: FileMetadataMap where
  "sample_twice = sample_project\<lparr>fm_map := map (\<lambda>f. (f, snd (hd (fm_map sample_project)))) [FileID 2, FileID 3]\<rparr>"

theorem duplicate_document_fails_witness:
  "\<exists>msg. writeIndex sample_consumer_orders sample_env True sample_twice [FileID 2, FileID 3] mkMacroIndexer
     (mkTuIndexer [FileID 2, FileID 3] (mkSymbolFormatter sample_twice) sample_twice) mkTuIndexingOutput = Inl (EnforceFailed msg)"
proof -
  let ?sf = "\<lparr>sf_path = \<lparr>rel_value = ''a.cc'', rel_kind = Project\<rparr>, isInProject = True, isSynthetic = False\<rparr>"
  have st: "getStableFileId sample_twice (FileID 2) = Some ?sf" "getStableFileId sample_twice (FileID 3) = Some ?sf"
    by (simp_all add: getStableFileId_def sample_twice_def sample_project_def)
  have "permutes_lists (ord_fileIds sample_consumer_orders)" using sample_consumer_orders_ok by (simp add: consumer_orders_ok_def)
  from duplicate_document_fails [OF this _ _ _ st] show ?thesis by simp
qed

theorem files_to_be_indexed_witness:
  "\<exists>fmm ids. computeFileIdsToBeIndexed sample_fs sample_consumer_orders sample_source [\<lparr>fi_path = ''/p/lib/a.h'', fi_hashValue = 9\<rparr>] sample_ids
      (mkFileMetadataMap sample_root sample_build sample_packages, []) = Inr (fmm, ids) \<and> set ids = {FileID 1, FileID 3} \<and> getFileMetadata fmm (FileID 2) \<noteq> None"
proof -
  have L: "fs_paths sample_fs = slash_paths" by (simp add: sample_fs_def)
  have main: "getMainFileID sample_source = FileID 1" "fid_isValid (FileID 1)" "abs_path sample_source slash_paths (FileID 1) = Some ''/p/a.cc''"
    by (simp_all add: sample_source_def sample_macros_def sample_clang_def fid_isValid_def abs_path_def tryFrom_def slash_paths_def starts_with_def)
  have path: "file_path_ok slash_paths sample_packages sample_root sample_build ''/p/a.cc''"
  proof -
    have "canonical slash_paths p = p" for p by (simp add: canonical_def normalize_def) (simp add: slash_paths_def)
    then have "package_spec slash_paths sample_packages ''/p/a.cc'' = Some (sample_package ''main'' ''/p'' True)"
      by (simp add: package_spec_def sample_packages_def package_of_def path_prefixes_def path_prefix_def tryFrom_def slash_paths_def starts_with_def)
    then show ?thesis by (simp add: file_path_ok_def fileName_def) (simp add: slash_paths_def starts_with_def sample_package_def)
  qed
  have paths: "\<forall>p. abs_path sample_source slash_paths (FileID 1) = Some p \<longrightarrow> file_path_ok slash_paths sample_packages sample_root sample_build p"
    using path main(3) by simp
  obtain fmm ids where run: "computeFileIdsToBeIndexed sample_fs sample_consumer_orders sample_source [\<lparr>fi_path = ''/p/lib/a.h'', fi_hashValue = 9\<rparr>] sample_ids
      (mkFileMetadataMap sample_root sample_build sample_packages, []) = Inr (fmm, ids)"
    "set ids = {f. f = FileID 1 \<and> abs_path sample_source slash_paths f \<noteq> None} \<union>
       {f. \<exists>info \<in> set [\<lparr>fi_path = ''/p/lib/a.h'', fi_hashValue = 9\<rparr>]. idmap_lookup sample_ids (fi_path info) (fi_hashValue info) = Some f}"
    "\<forall>p h f. idmap_lookup sample_ids p h = Some f \<longrightarrow> (\<exists>md. getFileMetadata fmm f = Some md \<and> originalPath md = p \<and>
       packageInfo md = package_spec slash_paths sample_packages p \<and> metadata_ok slash_paths md)"
    using files_to_be_indexed [where fs = sample_fs and A = sample_source, unfolded L main(1), OF posix_slash_paths canonical_slash_paths sample_packages_fresh
        sample_consumer_orders_ok sample_ids_ok main(2) paths, where files = "[\<lparr>fi_path = ''/p/lib/a.h'', fi_hashValue = 9\<rparr>]"] by blast
  have look: "idmap_lookup sample_ids ''/p/lib/a.h'' 9 = Some (FileID 3)" "idmap_lookup sample_ids ''/p/lib/a.h'' 7 = Some (FileID 2)"
    by (simp_all add: idmap_lookup_def sample_ids_def)
  have "{f. f = FileID 1 \<and> abs_path sample_source slash_paths f \<noteq> None} = {FileID 1}" using main(3) by auto
  then have "set ids = {FileID 1, FileID 3}" unfolding run(2) using look(1) by auto
  moreover have "getFileMetadata fmm (FileID 2) \<noteq> None" using run(3) look(2) by blast
  ultimately show ?thesis using run(1) by blast
qed

definition sample_consumer :: "unit IndexerAstConsumerOptions" where
  "sample_consumer = \<lparr>aco_projectRootPath = sample_root, aco_buildRootPath = sample_build, getEmitIndexDetails = (\<lambda>r w. Inr (True, wellBehavedFiles r, w)),
     aco_deterministic = True, aco_packageMap = no_packages\<rparr>"

definition sample_entered :: IndexerPreprocessorWrapper where
  "sample_entered = mkPreprocessorWrapper\<lparr>pp_stack := [Some \<lparr>hashValueBuilder = \<lparr>runningHash = 0, history = None\<rparr>, hib_fileId = FileID 1\<rparr>]\<rparr>"

abbreviation sample_popts :: IndexerPreprocessorOptions where
  "sample_popts \<equiv> \<lparr>opt_recorder = None, opt_deterministic = True\<rparr>"

lemma sample_flush:
  "flushState sample_source slash_paths (\<lambda>t s. 7) sample_popts rev rev rev default_SemaResult [] sample_entered =
    Inr (\<lparr>wellBehavedFiles = [\<lparr>fi_path = ''/p/a.cc'', fi_hashValue = 0\<rparr>], illBehavedFiles = []\<rparr>, [(''/p/a.cc'', [(0, FileID 1)])], mkMacroIndexer)"
proof -
  have "getMainFileID sample_source = FileID 1" "tryGetRealPathName sample_source (FileID 1) = Some ''/p/a.cc''" "tryFrom slash_paths ''/p/a.cc'' = Some ''/p/a.cc''"
    by (simp_all add: sample_source_def sample_macros_def sample_clang_def tryFrom_def slash_paths_def starts_with_def)
  then show ?thesis
    by (simp add: flushState_def exitFile_def exitFileImpl_def tryPopValid_def isTopValid_def writeHistory_def fid_isValid_def sample_entered_def mkPreprocessorWrapper_def
        saveFinished_def getAbsPath_def idmap_insert_def forEachPathAndHash_def reportPath_def sortResult_def default_SemaResult_def hmap_emplace_def Let_def)
qed

lemma sample_computed:
  "computeFileIdsToBeIndexed sample_fs sample_consumer_orders sample_source [\<lparr>fi_path = ''/p/a.cc'', fi_hashValue = 0\<rparr>] [(''/p/a.cc'', [(0, FileID 1)])]
     (mkFileMetadataMap sample_root sample_build no_packages, []) = Inr (sample_project, [FileID 1])"
proof -
  have main: "getMainFileID sample_source = FileID 1" "tryGetRealPathName sample_source (FileID 1) = Some ''/p/a.cc''"
    by (simp_all add: sample_source_def sample_macros_def sample_clang_def)
  have rel: "makeRelative ''/b'' ''/p/a.cc'' = None" "makeRelative ''/p'' ''/p/a.cc'' = Some ''a.cc''"
    by (simp_all add: makeRelative_def starts_with_def)
  have insert: "insertMetadata slash_paths r h f ''/p/a.cc'' (mkFileMetadataMap sample_root sample_build no_packages\<lparr>fm_map := ms\<rparr>) =
      Inr (emplaceMetadata f (snd (hd (fm_map sample_project))) (mkFileMetadataMap sample_root sample_build no_packages\<lparr>fm_map := ms\<rparr>))"
    if "fid_isValid f" for r h f ms
    using that rel by (simp add: insertMetadata_def lookupPackage_def no_packages_def mkFileMetadataMap_def insertWithoutPackage_def tryMakeRelative_def
        insertInProject_def insertRelPath_def mkRootRelativePathRef_def sample_project_def) (simp add: slash_paths_def starts_with_def)
  note first = insert [of _ _ _ "[]"] and second = insert [of _ _ _ "[(FileID 1, snd (hd (fm_map sample_project)))]"]
  show ?thesis
    using main first second
    by (simp add: computeFileIdsToBeIndexed_def sample_fs_def sample_consumer_orders_def populateMetadata_def forEachPathAndHash_def idmap_lookup_def
        mkFileMetadataMap_def fid_isValid_def emplaceMetadata_def hmap_emplace_def tryFrom_def slash_paths_def starts_with_def sample_project_def Let_def hset_insert_def)
qed

lemma sample_shard_premises:
  "[FileID 1] = hset_insert (getMainFileID (clang sample_env)) [FileID 1]"
  "distinct (map fst (indexedProjectFiles sample_project [FileID 1]))"
  "idmap_ok [(''/p/a.cc'', [(0, FileID 1)])]" "metadata_for [(''/p/a.cc'', [(0, FileID 1)])] sample_project"
  "macro_table_ok mkMacroIndexer" "other_macros_ok (clang sample_env) mkMacroIndexer"
  "\<forall>f \<in> set [FileID 1]. file_start_ok sample_env [FileID 1] f \<and> includes_ok (clang sample_env) mkMacroIndexer f \<and> lookup_ok (clang sample_env) mkMacroIndexer f"
proof -
  have files: "indexedProjectFiles sample_project [FileID 1] = [(\<lparr>rel_value = ''a.cc'', rel_kind = Project\<rparr>, FileID 1)]"
    by (simp add: indexedProjectFiles_Cons getStableFileId_def sample_project_def)
  have toBe: "[FileID 1] = hset_insert (getMainFileID (clang sample_env)) [FileID 1]"
    by (simp add: hset_insert_def) (simp add: sample_source_def sample_macros_def sample_clang_def)
  have m: "idmap_ok [(''/p/a.cc'', [(0, FileID 1)])]" "metadata_for [(''/p/a.cc'', [(0, FileID 1)])] sample_project"
    by (simp_all add: idmap_ok_def ids_of_def metadata_for_def getFileMetadata_def sample_project_def)
  have mx: "macro_table_ok mkMacroIndexer" "other_macros_ok (clang sample_env) mkMacroIndexer"
    by (simp_all add: macro_table_ok_def other_macros_ok_def mkMacroIndexer_def)
  have start: "getLocForStartOfFile sample_env f = 1" for f by (simp add: sample_env_def)
  have per_file: "\<forall>f \<in> set [FileID 1]. file_start_ok sample_env [FileID 1] f \<and> includes_ok (clang sample_env) mkMacroIndexer f \<and> lookup_ok (clang sample_env) mkMacroIndexer f"
    using sample_tokens [of 1] by (simp add: file_start_ok_def start loc_ok_def includes_ok_def lookup_ok_def mkMacroIndexer_def hmap_at_def)
  have paths: "distinct (map fst (indexedProjectFiles sample_project [FileID 1]))" unfolding files by simp
  show "[FileID 1] = hset_insert (getMainFileID (clang sample_env)) [FileID 1]" by (rule toBe)
  show "distinct (map fst (indexedProjectFiles sample_project [FileID 1]))" by (rule paths)
  show "idmap_ok [(''/p/a.cc'', [(0, FileID 1)])]" "metadata_for [(''/p/a.cc'', [(0, FileID 1)])] sample_project" by (rule m)+
  show "macro_table_ok mkMacroIndexer" "other_macros_ok (clang sample_env) mkMacroIndexer" by (rule mx)+
  show "\<forall>f \<in> set [FileID 1]. file_start_ok sample_env [FileID 1] f \<and> includes_ok (clang sample_env) mkMacroIndexer f \<and> lookup_ok (clang sample_env) mkMacroIndexer f"
    by (rule per_file)
qed


end
