(* ===== verification/Json_Queue.thy ===== *)
theory Json_Queue
  imports Ipc_Messages
begin

text \<open>
  The queues between the driver and its workers (indexer/JsonIpcQueue.h, indexer/JsonIpcQueue.cc): messages are
  JSON values, written as text into message queues of Boost, which are shared between processes and known by
  their names. The state of all queues of the system is a value of type \<open>'s\<close>, the operations of
  Boost on it are the record \<open>queue_api\<close>, and what their documentation says of a queue that is used by
  two processes is \<open>queue_laws\<close>: messages of one priority come out in the order in which they were put in.
\<close>

subsection \<open>What is used of Boost\<close>

text \<open>
  A failed \<^verbatim>\<open>send\<close> tells whether the message was too long; a receive that runs into its time limit
  may leave any number in its last argument.
\<close>

record 's queue_api =
  bq_create :: "string \<Rightarrow> nat \<Rightarrow> nat \<Rightarrow> 's \<Rightarrow> 's option"
  bq_exists :: "string \<Rightarrow> 's \<Rightarrow> bool"
  bq_send :: "string \<Rightarrow> string \<Rightarrow> 's \<Rightarrow> bool option \<times> 's"
  bq_timed_receive :: "string \<Rightarrow> nat \<Rightarrow> 64 word \<Rightarrow> 's \<Rightarrow> (nat + string) \<times> 's"
  get_num_msg :: "string \<Rightarrow> 's \<Rightarrow> nat"
  get_max_msg :: "string \<Rightarrow> 's \<Rightarrow> nat"
  get_max_msg_size :: "string \<Rightarrow> 's \<Rightarrow> nat"
  bq_remove :: "string \<Rightarrow> 's \<Rightarrow> 's"

definition queue_laws :: "'s queue_api \<Rightarrow> (string \<Rightarrow> 's \<Rightarrow> string list) \<Rightarrow> bool" where
  "queue_laws Q contents \<longleftrightarrow>
     (\<forall>n s. get_num_msg Q n s = length (contents n s)) \<and>
     (\<forall>n m s. bq_exists Q n s \<and> length m \<le> get_max_msg_size Q n s \<and> length (contents n s) < get_max_msg Q n s \<longrightarrow>
        (\<exists>s'. bq_send Q n m s = (None, s') \<and> contents n s' = contents n s @ [m] \<and> bq_exists Q n s' \<and>
           get_max_msg Q n s' = get_max_msg Q n s \<and> get_max_msg_size Q n s' = get_max_msg_size Q n s)) \<and>
     (\<forall>n m ms size t s. bq_exists Q n s \<and> contents n s = m # ms \<and> get_max_msg_size Q n s \<le> size \<longrightarrow>
        (\<exists>s'. bq_timed_receive Q n size t s = (Inr m, s') \<and> contents n s' = ms \<and> bq_exists Q n s' \<and>
           get_max_msg Q n s' = get_max_msg Q n s \<and> get_max_msg_size Q n s' = get_max_msg_size Q n s))"

text \<open>What is done with one queue leaves another one as it is.\<close>

definition same_queue :: "'s queue_api \<Rightarrow> (string \<Rightarrow> 's \<Rightarrow> string list) \<Rightarrow> string \<Rightarrow> 's \<Rightarrow> 's \<Rightarrow> bool" where
  "same_queue Q contents n s s' \<longleftrightarrow> contents n s' = contents n s \<and> bq_exists Q n s' = bq_exists Q n s \<and>
     get_max_msg Q n s' = get_max_msg Q n s \<and> get_max_msg_size Q n s' = get_max_msg_size Q n s"

definition queues_apart :: "'s queue_api \<Rightarrow> (string \<Rightarrow> 's \<Rightarrow> string list) \<Rightarrow> bool" where
  "queues_apart Q contents \<longleftrightarrow> (\<forall>n n' s. n \<noteq> n' \<longrightarrow>
     (\<forall>m. same_queue Q contents n' s (snd (bq_send Q n m s))) \<and> (\<forall>size t. same_queue Q contents n' s (snd (bq_timed_receive Q n size t s))))"

subsection \<open>State\<close>

datatype QueueInit = CreateOnly | OpenOnly

record JsonIpcQueue =
  jq_name :: string
  jq_queueInit :: QueueInit
  scratchBuffer :: string
  prevRecvCount :: nat

definition nul_bytes :: "nat \<Rightarrow> string" where
  "nul_bytes n = replicate n (CHR 0x00)"

text \<open>No queue stands for the exception of Boost.\<close>

definition queue_create :: "'s queue_api \<Rightarrow> string \<Rightarrow> nat \<Rightarrow> nat \<Rightarrow> 's \<Rightarrow> (JsonIpcQueue \<times> 's) option" where
  "queue_create Q name maxMsgCount maxMsgSize s =
     (case bq_create Q name maxMsgCount maxMsgSize s of
        None \<Rightarrow> None
      | Some s1 \<Rightarrow> Some (\<lparr>jq_name = name, jq_queueInit = CreateOnly, scratchBuffer = nul_bytes (get_max_msg_size Q name s1), prevRecvCount = 0\<rparr>, s1))"

definition queue_open :: "'s queue_api \<Rightarrow> string \<Rightarrow> 's \<Rightarrow> JsonIpcQueue option" where
  "queue_open Q name s =
     (if bq_exists Q name s
      then Some \<lparr>jq_name = name, jq_queueInit = OpenOnly, scratchBuffer = nul_bytes (get_max_msg_size Q name s), prevRecvCount = 0\<rparr>
      else None)"

definition queue_destroy :: "'s queue_api \<Rightarrow> JsonIpcQueue \<Rightarrow> 's \<Rightarrow> 's" where
  "queue_destroy Q jq s = (case jq_queueInit jq of OpenOnly \<Rightarrow> s | CreateOnly \<Rightarrow> bq_remove Q (jq_name jq) s)"

record MessageQueuePair =
  mqp_driverToWorker :: JsonIpcQueue
  mqp_workerToDriver :: JsonIpcQueue

definition forWorker :: "'s queue_api \<Rightarrow> string \<Rightarrow> WorkerId \<Rightarrow> 's \<Rightarrow> MessageQueuePair option" where
  "forWorker Q driverId workerId s =
     (case queue_open Q (driverToWorkerQueueName driverId workerId) s of
        None \<Rightarrow> None
      | Some d2w \<Rightarrow>
         (case queue_open Q (workerToDriverQueueName driverId) s of
            None \<Rightarrow> None
          | Some w2d \<Rightarrow> Some \<lparr>mqp_driverToWorker = d2w, mqp_workerToDriver = w2d\<rparr>))"

subsection \<open>Sending and receiving\<close>

text \<open>The result of \<^verbatim>\<open>sendValue\<close> is the exception, if there is one. \<open>format\<close> writes a value as text.\<close>

definition sendValue :: "'s queue_api \<Rightarrow> ('j \<Rightarrow> string) \<Rightarrow> JsonIpcQueue \<Rightarrow> 'j \<Rightarrow> 's \<Rightarrow> (bool option \<times> 's) result" where
  "sendValue Q format jq jsonValue s =
     (let buffer = format jsonValue
      in case bq_send Q (jq_name jq) buffer s of
           (None, s1) \<Rightarrow> Inr (None, s1)
         | (Some sizeError, s1) \<Rightarrow>
             enforcing (sizeError \<longrightarrow> 25 < length buffer) ''buffer.size() > 25'' (Inr (Some sizeError, s1)))"

datatype 'a received = ReceiveTimeout | Malformed | Received 'a

text \<open>The part of the buffer that the last message has filled is cleared first. \<open>parse\<close> reads a value from text.\<close>

definition receiveValue ::
  "'s queue_api \<Rightarrow> (string \<Rightarrow> 'j option) \<Rightarrow> 64 word \<Rightarrow> JsonIpcQueue \<Rightarrow> 's \<Rightarrow> 'j received \<times> JsonIpcQueue \<times> 's" where
  "receiveValue Q parse waitMillis jq s =
     (let buf = nul_bytes (prevRecvCount jq) @ drop (prevRecvCount jq) (scratchBuffer jq)
      in case bq_timed_receive Q (jq_name jq) (length buf) waitMillis s of
           (Inl recvCount, s1) \<Rightarrow> (ReceiveTimeout, jq\<lparr>scratchBuffer := buf, prevRecvCount := recvCount\<rparr>, s1)
         | (Inr message, s1) \<Rightarrow>
             let buf1 = message @ drop (length message) buf; n = length message
             in (case parse (take n buf1) of None \<Rightarrow> Malformed | Some v \<Rightarrow> Received v,
                 jq\<lparr>scratchBuffer := buf1, prevRecvCount := n\<rparr>, s1))"

definition timedReceive ::
  "'s queue_api \<Rightarrow> (string \<Rightarrow> 'j option) \<Rightarrow> ('j \<Rightarrow> 'a option) \<Rightarrow> int \<Rightarrow> JsonIpcQueue \<Rightarrow> 's \<Rightarrow> 'a received \<times> JsonIpcQueue \<times> 's" where
  "timedReceive Q parse fromJSON waitDuration jq s =
     (case receiveValue Q parse (word_of_int (1000 * waitDuration)) jq s of
        (ReceiveTimeout, jq1, s1) \<Rightarrow> (ReceiveTimeout, jq1, s1)
      | (Malformed, jq1, s1) \<Rightarrow> (Malformed, jq1, s1)
      | (Received v, jq1, s1) \<Rightarrow> (case fromJSON v of None \<Rightarrow> Malformed | Some t \<Rightarrow> Received t, jq1, s1))"

definition tryReceiveInstant ::
  "'s queue_api \<Rightarrow> (string \<Rightarrow> 'j option) \<Rightarrow> ('j \<Rightarrow> 'a option) \<Rightarrow> JsonIpcQueue \<Rightarrow> 's \<Rightarrow> ('a option \<times> JsonIpcQueue \<times> 's) result" where
  "tryReceiveInstant Q parse fromJSON jq s =
     (if get_num_msg Q (jq_name jq) s = 0 then Inr (None, jq, s)
      else case timedReceive Q parse fromJSON 0 jq s of
             (Received t, jq1, s1) \<Rightarrow> Inr (Some t, jq1, s1)
           | _ \<Rightarrow> Inl (EnforceFailed ''!recvError''))"

subsection \<open>Messages arrive\<close>

text \<open>Two ends of one queue, and what fits into it.\<close>

definition queue_ok :: "'s queue_api \<Rightarrow> (string \<Rightarrow> 's \<Rightarrow> string list) \<Rightarrow> string \<Rightarrow> JsonIpcQueue \<Rightarrow> 's \<Rightarrow> bool" where
  "queue_ok Q contents n jq s \<longleftrightarrow> bq_exists Q n s \<and> jq_name jq = n \<and> length (scratchBuffer jq) = get_max_msg_size Q n s \<and>
     prevRecvCount jq \<le> length (scratchBuffer jq) \<and> (\<forall>m \<in> set (contents n s). length m \<le> get_max_msg_size Q n s)"

lemma send_appends:
  assumes "queue_laws Q contents" "bq_exists Q (jq_name jq) s" "length (format v) \<le> get_max_msg_size Q (jq_name jq) s"
    "length (contents (jq_name jq) s) < get_max_msg Q (jq_name jq) s"
  shows "\<exists>s'. sendValue Q format jq v s = Inr (None, s') \<and> contents (jq_name jq) s' = contents (jq_name jq) s @ [format v] \<and>
    bq_exists Q (jq_name jq) s' \<and> get_max_msg Q (jq_name jq) s' = get_max_msg Q (jq_name jq) s \<and>
    get_max_msg_size Q (jq_name jq) s' = get_max_msg_size Q (jq_name jq) s"
  using assms unfolding queue_laws_def sendValue_def Let_def by fastforce

fun sendAll :: "'s queue_api \<Rightarrow> ('j \<Rightarrow> string) \<Rightarrow> JsonIpcQueue \<Rightarrow> 'j list \<Rightarrow> 's \<Rightarrow> 's result" where
  "sendAll Q format jq [] s = Inr s"
| "sendAll Q format jq (v # vs) s = rbind (sendValue Q format jq v s) (\<lambda>(err, s1). sendAll Q format jq vs s1)"

fun receiveAll :: "'s queue_api \<Rightarrow> (string \<Rightarrow> 'j option) \<Rightarrow> ('j \<Rightarrow> 'a option) \<Rightarrow> nat \<Rightarrow> int \<Rightarrow> JsonIpcQueue \<Rightarrow> 's \<Rightarrow> 'a received list" where
  "receiveAll Q parse fromJSON 0 t jq s = []"
| "receiveAll Q parse fromJSON (Suc n) t jq s =
     (case timedReceive Q parse fromJSON t jq s of (r, jq1, s1) \<Rightarrow> r # receiveAll Q parse fromJSON n t jq1 s1)"

lemma sendAll_appends:
  assumes "queue_laws Q contents"
  shows "bq_exists Q (jq_name jq) s \<Longrightarrow> \<forall>v \<in> set vs. length (format v) \<le> get_max_msg_size Q (jq_name jq) s \<Longrightarrow>
    length (contents (jq_name jq) s) + length vs \<le> get_max_msg Q (jq_name jq) s \<Longrightarrow>
    \<exists>s'. sendAll Q format jq vs s = Inr s' \<and> contents (jq_name jq) s' = contents (jq_name jq) s @ map format vs \<and> bq_exists Q (jq_name jq) s' \<and>
      get_max_msg_size Q (jq_name jq) s' = get_max_msg_size Q (jq_name jq) s"
proof (induction vs arbitrary: s)
  case (Cons v vs)
  then have v: "length (format v) \<le> get_max_msg_size Q (jq_name jq) s" "length (contents (jq_name jq) s) < get_max_msg Q (jq_name jq) s" by auto
  from send_appends [where Q = Q and contents = contents and jq = jq and s = s and v = v and format = format, OF assms Cons.prems(1) v] obtain s1 where
    s1: "sendValue Q format jq v s = Inr (None, s1)" "contents (jq_name jq) s1 = contents (jq_name jq) s @ [format v]" "bq_exists Q (jq_name jq) s1"
      "get_max_msg Q (jq_name jq) s1 = get_max_msg Q (jq_name jq) s" "get_max_msg_size Q (jq_name jq) s1 = get_max_msg_size Q (jq_name jq) s" by blast
  from Cons.IH [OF s1(3)] Cons.prems s1 show ?case by auto
qed simp

lemma receive_first:
  assumes "queue_laws Q contents" "queue_ok Q contents n jq s" "contents n s = m # ms"
  shows "\<exists>s' jq'. receiveValue Q parse t jq s = (case parse m of None \<Rightarrow> Malformed | Some v \<Rightarrow> Received v, jq', s') \<and>
    queue_ok Q contents n jq' s' \<and> contents n s' = ms"
proof -
  let ?buf = "nul_bytes (prevRecvCount jq) @ drop (prevRecvCount jq) (scratchBuffer jq)"
  have jq: "bq_exists Q n s" "jq_name jq = n" "length ?buf = get_max_msg_size Q n s" "length m \<le> get_max_msg_size Q n s"
    using assms(2,3) by (simp_all add: queue_ok_def nul_bytes_def)
  then obtain s' where s': "bq_timed_receive Q n (length ?buf) t s = (Inr m, s')" "contents n s' = ms" "bq_exists Q n s'"
      "get_max_msg_size Q n s' = get_max_msg_size Q n s"
    using assms(1,3) unfolding queue_laws_def by (metis order_refl)
  define jq' where "jq' = jq\<lparr>scratchBuffer := m @ drop (length m) ?buf, prevRecvCount := length m\<rparr>"
  have "receiveValue Q parse t jq s = (case parse m of None \<Rightarrow> Malformed | Some v \<Rightarrow> Received v, jq', s')"
    using s'(1) jq(2) by (simp add: receiveValue_def Let_def jq'_def)
  moreover have "length (m @ drop (length m) ?buf) = get_max_msg_size Q n s" using jq(3,4) by (simp only: length_append length_drop)
  then have "queue_ok Q contents n jq' s'" using assms(2,3) s'(2-4) jq(2,4) unfolding queue_ok_def jq'_def by (simp del: length_append length_drop)
  ultimately show ?thesis using s'(2) by blast
qed

lemma receiveAll_decodes:
  assumes laws: "queue_laws Q contents"
  shows "\<forall>v \<in> set vs. parse (format v) = Some v \<Longrightarrow> queue_ok Q contents n jq s \<Longrightarrow> contents n s = map format vs \<Longrightarrow>
    receiveAll Q parse fromJSON (length vs) t jq s = map (\<lambda>v. case fromJSON v of None \<Rightarrow> Malformed | Some x \<Rightarrow> Received x) vs"
proof (induction vs arbitrary: jq s)
  case (Cons v vs)
  then have "contents n s = format v # map format vs" by simp
  from receive_first [OF laws Cons.prems(2) this, of parse "word_of_int (1000 * t)"] obtain s' jq' where
    "receiveValue Q parse (word_of_int (1000 * t)) jq s = (Received v, jq', s')" "queue_ok Q contents n jq' s'" "contents n s' = map format vs"
    using Cons.prems(1) by auto
  with Cons.IH Cons.prems(1) show ?case by (simp add: timedReceive_def split: option.split)
qed simp

definition as_received :: "IndexJobRequest \<Rightarrow> IndexJobRequest" where
  "as_received r = r\<lparr>req_job := (case job_kind (req_job r) of
     SemanticAnalysis \<Rightarrow> default_IndexJob\<lparr>job_kind := SemanticAnalysis, job_command := (job_command (req_job r))\<lparr>index := POISON_INDEX\<rparr>\<rparr>
   | EmitIndex \<Rightarrow> default_IndexJob\<lparr>job_kind := EmitIndex, job_filesToBeIndexed := job_filesToBeIndexed (req_job r)\<rparr>)\<rparr>"

text \<open>
  C22: What the driver sends reaches the worker. When the messages fit into an empty queue, sending raises no
  error, and receiving as often gives the requests in the order in which they were sent, with their
  identifiers, their kinds and the payload of that kind.
\<close>

theorem requests_reach_worker:
  assumes laws: "queue_laws Q contents" "json_laws J" "\<forall>r \<in> set rs. parse (format (toJSON_IndexJobRequest J r)) = Some (toJSON_IndexJobRequest J r)"
    and jq: "queue_create Q name maxMsgCount maxMsgSize s0 = Some (sender, s)" "queue_open Q name s = Some receiver" "contents name s = []"
    and fits: "length rs \<le> get_max_msg Q name s" "\<forall>r \<in> set rs. length (format (toJSON_IndexJobRequest J r)) \<le> get_max_msg_size Q name s"
  shows "\<exists>s'. sendAll Q format sender (map (toJSON_IndexJobRequest J) rs) s = Inr s' \<and>
    receiveAll Q parse (fromJSON_IndexJobRequest J) (length rs) t receiver s' = map (\<lambda>r. Received (as_received r)) rs"
proof -
  let ?vs = "map (toJSON_IndexJobRequest J) rs"
  have s: "jq_name sender = name" using jq(1) by (auto simp: queue_create_def split: option.splits)
  have r: "bq_exists Q name s" "jq_name receiver = name" "length (scratchBuffer receiver) = get_max_msg_size Q name s" "prevRecvCount receiver = 0"
    using jq(2) by (auto simp: queue_open_def nul_bytes_def split: if_splits)
  have "\<forall>v \<in> set ?vs. length (format v) \<le> get_max_msg_size Q name s" using fits(2) by auto
  with sendAll_appends [OF laws(1), of sender s ?vs format] r(1) fits(1) jq(3) obtain s' where
    s': "sendAll Q format sender ?vs s = Inr s'" "contents name s' = map format ?vs" "bq_exists Q name s'"
      "get_max_msg_size Q name s' = get_max_msg_size Q name s" unfolding s by auto
  have "queue_ok Q contents name receiver s'" using r s' fits(2) by (auto simp: queue_ok_def)
  moreover have "\<forall>v \<in> set ?vs. parse (format v) = Some v" using laws(3) by auto
  ultimately show ?thesis using receiveAll_decodes [OF laws(1), of ?vs parse format name receiver s' "fromJSON_IndexJobRequest J" t] s'(1,2) by (auto simp: request_roundtrip [OF laws(2)] as_received_def)
qed

text \<open>Queues that are kept as lists.\<close>

definition plain_queues :: "(string \<rightharpoonup> nat \<times> nat \<times> string list) queue_api" where
  "plain_queues =
     \<lparr>bq_create = (\<lambda>n c k s. if s n = None then Some (s(n \<mapsto> (c, k, []))) else None),
      bq_exists = (\<lambda>n s. s n \<noteq> None),
      bq_send = (\<lambda>n m s. case s n of None \<Rightarrow> (Some False, s)
        | Some (c, k, ms) \<Rightarrow> if k < length m then (Some True, s) else (None, s(n \<mapsto> (c, k, ms @ [m])))),
      bq_timed_receive = (\<lambda>n size t s. case s n of None \<Rightarrow> (Inl 0, s)
        | Some (c, k, []) \<Rightarrow> (Inl 0, s) | Some (c, k, m # ms) \<Rightarrow> (Inr m, s(n \<mapsto> (c, k, ms)))),
      get_num_msg = (\<lambda>n s. case s n of None \<Rightarrow> 0 | Some (c, k, ms) \<Rightarrow> length ms),
      get_max_msg = (\<lambda>n s. case s n of None \<Rightarrow> 0 | Some (c, k, ms) \<Rightarrow> c),
      get_max_msg_size = (\<lambda>n s. case s n of None \<Rightarrow> 0 | Some (c, k, ms) \<Rightarrow> k),
      bq_remove = (\<lambda>n s. s(n := None))\<rparr>"

definition plain_contents :: "string \<Rightarrow> (string \<rightharpoonup> nat \<times> nat \<times> string list) \<Rightarrow> string list" where
  "plain_contents n s = (case s n of None \<Rightarrow> [] | Some (c, k, ms) \<Rightarrow> ms)"

lemma plain_queue_laws: "queue_laws plain_queues plain_contents"
  by (auto simp: queue_laws_def plain_queues_def plain_contents_def split: option.splits)

lemma plain_queues_apart: "queues_apart plain_queues plain_contents"
  by (auto simp: queues_apart_def same_queue_def plain_queues_def plain_contents_def split: option.splits list.splits)

definition two_requests :: "IndexJobRequest list" where
  "two_requests = [sample_request, sample_request\<lparr>req_id := Shutdown\<rparr>]"

definition sample_format :: "json_value \<Rightarrow> string" where
  "sample_format v = (if v = toJSON_IndexJobRequest plain_json sample_request then ''{1}'' else ''{2}'')"

definition sample_parse :: "string \<Rightarrow> json_value option" where
  "sample_parse s = (if s = ''{1}'' then Some (toJSON_IndexJobRequest plain_json sample_request)
     else if s = ''{2}'' then Some (toJSON_IndexJobRequest plain_json (sample_request\<lparr>req_id := Shutdown\<rparr>)) else None)"

theorem requests_reach_worker_witness:
  "\<exists>sender receiver s s'. queue_create plain_queues ''q'' 2 100 Map.empty = Some (sender, s) \<and> queue_open plain_queues ''q'' s = Some receiver \<and>
     sendAll plain_queues sample_format sender (map (toJSON_IndexJobRequest plain_json) two_requests) s = Inr s' \<and>
     receiveAll plain_queues sample_parse (fromJSON_IndexJobRequest plain_json) 2 5 receiver s' = map (\<lambda>r. Received (as_received r)) two_requests"
proof -
  let ?s = "[''q'' \<mapsto> (2, 100, [])] :: string \<rightharpoonup> nat \<times> nat \<times> string list"
  let ?q = "\<lambda>i. \<lparr>jq_name = ''q'', jq_queueInit = i, scratchBuffer = nul_bytes 100, prevRecvCount = 0\<rparr>"
  have create: "queue_create plain_queues ''q'' 2 100 Map.empty = Some (?q CreateOnly, ?s)" "queue_open plain_queues ''q'' ?s = Some (?q OpenOnly)"
    "plain_contents ''q'' ?s = []" by (simp_all add: queue_create_def queue_open_def plain_queues_def plain_contents_def)
  have "toJSON_IndexJobRequest plain_json (sample_request\<lparr>req_id := Shutdown\<rparr>) \<noteq> toJSON_IndexJobRequest plain_json sample_request"
    using request_roundtrip [OF json_laws_plain, of sample_request] request_roundtrip [OF json_laws_plain, of "sample_request\<lparr>req_id := Shutdown\<rparr>"]
    by (auto simp: sample_request_def Shutdown_def SHUTDOWN_VALUE_def)
  then have parse: "\<forall>r \<in> set two_requests. sample_parse (sample_format (toJSON_IndexJobRequest plain_json r)) = Some (toJSON_IndexJobRequest plain_json r)"
    by (auto simp: two_requests_def sample_format_def sample_parse_def)
  have len: "length two_requests = 2" "get_max_msg plain_queues ''q'' ?s = 2" "get_max_msg_size plain_queues ''q'' ?s = 100" "length (sample_format v) \<le> 100" for v
    by (simp_all add: two_requests_def plain_queues_def sample_format_def)
  obtain s' where "sendAll plain_queues sample_format (?q CreateOnly) (map (toJSON_IndexJobRequest plain_json) two_requests) ?s = Inr s'"
    "receiveAll plain_queues sample_parse (fromJSON_IndexJobRequest plain_json) (length two_requests) 5 (?q OpenOnly) s' = map (\<lambda>r. Received (as_received r)) two_requests"
    using requests_reach_worker [where Q = plain_queues and contents = plain_contents and J = plain_json and rs = two_requests and parse = sample_parse and
        format = sample_format and name = "''q''" and maxMsgCount = 2 and maxMsgSize = 100 and ?s0.0 = Map.empty and s = ?s and t = 5,
        OF plain_queue_laws json_laws_plain parse create] len by auto
  then show ?thesis using len(1) create(1,2) by auto
qed

end
