(* ===== verification/Worker.thy ===== *)
theory Worker
  imports Shard_Correct Json_Queue Compilation_Database Driver_Options
begin

text \<open>
  A worker (indexer/Worker.h, indexer/Worker.cc): it takes requests from its queue, or in the mode for developers the commands of
  a compilation database, has Clang run on them, and writes the shards. While Clang is running, the
  callback given to the AST consumer sends the result of the semantic analysis to the driver and waits for the request
  that says which files to index.

  What comes from outside is the record \<open>worker_env\<close>: the queues, with the other processes as part
  of their state; the JSON values; the file system; the hash tables; what Clang makes of a command line; and the
  value of a status variable without an initialiser.
\<close>

subsection \<open>Options\<close>

record IpcOptions =
  ipc_sizeHintBytes :: nat
  ipc_receiveTimeout :: int
  ipc_driverId :: string
  ipc_workerId :: "64 word"

record WorkerCliOptions = CliOptions +
  cli_workerMode :: string
  cli_measureStatistics :: bool
  cli_preprocessorHistoryLogPath :: string
  cli_driverId :: string
  cli_workerId :: "64 word"

definition ipcOptions :: "WorkerCliOptions \<Rightarrow> IpcOptions" where
  "ipcOptions cli = \<lparr>ipc_sizeHintBytes = cli_ipcSizeHintBytes cli, ipc_receiveTimeout = cli_receiveTimeout cli,
     ipc_driverId = cli_driverId cli, ipc_workerId = cli_workerId cli\<rparr>"

record PreprocessorHistoryRecordingOptions =
  filterRegex :: string
  preprocessorHistoryLogPath :: string
  preferRelativePaths :: bool
  rec_rootPath :: string

datatype WorkerMode = Ipc | Compdb | Testing

record WorkerOptions =
  wo_projectRootPath :: RootPath
  wo_mode :: WorkerMode
  wo_ipcOptions :: IpcOptions
  wo_compdbPath :: string
  wo_indexOutputPath :: string
  wo_statsFilePath :: string
  wo_packageMapPath :: string
  wo_showCompilerDiagnostics :: bool
  wo_showProgress :: bool
  wo_logLevel :: string
  wo_deterministic :: bool
  wo_measureStatistics :: bool
  wo_recordingOptions :: PreprocessorHistoryRecordingOptions
  wo_temporaryOutputDir :: string
  wo_workerFault :: string

text \<open>\<open>garbage\<close> is what the options for the queues are where they are not set.\<close>

definition workerOptions :: "llvm_path \<Rightarrow> string \<Rightarrow> IpcOptions \<Rightarrow> WorkerCliOptions \<Rightarrow> WorkerOptions result" where
  "workerOptions L current garbage cli =
     rbind (mkAbsolutePath L current) (\<lambda>cwd.
       let base = \<lparr>wo_projectRootPath = \<lparr>root_value = cwd, root_kind = Project\<rparr>, wo_mode = Testing, wo_ipcOptions = garbage,
             wo_compdbPath = [], wo_indexOutputPath = [], wo_statsFilePath = [], wo_packageMapPath = cli_packageMapPath cli,
             wo_showCompilerDiagnostics = cli_showCompilerDiagnostics cli, wo_showProgress = cli_showProgress cli,
             wo_logLevel = cli_logLevel cli, wo_deterministic = cli_deterministic cli, wo_measureStatistics = cli_measureStatistics cli,
             wo_recordingOptions = \<lparr>filterRegex = cli_preprocessorRecordHistoryFilterRegex cli,
               preprocessorHistoryLogPath = cli_preprocessorHistoryLogPath cli, preferRelativePaths = False, rec_rootPath = []\<rparr>,
             wo_temporaryOutputDir = cli_temporaryOutputDir cli, wo_workerFault = cli_workerFault cli\<rparr>
       in if cli_workerMode cli = ''ipc'' then Inr (base\<lparr>wo_mode := Ipc, wo_ipcOptions := ipcOptions cli\<rparr>)
          else if cli_workerMode cli = ''compdb''
          then Inr (base\<lparr>wo_mode := Compdb, wo_compdbPath := cli_compdbPath cli, wo_indexOutputPath := cli_indexOutputPath cli,
                 wo_statsFilePath := cli_statsFilePath cli\<rparr>)
          else enforcing (cli_workerMode cli = ''testing'') ''cliOptions.workerMode == testing'' (Inr base))"

subsection \<open>What Clang does\<close>

text \<open>
  For each translation unit that it parses, Clang makes a frontend action, reports what the preprocessor meets, and then the
  syntax tree.
\<close>

datatype pp_event =
    FileChangedEvent SourceLocation FileChangeReason FileID
  | MacroUsedEvent Token MacroDefinition
  | MacroDefinedEvent Token "nat option option"
  | InclusionEvent "SourceLocation \<times> SourceLocation" "string option"

fun pp_handle :: "tu_env \<Rightarrow> llvm_path \<Rightarrow> IndexerPreprocessorOptions \<Rightarrow> pp_event \<Rightarrow> IndexerPreprocessorWrapper \<Rightarrow> IndexerPreprocessorWrapper result" where
  "pp_handle E L opts (FileChangedEvent loc reason f) pp = FileChanged (clang E) (te_wyhash E) opts loc reason f pp"
| "pp_handle E L opts (MacroUsedEvent tok m) pp = MacroUsed (clang E) tok m pp"
| "pp_handle E L opts (MacroDefinedEvent tok d) pp = MacroDefined (clang E) tok d pp"
| "pp_handle E L opts (InclusionEvent r entry) pp = Inr (InclusionDirective (clang E) L r entry pp)"

record ParsedUnit =
  pu_env :: tu_env
  pu_events :: "pp_event list"
  pu_nodes :: "AstNode list"

definition preprocessed :: "llvm_path \<Rightarrow> IndexerPreprocessorOptions \<Rightarrow> ParsedUnit \<Rightarrow> IndexerPreprocessorWrapper result" where
  "preprocessed L popts u = rfold (pp_handle (pu_env u) L popts) (pu_events u) mkPreprocessorWrapper"

definition runFrontendAction ::
  "file_system \<Rightarrow> consumer_orders \<Rightarrow> IndexerPreprocessorOptions \<Rightarrow> 'w IndexerAstConsumerOptions \<Rightarrow> ParsedUnit \<Rightarrow> 'w \<Rightarrow> TuIndexingOutput \<Rightarrow>
   ('w \<times> PackageMap \<times> TuIndexingOutput) result" where
  "runFrontendAction fs ord popts opts u w out =
     rbind (preprocessed (fs_paths fs) popts u) (\<lambda>pp. HandleTranslationUnit fs ord (pu_env u) popts opts (pu_nodes u) pp w out)"

subsection \<open>State\<close>

datatype ReceiveStatus = DriverTimeout | MalformedStatus | ShutdownStatus | OK

datatype written_file = IndexFile Index | ForwardDeclFile "ForwardDecl list" | StatsFile "(string \<times> 64 word) list"

record ('s, 'j) worker_env =
  we_queues :: "'s queue_api"
  we_json :: "'j json_api"
  we_format :: "'j \<Rightarrow> string"
  we_parse :: "string \<Rightarrow> 'j option"
  we_fs :: file_system
  we_orders :: consumer_orders
  we_invoke :: "string list \<Rightarrow> string \<Rightarrow> ParsedUnit list"
  we_canWrite :: "string \<Rightarrow> bool"
  we_micros :: "JobId \<Rightarrow> 64 word"
  we_uninitialized :: ReceiveStatus

record 's Worker =
  w_options :: WorkerOptions
  w_packageMap :: PackageMap
  w_messageQueues :: "MessageQueuePair option"
  w_compileCommands :: "CommandObject list"
  w_commandIndex :: nat
  w_recorder :: "PreprocessorHistoryRecorder option"
  w_totalTimeMicros :: "64 word"
  w_queues :: 's
  w_files :: "string \<rightharpoonup> written_file"

text \<open>
  The constructor. Reading the package map and the compilation database is modelled with these components; their
  parameters are arguments here, as is the file of the database.
\<close>

definition readCompileCommands ::
  "llvm_path \<Rightarrow> 32 word \<Rightarrow> tool_env \<Rightarrow> (string \<Rightarrow> string \<Rightarrow> bool) \<Rightarrow> compdb_open \<Rightarrow> CommandObject list result" where
  "readCompileCommands L garbage T rx file =
     rbind (openAndExitOnErrors L garbage \<lparr>checkDirectoryPathsAreAbsolute = True, tryDetectOutOfProjectRoot = True\<rparr> file) (\<lambda>(_, evs).
     rbind (mkParseOptions (2 ^ 64 - 1) False) (\<lambda>popts.
     rbind (parseMore L T rx (initializeParser evs popts)) (\<lambda>(commands, _). Inr commands)))"

definition historyPath :: "PreprocessorHistoryRecordingOptions \<Rightarrow> string \<Rightarrow> string" where
  "historyPath ro sref = (if preferRelativePaths ro \<and> starts_with sref (rec_rootPath ro) then drop (length (rec_rootPath ro)) sref else sref)"

definition mkRecorder ::
  "(string \<Rightarrow> bool) \<Rightarrow> (string \<Rightarrow> string \<Rightarrow> bool) \<Rightarrow> (string \<Rightarrow> bool) \<Rightarrow> PreprocessorHistoryRecordingOptions \<Rightarrow> PreprocessorHistoryRecorder option result" where
  "mkRecorder valid rx canWrite ro =
     rbind (mkHeaderFilter valid (filterRegex ro)) (\<lambda>filter.
       if filter_isIdentity filter then Inr None
       else enforcing (preprocessorHistoryLogPath ro \<noteq> []) ''!recordingOptions.preprocessorHistoryLogPath.empty()''
              (if canWrite (preprocessorHistoryLogPath ro)
               then Inr (Some \<lparr>filter_matches = rx filter, normalizePath = historyPath ro\<rparr>)
               else Inl (ExitFailure ''failed to open preprocessor history recording file'')))"

definition mkWorker ::
  "('s, 'j) worker_env \<Rightarrow> 'j package_env \<Rightarrow> 32 word \<Rightarrow> tool_env \<Rightarrow> (string \<Rightarrow> string \<Rightarrow> bool) \<Rightarrow> (string \<Rightarrow> bool) \<Rightarrow> (string \<Rightarrow> compdb_open) \<Rightarrow>
   WorkerOptions \<Rightarrow> 's \<Rightarrow> (string \<rightharpoonup> written_file) \<Rightarrow> 's Worker result" where
  "mkWorker E P garbage T rx valid readCompdb opts qs files =
     (let L = fs_paths (we_fs E)
      in rbind (mkPackageMap L (we_json E) P (wo_projectRootPath opts) (wo_packageMapPath opts) (wo_mode opts = Testing)) (\<lambda>packageMap.
         rbind (case wo_mode opts of
                  Ipc \<Rightarrow>
                    (case forWorker (we_queues E) (ipc_driverId (wo_ipcOptions opts)) (unat (ipc_workerId (wo_ipcOptions opts))) qs of
                       None \<Rightarrow> Inl InterprocessException
                     | Some mqp \<Rightarrow> Inr (Some mqp, []))
                | Compdb \<Rightarrow> rbind (readCompileCommands L garbage T rx (readCompdb (wo_compdbPath opts))) (\<lambda>commands. Inr (None, commands))
                | Testing \<Rightarrow> Inr (None, [])) (\<lambda>(mqp, commands).
         rbind (mkRecorder valid rx (we_canWrite E) (wo_recordingOptions opts)) (\<lambda>recorder.
           Inr \<lparr>w_options = opts, w_packageMap = packageMap, w_messageQueues = mqp, w_compileCommands = commands, w_commandIndex = 0,
                w_recorder = recorder, w_totalTimeMicros = 0, w_queues = qs, w_files = files\<rparr>))))"

subsection \<open>Messages\<close>

definition default_IndexJobRequest :: IndexJobRequest where
  "default_IndexJobRequest = \<lparr>req_id = Shutdown, req_job = default_IndexJob\<rparr>"

definition triggerFaultIfApplicable :: "'s Worker \<Rightarrow> unit result" where
  "triggerFaultIfApplicable w =
     (let fault = wo_workerFault (w_options w)
      in if fault = [] then Inr ()
         else if fault = ''crash'' then Inl NullDereference
         else if fault = ''sleep'' then Inr ()
         else if fault = ''spin'' then Inl (NoReturn ''about to spin'')
         else Inl (ExitFailure (''Unknown fault kind '' @ fault)))"

text \<open>The request is as it was before when nothing is received.\<close>

definition waitForRequest :: "('s, 'j) worker_env \<Rightarrow> 's Worker \<Rightarrow> (ReceiveStatus \<times> IndexJobRequest \<times> 's Worker) result" where
  "waitForRequest E w =
     (if wo_mode (w_options w) = Compdb then
        (if length (w_compileCommands w) \<le> w_commandIndex w then Inr (ShutdownStatus, default_IndexJobRequest, w)
         else let command = w_compileCommands w ! w_commandIndex w
              in Inr (OK, \<lparr>req_id = newTask (word_of_nat (w_commandIndex w)),
                           req_job = \<lparr>job_kind = SemanticAnalysis, job_command = command, job_filesToBeIndexed = []\<rparr>\<rparr>,
                      w\<lparr>w_commandIndex := w_commandIndex w + 1\<rparr>))
      else enforcing (wo_mode (w_options w) = Ipc) ''this->options.mode == WorkerMode::Ipc''
        (case w_messageQueues w of
           None \<Rightarrow> Inl NullDereference
         | Some mqp \<Rightarrow>
            (case timedReceive (we_queues E) (we_parse E) (fromJSON_IndexJobRequest (we_json E))
                    (ipc_receiveTimeout (wo_ipcOptions (w_options w))) (mqp_driverToWorker mqp) (w_queues w) of
               (r, jq, qs) \<Rightarrow>
                 let w1 = w\<lparr>w_messageQueues := Some (mqp\<lparr>mqp_driverToWorker := jq\<rparr>), w_queues := qs\<rparr>
                 in case r of
                      ReceiveTimeout \<Rightarrow> Inr (DriverTimeout, default_IndexJobRequest, w1)
                    | Malformed \<Rightarrow> Inr (MalformedStatus, default_IndexJobRequest, w1)
                    | Received request \<Rightarrow>
                        if req_id request = Shutdown then Inr (ShutdownStatus, request, w1)
                        else rbind (triggerFaultIfApplicable w1) (\<lambda>_. Inr (OK, request, w1)))))"

definition sendResult :: "('s, 'j) worker_env \<Rightarrow> JobId \<Rightarrow> IndexJobResult \<Rightarrow> 's Worker \<Rightarrow> 's Worker result" where
  "sendResult E requestId result w =
     enforcing (wo_mode (w_options w) = Ipc) ''this->options.mode == WorkerMode::Ipc''
       (case w_messageQueues w of
          None \<Rightarrow> Inl NullDereference
        | Some mqp \<Rightarrow>
           rbind (sendValue (we_queues E) (we_format E) (mqp_workerToDriver mqp)
                    (toJSON_IndexJobResponse (we_json E)
                       \<lparr>rsp_workerId = ipc_workerId (wo_ipcOptions (w_options w)), rsp_jobId = requestId, rsp_result = result\<rparr>) (w_queues w))
             (\<lambda>(sendError, qs).
               if sendError \<noteq> None then Inl (ExitFailure ''exiting after failing to send response from worker to driver'')
               else Inr (w\<lparr>w_queues := qs\<rparr>)))"

definition sendRequestAndReceive ::
  "('s, 'j) worker_env \<Rightarrow> JobId \<Rightarrow> SemanticAnalysisJobResult \<Rightarrow> 's Worker \<Rightarrow> (ReceiveStatus \<times> IndexJobRequest \<times> 's Worker) result" where
  "sendRequestAndReceive E semaRequestId semaResult w =
     rbind (sendResult E semaRequestId \<lparr>res_kind = SemanticAnalysis, res_semanticAnalysis = semaResult, res_emitIndex = default_EmitResult\<rparr> w) (\<lambda>w1.
     rbind (waitForRequest E w1) (\<lambda>(stat, emitIndexRequest, w2).
       if stat \<noteq> OK then Inr (stat, emitIndexRequest, w2)
       else if req_id emitIndexRequest = Shutdown then Inl (ExitFailure ''expected EmitIndex request but got Shutdown signal'')
       else Inr (stat, emitIndexRequest, w2)))"

subsection \<open>One translation unit\<close>

record 's callback_state =
  cb_worker :: "'s Worker"
  innerStatus :: ReceiveStatus
  emitIndexRequestId :: JobId
  callbackInvoked :: nat

definition workerCallback ::
  "('s, 'j) worker_env \<Rightarrow> JobId \<Rightarrow> SemanticAnalysisJobResult \<Rightarrow> 's callback_state \<Rightarrow> (bool \<times> PreprocessedFileInfo list \<times> 's callback_state) result" where
  "workerCallback E semaRequestId semaResult cb =
     (let cb1 = cb\<lparr>callbackInvoked := callbackInvoked cb + 1\<rparr>
      in if wo_mode (w_options (cb_worker cb)) = Compdb
         then Inr (True, wellBehavedFiles semaResult @
                concat (map (\<lambda>multi. map (\<lambda>h. \<lparr>fi_path = fim_path multi, fi_hashValue = h\<rparr>) (fim_hashValues multi)) (illBehavedFiles semaResult)), cb1)
         else rbind (sendRequestAndReceive E semaRequestId semaResult (cb_worker cb)) (\<lambda>(stat, emitIndexRequest, w1).
           let cb2 = cb1\<lparr>cb_worker := w1, innerStatus := stat\<rparr>
           in if stat \<noteq> OK then Inr (False, [], cb2)
              else enforcing (job_kind (req_job emitIndexRequest) = EmitIndex) ''expected EmitIndex request but got SemanticAnalysis request''
                     (Inr (True, job_filesToBeIndexed (req_job emitIndexRequest), cb2\<lparr>emitIndexRequestId := req_id emitIndexRequest\<rparr>))))"

definition clangArguments :: "CommandObject \<Rightarrow> string list" where
  "clangArguments command = arguments command @
     [''-fsyntax-only'', ''-Wno-everything'', ''-working-directory'', workingDirectory command, ''-ferror-limit=0'']"

definition preprocessorOptions :: "'s Worker \<Rightarrow> IndexerPreprocessorOptions" where
  "preprocessorOptions w = \<lparr>opt_recorder = w_recorder w, opt_deterministic = wo_deterministic (w_options w)\<rparr>"

text \<open>The package map is shared, so each action gets it as the one before has left it.\<close>

definition processTranslationUnit ::
  "('s, 'j) worker_env \<Rightarrow> CommandObject \<Rightarrow> (SemanticAnalysisJobResult \<Rightarrow> 's callback_state \<Rightarrow> (bool \<times> PreprocessedFileInfo list \<times> 's callback_state) result) \<Rightarrow>
   's callback_state \<times> TuIndexingOutput \<Rightarrow> ('s callback_state \<times> TuIndexingOutput) result" where
  "processTranslationUnit E command callback st =
     (case tryFrom (fs_paths (we_fs E)) (workingDirectory command) of
        None \<Rightarrow> Inl (EnforceFailed ''optPathRef.has_value()'')
      | Some buildRoot \<Rightarrow>
          rfold (\<lambda>u (cb, out).
            let w = cb_worker cb;
                opts = \<lparr>aco_projectRootPath = wo_projectRootPath (w_options w), aco_buildRootPath = \<lparr>root_value = buildRoot, root_kind = Build\<rparr>,
                  getEmitIndexDetails = callback, aco_deterministic = wo_deterministic (w_options w), aco_packageMap = w_packageMap w\<rparr>
            in rbind (runFrontendAction (we_fs E) (we_orders E) (preprocessorOptions w) opts u cb out) (\<lambda>(cb1, packageMap, out1).
                 Inr (cb1\<lparr>cb_worker := (cb_worker cb1)\<lparr>w_packageMap := packageMap\<rparr>\<rparr>, out1)))
            (we_invoke E (clangArguments command) (workingDirectory command)) st)"

definition emitIndex :: "('s, 'j) worker_env \<Rightarrow> written_file \<Rightarrow> string \<Rightarrow> 's Worker \<Rightarrow> 's Worker result" where
  "emitIndex E content outputPath w =
     (if we_canWrite E outputPath then Inr (w\<lparr>w_files := (w_files w)(outputPath \<mapsto> content)\<rparr>)
      else Inl (ExitFailure ''failed to open file to write shard''))"

definition emitStats :: "('s, 'j) worker_env \<Rightarrow> (string \<times> 64 word) list \<Rightarrow> string \<Rightarrow> 's Worker \<Rightarrow> 's Worker result" where
  "emitStats E stats path w = enforcing (we_canWrite E path) ''!error'' (Inr (w\<lparr>w_files := (w_files w)(path \<mapsto> StatsFile stats)\<rparr>))"

definition shardPath :: "WorkerOptions \<Rightarrow> JobId \<Rightarrow> string \<Rightarrow> string" where
  "shardPath opts jobId ending = path_append (wo_temporaryOutputDir opts) (shardPrefix (taskId jobId) (unat (ipc_workerId (wo_ipcOptions opts)))) @ ending"

definition finishCompdb :: "('s, 'j) worker_env \<Rightarrow> string \<Rightarrow> JobId \<Rightarrow> TuIndexingOutput \<Rightarrow> 's Worker \<Rightarrow> 's Worker result" where
  "finishCompdb E tuMainFilePath jobId out w =
     rbind (emitIndex E (IndexFile (out_docsAndExternals out)) (wo_indexOutputPath (w_options w)) w) (\<lambda>w1.
       let w2 = w1\<lparr>w_totalTimeMicros := we_micros E jobId\<rparr>; statsPath = wo_statsFilePath (w_options w)
       in if statsPath = [] then Inr w2 else emitStats E [(tuMainFilePath, w_totalTimeMicros w2)] statsPath w2)"

definition finishIpc :: "('s, 'j) worker_env \<Rightarrow> JobId \<Rightarrow> JobId \<Rightarrow> TuIndexingOutput \<Rightarrow> 's Worker \<Rightarrow> 's Worker result" where
  "finishIpc E semaRequestId jobId out w =
     (let docs = shardPath (w_options w) jobId ''-docs_and_externals.shard.scip'';
          forwards = shardPath (w_options w) jobId ''-forward_decls.shard.scip'';
          L = fs_paths (we_fs E)
      in rbind (emitIndex E (IndexFile (out_docsAndExternals out)) docs w) (\<lambda>w1.
         rbind (emitIndex E (ForwardDeclFile (out_forwardDecls out)) forwards w1) (\<lambda>w2.
         let w3 = w2\<lparr>w_totalTimeMicros := we_micros E semaRequestId\<rparr>
         in rbind (mkAbsolutePath L docs) (\<lambda>docsPath. rbind (mkAbsolutePath L forwards) (\<lambda>forwardsPath.
            sendResult E jobId \<lparr>res_kind = EmitIndex, res_semanticAnalysis = default_SemaResult,
              res_emitIndex = \<lparr>totalTimeMicros = w_totalTimeMicros w3, shardPaths = \<lparr>docsAndExternals = docsPath, forwardDecls = forwardsPath\<rparr>\<rparr>\<rparr> w3)))))"

definition processTranslationUnitAndRespond :: "('s, 'j) worker_env \<Rightarrow> IndexJobRequest \<Rightarrow> 's Worker \<Rightarrow> (ReceiveStatus \<times> 's Worker) result" where
  "processTranslationUnitAndRespond E request w =
     (let semaRequestId = req_id request; command = job_command (req_job request);
          cb0 = \<lparr>cb_worker = w, innerStatus = we_uninitialized E, emitIndexRequestId = Shutdown, callbackInvoked = 0\<rparr>
      in rbind (processTranslationUnit E command (workerCallback E semaRequestId) (cb0, mkTuIndexingOutput)) (\<lambda>(cb, out).
         rbind (if callbackInvoked cb = 0
                then rbind (sendRequestAndReceive E semaRequestId default_SemaResult (cb_worker cb)) (\<lambda>(stat, emitIndexRequest, w1).
                       Inr (cb\<lparr>cb_worker := w1, innerStatus := stat, emitIndexRequestId := req_id emitIndexRequest\<rparr>))
                else enforcing (callbackInvoked cb = 1) ''callbackInvoked'' (Inr cb)) (\<lambda>cb1.
         if innerStatus cb1 \<noteq> OK then Inr (innerStatus cb1, cb_worker cb1)
         else if wo_mode (w_options (cb_worker cb1)) = Compdb
         then rbind (finishCompdb E (filePath command) semaRequestId out (cb_worker cb1)) (\<lambda>w1. Inr (OK, w1))
         else rbind (finishIpc E semaRequestId (emitIndexRequestId cb1) out (cb_worker cb1)) (\<lambda>w1. Inr (OK, w1)))))"

subsection \<open>The loop\<close>

text \<open>The result is \<open>None\<close> when \<open>n\<close> rounds are not enough.\<close>

fun worker_loop :: "('s, 'j) worker_env \<Rightarrow> nat \<Rightarrow> 's Worker \<Rightarrow> 's Worker result option" where
  "worker_loop E 0 w = None"
| "worker_loop E (Suc n) w =
     (case waitForRequest E w of
        Inl e \<Rightarrow> Some (Inl e)
      | Inr (stat, request, w1) \<Rightarrow>
         (case stat of
            ShutdownStatus \<Rightarrow> Some (Inr w1)
          | DriverTimeout \<Rightarrow> Some (Inr w1)
          | MalformedStatus \<Rightarrow> worker_loop E n w1
          | OK \<Rightarrow>
             if job_kind (req_job request) \<noteq> SemanticAnalysis
             then Some (Inl (EnforceFailed ''request.job.kind == IndexJob::Kind::SemanticAnalysis''))
             else (case processTranslationUnitAndRespond E request w1 of
                     Inl e \<Rightarrow> Some (Inl e)
                   | Inr (stat, w2) \<Rightarrow>
                      (case stat of
                         ShutdownStatus \<Rightarrow> Some (Inr w2)
                       | DriverTimeout \<Rightarrow> Some (Inr w2)
                       | MalformedStatus \<Rightarrow> worker_loop E n w2
                       | OK \<Rightarrow> worker_loop E n w2))))"

definition worker_run :: "('s, 'j) worker_env \<Rightarrow> nat \<Rightarrow> 's Worker \<Rightarrow> 's Worker result option" where
  "worker_run E n w =
     (if wo_mode (w_options w) = Testing then Some (Inl (EnforceFailed ''tests typically call method individually''))
      else worker_loop E n w)"

text \<open>The exit code of the process, with the worker as it was at the end.\<close>

definition workerMain ::
  "('s, 'j) worker_env \<Rightarrow> 'j package_env \<Rightarrow> 32 word \<Rightarrow> tool_env \<Rightarrow> (string \<Rightarrow> string \<Rightarrow> bool) \<Rightarrow> (string \<Rightarrow> bool) \<Rightarrow> (string \<Rightarrow> compdb_open) \<Rightarrow>
   string \<Rightarrow> IpcOptions \<Rightarrow> nat \<Rightarrow> WorkerCliOptions \<Rightarrow> 's \<Rightarrow> (string \<rightharpoonup> written_file) \<Rightarrow> (int \<times> 's Worker option) result option" where
  "workerMain E P garbage T rx valid readCompdb current unset n cli qs files =
     (let exitCode = (\<lambda>r. case r of
            Inl e \<Rightarrow> if e = InterprocessException then Inr (1, None) else Inl e
          | Inr w \<Rightarrow> Inr (0, Some w))
      in case rbind (workerOptions (fs_paths (we_fs E)) current unset cli) (\<lambda>opts. mkWorker E P garbage T rx valid readCompdb opts qs files) of
           Inl e \<Rightarrow> Some (exitCode (Inl e))
         | Inr w \<Rightarrow> map_option exitCode (worker_run E n w))"

end
