(* ===== verification/Worker_Correct.thy ===== *)
theory Worker_Correct
  imports Worker Compdb_Correct
begin

text \<open>
  A worker answers its requests. The specification goes through the pairs of requests one after the other, a semantic analysis and
  then the indexing of the files that were asked for; the code does the second in the middle of the first, from within a
  callback of Clang. The lemmas follow what is seen of a worker from outside, its queues and its files.
\<close>

subsection \<open>What is seen of a worker\<close>

record worker_view =
  v_receiving :: string
  v_sending :: string
  v_options :: WorkerOptions
  v_recorder :: "PreprocessorHistoryRecorder option"
  v_packageMap :: PackageMap
  v_files :: "string \<rightharpoonup> written_file"
  v_inbox :: "string list"
  v_outbox :: "string list"
  v_capacity :: nat
  v_maxSize :: nat

definition views :: "('s, 'j) worker_env \<Rightarrow> (string \<Rightarrow> 's \<Rightarrow> string list) \<Rightarrow> worker_view \<Rightarrow> 's Worker \<Rightarrow> bool" where
  "views E C v w \<longleftrightarrow> w_options w = v_options v \<and> w_recorder w = v_recorder v \<and> w_packageMap w = v_packageMap v \<and> w_files w = v_files v \<and>
     (\<exists>d2w w2d. w_messageQueues w = Some \<lparr>mqp_driverToWorker = d2w, mqp_workerToDriver = w2d\<rparr> \<and>
       jq_name d2w = v_receiving v \<and> jq_name w2d = v_sending v \<and> jq_name d2w \<noteq> jq_name w2d \<and> queue_ok (we_queues E) C (jq_name d2w) d2w (w_queues w) \<and> C (jq_name d2w) (w_queues w) = v_inbox v \<and>
       bq_exists (we_queues E) (jq_name w2d) (w_queues w) \<and> C (jq_name w2d) (w_queues w) = v_outbox v \<and>
       get_max_msg (we_queues E) (jq_name w2d) (w_queues w) = v_capacity v \<and> get_max_msg_size (we_queues E) (jq_name w2d) (w_queues w) = v_maxSize v)"

definition env_laws :: "('s, 'j) worker_env \<Rightarrow> (string \<Rightarrow> 's \<Rightarrow> string list) \<Rightarrow> bool" where
  "env_laws E C \<longleftrightarrow> queue_laws (we_queues E) C \<and> queues_apart (we_queues E) C \<and> json_laws (we_json E)"

definition request_text :: "('s, 'j) worker_env \<Rightarrow> IndexJobRequest \<Rightarrow> string" where
  "request_text E r = we_format E (toJSON_IndexJobRequest (we_json E) r)"

definition response_text :: "('s, 'j) worker_env \<Rightarrow> IndexJobResponse \<Rightarrow> string" where
  "response_text E r = we_format E (toJSON_IndexJobResponse (we_json E) r)"

definition readable :: "('s, 'j) worker_env \<Rightarrow> IndexJobRequest \<Rightarrow> bool" where
  "readable E r \<longleftrightarrow> we_parse E (request_text E r) = Some (toJSON_IndexJobRequest (we_json E) r)"

lemma receive_leaves_others:
  assumes "queues_apart Q C" "receiveValue Q parse t jq s = (r, jq', s')" "n \<noteq> jq_name jq"
  shows "same_queue Q C n s s'"
  using assms unfolding receiveValue_def Let_def queues_apart_def
  by (auto split: prod.splits sum.splits) (metis snd_conv)+

lemma send_leaves_others:
  assumes "queues_apart Q C" "sendValue Q format jq v s = Inr (None, s')" "n \<noteq> jq_name jq"
  shows "same_queue Q C n s s'"
proof -
  have "bq_send Q (jq_name jq) (format v) s = (None, s')"
    using assms(2) by (auto simp: sendValue_def Let_def enforcing_def split: prod.splits option.splits if_splits)
  then show ?thesis using assms(1,3) unfolding queues_apart_def by (metis snd_conv)
qed

lemma queue_ok_same: "same_queue Q C n s s' \<Longrightarrow> queue_ok Q C n jq s \<Longrightarrow> queue_ok Q C n jq s'"
  by (simp add: queue_ok_def same_queue_def)

lemma receive_name: "receiveValue Q parse t jq s = (r, jq', s') \<Longrightarrow> jq_name jq' = jq_name jq"
  by (auto simp: receiveValue_def Let_def split: prod.splits sum.splits)

text \<open>A request at the front of the queue is taken.\<close>

lemma views_receive:
  assumes laws: "env_laws E C" and v: "views E C v w" "v_inbox v = request_text E r # ms" "readable E r"
    and opts: "wo_mode (v_options v) = Ipc" "wo_workerFault (v_options v) = []"
  shows "\<exists>w'. waitForRequest E w = Inr (if req_id r = Shutdown then ShutdownStatus else OK, as_received r, w') \<and> views E C (v\<lparr>v_inbox := ms\<rparr>) w'"
proof -
  let ?Q = "we_queues E" and ?t = "word_of_int (1000 * ipc_receiveTimeout (wo_ipcOptions (w_options w))) :: 64 word"
  obtain d2w w2d where q: "w_messageQueues w = Some \<lparr>mqp_driverToWorker = d2w, mqp_workerToDriver = w2d\<rparr>" "jq_name d2w \<noteq> jq_name w2d"
      "queue_ok ?Q C (jq_name d2w) d2w (w_queues w)" "C (jq_name d2w) (w_queues w) = request_text E r # ms"
    using v(1,2) by (auto simp: views_def)
  from laws have l: "queue_laws ?Q C" "queues_apart ?Q C" "json_laws (we_json E)" by (simp_all add: env_laws_def)
  have parse: "we_parse E (request_text E r) = Some (toJSON_IndexJobRequest (we_json E) r)" using v(3) by (simp add: readable_def)
  from receive_first [OF l(1) q(3,4), of "we_parse E" ?t] obtain s' jq' where
    r: "receiveValue ?Q (we_parse E) ?t d2w (w_queues w) = (Received (toJSON_IndexJobRequest (we_json E) r), jq', s')"
      "queue_ok ?Q C (jq_name d2w) jq' s'" "C (jq_name d2w) s' = ms" using parse by auto
  have name: "jq_name jq' = jq_name d2w" by (rule receive_name [OF r(1)])
  have same: "same_queue ?Q C (jq_name w2d) (w_queues w) s'" by (rule receive_leaves_others [OF l(2) r(1)]) (use q(2) in simp)
  define w' where "w' = w\<lparr>w_messageQueues := Some \<lparr>mqp_driverToWorker = jq', mqp_workerToDriver = w2d\<rparr>, w_queues := s'\<rparr>"
  have "views E C (v\<lparr>v_inbox := ms\<rparr>) w'"
    using v(1) q(1,2) r(2,3) same by (auto simp: views_def w'_def name same_queue_def)
  moreover have "fromJSON_IndexJobRequest (we_json E) (toJSON_IndexJobRequest (we_json E) r) = Some (as_received r)"
    by (simp add: request_roundtrip [OF l(3)] as_received_def)
  moreover have "req_id (as_received r) = req_id r" by (simp add: as_received_def)
  ultimately have "waitForRequest E w = Inr (if req_id r = Shutdown then ShutdownStatus else OK, as_received r, w')"
    using v(1) opts q(1) r(1) by (simp add: waitForRequest_def timedReceive_def views_def triggerFaultIfApplicable_def Let_def w'_def)
  with \<open>views E C (v\<lparr>v_inbox := ms\<rparr>) w'\<close> show ?thesis by blast
qed

text \<open>A response that fits is put at the end of the other queue.\<close>

definition response :: "WorkerOptions \<Rightarrow> JobId \<Rightarrow> IndexJobResult \<Rightarrow> IndexJobResponse" where
  "response opts jobId result = \<lparr>rsp_workerId = ipc_workerId (wo_ipcOptions opts), rsp_jobId = jobId, rsp_result = result\<rparr>"

lemma views_send:
  assumes laws: "env_laws E C" and v: "views E C v w" "wo_mode (v_options v) = Ipc"
    and fits: "length (v_outbox v) < v_capacity v" "length (response_text E (response (v_options v) jobId res)) \<le> v_maxSize v"
  shows "\<exists>w'. sendResult E jobId res w = Inr w' \<and>
    views E C (v\<lparr>v_outbox := v_outbox v @ [response_text E (response (v_options v) jobId res)]\<rparr>) w'"
proof -
  let ?Q = "we_queues E" and ?j = "toJSON_IndexJobResponse (we_json E) (response (v_options v) jobId res)"
  obtain d2w w2d where q: "w_messageQueues w = Some \<lparr>mqp_driverToWorker = d2w, mqp_workerToDriver = w2d\<rparr>" "jq_name d2w \<noteq> jq_name w2d"
      "queue_ok ?Q C (jq_name d2w) d2w (w_queues w)" "C (jq_name d2w) (w_queues w) = v_inbox v"
      "bq_exists ?Q (jq_name w2d) (w_queues w)" "C (jq_name w2d) (w_queues w) = v_outbox v"
      "get_max_msg ?Q (jq_name w2d) (w_queues w) = v_capacity v" "get_max_msg_size ?Q (jq_name w2d) (w_queues w) = v_maxSize v"
    using v(1) by (auto simp: views_def)
  from laws have l: "queue_laws ?Q C" "queues_apart ?Q C" by (simp_all add: env_laws_def)
  have len: "length (we_format E ?j) \<le> get_max_msg_size ?Q (jq_name w2d) (w_queues w)" "length (C (jq_name w2d) (w_queues w)) < get_max_msg ?Q (jq_name w2d) (w_queues w)"
    using fits q(6-8) by (simp_all add: response_text_def)
  from send_appends [where Q = ?Q and contents = C and jq = w2d and s = "w_queues w" and v = ?j and format = "we_format E", OF l(1) q(5) len] obtain s' where
    s': "sendValue ?Q (we_format E) w2d ?j (w_queues w) = Inr (None, s')" "C (jq_name w2d) s' = v_outbox v @ [we_format E ?j]"
      "bq_exists ?Q (jq_name w2d) s'" "get_max_msg ?Q (jq_name w2d) s' = v_capacity v" "get_max_msg_size ?Q (jq_name w2d) s' = v_maxSize v"
    using q(6-8) by auto
  have same: "same_queue ?Q C (jq_name d2w) (w_queues w) s'" by (rule send_leaves_others [OF l(2) s'(1) q(2)])
  define w' where "w' = w\<lparr>w_queues := s'\<rparr>"
  have "sendResult E jobId res w = Inr w'"
    using v q(1) s'(1) by (simp add: sendResult_def views_def response_def w'_def)
  moreover have "C (jq_name d2w) s' = v_inbox v" using same q(4) by (simp add: same_queue_def)
  then have "views E C (v\<lparr>v_outbox := v_outbox v @ [response_text E (response (v_options v) jobId res)]\<rparr>) w'"
    using v(1) q(1,2) queue_ok_same [OF same q(3)] s'(2-5) by (auto simp: views_def w'_def response_text_def)
  ultimately show ?thesis by blast
qed

subsection \<open>Specification\<close>

definition no_callback :: "SemanticAnalysisJobResult \<Rightarrow> unit \<Rightarrow> (bool \<times> PreprocessedFileInfo list \<times> unit) result" where
  "no_callback r w = Inr (False, [], w)"

definition consumer_options :: "WorkerOptions \<Rightarrow> string \<Rightarrow> PackageMap \<Rightarrow> unit IndexerAstConsumerOptions" where
  "consumer_options opts buildRoot pm = \<lparr>aco_projectRootPath = wo_projectRootPath opts, aco_buildRootPath = \<lparr>root_value = buildRoot, root_kind = Build\<rparr>,
     getEmitIndexDetails = no_callback, aco_deterministic = wo_deterministic opts, aco_packageMap = pm\<rparr>"

text \<open>
  What becomes of one pair of requests: the result of the semantic analysis, the shard, and the package map. Nothing is reported
  and the shard is empty when Clang does not get as far as a translation unit.
\<close>

definition unit_answer ::
  "('s, 'j) worker_env \<Rightarrow> WorkerOptions \<Rightarrow> PreprocessorHistoryRecorder option \<Rightarrow> PackageMap \<Rightarrow> CommandObject \<Rightarrow> PreprocessedFileInfo list \<Rightarrow>
   (SemanticAnalysisJobResult \<times> TuIndexingOutput \<times> PackageMap) result" where
  "unit_answer E opts recorder pm command files =
     (let fs = we_fs E; ord = we_orders E; popts = \<lparr>opt_recorder = recorder, opt_deterministic = wo_deterministic opts\<rparr>
      in case we_invoke E (clangArguments command) (workingDirectory command) of
           [] \<Rightarrow> Inr (default_SemaResult, mkTuIndexingOutput, pm)
         | [u] \<Rightarrow>
             rbind (preprocessed (fs_paths fs) popts u) (\<lambda>pp.
             rbind (flushState (clang (pu_env u)) (fs_paths fs) (te_wyhash (pu_env u)) popts (ord_finished ord) (ord_paths ord) (ord_hashes ord)
                      default_SemaResult [] pp) (\<lambda>(sema, m, mx).
             rbind (indexTranslationUnit fs ord (pu_env u) (consumer_options opts (workingDirectory command) pm) (pu_nodes u) files m mx mkTuIndexingOutput)
               (\<lambda>(pm1, out). Inr (sema, out, pm1))))
         | _ \<Rightarrow> Inl (EnforceFailed ''callbackInvoked''))"

definition docs_path :: "WorkerOptions \<Rightarrow> JobId \<Rightarrow> string" where
  "docs_path opts jobId = shardPath opts jobId ''-docs_and_externals.shard.scip''"

definition forwards_path :: "WorkerOptions \<Rightarrow> JobId \<Rightarrow> string" where
  "forwards_path opts jobId = shardPath opts jobId ''-forward_decls.shard.scip''"

definition sema_response :: "WorkerOptions \<Rightarrow> JobId \<Rightarrow> SemanticAnalysisJobResult \<Rightarrow> IndexJobResponse" where
  "sema_response opts jobId sema = response opts jobId \<lparr>res_kind = SemanticAnalysis, res_semanticAnalysis = sema, res_emitIndex = default_EmitResult\<rparr>"

definition emit_response :: "WorkerOptions \<Rightarrow> JobId \<Rightarrow> 64 word \<Rightarrow> IndexJobResponse" where
  "emit_response opts jobId micros = response opts jobId \<lparr>res_kind = EmitIndex, res_semanticAnalysis = default_SemaResult,
     res_emitIndex = \<lparr>totalTimeMicros = micros, shardPaths = \<lparr>docsAndExternals = docs_path opts jobId, forwardDecls = forwards_path opts jobId\<rparr>\<rparr>\<rparr>"

definition worker_shards :: "WorkerOptions \<Rightarrow> JobId \<Rightarrow> TuIndexingOutput \<Rightarrow> (string \<times> written_file) list" where
  "worker_shards opts jobId out =
     [(docs_path opts jobId, IndexFile (out_docsAndExternals out)), (forwards_path opts jobId, ForwardDeclFile (out_forwardDecls out))]"

fun session ::
  "('s, 'j) worker_env \<Rightarrow> WorkerOptions \<Rightarrow> PreprocessorHistoryRecorder option \<Rightarrow> PackageMap \<Rightarrow> (IndexJobRequest \<times> IndexJobRequest) list \<Rightarrow>
   (IndexJobResponse list \<times> (string \<times> written_file) list) result" where
  "session E opts recorder pm [] = Inr ([], [])"
| "session E opts recorder pm ((sema, emit) # rest) =
     rbind (unit_answer E opts recorder pm (job_command (req_job sema)) (job_filesToBeIndexed (req_job emit))) (\<lambda>(res, out, pm1).
     rbind (session E opts recorder pm1 rest) (\<lambda>(responses, files).
       Inr (sema_response opts (req_id sema) res # emit_response opts (req_id emit) (we_micros E (req_id sema)) # responses,
            worker_shards opts (req_id emit) out @ files)))"

fun request_pair_ok :: "('s, 'j) worker_env \<Rightarrow> IndexJobRequest \<times> IndexJobRequest \<Rightarrow> bool" where
  "request_pair_ok E (sema, emit) \<longleftrightarrow> job_kind (req_job sema) = SemanticAnalysis \<and> job_kind (req_job emit) = EmitIndex \<and>
     req_id sema \<noteq> Shutdown \<and> req_id emit \<noteq> Shutdown \<and> tryFrom (fs_paths (we_fs E)) (workingDirectory (job_command (req_job sema))) \<noteq> None"

subsection \<open>One pair of requests\<close>

lemma indexTranslationUnit_options:
  fixes opts :: "'a IndexerAstConsumerOptions" and opts' :: "'b IndexerAstConsumerOptions"
  assumes "aco_projectRootPath opts = aco_projectRootPath opts'" "aco_buildRootPath opts = aco_buildRootPath opts'"
    "aco_packageMap opts = aco_packageMap opts'" "aco_deterministic opts = aco_deterministic opts'"
  shows "indexTranslationUnit fs ord E opts nodes files m mx out = indexTranslationUnit fs ord E opts' nodes files m mx out"
  by (simp add: indexTranslationUnit_def assms)

lemma views_exchange:
  assumes laws: "env_laws E C" and v: "views E C v w" "v_inbox v = request_text E emit # ms" "readable E emit"
    and opts: "wo_mode (v_options v) = Ipc" "wo_workerFault (v_options v) = []" and id: "req_id emit \<noteq> Shutdown"
    and fits: "length (v_outbox v) < v_capacity v" "length (response_text E (sema_response (v_options v) jobId res)) \<le> v_maxSize v"
  shows "\<exists>w'. sendRequestAndReceive E jobId res w = Inr (OK, as_received emit, w') \<and>
    views E C (v\<lparr>v_outbox := v_outbox v @ [response_text E (sema_response (v_options v) jobId res)], v_inbox := ms\<rparr>) w'"
proof -
  from views_send [OF laws v(1) opts(1) fits(1) fits(2) [unfolded sema_response_def]] obtain w1 where
    w1: "sendResult E jobId \<lparr>res_kind = SemanticAnalysis, res_semanticAnalysis = res, res_emitIndex = default_EmitResult\<rparr> w = Inr w1"
      "views E C (v\<lparr>v_outbox := v_outbox v @ [response_text E (sema_response (v_options v) jobId res)]\<rparr>) w1"
    by (auto simp: sema_response_def)
  from views_receive [OF laws w1(2) _ v(3), of ms] v(2) opts id obtain w2 where
    w2: "waitForRequest E w1 = Inr (OK, as_received emit, w2)"
      "views E C (v\<lparr>v_outbox := v_outbox v @ [response_text E (sema_response (v_options v) jobId res)], v_inbox := ms\<rparr>) w2" by auto
  have "req_id (as_received emit) \<noteq> Shutdown" using id by (simp add: as_received_def)
  with w1(1) w2 show ?thesis by (simp add: sendRequestAndReceive_def)
qed

lemma views_emit:
  assumes "views E C v w" "we_canWrite E path"
  shows "emitIndex E c path w = Inr (w\<lparr>w_files := (w_files w)(path \<mapsto> c)\<rparr>) \<and>
    views E C (v\<lparr>v_files := (v_files v)(path \<mapsto> c)\<rparr>) (w\<lparr>w_files := (w_files w)(path \<mapsto> c)\<rparr>)"
  using assms by (auto simp: emitIndex_def views_def)

lemma views_time: "views E C v w \<Longrightarrow> views E C v (w\<lparr>w_totalTimeMicros := t\<rparr>)"
  by (simp add: views_def)

lemma views_packages: "views E C v w \<Longrightarrow> views E C (v\<lparr>v_packageMap := pm\<rparr>) (w\<lparr>w_packageMap := pm\<rparr>)"
  by (simp add: views_def)

definition writable :: "('s, 'j) worker_env \<Rightarrow> string \<Rightarrow> bool" where
  "writable E path \<longleftrightarrow> we_canWrite E path \<and> tryFrom (fs_paths (we_fs E)) path \<noteq> None"

lemma views_finish:
  assumes laws: "env_laws E C" and v: "views E C v w" "wo_mode (v_options v) = Ipc"
    and fits: "length (v_outbox v) < v_capacity v" "length (response_text E (emit_response (v_options v) jobId (we_micros E semaId))) \<le> v_maxSize v"
    and files: "\<forall>(path, c) \<in> set (worker_shards (v_options v) jobId out). writable E path"
  shows "\<exists>w'. finishIpc E semaId jobId out w = Inr w' \<and> views E C (v\<lparr>v_files := v_files v ++ map_of (rev (worker_shards (v_options v) jobId out)),
    v_outbox := v_outbox v @ [response_text E (emit_response (v_options v) jobId (we_micros E semaId))]\<rparr>) w'"
proof -
  let ?docs = "docs_path (v_options v) jobId" and ?fwd = "forwards_path (v_options v) jobId"
  let ?v1 = "v\<lparr>v_files := (v_files v)(?docs \<mapsto> IndexFile (out_docsAndExternals out))\<rparr>"
  let ?v2 = "?v1\<lparr>v_files := (v_files ?v1)(?fwd \<mapsto> ForwardDeclFile (out_forwardDecls out))\<rparr>"
  have opts: "w_options w = v_options v" using v(1) by (simp add: views_def)
  have ok: "writable E ?docs" "writable E ?fwd" using files by (simp_all add: worker_shards_def)
  define w1 where "w1 = w\<lparr>w_files := (w_files w)(?docs \<mapsto> IndexFile (out_docsAndExternals out))\<rparr>"
  define w2 where "w2 = w1\<lparr>w_files := (w_files w1)(?fwd \<mapsto> ForwardDeclFile (out_forwardDecls out))\<rparr>"
  define w3 where "w3 = w2\<lparr>w_totalTimeMicros := we_micros E semaId\<rparr>"
  have w1: "emitIndex E (IndexFile (out_docsAndExternals out)) ?docs w = Inr w1" "views E C ?v1 w1"
    using views_emit [OF v(1)] ok(1) unfolding w1_def writable_def by blast+
  have w2: "emitIndex E (ForwardDeclFile (out_forwardDecls out)) ?fwd w1 = Inr w2" "views E C ?v2 w2"
    using views_emit [OF w1(2)] ok(2) unfolding w2_def writable_def by blast+
  have w3: "views E C ?v2 w3" "w_totalTimeMicros w3 = we_micros E semaId" unfolding w3_def using views_time [OF w2(2)] by simp_all
  let ?res = "\<lparr>res_kind = EmitIndex, res_semanticAnalysis = default_SemaResult,
    res_emitIndex = \<lparr>totalTimeMicros = we_micros E semaId, shardPaths = \<lparr>docsAndExternals = ?docs, forwardDecls = ?fwd\<rparr>\<rparr>\<rparr>"
  from views_send [OF laws w3(1), of jobId ?res] v(2) fits obtain w' where
    w': "sendResult E jobId ?res w3 = Inr w'" "views E C (?v2\<lparr>v_outbox := v_outbox v @ [response_text E (emit_response (v_options v) jobId (we_micros E semaId))]\<rparr>) w'"
    by (auto simp: emit_response_def)
  have paths: "mkAbsolutePath (fs_paths (we_fs E)) ?docs = Inr ?docs" "mkAbsolutePath (fs_paths (we_fs E)) ?fwd = Inr ?fwd"
    using ok by (simp_all add: mkAbsolutePath_def writable_def)
  have "finishIpc E semaId jobId out w = Inr w'"
    using w1(1) w2(1) w'(1) w3(2) paths unfolding finishIpc_def opts docs_path_def [symmetric] forwards_path_def [symmetric]
    by (simp add: w3_def [symmetric] Let_def)
  moreover have "v_files v ++ map_of (rev (worker_shards (v_options v) jobId out)) = v_files ?v2"
    by (simp add: worker_shards_def map_add_def fun_eq_iff)
  ultimately show ?thesis using w'(2) by auto
qed

lemma action_answer:
  assumes u: "we_invoke E (clangArguments command) (workingDirectory command) = [u]" "tryFrom (fs_paths (we_fs E)) (workingDirectory command) \<noteq> None"
    and w: "w_options (cb_worker cb) = opts" "w_recorder (cb_worker cb) = recorder" "w_packageMap (cb_worker cb) = pm"
    and ans: "unit_answer E opts recorder pm command files = Inr (res, out, pm1)"
    and cb: "callback res cb = Inr (True, files, cb1)"
  shows "processTranslationUnit E command callback (cb, mkTuIndexingOutput) = Inr (cb1\<lparr>cb_worker := (cb_worker cb1)\<lparr>w_packageMap := pm1\<rparr>\<rparr>, out)"
proof -
  let ?L = "fs_paths (we_fs E)" and ?ord = "we_orders E" and ?popts = "\<lparr>opt_recorder = recorder, opt_deterministic = wo_deterministic opts\<rparr>"
  let ?co = "\<lparr>aco_projectRootPath = wo_projectRootPath opts, aco_buildRootPath = \<lparr>root_value = workingDirectory command, root_kind = Build\<rparr>,
    getEmitIndexDetails = callback, aco_deterministic = wo_deterministic opts, aco_packageMap = pm\<rparr>"
  from ans u(1) obtain pp m mx where pp: "preprocessed ?L ?popts u = Inr pp"
      "flushState (clang (pu_env u)) ?L (te_wyhash (pu_env u)) ?popts (ord_finished ?ord) (ord_paths ?ord) (ord_hashes ?ord) default_SemaResult [] pp = Inr (res, m, mx)"
      "indexTranslationUnit (we_fs E) ?ord (pu_env u) (consumer_options opts (workingDirectory command) pm) (pu_nodes u) files m mx mkTuIndexingOutput = Inr (pm1, out)"
    by (auto simp: unit_answer_def Let_def rbind_def split: sum.splits prod.splits)
  have "indexTranslationUnit (we_fs E) ?ord (pu_env u) ?co (pu_nodes u) files m mx mkTuIndexingOutput = Inr (pm1, out)"
    using pp(3) by (subst indexTranslationUnit_options [where opts' = "consumer_options opts (workingDirectory command) pm"]) (simp_all add: consumer_options_def)
  with pp(1,2) cb have "runFrontendAction (we_fs E) ?ord ?popts ?co u cb mkTuIndexingOutput = Inr (cb1, pm1, out)"
    by (simp add: runFrontendAction_def HandleTranslationUnit_def)
  moreover have "tryFrom ?L (workingDirectory command) = Some (workingDirectory command)" using u(2) by (auto simp: tryFrom_def split: if_splits)
  ultimately show ?thesis using u(1) w by (simp add: processTranslationUnit_def preprocessorOptions_def Let_def)
qed

text \<open>What a worker looks like from outside after a pair of requests.\<close>

definition view_step :: "worker_view \<Rightarrow> string list \<Rightarrow> string list \<Rightarrow> (string \<times> written_file) list \<Rightarrow> worker_view \<Rightarrow> bool" where
  "view_step v ms sent files v' \<longleftrightarrow> v_options v' = v_options v \<and> v_recorder v' = v_recorder v \<and> v_receiving v' = v_receiving v \<and> v_sending v' = v_sending v \<and> v_capacity v' = v_capacity v \<and> v_maxSize v' = v_maxSize v \<and>
     v_inbox v' = ms \<and> v_outbox v' = v_outbox v @ sent \<and> v_files v' = v_files v ++ map_of (rev files)"

lemma views_respond:
  assumes laws: "env_laws E C" and v: "views E C v w" "v_inbox v = request_text E emit # ms" "readable E emit"
    and opts: "wo_mode (v_options v) = Ipc" "wo_workerFault (v_options v) = []" and ok: "request_pair_ok E (sema, emit)"
    and ans: "unit_answer E (v_options v) (v_recorder v) (v_packageMap v) (job_command (req_job sema)) (job_filesToBeIndexed (req_job emit)) = Inr (res, out, pm1)"
    and sent: "sent = map (response_text E) [sema_response (v_options v) (req_id sema) res, emit_response (v_options v) (req_id emit) (we_micros E (req_id sema))]"
    and fits: "length (v_outbox v) + 2 \<le> v_capacity v" "\<forall>t \<in> set sent. length t \<le> v_maxSize v"
    and files: "\<forall>(path, c) \<in> set (worker_shards (v_options v) (req_id emit) out). writable E path"
  shows "\<exists>w' v'. processTranslationUnitAndRespond E (as_received sema) w = Inr (OK, w') \<and> views E C v' w' \<and>
    view_step v ms sent (worker_shards (v_options v) (req_id emit) out) v' \<and> v_packageMap v' = pm1"
proof -
  let ?cmd = "job_command (req_job sema)" and ?cmd' = "job_command (req_job (as_received sema))"
  have cmd: "?cmd' = ?cmd\<lparr>index := POISON_INDEX\<rparr>" "req_id (as_received sema) = req_id sema" "req_id (as_received emit) = req_id emit"
      "job_kind (req_job (as_received emit)) = EmitIndex" "job_filesToBeIndexed (req_job (as_received emit)) = job_filesToBeIndexed (req_job emit)"
    using ok by (simp_all add: as_received_def)
  have args: "clangArguments ?cmd' = clangArguments ?cmd" "workingDirectory ?cmd' = workingDirectory ?cmd"
    unfolding cmd(1) by (simp_all add: clangArguments_def)
  then have ans': "unit_answer E (v_options v) (v_recorder v) (v_packageMap v) ?cmd' (job_filesToBeIndexed (req_job emit)) = Inr (res, out, pm1)"
    using ans unfolding unit_answer_def by (simp only: args)
  have w: "w_options w = v_options v" "w_recorder w = v_recorder v" "w_packageMap w = v_packageMap v" using v(1) by (simp_all add: views_def)
  have ids: "req_id emit \<noteq> Shutdown" "tryFrom (fs_paths (we_fs E)) (workingDirectory ?cmd') \<noteq> None" using ok args(2) by simp_all
  let ?t1 = "response_text E (sema_response (v_options v) (req_id sema) res)"
  let ?v1 = "v\<lparr>v_outbox := v_outbox v @ [?t1], v_inbox := ms\<rparr>"
  have fit1: "length (v_outbox v) < v_capacity v" "length ?t1 \<le> v_maxSize v" using fits by (simp_all add: sent)
  from views_exchange [OF laws v opts ids(1) fit1] obtain w1 where
    w1: "sendRequestAndReceive E (req_id sema) res w = Inr (OK, as_received emit, w1)" "views E C ?v1 w1" by blast
  define w2 where "w2 = w1\<lparr>w_packageMap := pm1\<rparr>"
  define v2 where "v2 = ?v1\<lparr>v_packageMap := pm1\<rparr>"
  have w2: "views E C v2 w2" unfolding v2_def w2_def by (rule views_packages [OF w1(2)])
  have v2: "v_options v2 = v_options v" "v_recorder v2 = v_recorder v" "v_outbox v2 = v_outbox v @ [?t1]" "v_capacity v2 = v_capacity v" "v_maxSize v2 = v_maxSize v"
    "v_inbox v2 = ms" "v_files v2 = v_files v" "v_packageMap v2 = pm1" "v_receiving v2 = v_receiving v" "v_sending v2 = v_sending v" by (simp_all add: v2_def)
  have "\<exists>w'. finishIpc E (req_id sema) (req_id emit) out w2 = Inr w' \<and> views E C (v2\<lparr>v_files := v_files v2 ++ map_of (rev (worker_shards (v_options v2) (req_id emit) out)),
      v_outbox := v_outbox v2 @ [response_text E (emit_response (v_options v2) (req_id emit) (we_micros E (req_id sema)))]\<rparr>) w'"
    by (rule views_finish [OF laws w2]) (use opts(1) fits files in \<open>simp_all add: v2 sent\<close>)
  then obtain w' where w': "finishIpc E (req_id sema) (req_id emit) out w2 = Inr w'"
    "views E C (v2\<lparr>v_files := v_files v2 ++ map_of (rev (worker_shards (v_options v2) (req_id emit) out)),
      v_outbox := v_outbox v2 @ [response_text E (emit_response (v_options v2) (req_id emit) (we_micros E (req_id sema)))]\<rparr>) w'" by blast
  have mode: "wo_mode (w_options w) = Ipc" "wo_mode (w_options w2) = Ipc" using opts(1) w(1) w2 v2(1) by (simp_all add: views_def)
  let ?cb0 = "\<lparr>cb_worker = w, innerStatus = we_uninitialized E, emitIndexRequestId = Shutdown, callbackInvoked = 0\<rparr>"
  have "processTranslationUnitAndRespond E (as_received sema) w = Inr (OK, w')"
  proof (cases "we_invoke E (clangArguments ?cmd') (workingDirectory ?cmd')")
    case Nil
    then have "res = default_SemaResult" "pm1 = v_packageMap v" "out = mkTuIndexingOutput" using ans' by (simp_all add: unit_answer_def)
    moreover from this have "w2 = w1" unfolding w2_def using w1(2) by (simp add: views_def)
    moreover have "processTranslationUnit E ?cmd' cb (?cb0, mkTuIndexingOutput) = Inr (?cb0, mkTuIndexingOutput)" for cb
      using Nil ids(2) by (auto simp: processTranslationUnit_def split: option.splits)
    ultimately show ?thesis using w1(1) w'(1) mode cmd(2,3) by (simp add: processTranslationUnitAndRespond_def Let_def)
  next
    case (Cons u us)
    then have us: "we_invoke E (clangArguments ?cmd') (workingDirectory ?cmd') = [u]" using ans' by (cases us) (simp_all add: unit_answer_def)
    let ?cb1 = "?cb0\<lparr>callbackInvoked := 1, cb_worker := w1, innerStatus := OK, emitIndexRequestId := req_id emit\<rparr>"
    have "workerCallback E (req_id sema) res ?cb0 = Inr (True, job_filesToBeIndexed (req_job emit), ?cb1)"
      using w1(1) mode(1) cmd(3-5) by (simp add: workerCallback_def Let_def)
    from action_answer [where callback = "workerCallback E (req_id sema)" and cb = ?cb0, OF us ids(2) _ _ _ ans' this] w have
      "processTranslationUnit E ?cmd' (workerCallback E (req_id sema)) (?cb0, mkTuIndexingOutput) = Inr (?cb1\<lparr>cb_worker := w2\<rparr>, out)" by (simp add: w2_def)
    then show ?thesis using w'(1) mode(2) cmd(2) by (simp add: processTranslationUnitAndRespond_def Let_def)
  qed
  moreover define v3 where "v3 = v2\<lparr>v_files := v_files v2 ++ map_of (rev (worker_shards (v_options v2) (req_id emit) out)),
      v_outbox := v_outbox v2 @ [response_text E (emit_response (v_options v2) (req_id emit) (we_micros E (req_id sema)))]\<rparr>"
  have "view_step v ms sent (worker_shards (v_options v) (req_id emit) out) v3" "v_packageMap v3 = pm1"
    by (simp_all add: view_step_def v3_def v2 sent)
  moreover have "views E C v3 w'" using w'(2) by (simp add: v3_def)
  ultimately show ?thesis by blast
qed

subsection \<open>A session\<close>

definition queued :: "(IndexJobRequest \<times> IndexJobRequest) list \<Rightarrow> IndexJobRequest list" where
  "queued pairs = concat (map (\<lambda>(sema, emit). [sema, emit]) pairs)"

lemma views_session:
  assumes laws: "env_laws E C"
  shows "views E C v w \<Longrightarrow> v_inbox v = map (request_text E) (queued pairs @ [bye]) \<Longrightarrow> \<forall>r \<in> set (queued pairs @ [bye]). readable E r \<Longrightarrow>
    req_id bye = Shutdown \<Longrightarrow> wo_mode (v_options v) = Ipc \<Longrightarrow> wo_workerFault (v_options v) = [] \<Longrightarrow> \<forall>p \<in> set pairs. request_pair_ok E p \<Longrightarrow>
    session E (v_options v) (v_recorder v) (v_packageMap v) pairs = Inr (responses, files) \<Longrightarrow> length (v_outbox v) + 2 * length pairs \<le> v_capacity v \<Longrightarrow>
    \<forall>r \<in> set responses. length (response_text E r) \<le> v_maxSize v \<Longrightarrow> \<forall>(path, c) \<in> set files. writable E path \<Longrightarrow> length pairs < n \<Longrightarrow>
    \<exists>w' v'. worker_loop E n w = Some (Inr w') \<and> views E C v' w' \<and> view_step v [] (map (response_text E) responses) files v'"
proof (induction pairs arbitrary: v w n responses files)
  case Nil
  then obtain k where n: "n = Suc k" by (cases n) simp_all
  from Nil have "v_inbox v = request_text E bye # []" "readable E bye" by (simp_all add: queued_def)
  from views_receive [OF laws Nil.prems(1) this] Nil.prems(4-6) obtain w' where
    "waitForRequest E w = Inr (ShutdownStatus, as_received bye, w')" "views E C (v\<lparr>v_inbox := []\<rparr>) w'" by auto
  moreover have "view_step v [] (map (response_text E) responses) files (v\<lparr>v_inbox := []\<rparr>)" using Nil.prems(8) by (simp add: view_step_def)
  ultimately show ?case by (auto simp: n)
next
  case (Cons pair pairs)
  obtain sema emit where pair: "pair = (sema, emit)" by (cases pair)
  obtain k where n: "n = Suc k" "length pairs < k" using Cons.prems(12) by (cases n) simp_all
  let ?ms = "map (request_text E) (queued pairs @ [bye])"
  have inbox: "v_inbox v = request_text E sema # request_text E emit # ?ms" and ok: "request_pair_ok E (sema, emit)"
    and read: "readable E sema" "readable E emit" "\<forall>r \<in> set (queued pairs @ [bye]). readable E r"
    using Cons.prems(2,3,7) by (simp_all add: queued_def pair)
  from Cons.prems(8) obtain res out pm1 rs fs where
    ans: "unit_answer E (v_options v) (v_recorder v) (v_packageMap v) (job_command (req_job sema)) (job_filesToBeIndexed (req_job emit)) = Inr (res, out, pm1)"
    and rest: "session E (v_options v) (v_recorder v) pm1 pairs = Inr (rs, fs)"
    and rf: "responses = [sema_response (v_options v) (req_id sema) res, emit_response (v_options v) (req_id emit) (we_micros E (req_id sema))] @ rs"
      "files = worker_shards (v_options v) (req_id emit) out @ fs"
    by (auto simp: pair rbind_def split: sum.splits prod.splits)
  let ?v1 = "v\<lparr>v_inbox := request_text E emit # ?ms\<rparr>"
  from views_receive [OF laws Cons.prems(1) inbox read(1) Cons.prems(5,6)] ok obtain w1 where
    w1: "waitForRequest E w = Inr (OK, as_received sema, w1)" "views E C ?v1 w1" by auto
  have "\<exists>w' v'. processTranslationUnitAndRespond E (as_received sema) w1 = Inr (OK, w') \<and> views E C v' w' \<and>
      view_step ?v1 ?ms (map (response_text E) [sema_response (v_options ?v1) (req_id sema) res, emit_response (v_options ?v1) (req_id emit) (we_micros E (req_id sema))])
        (worker_shards (v_options ?v1) (req_id emit) out) v' \<and> v_packageMap v' = pm1"
    by (rule views_respond [OF laws w1(2) _ read(2) _ _ ok _ refl]) (use Cons.prems(5,6,9,10,11) ans in \<open>simp_all add: rf\<close>)
  then obtain w2 v2 where w2: "processTranslationUnitAndRespond E (as_received sema) w1 = Inr (OK, w2)" "views E C v2 w2" "v_packageMap v2 = pm1"
    and step: "view_step ?v1 ?ms (map (response_text E) [sema_response (v_options ?v1) (req_id sema) res, emit_response (v_options ?v1) (req_id emit) (we_micros E (req_id sema))])
        (worker_shards (v_options ?v1) (req_id emit) out) v2" by blast
  have v2: "v_options v2 = v_options v" "v_recorder v2 = v_recorder v" "v_inbox v2 = ?ms" "length (v_outbox v2) = length (v_outbox v) + 2"
      "v_capacity v2 = v_capacity v" "v_maxSize v2 = v_maxSize v" using step by (simp_all add: view_step_def)
  from Cons.IH [OF w2(2) v2(3) read(3) Cons.prems(4), of rs fs k] rest n(2) Cons.prems(5,6,7,9,10,11) v2 w2(3) obtain w' v' where
    w': "worker_loop E k w2 = Some (Inr w')" "views E C v' w'" "view_step v2 [] (map (response_text E) rs) fs v'" by (auto simp: rf)
  have "view_step v [] (map (response_text E) responses) files v'"
    using step w'(3) by (simp add: view_step_def rf)
  moreover have "job_kind (req_job (as_received sema)) = SemanticAnalysis" using ok by (simp add: as_received_def)
  ultimately show ?case using w1(1) w2(1) w'(1,2) by (auto simp: n(1))
qed

lemma session_ids:
  "session E opts recorder pm pairs = Inr (responses, files) \<Longrightarrow>
   map rsp_jobId responses = map req_id (queued pairs) \<and> map fst files = concat (map (\<lambda>(sema, emit). [docs_path opts (req_id emit), forwards_path opts (req_id emit)]) pairs)"
proof (induction pairs arbitrary: pm responses files)
  case (Cons p pairs)
  then show ?case
    by (cases p) (fastforce simp: rbind_def queued_def sema_response_def emit_response_def response_def worker_shards_def split: sum.splits prod.splits)
qed (simp add: queued_def)

lemma queue_names_differ: "driverToWorkerQueueName d n \<noteq> workerToDriverQueueName d'"
proof -
  have "last (driverToWorkerQueueName d n) = CHR ''v''" by (simp add: driverToWorkerQueueName_def)
  moreover have "last (workerToDriverQueueName d') = CHR ''d''" by (simp add: workerToDriverQueueName_def)
  ultimately show ?thesis by auto
qed

lemma mkWorker_views:
  assumes w: "mkWorker E P garbage T rx valid readCompdb opts qs files = Inr w" "wo_mode opts = Ipc"
    and names: "recv = driverToWorkerQueueName (ipc_driverId (wo_ipcOptions opts)) (unat (ipc_workerId (wo_ipcOptions opts)))" "send = workerToDriverQueueName (ipc_driverId (wo_ipcOptions opts))"
    and sizes: "\<forall>m \<in> set (C recv qs). length m \<le> get_max_msg_size (we_queues E) recv qs"
  shows "views E C \<lparr>v_receiving = recv, v_sending = send, v_options = opts, v_recorder = w_recorder w, v_packageMap = w_packageMap w, v_files = files,
    v_inbox = C recv qs, v_outbox = C send qs, v_capacity = get_max_msg (we_queues E) send qs, v_maxSize = get_max_msg_size (we_queues E) send qs\<rparr> w"
proof -
  from w obtain mqp where mqp: "forWorker (we_queues E) (ipc_driverId (wo_ipcOptions opts)) (unat (ipc_workerId (wo_ipcOptions opts))) qs = Some mqp"
      "w_messageQueues w = Some mqp" "w_options w = opts" "w_files w = files" "w_queues w = qs"
    by (auto simp: mkWorker_def Let_def rbind_def split: sum.splits option.splits)
  from mqp(1) obtain d2w w2d where q: "mqp = \<lparr>mqp_driverToWorker = d2w, mqp_workerToDriver = w2d\<rparr>"
      "queue_open (we_queues E) recv qs = Some d2w" "queue_open (we_queues E) send qs = Some w2d"
    by (auto simp: forWorker_def names split: option.splits)
  have d: "bq_exists (we_queues E) recv qs" "jq_name d2w = recv" "queue_ok (we_queues E) C recv d2w qs"
    using q(2) sizes by (auto simp: queue_open_def queue_ok_def nul_bytes_def split: if_splits)
  have s: "bq_exists (we_queues E) send qs" "jq_name w2d = send" using q(3) by (auto simp: queue_open_def split: if_splits)
  have "recv \<noteq> send" unfolding names by (rule queue_names_differ)
  with mqp(2-5) q(1) d s show ?thesis by (simp add: views_def)
qed

text \<open>
  C13: A worker answers its requests. Let the queue of a worker have pairs of requests in it, each a semantic analysis and then
  the indexing of some files, and a shutdown at the end. When the specification gives responses and shards for the pairs,
  and these can be written, the worker comes to an end after having taken all requests: the responses are in the queue to the driver in the order
  of the requests, with their identifiers, and the shards are in the files that the responses name. This
  includes translation units that Clang could not parse. The number of rounds needs only to be larger than the number of pairs.
\<close>

theorem worker_answers_requests:
  assumes laws: "env_laws E C"
    and w: "mkWorker E P garbage T rx valid readCompdb opts qs files0 = Inr w" "wo_mode opts = Ipc" "wo_workerFault opts = []"
    and names: "recv = driverToWorkerQueueName (ipc_driverId (wo_ipcOptions opts)) (unat (ipc_workerId (wo_ipcOptions opts)))" "send = workerToDriverQueueName (ipc_driverId (wo_ipcOptions opts))"
    and inbox: "C recv qs = map (request_text E) (queued pairs @ [bye])" "req_id bye = Shutdown" "\<forall>p \<in> set pairs. request_pair_ok E p"
      "\<forall>r \<in> set (queued pairs @ [bye]). readable E r \<and> length (request_text E r) \<le> get_max_msg_size (we_queues E) recv qs"
    and spec: "session E opts (w_recorder w) (w_packageMap w) pairs = Inr (responses, files)"
    and fits: "length (C send qs) + 2 * length pairs \<le> get_max_msg (we_queues E) send qs"
      "\<forall>r \<in> set responses. length (response_text E r) \<le> get_max_msg_size (we_queues E) send qs" "\<forall>(path, c) \<in> set files. writable E path"
    and n: "length pairs < n"
  shows "\<exists>w'. worker_run E n w = Some (Inr w') \<and> C recv (w_queues w') = [] \<and> C send (w_queues w') = C send qs @ map (response_text E) responses \<and>
    w_files w' = files0 ++ map_of (rev files) \<and> map rsp_jobId responses = map req_id (queued pairs)"
proof -
  have "\<forall>m \<in> set (C recv qs). length m \<le> get_max_msg_size (we_queues E) recv qs" using inbox(1,4) by auto
  note v = mkWorker_views [where C = C, OF w(1,2) names this]
  have read: "\<forall>r \<in> set (queued pairs @ [bye]). readable E r" using inbox(4) by blast
  from views_session [OF laws v, of pairs bye responses files n] inbox(1-3) read w(2,3) spec fits n obtain w' v' where
    w': "worker_loop E n w = Some (Inr w')" "views E C v' w'"
      "view_step \<lparr>v_receiving = recv, v_sending = send, v_options = opts, v_recorder = w_recorder w, v_packageMap = w_packageMap w, v_files = files0,
        v_inbox = C recv qs, v_outbox = C send qs, v_capacity = get_max_msg (we_queues E) send qs, v_maxSize = get_max_msg_size (we_queues E) send qs\<rparr>
        [] (map (response_text E) responses) files v'" by auto
  have "w_options w = opts" using v by (simp add: views_def)
  then have "worker_run E n w = Some (Inr w')" using w'(1) w(2) by (simp add: worker_run_def)
  moreover have "C recv (w_queues w') = [] \<and> C send (w_queues w') = C send qs @ map (response_text E) responses \<and> w_files w' = files0 ++ map_of (rev files)"
    using w'(2,3) by (auto simp: views_def view_step_def)
  ultimately show ?thesis using session_ids [OF spec] by blast
qed

subsection \<open>The mode for developers\<close>

definition all_files :: "SemanticAnalysisJobResult \<Rightarrow> PreprocessedFileInfo list" where
  "all_files res = wellBehavedFiles res @
     concat (map (\<lambda>multi. map (\<lambda>h. \<lparr>fi_path = fim_path multi, fi_hashValue = h\<rparr>) (fim_hashValues multi)) (illBehavedFiles res))"

text \<open>
  C40: When a worker processes a compilation database, the callback returns without setting the status that is looked at after Clang has
  run. The status has no initialiser, so if its first value is not OK, the translation unit has been indexed, and still no file is
  written, and the status tells the loop to stop or to go on with the next command.
\<close>

theorem compdb_status_uninitialised:
  assumes w: "wo_mode (w_options w) = Compdb" "we_uninitialized E \<noteq> OK" and r: "command = job_command (req_job request)"
    and u: "we_invoke E (clangArguments command) (workingDirectory command) = [u]" "tryFrom (fs_paths (we_fs E)) (workingDirectory command) \<noteq> None"
    and ans: "unit_answer E (w_options w) (w_recorder w) (w_packageMap w) command (all_files res) = Inr (res, out, pm1)"
  shows "processTranslationUnitAndRespond E request w = Inr (we_uninitialized E, w\<lparr>w_packageMap := pm1\<rparr>)"
proof -
  let ?cb0 = "\<lparr>cb_worker = w, innerStatus = we_uninitialized E, emitIndexRequestId = Shutdown, callbackInvoked = 0\<rparr>"
  have "workerCallback E (req_id request) res ?cb0 = Inr (True, all_files res, ?cb0\<lparr>callbackInvoked := 1\<rparr>)"
    using w(1) by (simp add: workerCallback_def all_files_def)
  from action_answer [where callback = "workerCallback E (req_id request)" and cb = ?cb0, OF u _ _ _ ans this]
  have "processTranslationUnit E command (workerCallback E (req_id request)) (?cb0, mkTuIndexingOutput) =
      Inr (?cb0\<lparr>callbackInvoked := 1, cb_worker := w\<lparr>w_packageMap := pm1\<rparr>\<rparr>, out)" by simp
  then show ?thesis using w(2) by (simp add: processTranslationUnitAndRespond_def Let_def r)
qed

subsection \<open>Example\<close>

definition sample_sema :: "32 word \<Rightarrow> string \<Rightarrow> IndexJobRequest" where
  "sample_sema t compiler = \<lparr>req_id = newTask t, req_job = default_IndexJob\<lparr>job_command :=
     \<lparr>index = 0, workingDirectory = ''/b'', filePath = ''/p/a.cc'', arguments = [compiler]\<rparr>\<rparr>\<rparr>"

definition sample_emit :: "32 word \<Rightarrow> IndexJobRequest" where
  "sample_emit t = \<lparr>req_id = nextSubtask (newTask t), req_job = default_IndexJob\<lparr>job_kind := EmitIndex,
     job_filesToBeIndexed := [\<lparr>fi_path = ''/p/a.cc'', fi_hashValue = 0\<rparr>]\<rparr>\<rparr>"

definition sample_pairs :: "(IndexJobRequest \<times> IndexJobRequest) list" where
  "sample_pairs = [(sample_sema 0 ''clang'', sample_emit 0), (sample_sema 1 ''missing'', sample_emit 1)]"

definition sample_bye :: IndexJobRequest where
  "sample_bye = \<lparr>req_id = Shutdown, req_job = default_IndexJob\<rparr>"

text \<open>Texts of messages that are written as their position among the requests.\<close>

definition sample_messages :: "json_value list" where
  "sample_messages = map (toJSON_IndexJobRequest plain_json) (queued sample_pairs @ [sample_bye])"

definition position_text :: "json_value \<Rightarrow> string" where
  "position_text v = replicate (length (takeWhile (\<lambda>u. u \<noteq> v) sample_messages)) CHR ''x''"

definition position_parse :: "string \<Rightarrow> json_value option" where
  "position_parse s = (if length s < length sample_messages then Some (sample_messages ! length s) else None)"

lemma position_roundtrip: "v \<in> set sample_messages \<Longrightarrow> position_parse (position_text v) = Some v"
proof -
  assume "v \<in> set sample_messages"
  then obtain us vs where m: "sample_messages = us @ v # vs" "v \<notin> set us" by (metis split_list_first)
  then have "takeWhile (\<lambda>u. u \<noteq> v) (us @ v # vs) = us" by (subst takeWhile_append2) auto
  then show ?thesis unfolding position_parse_def position_text_def by (simp add: m(1))
qed

lemma position_text_length: "length (position_text v) \<le> 5"
  using length_takeWhile_le [of "\<lambda>u. u \<noteq> v" sample_messages] by (simp add: position_text_def sample_messages_def queued_def sample_pairs_def)

definition sample_parsed :: ParsedUnit where
  "sample_parsed = \<lparr>pu_env = sample_env, pu_events = [FileChangedEvent 20 EnterFile InvalidFileID], pu_nodes = sample_nodes\<rparr>"

definition sample_worker_env :: "(string \<rightharpoonup> nat \<times> nat \<times> string list, json_value) worker_env" where
  "sample_worker_env = \<lparr>we_queues = plain_queues, we_json = plain_json, we_format = position_text, we_parse = position_parse, we_fs = sample_fs,
     we_orders = sample_consumer_orders, we_invoke = (\<lambda>args dir. if hd args = ''clang'' then [sample_parsed] else []), we_canWrite = (\<lambda>p. True),
     we_micros = (\<lambda>j. 1000), we_uninitialized = DriverTimeout\<rparr>"

definition sample_worker_options :: WorkerOptions where
  "sample_worker_options = \<lparr>wo_projectRootPath = sample_root, wo_mode = Ipc,
     wo_ipcOptions = \<lparr>ipc_sizeHintBytes = 100, ipc_receiveTimeout = 300, ipc_driverId = ''7'', ipc_workerId = 3\<rparr>,
     wo_compdbPath = [], wo_indexOutputPath = [], wo_statsFilePath = [], wo_packageMapPath = [], wo_showCompilerDiagnostics = False,
     wo_showProgress = False, wo_logLevel = ''info'', wo_deterministic = True, wo_measureStatistics = False,
     wo_recordingOptions = \<lparr>filterRegex = [], preprocessorHistoryLogPath = [], preferRelativePaths = False, rec_rootPath = []\<rparr>,
     wo_temporaryOutputDir = ''/t'', wo_workerFault = []\<rparr>"

abbreviation sample_recv :: string where
  "sample_recv \<equiv> driverToWorkerQueueName ''7'' 3"

abbreviation sample_send :: string where
  "sample_send \<equiv> workerToDriverQueueName ''7''"

definition sample_queues :: "string \<rightharpoonup> nat \<times> nat \<times> string list" where
  "sample_queues = [sample_recv \<mapsto> (10, 20, map (request_text sample_worker_env) (queued sample_pairs @ [sample_bye])), sample_send \<mapsto> (10, 20, [])]"

lemma sample_preprocessed: "preprocessed slash_paths sample_popts sample_parsed = Inr sample_entered"
  by (simp add: preprocessed_def sample_parsed_def FileChanged_def enterFile_def loc_isInvalid_def recordedPath_def enterFileImpl_def
      sample_entered_def mkPreprocessorWrapper_def mkHashValueBuilder_def fid_isValid_def sample_env_simps) (simp add: sample_source_def sample_macros_def sample_clang_def)


lemma sample_unit_answer:
  assumes opts: "wo_projectRootPath opts = sample_root" "wo_deterministic opts = True"
  shows "\<exists>out. unit_answer sample_worker_env opts None no_packages (job_command (req_job (sample_sema t ''clang'')))
     [\<lparr>fi_path = ''/p/a.cc'', fi_hashValue = 0\<rparr>] = Inr (\<lparr>wellBehavedFiles = [\<lparr>fi_path = ''/p/a.cc'', fi_hashValue = 0\<rparr>], illBehavedFiles = []\<rparr>, out, no_packages) \<and> map relative_path (documents (out_docsAndExternals out)) = [''a.cc'']"
proof -
  let ?co = "consumer_options opts ''/b'' no_packages" and ?m = "[(''/p/a.cc'', [(0, FileID 1)])] :: ClangIdLookupMap"
  let ?files = "[\<lparr>fi_path = ''/p/a.cc'', fi_hashValue = 0 :: 64 word\<rparr>]"
  have co: "aco_deterministic ?co" "aco_projectRootPath ?co = sample_root" "aco_buildRootPath ?co = sample_build" "aco_packageMap ?co = no_packages"
    by (simp_all add: consumer_options_def opts)
  have computed: "computeFileIdsToBeIndexed sample_fs sample_consumer_orders (clang sample_env) ?files ?m
      (mkFileMetadataMap (aco_projectRootPath ?co) (aco_buildRootPath ?co) (aco_packageMap ?co), []) = Inr (sample_project, [FileID 1])"
    unfolding co sample_env_simps(1) by (rule sample_computed)
  from shard_indexed [OF sample_consumer_orders_ok co(1) computed sample_shard_premises sample_tree_laws sample_nodes_ok] obtain tu where
    ix: "indexTranslationUnit sample_fs sample_consumer_orders sample_env ?co sample_nodes ?files ?m mkMacroIndexer mkTuIndexingOutput =
      Inr (no_packages, shard_of sample_env sample_project [FileID 1] mkMacroIndexer tu)" by (auto simp: sample_project_def)
  have fs: "fs_paths sample_fs = slash_paths" by (simp add: sample_fs_def)
  have ord: "ord_finished sample_consumer_orders = rev" "ord_paths sample_consumer_orders = rev" "ord_hashes sample_consumer_orders = rev" by (simp_all add: sample_consumer_orders_def)
  have invoke: "we_invoke sample_worker_env (clangArguments (job_command (req_job (sample_sema t ''clang'')))) d = [sample_parsed]" for d
    by (simp add: sample_worker_env_def clangArguments_def sample_sema_def)
  have E: "we_fs sample_worker_env = sample_fs" "we_orders sample_worker_env = sample_consumer_orders" "wo_deterministic opts = True"
    "pu_env sample_parsed = sample_env" "pu_nodes sample_parsed = sample_nodes" "workingDirectory (job_command (req_job (sample_sema t ''clang''))) = ''/b''"
    by (simp_all add: sample_worker_env_def opts(2) sample_parsed_def sample_sema_def)
  have "unit_answer sample_worker_env opts None no_packages (job_command (req_job (sample_sema t ''clang''))) ?files =
      Inr (\<lparr>wellBehavedFiles = ?files, illBehavedFiles = []\<rparr>, shard_of sample_env sample_project [FileID 1] mkMacroIndexer tu, no_packages)"
    unfolding unit_answer_def Let_def invoke E list.case fs ord sample_env_simps(1,2)
    using sample_preprocessed sample_flush ix by simp
  moreover have "map relative_path (documents (out_docsAndExternals (shard_of sample_env sample_project [FileID 1] mkMacroIndexer tu))) = [''a.cc'']"
    by (simp add: shard_of_def indexedProjectFiles_Cons getStableFileId_def file_document_def) (simp add: sample_project_def file_document_def)
  ultimately show ?thesis by (intro exI conjI)
qed

lemma sample_session:
  "\<exists>responses out files. session sample_worker_env sample_worker_options None no_packages sample_pairs =
     Inr (responses, worker_shards sample_worker_options (req_id (sample_emit 0)) out @ files) \<and> map fst files = map fst (worker_shards sample_worker_options (req_id (sample_emit 1)) out) \<and>
     map relative_path (documents (out_docsAndExternals out)) = [''a.cc'']"
proof -
  from sample_unit_answer [of sample_worker_options 0] obtain res out where u: "unit_answer sample_worker_env sample_worker_options None no_packages (job_command (req_job (sample_sema 0 ''clang'')))
     [\<lparr>fi_path = ''/p/a.cc'', fi_hashValue = 0\<rparr>] = Inr (res, out, no_packages)" "map relative_path (documents (out_docsAndExternals out)) = [''a.cc'']" by (auto simp: sample_worker_options_def)
  have none: "unit_answer sample_worker_env sample_worker_options None no_packages (job_command (req_job (sample_sema 1 ''missing''))) fs =
      Inr (default_SemaResult, mkTuIndexingOutput, no_packages)" for fs
    by (simp add: unit_answer_def sample_worker_env_def clangArguments_def sample_sema_def)
  have files: "job_filesToBeIndexed (req_job (sample_emit t)) = [\<lparr>fi_path = ''/p/a.cc'', fi_hashValue = 0\<rparr>]" for t by (simp add: sample_emit_def)
  show ?thesis using u by (simp add: sample_pairs_def none files) (auto simp: worker_shards_def)
qed

lemma sample_worker:
  "\<exists>w. mkWorker sample_worker_env sample_package_env 0 T rx valid compdb sample_worker_options sample_queues Map.empty = Inr w \<and> w_recorder w = None \<and> w_packageMap w = no_packages"
proof -
  have q: "sample_queues sample_recv \<noteq> None" "sample_queues sample_send \<noteq> None" using queue_names_differ by (simp_all add: sample_queues_def)
  have "bq_exists plain_queues n s \<longleftrightarrow> s n \<noteq> None" for n s by (simp add: plain_queues_def)
  then have "\<exists>mqp. forWorker plain_queues ''7'' 3 sample_queues = Some mqp" using q by (simp add: forWorker_def queue_open_def)
  then show ?thesis
    by (auto simp: mkWorker_def Let_def sample_worker_options_def sample_worker_env_def mkPackageMap_def mkRecorder_def mkHeaderFilter_def filter_isIdentity_def no_packages_def)
qed

lemma sample_paths:
  "docs_path sample_worker_options (req_id (sample_emit 0)) = ''/t/job-0-worker-3-docs_and_externals.shard.scip''"
  "forwards_path sample_worker_options (req_id (sample_emit 0)) = ''/t/job-0-worker-3-forward_decls.shard.scip''"
  "docs_path sample_worker_options (req_id (sample_emit 1)) = ''/t/job-1-worker-3-docs_and_externals.shard.scip''"
  "forwards_path sample_worker_options (req_id (sample_emit 1)) = ''/t/job-1-worker-3-forward_decls.shard.scip''"
  by (simp_all add: docs_path_def forwards_path_def shardPath_def path_append_def sample_worker_options_def sample_emit_def newTask_def nextSubtask_def
      shardPrefix_def starts_with_def ends_with_def fmt_nat.simps digit_char_def char_of_def bit_0)

theorem worker_answers_requests_witness:
  "\<exists>w w' ix. mkWorker sample_worker_env sample_package_env 0 sample_tool_env (\<lambda>r t. True) (\<lambda>r. True) (\<lambda>p. CannotOpen) sample_worker_options sample_queues Map.empty = Inr w \<and>
     worker_run sample_worker_env 3 w = Some (Inr w') \<and> length (plain_contents sample_send (w_queues w')) = 4 \<and>
     w_files w' ''/t/job-0-worker-3-docs_and_externals.shard.scip'' = Some (IndexFile ix) \<and>
     map relative_path (documents ix) = [''a.cc'']"
proof -
  let ?E = sample_worker_env and ?o = sample_worker_options
  obtain w where w: "mkWorker ?E sample_package_env 0 sample_tool_env (\<lambda>r t. True) (\<lambda>r. True) (\<lambda>p. CannotOpen) ?o sample_queues Map.empty = Inr w"
    "w_recorder w = None" "w_packageMap w = no_packages" using sample_worker by blast
  from sample_session obtain responses out files where s: "session ?E ?o None no_packages sample_pairs = Inr (responses, worker_shards ?o (req_id (sample_emit 0)) out @ files)"
    "map fst files = map fst (worker_shards ?o (req_id (sample_emit 1)) out)" "map relative_path (documents (out_docsAndExternals out)) = [''a.cc'']" by (elim exE conjE) (rule that)
  have laws: "env_laws ?E plain_contents"
    using plain_queue_laws plain_queues_apart json_laws_plain by (simp add: env_laws_def sample_worker_env_def)
  have o: "wo_mode ?o = Ipc" "wo_workerFault ?o = []" "sample_recv = driverToWorkerQueueName (ipc_driverId (wo_ipcOptions ?o)) (unat (ipc_workerId (wo_ipcOptions ?o)))"
    "sample_send = workerToDriverQueueName (ipc_driverId (wo_ipcOptions ?o))" by (simp_all add: sample_worker_options_def)
  have box: "plain_contents sample_recv sample_queues = map (request_text ?E) (queued sample_pairs @ [sample_bye])" "plain_contents sample_send sample_queues = []"
    "get_max_msg_size plain_queues sample_recv sample_queues = 20" "get_max_msg_size plain_queues sample_send sample_queues = 20" "get_max_msg plain_queues sample_send sample_queues = 10"
    using queue_names_differ by (simp_all add: plain_contents_def sample_queues_def plain_queues_def)
  have bye: "req_id sample_bye = Shutdown" "\<forall>p \<in> set sample_pairs. request_pair_ok ?E p" "length sample_pairs = 2"
    by (simp_all add: sample_bye_def sample_pairs_def sample_sema_def sample_emit_def default_IndexJob_def newTask_def nextSubtask_def Shutdown_def SHUTDOWN_VALUE_def
        sample_worker_env_def sample_fs_def tryFrom_def) (simp_all add: slash_paths_def starts_with_def)
  have E: "we_queues ?E = plain_queues" "we_json ?E = plain_json" "we_format ?E = position_text" "we_parse ?E = position_parse"
    "fs_paths (we_fs ?E) = slash_paths" "we_canWrite ?E p" for p by (simp_all add: sample_worker_env_def sample_fs_def)
  have texts: "length (request_text ?E r) \<le> 20" "length (response_text ?E r') \<le> 20" for r r'
    by (simp_all add: request_text_def response_text_def E order_trans [OF position_text_length])
  have read: "readable ?E r" if "r \<in> set (queued sample_pairs @ [sample_bye])" for r
    using that position_roundtrip unfolding readable_def request_text_def E sample_messages_def by auto
  have paths: "fst ` set (worker_shards ?o (req_id (sample_emit 0)) out @ files) =
      {''/t/job-0-worker-3-docs_and_externals.shard.scip'', ''/t/job-0-worker-3-forward_decls.shard.scip'',
       ''/t/job-1-worker-3-docs_and_externals.shard.scip'', ''/t/job-1-worker-3-forward_decls.shard.scip''}"
    using arg_cong [OF s(2), of set] by (auto simp: worker_shards_def sample_paths)
  have "\<forall>path \<in> fst ` set (worker_shards ?o (req_id (sample_emit 0)) out @ files). writable ?E path"
    unfolding paths by (simp add: writable_def E tryFrom_def) (simp add: slash_paths_def starts_with_def)
  then have files: "\<forall>(path, c) \<in> set (worker_shards ?o (req_id (sample_emit 0)) out @ files). writable ?E path" unfolding split_beta by blast
  have "\<exists>w'. worker_run ?E 3 w = Some (Inr w') \<and> plain_contents sample_recv (w_queues w') = [] \<and>
      plain_contents sample_send (w_queues w') = plain_contents sample_send sample_queues @ map (response_text ?E) responses \<and>
      w_files w' = Map.empty ++ map_of (rev (worker_shards ?o (req_id (sample_emit 0)) out @ files)) \<and> map rsp_jobId responses = map req_id (queued sample_pairs)"
    by (rule worker_answers_requests [OF laws w(1) o box(1) bye(1,2)]) (use read texts box bye(3) s(1) w(2,3) files E(1) in simp_all)
  then obtain w' where w': "worker_run ?E 3 w = Some (Inr w')" "plain_contents sample_send (w_queues w') = map (response_text ?E) responses"
      "w_files w' = map_of (rev (worker_shards ?o (req_id (sample_emit 0)) out @ files))" "map rsp_jobId responses = map req_id (queued sample_pairs)" using box(2) by auto
  have "length (plain_contents sample_send (w_queues w')) = 4" using arg_cong [OF w'(4), of length] w'(2) by (simp add: queued_def sample_pairs_def)
  moreover have "map_of (rev files) ''/t/job-0-worker-3-docs_and_externals.shard.scip'' = None"
    using arg_cong [OF s(2), of set] by (simp add: map_of_eq_None_iff worker_shards_def sample_paths)
  then have "w_files w' ''/t/job-0-worker-3-docs_and_externals.shard.scip'' = Some (IndexFile (out_docsAndExternals out))"
    unfolding w'(3) by (simp add: worker_shards_def sample_paths map_add_def)
  ultimately show ?thesis using w(1) w'(1) s(3) by (intro exI conjI)
qed

theorem compdb_status_uninitialised_witness:
  "\<exists>w. wo_mode (w_options w) = Compdb \<and> processTranslationUnitAndRespond sample_worker_env (sample_sema 0 ''clang'') w = Inr (DriverTimeout, w)"
proof -
  let ?E = sample_worker_env and ?o = "sample_worker_options\<lparr>wo_mode := Compdb\<rparr>"
  define w where "w = \<lparr>w_options = ?o, w_packageMap = no_packages, w_messageQueues = None, w_compileCommands = [job_command (req_job (sample_sema 0 ''clang''))],
    w_commandIndex = 1, w_recorder = None, w_totalTimeMicros = 0, w_queues = sample_queues, w_files = Map.empty\<rparr>"
  have o: "wo_mode (w_options w) = Compdb" "we_uninitialized ?E \<noteq> OK" "wo_projectRootPath (w_options w) = sample_root" "wo_deterministic (w_options w) = True"
    "w_recorder w = None" "w_packageMap w = no_packages"
    by (simp_all add: w_def sample_worker_env_def sample_worker_options_def)
  let ?c = "job_command (req_job (sample_sema 0 ''clang''))" and ?res = "\<lparr>wellBehavedFiles = [\<lparr>fi_path = ''/p/a.cc'', fi_hashValue = 0\<rparr>], illBehavedFiles = []\<rparr>"
  have u: "we_invoke ?E (clangArguments ?c) (workingDirectory ?c) = [sample_parsed]" "tryFrom (fs_paths (we_fs ?E)) (workingDirectory ?c) \<noteq> None"
    by (simp_all add: sample_worker_env_def clangArguments_def sample_sema_def sample_fs_def tryFrom_def) (simp add: slash_paths_def starts_with_def)
  have files: "all_files ?res = [\<lparr>fi_path = ''/p/a.cc'', fi_hashValue = 0\<rparr>]" by (simp add: all_files_def)
  from sample_unit_answer [OF o(3,4), of 0] obtain out where
    "unit_answer ?E (w_options w) (w_recorder w) (w_packageMap w) ?c (all_files ?res) = Inr (?res, out, no_packages)" unfolding files o(5,6) by auto
  from compdb_status_uninitialised [OF o(1,2) refl u this] have "processTranslationUnitAndRespond ?E (sample_sema 0 ''clang'') w = Inr (DriverTimeout, w)"
    by (simp add: sample_worker_env_def w_def)
  then show ?thesis using o(1) by blast
qed

end
