(* ===== verification/Unit_Flow.thy ===== *)
theory Unit_Flow
  imports Worker_Correct Driver_Run Index_Merging
begin

text \<open>
  One translation unit on its way through both processes. The step relation of the driver assumes of its workers that they answer
  the job they have been given with a result of the right kind and a well-formed report (\<open>worker_reply\<close>). Here the assumption is
  discharged for the model of the worker: the responses of the specification \<open>session\<close>, which theory \<open>Worker_Correct\<close> shows the
  worker to refine, are such answers, and the driver makes of them what it should.
\<close>

subsection \<open>The report of a worker is well-formed\<close>

definition idmap_paths_ok :: "llvm_path \<Rightarrow> ClangIdLookupMap \<Rightarrow> bool" where
  "idmap_paths_ok L m \<longleftrightarrow> (\<forall>(p, hs) \<in> set m. hs \<noteq> [] \<and> is_absolute L p)"

lemma hmap_update_values: "set (hmap_update k v m) \<subseteq> insert (k, v) (set m)"
  by (induction m) (auto split: if_splits)

lemma hmap_update_nonempty: "m \<noteq> [] \<Longrightarrow> hmap_update k v m \<noteq> []"
  by (cases m) (auto split: if_splits)

lemma rfold_keeps:
  assumes "\<And>x s s'. f x s = Inr s' \<Longrightarrow> P s \<Longrightarrow> P s'"
  shows "rfold f xs s = Inr s' \<Longrightarrow> P s \<Longrightarrow> P s'"
proof (induction xs arbitrary: s)
  case (Cons x xs)
  then obtain s1 where "f x s = Inr s1" "rfold f xs s1 = Inr s'" by (auto simp: result_simps)
  with Cons.IH [of s1] Cons.prems(2) assms show ?case by blast
qed simp

lemma idmap_insert_paths_ok:
  assumes "idmap_paths_ok L m" "is_absolute L p"
  shows "idmap_paths_ok L (idmap_insert p h f m)"
proof (cases "map_of m p")
  case None
  with assms show ?thesis by (auto simp: idmap_insert_def idmap_paths_ok_def)
next
  case (Some hs)
  then have "hs \<noteq> []" using assms(1) by (auto simp: idmap_paths_ok_def dest!: map_of_SomeD)
  then have "hmap_update h f hs \<noteq> []" by (rule hmap_update_nonempty)
  with Some assms hmap_update_values [of p "hmap_update h f hs" m] show ?thesis
    by (auto simp: idmap_insert_def idmap_paths_ok_def)
qed

lemma saveFinished_paths_ok:
  assumes "saveFinished A L fh st = Inr st'" "idmap_paths_ok L (fst st)"
  shows "idmap_paths_ok L (fst st')"
  using assms idmap_insert_paths_ok [OF assms(2)]
  by (auto simp: saveFinished_def getAbsPath_def tryFrom_def result_simps split: option.splits if_splits)

lemma flushState_sema_ok:
  assumes flush: "flushState A L w opts ordF ordP ordH default_SemaResult [] pp = Inr (r, m, mx)"
    and ord: "permutes_lists ordP" "permutes_lists ordH"
  shows "sema_result_ok L r"
proof -
  from flush obtain fs e r0 where
    saved: "rfold (saveFinished A L) fs ([], False) = Inr (m, e)"
    and rep: "forEachPathAndHash ordP (reportPath ordH) m default_SemaResult = Inr r0"
    and r: "r = (if opt_deterministic opts then sortResult r0 else r0)"
    by (auto simp: flushState_def result_simps)
  have "idmap_paths_ok L (fst (m, e))"
    by (rule rfold_keeps [where P = "\<lambda>st. idmap_paths_ok L (fst st)", OF _ saved])
      (simp_all add: saveFinished_paths_ok, simp add: idmap_paths_ok_def)
  moreover have "set (ordP m) = set m" using ord(1) by (metis mset_eq_setD permutes_lists_def)
  ultimately have all: "\<forall>(p, hs) \<in> set (ordP m). hs \<noteq> [] \<and> is_absolute L p" by (simp add: idmap_paths_ok_def)
  have "sema_result_ok L default_SemaResult" by (simp add: default_SemaResult_def sema_result_ok_def)
  from forEachPath_reports [OF ord(2) all this] rep have "sema_result_ok L r0" by (auto simp: forEachPathAndHash_def)
  then show ?thesis by (simp add: r sortResult_same)
qed

lemma unit_answer_sema_ok:
  assumes ans: "unit_answer E opts recorder pm command files = Inr (res, out, pm1)" and ord: "consumer_orders_ok (we_orders E)"
  shows "sema_result_ok (fs_paths (we_fs E)) res"
proof (cases "we_invoke E (clangArguments command) (workingDirectory command)")
  case Nil
  with ans show ?thesis by (auto simp: unit_answer_def default_SemaResult_def sema_result_ok_def)
next
  case (Cons u us)
  moreover from this have "us = []" using ans by (cases us) (simp_all add: unit_answer_def)
  ultimately obtain pp m mx where
    "flushState (clang (pu_env u)) (fs_paths (we_fs E)) (te_wyhash (pu_env u)) \<lparr>opt_recorder = recorder, opt_deterministic = wo_deterministic opts\<rparr>
       (ord_finished (we_orders E)) (ord_paths (we_orders E)) (ord_hashes (we_orders E)) default_SemaResult [] pp = Inr (res, m, mx)"
    using ans by (auto simp: unit_answer_def Let_def result_simps)
  then show ?thesis by (rule flushState_sema_ok) (use ord in \<open>simp_all add: consumer_orders_ok_def\<close>)
qed

subsection \<open>The name of a shard\<close>

lemma fmt_nat_no_separator: "preferred_separator \<notin> set (fmt_nat n)"
  using fmt_nat_digits [of n] by (auto simp: is_digit_def)

lemma shardPrefix_no_separator: "preferred_separator \<notin> set (shardPrefix t w)"
  using fmt_nat_no_separator by (simp add: shardPrefix_def)

lemma path_append_separated:
  assumes "p \<noteq> []" "preferred_separator \<notin> set q"
  shows "\<exists>d. path_append p q = d @ preferred_separator # q"
proof (cases "ends_with p [preferred_separator]")
  case True
  then obtain d where "p = d @ [preferred_separator]" using append_take_drop_id [of "length p - 1" p] by (simp add: ends_with_def) metis
  with True assms show ?thesis by (cases q) (auto simp: path_append_def starts_with_def)
next
  case False
  with assms show ?thesis by (cases q) (auto simp: path_append_def starts_with_def)
qed

lemma docs_path_job:
  assumes "splits_text strSplit" "wo_temporaryOutputDir opts \<noteq> []"
  shows "parsedJobId strSplit (docs_path opts jobId) = Some (taskId jobId)"
proof -
  let ?prefix = "shardPrefix (taskId jobId) (unat (ipc_workerId (wo_ipcOptions opts)))" and ?rest = "''docs_and_externals.shard.scip''"
  obtain d where "path_append (wo_temporaryOutputDir opts) ?prefix = d @ preferred_separator # ?prefix"
    using path_append_separated [OF assms(2) shardPrefix_no_separator] by blast
  then have "docs_path opts jobId = d @ preferred_separator # (?prefix @ CHR ''-'' # ?rest)"
    by (simp add: docs_path_def shardPath_def)
  then have fname: "fileName (docs_path opts jobId) = Some (?prefix @ CHR ''-'' # ?rest)"
    using shardPrefix_no_separator by (auto simp: fileName_eq)
  have split: "strSplit (join_with (CHR ''-'') ps) (CHR ''-'') = ps"
    if "ps \<noteq> []" "\<forall>p \<in> set ps. CHR ''-'' \<notin> set p" for ps
    using assms(1) that unfolding splits_text_def by blast
  have "tryParseJobId strSplit (?prefix @ CHR ''-'' # ?rest) = Some (taskId jobId)"
    unfolding tryParseJobId_def shardPrefix_join_rest by (subst split) (simp_all add: from_chars_fmt_nat Let_def)
  then show ?thesis by (simp add: parsedJobId_def fname)
qed

subsection \<open>Through the driver\<close>

text \<open>The files that the driver asks for after a report.\<close>

definition planned_files :: "llvm_path \<Rightarrow> SemanticAnalysisJobResult \<Rightarrow> FileIndexingPlanner \<Rightarrow> PreprocessedFileInfo list" where
  "planned_files L res pl = (case saveSemaResult L res pl of Inl e \<Rightarrow> [] | Inr (pl', files) \<Rightarrow> files)"

definition emit_job :: "PreprocessedFileInfo list \<Rightarrow> IndexJob" where
  "emit_job files = \<lparr>job_kind = EmitIndex, job_command = default_CommandObject, job_filesToBeIndexed = files\<rparr>"

definition second_half :: "32 word \<Rightarrow> JobId" where
  "second_half u = \<lparr>taskId = u, subtaskId = 1\<rparr>"

lemma default_sema_ok: "sema_result_ok L default_SemaResult"
  by (simp add: default_SemaResult_def sema_result_ok_def)

lemma sema_response_flow:
  fixes d :: "'p Driver"
  assumes inv: "sched_inv (scheduler d)" "planner_inv (planner d)"
    and w: "w < length (workers (scheduler d))" "cur (scheduler d) w = Some (newTask u)"
    and t: "allJobList (scheduler d) (newTask u) = Some t"
    and rsp: "unat (rsp_workerId rsp) = w" "rsp_jobId rsp = newTask u" "res_kind (rsp_result rsp) = SemanticAnalysis"
      "sema_result_ok L (res_semanticAnalysis (rsp_result rsp))"
    and send: "\<forall>r. send w r"
  shows "\<exists>d'. processWorkerResponse L send now h rsp d = Inr d' \<and> sched_inv (scheduler d') \<and> planner_inv (planner d') \<and>
    cur (scheduler d') w = Some (second_half u) \<and> w < length (workers (scheduler d')) \<and>
    allJobList (scheduler d') = (allJobList (scheduler d))(second_half u \<mapsto>
      \<lparr>tj_job = emit_job (planned_files L (res_semanticAnalysis (rsp_result rsp)) (planner d)), assignedWorker = Some w\<rparr>) \<and>
    recorded (planner d') = recorded (planner d) \<union> set (reported (res_semanticAnalysis (rsp_result rsp))) \<and>
    info_pairs (planned_files L (res_semanticAnalysis (rsp_result rsp)) (planner d)) =
      fresh_pairs (recorded (planner d)) (reported (res_semanticAnalysis (rsp_result rsp))) \<and>
    allShardPaths d' = allShardPaths d \<and> options d' = options d"
proof -
  let ?r = "res_semanticAnalysis (rsp_result rsp)"
  have kind: "job_kind (tj_job t) = SemanticAnalysis" using kinds1 [OF inv(1) t] by (simp add: newTask_def)
  obtain pl files where pl: "saveSemaResult L ?r (planner d) = Inr (pl, files)" "planner_inv pl"
      "recorded pl = recorded (planner d) \<union> set (reported ?r)" "info_pairs files = fresh_pairs (recorded (planner d)) (reported ?r)"
    using saveSemaResult_spec [OF inv(2) rsp(4)] by blast
  have files: "planned_files L ?r (planner d) = files" by (simp add: planned_files_def pl(1))
  obtain s' where s': "createSubtaskAndScheduleOnWorker now w (newTask u) (emit_job files) (released w (newTask u) (scheduler d)) =
        Inr (\<lparr>req_id = second_half u, req_job = emit_job files\<rparr>, s')" "sched_inv s'" "cur s' w = Some (second_half u)"
      "length (workers s') = length (workers (scheduler d))"
      "allJobList s' = (allJobList (scheduler d))(second_half u \<mapsto> \<lparr>tj_job = emit_job files, assignedWorker = Some w\<rparr>)"
    using createSubtask_inv [OF inv(1) w, of "emit_job files" now] by (auto simp: emit_job_def second_half_def)
  have "processWorkerResponse L send now h rsp d = Inr (d\<lparr>planner := pl, scheduler := s'\<rparr>)"
    using markCompleted_current [OF inv(1) w t kind] pl(1) s'(1) send
    by (simp add: processWorkerResponse_def rsp handleSemaResult_def emit_job_def)
  then show ?thesis using s' pl w(1) files by simp
qed

lemma emit_response_flow:
  fixes d :: "'p Driver"
  assumes inv: "sched_inv (scheduler d)"
    and w: "w < length (workers (scheduler d))" "cur (scheduler d) w = Some (second_half u)"
    and t: "allJobList (scheduler d) (newTask u) = Some t" "allJobList (scheduler d) (second_half u) = Some t2"
    and rsp: "unat (rsp_workerId rsp) = w" "rsp_jobId rsp = second_half u" "res_kind (rsp_result rsp) = EmitIndex"
  shows "\<exists>d'. processWorkerResponse L send now h rsp d = Inr d' \<and> scheduler d' = released w (second_half u) (scheduler d) \<and>
    planner d' = planner d \<and> options d' = options d \<and>
    allShardPaths d' = allShardPaths d @ [shardPaths (res_emitIndex (rsp_result rsp))] \<and>
    getTuPath (scheduler d') (newTask u) = Inr (filePath (job_command (tj_job t)))"
proof -
  let ?s' = "released w (second_half u) (scheduler d)"
  have kind: "job_kind (tj_job t) = SemanticAnalysis" "job_kind (tj_job t2) = EmitIndex"
    using kinds1 [OF inv t(1)] kinds1 [OF inv t(2)] by (simp_all add: newTask_def second_half_def)
  have path: "getTuPath ?s' (newTask u) = Inr (filePath (job_command (tj_job t)))"
    using t(1) kind(1) by (simp add: getTuPath_def released_def set_worker_def)
  have "handleEmitResult (second_half u) r (d\<lparr>scheduler := ?s'\<rparr>) = Inr d' \<Longrightarrow>
      scheduler d' = ?s' \<and> planner d' = planner d \<and> options d' = options d \<and> allShardPaths d' = allShardPaths d @ [shardPaths r]" for r d'
    by (auto simp: handleEmitResult_def Let_def result_simps split: if_splits)
  moreover have "\<exists>d'. handleEmitResult (second_half u) r (d\<lparr>scheduler := ?s'\<rparr>) = Inr d'" for r
    using path by (simp add: handleEmitResult_def Let_def second_half_def)
  moreover have "processWorkerResponse L send now h rsp d =
      handleEmitResult (second_half u) (res_emitIndex (rsp_result rsp)) (d\<lparr>scheduler := ?s'\<rparr>)"
    using markCompleted_current [OF inv w t(2) kind(2)] by (simp add: processWorkerResponse_def rsp)
  ultimately show ?thesis using path by metis
qed

subsection \<open>Properties\<close>

text \<open>
  C4: A translation unit on its way through driver and worker. Let a worker have been given the semantic analysis of a
  translation unit, and let the indexing of the files that the planner picks from its report succeed. Then the responses
  of the worker are answers that the driver may rely on. After the first, the worker has the job to index exactly those
  pairs of a path and a hash value of the report that no other translation unit was given before. After the second, the
  worker is free, both shards are recorded, and the identifier in the name of the shard leads back to the main file.
\<close>

theorem unit_indexed_end_to_end:
  fixes c :: "'p config" and opts :: WorkerOptions
  assumes inv: "sched_inv (scheduler (cfg_driver c))" "planner_inv (planner (cfg_driver c))" "mail_ok L (scheduler (cfg_driver c)) (cfg_queue c)"
    and w: "w < length (workers (scheduler (cfg_driver c)))" "cur (scheduler (cfg_driver c)) w = Some (newTask u)" "unat (ipc_workerId (wo_ipcOptions opts)) = w"
    and t: "allJobList (scheduler (cfg_driver c)) (newTask u) = Some t" "newTask u \<notin> set (map rsp_jobId (cfg_queue c))"
    and env: "consumer_orders_ok (we_orders E)" "fs_paths (we_fs E) = L" "splits_text strSplit" "wo_temporaryOutputDir opts \<noteq> []"
    and send: "\<forall>r. send w r"
    and ans: "unit_answer E opts recorder pm (job_command (tj_job t)) (planned_files L res (planner (cfg_driver c))) = Inr (res, out, pm1)"
  shows "let d = cfg_driver c; files = planned_files L res (planner d); first = sema_response opts (newTask u) res;
      second = emit_response opts (second_half u) (we_micros E (newTask u))
    in session E opts recorder pm [(\<lparr>req_id = newTask u, req_job = tj_job t\<rparr>, \<lparr>req_id = second_half u, req_job = emit_job files\<rparr>)] =
      Inr ([first, second], worker_shards opts (second_half u) out) \<and>
    worker_reply L c first \<and>
    (\<exists>d1. processWorkerResponse L send now h first d = Inr d1 \<and> cur (scheduler d1) w = Some (second_half u) \<and>
      allJobList (scheduler d1) (second_half u) = Some \<lparr>tj_job = emit_job files, assignedWorker = Some w\<rparr> \<and>
      info_pairs files = fresh_pairs (recorded (planner d)) (reported res) \<and>
      recorded (planner d1) = recorded (planner d) \<union> set (reported res) \<and>
      worker_reply L (c\<lparr>cfg_driver := d1\<rparr>) second \<and>
      (\<exists>d2. processWorkerResponse L send now' h' second d1 = Inr d2 \<and> cur (scheduler d2) w = None \<and> w \<in> set (idleWorkers (scheduler d2)) \<and>
        allShardPaths d2 = allShardPaths d @ [\<lparr>docsAndExternals = docs_path opts (second_half u), forwardDecls = forwards_path opts (second_half u)\<rparr>] \<and>
        parsedJobId strSplit (docs_path opts (second_half u)) = Some u \<and>
        getTuPath (scheduler d2) (newTask u) = Inr (filePath (job_command (tj_job t)))))"
proof -
  define d where "d = cfg_driver c"
  define files where "files = planned_files L res (planner (cfg_driver c))"
  define first where "first = sema_response opts (newTask u) res"
  define second where "second = emit_response opts (second_half u) (we_micros E (newTask u))"
  have first: "unat (rsp_workerId first) = w" "rsp_jobId first = newTask u" "res_kind (rsp_result first) = SemanticAnalysis"
      "res_semanticAnalysis (rsp_result first) = res"
    using w(3) by (simp_all add: first_def sema_response_def response_def)
  have second: "unat (rsp_workerId second) = w" "rsp_jobId second = second_half u" "res_kind (rsp_result second) = EmitIndex"
      "res_semanticAnalysis (rsp_result second) = default_SemaResult"
      "shardPaths (res_emitIndex (rsp_result second)) = \<lparr>docsAndExternals = docs_path opts (second_half u), forwardDecls = forwards_path opts (second_half u)\<rparr>"
    using w(3) by (simp_all add: second_def emit_response_def response_def)
  have sema: "sema_result_ok L res" using unit_answer_sema_ok [OF ans env(1)] env(2) by simp
  have kind: "job_kind (tj_job t) = SemanticAnalysis" using kinds1 [OF inv(1) t(1)] by (simp add: newTask_def)
  have answers: "session E opts recorder pm [(\<lparr>req_id = newTask u, req_job = tj_job t\<rparr>, \<lparr>req_id = second_half u, req_job = emit_job files\<rparr>)] =
      Inr ([first, second], worker_shards opts (second_half u) out)"
    using ans by (simp add: emit_job_def files_def first_def second_def)
  have reply1: "worker_reply L c first"
    using w t kind sema by (simp add: worker_reply_def Let_def first)
  obtain d1 where d1: "processWorkerResponse L send now h first d = Inr d1" "sched_inv (scheduler d1)"
      "cur (scheduler d1) w = Some (second_half u)" "w < length (workers (scheduler d1))"
      "allJobList (scheduler d1) = (allJobList (scheduler d))(second_half u \<mapsto> \<lparr>tj_job = emit_job files, assignedWorker = Some w\<rparr>)"
      "recorded (planner d1) = recorded (planner d) \<union> set (reported res)"
      "info_pairs files = fresh_pairs (recorded (planner d)) (reported res)" "allShardPaths d1 = allShardPaths d"
    using sema_response_flow [where d = "cfg_driver c" and rsp = first and L = L and send = send and now = now and h = h, OF inv(1,2) w(1,2) t(1) first(1-3) _ send]
      sema unfolding first(4) d_def files_def by blast
  have "second_half u \<notin> set (map rsp_jobId (cfg_queue c))"
  proof -
    have "newTask u \<in> wipJobs (scheduler d)" using wip_iff [OF inv(1)] w(1,2) by (auto simp: d_def)
    then have "allJobList (scheduler d) (second_half u) = None" using kinds2 [OF inv(1), of u] unfolding second_half_def d_def by blast
    then show ?thesis using inv(3) by (force simp: mail_ok_def expected_response_def d_def)
  qed
  then have reply2: "worker_reply L (c\<lparr>cfg_driver := d1\<rparr>) second"
    using d1(3-5) default_sema_ok by (simp add: worker_reply_def Let_def second emit_job_def)
  have t1: "allJobList (scheduler d1) (newTask u) = Some t"
    using d1(5) t(1) by (simp add: d_def second_half_def newTask_def)
  have t2: "allJobList (scheduler d1) (second_half u) = Some \<lparr>tj_job = emit_job files, assignedWorker = Some w\<rparr>" using d1(5) by simp
  obtain d2 where d2: "processWorkerResponse L send now' h' second d1 = Inr d2" "scheduler d2 = released w (second_half u) (scheduler d1)"
      "allShardPaths d2 = allShardPaths d1 @ [shardPaths (res_emitIndex (rsp_result second))]"
      "getTuPath (scheduler d2) (newTask u) = Inr (filePath (job_command (tj_job t)))"
    using emit_response_flow [where d = d1 and rsp = second and L = L and send = send and now = now' and h = h', OF d1(2,4,3) t1 t2 second(1-3)] by blast
  have free: "cur (scheduler d2) w = None" "w \<in> set (idleWorkers (scheduler d2))"
    using d2(2) d1(4) by (simp_all add: released_def set_worker_def)
  note shards = d2(3) [unfolded second(5) d1(8)]
  have parsed: "parsedJobId strSplit (docs_path opts (second_half u)) = Some u"
    using docs_path_job [OF env(3,4)] by (simp add: second_half_def)
  show ?thesis
    unfolding Let_def d_def [symmetric] files_def [symmetric, folded d_def] first_def [symmetric] second_def [symmetric]
    by (intro conjI exI [of _ d1] exI [of _ d2]) (fact answers reply1 reply2 d1 t2 d2 free shards parsed)+
qed

text \<open>One worker, which has been given the semantic analysis of \<^verbatim>\<open>/p/a.cc\<close>.\<close>

definition flow_scheduler :: Scheduler where
  "flow_scheduler = \<lparr>
     workers = [\<lparr>status = Busy, processHandle = 10, startTime = 5, currentlyProcessing = Some (newTask 0)\<rparr>],
     idleWorkers = [], stoppedWorkers = [],
     allJobList = [newTask 0 \<mapsto> \<lparr>tj_job = req_job (sample_sema 0 ''clang''), assignedWorker = Some 0\<rparr>],
     pendingJobs = [], wipJobs = {newTask 0}, maybeErroredJobs = {}\<rparr>"

definition flow_config :: "unit config" where
  "flow_config = \<lparr>cfg_phase = Waiting, cfg_refill = 1, cfg_driver = (initial_driver sample_options ())\<lparr>scheduler := flow_scheduler\<rparr>,
     cfg_queue = [], completed = {}, lost = {}\<rparr>"

definition flow_options :: WorkerOptions where
  "flow_options = sample_worker_options\<lparr>wo_ipcOptions := \<lparr>ipc_sizeHintBytes = 1000, ipc_receiveTimeout = 300, ipc_driverId = ''7'', ipc_workerId = 0\<rparr>\<rparr>"

lemma flow_sched_inv: "sched_inv flow_scheduler"
proof -
  have one: "(w < length (workers flow_scheduler)) = (w = 0)" for w by (auto simp: flow_scheduler_def)
  have "workers_ok flow_scheduler" unfolding workers_ok_def one by (auto simp: flow_scheduler_def)
  moreover have "wip_ok flow_scheduler" unfolding wip_ok_def one by (auto simp: flow_scheduler_def tracked_def)
  moreover have "pending_ok flow_scheduler" by (simp add: pending_ok_def flow_scheduler_def)
  moreover have "errored_ok flow_scheduler" by (simp add: errored_ok_def flow_scheduler_def)
  moreover have "kinds_ok flow_scheduler"
    by (auto simp: kinds_ok_def flow_scheduler_def newTask_def sample_sema_def default_IndexJob_def split: if_splits)
  ultimately show ?thesis by (simp add: sched_inv_def)
qed

theorem unit_indexed_end_to_end_witness:
  "\<exists>res d1 d2. processWorkerResponse slash_paths (\<lambda>w r. True) 9 99 (sema_response flow_options (newTask 0) res) (cfg_driver flow_config) = Inr d1 \<and>
     processWorkerResponse slash_paths (\<lambda>w r. True) 10 98 (emit_response flow_options (second_half 0) (we_micros sample_worker_env (newTask 0))) d1 = Inr d2 \<and>
     length (allShardPaths d2) = 1 \<and> getTuPath (scheduler d2) (newTask 0) = Inr ''/p/a.cc''"
proof -
  let ?c = flow_config and ?E = sample_worker_env and ?o = flow_options and ?job = "req_job (sample_sema 0 ''clang'')"
  let ?files = "[\<lparr>fi_path = ''/p/a.cc'', fi_hashValue = 0 :: 64 word\<rparr>]"
  define res where "res = \<lparr>wellBehavedFiles = ?files, illBehavedFiles = []\<rparr>"
  have d: "scheduler (cfg_driver ?c) = flow_scheduler" "planner (cfg_driver ?c) = []" "cfg_queue ?c = []" "allShardPaths (cfg_driver ?c) = []"
    by (simp_all add: flow_config_def initial_driver_def)
  have planned: "planned_files slash_paths res (planner (cfg_driver ?c)) = ?files"
    by (simp add: planned_files_def d res_def saveSemaResult_def saveWellBehaved_def mkAbsolutePath_def tryFrom_def insertHash_def Let_def hmap_emplace_def)
      (simp add: slash_paths_def starts_with_def)
  obtain out where ans: "unit_answer ?E ?o None no_packages (job_command ?job) ?files = Inr (res, out, no_packages)"
    using sample_unit_answer [of ?o 0] by (auto simp: flow_options_def sample_worker_options_def res_def)
  have E: "consumer_orders_ok (we_orders ?E)" "fs_paths (we_fs ?E) = slash_paths"
    using sample_consumer_orders_ok by (simp_all add: sample_worker_env_def sample_fs_def)
  have s: "0 < length (workers flow_scheduler)" "cur flow_scheduler 0 = Some (newTask 0)"
    "allJobList flow_scheduler (newTask 0) = Some \<lparr>tj_job = ?job, assignedWorker = Some 0\<rparr>"
    by (simp_all add: flow_scheduler_def)
  have inv: "sched_inv (scheduler (cfg_driver ?c))" "planner_inv (planner (cfg_driver ?c))"
    "mail_ok slash_paths (scheduler (cfg_driver ?c)) (cfg_queue ?c)"
    using flow_sched_inv by (simp_all add: d planner_inv_def mail_ok_def)
  have o: "unat (ipc_workerId (wo_ipcOptions ?o)) = 0" "wo_temporaryOutputDir ?o \<noteq> []" by (simp_all add: flow_options_def sample_worker_options_def)
  let ?t = "\<lparr>tj_job = ?job, assignedWorker = Some 0\<rparr>"
  have s': "0 < length (workers (scheduler (cfg_driver ?c)))" "cur (scheduler (cfg_driver ?c)) 0 = Some (newTask 0)"
    "allJobList (scheduler (cfg_driver ?c)) (newTask 0) = Some ?t" "newTask 0 \<notin> set (map rsp_jobId (cfg_queue ?c))"
    unfolding d using s by simp_all
  have ans': "unit_answer ?E ?o None no_packages (job_command (tj_job ?t)) (planned_files slash_paths res (planner (cfg_driver ?c))) =
      Inr (res, out, no_packages)"
    using ans unfolding planned by simp
  have send: "\<forall>r. (\<lambda>w r. True) (0 :: nat) r" by simp
  note flow = unit_indexed_end_to_end [where now = 9 and h = 99 and now' = 10 and h' = 98 and send = "\<lambda>w r. True",
    OF inv s'(1,2) o(1) s'(3,4) E splits_text_split_on o(2) send ans', unfolded Let_def]
  have path: "filePath (job_command (tj_job ?t)) = ''/p/a.cc''" by (simp add: sample_sema_def)
  from flow obtain d1 d2 where
    "processWorkerResponse slash_paths (\<lambda>w r. True) 9 99 (sema_response ?o (newTask 0) res) (cfg_driver ?c) = Inr d1"
    "processWorkerResponse slash_paths (\<lambda>w r. True) 10 98 (emit_response ?o (second_half 0) (we_micros ?E (newTask 0))) d1 = Inr d2"
    "length (allShardPaths d2) = 1" "getTuPath (scheduler d2) (newTask 0) = Inr ''/p/a.cc''"
    unfolding path d by (elim conjE exE) (erule that, assumption, simp, assumption)
  then show ?thesis by (intro exI conjI)
qed

end
