(* ===== verification/Main_Options.thy ===== *)
theory Main_Options
  imports Worker "HOL-Library.Monad_Syntax"
begin

text \<open>
  The start of the program, indexer/main.cc: the table of command line options, what the options mean, and the choice between
  driver and worker.

  The library \<^verbatim>\<open>cxxopts\<close>, which splits the command line, is the record \<open>cxxopts\<close>. It is given the table
  and the arguments and returns, for every option, how often it was given and the text it is set to, which is the text of the last
  occurrence or the default; a failure to parse is an exception, \<open>None\<close>. The predicate \<open>cxxopts_laws\<close> says
  what the library documents for arguments of the forms \<^verbatim>\<open>--name=value\<close> and \<^verbatim>\<open>--name\<close>, the only ones the driver writes.

  The last theorem relates the two processes: the arguments that the driver writes for a worker are read back by the worker as the
  options that the driver has.
\<close>

subsection \<open>The option table\<close>

datatype option_kind = BoolOption | StringOption | UintOption nat \<comment> \<open>the width in bits\<close>

record option_spec =
  opt_group :: string
  opt_short :: string
  opt_long :: string
  opt_kind :: option_kind
  opt_default :: "string option"

definition spec :: "string \<Rightarrow> string \<Rightarrow> option_kind \<Rightarrow> string option \<Rightarrow> option_spec" where
  "spec grp long kind dflt =
     \<lparr>opt_group = grp, opt_short = [], opt_long = long, opt_kind = kind, opt_default = dflt\<rparr>"

definition option_specs :: "option_spec list" where
  "option_specs =
     [spec [] ''compdb-path'' StringOption (Some ''compile_commands.json''),
      spec [] ''index-output-path'' StringOption (Some ''index.scip''),
      spec [] ''package-map-path'' StringOption None,
      (spec [] ''jobs'' (UintOption 32) None)\<lparr>opt_short := ''j''\<rparr>,
      spec [] ''log-level'' StringOption (Some ''info''),
      spec [] ''no-progress-report'' BoolOption None,
      spec [] ''show-compiler-diagnostics'' BoolOption None,
      spec [] ''version'' BoolOption None,
      (spec [] ''help'' BoolOption None)\<lparr>opt_short := ''h''\<rparr>,
      spec [] ''help-all'' BoolOption None,
      spec ''Limits'' ''ipc-size-hint-bytes'' (UintOption 64) (Some ''2000000''),
      spec ''Limits'' ''receive-timeout-seconds'' (UintOption 32) (Some ''300''),
      spec ''Debugging'' ''worker-mode'' StringOption (Some ''''),
      spec ''Debugging'' ''deterministic'' BoolOption None,
      spec ''Debugging'' ''temporary-output-dir'' StringOption None,
      spec ''Debugging'' ''supplementary-output-dir'' StringOption (Some ''scip-clang-supplementary-output''),
      spec ''Debugging'' ''preprocessor-record-history-filter'' StringOption None,
      spec ''Profiling'' ''print-statistics-path'' StringOption None,
      spec ''Profiling'' ''measure-statistics'' BoolOption None,
      spec ''scip-clang internal testing'' ''no-stack-trace'' BoolOption None,
      spec ''scip-clang internal testing'' ''force-worker-fault'' StringOption (Some ''''),
      spec ''scip-clang internal testing'' ''testing'' BoolOption None,
      spec ''Internal'' ''preprocessor-history-log-path'' StringOption None,
      spec ''Internal'' ''driver-id'' StringOption None,
      spec ''Internal'' ''worker-id'' (UintOption 64) None]"

record cxxopts_result =
  cx_count :: "string \<Rightarrow> nat"
  cx_text :: "string \<Rightarrow> string option"
  cx_unmatched :: "string list"

record cxxopts =
  cx_parse :: "option_spec list \<Rightarrow> string list \<Rightarrow> cxxopts_result option"
  cx_uint :: "nat \<Rightarrow> string \<Rightarrow> nat option"
  cx_bool :: "string \<Rightarrow> bool option"

subsection \<open>Parsing\<close>

text \<open>
  An option that is bound to a field sets the field when it has a text; otherwise the field keeps its initial value, which is zero,
  false or empty except for the number of workers.
\<close>

definition bound_string :: "cxxopts_result \<Rightarrow> string \<Rightarrow> string \<Rightarrow> string" where
  "bound_string r long initial = (case cx_text r long of None \<Rightarrow> initial | Some t \<Rightarrow> t)"

definition bound_uint :: "cxxopts \<Rightarrow> cxxopts_result \<Rightarrow> nat \<Rightarrow> string \<Rightarrow> nat \<Rightarrow> nat option" where
  "bound_uint X r w long initial = (case cx_text r long of None \<Rightarrow> Some initial | Some t \<Rightarrow> cx_uint X w t)"

definition bound_bool :: "cxxopts \<Rightarrow> cxxopts_result \<Rightarrow> string \<Rightarrow> bool \<Rightarrow> bool option" where
  "bound_bool X r long initial = (case cx_text r long of None \<Rightarrow> Some initial | Some t \<Rightarrow> cx_bool X t)"

definition initialOptions :: "string \<Rightarrow> nat \<Rightarrow> WorkerCliOptions" where
  "initialOptions executable hardwareConcurrency =
     \<lparr>cli_compdbPath = [], cli_scipClangExecutablePath = executable, cli_temporaryOutputDir = [], cli_indexOutputPath = [],
      cli_statsFilePath = [], cli_packageMapPath = [], cli_showCompilerDiagnostics = False, cli_showProgress = False,
      cli_ipcSizeHintBytes = 0, cli_receiveTimeout = 0, cli_numWorkers = hardwareConcurrency, cli_logLevel = ''trace'',
      cli_deterministic = False, cli_preprocessorRecordHistoryFilterRegex = [], cli_supplementaryOutputDir = [],
      cli_originalArgv = [], cli_isTesting = False, cli_workerFault = [], cli_noStacktrace = False, cli_workerMode = [],
      cli_measureStatistics = False, cli_preprocessorHistoryLogPath = [], cli_driverId = [], cli_workerId = 0\<rparr>"

definition bindOptions :: "cxxopts \<Rightarrow> cxxopts_result \<Rightarrow> WorkerCliOptions \<Rightarrow> WorkerCliOptions option" where
  "bindOptions X r cli = do {
     jobs \<leftarrow> bound_uint X r 32 ''jobs'' (cli_numWorkers cli);
     diagnostics \<leftarrow> bound_bool X r ''show-compiler-diagnostics'' (cli_showCompilerDiagnostics cli);
     hint \<leftarrow> bound_uint X r 64 ''ipc-size-hint-bytes'' (cli_ipcSizeHintBytes cli);
     determ \<leftarrow> bound_bool X r ''deterministic'' (cli_deterministic cli);
     statistics \<leftarrow> bound_bool X r ''measure-statistics'' (cli_measureStatistics cli);
     noTrace \<leftarrow> bound_bool X r ''no-stack-trace'' (cli_noStacktrace cli);
     worker \<leftarrow> bound_uint X r 64 ''worker-id'' (unat (cli_workerId cli));
     Some (cli\<lparr>cli_compdbPath := bound_string r ''compdb-path'' (cli_compdbPath cli),
               cli_indexOutputPath := bound_string r ''index-output-path'' (cli_indexOutputPath cli),
               cli_packageMapPath := bound_string r ''package-map-path'' (cli_packageMapPath cli),
               cli_numWorkers := jobs,
               cli_showCompilerDiagnostics := diagnostics,
               cli_ipcSizeHintBytes := hint,
               cli_workerMode := bound_string r ''worker-mode'' (cli_workerMode cli),
               cli_deterministic := determ,
               cli_temporaryOutputDir := bound_string r ''temporary-output-dir'' (cli_temporaryOutputDir cli),
               cli_supplementaryOutputDir := bound_string r ''supplementary-output-dir'' (cli_supplementaryOutputDir cli),
               cli_preprocessorRecordHistoryFilterRegex :=
                 bound_string r ''preprocessor-record-history-filter'' (cli_preprocessorRecordHistoryFilterRegex cli),
               cli_statsFilePath := bound_string r ''print-statistics-path'' (cli_statsFilePath cli),
               cli_measureStatistics := statistics,
               cli_noStacktrace := noTrace,
               cli_workerFault := bound_string r ''force-worker-fault'' (cli_workerFault cli),
               cli_preprocessorHistoryLogPath :=
                 bound_string r ''preprocessor-history-log-path'' (cli_preprocessorHistoryLogPath cli),
               cli_driverId := bound_string r ''driver-id'' (cli_driverId cli),
               cli_workerId := of_nat worker\<rparr>)
   }"

definition recognised_levels :: "string list" where
  "recognised_levels = [''trace'', ''debug'', ''info'', ''warning'', ''error'']"

text \<open>An unknown level is reported and leaves the level as it is.\<close>

definition setLogLevel :: "string \<Rightarrow> WorkerCliOptions \<Rightarrow> WorkerCliOptions" where
  "setLogLevel level cli = (if level \<in> set recognised_levels then cli\<lparr>cli_logLevel := level\<rparr> else cli)"

datatype start =
    Exits int                  \<comment> \<open>\<^verbatim>\<open>std::exit\<close>\<close>
  | Throws                     \<comment> \<open>an exception that nothing catches\<close>
  | Starts WorkerCliOptions

definition finishOptions :: "cxxopts \<Rightarrow> cxxopts_result \<Rightarrow> string list \<Rightarrow> WorkerCliOptions \<Rightarrow> start" where
  "finishOptions X r argv cli0 =
     (case cx_text r ''log-level'' of
        None \<Rightarrow> Throws
      | Some level \<Rightarrow>
          let cli = setLogLevel level (cli0\<lparr>cli_showProgress := (cx_count r ''no-progress-report'' = 0)\<rparr>)
          in if cli_workerMode cli \<noteq> [] \<and> cli_workerMode cli \<noteq> ''ipc'' \<and> cli_workerMode cli \<noteq> ''compdb'' \<and>
                cli_workerMode cli \<noteq> ''testing'' then Exits 1
             else case Option.bind (cx_text r ''receive-timeout-seconds'') (cx_uint X 32) of
                    None \<Rightarrow> Throws
                  | Some secs \<Rightarrow> Starts (cli\<lparr>cli_receiveTimeout := int secs,
                                            cli_isTesting := (cx_count r ''testing'' > 0),
                                            cli_originalArgv := argv\<rparr>))"

definition parseArguments :: "cxxopts \<Rightarrow> nat \<Rightarrow> string list \<Rightarrow> start" where
  "parseArguments X hardwareConcurrency argv =
     (case cx_parse X option_specs argv of
        None \<Rightarrow> Throws
      | Some r \<Rightarrow>
          (case bindOptions X r (initialOptions (hd argv) hardwareConcurrency) of
             None \<Rightarrow> Throws
           | Some cli \<Rightarrow>
               if cx_count r ''help'' \<noteq> 0 \<or> cx_count r ''h'' \<noteq> 0 then Exits 0
               else if cx_count r ''help-all'' \<noteq> 0 then Exits 0
               else if cx_count r ''version'' \<noteq> 0 then Exits 0
               else if cx_unmatched r \<noteq> [] then Exits 1
               else finishOptions X r argv cli))"

subsection \<open>The main function\<close>

record global_logger =
  logger_name :: string
  logger_level :: string
  logger_pattern :: string

definition initializeGlobalLogger :: "string \<Rightarrow> string \<Rightarrow> bool \<Rightarrow> global_logger" where
  "initializeGlobalLogger loggerName level forTesting =
     \<lparr>logger_name = loggerName, logger_level = level,
      logger_pattern = (if forTesting then ''[%l] %n: %v'' else ''[%T %^%l%$] %-10n: %v'')\<rparr>"

datatype 'a main_outcome =
    MainExits int
  | MainThrows
  | MainRuns global_logger 'a

definition main :: "cxxopts \<Rightarrow> nat \<Rightarrow> (WorkerCliOptions \<Rightarrow> 'a) \<Rightarrow> (WorkerCliOptions \<Rightarrow> 'a) \<Rightarrow> string list \<Rightarrow> 'a main_outcome" where
  "main X hardwareConcurrency runWorker runDriver argv =
     (case parseArguments X hardwareConcurrency argv of
        Exits c \<Rightarrow> MainExits c
      | Throws \<Rightarrow> MainThrows
      | Starts cli \<Rightarrow>
          let isWorker = (cli_workerMode cli \<noteq> []);
              loggerName = (if isWorker then ''worker '' @ fmt_nat (unat (cli_workerId cli)) else ''driver'');
              logger = initializeGlobalLogger loggerName (cli_logLevel cli) (cli_workerFault cli \<noteq> [])
          in MainRuns logger (if isWorker then runWorker cli else runDriver cli))"

subsection \<open>What the library documents\<close>

text \<open>
  An occurrence is a long name with a value, or a long name alone. Values are not empty and have no line breaks.
\<close>

type_synonym option_occurrence = "string \<times> string option"

definition arg_value :: "string \<Rightarrow> bool" where
  "arg_value v \<longleftrightarrow> v \<noteq> [] \<and> CHR 0x0A \<notin> set v \<and> CHR 0x0D \<notin> set v"

fun long_arg :: "option_occurrence \<Rightarrow> string" where
  "long_arg (long, None) = ''--'' @ long"
| "long_arg (long, Some v) = ''--'' @ long @ ''='' @ v"

fun value_of_kind :: "option_kind \<Rightarrow> string option \<Rightarrow> bool" where
  "value_of_kind BoolOption v \<longleftrightarrow> v = None"
| "value_of_kind StringOption v \<longleftrightarrow> (\<exists>t. v = Some t \<and> arg_value t)"
| "value_of_kind (UintOption w) v \<longleftrightarrow> (\<exists>n < 2 ^ w. v = Some (fmt_nat n))"

definition find_spec :: "option_spec list \<Rightarrow> string \<Rightarrow> option_spec option" where
  "find_spec specs long = find (\<lambda>s. opt_long s = long) specs"

definition valid_option_occurrence :: "option_spec list \<Rightarrow> option_occurrence \<Rightarrow> bool" where
  "valid_option_occurrence specs oc \<longleftrightarrow>
     (case find_spec specs (fst oc) of None \<Rightarrow> False | Some s \<Rightarrow> value_of_kind (opt_kind s) (snd oc))"

definition option_occurrences :: "option_occurrence list \<Rightarrow> string \<Rightarrow> string option list" where
  "option_occurrences ocs long = map snd (filter (\<lambda>oc. fst oc = long) ocs)"

definition given_text :: "option_spec \<Rightarrow> string option list \<Rightarrow> string option" where
  "given_text s vs =
     (if vs = [] then (if opt_kind s = BoolOption then Some ''false'' else opt_default s)
      else Some (case last vs of None \<Rightarrow> ''true'' | Some t \<Rightarrow> t))"

definition well_named :: "option_spec list \<Rightarrow> bool" where
  "well_named specs \<longleftrightarrow> (\<forall>s \<in> set specs. CHR ''='' \<notin> set (opt_long s)) \<and> distinct (map opt_long specs) \<and>
     distinct (filter (\<lambda>x. x \<noteq> []) (map opt_short specs)) \<and>
     set (filter (\<lambda>x. x \<noteq> []) (map opt_short specs)) \<inter> set (map opt_long specs) = {}"

definition tallies :: "option_spec list \<Rightarrow> option_occurrence list \<Rightarrow> cxxopts_result \<Rightarrow> bool" where
  "tallies specs ocs r \<longleftrightarrow> cx_unmatched r = [] \<and>
     (\<forall>s \<in> set specs. cx_count r (opt_long s) = length (option_occurrences ocs (opt_long s)) \<and>
        (opt_short s \<noteq> [] \<longrightarrow> cx_count r (opt_short s) = length (option_occurrences ocs (opt_long s))) \<and>
        cx_text r (opt_long s) = given_text s (option_occurrences ocs (opt_long s)))"

definition cxxopts_laws :: "cxxopts \<Rightarrow> bool" where
  "cxxopts_laws X \<longleftrightarrow>
     (\<forall>specs executable ocs. well_named specs \<and> list_all (valid_option_occurrence specs) ocs \<longrightarrow>
        (\<exists>r. cx_parse X specs (executable # map long_arg ocs) = Some r \<and> tallies specs ocs r)) \<and>
     (\<forall>w n. n < 2 ^ w \<longrightarrow> cx_uint X w (fmt_nat n) = Some n) \<and>
     cx_bool X ''true'' = Some True \<and> cx_bool X ''false'' = Some False"

subsection \<open>The worker reads what the driver wrote\<close>

text \<open>The same occurrences as \<open>spawnWorkerArgs\<close> writes, before they become text.\<close>

definition worker_occurrences :: "string \<Rightarrow> string \<Rightarrow> DriverOptions \<Rightarrow> WorkerId \<Rightarrow> option_occurrence list" where
  "worker_occurrences logLevel driverId opts workerId =
     [(''worker-mode'', Some ''ipc''), (''driver-id'', Some driverId), (''worker-id'', Some (fmt_nat workerId)),
      (''log-level'', Some logLevel), (''receive-timeout-seconds'', Some (fmt_nat (nat (receiveTimeout opts))))]
     @ (if deterministic opts then [(''deterministic'', None)] else [])
     @ (if statsFilePath opts \<noteq> [] then [(''measure-statistics'', None)] else [])
     @ (if packageMapPath opts \<noteq> [] then [(''package-map-path'', Some (packageMapPath opts))] else [])
     @ (if noStacktrace opts then [(''no-stack-trace'', None)] else [])
     @ (if showCompilerDiagnostics opts then [(''show-compiler-diagnostics'', None)] else [])
     @ (if \<not> showProgress opts then [(''no-progress-report'', None)] else [])
     @ (if preprocessorRecordHistoryFilterRegex opts \<noteq> []
        then [(''preprocessor-record-history-filter'', Some (preprocessorRecordHistoryFilterRegex opts)),
              (''preprocessor-history-log-path'',
               Some (path_append (supplementaryOutputDir opts)
                 (''preprocessor-history-worker-'' @ fmt_nat workerId @ ''.yaml'')))] else [])
     @ (if workerFault opts \<noteq> [] then [(''force-worker-fault'', Some (workerFault opts))] else [])
     @ [(''temporary-output-dir'', Some (temporaryOutputDir opts))]"

text \<open>The options of the driver can be written on a command line.\<close>

definition line_free :: "string \<Rightarrow> bool" where
  "line_free v \<longleftrightarrow> CHR 0x0A \<notin> set v \<and> CHR 0x0D \<notin> set v"

definition printable_options :: "DriverOptions \<Rightarrow> bool" where
  "printable_options opts \<longleftrightarrow> 0 \<le> receiveTimeout opts \<and> receiveTimeout opts < 2 ^ 32 \<and> temporaryOutputDir opts \<noteq> [] \<and>
     list_all line_free [temporaryOutputDir opts, packageMapPath opts, preprocessorRecordHistoryFilterRegex opts,
       supplementaryOutputDir opts, workerFault opts]"

lemma spawnWorkerArgs_occurrences:
  assumes "temporaryOutputDir opts \<noteq> []" "0 \<le> receiveTimeout opts"
  shows "spawnWorkerArgs logLevel driverId opts w =
    Inr (workerExecutablePath opts # map long_arg (worker_occurrences logLevel driverId opts w))"
  using assms by (simp add: spawnWorkerArgs_def addWorkerOptions_def worker_occurrences_def fmt_int_def)

lemma find_spec_simps [simp]:
  "find_spec [] long = None"
  "find_spec (s # specs) long = (if opt_long s = long then Some s else find_spec specs long)"
  by (simp_all add: find_spec_def)

lemma spec_simps [simp]:
  "opt_long (spec g l k d) = l" "opt_kind (spec g l k d) = k" "opt_default (spec g l k d) = d" "opt_short (spec g l k d) = []"
  by (simp_all add: spec_def)

lemma well_named_option_specs: "well_named option_specs"
  by (simp add: well_named_def option_specs_def)

lemma path_append_line_free: "line_free p \<Longrightarrow> line_free q \<Longrightarrow> line_free (path_append p q)"
  by (auto simp: path_append_def line_free_def)

lemma path_append_nonempty: "q \<noteq> [] \<Longrightarrow> path_append p q \<noteq> []"
  by (simp add: path_append_def)

lemma line_free_fmt_nat: "line_free (fmt_nat n)"
  using fmt_nat_digits [of n] by (auto simp: line_free_def is_digit_def)

lemma line_free_append [simp]: "line_free (a @ b) \<longleftrightarrow> line_free a \<and> line_free b"
  by (auto simp: line_free_def)

lemma arg_value_iff: "arg_value v \<longleftrightarrow> v \<noteq> [] \<and> line_free v"
  by (auto simp: arg_value_def line_free_def)

lemma find_option_specs:
  "find_spec option_specs ''compdb-path'' = Some (spec [] ''compdb-path'' StringOption (Some ''compile_commands.json''))"
  "find_spec option_specs ''index-output-path'' = Some (spec [] ''index-output-path'' StringOption (Some ''index.scip''))"
  "find_spec option_specs ''package-map-path'' = Some (spec [] ''package-map-path'' StringOption None)"
  "find_spec option_specs ''jobs'' = Some ((spec [] ''jobs'' (UintOption 32) None)\<lparr>opt_short := ''j''\<rparr>)"
  "find_spec option_specs ''log-level'' = Some (spec [] ''log-level'' StringOption (Some ''info''))"
  "find_spec option_specs ''no-progress-report'' = Some (spec [] ''no-progress-report'' BoolOption None)"
  "find_spec option_specs ''show-compiler-diagnostics'' = Some (spec [] ''show-compiler-diagnostics'' BoolOption None)"
  "find_spec option_specs ''version'' = Some (spec [] ''version'' BoolOption None)"
  "find_spec option_specs ''help'' = Some ((spec [] ''help'' BoolOption None)\<lparr>opt_short := ''h''\<rparr>)"
  "find_spec option_specs ''help-all'' = Some (spec [] ''help-all'' BoolOption None)"
  "find_spec option_specs ''ipc-size-hint-bytes'' = Some (spec ''Limits'' ''ipc-size-hint-bytes'' (UintOption 64) (Some ''2000000''))"
  "find_spec option_specs ''receive-timeout-seconds'' = Some (spec ''Limits'' ''receive-timeout-seconds'' (UintOption 32) (Some ''300''))"
  "find_spec option_specs ''worker-mode'' = Some (spec ''Debugging'' ''worker-mode'' StringOption (Some ''''))"
  "find_spec option_specs ''deterministic'' = Some (spec ''Debugging'' ''deterministic'' BoolOption None)"
  "find_spec option_specs ''temporary-output-dir'' = Some (spec ''Debugging'' ''temporary-output-dir'' StringOption None)"
  "find_spec option_specs ''supplementary-output-dir'' = Some (spec ''Debugging'' ''supplementary-output-dir'' StringOption (Some ''scip-clang-supplementary-output''))"
  "find_spec option_specs ''preprocessor-record-history-filter'' = Some (spec ''Debugging'' ''preprocessor-record-history-filter'' StringOption None)"
  "find_spec option_specs ''print-statistics-path'' = Some (spec ''Profiling'' ''print-statistics-path'' StringOption None)"
  "find_spec option_specs ''measure-statistics'' = Some (spec ''Profiling'' ''measure-statistics'' BoolOption None)"
  "find_spec option_specs ''no-stack-trace'' = Some (spec ''scip-clang internal testing'' ''no-stack-trace'' BoolOption None)"
  "find_spec option_specs ''force-worker-fault'' = Some (spec ''scip-clang internal testing'' ''force-worker-fault'' StringOption (Some ''''))"
  "find_spec option_specs ''testing'' = Some (spec ''scip-clang internal testing'' ''testing'' BoolOption None)"
  "find_spec option_specs ''preprocessor-history-log-path'' = Some (spec ''Internal'' ''preprocessor-history-log-path'' StringOption None)"
  "find_spec option_specs ''driver-id'' = Some (spec ''Internal'' ''driver-id'' StringOption None)"
  "find_spec option_specs ''worker-id'' = Some (spec ''Internal'' ''worker-id'' (UintOption 64) None)"
  by (simp_all add: option_specs_def)

lemma line_free_log: "line_free (''preprocessor-history-worker-'' @ fmt_nat w @ ''.yaml'')"
  using line_free_fmt_nat [of w] by (simp add: line_free_def)

lemma valid_worker_occurrences:
  assumes opts: "printable_options opts" and level: "logLevel \<in> set recognised_levels" and d: "arg_value driverId"
    and w: "w < 2 ^ 64"
  shows "list_all (valid_option_occurrence option_specs) (worker_occurrences logLevel driverId opts w)"
proof -
  let ?log = "path_append (supplementaryOutputDir opts) (''preprocessor-history-worker-'' @ fmt_nat w @ ''.yaml'')"
  have log: "arg_value ?log"
    unfolding arg_value_iff
    by (intro conjI path_append_nonempty path_append_line_free)
      (rule line_free_log | use opts in \<open>simp add: printable_options_def\<close>)+
  have lev: "arg_value logLevel" "arg_value ''ipc''" using level by (auto simp: recognised_levels_def arg_value_def)
  have time: "nat (receiveTimeout opts) < 4294967296" using opts by (auto simp: printable_options_def)
  have w': "w < 18446744073709551616" using w by simp
  have fields: "temporaryOutputDir opts \<noteq> [] \<and> line_free (temporaryOutputDir opts) \<and> line_free (packageMapPath opts) \<and>
      line_free (preprocessorRecordHistoryFilterRegex opts) \<and> line_free (workerFault opts)"
    using opts by (simp add: printable_options_def)
  show ?thesis
    unfolding worker_occurrences_def using log lev d time w' fields
    by (simp del: append.simps add: valid_option_occurrence_def find_option_specs arg_value_iff)
qed

lemma occurrences_simps [simp]:
  "option_occurrences [] long = []"
  "option_occurrences (oc # ocs) long = (if fst oc = long then [snd oc] else []) @ option_occurrences ocs long"
  "option_occurrences (ocs @ ocs') long = option_occurrences ocs long @ option_occurrences ocs' long"
  "option_occurrences (if b then ocs else ocs') long = (if b then option_occurrences ocs long else option_occurrences ocs' long)"
  by (simp_all add: option_occurrences_def)

definition worker_cli :: "string \<Rightarrow> string \<Rightarrow> DriverOptions \<Rightarrow> WorkerId \<Rightarrow> nat \<Rightarrow> WorkerCliOptions" where
  "worker_cli logLevel driverId opts workerId hardwareConcurrency =
     \<lparr>cli_compdbPath = ''compile_commands.json'', cli_scipClangExecutablePath = workerExecutablePath opts,
      cli_temporaryOutputDir = temporaryOutputDir opts, cli_indexOutputPath = ''index.scip'', cli_statsFilePath = [],
      cli_packageMapPath = packageMapPath opts, cli_showCompilerDiagnostics = showCompilerDiagnostics opts,
      cli_showProgress = showProgress opts, cli_ipcSizeHintBytes = 2000000, cli_receiveTimeout = receiveTimeout opts,
      cli_numWorkers = hardwareConcurrency, cli_logLevel = logLevel, cli_deterministic = deterministic opts,
      cli_preprocessorRecordHistoryFilterRegex = preprocessorRecordHistoryFilterRegex opts,
      cli_supplementaryOutputDir = ''scip-clang-supplementary-output'',
      cli_originalArgv = workerExecutablePath opts # map long_arg (worker_occurrences logLevel driverId opts workerId),
      cli_isTesting = False, cli_workerFault = workerFault opts, cli_noStacktrace = noStacktrace opts,
      cli_workerMode = ''ipc'', cli_measureStatistics = (statsFilePath opts \<noteq> []),
      cli_preprocessorHistoryLogPath =
        (if preprocessorRecordHistoryFilterRegex opts = [] then []
         else path_append (supplementaryOutputDir opts) (''preprocessor-history-worker-'' @ fmt_nat workerId @ ''.yaml'')),
      cli_driverId = driverId, cli_workerId = of_nat workerId\<rparr>"

lemma tallies_text:
  assumes "tallies option_specs ocs r" "find_spec option_specs long = Some s"
  shows "cx_text r long = given_text s (option_occurrences ocs long)"
proof -
  have "s \<in> set option_specs \<and> opt_long s = long"
    using assms(2) by (auto simp: find_spec_def find_Some_iff)
  then show ?thesis using assms(1) by (auto simp: tallies_def)
qed

lemma tallies_count:
  assumes "tallies option_specs ocs r" "find_spec option_specs long = Some s"
  shows "cx_count r long = length (option_occurrences ocs long)"
proof -
  have "s \<in> set option_specs \<and> opt_long s = long"
    using assms(2) by (auto simp: find_spec_def find_Some_iff)
  then show ?thesis using assms(1) by (auto simp: tallies_def)
qed

lemma tallies_count_h:
  assumes "tallies option_specs ocs r"
  shows "cx_count r ''h'' = length (option_occurrences ocs ''help'')"
proof -
  have "(spec [] ''help'' BoolOption None)\<lparr>opt_short := ''h''\<rparr> \<in> set option_specs" by (simp add: option_specs_def)
  then show ?thesis using assms by (fastforce simp: tallies_def)
qed

lemma worker_bindOptions:
  assumes laws: "cxxopts_laws X" and r: "tallies option_specs (worker_occurrences logLevel driverId opts w) r"
    and w: "w < 2 ^ 64"
  shows "bindOptions X r (initialOptions (workerExecutablePath opts) ncpus) =
    Some ((worker_cli logLevel driverId opts w ncpus)\<lparr>cli_logLevel := ''trace'', cli_showProgress := False,
      cli_receiveTimeout := 0, cli_originalArgv := []\<rparr>)"
proof -
  have fixed: "cx_uint X 64 ''2000000'' = Some 2000000"
  proof -
    have "fmt_nat 2000000 = ''2000000''" by (simp add: fmt_nat.simps digit_char_def char_of_def bit_0)
    moreover have "cx_uint X 64 (fmt_nat 2000000) = Some 2000000" using laws by (simp add: cxxopts_laws_def)
    ultimately show ?thesis by simp
  qed
  have uint: "cx_uint X 64 (fmt_nat w) = Some w" using laws w by (simp add: cxxopts_laws_def)
  have bool: "cx_bool X ''true'' = Some True" "cx_bool X ''false'' = Some False" using laws by (simp_all add: cxxopts_laws_def)
  have texts:
    "bound_string r ''compdb-path'' [] = ''compile_commands.json''" "bound_string r ''index-output-path'' [] = ''index.scip''"
    "bound_string r ''package-map-path'' [] = packageMapPath opts" "bound_string r ''worker-mode'' [] = ''ipc''"
    "bound_string r ''temporary-output-dir'' [] = temporaryOutputDir opts"
    "bound_string r ''supplementary-output-dir'' [] = ''scip-clang-supplementary-output''"
    "bound_string r ''preprocessor-record-history-filter'' [] = preprocessorRecordHistoryFilterRegex opts"
    "bound_string r ''print-statistics-path'' [] = []" "bound_string r ''force-worker-fault'' [] = workerFault opts"
    "bound_string r ''preprocessor-history-log-path'' [] = (if preprocessorRecordHistoryFilterRegex opts = [] then []
         else path_append (supplementaryOutputDir opts) (''preprocessor-history-worker-'' @ fmt_nat w @ ''.yaml''))"
    "bound_string r ''driver-id'' [] = driverId"
    by (simp_all add: bound_string_def tallies_text [OF r] find_option_specs worker_occurrences_def given_text_def)
  have numbers:
    "bound_uint X r 32 ''jobs'' n = Some n" "bound_uint X r 64 ''ipc-size-hint-bytes'' 0 = Some 2000000"
    "bound_uint X r 64 ''worker-id'' 0 = Some w"
    "bound_bool X r ''show-compiler-diagnostics'' b = Some (showCompilerDiagnostics opts)"
    "bound_bool X r ''deterministic'' b = Some (deterministic opts)"
    "bound_bool X r ''measure-statistics'' b = Some (statsFilePath opts \<noteq> [])"
    "bound_bool X r ''no-stack-trace'' b = Some (noStacktrace opts)" for n b
    by (simp_all add: bound_uint_def bound_bool_def tallies_text [OF r] find_option_specs worker_occurrences_def given_text_def
        fixed uint bool)
  show ?thesis
    by (simp add: bindOptions_def initialOptions_def worker_cli_def texts numbers)
qed

lemma worker_parseArguments:
  assumes laws: "cxxopts_laws X" and opts: "printable_options opts" and level: "logLevel \<in> set recognised_levels"
    and d: "arg_value driverId" and w: "w < 2 ^ 64"
  shows "parseArguments X ncpus (workerExecutablePath opts # map long_arg (worker_occurrences logLevel driverId opts w)) =
    Starts (worker_cli logLevel driverId opts w ncpus)"
proof -
  let ?ocs = "worker_occurrences logLevel driverId opts w"
  obtain r where r: "cx_parse X option_specs (workerExecutablePath opts # map long_arg ?ocs) = Some r"
    and tally: "tallies option_specs ?ocs r"
    using laws valid_worker_occurrences [OF opts level d w] well_named_option_specs unfolding cxxopts_laws_def by blast
  have time: "cx_uint X 32 (fmt_nat (nat (receiveTimeout opts))) = Some (nat (receiveTimeout opts))"
  proof -
    have "nat (receiveTimeout opts) < 2 ^ 32" using opts by (simp add: printable_options_def nat_less_iff)
    then show ?thesis using laws by (simp only: cxxopts_laws_def)
  qed
  have counts: "cx_count r ''h'' = 0" "cx_count r ''help'' = 0" "cx_count r ''help-all'' = 0" "cx_count r ''version'' = 0"
    "cx_count r ''testing'' = 0" "cx_count r ''no-progress-report'' = 0 \<longleftrightarrow> showProgress opts"
    by (simp_all add: tallies_count_h [OF tally] tallies_count [OF tally] find_option_specs worker_occurrences_def)
  have texts: "cx_text r ''log-level'' = Some logLevel"
    "cx_text r ''receive-timeout-seconds'' = Some (fmt_nat (nat (receiveTimeout opts)))"
    by (simp_all add: tallies_text [OF tally] find_option_specs worker_occurrences_def given_text_def)
  have "cx_unmatched r = []" using tally by (simp add: tallies_def)
  then show ?thesis
    using opts level
    by (simp add: parseArguments_def r worker_bindOptions [OF laws tally w] finishOptions_def counts texts time setLogLevel_def
        printable_options_def worker_cli_def Let_def)
qed

text \<open>
  C14: A worker reads the options that the driver wrote for it. The command line with which the driver spawns a worker is accepted;
  the process it starts is a worker, not a driver, and logs under the number of the worker at the level of the driver. Its options
  select the queues of this driver and this worker, and the timeout, the package map, the directory for temporary files, the
  filter and the log of preprocessor histories, the fault to be simulated and all flags are those of the driver.
\<close>

theorem worker_reads_driver_options:
  assumes "cxxopts_laws X" "printable_options opts" "logLevel \<in> set recognised_levels" "arg_value driverId" "w < 2 ^ 64"
    and "is_absolute L cwd"
  shows "\<exists>args cli. spawnWorkerArgs logLevel driverId opts w = Inr args \<and>
    main X ncpus runWorker runDriver args =
      MainRuns (initializeGlobalLogger (''worker '' @ fmt_nat w) logLevel (workerFault opts \<noteq> [])) (runWorker cli) \<and>
    workerOptions L cwd unset cli = Inr
      \<lparr>wo_projectRootPath = \<lparr>root_value = cwd, root_kind = Project\<rparr>, wo_mode = Ipc,
       wo_ipcOptions = \<lparr>ipc_sizeHintBytes = 2000000, ipc_receiveTimeout = receiveTimeout opts, ipc_driverId = driverId,
         ipc_workerId = of_nat w\<rparr>,
       wo_compdbPath = [], wo_indexOutputPath = [], wo_statsFilePath = [], wo_packageMapPath = packageMapPath opts,
       wo_showCompilerDiagnostics = showCompilerDiagnostics opts, wo_showProgress = showProgress opts, wo_logLevel = logLevel,
       wo_deterministic = deterministic opts, wo_measureStatistics = (statsFilePath opts \<noteq> []),
       wo_recordingOptions = \<lparr>filterRegex = preprocessorRecordHistoryFilterRegex opts,
         preprocessorHistoryLogPath = (if preprocessorRecordHistoryFilterRegex opts = [] then []
           else path_append (supplementaryOutputDir opts) (''preprocessor-history-worker-'' @ fmt_nat w @ ''.yaml'')),
         preferRelativePaths = False, rec_rootPath = []\<rparr>,
       wo_temporaryOutputDir = temporaryOutputDir opts, wo_workerFault = workerFault opts\<rparr> \<and>
    unat (cli_workerId cli) = w"
proof -
  let ?cli = "worker_cli logLevel driverId opts w ncpus"
  have unat: "unat (of_nat w :: 64 word) = w" using assms(5) by (simp add: unat_of_nat take_bit_nat_eq_self)
  have spawn: "spawnWorkerArgs logLevel driverId opts w =
      Inr (workerExecutablePath opts # map long_arg (worker_occurrences logLevel driverId opts w))"
    by (rule spawnWorkerArgs_occurrences) (use assms(2) in \<open>simp_all add: printable_options_def\<close>)
  show ?thesis
    by (rule exI, rule exI [of _ ?cli], intro conjI, rule spawn)
      (use assms unat in \<open>simp_all add: main_def worker_parseArguments Let_def worker_cli_def workerOptions_def mkAbsolutePath_def
         tryFrom_def ipcOptions_def\<close>)
qed

subsection \<open>A parser that keeps the laws\<close>

definition arg_name :: "string \<Rightarrow> string" where
  "arg_name a = takeWhile (\<lambda>c. c \<noteq> CHR ''='') (drop 2 a)"

definition arg_text :: "string \<Rightarrow> string option" where
  "arg_text a = (case dropWhile (\<lambda>c. c \<noteq> CHR ''='') (drop 2 a) of [] \<Rightarrow> None | _ # t \<Rightarrow> Some t)"

definition long_name :: "option_spec list \<Rightarrow> string \<Rightarrow> string" where
  "long_name specs x = (case find (\<lambda>s. opt_short s = x \<and> x \<noteq> []) specs of None \<Rightarrow> x | Some s \<Rightarrow> opt_long s)"

definition simple_cxxopts :: cxxopts where
  "simple_cxxopts =
     \<lparr>cx_parse = (\<lambda>specs argv.
        let ocs = map (\<lambda>a. (arg_name a, arg_text a)) (tl argv)
        in Some \<lparr>cx_count = (\<lambda>x. length (option_occurrences ocs (long_name specs x))),
                 cx_text = (\<lambda>x. Option.bind (find_spec specs x) (\<lambda>s. given_text s (option_occurrences ocs x))),
                 cx_unmatched = filter (\<lambda>a. find_spec specs (arg_name a) = None) (tl argv)\<rparr>),
      cx_uint = (\<lambda>w t. if t \<noteq> [] \<and> list_all is_digit t \<and> digits_value t < 2 ^ w then Some (digits_value t) else None),
      cx_bool = (\<lambda>t. if t = ''true'' then Some True else if t = ''false'' then Some False else None)\<rparr>"

lemma find_SomeD: "find P xs = Some y \<Longrightarrow> y \<in> set xs \<and> P y"
  by (auto simp: find_Some_iff)

lemma long_arg_read:
  assumes "CHR ''='' \<notin> set (fst oc)"
  shows "arg_name (long_arg oc) = fst oc \<and> arg_text (long_arg oc) = snd oc"
proof -
  obtain l v where oc: "oc = (l, v)" by (cases oc)
  have l: "\<forall>c \<in> set l. c \<noteq> CHR ''=''" using assms oc by auto
  then have all: "takeWhile (\<lambda>c. c \<noteq> CHR ''='') l = l" "dropWhile (\<lambda>c. c \<noteq> CHR ''='') l = []" by simp_all
  show ?thesis
    using l oc by (cases v) (simp_all add: arg_name_def arg_text_def takeWhile_append2 dropWhile_append2 all)
qed

lemma valid_occurrence_named:
  assumes "well_named specs" "valid_option_occurrence specs oc"
  shows "CHR ''='' \<notin> set (fst oc)" "find_spec specs (fst oc) \<noteq> None"
  using assms by (auto simp: valid_option_occurrence_def well_named_def find_spec_def dest!: find_SomeD split: option.splits)

lemma find_spec_member:
  assumes "well_named specs" "s \<in> set specs"
  shows "find_spec specs (opt_long s) = Some s"
proof -
  have "find_spec specs (opt_long s) \<noteq> None" using assms(2) by (auto simp: find_spec_def find_None_iff)
  then obtain s' where "find_spec specs (opt_long s) = Some s'" by blast
  moreover from this have "s' \<in> set specs" "opt_long s' = opt_long s"
    using find_SomeD [of "\<lambda>s'. opt_long s' = opt_long s"] by (auto simp: find_spec_def)
  ultimately show ?thesis using assms by (auto simp: well_named_def distinct_map dest: inj_onD)
qed

lemma distinct_filter_map_inj:
  assumes "distinct (filter P (map f xs))" "x \<in> set xs" "y \<in> set xs" "P (f x)" "f x = f y"
  shows "x = y"
proof -
  from assms(1) have "distinct (map f (filter (P \<circ> f) xs))" by (simp add: filter_map)
  with assms(2-) show ?thesis by (auto simp: distinct_map dest: inj_onD)
qed

lemma long_name_member:
  assumes "well_named specs" "s \<in> set specs"
  shows "long_name specs (opt_long s) = opt_long s"
    and "opt_short s \<noteq> [] \<Longrightarrow> long_name specs (opt_short s) = opt_long s"
proof -
  have "find (\<lambda>s'. opt_short s' = opt_long s \<and> opt_long s \<noteq> []) specs = None"
    using assms by (fastforce simp: find_None_iff well_named_def)
  then show "long_name specs (opt_long s) = opt_long s" by (simp add: long_name_def)
  assume short: "opt_short s \<noteq> []"
  then have "find (\<lambda>s'. opt_short s' = opt_short s \<and> opt_short s \<noteq> []) specs \<noteq> None"
    using assms(2) by (auto simp: find_None_iff)
  then obtain s' where s': "find (\<lambda>s'. opt_short s' = opt_short s \<and> opt_short s \<noteq> []) specs = Some s'" by blast
  then have "s' \<in> set specs" "opt_short s' = opt_short s" by (auto dest: find_SomeD)
  note s' = s' this
  have "s = s'"
    by (rule distinct_filter_map_inj [of "\<lambda>x. x \<noteq> []" opt_short specs])
      (use assms s' short in \<open>simp_all add: well_named_def\<close>)
  then show "long_name specs (opt_short s) = opt_long s" unfolding long_name_def s'(1) by simp
qed

lemma simple_cxxopts_laws: "cxxopts_laws simple_cxxopts"
proof -
  have "tallies specs ocs r"
    if specs: "well_named specs" and ocs: "list_all (valid_option_occurrence specs) ocs"
      and r: "cx_parse simple_cxxopts specs (executable # map long_arg ocs) = Some r" for specs executable ocs r
  proof -
    have named: "\<forall>oc \<in> set ocs. arg_name (long_arg oc) = fst oc \<and> arg_text (long_arg oc) = snd oc \<and> find_spec specs (fst oc) \<noteq> None"
      using ocs valid_occurrence_named [OF specs] long_arg_read by (simp add: list_all_iff)
    have "map (\<lambda>a. (arg_name a, arg_text a)) (map long_arg ocs) = ocs"
      using named by (simp add: map_idI)
    moreover have "filter (\<lambda>a. find_spec specs (arg_name a) = None) (map long_arg ocs) = []"
      using named by (simp add: filter_empty_conv)
    ultimately show ?thesis
      using r by (auto simp: simple_cxxopts_def Let_def tallies_def find_spec_member [OF specs] long_name_member [OF specs])
  qed
  moreover have "\<exists>r. cx_parse simple_cxxopts specs argv = Some r" for specs argv
    by (simp add: simple_cxxopts_def Let_def)
  moreover have "cx_uint simple_cxxopts w (fmt_nat n) = Some n" if "n < 2 ^ w" for w n
    using that fmt_nat_digits [of n] by (simp add: simple_cxxopts_def list_all_iff)
  moreover have "cx_bool simple_cxxopts ''true'' = Some True" "cx_bool simple_cxxopts ''false'' = Some False"
    by (simp_all add: simple_cxxopts_def)
  ultimately show ?thesis unfolding cxxopts_laws_def by metis
qed

theorem worker_reads_driver_options_witness:
  "\<exists>args (cli :: WorkerCliOptions). spawnWorkerArgs ''info'' ''7'' four_workers 2 = Inr args \<and>
     main simple_cxxopts 8 (\<lambda>_. True) (\<lambda>_. False) args = MainRuns (initializeGlobalLogger ''worker 2'' ''info'' False) True \<and>
     unat (cli_workerId cli) = 2"
proof -
  have "printable_options four_workers" by (simp add: printable_options_def four_workers_def line_free_def)
  note run = worker_reads_driver_options [OF simple_cxxopts_laws this, of "''info''" "''7''" 2 slash_paths "''/p''" 8
    "\<lambda>_. True" "\<lambda>_. False" "\<lparr>ipc_sizeHintBytes = 0, ipc_receiveTimeout = 0, ipc_driverId = [], ipc_workerId = 0\<rparr>"]
  have two: "fmt_nat 2 = ''2''" by (simp add: fmt_nat.simps digit_char_def char_of_def bit_0)
  have prems: "''info'' \<in> set recognised_levels" "arg_value ''7''" "(2 :: nat) < 2 ^ 64" "is_absolute slash_paths ''/p''"
    by (simp_all add: recognised_levels_def arg_value_def slash_paths_def starts_with_def)
  obtain args and cli :: WorkerCliOptions where a: "spawnWorkerArgs ''info'' ''7'' four_workers 2 = Inr args"
    and b: "main simple_cxxopts 8 (\<lambda>_. True) (\<lambda>_. False) args =
      MainRuns (initializeGlobalLogger (''worker '' @ fmt_nat 2) ''info'' (workerFault four_workers \<noteq> [])) True"
    and c: "unat (cli_workerId cli) = 2"
    using run [OF prems] by (elim exE conjE) (rule that)
  have "initializeGlobalLogger (''worker '' @ fmt_nat 2) ''info'' (workerFault four_workers \<noteq> []) =
      initializeGlobalLogger ''worker 2'' ''info'' False"
    by (simp add: two four_workers_def)
  with a b c show ?thesis by (intro exI conjI) (simp_all only:)
qed

text \<open>
  A level that the option does not know is only reported. The level stays at the value that the structure is initialised with, which is
  the most verbose one, although the option has the default \<^verbatim>\<open>info\<close>.
\<close>

theorem unknown_log_level_is_trace:
  assumes "cxxopts_laws X" "arg_value level" "level \<notin> set recognised_levels"
  shows "\<exists>cli. parseArguments X ncpus [executable, ''--log-level='' @ level] = Starts cli \<and> cli_logLevel cli = ''trace''"
proof -
  let ?ocs = "[(''log-level'', Some level)]"
  have "list_all (valid_option_occurrence option_specs) ?ocs"
    using assms(2) by (simp add: valid_option_occurrence_def find_option_specs)
  then obtain r where "cx_parse X option_specs (executable # map long_arg ?ocs) = Some r"
    and tally: "tallies option_specs ?ocs r"
    using assms(1) well_named_option_specs unfolding cxxopts_laws_def by blast
  then have r: "cx_parse X option_specs [executable, ''--log-level='' @ level] = Some r" by simp
  have digits: "fmt_nat 2000000 = ''2000000''" "fmt_nat 300 = ''300''"
    by (simp_all add: fmt_nat.simps digit_char_def char_of_def bit_0)
  have "cx_uint X 64 (fmt_nat 2000000) = Some 2000000" "cx_uint X 32 (fmt_nat 300) = Some 300"
    using assms(1) by (simp_all add: cxxopts_laws_def)
  then have uint: "cx_uint X 64 ''2000000'' = Some 2000000" "cx_uint X 32 ''300'' = Some 300" by (simp_all add: digits)
  have bool: "cx_bool X ''false'' = Some False" using assms(1) by (simp add: cxxopts_laws_def)
  have "cx_unmatched r = []" using tally by (simp add: tallies_def)
  then show ?thesis
    using assms(3) unfolding parseArguments_def r
    by (simp add: bindOptions_def bound_uint_def bound_bool_def bound_string_def finishOptions_def
        tallies_count_h [OF tally] tallies_count [OF tally] tallies_text [OF tally] find_option_specs given_text_def
        setLogLevel_def initialOptions_def uint bool Let_def)
qed

end
