(* ===== verification/Resources.thy ===== *)
theory Resources
  imports Prelude "HOL-Library.Multiset"
begin

text \<open>
  The guard \<^verbatim>\<open>ConsumeOnce\<close> and the class \<^verbatim>\<open>Bomb\<close> of indexer/RAII.h, and the checks of indexer/Enforce.h.

  A guard must be consumed exactly once before it is destroyed, which C++ checks only when the program runs. The operations
  are followed by a small language of the programs that use guards, with branches and loops whose conditions are arbitrary, and by a linear
  type system for it: well-typed programs fail none of the checks and consume every value that they put under guard exactly once.
  The driver's two uses of guards (indexer/Driver.cc) are programs of this language and are well-typed.
\<close>

subsection \<open>Checks\<close>

text \<open>
  Checks are made in debug mode only. \<open>ENFORCE_OR_WARN\<close> also says which warnings are logged; its second part
  is written as in the source.
\<close>

definition ENFORCE :: "bool \<Rightarrow> bool \<Rightarrow> string \<Rightarrow> unit result" where
  "ENFORCE debugMode check msg = (if debugMode \<and> \<not> check then Inl (EnforceFailed msg) else Inr ())"

definition ENFORCE_OR_WARN :: "bool \<Rightarrow> bool \<Rightarrow> string \<Rightarrow> string list result" where
  "ENFORCE_OR_WARN debugMode check msg =
     rbind (ENFORCE debugMode check msg) (\<lambda>_. Inr (if \<not> debugMode \<and> check then [msg] else []))"

subsection \<open>Guards\<close>

record 'a ConsumeOnce =
  co_value :: 'a
  consumed :: bool
  movedOut :: bool

definition mkConsumeOnce :: "'a \<Rightarrow> 'a ConsumeOnce" where
  "mkConsumeOnce v = \<lparr>co_value = v, consumed = False, movedOut = False\<rparr>"

text \<open>Both moves return the new guard and what is left of the old one.\<close>

definition moveConstruct :: "'a ConsumeOnce \<Rightarrow> 'a ConsumeOnce \<times> 'a ConsumeOnce" where
  "moveConstruct old =
     (\<lparr>co_value = co_value old, consumed = consumed old, movedOut = movedOut old\<rparr>, old\<lparr>movedOut := True\<rparr>)"

definition moveAssign :: "'a ConsumeOnce \<Rightarrow> 'a ConsumeOnce \<Rightarrow> 'a ConsumeOnce \<times> 'a ConsumeOnce" where
  "moveAssign this old =
     (this\<lparr>co_value := co_value old, consumed := consumed old, movedOut := movedOut old\<rparr>, old\<lparr>movedOut := True\<rparr>)"

definition destroyConsumeOnce :: "'a ConsumeOnce \<Rightarrow> unit result" where
  "destroyConsumeOnce g =
     (if \<not> movedOut g then enforcing (consumed g) ''forgot to call getValueAndConsume'' (Inr ()) else Inr ())"

definition getValueAndConsume :: "'a ConsumeOnce \<Rightarrow> ('a \<times> 'a ConsumeOnce) result" where
  "getValueAndConsume g =
     enforcing (\<not> movedOut g) ''use after move''
     (enforcing (\<not> consumed g) ''trying to consume worker guard twice''
       (Inr (co_value g, g\<lparr>consumed := True\<rparr>)))"

definition getValueNonConsuming :: "'a ConsumeOnce \<Rightarrow> 'a result" where
  "getValueNonConsuming g =
     enforcing (\<not> movedOut g) ''use after move''
     (enforcing (\<not> consumed g) ''trying to access id for consumed guard'' (Inr (co_value g)))"

definition isUnconsumed :: "'a ConsumeOnce \<Rightarrow> bool" where
  "isUnconsumed g \<longleftrightarrow> \<not> movedOut g \<and> \<not> consumed g"

text \<open>
  A \<^verbatim>\<open>Bomb\<close> is a guard of a message that is logged if it goes off. Its destructor calls the destructor of the guard, which then runs a
  second time as that of a member.
\<close>

type_synonym Bomb = "string ConsumeOnce"

definition defuse :: "Bomb \<Rightarrow> Bomb result" where
  "defuse b = rbind (getValueAndConsume b) (\<lambda>(_, b'). Inr b')"

definition destroyBomb :: "Bomb \<Rightarrow> string option \<times> unit result" where
  "destroyBomb b =
     (if isUnconsumed b then Some (co_value b) else None,
      rbind (destroyConsumeOnce b) (\<lambda>_. destroyConsumeOnce b))"

lemmas guard_defs = mkConsumeOnce_def moveConstruct_def moveAssign_def destroyConsumeOnce_def getValueAndConsume_def
  getValueNonConsuming_def isUnconsumed_def

subsection \<open>Programs with guards\<close>

text \<open>
  The state has the variables that hold guards, and lists of all values that were put under guard and of all that were taken out. A variable that is
  not declared, or declared twice, is an error of the compiler.
\<close>

datatype guard_op =
    NewGuard string
  | MoveConstruct string string   \<comment> \<open>the second variable is new and constructed from the first\<close>
  | MoveAssign string string      \<comment> \<open>the first is assigned to the second\<close>
  | Consume string
  | Peek string
  | Destroy string

datatype guard_com =
    SKIP
  | Op guard_op
  | Seq guard_com guard_com
  | Choose guard_com guard_com    \<comment> \<open>a conditional, with any condition\<close>
  | Repeat guard_com              \<comment> \<open>a loop, with any condition\<close>

record 'a guard_state =
  gs_store :: "string \<rightharpoonup> 'a ConsumeOnce"
  gs_made :: "'a list"
  gs_taken :: "'a list"

definition no_guards :: "'a guard_state" where
  "no_guards = \<lparr>gs_store = Map.empty, gs_made = [], gs_taken = []\<rparr>"

definition guard_at :: "'a guard_state \<Rightarrow> string \<Rightarrow> 'a ConsumeOnce result" where
  "guard_at s x = (case gs_store s x of None \<Rightarrow> Inl (NoReturn ''undeclared'') | Some g \<Rightarrow> Inr g)"

definition declare_guard :: "string \<Rightarrow> 'a ConsumeOnce \<Rightarrow> 'a guard_state \<Rightarrow> 'a guard_state result" where
  "declare_guard x g s =
     (if gs_store s x = None then Inr (s\<lparr>gs_store := (gs_store s)(x \<mapsto> g)\<rparr>) else Inl (NoReturn ''redeclared''))"

text \<open>An assignment of a variable to itself takes the two updates one after the other.\<close>

fun guard_step :: "'a \<Rightarrow> guard_op \<Rightarrow> 'a guard_state \<Rightarrow> 'a guard_state result" where
  "guard_step v (NewGuard x) s =
     rbind (declare_guard x (mkConsumeOnce v) s) (\<lambda>s'. Inr (s'\<lparr>gs_made := gs_made s' @ [v]\<rparr>))"
| "guard_step v (MoveConstruct x y) s =
     rbind (guard_at s x) (\<lambda>g. let (g1, g2) = moveConstruct g
       in rbind (declare_guard y g1 s) (\<lambda>s'. Inr (s'\<lparr>gs_store := (gs_store s')(x \<mapsto> g2)\<rparr>)))"
| "guard_step v (MoveAssign x y) s =
     rbind (guard_at s x) (\<lambda>g. rbind (guard_at s y) (\<lambda>h. let (h1, g1) = moveAssign h g
       in Inr (s\<lparr>gs_store := (gs_store s)(y \<mapsto> h1, x \<mapsto> g1)\<rparr>)))"
| "guard_step v (Consume x) s =
     rbind (guard_at s x) (\<lambda>g. rbind (getValueAndConsume g) (\<lambda>(u, g').
       Inr (s\<lparr>gs_store := (gs_store s)(x \<mapsto> g'), gs_taken := gs_taken s @ [u]\<rparr>)))"
| "guard_step v (Peek x) s = rbind (guard_at s x) (\<lambda>g. rbind (getValueNonConsuming g) (\<lambda>_. Inr s))"
| "guard_step v (Destroy x) s =
     rbind (guard_at s x) (\<lambda>g. rbind (destroyConsumeOnce g) (\<lambda>_. Inr (s\<lparr>gs_store := (gs_store s)(x := None)\<rparr>)))"

text \<open>All executions of a program: the values under guard, the branches and the number of rounds of a loop are arbitrary.\<close>

inductive guard_run :: "guard_com \<Rightarrow> 'a guard_state \<Rightarrow> 'a guard_state result \<Rightarrow> bool" where
  run_skip: "guard_run SKIP s (Inr s)"
| run_op: "guard_step v p s = r \<Longrightarrow> guard_run (Op p) s r"
| run_seq: "guard_run c1 s (Inr s1) \<Longrightarrow> guard_run c2 s1 r \<Longrightarrow> guard_run (Seq c1 c2) s r"
| run_seq_fail: "guard_run c1 s (Inl e) \<Longrightarrow> guard_run (Seq c1 c2) s (Inl e)"
| run_left: "guard_run c1 s r \<Longrightarrow> guard_run (Choose c1 c2) s r"
| run_right: "guard_run c2 s r \<Longrightarrow> guard_run (Choose c1 c2) s r"
| run_stop: "guard_run (Repeat c) s (Inr s)"
| run_round: "guard_run c s (Inr s1) \<Longrightarrow> guard_run (Repeat c) s1 r \<Longrightarrow> guard_run (Repeat c) s r"
| run_round_fail: "guard_run c s (Inl e) \<Longrightarrow> guard_run (Repeat c) s (Inl e)"

subsection \<open>The type system\<close>

datatype guard_type = Live | Spent | Moved

type_synonym guard_ctx = "string \<rightharpoonup> guard_type"

inductive op_typing :: "guard_ctx \<Rightarrow> guard_op \<Rightarrow> guard_ctx \<Rightarrow> bool" where
  "\<Gamma> x = None \<Longrightarrow> op_typing \<Gamma> (NewGuard x) (\<Gamma>(x \<mapsto> Live))"
| "\<Gamma> x = Some t \<Longrightarrow> \<Gamma> y = None \<Longrightarrow> op_typing \<Gamma> (MoveConstruct x y) (\<Gamma>(y \<mapsto> t, x \<mapsto> Moved))"
| "\<Gamma> x = Some t \<Longrightarrow> \<Gamma> y = Some u \<Longrightarrow> u \<noteq> Live \<Longrightarrow> x \<noteq> y \<Longrightarrow> op_typing \<Gamma> (MoveAssign x y) (\<Gamma>(y \<mapsto> t, x \<mapsto> Moved))"
| "\<Gamma> x = Some Live \<Longrightarrow> op_typing \<Gamma> (Consume x) (\<Gamma>(x \<mapsto> Spent))"
| "\<Gamma> x = Some Live \<Longrightarrow> op_typing \<Gamma> (Peek x) \<Gamma>"
| "\<Gamma> x = Some t \<Longrightarrow> t \<noteq> Live \<Longrightarrow> op_typing \<Gamma> (Destroy x) (\<Gamma>(x := None))"

inductive guard_typing :: "guard_ctx \<Rightarrow> guard_com \<Rightarrow> guard_ctx \<Rightarrow> bool" where
  "guard_typing \<Gamma> SKIP \<Gamma>"
| "op_typing \<Gamma> p \<Gamma>' \<Longrightarrow> guard_typing \<Gamma> (Op p) \<Gamma>'"
| "guard_typing \<Gamma> c1 \<Gamma>1 \<Longrightarrow> guard_typing \<Gamma>1 c2 \<Gamma>2 \<Longrightarrow> guard_typing \<Gamma> (Seq c1 c2) \<Gamma>2"
| "guard_typing \<Gamma> c1 \<Gamma>' \<Longrightarrow> guard_typing \<Gamma> c2 \<Gamma>' \<Longrightarrow> guard_typing \<Gamma> (Choose c1 c2) \<Gamma>'"
| "guard_typing \<Gamma> c \<Gamma> \<Longrightarrow> guard_typing \<Gamma> (Repeat c) \<Gamma>"

inductive_cases op_typingE [elim!]: "op_typing \<Gamma> (NewGuard x) \<Gamma>'" "op_typing \<Gamma> (MoveConstruct x y) \<Gamma>'"
  "op_typing \<Gamma> (MoveAssign x y) \<Gamma>'" "op_typing \<Gamma> (Consume x) \<Gamma>'" "op_typing \<Gamma> (Peek x) \<Gamma>'" "op_typing \<Gamma> (Destroy x) \<Gamma>'"

inductive_cases guard_typingE: "guard_typing \<Gamma> SKIP \<Gamma>'" "guard_typing \<Gamma> (Op p) \<Gamma>'" "guard_typing \<Gamma> (Seq c1 c2) \<Gamma>'"
  "guard_typing \<Gamma> (Choose c1 c2) \<Gamma>'" "guard_typing \<Gamma> (Repeat c) \<Gamma>'"

fun has_type :: "'a ConsumeOnce \<Rightarrow> guard_type \<Rightarrow> bool" where
  "has_type g Live \<longleftrightarrow> \<not> movedOut g \<and> \<not> consumed g"
| "has_type g Spent \<longleftrightarrow> \<not> movedOut g \<and> consumed g"
| "has_type g Moved \<longleftrightarrow> movedOut g"

subsection \<open>Soundness\<close>

text \<open>The values of live guards, as a multiset, and what typed states have in common.\<close>

definition live_values :: "guard_ctx \<Rightarrow> (string \<rightharpoonup> 'a ConsumeOnce) \<Rightarrow> 'a multiset" where
  "live_values \<Gamma> \<sigma> = image_mset (\<lambda>x. co_value (the (\<sigma> x))) (mset_set {x. \<Gamma> x = Some Live})"

definition state_ok :: "guard_ctx \<Rightarrow> 'a guard_state \<Rightarrow> bool" where
  "state_ok \<Gamma> s \<longleftrightarrow> finite (dom \<Gamma>) \<and> (\<forall>x. rel_option has_type (gs_store s x) (\<Gamma> x)) \<and>
     mset (gs_made s) = mset (gs_taken s) + live_values \<Gamma> (gs_store s)"

lemma live_values_upd:
  assumes "finite (dom \<Gamma>)"
  shows "live_values (\<Gamma>(x := t)) (\<sigma>(x := g)) =
    live_values (\<Gamma>(x := None)) \<sigma> + (if t = Some Live then {#co_value (the g)#} else {#})"
proof -
  let ?A = "{y. y \<noteq> x \<and> \<Gamma> y = Some Live}"
  have fin: "finite ?A" using assms by (rule rev_finite_subset) auto
  have same: "image_mset (\<lambda>y. co_value (the ((\<sigma>(x := g)) y))) (mset_set ?A) = image_mset (\<lambda>y. co_value (the (\<sigma> y))) (mset_set ?A)"
    by (rule image_mset_cong) (use fin in auto)
  have "{y. (\<Gamma>(x := None)) y = Some Live} = ?A" by auto
  moreover have "{y. (\<Gamma>(x := t)) y = Some Live} = (if t = Some Live then insert x ?A else ?A)" by auto
  ultimately show ?thesis using fin same by (simp add: live_values_def)
qed

lemma live_values_split:
  assumes "finite (dom \<Gamma>)"
  shows "live_values \<Gamma> \<sigma> = live_values (\<Gamma>(x := None)) \<sigma> + (if \<Gamma> x = Some Live then {#co_value (the (\<sigma> x))#} else {#})"
  using live_values_upd [OF assms, of x "\<Gamma> x" \<sigma> "\<sigma> x"] by simp

lemma state_ok_at:
  assumes "state_ok \<Gamma> s" "\<Gamma> x = Some t"
  obtains g where "gs_store s x = Some g" "has_type g t"
proof -
  have "rel_option has_type (gs_store s x) (\<Gamma> x)" using assms(1) by (simp add: state_ok_def)
  with assms(2) that show thesis by (cases "gs_store s x") auto
qed

lemma state_ok_fresh: "state_ok \<Gamma> s \<Longrightarrow> \<Gamma> x = None \<Longrightarrow> gs_store s x = None"
  unfolding state_ok_def by (metis rel_option_None2)

text \<open>One change of a variable; the balance of the values is all that is left to show.\<close>

lemma state_ok_upd:
  assumes "finite (dom \<Gamma>)" "\<forall>y. rel_option has_type (gs_store s y) (\<Gamma> y)" "rel_option has_type g t"
    "mset made = mset taken + (live_values (\<Gamma>(x := None)) (gs_store s) + (if t = Some Live then {#co_value (the g)#} else {#}))"
  shows "state_ok (\<Gamma>(x := t)) (s\<lparr>gs_store := (gs_store s)(x := g), gs_made := made, gs_taken := taken\<rparr>)"
  using assms by (cases t) (simp_all add: state_ok_def live_values_upd)

lemma moved_ok:
  assumes "state_ok \<Gamma> s" "\<Gamma> x = Some t" "gs_store s x = Some g" "has_type g t" "\<Gamma> y \<noteq> Some Live" "x \<noteq> y"
  shows "state_ok (\<Gamma>(y \<mapsto> t, x \<mapsto> Moved)) (s\<lparr>gs_store := (gs_store s)(y \<mapsto> g, x \<mapsto> g\<lparr>movedOut := True\<rparr>)\<rparr>)"
proof -
  have fin: "finite (dom \<Gamma>)" "finite (dom (\<Gamma>(y \<mapsto> t)))" "finite (dom (\<Gamma>(x := None)))" using assms(1) by (simp_all add: state_ok_def)
  have "live_values (\<Gamma>(y \<mapsto> t, x \<mapsto> Moved)) ((gs_store s)(y \<mapsto> g, x \<mapsto> g\<lparr>movedOut := True\<rparr>)) =
      live_values ((\<Gamma>(x := None))(y \<mapsto> t)) ((gs_store s)(y \<mapsto> g))"
    using assms(6) by (subst live_values_upd [OF fin(2)]) (simp add: fun_upd_twist)
  also have "\<dots> = live_values (\<Gamma>(x := None, y := None)) (gs_store s) + (if t = Live then {#co_value g#} else {#})"
    by (simp add: live_values_upd [OF fin(3)])
  also have "\<dots> = live_values \<Gamma> (gs_store s)"
    using live_values_split [OF fin(3), of "gs_store s" y] live_values_split [OF fin(1), of "gs_store s" x] assms by simp
  finally show ?thesis using assms fin by (simp add: state_ok_def)
qed

lemma op_sound:
  assumes "op_typing \<Gamma> p \<Gamma>'" "state_ok \<Gamma> s"
  shows "\<exists>s'. guard_step v p s = Inr s' \<and> state_ok \<Gamma>' s'"
  using assms
proof (cases rule: op_typing.cases)
  case (1 x)
  then show ?thesis
    using assms(2) state_ok_fresh [OF assms(2)] state_ok_upd [of \<Gamma> s "Some (mkConsumeOnce v)" "Some Live" "gs_made s @ [v]" "gs_taken s" x]
      live_values_split [of \<Gamma> "gs_store s" x]
    by (simp add: state_ok_def declare_guard_def mkConsumeOnce_def)
next
  case (2 x t y)
  then obtain g where g: "gs_store s x = Some g" "has_type g t" using state_ok_at [OF assms(2)] by blast
  have "x \<noteq> y" using 2 by auto
  have y: "gs_store s y = None" using state_ok_fresh [OF assms(2)] 2 by blast
  show ?thesis using moved_ok [OF assms(2) 2(3) g _ \<open>x \<noteq> y\<close>] 2 y g(1)
    by (cases g) (simp add: guard_at_def declare_guard_def moveConstruct_def)
next
  case (3 x t y u)
  then obtain g h where g: "gs_store s x = Some g" "has_type g t" and h: "gs_store s y = Some h" using state_ok_at [OF assms(2)] by metis
  show ?thesis using moved_ok [OF assms(2) 3(3) g _ 3(6)] 3 g(1) h
    by (cases g; cases h) (simp add: guard_at_def moveAssign_def)
next
  case (4 x)
  then obtain g where g: "gs_store s x = Some g" "has_type g Live" using state_ok_at [OF assms(2)] by blast
  then show ?thesis
    using assms(2) 4 state_ok_upd [of \<Gamma> s "Some (g\<lparr>consumed := True\<rparr>)" "Some Spent" "gs_made s" "gs_taken s @ [co_value g]" x]
      live_values_split [of \<Gamma> "gs_store s" x]
    by (simp add: state_ok_def guard_at_def getValueAndConsume_def)
next
  case (5 x)
  then obtain g where "gs_store s x = Some g" "has_type g Live" using state_ok_at [OF assms(2)] by blast
  then show ?thesis using assms(2) 5 by (simp add: guard_at_def getValueNonConsuming_def)
next
  case (6 x t)
  then obtain g where g: "gs_store s x = Some g" "has_type g t" using state_ok_at [OF assms(2)] by blast
  then show ?thesis
    using assms(2) 6 state_ok_upd [of \<Gamma> s None None "gs_made s" "gs_taken s" x] live_values_split [of \<Gamma> "gs_store s" x]
    by (cases t) (simp_all add: state_ok_def guard_at_def destroyConsumeOnce_def)
qed

lemma typing_sound:
  "guard_run c s r \<Longrightarrow> guard_typing \<Gamma> c \<Gamma>' \<Longrightarrow> state_ok \<Gamma> s \<Longrightarrow> \<exists>s'. r = Inr s' \<and> state_ok \<Gamma>' s'"
proof (induction arbitrary: \<Gamma> \<Gamma>' rule: guard_run.induct)
  case (run_op v p s r)
  then show ?case using op_sound by (fastforce elim!: guard_typingE)
next
  case (run_seq c1 s s1 c2 r)
  then show ?case by (fastforce elim!: guard_typingE)
next
  case (run_seq_fail c1 s e c2)
  then show ?case by (fastforce elim!: guard_typingE)
next
  case (run_left c1 s r c2)
  then show ?case by (fastforce elim!: guard_typingE)
next
  case (run_right c2 s r c1)
  then show ?case by (fastforce elim!: guard_typingE)
next
  case (run_round c s s1 r)
  from run_round.prems(1) have "\<Gamma>' = \<Gamma>" "guard_typing \<Gamma> c \<Gamma>" by (auto elim: guard_typingE)
  with run_round show ?case by blast
next
  case (run_round_fail c s e)
  then show ?case by (fastforce elim!: guard_typingE)
qed (auto elim: guard_typingE)

subsection \<open>The guards of the driver\<close>

text \<open>
  \<^verbatim>\<open>Scheduler::assignJobsToIdleWorkers\<close> with \<^verbatim>\<open>claimIdleWorker\<close> and \<^verbatim>\<open>Driver::tryAssignJobToWorker\<close>, and
  \<^verbatim>\<open>Scheduler::createSubtaskAndScheduleOnWorker\<close>: what they do with guards. A guard that is passed as a reference stays where it is.
\<close>

definition schedule_guards :: "string \<Rightarrow> guard_com" where
  "schedule_guards x = Seq (Op (Peek x)) (Seq (Op (Peek x)) (Seq (Op (Peek x)) (Op (Consume x))))"

definition assign_guards :: guard_com where
  "assign_guards =
     Repeat (Seq (Op (NewGuard ''nextWorkerId''))
       (Seq (Seq (Op (Peek ''nextWorkerId'')) (schedule_guards ''nextWorkerId'')) (Op (Destroy ''nextWorkerId''))))"

definition subtask_guards :: guard_com where
  "subtask_guards = Seq (Op (NewGuard ''workerId'')) (Seq (schedule_guards ''workerId'') (Op (Destroy ''workerId'')))"

lemma schedule_guards_typed: "\<Gamma> x = Some Live \<Longrightarrow> guard_typing \<Gamma> (schedule_guards x) (\<Gamma>(x \<mapsto> Spent))"
  unfolding schedule_guards_def by (rule guard_typing.intros op_typing.intros | assumption)+

lemma guarded_typed:
  assumes "\<Gamma> x = None" "guard_typing (\<Gamma>(x \<mapsto> Live)) c (\<Gamma>(x \<mapsto> Spent))"
  shows "guard_typing \<Gamma> (Seq (Op (NewGuard x)) (Seq c (Op (Destroy x)))) \<Gamma>"
proof -
  have "guard_typing (\<Gamma>(x \<mapsto> Spent)) (Op (Destroy x)) ((\<Gamma>(x \<mapsto> Spent))(x := None))"
    by (intro guard_typing.intros op_typing.intros(6) [where t = Spent]) simp_all
  moreover have "(\<Gamma>(x \<mapsto> Spent))(x := None) = \<Gamma>" using assms(1) by (simp add: fun_upd_idem)
  ultimately have "guard_typing (\<Gamma>(x \<mapsto> Spent)) (Op (Destroy x)) \<Gamma>" by simp
  moreover have "guard_typing \<Gamma> (Op (NewGuard x)) (\<Gamma>(x \<mapsto> Live))" using assms(1) by (intro guard_typing.intros op_typing.intros)
  ultimately show ?thesis using assms(2) by (meson guard_typing.intros(3))
qed

lemma driver_guards_typed: "guard_typing Map.empty assign_guards Map.empty" "guard_typing Map.empty subtask_guards Map.empty"
proof -
  have s: "guard_typing ([x \<mapsto> Live]) (schedule_guards x) ([x \<mapsto> Spent])" for x
    using schedule_guards_typed [of "[x \<mapsto> Live]" x] by simp
  then show "guard_typing Map.empty subtask_guards Map.empty"
    unfolding subtask_guards_def by (intro guarded_typed) simp_all
  have "guard_typing ([x \<mapsto> Live]) (Seq (Op (Peek x)) (schedule_guards x)) ([x \<mapsto> Spent])" for x
    using guard_typing.intros(3) [OF guard_typing.intros(2) [OF op_typing.intros(5)] s] by simp
  then show "guard_typing Map.empty assign_guards Map.empty"
    unfolding assign_guards_def by (intro guard_typing.intros(5) guarded_typed) simp_all
qed

subsection \<open>Properties\<close>



text \<open>
  In a build without checks the warning is logged exactly when the check holds. The only uses, in \<^verbatim>\<open>Scheduler::checkAssignedWorker\<close>, are reached
  when the check does not hold, so that it is never logged.
\<close>

lemma enforce_or_warn_release: "ENFORCE_OR_WARN False check msg = Inr (if check then [msg] else [])"
  by (simp add: ENFORCE_OR_WARN_def ENFORCE_def)

text \<open>An assignment to a guard that has not been consumed loses its value without a failing check.\<close>

lemma move_assign_forgets:
  "rbind (guard_step v (MoveAssign x y) \<lparr>gs_store = [x \<mapsto> mkConsumeOnce a, y \<mapsto> mkConsumeOnce b], gs_made = [a, b], gs_taken = []\<rparr>)
     (\<lambda>s. rbind (guard_step v (Consume y) s) (\<lambda>s. rbind (guard_step v (Destroy y) s) (guard_step v (Destroy x)))) =
   Inr \<lparr>gs_store = Map.empty, gs_made = [a, b], gs_taken = [a]\<rparr>" if "x \<noteq> y"
  using that by (auto simp: guard_at_def guard_defs fun_upd_twist)

text \<open>A bomb that is defused once, and no more, goes off silently.\<close>

lemma bomb_cases:
  "destroyBomb b = (if isUnconsumed b then (Some (co_value b), Inl (EnforceFailed ''forgot to call getValueAndConsume'')) else (None, Inr ()))"
  "defuse b = Inr b' \<Longrightarrow> destroyBomb b' = (None, Inr ()) \<and> defuse b' = Inl (EnforceFailed ''trying to consume worker guard twice'')"
  by (auto simp: destroyBomb_def defuse_def guard_defs result_simps)

end
