(* ===== verification/Diagnostics.thy ===== *)
theory Diagnostics
  imports Preprocessor Command_Line "HOL-Library.Log_Nat" "HOL-Library.Sublist"
begin

text \<open>
  What the program shows to its users and developers, and the small helpers around it: the progress report (indexer/ProgressReporter.h,
  indexer/ProgressReporter.cc), the timers (indexer/Timer.h, indexer/Timer.cc), the backtrace of a failed check (indexer/Exception.cc), locations and kinds in messages
  (indexer/DebugHelpers.cc), the reading of files (indexer/FileSystem.cc) and of the output of compilers (indexer/CompilationDatabase.cc).
\<close>

subsection \<open>Progress\<close>

text \<open>
  The number of digits is computed with \<^verbatim>\<open>std::log10\<close> in floating point, which is \<open>floorlog 10\<close> for the counts at hand, that are below
  \<open>2\<^sup>3\<^sup>2\<close>. Widths are in characters; texts are ASCII.
\<close>

record ProgressReporter =
  pr_message :: string
  pr_totalCount :: nat
  countWidth :: nat
  pr_active :: bool
  isTty :: bool

definition mkProgressReporter :: "bool \<Rightarrow> bool \<Rightarrow> string \<Rightarrow> nat \<Rightarrow> ProgressReporter" where
  "mkProgressReporter stdoutIsCharacterDevice active msg totalCount =
     \<lparr>pr_message = msg, pr_totalCount = totalCount,
      countWidth = (if totalCount = 0 then 1 else floorlog 10 totalCount),
      pr_active = active, isTty = stdoutIsCharacterDevice\<rparr>"

definition align_right :: "nat \<Rightarrow> string \<Rightarrow> string" where
  "align_right w s = replicate (w - length s) (CHR '' '') @ s"

definition align_left :: "char \<Rightarrow> nat \<Rightarrow> string \<Rightarrow> string" where
  "align_left fill w s = s @ replicate (w - length s) fill"

definition counters :: "ProgressReporter \<Rightarrow> nat \<Rightarrow> string" where
  "counters r n = ''['' @ align_right (countWidth r) (fmt_nat n) @ ''/'' @ align_right (countWidth r) (fmt_nat (pr_totalCount r)) @ ''] ''"

definition report :: "ProgressReporter \<Rightarrow> nat \<Rightarrow> string \<Rightarrow> string" where
  "report r n extraData =
     (if \<not> pr_active r then []
      else let maxExtraWidth = 256; backspaceCount = nat (max (int maxExtraWidth - int (length extraData)) 0)
           in if isTty r
              then [CHR 0x0D] @ counters r n @ pr_message r @ '' '' @ align_left (CHR '' '') maxExtraWidth extraData
                   @ align_left (CHR 0x08) backspaceCount []
              else counters r n @ pr_message r @ '' '' @ extraData @ [CHR 0x0A])"

definition destroyProgressReporter :: "ProgressReporter \<Rightarrow> string" where
  "destroyProgressReporter r = (if pr_active r \<and> isTty r then [CHR 0x0A] else [])"

subsection \<open>Backtraces\<close>

definition find_char_from :: "char \<Rightarrow> string \<Rightarrow> nat \<Rightarrow> nat option" where
  "find_char_from c s i = find (\<lambda>j. s ! j = c) [i..<length s]"

fun contains_text :: "string \<Rightarrow> string \<Rightarrow> bool" where
  "contains_text p [] \<longleftrightarrow> p = []"
| "contains_text p (c # s) \<longleftrightarrow> take (length p) (c # s) = p \<or> contains_text p s"

definition patterns :: "string list" where
  "patterns = [''typecase.h:'', ''__functional_base:'', ''functional:'']"

lemma find_char_from_Some: "find_char_from c s i = Some j \<Longrightarrow> i \<le> j \<and> j < length s \<and> s ! j = c"
  by (auto simp: find_char_from_def find_Some_iff)

function filter_loop :: "string \<Rightarrow> nat \<Rightarrow> string" where
  "filter_loop out i =
     (if i < length out then
        case find_char_from (CHR 0x0A) out i of
          None \<Rightarrow> out
        | Some i \<Rightarrow>
            (case find_char_from (CHR 0x0A) out (i + 1) of
               None \<Rightarrow> out
             | Some j \<Rightarrow>
                 let substr = take (j - i) (drop i out); found = foldl (\<lambda>f subp. f \<or> contains_text subp substr) False patterns
                 in if found then filter_loop (take i out @ drop j out) i else filter_loop out (i + 1))
      else out)"
  by pat_completeness auto
termination
proof (relation "measure (\<lambda>(out, i). length out - i)", goal_cases)
  case (2 out i k j substr found)
  then show ?case using find_char_from_Some [OF 2(2)] find_char_from_Some [OF 2(3)] by auto
next
  case (3 out i k j substr found)
  then show ?case using find_char_from_Some [OF 3(2)] by auto
qed simp

declare filter_loop.simps [simp del]

definition filter_unnecessary :: "string \<Rightarrow> string" where
  "filter_unnecessary out = filter_loop out 0"

subsection \<open>Timers\<close>

text \<open>
  Times are in microseconds; a clock gives seconds and nanoseconds. What a timer does at its end is the entry that it passes to
  \<^verbatim>\<open>timingAdd\<close>, which is a stub, and whether it logs an error.
\<close>

definition getClockThresholdCoarse :: "int \<Rightarrow> int \<Rightarrow> int" where
  "getClockThresholdCoarse sec nsec = (let micros = 2 * (sec * 1000000) + nsec div 1000 in if micros < 1000 then 1000 else micros)"

definition getCurrentInstantCoarse :: "int \<Rightarrow> int \<Rightarrow> int" where
  "getCurrentInstantCoarse sec nsec = sec * 1000000 + nsec div 1000"

record Timer =
  timer_name :: string
  timer_start :: int
  canceled :: bool

definition mkTimer :: "int \<Rightarrow> string \<Rightarrow> Timer" where
  "mkTimer now nm = \<lparr>timer_name = nm, timer_start = now, canceled = False\<rparr>"

definition moveTimer :: "Timer \<Rightarrow> Timer \<times> Timer" where
  "moveTimer other = (\<lparr>timer_name = timer_name other, timer_start = timer_start other, canceled = canceled other\<rparr>, other\<lparr>canceled := True\<rparr>)"

definition oneWeek :: int where
  "oneWeek = 24 * 60 * 60 * 1000 * 1000"

definition destroyTimer :: "int \<Rightarrow> int \<Rightarrow> Timer \<Rightarrow> (string \<times> int \<times> int) option \<times> bool" where
  "destroyTimer clockThresholdCoarse now t =
     (let duration = now - timer_start t
      in if \<not> canceled t \<and> duration > clockThresholdCoarse
         then (Some (timer_name t, timer_start t, now), duration > oneWeek) else (None, False))"

subsection \<open>Locations and kinds\<close>

text \<open>\<open>printToString\<close> is Clang's own text of a location. Locations that are not in a file come from a macro.\<close>

definition isMacroID :: "clang_api \<Rightarrow> SourceLocation \<Rightarrow> bool" where
  "isMacroID A loc \<longleftrightarrow> \<not> isFileID A loc"

definition fmt_u32 :: "32 word \<Rightarrow> string" where
  "fmt_u32 n = fmt_nat (unat n)"

definition formatLoc :: "clang_api \<Rightarrow> (SourceLocation \<Rightarrow> string) \<Rightarrow> SourceLocation \<Rightarrow> string" where
  "formatLoc A printToString loc =
     (if loc_isInvalid loc then ''<invalid loc>''
      else if isFileID A loc then
        (case getPresumedLoc A loc True of
           None \<Rightarrow> ''<invalid presumedLoc>''
         | Some p \<Rightarrow> pl_filename p @ '':'' @ fmt_u32 (pl_line p) @ '':'' @ fmt_u32 (pl_column p) @ '' (FileID)'')
      else printToString (getExpansionLoc A loc) @ '' (MacroID; spellingLoc = '' @ printToString (getSpellingLoc A loc) @ '')'' @
        (if getExpansionLoc A loc = loc then '''' else '' (note: loc != expansionLoc)''))"

definition formatPresumedRange :: "PresumedLoc \<Rightarrow> PresumedLoc \<Rightarrow> string" where
  "formatPresumedRange p q =
     (if pl_filename p = pl_filename q then
        if pl_line p = pl_line q
        then pl_filename p @ '':'' @ fmt_u32 (pl_line p) @ '':['' @ fmt_u32 (pl_column p) @ ''-'' @ fmt_u32 (pl_column q) @ '']''
        else pl_filename p @ '':['' @ fmt_u32 (pl_line p) @ '':'' @ fmt_u32 (pl_column p) @ ''-'' @ fmt_u32 (pl_line q) @ '':'' @
          fmt_u32 (pl_column q) @ '']''
      else ''['' @ pl_filename p @ '':'' @ fmt_u32 (pl_line p) @ '':'' @ fmt_u32 (pl_column p) @ '']-['' @
        pl_filename q @ '':'' @ fmt_u32 (pl_line q) @ '':'' @ fmt_u32 (pl_column q) @ '']'')"

definition formatFileIdRange :: "clang_api \<Rightarrow> SourceLocation \<Rightarrow> SourceLocation \<Rightarrow> string" where
  "formatFileIdRange A loc1 loc2 =
     (if isFileID A loc1 \<and> isFileID A loc2 then
        if \<not> loc_isInvalid loc1 \<and> \<not> loc_isInvalid loc2 then
          (case (getPresumedLoc A loc1 True, getPresumedLoc A loc2 True) of
             (Some p, Some q) \<Rightarrow> formatPresumedRange p q
           | (None, None) \<Rightarrow> ''<invalid-plocs>''
           | _ \<Rightarrow> '''')
        else if loc_isInvalid loc1 \<and> loc_isInvalid loc2 then ''<invalid-locs>''
        else ''''
      else '''')"

definition formatMacroRange :: "clang_api \<Rightarrow> SourceLocation \<Rightarrow> SourceLocation \<Rightarrow> string option" where
  "formatMacroRange A loc1 loc2 =
     (if isMacroID A loc1 \<and> isMacroID A loc2 \<and> \<not> loc_isInvalid loc1 \<and> \<not> loc_isInvalid loc2 then
        let expLoc1 = getExpansionLoc A loc1; spLoc1 = getSpellingLoc A loc1;
            expLoc2 = getExpansionLoc A loc2; spLoc2 = getSpellingLoc A loc2;
            expansionRangeStr = formatFileIdRange A expLoc1 expLoc2
        in if expansionRangeStr \<noteq> [] then
             let spellingRangeStr = formatFileIdRange A spLoc1 spLoc2
             in if spellingRangeStr \<noteq> [] then
                  Some (expansionRangeStr @ '' (MacroID; spellingRange = '' @ spellingRangeStr @ '')'' @
                    (if expLoc1 = loc1 then '''' else '' (note: loc1 != expansionLoc1)'') @
                    (if expLoc2 = loc2 then '''' else '' (note: loc2 != expansionLoc2)''))
                else None
           else None
      else None)"

definition formatRange :: "clang_api \<Rightarrow> (SourceLocation \<Rightarrow> string) \<Rightarrow> SourceLocation \<Rightarrow> SourceLocation \<Rightarrow> string" where
  "formatRange A printToString loc1 loc2 =
     (if loc_isInvalid loc1 \<and> loc_isInvalid loc2 then ''<invalid-range>''
      else let rangeStr = formatFileIdRange A loc1 loc2
           in if rangeStr \<noteq> [] then rangeStr @ '' (FileID)''
              else case formatMacroRange A loc1 loc2 of
                     Some s \<Rightarrow> s
                   | None \<Rightarrow> ''['' @ formatLoc A printToString loc1 @ '']-['' @ formatLoc A printToString loc2 @ '']'')"

definition formatPtr :: "64 word \<Rightarrow> string" where
  "formatPtr ptr = ''0x'' @ align_right 16 (fmt_hex ptr)"

fun toString_FileChangeReason :: "FileChangeReason \<Rightarrow> string" where
  "toString_FileChangeReason EnterFile = ''EnterFile''"
| "toString_FileChangeReason ExitFile = ''ExitFile''"
| "toString_FileChangeReason RenameFile = ''RenameFile''"
| "toString_FileChangeReason SystemHeaderPragma = ''SystemHeaderPragma''"

text \<open>The kinds of Clang's enumerations, each shown by its name.\<close>

datatype SpecifierKind = NNS_Identifier | NNS_Namespace | NNS_NamespaceAlias | NNS_TypeSpec | NNS_Global | NNS_Super

fun formatKind_SpecifierKind :: "SpecifierKind \<Rightarrow> string" where
  "formatKind_SpecifierKind NNS_Identifier = ''Identifier''"
| "formatKind_SpecifierKind NNS_Namespace = ''Namespace''"
| "formatKind_SpecifierKind NNS_NamespaceAlias = ''NamespaceAlias''"
| "formatKind_SpecifierKind NNS_TypeSpec = ''TypeSpec''"
| "formatKind_SpecifierKind NNS_Global = ''Global''"
| "formatKind_SpecifierKind NNS_Super = ''Super''"

datatype NameKind = TN_Template | TN_OverloadedTemplate | TN_AssumedTemplate | TN_QualifiedTemplate | TN_DependentTemplate |
  TN_SubstTemplateTemplateParm | TN_SubstTemplateTemplateParmPack | TN_UsingTemplate

fun formatKind_NameKind :: "NameKind \<Rightarrow> string" where
  "formatKind_NameKind TN_Template = ''Template''"
| "formatKind_NameKind TN_OverloadedTemplate = ''OverloadedTemplate''"
| "formatKind_NameKind TN_AssumedTemplate = ''AssumedTemplate''"
| "formatKind_NameKind TN_QualifiedTemplate = ''QualifiedTemplate''"
| "formatKind_NameKind TN_DependentTemplate = ''DependentTemplate''"
| "formatKind_NameKind TN_SubstTemplateTemplateParm = ''SubstTemplateTemplateParm''"
| "formatKind_NameKind TN_SubstTemplateTemplateParmPack = ''SubstTemplateTemplateParmPack''"
| "formatKind_NameKind TN_UsingTemplate = ''UsingTemplate''"

datatype TemplateSpecializationKind = TSK_Undeclared | TSK_ImplicitInstantiation | TSK_ExplicitSpecialization |
  TSK_ExplicitInstantiationDeclaration | TSK_ExplicitInstantiationDefinition

fun formatKind_TemplateSpecializationKind :: "TemplateSpecializationKind \<Rightarrow> string" where
  "formatKind_TemplateSpecializationKind TSK_Undeclared = ''Undeclared''"
| "formatKind_TemplateSpecializationKind TSK_ImplicitInstantiation = ''ImplicitInstantiation''"
| "formatKind_TemplateSpecializationKind TSK_ExplicitSpecialization = ''ExplicitSpecialization''"
| "formatKind_TemplateSpecializationKind TSK_ExplicitInstantiationDeclaration = ''ExplicitInstantiationDeclaration''"
| "formatKind_TemplateSpecializationKind TSK_ExplicitInstantiationDefinition = ''ExplicitInstantiationDefinition''"

datatype TemplatedKind = TK_NonTemplate | TK_FunctionTemplate | TK_MemberSpecialization |
  TK_FunctionTemplateSpecialization | TK_DependentFunctionTemplateSpecialization | TK_DependentNonTemplate

fun formatKind_TemplatedKind :: "TemplatedKind \<Rightarrow> string" where
  "formatKind_TemplatedKind TK_NonTemplate = ''NonTemplate''"
| "formatKind_TemplatedKind TK_FunctionTemplate = ''FunctionTemplate''"
| "formatKind_TemplatedKind TK_MemberSpecialization = ''MemberSpecialization''"
| "formatKind_TemplatedKind TK_FunctionTemplateSpecialization = ''FunctionTemplateSpecialization''"
| "formatKind_TemplatedKind TK_DependentFunctionTemplateSpecialization = ''DependentFunctionTemplateSpecialization''"
| "formatKind_TemplatedKind TK_DependentNonTemplate = ''DependentNonTemplate''"

subsection \<open>Files and processes\<close>

text \<open>
  A stream gives, for each call of \<^verbatim>\<open>read\<close>, the bytes that were read or an error; when nothing is left it gives no bytes. Errors are
  numbers.
\<close>

datatype read_result = ReadBytes string | ReadError int

fun readLoop :: "read_result list \<Rightarrow> string \<Rightarrow> string \<times> int option" where
  "readLoop [] out = (out, None)"
| "readLoop (ReadBytes s # rs) out = (if s = [] then (out, None) else readLoop rs (out @ s))"
| "readLoop (ReadError e # rs) out = ([], Some e)"

definition readFileToString :: "int + read_result list \<Rightarrow> string \<times> int option" where
  "readFileToString stream = (case stream of Inl ec \<Rightarrow> ([], Some ec) | Inr reads \<Rightarrow> readLoop reads [])"

text \<open>
  What happens to a process: it cannot be started or waited for, or it ends with a code and has written two texts. Only lines up to the first empty
  one are taken.
\<close>

record process_run =
  pr_exitCode :: int
  pr_error :: bool
  pr_stdout :: string
  pr_stderr :: string

definition nonemptyLines :: "string \<Rightarrow> string list" where
  "nonemptyLines s = takeWhile (\<lambda>l. l \<noteq> []) (split_on s (CHR 0x0A))"

definition runProcess :: "(string list \<Rightarrow> process_run) \<Rightarrow> string list \<Rightarrow> CompletedProcess" where
  "runProcess start args =
     (let p = start args; exitCode = (if pr_error p then 1 else pr_exitCode p)
      in \<lparr>isSuccess = (exitCode = 0 \<and> \<not> pr_error p), stdoutLines = nonemptyLines (pr_stdout p), stderrLines = nonemptyLines (pr_stderr p)\<rparr>)"

subsection \<open>A row of a terminal\<close>

text \<open>
  The row and the column of the cursor. Other characters than carriage return and backspace overwrite what is there. The row is wide enough.
\<close>

fun terminal_put :: "char \<Rightarrow> string \<times> nat \<Rightarrow> string \<times> nat" where
  "terminal_put c (row, col) =
     (if c = CHR 0x0D then (row, 0)
      else if c = CHR 0x08 then (row, col - 1)
      else (take col row @ c # drop (col + 1) row, col + 1))"

definition displays :: "string \<Rightarrow> string \<times> nat \<Rightarrow> string \<times> nat" where
  "displays s t = fold terminal_put s t"

definition printable :: "string \<Rightarrow> bool" where
  "printable s \<longleftrightarrow> CHR 0x0D \<notin> set s \<and> CHR 0x08 \<notin> set s"

lemma displays_append [simp]: "displays (s @ s') t = displays s' (displays s t)"
  by (simp add: displays_def)

lemma printable_append [simp]: "printable (s @ s') \<longleftrightarrow> printable s \<and> printable s'"
  by (auto simp: printable_def)

lemma displays_printable:
  "printable s \<Longrightarrow> col \<le> length row \<Longrightarrow> displays s (row, col) = (take col row @ s @ drop (col + length s) row, col + length s)"
proof (induction s arbitrary: row col)
  case (Cons c s)
  have "printable s" "c \<noteq> CHR 0x0D" "c \<noteq> CHR 0x08" using Cons.prems(1) by (auto simp: printable_def)
  then show ?case using Cons.IH [of "col + 1" "take col row @ c # drop (col + 1) row"] Cons.prems(2)
    by (simp add: displays_def min.absorb2 Suc_diff_le add.commute [of "length s"])
qed (simp add: displays_def)

lemma displays_backspaces: "displays (replicate n (CHR 0x08)) (row, col) = (row, col - n)"
  by (induction n arbitrary: col) (simp_all add: displays_def)

lemma displays_return: "displays (CHR 0x0D # s) (row, col) = displays s (row, 0)"
  by (simp add: displays_def)

lemma length_fmt_nat: "n > 0 \<Longrightarrow> length (fmt_nat n) = floorlog 10 n"
proof (induction n rule: fmt_nat.induct)
  case (1 n)
  show ?case
  proof (cases "n < 10")
    case True
    then show ?thesis using 1 by (simp add: fmt_nat.simps [of n] compute_floorlog)
  next
    case False
    then show ?thesis using 1 by (simp add: fmt_nat.simps [of n] compute_floorlog [of 10 n])
  qed
qed

lemma fmt_nat_mono_length: "m \<le> n \<Longrightarrow> length (fmt_nat m) \<le> max 1 (floorlog 10 n)"
proof (cases "m = 0")
  case False
  assume "m \<le> n"
  then show ?thesis using length_fmt_nat [of m] floorlog_mono [of m n 10] False by simp
qed (simp add: fmt_nat.simps)

lemma printable_fmt_nat: "printable (fmt_nat n)"
  using fmt_nat_digits [of n] by (auto simp: printable_def is_digit_def)

lemma counters_props:
  assumes "n \<le> tot" "r = mkProgressReporter tty act msg tot"
  shows "length (counters r n) = 2 * countWidth r + 4" "printable (counters r n)"
proof -
  have "length (fmt_nat k) \<le> countWidth r" if "k \<le> tot" for k
    using fmt_nat_mono_length [OF that] floorlog_eq_zero_iff [of 10 tot] unfolding assms(2) mkProgressReporter_def
    by (cases "tot = 0") (auto simp: max_def split: if_splits)
  from this [OF assms(1)] this [of tot] show "length (counters r n) = 2 * countWidth r + 4"
    by (simp add: counters_def align_right_def assms(2) mkProgressReporter_def)
  show "printable (counters r n)" using printable_fmt_nat by (simp add: counters_def align_right_def) (simp add: printable_def)
qed

text \<open>What a report shows, and that a report replaces all of an earlier one.\<close>

definition progress_line :: "ProgressReporter \<Rightarrow> nat \<Rightarrow> string \<Rightarrow> string" where
  "progress_line r n extraData = counters r n @ pr_message r @ '' '' @ extraData"

lemma report_shown:
  assumes r: "r = mkProgressReporter True True msg tot" and "n \<le> tot" "printable msg" "printable extra" "length extra \<le> 256"
    and row: "row = [] \<and> col = 0 \<or> length row = 2 * countWidth r + length msg + 261"
  shows "displays (report r n extra) (row, col) =
    (progress_line r n extra @ replicate (256 - length extra) (CHR '' ''), length (progress_line r n extra))"
proof -
  note c = counters_props [OF assms(2) r]
  let ?pad = "replicate (256 - length extra) (CHR '' '')"
  let ?text = "counters r n @ pr_message r @ '' '' @ extra @ ?pad"
  have line: "printable ?text" "length ?text = 2 * countWidth r + length msg + 261"
    using assms c by (auto simp: mkProgressReporter_def printable_def)
  have "report r n extra = CHR 0x0D # ?text @ replicate (256 - length extra) (CHR 0x08)"
    using assms(5) by (simp add: report_def r mkProgressReporter_def align_left_def nat_diff_distrib')
  then have "displays (report r n extra) (row, col) = displays (replicate (256 - length extra) (CHR 0x08)) (displays ?text (row, 0))"
    by (simp only: displays_return displays_append)
  also have "\<dots> = (?text, length ?text - (256 - length extra))"
    using displays_printable [OF line(1), of 0 row] row line(2) by (auto simp: displays_backspaces)
  finally show ?thesis using assms(5) by (simp add: progress_line_def)
qed

lemma reports_shown:
  assumes r: "r = mkProgressReporter True True msg tot" and "printable msg"
    and "\<forall>(n, extra) \<in> set (reports @ [(n, extra)]). n \<le> tot \<and> printable extra \<and> length extra \<le> 256"
  shows "displays (concat (map (\<lambda>(n, extra). report r n extra) (reports @ [(n, extra)]))) ([], 0) =
    (progress_line r n extra @ replicate (256 - length extra) (CHR '' ''), length (progress_line r n extra))"
  using assms(3)
proof (induction reports arbitrary: n extra rule: rev_induct)
  case Nil
  then show ?case using report_shown [OF r _ assms(2)] by simp
next
  case (snoc p reports)
  obtain m e where p: "p = (m, e)" by (cases p)
  let ?row = "progress_line r m e @ replicate (256 - length e) (CHR '' '')"
  have ok: "m \<le> tot" "printable e" "length e \<le> 256" "n \<le> tot" "printable extra" "length extra \<le> 256" using snoc.prems p by auto
  have "length ?row = 2 * countWidth r + length msg + 261"
    using counters_props [OF ok(1) r] ok(3) by (simp add: progress_line_def r mkProgressReporter_def)
  with report_shown [OF r ok(4) assms(2) ok(5,6)] show ?case
    using snoc.IH [of m e] snoc.prems by (simp add: p)
qed

subsection \<open>The lines of a backtrace\<close>

definition unnecessary :: "string \<Rightarrow> bool" where
  "unnecessary line \<longleftrightarrow> (\<exists>p \<in> set patterns. contains_text p line)"

lemma find_char_from_skip:
  assumes "i \<le> length A" "c \<notin> set (drop i A)"
  shows "find_char_from c (A @ s) i = (case find_char_from c s 0 of None \<Rightarrow> None | Some j \<Rightarrow> Some (length A + j))"
proof -
  have "[i..<length (A @ s)] = [i..<length A] @ map (\<lambda>j. length A + j) [0..<length s]"
    using upt_add_eq_append [OF assms(1), of "length s"] map_add_upt [of "length A" "length s"] by (simp add: add.commute)
  moreover have "find (\<lambda>j. (A @ s) ! j = c) [i..<length A] = None"
  proof -
    have "A ! j \<noteq> c" if "i \<le> j" "j < length A" for j
      using assms that by (metis in_set_conv_nth length_drop nth_drop le_add_diff_inverse diff_less_mono)
    then show ?thesis by (auto simp: find_None_iff nth_append)
  qed
  moreover have "find P (xs @ ys) = (case find P xs of None \<Rightarrow> find P ys | Some x \<Rightarrow> Some x)" for P and xs ys :: "nat list"
    by (induction xs) auto
  moreover have "find P (map f xs) = map_option f (find (P \<circ> f) xs)" for P and f :: "nat \<Rightarrow> nat" and xs
    by (induction xs) auto
  ultimately show ?thesis by (simp add: find_char_from_def comp_def nth_append option.case_eq_if map_option_case)
qed

lemma find_char_from_hit: "find_char_from c (c # s) 0 = Some 0"
  by (simp add: find_char_from_def upt_rec)

lemma find_char_from_none: "c \<notin> set s \<Longrightarrow> find_char_from c s 0 = None"
  by (auto simp: find_char_from_def find_None_iff)

lemma find_newline:
  assumes "i \<le> length A" "c \<notin> set (drop i A)"
  shows "find_char_from c (A @ c # s) i = Some (length A)" "c \<notin> set s \<Longrightarrow> find_char_from c (A @ c # s) (length A + 1) = None"
    "c \<notin> set l \<Longrightarrow> find_char_from c (A @ c # l @ c # s) (length A + 1) = Some (length A + 1 + length l)"
  using find_char_from_skip [OF assms, of "c # s"] find_char_from_skip [of "length A + 1" "A @ [c]" c s]
    find_char_from_skip [of "length A + 1" "A @ c # l" c "c # s"]
  by (simp_all add: find_char_from_hit find_char_from_none)

lemma found_unnecessary:
  "foldl (\<lambda>f subp. f \<or> contains_text subp (CHR 0x0A # l)) False patterns = unnecessary l"
  by (simp add: patterns_def unnecessary_def)

lemma filter_loop_lines:
  assumes "ls \<noteq> []" "\<forall>l \<in> set ls. CHR 0x0A \<notin> set l" "i \<le> length A" "CHR 0x0A \<notin> set (drop i A)"
  shows "filter_loop (A @ CHR 0x0A # join_with (CHR 0x0A) ls) i =
    A @ CHR 0x0A # join_with (CHR 0x0A) (filter (\<lambda>l. \<not> unnecessary l) (butlast ls) @ [last ls])"
  using assms
proof (induction ls arbitrary: A i)
  case (Cons l ls)
  let ?n = "CHR 0x0A"
  have l: "?n \<notin> set l" using Cons.prems by simp
  have first: "find_char_from ?n (A @ ?n # s) i = Some (length A)" for s by (rule find_newline(1) [OF Cons.prems(3,4)])
  show ?case
  proof (cases "ls = []")
    case True
    then show ?thesis using first find_newline(2) [OF Cons.prems(3,4) l] Cons.prems(3) by (simp add: filter_loop.simps [of _ i])
  next
    case False
    then have join: "join_with ?n (l # ls) = l @ ?n # join_with ?n ls" by (cases ls) simp_all
    have out: "filter_loop (A @ ?n # join_with ?n (l # ls)) i =
        (if unnecessary l then filter_loop (A @ ?n # join_with ?n ls) (length A)
         else filter_loop ((A @ ?n # l) @ ?n # join_with ?n ls) (length A + 1))"
      using first find_newline(3) [OF Cons.prems(3,4) l] Cons.prems(3)
      by (subst filter_loop.simps) (simp add: join found_unnecessary del: contains_text.simps)
    have ls: "\<forall>l \<in> set ls. ?n \<notin> set l" using Cons.prems(2) by simp
    note drop = Cons.IH [OF False ls, of "length A" A] and keep = Cons.IH [OF False ls, of "length A + 1" "A @ ?n # l"]
    show ?thesis
    proof (cases "unnecessary l")
      case True
      with out drop False show ?thesis by simp
    next
      case nec: False
      have "\<exists>x xs. filter (\<lambda>l. \<not> unnecessary l) (butlast ls) @ [last ls] = x # xs" by (cases "filter (\<lambda>l. \<not> unnecessary l) (butlast ls)") simp_all
      then have "join_with ?n (l # filter (\<lambda>l. \<not> unnecessary l) (butlast ls) @ [last ls]) =
          l @ ?n # join_with ?n (filter (\<lambda>l. \<not> unnecessary l) (butlast ls) @ [last ls])" by auto
      with out keep nec False l show ?thesis by simp
    qed
  qed
qed simp

lemma split_on_props: "split_on s d \<noteq> [] \<and> (\<forall>p \<in> set (split_on s d). d \<notin> set p) \<and> join_with d (split_on s d) = s"
proof (induction s)
  case (Cons c s)
  then obtain p ps where p: "split_on s d = p # ps" by (cases "split_on s d") auto
  with Cons show ?case by (cases ps) auto
qed simp

subsection \<open>Properties\<close>

text \<open>
  C33: The filter for backtraces is what its name says. It leaves the first and the last line of a text as they are, and of the lines in between
  exactly those that mention none of the three files, in their order.
\<close>

theorem backtrace_filtered:
  "filter_unnecessary out =
    (case split_on out (CHR 0x0A) of
       first # rest \<Rightarrow>
         if rest = [] then out
         else join_with (CHR 0x0A) (first # filter (\<lambda>line. \<not> unnecessary line) (butlast rest) @ [last rest])
     | [] \<Rightarrow> out)"
proof -
  let ?n = "CHR 0x0A"
  note props = split_on_props [of out ?n]
  then obtain first rest where split: "split_on out ?n = first # rest" by (cases "split_on out ?n") auto
  have first: "?n \<notin> set first" "\<forall>l \<in> set rest. ?n \<notin> set l" using props split by simp_all
  show ?thesis
  proof (cases rest)
    case Nil
    then have "out = first" using props split by simp
    then show ?thesis using first(1) Nil split by (simp add: filter_unnecessary_def filter_loop.simps [of _ 0] find_char_from_none)
  next
    case (Cons x xs)
    then have ne: "rest \<noteq> []" and out: "out = first @ ?n # join_with ?n rest" using props split by auto
    have "\<exists>x xs. filter (\<lambda>l. \<not> unnecessary l) (butlast rest) @ [last rest] = x # xs"
      by (cases "filter (\<lambda>l. \<not> unnecessary l) (butlast rest)") simp_all
    then have "join_with ?n (first # filter (\<lambda>l. \<not> unnecessary l) (butlast rest) @ [last rest]) =
        first @ ?n # join_with ?n (filter (\<lambda>l. \<not> unnecessary l) (butlast rest) @ [last rest])" by auto
    moreover have "filter_loop out 0 = first @ ?n # join_with ?n (filter (\<lambda>l. \<not> unnecessary l) (butlast rest) @ [last rest])"
      using filter_loop_lines [OF ne first(2), of 0 first] first(1) by (simp add: out)
    ultimately show ?thesis using split ne by (simp add: filter_unnecessary_def)
  qed
qed

text \<open>
  The progress report on a terminal. After any reports, each of at most as many units as there are and of a path of at most 256
  characters, the row of the terminal has the text of the last report and otherwise only blanks, and the cursor is
  at the end of the text: nothing of a longer path stays visible.
\<close>

theorem progress_shows_last_report:
  assumes "r = mkProgressReporter True True msg tot" "printable msg"
    "\<forall>(n, extra) \<in> set (reports @ [(n, extra)]). n \<le> tot \<and> printable extra \<and> length extra \<le> 256"
  shows "displays (concat (map (\<lambda>(n, extra). report r n extra) (reports @ [(n, extra)]))) ([], 0) =
    (counters r n @ msg @ '' '' @ extra @ replicate (256 - length extra) (CHR '' ''),
     length (counters r n @ msg @ '' '' @ extra))"
  using reports_shown [OF assms] by (simp add: progress_line_def assms(1) mkProgressReporter_def)

theorem progress_shows_last_report_witness:
  "\<exists>s. snd (displays s ([], 0)) = length ''[ 9/12] Indexed /b.c'' \<and>
     s = concat (map (\<lambda>(n, extra). report (mkProgressReporter True True ''Indexed'' 12) n extra) [(8, ''/long/path.cc''), (9, ''/b.c'')])"
proof -
  let ?r = "mkProgressReporter True True ''Indexed'' 12"
  have "printable ''Indexed''" "\<forall>(n, extra) \<in> set ([(8 :: nat, ''/long/path.cc'')] @ [(9, ''/b.c'')]). n \<le> 12 \<and> printable extra \<and> length extra \<le> 256"
    by (simp_all add: printable_def)
  from progress_shows_last_report [OF refl this] counters_props(1) [of 9 12 ?r True True "''Indexed''"]
  have "snd (displays (concat (map (\<lambda>(n, extra). report ?r n extra) ([(8, ''/long/path.cc'')] @ [(9, ''/b.c'')]))) ([], 0)) = 20"
    by (simp add: mkProgressReporter_def compute_floorlog)
  then show ?thesis by simp
qed

text \<open>A timer that is moved is reported once, by its new owner. The error about a week is logged after a day.\<close>

lemma moved_timer: "moveTimer t = (new, old) \<Longrightarrow>
    destroyTimer c now new = destroyTimer c now t \<and> destroyTimer c now' old = (None, False)"
  by (auto simp: moveTimer_def destroyTimer_def Let_def)

lemma error_after_a_day: "now - timer_start t = 25 * 3600 * 1000000 \<Longrightarrow> c \<le> 3600 * 1000000 \<Longrightarrow> \<not> canceled t \<Longrightarrow> snd (destroyTimer c now t)"
  by (simp add: destroyTimer_def oneWeek_def Let_def)

text \<open>Reading a file in pieces gives its bytes, however they are cut, and nothing if a read fails.\<close>

lemma readLoop_chunks: "\<forall>s \<in> set chunks. s \<noteq> [] \<Longrightarrow> readLoop (map ReadBytes chunks @ rs) out = readLoop rs (out @ concat chunks)"
  by (induction chunks arbitrary: out) auto

lemma readFileToString_bytes: "\<forall>s \<in> set chunks. s \<noteq> [] \<Longrightarrow> readFileToString (Inr (map ReadBytes chunks)) = (concat chunks, None)"
  using readLoop_chunks [of chunks "[]" "[]"] by (simp add: readFileToString_def)

lemma readFileToString_error:
  "\<forall>s \<in> set chunks. s \<noteq> [] \<Longrightarrow> readFileToString (Inr (map ReadBytes chunks @ ReadError e # rs)) = ([], Some e)"
  using readLoop_chunks [of chunks "ReadError e # rs" "[]"] by (simp add: readFileToString_def)

text \<open>Of the output of a compiler, nothing after an empty line is seen.\<close>

lemma nonemptyLines_stop:
  assumes "\<forall>l \<in> set ls. l \<noteq> [] \<and> CHR 0x0A \<notin> set l"
  shows "nonemptyLines (concat (map (\<lambda>l. l @ [CHR 0x0A]) ls) @ CHR 0x0A # s) = ls"
  using assms by (induction ls) (simp_all add: nonemptyLines_def split_on_append)

text \<open>A pointer always takes eighteen characters; a short one has blanks after the prefix.\<close>

lemma formatPtr_width: "length (formatPtr p) = 18"
  using fmt_hex_fits [of p] by (simp add: formatPtr_def align_right_def)

text \<open>A range in one line of one file, and that there always is some text.\<close>

lemma formatRange_one_line:
  assumes "isFileID A l" "isFileID A m" "\<not> loc_isInvalid l" "\<not> loc_isInvalid m" "getPresumedLoc A l True = Some p" "getPresumedLoc A m True = Some q"
    "pl_filename p = pl_filename q" "pl_line p = pl_line q"
  shows "formatRange A pts l m =
    pl_filename p @ '':'' @ fmt_u32 (pl_line p) @ '':['' @ fmt_u32 (pl_column p) @ ''-'' @ fmt_u32 (pl_column q) @ ''] (FileID)''"
  using assms by (simp add: formatRange_def formatFileIdRange_def formatPresumedRange_def)

lemma formatRange_nonempty: "formatRange A pts l m \<noteq> []"
  by (auto simp: formatRange_def Let_def formatMacroRange_def split: option.splits if_splits)

end
