(* ===== verification/Spec2Isabelle.thy ===== *)
theory Spec2Isabelle
  imports Driver_Main Unit_Flow Main_Options Resources Diagnostics
begin

text \<open>
  A verification development for scip-clang, the SCIP indexer for C, C++ and CUDA (sources
  under \<^verbatim>\<open>src/indexer\<close>).

  \<^bold>\<open>The program.\<close> The driver reads a compilation database, spawns worker processes, and sends
  each of them one translation unit at a time. A worker runs the semantic analysis, reports
  the files it saw together with hash values of their preprocessed content, is told which of
  these files it should index, and writes a shard of the index. When all jobs are done the
  driver merges the shards into one index and resolves forward declarations across them.

  \<^bold>\<open>The theories\<close>, in the order of the calls, with the code they translate:

  \<^item> \<open>Prelude\<close>: results with a \<open>failure\<close> (a failed \<^verbatim>\<open>ENFORCE\<close>, an access to an empty
    optional, an exit with an error), folds over results, hash sets and maps as lists with
    distinct keys, lemmas on text, and the locale \<open>checked_machine\<close> for invariants of runs
    that may fail.
  \<^item> \<open>Comparison\<close> (Comparison.h, Comparison.cc, AbslExtras.h, Derive.h): three-way
    comparisons, sorting, and traversal of hash tables with or without sorting. The locale of
    lawful comparisons is interpreted on the comparisons of the code.
  \<^item> \<open>Paths\<close> (Path.h, Path.cc) and \<open>Symbol_Names\<close> (SymbolName.cc).
  \<^item> \<open>Ipc_Messages\<close> (IpcMessages.h, IpcMessages.cc, the serialisation macros of Derive.h):
    the messages, their JSON forms and the names of queues and shards.
  \<^item> \<open>Driver_Options\<close> (the options and message queues of Driver.cc, CliOptions.h).
  \<^item> \<open>Planner\<close> (\<^verbatim>\<open>FileIndexingPlanner\<close>) and \<open>Scheduler\<close> (\<^verbatim>\<open>Scheduler\<close>), both of Driver.cc.
  \<^item> \<open>Driver\<close> (class \<^verbatim>\<open>Driver\<close>): the handlers of the driver and the main loop as the step
    relation \<open>driver_step\<close>; \<open>Driver_Run\<close> has the invariant of all runs, proved once in the
    locale \<open>command_source\<close> from what the parser promises.
  \<^item> \<open>Command_Line\<close> (LlvmCommandLineParsing.cc, CommandLineCleaner.cc, the toolchains of
    CompilationDatabase.cc), \<open>Compilation_Database\<close> (CompilationDatabase.cc) and
    \<open>Compdb_Correct\<close>, which shows what validation accepts and what the batches of the parser
    are, and interprets \<open>command_source\<close> as \<open>compdb\<close>.
  \<^item> \<open>Scip_Data\<close>, \<open>Scip_Builders\<close> (ScipExtras.h, ScipExtras.cc), \<open>Scip_Merge\<close> (merging
    documents and writing the index), \<open>Forward_Decls\<close> (the resolver of forward declarations)
    and \<open>Index_Merging\<close> (\<^verbatim>\<open>Driver::mergeShardsAndEmit\<close>).
  \<^item> \<open>Package_Map\<close> (PackageMap.h, PackageMap.cc) and \<open>File_Metadata\<close> (IdPathMappings.h,
    IdPathMappings.cc, FileMetadata.h): which package a file belongs to, and what is known of
    every file of a translation unit. The locale \<open>cached_lookup\<close> of \<open>Package_Map\<close> is the contract
    of a lookup with a cache; it is interpreted on the package map and on the macro symbols.
  \<^item> \<open>Symbol_Format\<close> (the text of symbols, SymbolFormatter.cc), \<open>Symbol_Formatter\<close> (all
    operations of \<^verbatim>\<open>SymbolFormatter\<close> over Clang's declarations, the record \<open>clang_api\<close>) and
    \<open>Symbol_Suffixes\<close>, which has the locale \<open>symbol_cache\<close> for the two caches by declaration and
    shows what the symbols say.
  \<^item> \<open>Macro_Indexer\<close> (\<^verbatim>\<open>MacroIndexer\<close> of Indexer.h, Indexer.cc) and \<open>Preprocessor\<close>
    (Preprocessing.h, Preprocessing.cc): the callbacks of Clang's preprocessor, the hash values
    of files and the report of a semantic analysis.
  \<^item> \<open>Bounded_Search\<close>, \<open>Tu_Indexer\<close> (\<^verbatim>\<open>TuIndexer\<close>, \<^verbatim>\<open>DocComment\<close> and \<^verbatim>\<open>ForwardDeclMap\<close> of Indexer.h
    and Indexer.cc, ApproximateNameResolver.h, ApproximateNameResolver.cc, the visitor of AstConsumer.cc)
    and \<open>Tu_Correct\<close>: what is saved for each node of the syntax tree. The locale \<open>bounded_search\<close> is the
    contract of the two loops that stop after ten thousand steps, the bases of a class and the types of a
    dependent name.
  \<^item> \<open>Ast_Consumer\<close> (AstConsumer.h, AstConsumer.cc) and \<open>Shard_Correct\<close>: from the report of the
    preprocessor to the shard.
  \<^item> \<open>Json_Queue\<close> (JsonIpcQueue.h, JsonIpcQueue.cc), \<open>Worker\<close> (Worker.h, Worker.cc) and \<open>Worker_Correct\<close>: the
    messages arrive, and a worker refines \<open>session\<close>, which answers pairs of requests one after the other.
  \<^item> \<open>Ipc_Space\<close> (\<^verbatim>\<open>numWorkersUpperBound\<close> and the constructor of \<^verbatim>\<open>Driver\<close> in Driver.cc, os/Linux.cc, os/macOS.cc): how many workers there is
    room for, in IEEE arithmetic, and the queues of a driver.
  \<^item> \<open>Driver_Main\<close> (\<^verbatim>\<open>driverMain\<close>, \<^verbatim>\<open>Driver::run\<close>): the driver from its options to its exit code, composed of the theories above.
  \<^item> \<open>Unit_Flow\<close>: one translation unit on its way through driver and worker, and back.
  \<^item> \<open>Main_Options\<close> (main.cc): the command line, and that a worker reads what the driver wrote.
  \<^item> \<open>Resources\<close> (RAII.h, Enforce.h): guards that must be consumed once, and a linear type system for the programs that use them.
  \<^item> \<open>Diagnostics\<close> (ProgressReporter.cc, Timer.cc, Exception.cc, DebugHelpers.cc, FileSystem.cc): what is shown to users and developers.
  This theory puts the parser and the driver together: what holds of every run of the driver
  on a well-formed database.

  \<^bold>\<open>How the code is modelled.\<close> A struct or class is a record or a datatype, a method a function
  from the state before to the state after. Checks are those of a debug build: a failed
  \<^verbatim>\<open>ENFORCE\<close> is the value \<open>Inl (EnforceFailed _)\<close>, so that a theorem that says \<open>Inr\<close> says that
  no check fails. Job identifiers and hash values have their widths; sizes and indexes of
  containers are natural numbers. Hash maps are association lists and their iteration order is
  a parameter (\<open>hash_orders\<close>, \<open>consumer_orders\<close>), so that a theorem about the order in which a table is traversed
  holds for every order. Code of libraries is a parameter: the path functions of LLVM
  (\<open>llvm_path\<close>, with the laws \<open>posix_paths\<close>), its JSON library (\<open>json_api\<close>, \<open>json_laws\<close>),
  Clang's syntax tree and source manager (\<open>clang_api\<close>), the hash function, the
  regular expressions, the option parser (\<open>cxxopts\<close>, \<open>cxxopts_laws\<close>), the message queues of Boost (\<open>queue_api\<close>, \<open>queue_laws\<close>), the file system, processes and the clock. The witnesses of the
  properties instantiate them with concrete functions. The JSON reader of the compilation
  database is the sequence of the events it reports.

  \<^bold>\<open>Loops.\<close> The loops of the scheduler, the parser and the splitter are functions with
  termination proofs. The walk over path prefixes has fuel, the length of the path plus one,
  and the lemma \<open>prefix_walk\<close> shows that it is enough. Repeated refilling is
  \<open>parse_batches\<close> with fuel one more than the number of entries, and \<open>batches_cover_database\<close>
  shows that it returns with everything read. The loop of a worker has as fuel the number of
  rounds, and \<open>worker_answers_requests\<close> shows that one more than the number of pairs of requests is enough; it would
  go on for as long as malformed messages come in. The main loop of the driver may go on for ever
  when workers keep timing out and coming back; it is a step relation.

  \<^bold>\<open>What is shown.\<close> No run of the driver fails a check while the queues take every message, and
  at its end every task is accounted for; the whole program, from its options to the index and the exit code, does its work on a machine
  that lets it start; a translation unit that a worker analyses comes back as shards of exactly the files nobody else was given; workers
  are started with the options of the driver, and only as many as there is shared memory for; jobs are assigned in order, overdue workers are
  replaced, and responses are handled as the state demands; each file content is indexed
  exactly once; the batches of the parser are the entries of the database; messages survive
  encoding; a worker reports the files of the include tree with hash values that are a function
  of that tree; the files that are indexed are those the driver asked for and the main file, and each has its metadata; the text of a symbol tells its package
  and descriptors apart, and the caches of the symbol formatter give every declaration one symbol
  for its names and contexts; a definition and the references to it get the same symbol, a class is
  related to the classes it inherits from, and saving the nodes of a syntax tree fails no check; a shard has one document per file
  with every occurrence that was saved, whatever the hash tables do; a worker answers all requests in its
  queue in order and writes the shards its answers name; merging loses no document, occurrence or symbol, and in deterministic mode the
  written index does not depend on hash tables once forward declarations are resolved. Some
  theorems state behaviour that the comments of the code do not suggest, among them the loss
  of the rest of the database after timeouts, the failure of the driver when a request to emit
  an index cannot be sent, the check that fails when a header is indexed twice with different content, and the dependence of the resolution of forward declarations on the
  order of a hash table.

  \<^bold>\<open>Not modelled:\<close> the help texts; tracing, the sinks of the logger and the texts that are logged, signal
  handlers, and the YAML text of preprocessor histories; Clang's printing of declarations and types; the order in which Clang visits a syntax
  tree, which is an argument; concurrent access to a queue, whose
  effect on a receiver is part of the state of the queues; waiting for the exit of worker processes, which only logs; Windows paths.
\<close>

section \<open>Runs of the driver on a compilation database\<close>

text \<open>
  C1: No run of the driver fails a check. The run starts with a well-formed compilation database
  and at least one worker, the queues to the workers take every message, and a message that
  cannot be decoded is never among those that are read without waiting. In whatever order
  responses, timeouts and other undecodable messages arrive, no check of the driver, the
  scheduler or the parser fails, and in every state the loop reaches the scheduler and the
  planner are consistent.
\<close>

theorem driver_never_aborts:
  assumes "env_ok L E" "\<forall>e \<in> set es. entry_ok e" "length es \<le> 2 ^ 32" "po_refillCount po > 0" "numWorkers opts > 0"
    and "start_config (parseMore L E rx) opts spawn (initializeParser (database_events es) po) = Inr c0"
    and "driver_reaches (parseMore L E rx) L reliable c0 oc"
  shows "case oc of
      Aborted e \<Rightarrow> False
    | Running c \<Rightarrow> sched_inv (scheduler (cfg_driver c)) \<and> planner_inv (planner (cfg_driver c))
    | Finished c \<Rightarrow> sched_inv (scheduler (cfg_driver c)) \<and> planner_inv (planner (cfg_driver c))"
  using run_of_database [OF database_parser_ok [OF assms(1-4)] assms(5-7)]
  by (auto simp: compdb.outcome_ok_def compdb.settled_def compdb.run_inv_def compdb.driver_ok_def split: outcome.splits)

text \<open>
  C2: Every translation unit is accounted for. When such a run is over, all workers have been
  stopped, no job is pending or in progress, and every task the driver created either has a
  shard among the results, or is counted as an error, or its response came after its worker
  had been replaced.
\<close>

theorem driver_accounts_for_tasks:
  assumes "env_ok L E" "\<forall>e \<in> set es. entry_ok e" "length es \<le> 2 ^ 32" "po_refillCount po > 0" "numWorkers opts > 0"
    and "start_config (parseMore L E rx) opts spawn (initializeParser (database_events es) po) = Inr c0"
    and "driver_reaches (parseMore L E rx) L reliable c0 (Finished c)"
  shows "card (taskId ` dom (allJobList (sched_of c))) =
      length (allShardPaths (cfg_driver c)) + numErroredJobs (sched_of c) + card (lost c) \<and>
    pendingJobs (sched_of c) = [] \<and> wipJobs (sched_of c) = {} \<and>
    length (stoppedWorkers (sched_of c)) = length (workers (sched_of c))"
proof -
  have p: "parser_ok L E (initializeParser (database_events es) po)" by (rule database_parser_ok [OF assms(1-4)])
  have inv: "compdb.run_inv L E L c0" by (rule compdb.start_ok [OF assms(6) p assms(5)])
  have "compdb.settled L E L c" using run_of_database [OF p assms(5-7)] by (simp add: compdb.outcome_ok_def)
  then have "pendingJobs (sched_of c) = []" "wipJobs (sched_of c) = {}" by (simp_all add: compdb.settled_def)
  with compdb.finished_accounting [OF assms(7) inv] show ?thesis by blast
qed

text \<open>
  C34: The start of a run. On a well-formed database the driver starts its loop exactly when some
  entry is kept, with the first entries that are kept waiting in the order of the database;
  otherwise it exits with the message that nothing could be processed.
\<close>

theorem driver_start:
  assumes "env_ok L E" "\<forall>e \<in> set es. entry_ok e" "length es \<le> 2 ^ 32" "po_refillCount po > 0"
  shows "case start_config (parseMore L E rx) opts spawn (initializeParser (database_events es) po) of
      Inr c0 \<Rightarrow> (\<exists>e \<in> set es. keeps L E rx po (command_of e)) \<and> pendingJobs (sched_of c0) \<noteq> [] \<and>
        (\<exists>rest. map (newTask \<circ> word_of_nat \<circ> index) (kept_from (keeps L E rx po) 0 (map command_of es)) =
           pendingJobs (sched_of c0) @ rest)
    | Inl err \<Rightarrow> (\<forall>e \<in> set es. \<not> keeps L E rx po (command_of e)) \<and>
        err = ExitFailure ''compilation database has no entries that could be processed''"
proof -
  let ?p = "initializeParser (database_events es) po" and ?P = "keeps L E rx po"
  obtain m out s' p' where m: "m \<le> length es" "out = [] \<longrightarrow> m = length es"
      "map cmd_key out = map cmd_key (kept_from ?P 0 (map command_of (take m es)))" "pendingJobs s' = map task_of out"
    and run: "start_config (parseMore L E rx) opts spawn ?p =
      (if out = [] then Inl (ExitFailure ''compilation database has no entries that could be processed'')
       else Inr \<lparr>cfg_phase = AtTop, cfg_refill = length out, cfg_driver = (initial_driver opts ?p)\<lparr>scheduler := s', compdbParser := p'\<rparr>,
         cfg_queue = [], completed = {}, lost = {}\<rparr>)"
    using start_batch [OF assms, of rx opts spawn] by blast
  have all: "kept_from ?P 0 (map command_of es) = kept_from ?P 0 (map command_of (take m es)) @
      kept_from ?P m (map command_of (drop m es))"
    using kept_from_append [of ?P 0 "map command_of (take m es)" "map command_of (drop m es)"] m(1)
    by (simp flip: map_append add: min_absorb2)
  have none: "kept_from ?P i cs = [] \<longleftrightarrow> (\<forall>c \<in> set cs. \<not> ?P c)" for i cs by (induction cs arbitrary: i) auto
  have out: "out = [] \<longleftrightarrow> (\<forall>e \<in> set es. \<not> ?P (command_of e))"
  proof
    assume "out = []"
    then have "kept_from ?P 0 (map command_of es) = []" using m(2,3) by simp
    then show "\<forall>e \<in> set es. \<not> ?P (command_of e)" by (simp add: none)
  next
    assume "\<forall>e \<in> set es. \<not> ?P (command_of e)"
    then have "kept_from ?P 0 (map command_of (take m es)) = []" using in_set_takeD by (fastforce simp: none)
    then show "out = []" using m(3) by simp
  qed
  have idx: "map task_of out = map (newTask \<circ> word_of_nat \<circ> index) (kept_from ?P 0 (map command_of (take m es)))"
    using arg_cong [OF map_index_key [OF m(3)], of "map (newTask \<circ> word_of_nat)"] by (simp add: task_of_def [abs_def] comp_def)
  show ?thesis
  proof (cases "out = []")
    case True
    then show ?thesis unfolding run using out by simp
  next
    case False
    then show ?thesis unfolding run using out m(4) idx all by (auto simp: sched_of_def)
  qed
qed

text \<open>
  C35: Slow workers hide the rest of the database. However large the database is, there is a run in
  which every worker is too slow for every job, and which ends after the first batch: at most
  as many translation units as one refill has are ever considered, and the parser is left
  where it was.
\<close>

theorem timeouts_hide_entries:
  assumes "env_ok L E" "\<forall>e \<in> set es. entry_ok e" "length es \<le> 2 ^ 32" "po_refillCount po > 0" "numWorkers opts > 0"
    and "start_config (parseMore L E rx) opts spawn (initializeParser (database_events es) po) = Inr c0"
  shows "\<exists>c. driver_reaches (parseMore L E rx) L reliable c0 (Finished c) \<and>
    compdbParser (cfg_driver c) = compdbParser (cfg_driver c0) \<and> allShardPaths (cfg_driver c) = [] \<and>
    card (dom (allJobList (sched_of c))) \<le> po_refillCount po"
proof -
  obtain out s' p' where out: "length out \<le> po_refillCount po" "dom (allJobList s') = task_of ` set out"
    and c0: "c0 = \<lparr>cfg_phase = AtTop, cfg_refill = length out,
       cfg_driver = (initial_driver opts (initializeParser (database_events es) po))\<lparr>scheduler := s', compdbParser := p'\<rparr>,
       cfg_queue = [], completed = {}, lost = {}\<rparr>"
    using start_batch [OF assms(1-4), of rx opts spawn] assms(6) by (auto split: if_splits)
  have "compdb.fresh_round L E L c0" by (rule compdb.start_fresh [OF assms(6) database_parser_ok [OF assms(1-4)] assms(5)])
  from compdb.slow_workers_finish [OF reach_init this] obtain c where
    c: "driver_reaches (parseMore L E rx) L reliable c0 (Finished c)" "compdb.same_work c0 c" by blast
  have "card (dom (allJobList s')) \<le> po_refillCount po"
    unfolding out(2) using out(1) card_image_le [of "set out" task_of] card_length [of out] by simp
  with c show ?thesis by (auto simp: compdb.same_work_def c0 sched_of_def initial_driver_def)
qed

text \<open>
  C36: A failed request for the second half of a job stops the driver. When a worker has finished
  the semantic analysis of a translation unit and the queue does not take the request to emit
  its index, the driver takes the job back from the worker and then terminates the worker as
  if it still had a job; reading the worker's job fails, whatever the state.
\<close>

theorem failed_emit_request_stops_driver:
  assumes "sched_inv (scheduler d)" "planner_inv (planner d)"
    and "unat (rsp_workerId rsp) < length (workers (scheduler d))"
    and "cur (scheduler d) (unat (rsp_workerId rsp)) = Some (rsp_jobId rsp)"
    and "allJobList (scheduler d) (rsp_jobId rsp) = Some t" "job_kind (tj_job t) = SemanticAnalysis"
    and "res_kind (rsp_result rsp) = SemanticAnalysis" "sema_result_ok L (res_semanticAnalysis (rsp_result rsp))"
    and "\<forall>r. \<not> send (unat (rsp_workerId rsp)) r"
  shows "processWorkerResponse L send now newHandle rsp d = Inl BadOptionalAccess"
proof -
  let ?s = "scheduler d" and ?w = "unat (rsp_workerId rsp)" and ?j = "rsp_jobId rsp"
  obtain u where j: "?j = newTask u" using kinds1 [OF assms(1,5)] assms(6) by (cases ?j) (auto simp: newTask_def)
  obtain pl out where pl: "saveSemaResult L (res_semanticAnalysis (rsp_result rsp)) (planner d) = Inr (pl, out)"
    using saveSemaResult_spec [OF assms(2,8)] by blast
  let ?job = "\<lparr>job_kind = EmitIndex, job_command = default_CommandObject, job_filesToBeIndexed = out\<rparr>"
  let ?sub = "\<lparr>taskId = u, subtaskId = 1\<rparr>"
  obtain s' where s': "createSubtaskAndScheduleOnWorker now ?w ?j ?job (released ?w ?j ?s) =
        Inr (\<lparr>req_id = ?sub, req_job = ?job\<rparr>, s')" "sched_inv s'" "cur s' ?w = Some ?sub" "?w < length (workers s')"
    using createSubtask_inv [OF assms(1,3) assms(4) [unfolded j], of ?job now] assms(3) unfolding j by auto
  have "terminateRunningWorker ?w newHandle (released ?w ?sub s') = Inl BadOptionalAccess"
    using s'(4) by (simp add: terminateRunningWorker_def get_worker_def released_def set_worker_def opt_value_def)
  then show ?thesis
    using markCompleted_current [OF assms(1,3,4,5,6)] assms(7,9) pl s'(1) deschedule_eq [OF s'(2,4,3)]
    by (simp add: processWorkerResponse_def handleSemaResult_def)
qed

text \<open>
  A late response is forgotten. When the response of a worker that was replaced arrives, its
  job is no longer counted as an error, but its result is not used either: no shard is
  recorded, and the translation unit is neither indexed nor reported.
\<close>

theorem late_response_forgotten:
  assumes "sched_inv (scheduler d)" "unat (rsp_workerId rsp) < length (workers (scheduler d))"
    and "cur (scheduler d) (unat (rsp_workerId rsp)) \<noteq> Some (rsp_jobId rsp)" "rsp_jobId rsp \<in> maybeErroredJobs (scheduler d)"
    and "allJobList (scheduler d) (rsp_jobId rsp) = Some t" "assignedWorker t = Some (unat (rsp_workerId rsp))"
      "job_kind (tj_job t) = res_kind (rsp_result rsp)"
  shows "\<exists>d'. processWorkerResponse L send now newHandle rsp d = Inr d' \<and>
    d' = d\<lparr>scheduler := (scheduler d)\<lparr>maybeErroredJobs := maybeErroredJobs (scheduler d) - {rsp_jobId rsp}\<rparr>\<rparr> \<and>
    numErroredJobs (scheduler d') = numErroredJobs (scheduler d) - 1 \<and> allShardPaths d' = allShardPaths d"
proof -
  have "tracked (scheduler d) (rsp_jobId rsp) (Some (unat (rsp_workerId rsp)))" using assms(5,6) by (simp add: tracked_def)
  from markCompleted_dead [OF assms(1-4) this assms(5,7)] assms(4) show ?thesis
    by (simp add: processWorkerResponse_def numErroredJobs_def card_Diff_singleton)
qed

section \<open>The properties on concrete inputs\<close>

text \<open>A database of three files, and the start of the driver on it with one worker.\<close>

definition sample_database :: "compdb_entry list" where
  "sample_database = map sample_entry [''a.c'', ''b.c'', ''c.c'']"

definition sample_start :: "ResumableParser config result" where
  "sample_start = start_config (parseMore slash_paths sample_tool_env (\<lambda>r s. True)) sample_options (\<lambda>w. 0)
     (initializeParser (database_events sample_database) sample_parse_options)"

lemma sample_database_ok:
  "\<forall>e \<in> set sample_database. entry_ok e" "length sample_database \<le> 2 ^ 32"
  "po_refillCount sample_parse_options > 0" "numWorkers sample_options > 0"
  using sample_entry_ok(1) by (simp_all add: sample_database_def sample_parse_options_def sample_options_def)

lemma sample_keeps: "keeps slash_paths sample_tool_env (\<lambda>r s. True) sample_parse_options = (\<lambda>c. True)"
  by (simp add: keeps_def sample_parse_options_def fun_eq_iff)

text \<open>The driver starts on it, and one of its runs ends.\<close>

lemma sample_run:
  "\<exists>c0 c. sample_start = Inr c0 \<and>
     driver_reaches (parseMore slash_paths sample_tool_env (\<lambda>r s. True)) slash_paths reliable c0 (Finished c)"
proof -
  let ?p = "initializeParser (database_events sample_database) sample_parse_options"
  obtain m out s' p' where m: "m \<le> length sample_database" "out = [] \<longrightarrow> m = length sample_database"
      "map cmd_key out = map cmd_key (kept_from (\<lambda>c. True) 0 (map command_of (take m sample_database)))"
    and run: "sample_start =
      (if out = [] then Inl (ExitFailure ''compilation database has no entries that could be processed'')
       else Inr \<lparr>cfg_phase = AtTop, cfg_refill = length out,
         cfg_driver = (initial_driver sample_options ?p)\<lparr>scheduler := s', compdbParser := p'\<rparr>,
         cfg_queue = [], completed = {}, lost = {}\<rparr>)"
    using start_batch [OF sample_env_ok sample_database_ok(1-3), of "\<lambda>r s. True" sample_options "\<lambda>w. 0"]
    unfolding sample_start_def sample_keeps by blast
  have "out \<noteq> []" using m(2,3) by (auto simp: sample_database_def)
  then obtain c0 where c0: "sample_start = Inr c0" using run by simp
  from compdb.start_fresh [OF c0 [unfolded sample_start_def]
      database_parser_ok [OF sample_env_ok sample_database_ok(1-3)] sample_database_ok(4)]
  have "compdb.fresh_round slash_paths sample_tool_env slash_paths c0" .
  from compdb.slow_workers_finish [OF reach_init this] c0 show ?thesis by blast
qed

theorem driver_never_aborts_witness:
  "\<exists>c0 c. sample_start = Inr c0 \<and>
     driver_reaches (parseMore slash_paths sample_tool_env (\<lambda>r s. True)) slash_paths reliable c0 (Finished c) \<and>
     sched_inv (scheduler (cfg_driver c))"
  using sample_run driver_never_aborts [OF sample_env_ok sample_database_ok, of "\<lambda>r s. True" "\<lambda>w. 0"]
  unfolding sample_start_def by fastforce

theorem driver_accounts_for_tasks_witness:
  "\<exists>c0 c. sample_start = Inr c0 \<and>
     driver_reaches (parseMore slash_paths sample_tool_env (\<lambda>r s. True)) slash_paths reliable c0 (Finished c) \<and>
     card (taskId ` dom (allJobList (sched_of c))) =
       length (allShardPaths (cfg_driver c)) + numErroredJobs (sched_of c) + card (lost c)"
  using sample_run driver_accounts_for_tasks [OF sample_env_ok sample_database_ok, of "\<lambda>r s. True" "\<lambda>w. 0"]
  unfolding sample_start_def by blast

theorem driver_start_witness:
  "\<exists>c0. sample_start = Inr c0 \<and> pendingJobs (sched_of c0) \<noteq> [] \<and>
     (\<exists>rest. [newTask 0, newTask 1, newTask 2] = pendingJobs (sched_of c0) @ rest)"
proof -
  have tasks: "map (newTask \<circ> word_of_nat \<circ> index) (kept_from (\<lambda>c. True) 0 (map command_of sample_database)) =
      [newTask 0, newTask 1, newTask 2]"
    by (simp add: sample_database_def)
  obtain c0 where c0: "sample_start = Inr c0" using sample_run by blast
  show ?thesis
    using driver_start [OF sample_env_ok sample_database_ok(1-3), of "\<lambda>r s. True" sample_options "\<lambda>w. 0"]
    unfolding sample_keeps sample_start_def [symmetric] tasks c0 sum.case by blast
qed

theorem timeouts_hide_entries_witness:
  "\<exists>c0 c. sample_start = Inr c0 \<and>
     driver_reaches (parseMore slash_paths sample_tool_env (\<lambda>r s. True)) slash_paths reliable c0 (Finished c) \<and>
     allShardPaths (cfg_driver c) = [] \<and> card (dom (allJobList (sched_of c))) \<le> 2 \<and> length sample_database = 3"
proof -
  obtain c0 where c0: "sample_start = Inr c0" using sample_run by blast
  from timeouts_hide_entries [OF sample_env_ok sample_database_ok this [unfolded sample_start_def]]
  show ?thesis using c0 by (auto simp: sample_parse_options_def sample_database_def)
qed

text \<open>A driver in the middle of a run: the first of two workers has a job.\<close>

definition busy_driver :: "unit Driver" where
  "busy_driver = (initial_driver sample_options ())\<lparr>scheduler := sample_scheduler\<rparr>"

definition sample_response :: IndexJobResponse where
  "sample_response = \<lparr>rsp_workerId = 0, rsp_jobId = newTask 0,
     rsp_result = \<lparr>res_kind = SemanticAnalysis, res_semanticAnalysis = sample_report, res_emitIndex = default_EmitResult\<rparr>\<rparr>"

theorem failed_emit_request_stops_driver_witness:
  "processWorkerResponse slash_paths (\<lambda>w r. False) 9 99 sample_response busy_driver = Inl BadOptionalAccess"
proof (rule failed_emit_request_stops_driver)
  show "allJobList (scheduler busy_driver) (rsp_jobId sample_response) = Some \<lparr>tj_job = sample_job, assignedWorker = Some 0\<rparr>"
    by (simp add: busy_driver_def sample_scheduler_def sample_response_def newTask_def)
qed (simp_all add: busy_driver_def initial_driver_def sample_sched_inv sample_report_ok sample_response_def planner_inv_def,
     simp_all add: sample_scheduler_def sample_job_def default_IndexJob_def)

theorem late_response_forgotten_witness:
  "\<exists>s d'. terminateRunningWorker 0 99 sample_scheduler = Inr s \<and> numErroredJobs s = 1 \<and>
     processWorkerResponse slash_paths (\<lambda>w r. True) 9 99 sample_response (busy_driver\<lparr>scheduler := s\<rparr>) = Inr d' \<and>
     numErroredJobs (scheduler d') = 0 \<and> allShardPaths d' = []"
proof -
  have "0 < length (workers sample_scheduler)" "cur sample_scheduler 0 = Some (newTask 0)" by (simp_all add: sample_scheduler_def)
  from terminateRunningWorker_inv [OF sample_sched_inv this, of 99] obtain s where
    s: "terminateRunningWorker 0 99 sample_scheduler = Inr s" "sched_inv s" "wipJobs s = {}" "maybeErroredJobs s = {newTask 0}"
      "length (workers s) = 2" "allJobList s = allJobList sample_scheduler"
    by (auto simp: sample_scheduler_def)
  have cur: "cur s 0 \<noteq> Some (newTask 0)" using wip_iff [OF s(2), of "newTask 0"] s(3,5) by auto
  let ?d = "busy_driver\<lparr>scheduler := s\<rparr>"
  have pre: "sched_inv (scheduler ?d)" "unat (rsp_workerId sample_response) < length (workers (scheduler ?d))"
      "cur (scheduler ?d) (unat (rsp_workerId sample_response)) \<noteq> Some (rsp_jobId sample_response)"
      "rsp_jobId sample_response \<in> maybeErroredJobs (scheduler ?d)"
      "allJobList (scheduler ?d) (rsp_jobId sample_response) = Some \<lparr>tj_job = sample_job, assignedWorker = Some 0\<rparr>"
    using s cur by (simp_all add: sample_response_def) (simp add: sample_scheduler_def newTask_def)
  have n: "numErroredJobs s = 1" using s(4) by (simp add: numErroredJobs_def)
  have "allShardPaths ?d = []" by (simp add: busy_driver_def initial_driver_def)
  with late_response_forgotten [OF pre, of slash_paths "\<lambda>w r. True" 9 99] s(1) n show ?thesis
    by (auto simp: sample_response_def sample_job_def default_IndexJob_def)
qed

end
